(* ===== verification/Rust_Prelude.thy ===== *)
theory Rust_Prelude
  imports Main "HOL-Library.Word" "HOL-Library.List_Lexorder" "HOL-Library.Char_ord"
    "HOL-Library.Multiset"
begin

text \<open>
  What every component of the development shares: the representation of Rust's characters,
  strings, machine integers, \<open>Result\<close> values and ordered maps, the rendering and parsing of
  decimal and hexadecimal numbers, and the lemma collections the component theories use.

  A Rust \<open>char\<close> is its Unicode scalar value, a natural number; a Rust string is the list of its
  characters. The byte length \<open>str::len\<close> is the function \<open>utf8_len\<close> below, the character count
  \<open>chars().count()\<close> is \<open>length\<close>. No theorem needs the scalar values to be in range, so all of
  them hold of the strings Rust can build. \<open>str\<close> literals of the source are written
  \<open>lit ''...''\<close>.
\<close>

section \<open>Characters, strings and machine integers\<close>

type_synonym rchar = nat
type_synonym rstr = "rchar list"
type_synonym u32 = "32 word"
type_synonym u64 = "64 word"
type_synonym i64 = "64 word" \<comment> \<open>read with \<open>sint\<close>\<close>

named_theorems str_simps \<open>equations that evaluate string operations\<close>
named_theorems result_simps \<open>equations about results and their propagation\<close>

definition lit :: "string \<Rightarrow> rstr" where
  "lit s = map of_char s"

lemma lit_inj [simp]: "lit a = lit b \<longleftrightarrow> a = b"
  unfolding lit_def by (simp add: inj_map_eq_map inj_def)

lemma lit_less [simp]: "lit a < lit b \<longleftrightarrow> a < b"
proof (induction a arbitrary: b)
  case Nil
  then show ?case by (cases b) (auto simp: lit_def)
next
  case (Cons c a)
  then show ?case by (cases b) (auto simp: lit_def less_char_def)
qed

lemma lit_Nil_iff [simp]: "lit a = [] \<longleftrightarrow> a = []"
  by (simp add: lit_def)

lemma lit_Nil_iff2 [simp]: "[] = lit a \<longleftrightarrow> a = []"
  by (auto simp: lit_def)

fun utf8_width :: "rchar \<Rightarrow> nat" where
  "utf8_width c = (if c < 128 then 1 else if c < 2048 then 2 else if c < 65536 then 3 else 4)"

definition utf8_len :: "rstr \<Rightarrow> nat" where
  "utf8_len s = sum_list (map utf8_width s)"

lemma utf8_len_Nil [simp]: "utf8_len [] = 0"
  by (simp add: utf8_len_def)

lemma utf8_len_append [simp]: "utf8_len (a @ b) = utf8_len a + utf8_len b"
  by (simp add: utf8_len_def)

lemma length_le_utf8_len: "length s \<le> utf8_len s"
  by (induction s) (auto simp: utf8_len_def)

section \<open>Results\<close>

text \<open>
  \<open>Result<T, E>\<close> is \<open>'e + 'a\<close>, with \<open>Inl\<close> for \<open>Err\<close>. \<open>res_bind\<close> is the operator \<open>?\<close>,
  \<open>ok_or\<close> is \<open>Option::ok_or\<close>, and \<open>collect\<close> is \<open>map(..).collect::<Result<Vec<_>, _>>()\<close>,
  which stops at the first error.
\<close>

fun res_bind :: "'err + 'x \<Rightarrow> ('x \<Rightarrow> 'err + 'y) \<Rightarrow> 'err + 'y" where
  "res_bind (Inl e) f = Inl e"
| "res_bind (Inr x) f = f x"

fun ok_or :: "'e \<Rightarrow> 'a option \<Rightarrow> 'e + 'a" where
  "ok_or e None = Inl e"
| "ok_or e (Some x) = Inr x"

fun collect :: "('x \<Rightarrow> 'err + 'y) \<Rightarrow> 'x list \<Rightarrow> 'err + 'y list" where
  "collect f [] = Inr []"
| "collect f (x # xs) = res_bind (f x) (\<lambda>y. res_bind (collect f xs) (\<lambda>ys. Inr (y # ys)))"

text \<open>\<open>Option::unwrap_or\<close>.\<close>

definition unwrap_or :: "'a \<Rightarrow> 'a option \<Rightarrow> 'a" where
  "unwrap_or d x = (case x of None \<Rightarrow> d | Some y \<Rightarrow> y)"

text \<open>\<open>Option::transpose\<close> after a \<open>map\<close>: a present value must convert.\<close>

fun transpose_map :: "('a \<Rightarrow> 'e + 'b) \<Rightarrow> 'a option \<Rightarrow> 'e + 'b option" where
  "transpose_map f None = Inr None"
| "transpose_map f (Some x) = res_bind (f x) (\<lambda>y. Inr (Some y))"

lemma res_bind_Inr_iff [result_simps]:
  "res_bind m f = Inr y \<longleftrightarrow> (\<exists>x. m = Inr x \<and> f x = Inr y)"
  by (cases m) auto

lemma res_bind_Inl_iff [result_simps]:
  "res_bind m f = Inl e \<longleftrightarrow> m = Inl e \<or> (\<exists>x. m = Inr x \<and> f x = Inl e)"
  by (cases m) auto

lemma ok_or_Inr_iff [result_simps]: "ok_or e m = Inr x \<longleftrightarrow> m = Some x"
  by (cases m) auto

lemma map_sum_Inr_iff [result_simps]: "map_sum f g x = Inr y \<longleftrightarrow> (\<exists>z. x = Inr z \<and> y = g z)"
  by (cases x) auto

lemma collect_map_Inr:
  assumes "\<And>x. x \<in> set xs \<Longrightarrow> g (f x) = Inr x"
  shows "collect g (map f xs) = Inr xs"
  using assms by (induction xs) auto

lemma collect_length: "collect f xs = Inr ys \<Longrightarrow> length ys = length xs"
  by (induction xs arbitrary: ys) (auto simp: result_simps)

section \<open>Lists and words\<close>

lemma in_set_tl: "x \<in> set (tl xs) \<Longrightarrow> x \<in> set xs"
  by (cases xs) auto

lemma map_filter_append [simp]:
  "List.map_filter f (xs @ ys) = List.map_filter f xs @ List.map_filter f ys"
  by (simp add: List.map_filter_def)

lemma map_filter_Cons [simp]:
  "List.map_filter f (x # xs) =
     (case f x of None \<Rightarrow> List.map_filter f xs | Some y \<Rightarrow> y # List.map_filter f xs)"
  by (simp add: List.map_filter_def split: option.splits)

lemma map_filter_Nil [simp]: "List.map_filter f [] = []"
  by (simp add: List.map_filter_def)

lemma length_map_filter: "length (List.map_filter f xs) = length (filter (\<lambda>x. f x \<noteq> None) xs)"
  by (induction xs) (auto split: option.splits)

lemma unat_of_nat_u32: "n < 2 ^ 32 \<Longrightarrow> unat (of_nat n :: u32) = n"
  by (simp add: unsigned_of_nat take_bit_nat_eq_self)

section \<open>Decimal and hexadecimal numbers\<close>

text \<open>\<open>to_string\<close> of an unsigned integer, and of a signed one.\<close>

fun show_nat :: "nat \<Rightarrow> rstr" where
  "show_nat n = (if n < 10 then [48 + n] else show_nat (n div 10) @ [48 + n mod 10])"

declare show_nat.simps [simp del]

definition show_int :: "int \<Rightarrow> rstr" where
  "show_int i = (if i < 0 then 45 # show_nat (nat (- i)) else show_nat (nat i))"

definition is_digit :: "rchar \<Rightarrow> bool" where
  "is_digit c \<longleftrightarrow> 48 \<le> c \<and> c \<le> 57"

fun digits_val :: "nat \<Rightarrow> rstr \<Rightarrow> nat option" where
  "digits_val acc [] = Some acc"
| "digits_val acc (c # cs) = (if is_digit c then digits_val (acc * 10 + (c - 48)) cs else None)"

text \<open>
  \<open>str::parse\<close> for \<open>u64\<close> and \<open>i64\<close>: an optional sign (\<open>+\<close>; for \<open>i64\<close> also \<open>-\<close>), at least one
  digit, nothing else, and a value in range.
\<close>

definition parse_u64 :: "rstr \<Rightarrow> u64 option" where
  "parse_u64 s =
     (let d = (case s of [] \<Rightarrow> s | c # r \<Rightarrow> if c = 43 then r else s) in
      if d = [] then None
      else case digits_val 0 d of
             None \<Rightarrow> None
           | Some n \<Rightarrow> if n < 2 ^ 64 then Some (of_nat n) else None)"

definition parse_i64 :: "rstr \<Rightarrow> i64 option" where
  "parse_i64 s =
     (let neg = (s \<noteq> [] \<and> hd s = 45);
          d = (case s of [] \<Rightarrow> s | c # r \<Rightarrow> if c = 43 \<or> c = 45 then r else s) in
      if d = [] then None
      else case digits_val 0 d of
             None \<Rightarrow> None
           | Some n \<Rightarrow>
               (let v = (if neg then - int n else int n) in
                if - (2 ^ 63) \<le> v \<and> v < 2 ^ 63 then Some (word_of_int v) else None))"

lemma digits_val_append:
  "digits_val acc (a @ b) = (case digits_val acc a of None \<Rightarrow> None | Some n \<Rightarrow> digits_val n b)"
  by (induction a arbitrary: acc) auto

lemma show_nat_nonempty [simp]: "show_nat n \<noteq> []"
  by (subst show_nat.simps) simp

lemma show_nat_digits: "\<forall>c \<in> set (show_nat n). is_digit c"
proof (induction n rule: show_nat.induct)
  case (1 n)
  then show ?case
    by (subst show_nat.simps) (auto simp: is_digit_def)
qed

lemma digits_val_show_nat [simp]: "digits_val 0 (show_nat n) = Some n"
proof (induction n rule: show_nat.induct)
  case (1 n)
  show ?case
  proof (cases "n < 10")
    case True
    then show ?thesis by (subst show_nat.simps) (simp add: is_digit_def)
  next
    case False
    with 1 have "digits_val 0 (show_nat (n div 10)) = Some (n div 10)" by simp
    then show ?thesis using False
      by (subst show_nat.simps) (simp add: digits_val_append is_digit_def)
  qed
qed

lemma show_nat_hd: "is_digit (hd (show_nat n))"
  using show_nat_digits[of n] by (cases "show_nat n") auto

lemma show_nat_Cons: obtains c cs where "show_nat n = c # cs" "is_digit c" "\<forall>x\<in>set cs. is_digit x"
  using show_nat_digits[of n] show_nat_nonempty[of n] by (cases "show_nat n") auto

lemma parse_u64_show: "parse_u64 (show_nat (unat x)) = Some x"
proof -
  obtain c cs where c: "show_nat (unat x) = c # cs" "is_digit c" using show_nat_Cons by blast
  have "unat x < 2 ^ 64" using unsigned_less[of x] by simp
  then show ?thesis
    using c digits_val_show_nat[of "unat x"] by (auto simp: parse_u64_def is_digit_def Let_def)
qed

lemma parse_i64_show: "parse_i64 (show_int (sint x)) = Some x"
proof (cases "sint x < 0")
  case True
  have "- (2 ^ 63) \<le> sint x" using sint_ge[of x] by simp
  with True show ?thesis by (simp add: parse_i64_def show_int_def Let_def)
next
  case False
  obtain c cs where c: "show_nat (nat (sint x)) = c # cs" "is_digit c" using show_nat_Cons by blast
  have "sint x < 2 ^ 63" using sint_lt[of x] by simp
  with False show ?thesis
    using c digits_val_show_nat[of "nat (sint x)"]
    by (auto simp: parse_i64_def show_int_def Let_def is_digit_def)
qed

text \<open>The lower-case hexadecimal formats \<open>{:x}\<close> and \<open>{:08x}\<close>.\<close>

definition hex_digit :: "nat \<Rightarrow> rchar" where
  "hex_digit n = (if n < 10 then 48 + n else 87 + n)"

fun show_hex :: "nat \<Rightarrow> rstr" where
  "show_hex n = (if n < 16 then [hex_digit n] else show_hex (n div 16) @ [hex_digit (n mod 16)])"

declare show_hex.simps [simp del]

definition pad_left :: "nat \<Rightarrow> rchar \<Rightarrow> rstr \<Rightarrow> rstr" where
  "pad_left w c s = replicate (w - length s) c @ s"

section \<open>Ordered maps\<close>

text \<open>
  A \<open>BTreeMap\<close> is the list of its entries in key order. \<open>bt_insert\<close> keeps the order and
  replaces the value of a key that is present.
\<close>

fun bt_insert :: "'k::linorder \<Rightarrow> 'v \<Rightarrow> ('k \<times> 'v) list \<Rightarrow> ('k \<times> 'v) list" where
  "bt_insert k v [] = [(k, v)]"
| "bt_insert k v ((k', v') # m) =
     (if k < k' then (k, v) # (k', v') # m
      else if k = k' then (k, v) # m
      else (k', v') # bt_insert k v m)"

abbreviation bt_get :: "('k \<times> 'v) list \<Rightarrow> 'k \<Rightarrow> 'v option" where
  "bt_get \<equiv> map_of"

definition bt_ok :: "('k::linorder \<times> 'v) list \<Rightarrow> bool" where
  "bt_ok m \<longleftrightarrow> sorted_wrt (<) (map fst m)"

lemma bt_ok_Nil [simp]: "bt_ok []"
  by (simp add: bt_ok_def)

lemma bt_ok_Cons: "bt_ok ((k, v) # m) \<longleftrightarrow> bt_ok m \<and> (\<forall>k' \<in> fst ` set m. k < k')"
  by (auto simp: bt_ok_def)

lemma fst_set_bt_insert: "fst ` set (bt_insert k v m) = insert k (fst ` set m)"
  by (induction k v m rule: bt_insert.induct) (simp_all add: insert_commute)

lemma bt_ok_insert: "bt_ok m \<Longrightarrow> bt_ok (bt_insert k v m)"
  by (induction m) (fastforce simp: bt_ok_Cons fst_set_bt_insert)+

lemma bt_get_insert: "bt_get (bt_insert k v m) = (bt_get m)(k \<mapsto> v)"
  by (induction m) (auto simp: fun_eq_iff)

lemma bt_insert_last:
  "(\<forall>k' \<in> fst ` set m. k' < k) \<Longrightarrow> bt_insert k v m = m @ [(k, v)]"
  by (induction m) (auto simp: less_not_sym)

lemma bt_ok_distinct: "bt_ok m \<Longrightarrow> distinct (map fst m)"
  unfolding bt_ok_def by (metis strict_sorted_iff)

lemma map_of_rev_distinct: "distinct (map fst m) \<Longrightarrow> map_of (rev m) = map_of m"
  by (subst map_of_inject_set) (simp_all add: rev_map[symmetric])

lemma bt_ok_ext:
  assumes "bt_ok m" "bt_ok m'" "bt_get m = bt_get m'"
  shows "m = m'"
proof -
  have d: "distinct (map fst m)" "distinct (map fst m')"
    using assms by (auto intro: bt_ok_distinct)
  then have "set m = set m'" using assms(3) map_of_inject_set by blast
  moreover have "sorted (map fst m)" "sorted (map fst m')"
    using assms unfolding bt_ok_def by (simp_all add: strict_sorted_iff)
  moreover have "inj_on fst (set m \<union> set m')"
    using d(1) \<open>set m = set m'\<close> by (simp add: distinct_map)
  ultimately show ?thesis using d by (intro map_sorted_distinct_set_unique[of fst])
qed

text \<open>The interface the components use: insertion, lookup and iteration of an ordered map.\<close>

locale ordered_map =
  fixes empty :: "'m"
    and insert :: "'k \<Rightarrow> 'v \<Rightarrow> 'm \<Rightarrow> 'm"
    and get :: "'m \<Rightarrow> 'k \<Rightarrow> 'v option"
    and entries :: "'m \<Rightarrow> ('k \<times> 'v) list"
    and ok :: "'m \<Rightarrow> bool"
  assumes get_empty: "get empty = Map.empty"
    and entries_empty: "entries empty = []"
    and ok_empty: "ok empty"
    and ok_insert: "ok m \<Longrightarrow> ok (insert k v m)"
    and get_insert: "ok m \<Longrightarrow> get (insert k v m) = (get m)(k \<mapsto> v)"
    and get_entries: "ok m \<Longrightarrow> get m = map_of (entries m)"
    and entries_inj: "ok m \<Longrightarrow> ok m' \<Longrightarrow> get m = get m' \<Longrightarrow> m = m'"
begin

definition insert_all :: "('k \<times> 'v) list \<Rightarrow> 'm \<Rightarrow> 'm" where
  "insert_all kvs m = fold (\<lambda>(k, v). insert k v) kvs m"

lemma insert_all_ok: "ok m \<Longrightarrow> ok (insert_all kvs m)"
  by (induction kvs arbitrary: m) (auto simp: insert_all_def ok_insert)

lemma get_insert_all: "ok m \<Longrightarrow> get (insert_all kvs m) = get m ++ map_of (rev kvs)"
proof (induction kvs arbitrary: m)
  case Nil
  then show ?case by (simp add: insert_all_def)
next
  case (Cons kv kvs)
  obtain k v where kv: "kv = (k, v)" by (cases kv)
  have "get (insert_all (kv # kvs) m) = get (insert_all kvs (insert k v m))"
    by (simp add: insert_all_def kv)
  also have "\<dots> = get (insert k v m) ++ map_of (rev kvs)"
    by (rule Cons.IH) (rule ok_insert[OF Cons.prems])
  also have "\<dots> = get m ++ map_of (rev (kv # kvs))"
    using Cons.prems by (simp add: get_insert kv)
  finally show ?case .
qed

text \<open>Inserting the entries of a map into the empty map builds the same map.\<close>

lemma rebuild:
  assumes "ok m" "distinct (map fst (entries m))"
  shows "insert_all (entries m) empty = m"
proof (rule entries_inj)
  show "ok (insert_all (entries m) empty)" by (rule insert_all_ok[OF ok_empty])
  show "get (insert_all (entries m) empty) = get m"
    using assms by (simp add: get_insert_all ok_empty get_empty get_entries map_of_rev_distinct)
qed (rule assms(1))

end

interpretation btree: ordered_map "[] :: ('k::linorder \<times> 'v) list" bt_insert bt_get "\<lambda>m. m" bt_ok
  by unfold_locales (auto simp: bt_ok_insert bt_get_insert intro: bt_ok_ext)

lemma bt_rebuild: "bt_ok m \<Longrightarrow> fold (\<lambda>(k, v). bt_insert k v) m [] = m"
  using btree.rebuild[of m] by (simp add: btree.insert_all_def bt_ok_distinct)

end
