(* ===== verification/Rust_Str.thy ===== *)
theory Rust_Str
  imports Rust_Prelude
begin

text \<open>
  The \<open>str\<close> methods the source calls, on the character lists of \<open>Rust_Prelude\<close>: whitespace and
  trimming, prefixes, searching, splitting, joining, replacing, lines, ASCII case. Each follows
  the documented behaviour of the standard library, with the general lemmas the component proofs
  share.
\<close>

section \<open>Whitespace and trimming\<close>

text \<open>\<open>char::is_whitespace\<close>: the Unicode property \<open>White_Space\<close>.\<close>

definition is_ws :: "rchar \<Rightarrow> bool" where
  "is_ws c \<longleftrightarrow> (9 \<le> c \<and> c \<le> 13) \<or> c = 32 \<or> c = 133 \<or> c = 160 \<or> c = 5760
     \<or> (8192 \<le> c \<and> c \<le> 8202) \<or> c = 8232 \<or> c = 8233 \<or> c = 8239 \<or> c = 8287 \<or> c = 12288"

definition trim_start_by :: "(rchar \<Rightarrow> bool) \<Rightarrow> rstr \<Rightarrow> rstr" where
  "trim_start_by P s = dropWhile P s"

definition trim_end_by :: "(rchar \<Rightarrow> bool) \<Rightarrow> rstr \<Rightarrow> rstr" where
  "trim_end_by P s = rev (dropWhile P (rev s))"

definition trim_by :: "(rchar \<Rightarrow> bool) \<Rightarrow> rstr \<Rightarrow> rstr" where
  "trim_by P s = trim_end_by P (trim_start_by P s)"

definition trim :: "rstr \<Rightarrow> rstr" where
  "trim s = trim_by is_ws s"

definition trim_start :: "rstr \<Rightarrow> rstr" where
  "trim_start s = trim_start_by is_ws s"

definition trim_end :: "rstr \<Rightarrow> rstr" where
  "trim_end s = trim_end_by is_ws s"

lemma dropWhile_Nil_iff: "dropWhile P s = [] \<longleftrightarrow> (\<forall>c \<in> set s. P c)"
  by (induction s) auto

lemma trim_end_by_Nil_iff: "trim_end_by P s = [] \<longleftrightarrow> (\<forall>c \<in> set s. P c)"
  by (simp add: trim_end_by_def)

lemma trim_Nil_iff: "trim s = [] \<longleftrightarrow> (\<forall>c \<in> set s. is_ws c)"
proof -
  have "(\<forall>c \<in> set (dropWhile is_ws s). is_ws c) \<longleftrightarrow> (\<forall>c \<in> set s. is_ws c)"
    by (induction s) auto
  then show ?thesis by (simp add: trim_def trim_by_def trim_end_by_Nil_iff trim_start_by_def)
qed

lemma trim_end_by_id: "s = [] \<or> \<not> P (last s) \<Longrightarrow> trim_end_by P s = s"
  by (cases s rule: rev_cases) (auto simp: trim_end_by_def)

lemma trim_start_by_id: "s = [] \<or> \<not> P (hd s) \<Longrightarrow> trim_start_by P s = s"
  by (cases s) (auto simp: trim_start_by_def)

lemma trim_id: "s = [] \<or> \<not> is_ws (hd s) \<and> \<not> is_ws (last s) \<Longrightarrow> trim s = s"
  by (auto simp: trim_def trim_by_def trim_start_by_id trim_end_by_id)

lemma trim_end_by_last: "trim_end_by P s \<noteq> [] \<Longrightarrow> \<not> P (last (trim_end_by P s))"
  by (simp add: trim_end_by_def last_rev hd_dropWhile)

lemma trim_end_by_hd: "trim_end_by P s \<noteq> [] \<Longrightarrow> hd (trim_end_by P s) = hd s"
proof (induction s rule: rev_induct)
  case Nil
  then show ?case by (simp add: trim_end_by_def)
next
  case (snoc c s)
  show ?case
  proof (cases "P c")
    case True
    then have eq: "trim_end_by P (s @ [c]) = trim_end_by P s" by (simp add: trim_end_by_def)
    with snoc.prems have "s \<noteq> []" by (auto simp: trim_end_by_def)
    with snoc eq show ?thesis by simp
  next
    case False
    then show ?thesis by (simp add: trim_end_by_def)
  qed
qed

lemma trim_ends:
  assumes "trim s \<noteq> []"
  shows "\<not> is_ws (hd (trim s))" and "\<not> is_ws (last (trim s))"
proof -
  have "trim_start_by is_ws s \<noteq> []"
    using assms by (auto simp: trim_def trim_by_def trim_end_by_def)
  then have "\<not> is_ws (hd (trim_start_by is_ws s))"
    by (simp add: trim_start_by_def hd_dropWhile)
  then show "\<not> is_ws (hd (trim s))"
    using assms by (simp add: trim_def trim_by_def trim_end_by_hd)
  show "\<not> is_ws (last (trim s))"
    using assms by (simp add: trim_def trim_by_def trim_end_by_last)
qed

lemma trim_idem [simp]: "trim (trim s) = trim s"
  using trim_ends[of s] by (intro trim_id) auto

section \<open>Prefixes and searching\<close>

fun strip_prefix :: "rstr \<Rightarrow> rstr \<Rightarrow> rstr option" where
  "strip_prefix [] s = Some s"
| "strip_prefix (p # ps) [] = None"
| "strip_prefix (p # ps) (c # cs) = (if p = c then strip_prefix ps cs else None)"

definition starts_with :: "rstr \<Rightarrow> rstr \<Rightarrow> bool" where
  "starts_with p s \<longleftrightarrow> strip_prefix p s \<noteq> None"

text \<open>\<open>split_once\<close> at the leftmost occurrence of a pattern.\<close>

fun split_once :: "rstr \<Rightarrow> rstr \<Rightarrow> (rstr \<times> rstr) option" where
  "split_once p [] = map_option (\<lambda>r. ([], r)) (strip_prefix p [])"
| "split_once p (c # cs) =
     (case strip_prefix p (c # cs) of
        Some r \<Rightarrow> Some ([], r)
      | None \<Rightarrow> map_option (\<lambda>(a, b). (c # a, b)) (split_once p cs))"

definition contains :: "rstr \<Rightarrow> rstr \<Rightarrow> bool" where
  "contains p s \<longleftrightarrow> split_once p s \<noteq> None"

lemma strip_prefix_iff: "strip_prefix p s = Some r \<longleftrightarrow> s = p @ r"
  by (induction p s rule: strip_prefix.induct) auto

lemma strip_prefix_append [simp]: "strip_prefix p (p @ s) = Some s"
  by (simp add: strip_prefix_iff)

lemma starts_with_iff: "starts_with p s \<longleftrightarrow> (\<exists>r. s = p @ r)"
  by (auto simp: starts_with_def strip_prefix_iff)

lemma split_once_Some: "split_once p s = Some (a, b) \<Longrightarrow> s = a @ p @ b"
  by (induction s arbitrary: a b) (auto simp: strip_prefix_iff split: option.splits)

lemma split_once_prefix [simp]: "split_once p (p @ b) = Some ([], b)"
proof (cases "p @ b")
  case Nil
  then show ?thesis by simp
next
  case (Cons c cs)
  have "strip_prefix p (c # cs) = Some b" by (metis Cons strip_prefix_append)
  with Cons show ?thesis by simp
qed

lemma contains_iff: "contains p s \<longleftrightarrow> (\<exists>a b. s = a @ p @ b)"
proof
  assume "contains p s"
  then show "\<exists>a b. s = a @ p @ b"
    using split_once_Some by (fastforce simp: contains_def)
next
  have "split_once p (a @ p @ b) \<noteq> None" for a b
    by (induction a) (auto split: option.splits)
  then show "\<exists>a b. s = a @ p @ b \<Longrightarrow> contains p s"
    by (metis contains_def)
qed

lemma split_once_None_iff: "split_once p s = None \<longleftrightarrow> \<not> contains p s"
  by (simp only: contains_def not_not)

text \<open>The split is at the leftmost occurrence.\<close>

lemma split_once_leftmost:
  "split_once p s = Some (a, b) \<Longrightarrow> s = x @ p @ y \<Longrightarrow> length a \<le> length x"
proof (induction s arbitrary: a x)
  case Nil
  then show ?case by auto
next
  case (Cons c s)
  show ?case
  proof (cases "strip_prefix p (c # s)")
    case None
    with Cons.prems(2) obtain x' where x: "x = c # x'" "s = x' @ p @ y"
      by (cases x) auto
    with Cons.prems(1) None Cons.IH[of _ x'] show ?thesis by auto
  next
    case (Some r)
    with Cons.prems(1) show ?thesis by auto
  qed
qed

lemma split_once_first:
  assumes "\<And>a' b'. a @ p @ b = a' @ p @ b' \<Longrightarrow> length a \<le> length a'"
  shows "split_once p (a @ p @ b) = Some (a, b)"
proof -
  have "contains p (a @ p @ b)" by (auto simp: contains_iff)
  then obtain a' b' where s: "split_once p (a @ p @ b) = Some (a', b')"
    by (auto simp: contains_def)
  have eq: "a @ p @ b = a' @ p @ b'" using split_once_Some[OF s] .
  have "length a' = length a"
    using split_once_leftmost[OF s refl] assms[OF eq] by simp
  then have "a = a' \<and> b = b'" using eq by auto
  with s show ?thesis by simp
qed

text \<open>A pattern without a border cannot overlap the text before it.\<close>

definition unbordered :: "rstr \<Rightarrow> bool" where
  "unbordered p \<longleftrightarrow> (\<forall>u v w. p = u @ v \<longrightarrow> p = v @ w \<longrightarrow> v \<noteq> [] \<longrightarrow> u = [])"

lemma unbordered_hd: "hd p \<notin> set (tl p) \<Longrightarrow> unbordered p"
  unfolding unbordered_def
proof (intro allI impI)
  fix u v w assume h: "hd p \<notin> set (tl p)" "p = u @ v" "p = v @ w" "v \<noteq> []"
  show "u = []"
  proof (rule ccontr)
    assume "u \<noteq> []"
    then have "set v \<subseteq> set (tl p)" using h(2) by (cases u) auto
    moreover have "hd p \<in> set v" using h(3,4) by (cases v) auto
    ultimately show False using h(1) by auto
  qed
qed

lemma unbordered_last: "last p \<notin> set (butlast p) \<Longrightarrow> unbordered p"
  unfolding unbordered_def
proof (intro allI impI)
  fix u v w assume h: "last p \<notin> set (butlast p)" "p = u @ v" "p = v @ w" "v \<noteq> []"
  show "u = []"
  proof (rule ccontr)
    assume "u \<noteq> []"
    have "length p = length u + length v" "length p = length v + length w"
      using h(2,3) by (metis length_append)+
    with \<open>u \<noteq> []\<close> have "w \<noteq> []" by auto
    then have "set v \<subseteq> set (butlast p)" using h(3) by (simp add: butlast_append)
    moreover have "last p \<in> set v" using h(2,4) by simp
    ultimately show False using h(1) by auto
  qed
qed

lemma split_once_unbordered:
  assumes "unbordered p" "\<not> contains p a"
  shows "split_once p (a @ p @ b) = Some (a, b)"
proof (rule split_once_first, rule ccontr)
  fix a' b' assume eq: "a @ p @ b = a' @ p @ b'" and len: "\<not> length a \<le> length a'"
  obtain u where d: "a = a' @ u \<and> u @ p @ b = p @ b' \<or> a @ u = a' \<and> p @ b = u @ p @ b'"
    using eq append_eq_append_conv2[of a "p @ b" a' "p @ b'"] by blast
  have "a @ u \<noteq> a'" using len by auto
  with d have u: "a = a' @ u" "u @ p @ b = p @ b'" by blast+
  have "u \<noteq> []" using len u(1) by auto
  obtain v where "u = p @ v \<or> p = u @ v \<and> p @ b = v @ b'"
    using u(2) append_eq_append_conv2[of u "p @ b" p b'] by blast
  then consider r where "u = p @ r" | v where "p = u @ v" "p @ b = v @ b'"
    by blast
  then show False
  proof cases
    case 1
    then show False using assms(2) u(1) by (auto simp: contains_iff)
  next
    case 2
    show False
    proof (cases "v = []")
      case True
      with 2(1) u(1) have "a = a' @ p @ []" by simp
      with assms(2) show False unfolding contains_iff by blast
    next
      case False
      have "length v \<le> length p" using 2(1) by simp
      obtain w where "p = v @ w \<or> p @ w = v"
        using 2(2) append_eq_append_conv2[of p b v b'] by blast
      with \<open>length v \<le> length p\<close> have "p = v @ w \<or> p = v @ []" by auto
      then obtain w where "p = v @ w" by blast
      with 2(1) False \<open>u \<noteq> []\<close> assms(1) show False unfolding unbordered_def by blast
    qed
  qed
qed

section \<open>Splitting, joining, replacing\<close>

fun split_char_acc :: "rchar \<Rightarrow> rstr \<Rightarrow> rstr \<Rightarrow> rstr list" where
  "split_char_acc d acc [] = [acc]"
| "split_char_acc d acc (c # cs) =
     (if c = d then acc # split_char_acc d [] cs else split_char_acc d (acc @ [c]) cs)"

definition split_char :: "rchar \<Rightarrow> rstr \<Rightarrow> rstr list" where
  "split_char d s = split_char_acc d [] s"

text \<open>The last piece of \<open>rsplit\<close>: what follows the last separator.\<close>

definition after_last :: "(rchar \<Rightarrow> bool) \<Rightarrow> rstr \<Rightarrow> rstr" where
  "after_last P s = rev (takeWhile (\<lambda>c. \<not> P c) (rev s))"

fun split_ws_acc :: "rstr \<Rightarrow> rstr \<Rightarrow> rstr list" where
  "split_ws_acc acc [] = (if acc = [] then [] else [acc])"
| "split_ws_acc acc (c # cs) =
     (if is_ws c then (if acc = [] then split_ws_acc [] cs else acc # split_ws_acc [] cs)
      else split_ws_acc (acc @ [c]) cs)"

definition split_whitespace :: "rstr \<Rightarrow> rstr list" where
  "split_whitespace s = split_ws_acc [] s"

text \<open>
  \<open>lines\<close>: every line ends at a line feed, a carriage return before that line feed is dropped,
  and a last line without a line feed is kept as it is unless it is empty.
\<close>

fun strip_cr :: "rstr \<Rightarrow> rstr" where
  "strip_cr s = (if s \<noteq> [] \<and> last s = 13 then butlast s else s)"

fun lines_acc :: "rstr \<Rightarrow> rstr \<Rightarrow> rstr list" where
  "lines_acc acc [] = (if acc = [] then [] else [acc])"
| "lines_acc acc (c # cs) =
     (if c = 10 then strip_cr acc # lines_acc [] cs else lines_acc (acc @ [c]) cs)"

definition str_lines :: "rstr \<Rightarrow> rstr list" where
  "str_lines s = lines_acc [] s"

fun join :: "rstr \<Rightarrow> rstr list \<Rightarrow> rstr" where
  "join sep [] = []"
| "join sep [x] = x"
| "join sep (x # y # ys) = x @ sep @ join sep (y # ys)"

text \<open>\<open>replace\<close> of a nonempty pattern: scan left to right, skip what was replaced.\<close>

fun replace_from :: "rstr \<Rightarrow> rstr \<Rightarrow> nat \<Rightarrow> rstr \<Rightarrow> rstr" where
  "replace_from p q k [] = []"
| "replace_from p q (Suc k) (c # cs) = replace_from p q k cs"
| "replace_from p q 0 (c # cs) =
     (if starts_with p (c # cs) then q @ replace_from p q (length p - 1) cs
      else c # replace_from p q 0 cs)"

definition replace_str :: "rstr \<Rightarrow> rstr \<Rightarrow> rstr \<Rightarrow> rstr" where
  "replace_str p q s = replace_from p q 0 s"

definition ascii_lower_char :: "rchar \<Rightarrow> rchar" where
  "ascii_lower_char c = (if 65 \<le> c \<and> c \<le> 90 then c + 32 else c)"

definition to_ascii_lowercase :: "rstr \<Rightarrow> rstr" where
  "to_ascii_lowercase s = map ascii_lower_char s"

lemma to_ascii_lowercase_idem [simp]:
  "to_ascii_lowercase (to_ascii_lowercase s) = to_ascii_lowercase s"
  by (simp add: to_ascii_lowercase_def ascii_lower_char_def comp_def)

lemma split_char_acc_no_sep: "d \<notin> set s \<Longrightarrow> split_char_acc d acc s = [acc @ s]"
  by (induction s arbitrary: acc) simp_all

lemma split_char_acc_sep:
  "d \<notin> set s \<Longrightarrow> split_char_acc d acc (s @ d # r) = (acc @ s) # split_char_acc d [] r"
  by (induction s arbitrary: acc) simp_all

lemma split_once_char: "d \<notin> set a \<Longrightarrow> split_once [d] (a @ d # b) = Some (a, b)"
  by (induction a) auto

lemma split_once_char_Some:
  "split_once [d] s = Some (a, b) \<Longrightarrow> s = a @ d # b \<and> d \<notin> set a"
  by (induction s arbitrary: a b) (auto split: if_splits)

lemma split_once_char_None: "split_once [d] s = None \<Longrightarrow> d \<notin> set s"
  by (induction s) (auto split: if_splits)

lemma split_char_join:
  assumes "\<forall>x \<in> set xs. d \<notin> set x" "xs \<noteq> []"
  shows "split_char d (join [d] xs) = xs"
  using assms
proof (induction xs rule: induct_list012)
  case (2 x)
  then show ?case by (simp add: split_char_def split_char_acc_no_sep)
next
  case (3 x y zs)
  then show ?case by (simp add: split_char_def split_char_acc_sep)
qed simp

lemma split_ws_acc_no_ws:
  "\<forall>c \<in> set acc. \<not> is_ws c \<Longrightarrow> w \<in> set (split_ws_acc acc s) \<Longrightarrow>
     w \<noteq> [] \<and> (\<forall>c \<in> set w. \<not> is_ws c)"
proof (induction s arbitrary: acc)
  case Nil
  then show ?case by (simp split: if_splits)
next
  case (Cons c s)
  show ?case
  proof (cases "is_ws c")
    case True
    with Cons.prems Cons.IH[of "[]"] show ?thesis by (auto split: if_splits)
  next
    case False
    with Cons.prems Cons.IH[of "acc @ [c]"] show ?thesis by simp
  qed
qed

lemma split_whitespace_words:
  "w \<in> set (split_whitespace s) \<Longrightarrow> w \<noteq> [] \<and> (\<forall>c \<in> set w. \<not> is_ws c)"
  using split_ws_acc_no_ws[of "[]" w s] by (simp add: split_whitespace_def)

lemma after_last_no_sep: "\<forall>c \<in> set s. \<not> P c \<Longrightarrow> after_last P s = s"
  by (simp add: after_last_def takeWhile_eq_all_conv[THEN iffD2])

lemma after_last_append: "P c \<Longrightarrow> after_last P (a @ c # b) = after_last P b"
  by (simp add: after_last_def takeWhile_append takeWhile_eq_all_conv[THEN iffD2])

lemma join_Cons: "xs \<noteq> [] \<Longrightarrow> join sep (x # xs) = x @ sep @ join sep xs"
  by (cases xs) auto

lemma join_append:
  "xs \<noteq> [] \<Longrightarrow> ys \<noteq> [] \<Longrightarrow> join sep (xs @ ys) = join sep xs @ sep @ join sep ys"
proof (induction xs)
  case (Cons x xs)
  then show ?case by (cases "xs = []") (auto simp: join_Cons)
qed simp

text \<open>No operation invents characters.\<close>

lemma set_trim_by: "set (trim_by P s) \<subseteq> set s"
  by (auto simp: trim_by_def trim_end_by_def trim_start_by_def dest!: set_dropWhileD)

lemma set_strip_cr: "set (strip_cr s) \<subseteq> set s"
  by (auto dest: in_set_butlastD)

lemma set_lines_acc: "\<Union> (set ` set (lines_acc acc s)) \<subseteq> set acc \<union> set s"
proof (induction acc s rule: lines_acc.induct)
  case (1 acc)
  then show ?case by simp
next
  case (2 acc c cs)
  show ?case
  proof (cases "c = 10")
    case True
    with 2(1) set_strip_cr[of acc] show ?thesis by (auto simp del: strip_cr.simps)
  next
    case False
    with 2(2) show ?thesis by auto
  qed
qed

lemma set_replace_from: "set (replace_from p r n s) \<subseteq> set r \<union> set s"
  by (induction p r n s rule: replace_from.induct) auto

lemma set_split_once: "split_once p s = Some (a, b) \<Longrightarrow> set a \<subseteq> set s \<and> set b \<subseteq> set s"
  by (drule split_once_Some) auto

lemma contains_set: "contains p s \<Longrightarrow> set p \<subseteq> set s"
  by (auto simp: contains_iff)
end
