(* ===== verification/Json.thy ===== *)
theory Json
  imports Rust_Str
begin

text \<open>
  The JSON values of \<open>runtime/src/json.rs\<close>, their renderer and their parser. A parser method
  is a function from the characters that are left (\<open>chars[index..]\<close>) to an error or a value
  with what is left after it. \<open>parse_value\<close>, the array loop and the object loop call each
  other; their termination is proved from the progress each call makes.
\<close>

section \<open>Values and errors\<close>

datatype JsonError = JsonError rstr

datatype JsonValue =
    Null
  | Bool bool
  | Number i64
  | String rstr
  | Array "JsonValue list"
  | Object "(rstr \<times> JsonValue) list"

fun as_object :: "JsonValue \<Rightarrow> (rstr \<times> JsonValue) list option" where
  "as_object (Object m) = Some m"
| "as_object _ = None"

fun as_array :: "JsonValue \<Rightarrow> JsonValue list option" where
  "as_array (Array vs) = Some vs"
| "as_array _ = None"

fun as_str :: "JsonValue \<Rightarrow> rstr option" where
  "as_str (String s) = Some s"
| "as_str _ = None"

fun as_bool :: "JsonValue \<Rightarrow> bool option" where
  "as_bool (Bool b) = Some b"
| "as_bool _ = None"

fun as_i64 :: "JsonValue \<Rightarrow> i64 option" where
  "as_i64 (Number n) = Some n"
| "as_i64 _ = None"

text \<open>Every object of a value is a \<open>BTreeMap\<close>: its keys are in order and distinct.\<close>

fun json_ok :: "JsonValue \<Rightarrow> bool" where
  "json_ok (Array vs) = list_all json_ok vs"
| "json_ok (Object m) = (bt_ok m \<and> list_all (\<lambda>(k, v). json_ok v) m)"
| "json_ok _ = True"

section \<open>Rendering\<close>

text \<open>\<open>char::is_control\<close>: the category \<open>Cc\<close>.\<close>

definition is_control :: "rchar \<Rightarrow> bool" where
  "is_control c \<longleftrightarrow> c < 32 \<or> (127 \<le> c \<and> c \<le> 159)"

definition push_unicode_escape :: "rchar \<Rightarrow> rstr" where
  "push_unicode_escape c =
     [92, 117] @ map (\<lambda>shift. hex_digit (c div 2 ^ shift mod 16)) [12, 8, 4, 0]"

definition render_char :: "rchar \<Rightarrow> rstr" where
  "render_char c =
     (if c = 34 then [92, 34]
      else if c = 92 then [92, 92]
      else if c = 10 then [92, 110]
      else if c = 13 then [92, 114]
      else if c = 9 then [92, 116]
      else if c = 8 then [92, 98]
      else if c = 12 then [92, 102]
      else if is_control c then push_unicode_escape c
      else [c])"

definition render_string :: "rstr \<Rightarrow> rstr" where
  "render_string s = [34] @ concat (map render_char s) @ [34]"

fun render :: "JsonValue \<Rightarrow> rstr" where
  "render Null = lit ''null''"
| "render (Bool b) = (if b then lit ''true'' else lit ''false'')"
| "render (Number n) = show_int (sint n)"
| "render (String s) = render_string s"
| "render (Array vs) = lit ''['' @ join (lit '','') (map render vs) @ lit '']''"
| "render (Object m) =
     lit ''{'' @ join (lit '','') (map (\<lambda>(k, v). render_string k @ lit '':'' @ render v) m) @ lit ''}''"

section \<open>Parsing\<close>

fun skip_whitespace :: "rstr \<Rightarrow> rstr" where
  "skip_whitespace [] = []"
| "skip_whitespace (c # cs) =
     (if c = 32 \<or> c = 10 \<or> c = 13 \<or> c = 9 then skip_whitespace cs else c # cs)"

fun try_consume :: "rchar \<Rightarrow> rstr \<Rightarrow> rstr option" where
  "try_consume e [] = None"
| "try_consume e (c # cs) = (if c = e then Some cs else None)"

fun expect :: "rchar \<Rightarrow> rstr \<Rightarrow> JsonError + rstr" where
  "expect e [] =
     Inl (JsonError (lit ''expected '' @ [39, e, 39] @ lit '', found end of input''))"
| "expect e (c # cs) =
     (if c = e then Inr cs
      else Inl (JsonError (lit ''expected '' @ [39, e, 39] @ lit '', found '' @ [39, c, 39])))"

text \<open>\<open>parse_literal\<close>: the characters of the literal one after the other.\<close>

fun parse_literal_chars :: "rstr \<Rightarrow> rstr \<Rightarrow> JsonValue \<Rightarrow> rstr \<Rightarrow> JsonError + (JsonValue \<times> rstr)" where
  "parse_literal_chars expected [] v s = Inr (v, s)"
| "parse_literal_chars expected (e # es) v s =
     (case s of
        [] \<Rightarrow> Inl (JsonError (lit ''invalid literal: expected '' @ expected))
      | c # cs \<Rightarrow>
          if c = e then parse_literal_chars expected es v cs
          else Inl (JsonError (lit ''invalid literal: expected '' @ expected)))"

definition parse_literal :: "rstr \<Rightarrow> JsonValue \<Rightarrow> rstr \<Rightarrow> JsonError + (JsonValue \<times> rstr)" where
  "parse_literal expected v s = parse_literal_chars expected expected v s"

text \<open>\<open>char::to_digit(16)\<close> and \<open>char::from_u32\<close>.\<close>

definition to_digit16 :: "rchar \<Rightarrow> nat option" where
  "to_digit16 c =
     (if 48 \<le> c \<and> c \<le> 57 then Some (c - 48)
      else if 97 \<le> c \<and> c \<le> 102 then Some (c - 87)
      else if 65 \<le> c \<and> c \<le> 70 then Some (c - 55)
      else None)"

definition char_from_u32 :: "nat \<Rightarrow> rchar option" where
  "char_from_u32 n = (if n < 55296 \<or> (57344 \<le> n \<and> n \<le> 1114111) then Some n else None)"

text \<open>
  The loop of \<open>parse_unicode_escape\<close>. The shift \<open>value << 4\<close> leaves the low four bits free, so
  the \<open>|\<close> with a digit is the sum; four digits stay below \<open>2 ^ 16\<close>, inside a \<open>u32\<close>.
\<close>

fun unicode_digits :: "nat \<Rightarrow> nat \<Rightarrow> rstr \<Rightarrow> JsonError + (nat \<times> rstr)" where
  "unicode_digits 0 value s = Inr (value, s)"
| "unicode_digits (Suc k) value s =
     (case s of
        [] \<Rightarrow> Inl (JsonError (lit ''unexpected end of input in unicode escape''))
      | c # cs \<Rightarrow>
          (case to_digit16 c of
             None \<Rightarrow> Inl (JsonError (lit ''invalid unicode escape''))
           | Some d \<Rightarrow> unicode_digits k (value * 16 + d) cs))"

definition parse_unicode_escape :: "rstr \<Rightarrow> JsonError + (rchar \<times> rstr)" where
  "parse_unicode_escape s =
     res_bind (unicode_digits 4 0 s) (\<lambda>(value, r).
       res_bind (ok_or (JsonError (lit ''invalid unicode scalar value'')) (char_from_u32 value))
         (\<lambda>c. Inr (c, r)))"

fun parse_escape :: "rstr \<Rightarrow> JsonError + (rchar \<times> rstr)" where
  "parse_escape [] = Inl (JsonError (lit ''unexpected end of input in escape sequence''))"
| "parse_escape (c # cs) =
     (if c = 34 then Inr (34, cs)
      else if c = 92 then Inr (92, cs)
      else if c = 47 then Inr (47, cs)
      else if c = 98 then Inr (8, cs)
      else if c = 102 then Inr (12, cs)
      else if c = 110 then Inr (10, cs)
      else if c = 114 then Inr (13, cs)
      else if c = 116 then Inr (9, cs)
      else if c = 117 then parse_unicode_escape cs
      else Inl (JsonError (lit ''invalid escape sequence: '' @ [c])))"

lemma unicode_digits_length:
  "unicode_digits k v s = Inr (n, r) \<Longrightarrow> length r \<le> length s"
  by (induction k v s rule: unicode_digits.induct) (fastforce split: list.splits option.splits)+

lemma parse_escape_length: "parse_escape s = Inr (c, r) \<Longrightarrow> length r < length s"
  by (cases s)
    (auto simp: parse_unicode_escape_def result_simps dest!: unicode_digits_length split: if_splits)

text \<open>The loop of \<open>parse_string\<close> after the opening quote.\<close>

function string_chars :: "rstr \<Rightarrow> rstr \<Rightarrow> JsonError + (rstr \<times> rstr)" where
  "string_chars value s =
     (case s of
        [] \<Rightarrow> Inl (JsonError (lit ''unterminated string''))
      | c # cs \<Rightarrow>
          if c = 34 then Inr (value, cs)
          else if c = 92 then
            (case parse_escape cs of
               Inl e \<Rightarrow> Inl e
             | Inr (d, r) \<Rightarrow> string_chars (value @ [d]) r)
          else string_chars (value @ [c]) cs)"
  by pat_completeness auto
termination
  by (relation "measure (\<lambda>(value, s). length s)") (auto dest: parse_escape_length)

declare string_chars.simps [simp del]

definition parse_string :: "rstr \<Rightarrow> JsonError + (rstr \<times> rstr)" where
  "parse_string s = res_bind (expect 34 s) (\<lambda>r. string_chars [] r)"

text \<open>\<open>parse_number\<close> collects an optional minus sign and digits, then converts them to \<open>i64\<close>.\<close>

definition parse_number :: "rstr \<Rightarrow> JsonError + (i64 \<times> rstr)" where
  "parse_number s =
     (let neg = try_consume 45 s;
          sign = (if neg = None then [] else [45]);
          r = (case neg of None \<Rightarrow> s | Some r \<Rightarrow> r);
          value = sign @ takeWhile is_digit r;
          rest = dropWhile is_digit r in
      if value = [] \<or> value = [45] then Inl (JsonError (lit ''invalid number''))
      else res_bind (ok_or (JsonError (lit ''number out of range'')) (parse_i64 value))
             (\<lambda>n. Inr (n, rest)))"

lemma skip_whitespace_length: "length (skip_whitespace s) \<le> length s"
  by (induction s) auto

lemma try_consume_length: "try_consume e s = Some r \<Longrightarrow> length r < length s"
  by (cases s) (auto split: if_splits)

lemma expect_length: "expect e s = Inr r \<Longrightarrow> length r < length s"
  by (cases s) (auto split: if_splits)

lemma string_chars_length: "string_chars v s = Inr (t, r) \<Longrightarrow> length r < length s"
proof (induction v s rule: string_chars.induct)
  case (1 acc s)
  show ?case
  proof (cases s)
    case Nil
    with "1.prems" show ?thesis by (simp add: string_chars.simps[of acc "[]"])
  next
    case (Cons c cs)
    with "1.prems" "1.IH" show ?thesis
      by (fastforce simp: string_chars.simps[of acc "c # cs"] split: if_splits sum.splits
          dest: parse_escape_length)
  qed
qed

lemma parse_string_length: "parse_string s = Inr (t, r) \<Longrightarrow> length r < length s"
  by (auto simp: parse_string_def result_simps dest!: expect_length string_chars_length)

lemma parse_number_length: "parse_number s = Inr (n, r) \<Longrightarrow> length r \<le> length s"
  by (cases s) (auto simp: parse_number_def Let_def result_simps length_dropWhile_le le_SucI
      split: if_splits option.splits)

lemma parse_literal_length: "parse_literal e v s = Inr (w, r) \<Longrightarrow> length r \<le> length s"
proof -
  have "parse_literal_chars e es v s = Inr (w, r) \<Longrightarrow> length r \<le> length s" for es
    by (induction e es v s rule: parse_literal_chars.induct)
      (fastforce split: list.splits if_splits)+
  then show "parse_literal e v s = Inr (w, r) \<Longrightarrow> length r \<le> length s"
    by (simp add: parse_literal_def)
qed

text \<open>
  \<open>parse_value\<close>, and the loops of \<open>parse_array\<close> and \<open>parse_object\<close>. The loops start after the
  opening bracket that \<open>parse_value\<close> has seen and \<open>expect\<close> consumes.
\<close>

function parse_value :: "rstr \<Rightarrow> JsonError + (JsonValue \<times> rstr)"
  and array_loop :: "JsonValue list \<Rightarrow> rstr \<Rightarrow> JsonError + (JsonValue \<times> rstr)"
  and object_loop :: "(rstr \<times> JsonValue) list \<Rightarrow> rstr \<Rightarrow> JsonError + (JsonValue \<times> rstr)" where
  "parse_value s0 =
     (case skip_whitespace s0 of
        [] \<Rightarrow> Inl (JsonError (lit ''unexpected end of input''))
      | c # cs \<Rightarrow>
          if c = 110 then parse_literal (lit ''null'') Null (c # cs)
          else if c = 116 then parse_literal (lit ''true'') (Bool True) (c # cs)
          else if c = 102 then parse_literal (lit ''false'') (Bool False) (c # cs)
          else if c = 34 then
            (case parse_string (c # cs) of Inl e \<Rightarrow> Inl e | Inr (t, r) \<Rightarrow> Inr (String t, r))
          else if c = 91 then array_loop [] cs
          else if c = 123 then object_loop [] cs
          else if c = 45 \<or> is_digit c then
            (case parse_number (c # cs) of Inl e \<Rightarrow> Inl e | Inr (n, r) \<Rightarrow> Inr (Number n, r))
          else Inl (JsonError (lit ''unexpected character: '' @ [c])))"
| "array_loop values s0 =
     (let s = skip_whitespace s0 in
      case try_consume 93 s of
        Some r \<Rightarrow> Inr (Array values, r)
      | None \<Rightarrow>
          (case parse_value s of
             Inl e \<Rightarrow> Inl e
           | Inr (v, s1) \<Rightarrow>
               (case try_consume 93 (skip_whitespace s1) of
                  Some r \<Rightarrow> Inr (Array (values @ [v]), r)
                | None \<Rightarrow>
                    (case expect 44 (skip_whitespace s1) of
                       Inl e \<Rightarrow> Inl e
                     | Inr s2 \<Rightarrow> array_loop (values @ [v]) s2))))"
| "object_loop entries s0 =
     (let s = skip_whitespace s0 in
      case try_consume 125 s of
        Some r \<Rightarrow> Inr (Object entries, r)
      | None \<Rightarrow>
          (case parse_string s of
             Inl e \<Rightarrow> Inl e
           | Inr (key, s1) \<Rightarrow>
               (case expect 58 (skip_whitespace s1) of
                  Inl e \<Rightarrow> Inl e
                | Inr s2 \<Rightarrow>
                    (case parse_value s2 of
                       Inl e \<Rightarrow> Inl e
                     | Inr (v, s3) \<Rightarrow>
                         (case try_consume 125 (skip_whitespace s3) of
                            Some r \<Rightarrow> Inr (Object (bt_insert key v entries), r)
                          | None \<Rightarrow>
                              (case expect 44 (skip_whitespace s3) of
                                 Inl e \<Rightarrow> Inl e
                               | Inr s4 \<Rightarrow> object_loop (bt_insert key v entries) s4))))))"
  by pat_completeness auto

lemma skip_whitespace_Cons: "skip_whitespace s = c # cs \<Longrightarrow> length cs < length s"
  using skip_whitespace_length[of s] by simp

lemmas parse_lengths = skip_whitespace_length skip_whitespace_Cons try_consume_length expect_length
  parse_string_length parse_number_length parse_literal_length

lemma parser_progress:
  "parse_value_array_loop_object_loop_dom (Inl s) \<Longrightarrow>
     parse_value s = Inr (v, r) \<Longrightarrow> length r \<le> length s"
  "parse_value_array_loop_object_loop_dom (Inr (Inl (vs, s))) \<Longrightarrow>
     array_loop vs s = Inr (v, r) \<Longrightarrow> length r \<le> length s"
  "parse_value_array_loop_object_loop_dom (Inr (Inr (m, s))) \<Longrightarrow>
     object_loop m s = Inr (v, r) \<Longrightarrow> length r \<le> length s"
proof (induction s and vs s and m s arbitrary: v r and v r and v r
    rule: parse_value_array_loop_object_loop.pinduct)
  case (1 s0)
  show ?case
  proof (cases "skip_whitespace s0")
    case Nil
    with 1 show ?thesis by (simp add: parse_value.psimps)
  next
    case (Cons c cs)
    with "1.prems" "1.hyps" "1.IH" skip_whitespace_Cons[OF Cons] show ?thesis
      by (fastforce simp: parse_value.psimps split: if_splits sum.splits
          dest: parse_literal_length parse_string_length parse_number_length)
  qed
next
  case (2 vs s0)
  have len: "length (skip_whitespace s0) \<le> length s0" by (rule skip_whitespace_length)
  show ?case
  proof (cases "try_consume 93 (skip_whitespace s0)")
    case (Some r')
    with "2.prems" "2.hyps" try_consume_length[OF Some] len show ?thesis
      by (simp add: array_loop.psimps)
  next
    case None
    with "2.prems" "2.hyps" obtain v1 s1 where v1: "parse_value (skip_whitespace s0) = Inr (v1, s1)"
      by (auto simp: array_loop.psimps Let_def split: sum.splits)
    have s1: "length s1 \<le> length (skip_whitespace s0)"
      using "2.IH"(1)[OF refl None v1] .
    have s1': "length (skip_whitespace s1) \<le> length s1" by (rule skip_whitespace_length)
    show ?thesis
    proof (cases "try_consume 93 (skip_whitespace s1)")
      case (Some r')
      with "2.prems" "2.hyps" None v1 try_consume_length[OF Some] len s1 s1' show ?thesis
        by (simp add: array_loop.psimps)
    next
      case None2: None
      with "2.prems" "2.hyps" None v1 obtain s2 where s2: "expect 44 (skip_whitespace s1) = Inr s2"
          "array_loop (vs @ [v1]) s2 = Inr (v, r)"
        by (auto simp: array_loop.psimps Let_def split: sum.splits)
      have "length r \<le> length s2"
        using "2.IH"(2)[OF refl None v1 refl None2 s2] .
      then show ?thesis using expect_length[OF s2(1)] len s1 s1' by simp
    qed
  qed
next
  case (3 entries s0)
  have len: "length (skip_whitespace s0) \<le> length s0" by (rule skip_whitespace_length)
  show ?case
  proof (cases "try_consume 125 (skip_whitespace s0)")
    case (Some r')
    with "3.prems" "3.hyps" try_consume_length[OF Some] len show ?thesis
      by (simp add: object_loop.psimps)
  next
    case None
    with "3.prems" "3.hyps" obtain key s1 s2 v1 s3 where
        key: "parse_string (skip_whitespace s0) = Inr (key, s1)"
      and s2: "expect 58 (skip_whitespace s1) = Inr s2"
      and v1: "parse_value s2 = Inr (v1, s3)"
      by (auto simp: object_loop.psimps Let_def split: sum.splits)
    have s3: "length s3 \<le> length s2" using "3.IH"(1)[OF refl None key refl s2 v1] .
    have l2: "length s2 < length s0"
      using parse_string_length[OF key] expect_length[OF s2] skip_whitespace_length[of s1] len
      by simp
    have s3': "length (skip_whitespace s3) \<le> length s3" by (rule skip_whitespace_length)
    show ?thesis
    proof (cases "try_consume 125 (skip_whitespace s3)")
      case (Some r')
      with "3.prems" "3.hyps" None key s2 v1 try_consume_length[OF Some] l2 s3 s3' show ?thesis
        by (simp add: object_loop.psimps)
    next
      case None2: None
      with "3.prems" "3.hyps" None key s2 v1 obtain s4 where
          s4: "expect 44 (skip_whitespace s3) = Inr s4"
            "object_loop (bt_insert key v1 entries) s4 = Inr (v, r)"
        by (auto simp: object_loop.psimps Let_def split: sum.splits)
      have "length r \<le> length s4"
        using "3.IH"(2)[OF refl None key refl s2 v1 refl None2 s4] .
      then show ?thesis using expect_length[OF s4(1)] l2 s3 s3' by simp
    qed
  qed
qed

termination parse_value
proof (relation "measure (\<lambda>x. case x of Inl s \<Rightarrow> 2 * length s
      | Inr (Inl (vs, s)) \<Rightarrow> 2 * length s + 1 | Inr (Inr (m, s)) \<Rightarrow> 2 * length s + 1)",
    goal_cases)
  case 1
  show ?case by simp
next
  case (2 s0 c cs)
  then show ?case using skip_whitespace_Cons[of s0 c cs] by simp
next
  case (3 s0 c cs)
  then show ?case using skip_whitespace_Cons[of s0 c cs] by simp
next
  case (4 vs s0 s)
  then show ?case using skip_whitespace_length[of s0] by simp
next
  case (5 vs s0 s p v s1 s2)
  then have "length s1 \<le> length (skip_whitespace s0)" using parser_progress(1) by fastforce
  with 5 show ?case
    using expect_length[of 44 "skip_whitespace s1" s2] skip_whitespace_length[of s1]
      skip_whitespace_length[of s0] by simp
next
  case (6 entries s0 s p key s1 s2)
  then show ?case
    using expect_length[of 58 "skip_whitespace s1" s2] skip_whitespace_length[of s1]
      skip_whitespace_length[of s0] parse_string_length[of "skip_whitespace s0" key s1] by simp
next
  case (7 entries s0 s p key s1 s2 q v s3 s4)
  then have "length s3 \<le> length s2" using parser_progress(1) by fastforce
  with 7 show ?case
    using expect_length[of 58 "skip_whitespace s1" s2] skip_whitespace_length[of s1]
      skip_whitespace_length[of s0] parse_string_length[of "skip_whitespace s0" key s1]
      expect_length[of 44 "skip_whitespace s3" s4] skip_whitespace_length[of s3] by simp
qed

declare parse_value.simps [simp del] array_loop.simps [simp del] object_loop.simps [simp del]

text \<open>\<open>JsonValue::parse\<close>: one value, then nothing but whitespace.\<close>

definition parse :: "rstr \<Rightarrow> JsonError + JsonValue" where
  "parse source =
     res_bind (parse_value source) (\<lambda>(v, r).
       if skip_whitespace r = [] then Inr v
       else Inl (JsonError (lit ''unexpected trailing content'')))"

section \<open>Parsing what was rendered\<close>

lemma to_digit16_hex_digit [simp]: "n < 16 \<Longrightarrow> to_digit16 (hex_digit n) = Some n"
  by (auto simp: to_digit16_def hex_digit_def)

lemma hex_digits_value:
  assumes "(c::nat) < 65536"
  shows "(((c div 4096 mod 16) * 16 + c div 256 mod 16) * 16 + c div 16 mod 16) * 16 + c mod 16 = c"
proof -
  have "c div 4096 = c div 256 div 16" "c div 256 = c div 16 div 16"
    by (simp_all add: div_mult2_eq[symmetric])
  moreover have "c div 4096 mod 16 = c div 4096" using assms by simp
  ultimately show ?thesis by (simp only: div_mult_mod_eq)
qed

lemma unicode_digits_step:
  "n < 16 \<Longrightarrow> unicode_digits (Suc k) v (hex_digit n # s) = unicode_digits k (v * 16 + n) s"
  by simp

lemma unicode_digits_four:
  assumes "a < 16" "b < 16" "c < 16" "d < 16"
  shows "unicode_digits 4 0 (hex_digit a # hex_digit b # hex_digit c # hex_digit d # t) =
     Inr (((a * 16 + b) * 16 + c) * 16 + d, t)"
proof -
  have "(4::nat) = Suc (Suc (Suc (Suc 0)))" by simp
  then show ?thesis
    using assms by (simp only: unicode_digits_step unicode_digits.simps(1) mult_0 add_0)
qed

lemma parse_unicode_escape_push:
  assumes "is_control c"
  shows "parse_escape (tl (push_unicode_escape c) @ t) = Inr (c, t)"
proof -
  have c: "c < 160" using assms by (auto simp: is_control_def)
  then have v: "(((c div 4096 mod 16) * 16 + c div 256 mod 16) * 16 + c div 16 mod 16) * 16 + c mod 16 = c"
    by (intro hex_digits_value) simp
  have "unicode_digits 4 0 (hex_digit (c div 4096 mod 16) # hex_digit (c div 256 mod 16)
      # hex_digit (c div 16 mod 16) # hex_digit (c mod 16) # t) = Inr (c, t)"
    by (subst unicode_digits_four) (simp_all only: v mod_less_divisor zero_less_numeral)
  moreover have "tl (push_unicode_escape c) @ t = 117 # hex_digit (c div 4096 mod 16)
      # hex_digit (c div 256 mod 16) # hex_digit (c div 16 mod 16) # hex_digit (c mod 16) # t"
    by (simp add: push_unicode_escape_def)
  moreover have "char_from_u32 c = Some c" using c by (simp add: char_from_u32_def)
  ultimately show ?thesis by (simp add: parse_unicode_escape_def del: unicode_digits.simps)
qed

lemma string_chars_Cons:
  "string_chars acc (c # cs) =
     (if c = 34 then Inr (acc, cs)
      else if c = 92 then
        (case parse_escape cs of Inl e \<Rightarrow> Inl e | Inr (d, r) \<Rightarrow> string_chars (acc @ [d]) r)
      else string_chars (acc @ [c]) cs)"
  by (simp add: string_chars.simps[of acc "c # cs"])

lemma string_chars_render_char:
  "string_chars acc (render_char c @ t) = string_chars (acc @ [c]) t"
proof -
  consider "c \<in> {34, 92, 10, 13, 9, 8, 12}" | "is_control c" "c \<notin> {34, 92, 10, 13, 9, 8, 12}"
    | "\<not> is_control c" "c \<notin> {34, 92, 10, 13, 9, 8, 12}" by blast
  then show ?thesis
  proof cases
    case 1
    then show ?thesis by (auto simp: render_char_def string_chars_Cons)
  next
    case 2
    then have "render_char c = 92 # tl (push_unicode_escape c)"
      by (simp add: render_char_def push_unicode_escape_def)
    then show ?thesis using parse_unicode_escape_push[OF 2(1), of t]
      by (simp add: string_chars_Cons)
  next
    case 3
    then show ?thesis by (simp add: render_char_def string_chars_Cons)
  qed
qed

lemma string_chars_render:
  "string_chars acc (concat (map render_char s) @ 34 # t) = Inr (acc @ s, t)"
  by (induction s arbitrary: acc) (simp_all add: string_chars_Cons string_chars_render_char)

lemma parse_string_render: "parse_string (render_string s @ t) = Inr (s, t)"
  by (simp add: parse_string_def render_string_def string_chars_render)

text \<open>What follows a number must not continue it.\<close>

definition stops_number :: "rstr \<Rightarrow> bool" where
  "stops_number t \<longleftrightarrow> t = [] \<or> \<not> is_digit (hd t)"

lemma takeWhile_digits:
  assumes "\<forall>c \<in> set d. is_digit c" "stops_number t"
  shows "takeWhile is_digit (d @ t) = d" "dropWhile is_digit (d @ t) = t"
  using assms by (cases t; simp add: takeWhile_append dropWhile_append stops_number_def)+

lemma show_nat_no_minus: "\<exists>c cs. show_nat n = c # cs \<and> c \<noteq> 45"
  by (rule show_nat_Cons[of n]) (auto simp: is_digit_def)

lemma parse_number_show:
  assumes "stops_number t"
  shows "parse_number (show_int (sint n) @ t) = Inr (n, t)"
proof (cases "sint n < 0")
  case True
  then show ?thesis
    using takeWhile_digits[OF show_nat_digits assms, of "nat (- sint n)"] parse_i64_show[of n]
    by (simp add: parse_number_def show_int_def)
next
  case False
  obtain c cs where c: "show_nat (nat (sint n)) = c # cs" "c \<noteq> 45"
    using show_nat_no_minus by blast
  with False show ?thesis
    using takeWhile_digits[OF show_nat_digits assms, of "nat (sint n)"] parse_i64_show[of n]
    by (auto simp: parse_number_def show_int_def)
qed

text \<open>No rendered value starts with whitespace, a closing bracket or a comma.\<close>

lemma render_hd:
  obtains c cs where "render v = c # cs" "c \<notin> {32, 10, 13, 9, 93, 125, 44}"
proof -
  have "\<exists>c cs. render v = c # cs \<and> c \<notin> {32, 10, 13, 9, 93, 125, 44}"
  proof (cases v)
    case (Number n)
    then show ?thesis
      by (cases "show_nat (nat (sint n))")
        (use show_nat_digits[of "nat (sint n)"] in \<open>auto simp: show_int_def is_digit_def\<close>)
  qed (auto simp: lit_def render_string_def)
  then show ?thesis using that by blast
qed

lemma skip_whitespace_render [simp]: "skip_whitespace (render v @ t) = render v @ t"
  by (rule render_hd[of v]) auto

lemma try_consume_render [simp]:
  "try_consume 93 (render v @ t) = None"
  by (rule render_hd[of v]) auto

lemma stops_number_simps [simp]:
  "stops_number []" "stops_number (44 # t)" "stops_number (93 # t)" "stops_number (125 # t)"
  by (simp_all add: stops_number_def is_digit_def)

lemma lit_punct [simp]:
  "lit ''['' = [91]" "lit '']'' = [93]" "lit ''{'' = [123]" "lit ''}'' = [125]"
  "lit '','' = [44]" "lit '':'' = [58]"
  by (simp_all add: lit_def)

definition parses :: "JsonValue \<Rightarrow> bool" where
  "parses v \<longleftrightarrow> (\<forall>t. stops_number t \<longrightarrow> parse_value (render v @ t) = Inr (v, t))"

lemma array_loop_render:
  assumes "vs \<noteq> []" "\<forall>v \<in> set vs. parses v"
  shows "array_loop acc (join [44] (map render vs) @ 93 # t) = Inr (Array (acc @ vs), t)"
  using assms
proof (induction vs arbitrary: acc rule: list_nonempty_induct)
  case (single v)
  then show ?case
    by (simp add: array_loop.simps[of acc "render v @ 93 # t"] parses_def)
next
  case (cons v vs)
  then obtain w ws where vs: "vs = w # ws" by (cases vs) auto
  let ?tail = "join [44] (map render vs) @ 93 # t"
  have eq: "join [44] (map render (v # vs)) @ 93 # t = render v @ 44 # ?tail"
    by (simp add: vs)
  have "parse_value (render v @ 44 # ?tail) = Inr (v, 44 # ?tail)"
    using cons.prems by (simp add: parses_def)
  then have "array_loop acc (render v @ 44 # ?tail) = array_loop (acc @ [v]) ?tail"
    by (simp add: array_loop.simps[of acc "render v @ 44 # ?tail"])
  also have "\<dots> = Inr (Array (acc @ v # vs), t)"
    using cons by simp
  finally show ?case unfolding eq .
qed

lemma render_string_Cons: "\<exists>cs. render_string k = 34 # cs"
  by (simp add: render_string_def)

lemma skip_whitespace_render_string [simp]:
  "skip_whitespace (render_string k @ t) = render_string k @ t"
  "try_consume 125 (render_string k @ t) = None"
  by (simp_all add: render_string_def)

definition render_entry :: "rstr \<times> JsonValue \<Rightarrow> rstr" where
  "render_entry e = (case e of (k, v) \<Rightarrow> render_string k @ lit '':'' @ render v)"

lemma object_loop_render:
  assumes "m \<noteq> []" "\<forall>(k, v) \<in> set m. parses v"
  shows "object_loop acc (join [44] (map render_entry m) @ 125 # t) =
    Inr (Object (fold (\<lambda>(k, v). bt_insert k v) m acc), t)"
  using assms
proof (induction m arbitrary: acc rule: list_nonempty_induct)
  case (single e)
  obtain k v where e: "e = (k, v)" by (cases e)
  have "parse_value (render v @ 125 # t) = Inr (v, 125 # t)"
    using single e by (simp add: parses_def)
  then show ?case
    by (simp add: object_loop.simps[of acc "render_string k @ 58 # render v @ 125 # t"]
        e render_entry_def parse_string_render)
next
  case (cons e m)
  obtain k v where e: "e = (k, v)" by (cases e)
  obtain w ws where m: "m = w # ws" using cons by (cases m) auto
  let ?tail = "join [44] (map render_entry m) @ 125 # t"
  have eq: "join [44] (map render_entry (e # m)) @ 125 # t =
      render_string k @ 58 # render v @ 44 # ?tail"
    by (simp add: m e render_entry_def)
  have "parse_value (render v @ 44 # ?tail) = Inr (v, 44 # ?tail)"
    using cons.prems e by (simp add: parses_def)
  then have "object_loop acc (render_string k @ 58 # render v @ 44 # ?tail) =
      object_loop (bt_insert k v acc) ?tail"
    by (simp add: object_loop.simps[of acc "render_string k @ 58 # render v @ 44 # ?tail"]
        parse_string_render)
  also have "\<dots> = Inr (Object (fold (\<lambda>(k, v). bt_insert k v) (e # m) acc), t)"
    using cons e by simp
  finally show ?case unfolding eq .
qed

lemma render_Object: "render (Object m) = 123 # join [44] (map render_entry m) @ [125]"
proof -
  have "map (\<lambda>(k, v). render_string k @ lit '':'' @ render v) m = map render_entry m"
    by (simp add: render_entry_def)
  then show ?thesis by (simp del: map_eq_conv)
qed

lemma show_int_Cons:
  obtains c cs where "show_int i = c # cs" "c = 45 \<or> is_digit c"
proof (cases "i < 0")
  case True
  then show ?thesis using that by (simp add: show_int_def)
next
  case False
  obtain c cs where "show_nat (nat i) = c # cs" "is_digit c" by (rule show_nat_Cons)
  with False show ?thesis using that[of c cs] by (simp add: show_int_def)
qed

lemma parses_Number: "parses (Number n)"
  unfolding parses_def
proof (intro allI impI)
  fix t assume t: "stops_number t"
  obtain c cs where c: "show_int (sint n) = c # cs" "c = 45 \<or> is_digit c"
    by (rule show_int_Cons)
  have "parse_number (c # cs @ t) = Inr (n, t)" using parse_number_show[OF t, of n] c by simp
  moreover have "c \<notin> {32, 10, 13, 9, 110, 116, 102, 34, 91, 123}"
    using c(2) by (auto simp: is_digit_def)
  ultimately show "parse_value (render (Number n) @ t) = Inr (Number n, t)"
    using c by (simp add: parse_value.simps[of "c # cs @ t"])
qed

lemma json_ok_parses: "json_ok v \<Longrightarrow> parses v"
proof (induction v)
  case (Number n)
  show ?case by (rule parses_Number)
next
  case (String s)
  show ?case unfolding parses_def
  proof (intro allI impI)
    fix t
    obtain cs where cs: "render_string s @ t = 34 # cs" using render_string_Cons[of s] by auto
    have "parse_string (34 # cs) = Inr (s, t)" using parse_string_render[of s t] cs by simp
    with cs show "parse_value (render (String s) @ t) = Inr (String s, t)"
      by (simp add: parse_value.simps[of "34 # cs"])
  qed
next
  case (Array vs)
  have "parse_value (render (Array vs) @ t) = Inr (Array vs, t)" for t
  proof (cases "vs = []")
    case True
    then show ?thesis
      by (simp add: parse_value.simps[of "91 # 93 # t"] array_loop.simps[of "[]" "93 # t"])
  next
    case False
    moreover have "\<forall>v \<in> set vs. parses v" using Array by (auto simp: list_all_iff)
    ultimately have "array_loop [] (join [44] (map render vs) @ 93 # t) = Inr (Array vs, t)"
      using array_loop_render[of vs "[]" t] by simp
    then show ?thesis
      by (simp add: parse_value.simps[of "91 # join [44] (map render vs) @ 93 # t"])
  qed
  then show ?case by (simp add: parses_def)
next
  case (Object m)
  have "parse_value (render (Object m) @ t) = Inr (Object m, t)" for t
  proof (cases "m = []")
    case True
    then show ?thesis
      by (simp add: parse_value.simps[of "123 # 125 # t"] object_loop.simps[of "[]" "125 # t"])
  next
    case False
    moreover have "\<forall>(k, v) \<in> set m. parses v"
      using Object by (auto simp: list_all_iff)
    ultimately have "object_loop [] (join [44] (map render_entry m) @ 125 # t) = Inr (Object m, t)"
      using object_loop_render[of m "[]" t] Object.prems by (simp add: bt_rebuild)
    then show ?thesis
      by (simp add: render_Object parse_value.simps[of "123 # join [44] (map render_entry m) @ 125 # t"]
          del: render.simps)
  qed
  then show ?case by (simp add: parses_def)
qed (auto simp: parses_def parse_value.simps parse_literal_def lit_def)

section \<open>What the parser returns is well formed\<close>

lemma json_ok_append: "json_ok (Array (vs @ [v])) \<longleftrightarrow> json_ok (Array vs) \<and> json_ok v"
  by simp

lemma list_all_bt_insert:
  "list_all (\<lambda>(k, v). P v) m \<Longrightarrow> P v \<Longrightarrow> list_all (\<lambda>(k, v). P v) (bt_insert k v m)"
  by (induction k v m rule: bt_insert.induct) auto

lemma json_ok_insert: "json_ok (Object m) \<Longrightarrow> json_ok v \<Longrightarrow> json_ok (Object (bt_insert k v m))"
  by (simp add: bt_ok_insert list_all_bt_insert)

lemma parse_literal_result: "parse_literal e v s = Inr (w, r) \<Longrightarrow> w = v"
proof -
  have "parse_literal_chars e es v s = Inr (w, r) \<Longrightarrow> w = v" for es
    by (induction e es v s rule: parse_literal_chars.induct) (auto split: list.splits if_splits)
  then show "parse_literal e v s = Inr (w, r) \<Longrightarrow> w = v" by (simp add: parse_literal_def)
qed

lemma parser_json_ok:
  "parse_value s = Inr (v, r) \<Longrightarrow> json_ok v"
  "array_loop vs s = Inr (v, r) \<Longrightarrow> json_ok (Array vs) \<Longrightarrow> json_ok v"
  "object_loop m s = Inr (v, r) \<Longrightarrow> json_ok (Object m) \<Longrightarrow> json_ok v"
proof (induction s and vs s and m s arbitrary: v r and v r and v r
    rule: parse_value_array_loop_object_loop.induct)
  case (1 s0)
  show ?case
  proof (cases "skip_whitespace s0")
    case Nil
    with 1 show ?thesis by (simp add: parse_value.simps[of s0])
  next
    case (Cons c cs)
    with 1 show ?thesis
      by (auto simp: parse_value.simps[of s0] split: if_splits sum.splits
          dest!: parse_literal_result)
  qed
next
  case (2 vs s0)
  then show ?case
    by (auto simp: array_loop.simps[of vs s0] Let_def split: option.splits sum.splits)
next
  case (3 entries s0)
  then show ?case
    by (auto simp: object_loop.simps[of entries s0] Let_def json_ok_insert simp del: json_ok.simps
        split: option.splits sum.splits)
qed

section \<open>The codec interface\<close>

text \<open>
  What a component that stores values as text relies on: parsing what was rendered gives the
  value back. \<open>store_load\<close> lifts the law to a component with its own values, whose conversion
  errors it keeps apart from the parser's.
\<close>

locale text_codec =
  fixes render :: "'j \<Rightarrow> rstr"
    and parse :: "rstr \<Rightarrow> 'e + 'j"
    and ok :: "'j \<Rightarrow> bool"
  assumes parse_render: "ok v \<Longrightarrow> parse (render v) = Inr v"
begin

lemma render_inj: "ok v \<Longrightarrow> ok w \<Longrightarrow> render v = render w \<Longrightarrow> v = w"
  using parse_render by (metis sum.inject(2))

lemma store_load:
  assumes "ok (enc x)" "dec (enc x) = Inr y"
  shows "res_bind (map_sum err id (parse (render (enc x)))) dec = Inr y"
  using assms by (simp add: parse_render)

end

interpretation json: text_codec render parse json_ok
proof
  show "parse (render v) = Inr v" if "json_ok v" for v
    using json_ok_parses[OF that] by (auto simp: parse_def parses_def dest: spec[of _ "[]"])
qed

section \<open>Properties\<close>

text \<open>
  C6: Rendering a JSON value and parsing the text gives the value back: for every value whose
  objects are ordered maps, with every escape the renderer writes (quotes, backslashes, the
  named controls, \<open>\u00XX\<close> for the other control characters) and every \<open>i64\<close>.
\<close>

theorem json_round_trip:
  assumes "json_ok v"
  shows "parse (render v) = Inr v"
  by (rule json.parse_render[OF assms])

theorem json_round_trip_witness:
  "parse (render (Object [([97], Array [Number (- 5), Bool True]), ([98], String [34, 10, 1])])) =
     Inr (Object [([97], Array [Number (- 5), Bool True]), ([98], String [34, 10, 1])])"
  by (rule json_round_trip) (simp add: bt_ok_def)

text \<open>
  Whatever text it is given, the parser returns an error or a value all of whose objects are
  ordered maps with distinct keys (a repeated key keeps the last value).
\<close>

theorem parse_json_ok: "parse s = Inr v \<Longrightarrow> json_ok v"
  by (auto simp: parse_def result_simps split: if_splits dest: parser_json_ok(1))

theorem parse_json_ok_witness:
  "\<exists>v. parse [123, 34, 98, 34, 58, 49, 44, 34, 97, 34, 58, 91, 93, 44, 34, 98, 34, 58, 50, 125]
      = Inr v \<and> json_ok v"
proof -
  have "parse [123, 34, 98, 34, 58, 49, 44, 34, 97, 34, 58, 91, 93, 44, 34, 98, 34, 58, 50, 125]
      = Inr (Object [([97], Array []), ([98], Number 2)])"
    by code_simp
  with parse_json_ok[OF this] show ?thesis by blast
qed

text \<open>
  A \<open>\u\<close> escape that names a surrogate makes the parse of the string fail, whatever follows.
  RFC 8259 writes characters outside the basic plane as a pair of such escapes, so the parser
  refuses JSON that other encoders produce.
\<close>

theorem surrogate_escape_rejected:
  assumes "char_from_u32 n = None" "n < 65536" "digits = map (\<lambda>shift. hex_digit (n div 2 ^ shift mod 16)) [12, 8, 4, 0]"
  shows "parse ([34, 92, 117] @ digits @ t) = Inl (JsonError (lit ''invalid unicode scalar value''))"
proof -
  have d: "digits @ t = hex_digit (n div 4096 mod 16) # hex_digit (n div 256 mod 16)
      # hex_digit (n div 16 mod 16) # hex_digit (n mod 16) # t"
    using assms(3) by simp
  have "unicode_digits 4 0 (digits @ t) = Inr (n, t)"
    unfolding d by (subst unicode_digits_four) (simp_all only: hex_digits_value[OF assms(2)]
      mod_less_divisor zero_less_numeral)
  then have "parse_escape (117 # digits @ t) = Inl (JsonError (lit ''invalid unicode scalar value''))"
    using assms(1) by (simp add: parse_unicode_escape_def)
  then show ?thesis
    by (simp add: parse_def parse_value.simps[of "34 # 92 # 117 # digits @ t"] parse_string_def
        string_chars_Cons)
qed

theorem surrogate_escape_rejected_witness:
  "parse ([34, 92, 117] @ lit ''d83d'' @ [92, 117] @ lit ''de00'' @ [34])
     = Inl (JsonError (lit ''invalid unicode scalar value''))"
proof -
  have "lit ''d83d'' = map (\<lambda>shift. hex_digit (55357 div 2 ^ shift mod 16)) [12, 8, 4, 0]"
    by (simp add: lit_def hex_digit_def)
  from surrogate_escape_rejected[OF _ _ this, of "[92, 117] @ lit ''de00'' @ [34]"]
  show ?thesis by (simp add: char_from_u32_def)
qed

end
