(* ===== verification/Session.thy ===== *)
theory Session
  imports Json
begin

text \<open>
  The conversation state of \<open>runtime/src/session.rs\<close> with the token counts of
  \<open>runtime/src/usage.rs\<close>: messages made of content blocks, the telemetry a compaction leaves
  behind, their conversion to and from JSON, storing and loading a session, and the search for
  the user-input request that is still waiting for an answer.
\<close>

section \<open>Data\<close>

record TokenUsage =
  input_tokens :: u32
  output_tokens :: u32
  cache_creation_input_tokens :: u32
  cache_read_input_tokens :: u32

definition TokenUsage_default :: TokenUsage where
  "TokenUsage_default = \<lparr>input_tokens = 0, output_tokens = 0,
     cache_creation_input_tokens = 0, cache_read_input_tokens = 0\<rparr>"

datatype MessageRole = System | User | Assistant | Tool

datatype ContentBlock =
    Text (block_text: rstr)
  | ToolUse (use_id: rstr) (use_name: rstr) (use_input: rstr)
  | ToolResult (result_use_id: rstr) (result_tool_name: rstr) (result_output: rstr)
      (result_is_error: bool)
  | UserInputRequest (req_id: rstr) (req_prompt: rstr) (req_options: "rstr list")
      (req_allow_freeform: bool)
  | UserInputResponse (resp_id: rstr) (resp_content: rstr) (resp_selected: "rstr option")

record ConversationMessage =
  role :: MessageRole
  blocks :: "ContentBlock list"
  usage :: "TokenUsage option"

datatype SessionAccountingStatus = Complete | PartialLegacyCompaction

record SessionTelemetry =
  compacted_usage :: TokenUsage
  compacted_turns :: u32
  accounting_status :: SessionAccountingStatus

record Session =
  version :: u32
  messages :: "ConversationMessage list"
  telemetry :: "SessionTelemetry option"

text \<open>An \<open>std::io::Error\<close> is represented by its message.\<close>

datatype SessionError = Io rstr | JsonErr JsonError | Format rstr

fun session_error_display :: "SessionError \<Rightarrow> rstr" where
  "session_error_display (Io e) = e"
| "session_error_display (JsonErr (JsonError m)) = m"
| "session_error_display (Format m) = m"

definition Session_new :: Session where
  "Session_new = \<lparr>version = 1, messages = [], telemetry = None\<rparr>"

definition user_text :: "rstr \<Rightarrow> ConversationMessage" where
  "user_text t = \<lparr>role = User, blocks = [Text t], usage = None\<rparr>"

definition assistant_with_usage :: "ContentBlock list \<Rightarrow> TokenUsage option \<Rightarrow> ConversationMessage" where
  "assistant_with_usage bs u = \<lparr>role = Assistant, blocks = bs, usage = u\<rparr>"

definition tool_result :: "rstr \<Rightarrow> rstr \<Rightarrow> rstr \<Rightarrow> bool \<Rightarrow> ConversationMessage" where
  "tool_result i n out err = \<lparr>role = Tool, blocks = [ToolResult i n out err], usage = None\<rparr>"

definition user_input_response :: "rstr \<Rightarrow> rstr \<Rightarrow> rstr option \<Rightarrow> ConversationMessage" where
  "user_input_response i c sel =
     \<lparr>role = User, blocks = [UserInputResponse i c sel], usage = None\<rparr>"

section \<open>Numbers and objects in JSON\<close>

text \<open>\<open>i64::from(u32)\<close> and \<open>u32::try_from(i64)\<close>.\<close>

definition i64_from_u32 :: "u32 \<Rightarrow> i64" where
  "i64_from_u32 x = word_of_int (uint x)"

definition u32_try_from :: "i64 \<Rightarrow> u32 option" where
  "u32_try_from n =
     (if 0 \<le> sint n \<and> sint n < 2 ^ 32 then Some (word_of_int (sint n)) else None)"

lemma u32_try_from_i64_from [simp]: "u32_try_from (i64_from_u32 x) = Some x"
proof -
  have r: "0 \<le> uint x" "uint x < 2 ^ 32" using uint_lt2p[of x] by simp_all
  have "sint (i64_from_u32 x) = (uint x + 2 ^ 63) mod 2 ^ 64 - 2 ^ 63"
    unfolding i64_from_u32_def by (subst int_word_sint) simp
  also have "\<dots> = uint x" using r by simp
  finally show ?thesis using r by (simp add: u32_try_from_def)
qed

text \<open>An object built by inserting the entries of a list one after the other.\<close>

definition object_of :: "(string \<times> JsonValue) list \<Rightarrow> (rstr \<times> JsonValue) list" where
  "object_of kvs = fold (\<lambda>(k, v). bt_insert (lit k) v) kvs []"


lemma bt_ok_object_of [simp]: "bt_ok (object_of kvs)"
proof -
  have "bt_ok m \<Longrightarrow> bt_ok (fold (\<lambda>(k, v). bt_insert (lit k) v) kvs m)" for m :: "(rstr \<times> JsonValue) list"
    by (induction kvs arbitrary: m) (auto simp: bt_ok_insert)
  then show ?thesis by (simp add: object_of_def)
qed

lemma bt_get_object_of [simp]: "bt_get (object_of kvs) (lit k) = map_of (rev kvs) k"
proof -
  have "bt_get (fold (\<lambda>(k, v). bt_insert (lit k) v) kvs m) (lit k) =
      (case map_of (rev kvs) k of None \<Rightarrow> bt_get m (lit k) | Some v \<Rightarrow> Some v)"
    for m :: "(rstr \<times> JsonValue) list"
    by (induction kvs arbitrary: m)
      (auto simp: bt_get_insert map_add_def split: option.splits)
  from this[of "[]"] show ?thesis by (simp add: object_of_def split: option.splits)
qed

lemma list_all_object_of:
  "list_all (\<lambda>(k, v). P v) kvs \<Longrightarrow> list_all (\<lambda>(k, v). P v) (object_of kvs)"
proof -
  have "list_all (\<lambda>(k, v). P v) kvs \<Longrightarrow> list_all (\<lambda>(k, v). P v) m \<Longrightarrow>
      list_all (\<lambda>(k, v). P v) (fold (\<lambda>(k, v). bt_insert (lit k) v) kvs m)"
    for m :: "(rstr \<times> JsonValue) list"
    by (induction kvs arbitrary: m) (auto intro!: list_all_bt_insert)
  from this[of "[]"] show "list_all (\<lambda>(k, v). P v) kvs \<Longrightarrow> list_all (\<lambda>(k, v). P v) (object_of kvs)"
    by (simp add: object_of_def)
qed

lemma json_ok_object_of [simp]:
  "list_all (\<lambda>(k, v). json_ok v) kvs \<Longrightarrow> json_ok (Object (object_of kvs))"
  by (simp add: list_all_object_of)

lemma json_ok_array_map: "(\<And>x. json_ok (f x)) \<Longrightarrow> json_ok (Array (map f xs))"
  by (simp add: list_all_iff)

lemma json_ok_leaves [simp]:
  "json_ok Null" "json_ok (Bool b)" "json_ok (Number n)" "json_ok (String s)"
  by simp_all

lemmas json_ok_build = json_ok_object_of json_ok_array_map

text \<open>\<open>object.get(key).and_then(as_..)\<close> and the helpers that require a member.\<close>

definition required :: "(JsonValue \<Rightarrow> 'a option) \<Rightarrow> rstr \<Rightarrow> (rstr \<times> JsonValue) list \<Rightarrow> rstr
    \<Rightarrow> SessionError + 'a" where
  "required as msg ob key = ok_or (Format msg) (Option.bind (bt_get ob key) as)"

definition required_string :: "(rstr \<times> JsonValue) list \<Rightarrow> rstr \<Rightarrow> SessionError + rstr" where
  "required_string ob key = required as_str (lit ''missing '' @ key) ob key"

definition required_bool :: "(rstr \<times> JsonValue) list \<Rightarrow> rstr \<Rightarrow> SessionError + bool" where
  "required_bool ob key = required as_bool (lit ''missing '' @ key) ob key"

definition required_u32 :: "(rstr \<times> JsonValue) list \<Rightarrow> rstr \<Rightarrow> SessionError + u32" where
  "required_u32 ob key =
     res_bind (required as_i64 (lit ''missing '' @ key) ob key) (\<lambda>n.
       ok_or (Format (key @ lit '' out of range'')) (u32_try_from n))"

definition optional_string :: "(rstr \<times> JsonValue) list \<Rightarrow> rstr \<Rightarrow> SessionError + rstr option" where
  "optional_string ob key =
     (case bt_get ob key of
        Some v \<Rightarrow> ok_or (Format (lit ''invalid '' @ key)) (map_option Some (as_str v))
      | None \<Rightarrow> Inr None)"

definition required_string_array :: "(rstr \<times> JsonValue) list \<Rightarrow> rstr \<Rightarrow> SessionError + rstr list" where
  "required_string_array ob key =
     res_bind (required as_array (lit ''missing '' @ key) ob key)
       (collect (\<lambda>v. ok_or (Format (lit ''invalid '' @ key @ lit '' item'')) (as_str v)))"

section \<open>Token usage and telemetry\<close>

definition usage_to_json :: "TokenUsage \<Rightarrow> JsonValue" where
  "usage_to_json u = Object (object_of
     [(''input_tokens'', Number (i64_from_u32 (input_tokens u))),
      (''output_tokens'', Number (i64_from_u32 (output_tokens u))),
      (''cache_creation_input_tokens'', Number (i64_from_u32 (cache_creation_input_tokens u))),
      (''cache_read_input_tokens'', Number (i64_from_u32 (cache_read_input_tokens u)))])"

definition usage_from_json :: "JsonValue \<Rightarrow> SessionError + TokenUsage" where
  "usage_from_json value =
     res_bind (ok_or (Format (lit ''usage must be an object'')) (as_object value)) (\<lambda>ob.
     res_bind (required_u32 ob (lit ''input_tokens'')) (\<lambda>i.
     res_bind (required_u32 ob (lit ''output_tokens'')) (\<lambda>out.
     res_bind (required_u32 ob (lit ''cache_creation_input_tokens'')) (\<lambda>cc.
     res_bind (required_u32 ob (lit ''cache_read_input_tokens'')) (\<lambda>cr.
     Inr \<lparr>input_tokens = i, output_tokens = out,
          cache_creation_input_tokens = cc, cache_read_input_tokens = cr\<rparr>)))))"

fun accounting_status_str :: "SessionAccountingStatus \<Rightarrow> rstr" where
  "accounting_status_str Complete = lit ''complete''"
| "accounting_status_str PartialLegacyCompaction = lit ''partial_legacy_compaction''"

definition telemetry_to_json :: "SessionTelemetry \<Rightarrow> JsonValue" where
  "telemetry_to_json t = Object (object_of
     [(''compacted_usage'', usage_to_json (compacted_usage t)),
      (''compacted_turns'', Number (i64_from_u32 (compacted_turns t))),
      (''accounting_status'', String (accounting_status_str (accounting_status t)))])"

definition telemetry_from_json :: "JsonValue \<Rightarrow> SessionError + SessionTelemetry" where
  "telemetry_from_json value =
     res_bind (ok_or (Format (lit ''telemetry must be an object'')) (as_object value)) (\<lambda>ob.
     let st = (case Option.bind (bt_get ob (lit ''accounting_status'')) as_str of
                 None \<Rightarrow> lit ''complete'' | Some s \<Rightarrow> s) in
     res_bind
       (if st = lit ''complete'' then Inr Complete
        else if st = lit ''partial_legacy_compaction'' then Inr PartialLegacyCompaction
        else Inl (Format (lit ''unsupported accounting_status: '' @ st))) (\<lambda>acct.
     res_bind (transpose_map usage_from_json (bt_get ob (lit ''compacted_usage''))) (\<lambda>u.
     res_bind (transpose_map (\<lambda>_. required_u32 ob (lit ''compacted_turns''))
                 (bt_get ob (lit ''compacted_turns''))) (\<lambda>n.
     Inr \<lparr>compacted_usage = (case u of None \<Rightarrow> TokenUsage_default | Some u \<Rightarrow> u),
          compacted_turns = (case n of None \<Rightarrow> 0 | Some n \<Rightarrow> n),
          accounting_status = acct\<rparr>))))"

lemma usage_json_ok: "json_ok (usage_to_json u)"
  by (simp add: usage_to_json_def list_all_object_of)

lemma telemetry_json_ok: "json_ok (telemetry_to_json t)"
  by (simp add: telemetry_to_json_def list_all_object_of usage_json_ok)

lemma usage_round_trip: "usage_from_json (usage_to_json u) = Inr u"
  by (simp add: usage_from_json_def usage_to_json_def required_u32_def required_def)

lemma telemetry_round_trip: "telemetry_from_json (telemetry_to_json t) = Inr t"
  by (cases "accounting_status t")
    (simp_all add: telemetry_from_json_def telemetry_to_json_def usage_round_trip
      required_u32_def required_def Let_def)


section \<open>Content blocks\<close>

fun block_to_json :: "ContentBlock \<Rightarrow> JsonValue" where
  "block_to_json (Text t) = Object (object_of
     [(''type'', String (lit ''text'')), (''text'', String t)])"
| "block_to_json (ToolUse i n inp) = Object (object_of
     [(''type'', String (lit ''tool_use'')), (''id'', String i), (''name'', String n),
      (''input'', String inp)])"
| "block_to_json (ToolResult i n out err) = Object (object_of
     [(''type'', String (lit ''tool_result'')), (''tool_use_id'', String i),
      (''tool_name'', String n), (''output'', String out), (''is_error'', Bool err)])"
| "block_to_json (UserInputRequest i p opts free) = Object (object_of
     [(''type'', String (lit ''user_input_request'')), (''request_id'', String i),
      (''prompt'', String p), (''options'', Array (map String opts)),
      (''allow_freeform'', Bool free)])"
| "block_to_json (UserInputResponse i c sel) = Object (object_of
     ([(''type'', String (lit ''user_input_response'')), (''request_id'', String i),
       (''content'', String c)]
      @ (case sel of None \<Rightarrow> [] | Some s \<Rightarrow> [(''selected_option'', String s)])))"

definition block_from_json :: "JsonValue \<Rightarrow> SessionError + ContentBlock" where
  "block_from_json value =
     res_bind (ok_or (Format (lit ''block must be an object'')) (as_object value)) (\<lambda>ob.
     res_bind (required as_str (lit ''missing block type'') ob (lit ''type'')) (\<lambda>ty.
     if ty = lit ''text'' then
       res_bind (required_string ob (lit ''text'')) (\<lambda>t. Inr (Text t))
     else if ty = lit ''tool_use'' then
       res_bind (required_string ob (lit ''id'')) (\<lambda>i.
       res_bind (required_string ob (lit ''name'')) (\<lambda>n.
       res_bind (required_string ob (lit ''input'')) (\<lambda>inp. Inr (ToolUse i n inp))))
     else if ty = lit ''tool_result'' then
       res_bind (required_string ob (lit ''tool_use_id'')) (\<lambda>i.
       res_bind (required_string ob (lit ''tool_name'')) (\<lambda>n.
       res_bind (required_string ob (lit ''output'')) (\<lambda>out.
       res_bind (required as_bool (lit ''missing is_error'') ob (lit ''is_error'')) (\<lambda>err.
       Inr (ToolResult i n out err)))))
     else if ty = lit ''user_input_request'' then
       res_bind (required_string ob (lit ''request_id'')) (\<lambda>i.
       res_bind (required_string ob (lit ''prompt'')) (\<lambda>p.
       res_bind (required_string_array ob (lit ''options'')) (\<lambda>opts.
       res_bind (required_bool ob (lit ''allow_freeform'')) (\<lambda>free.
       Inr (UserInputRequest i p opts free)))))
     else if ty = lit ''user_input_response'' then
       res_bind (required_string ob (lit ''request_id'')) (\<lambda>i.
       res_bind (required_string ob (lit ''content'')) (\<lambda>c.
       res_bind (optional_string ob (lit ''selected_option'')) (\<lambda>sel.
       Inr (UserInputResponse i c sel))))
     else Inl (Format (lit ''unsupported block type: '' @ ty))))"

lemmas required_defs = required_def required_string_def required_bool_def required_u32_def
  optional_string_def required_string_array_def

lemma block_json_ok: "json_ok (block_to_json b)"
  by (cases b)
    (simp_all add: json_ok_build del: json_ok.simps split: option.split)

lemma collect_as_str: "collect (\<lambda>v. ok_or e (as_str v)) (map String ss) = Inr ss"
  by (rule collect_map_Inr) simp

lemma block_round_trip: "block_from_json (block_to_json b) = Inr b"
proof (cases b)
  case (UserInputRequest i p opts free)
  then show ?thesis
    by (simp add: block_from_json_def required_defs collect_as_str)
next
  case (UserInputResponse i c sel)
  then show ?thesis
    by (cases sel) (simp_all add: block_from_json_def required_defs)
qed (simp_all add: block_from_json_def required_defs)

section \<open>Messages and sessions\<close>

fun role_str :: "MessageRole \<Rightarrow> rstr" where
  "role_str System = lit ''system''"
| "role_str User = lit ''user''"
| "role_str Assistant = lit ''assistant''"
| "role_str Tool = lit ''tool''"

definition role_from_str :: "rstr \<Rightarrow> SessionError + MessageRole" where
  "role_from_str s =
     (if s = lit ''system'' then Inr System
      else if s = lit ''user'' then Inr User
      else if s = lit ''assistant'' then Inr Assistant
      else if s = lit ''tool'' then Inr Tool
      else Inl (Format (lit ''unsupported message role: '' @ s)))"

definition message_to_json :: "ConversationMessage \<Rightarrow> JsonValue" where
  "message_to_json m = Object (object_of
     ([(''role'', String (role_str (role m))),
       (''blocks'', Array (map block_to_json (blocks m)))]
      @ (case usage m of None \<Rightarrow> [] | Some u \<Rightarrow> [(''usage'', usage_to_json u)])))"

definition message_from_json :: "JsonValue \<Rightarrow> SessionError + ConversationMessage" where
  "message_from_json value =
     res_bind (ok_or (Format (lit ''message must be an object'')) (as_object value)) (\<lambda>ob.
     res_bind (required as_str (lit ''missing role'') ob (lit ''role'')) (\<lambda>rs.
     res_bind (role_from_str rs) (\<lambda>r.
     res_bind (required as_array (lit ''missing blocks'') ob (lit ''blocks'')) (\<lambda>js.
     res_bind (collect block_from_json js) (\<lambda>bs.
     res_bind (transpose_map usage_from_json (bt_get ob (lit ''usage''))) (\<lambda>u.
     Inr \<lparr>role = r, blocks = bs, usage = u\<rparr>))))))"

definition session_to_json :: "Session \<Rightarrow> JsonValue" where
  "session_to_json s = Object (object_of
     ([(''version'', Number (i64_from_u32 (version s))),
       (''messages'', Array (map message_to_json (messages s)))]
      @ (case telemetry s of None \<Rightarrow> [] | Some t \<Rightarrow> [(''telemetry'', telemetry_to_json t)])))"

definition session_from_json :: "JsonValue \<Rightarrow> SessionError + Session" where
  "session_from_json value =
     res_bind (ok_or (Format (lit ''session must be an object'')) (as_object value)) (\<lambda>ob.
     res_bind (required as_i64 (lit ''missing version'') ob (lit ''version'')) (\<lambda>n.
     res_bind (ok_or (Format (lit ''version out of range'')) (u32_try_from n)) (\<lambda>v.
     res_bind (required as_array (lit ''missing messages'') ob (lit ''messages'')) (\<lambda>js.
     res_bind (collect message_from_json js) (\<lambda>ms.
     res_bind (transpose_map telemetry_from_json (bt_get ob (lit ''telemetry''))) (\<lambda>t.
     Inr \<lparr>version = v, messages = ms, telemetry = t\<rparr>))))))"

lemma role_round_trip: "role_from_str (role_str r) = Inr r"
  by (cases r) (simp_all add: role_from_str_def)

lemma message_json_ok: "json_ok (message_to_json m)"
  by (simp add: message_to_json_def json_ok_build block_json_ok usage_json_ok del: json_ok.simps
      split: option.split)

lemma message_round_trip: "message_from_json (message_to_json m) = Inr m"
proof -
  have "collect block_from_json (map block_to_json (blocks m)) = Inr (blocks m)"
    by (rule collect_map_Inr) (rule block_round_trip)
  then show ?thesis
    by (cases "usage m")
      (simp_all add: message_from_json_def message_to_json_def required_def role_round_trip
        usage_round_trip)
qed

lemma session_json_ok: "json_ok (session_to_json s)"
  by (simp add: session_to_json_def json_ok_build message_json_ok telemetry_json_ok
      del: json_ok.simps split: option.split)

lemma session_json_round_trip: "session_from_json (session_to_json s) = Inr s"
proof -
  have "collect message_from_json (map message_to_json (messages s)) = Inr (messages s)"
    by (rule collect_map_Inr) (rule message_round_trip)
  then show ?thesis
    by (cases "telemetry s")
      (simp_all add: session_from_json_def session_to_json_def required_def telemetry_round_trip)
qed

section \<open>Storing and loading\<close>

text \<open>
  The file system is a parameter: \<open>fs_write\<close> and \<open>fs_read\<close> stand for \<open>fs::write\<close> and
  \<open>fs::read_to_string\<close> on a state of files; an I/O error is its message.
\<close>

definition save_to_path ::
  "('fs \<Rightarrow> rstr \<Rightarrow> rstr \<Rightarrow> rstr + 'fs) \<Rightarrow> 'fs \<Rightarrow> Session \<Rightarrow> rstr \<Rightarrow> SessionError + 'fs" where
  "save_to_path fs_write fs s path = map_sum Io id (fs_write fs path (render (session_to_json s)))"

definition load_from_path ::
  "('fs \<Rightarrow> rstr \<Rightarrow> rstr + rstr) \<Rightarrow> 'fs \<Rightarrow> rstr \<Rightarrow> SessionError + Session" where
  "load_from_path fs_read fs path =
     res_bind (map_sum Io id (fs_read fs path)) (\<lambda>contents.
     res_bind (map_sum JsonErr id (parse contents)) session_from_json)"

text \<open>What the code relies on of a file system: a file that was written reads back.\<close>

definition read_after_write ::
  "('fs \<Rightarrow> rstr \<Rightarrow> rstr \<Rightarrow> rstr + 'fs) \<Rightarrow> ('fs \<Rightarrow> rstr \<Rightarrow> rstr + rstr) \<Rightarrow> bool" where
  "read_after_write fs_write fs_read \<longleftrightarrow>
     (\<forall>fs path c fs'. fs_write fs path c = Inr fs' \<longrightarrow> fs_read fs' path = Inr c)"

section \<open>Waiting user-input requests\<close>

record PendingUserInputRequest =
  pending_id :: rstr
  pending_prompt :: rstr
  pending_options :: "rstr list"
  pending_freeform :: bool

fun pending_block :: "PendingUserInputRequest list \<Rightarrow> ContentBlock \<Rightarrow> PendingUserInputRequest list" where
  "pending_block pending (UserInputRequest i p opts free) =
     pending @ [\<lparr>pending_id = i, pending_prompt = p, pending_options = opts, pending_freeform = free\<rparr>]"
| "pending_block pending (UserInputResponse i c sel) =
     filter (\<lambda>r. pending_id r \<noteq> i) pending"
| "pending_block pending (Text t) = pending"
| "pending_block pending (ToolUse i n inp) = pending"
| "pending_block pending (ToolResult i n out err) = pending"

definition pending_user_input_request :: "Session \<Rightarrow> PendingUserInputRequest option" where
  "pending_user_input_request s =
     (case foldl (\<lambda>pending m. foldl pending_block pending (blocks m)) [] (messages s) of
        [] \<Rightarrow> None
      | r # _ \<Rightarrow> Some r)"

text \<open>
  The specification: the first request of the conversation that no later block answers.
\<close>

fun answers :: "rstr \<Rightarrow> ContentBlock \<Rightarrow> bool" where
  "answers i (UserInputResponse j c sel) = (j = i)"
| "answers i _ = False"

fun unanswered :: "ContentBlock list \<Rightarrow> PendingUserInputRequest list" where
  "unanswered [] = []"
| "unanswered (UserInputRequest i p opts free # bs) =
     (if list_ex (answers i) bs then unanswered bs
      else \<lparr>pending_id = i, pending_prompt = p, pending_options = opts, pending_freeform = free\<rparr>
             # unanswered bs)"
| "unanswered (_ # bs) = unanswered bs"

definition session_blocks :: "Session \<Rightarrow> ContentBlock list" where
  "session_blocks s = concat (map blocks (messages s))"

lemma foldl_pending:
  "foldl pending_block pending bs =
     filter (\<lambda>r. \<not> list_ex (answers (pending_id r)) bs) pending @ unanswered bs"
proof (induction bs arbitrary: pending)
  case Nil
  then show ?case by simp
next
  case (Cons b bs)
  then show ?case by (cases b) (auto simp: filter_filter intro: filter_cong)
qed

lemma foldl_pending_messages:
  "foldl (\<lambda>pending m. foldl pending_block pending (blocks m)) pending ms =
     foldl pending_block pending (concat (map blocks ms))"
  by (induction ms arbitrary: pending) auto

lemma pending_unanswered:
  "pending_user_input_request s =
     (case unanswered (session_blocks s) of [] \<Rightarrow> None | r # _ \<Rightarrow> Some r)"
  unfolding pending_user_input_request_def foldl_pending_messages
  by (simp add: foldl_pending session_blocks_def)


definition request_block :: "PendingUserInputRequest \<Rightarrow> ContentBlock" where
  "request_block r =
     UserInputRequest (pending_id r) (pending_prompt r) (pending_options r) (pending_freeform r)"

text \<open>Every request of \<open>pre\<close> has an answer later in \<open>pre\<close> or in \<open>post\<close>.\<close>

definition all_answered :: "ContentBlock list \<Rightarrow> ContentBlock list \<Rightarrow> bool" where
  "all_answered pre post \<longleftrightarrow>
     (\<forall>a b i p opts free. pre = a @ UserInputRequest i p opts free # b \<longrightarrow>
        list_ex (answers i) (b @ post))"

lemma all_answered_Nil [simp]: "all_answered [] post"
  by (simp add: all_answered_def)

lemma all_answered_Cons:
  "all_answered (x # pre) post \<longleftrightarrow>
     (\<forall>i p opts free. x = UserInputRequest i p opts free \<longrightarrow> list_ex (answers i) (pre @ post)) \<and>
     all_answered pre post"
proof
  assume l: "all_answered (x # pre) post"
  have "list_ex (answers i) (b @ post)" if "pre = a @ UserInputRequest i p opts free # b"
    for a b i p opts free
    using l that unfolding all_answered_def by (metis append_Cons)
  moreover have "list_ex (answers i) (pre @ post)" if "x = UserInputRequest i p opts free"
    for i p opts free
    using l that unfolding all_answered_def by (metis append_Nil)
  ultimately show "(\<forall>i p opts free. x = UserInputRequest i p opts free \<longrightarrow>
      list_ex (answers i) (pre @ post)) \<and> all_answered pre post"
    unfolding all_answered_def by blast
next
  assume r: "(\<forall>i p opts free. x = UserInputRequest i p opts free \<longrightarrow>
      list_ex (answers i) (pre @ post)) \<and> all_answered pre post"
  show "all_answered (x # pre) post"
    unfolding all_answered_def
  proof (intro allI impI)
    fix a b i p opts free
    assume eq: "x # pre = a @ UserInputRequest i p opts free # b"
    show "list_ex (answers i) (b @ post)"
      using r eq unfolding all_answered_def by (cases a) auto
  qed
qed

lemma unanswered_Cons_iff:
  "(\<exists>rs. unanswered bs = r # rs) \<longleftrightarrow>
     (\<exists>pre post. bs = pre @ request_block r # post \<and>
        \<not> list_ex (answers (pending_id r)) post \<and> all_answered pre (request_block r # post))"
  (is "?L bs \<longleftrightarrow> ?R bs")
proof (induction bs)
  case Nil
  then show ?case by simp
next
  case (Cons b bs)
  have split: "?R (b # bs) \<longleftrightarrow>
      (b = request_block r \<and> \<not> list_ex (answers (pending_id r)) bs) \<or>
      ((\<forall>i p opts free. b = UserInputRequest i p opts free \<longrightarrow> list_ex (answers i) bs) \<and> ?R bs)"
    (is "_ \<longleftrightarrow> ?A \<or> ?B")
  proof
    assume "?R (b # bs)"
    then obtain pre post where p: "b # bs = pre @ request_block r # post"
        "\<not> list_ex (answers (pending_id r)) post" "all_answered pre (request_block r # post)" by blast
    show "?A \<or> ?B"
    proof (cases pre)
      case Nil
      with p show ?thesis by simp
    next
      case (Cons c pre')
      with p show ?thesis by (auto simp: all_answered_Cons)
    qed
  next
    assume "?A \<or> ?B"
    then show "?R (b # bs)"
    proof
      assume ?A
      then have "b # bs = [] @ request_block r # bs \<and> \<not> list_ex (answers (pending_id r)) bs
          \<and> all_answered [] (request_block r # bs)" by simp
      then show ?thesis by blast
    next
      assume B: ?B
      then obtain pre post where p: "bs = pre @ request_block r # post"
          "\<not> list_ex (answers (pending_id r)) post" "all_answered pre (request_block r # post)" by blast
      then have "b # bs = (b # pre) @ request_block r # post \<and>
          \<not> list_ex (answers (pending_id r)) post \<and> all_answered (b # pre) (request_block r # post)"
        using B by (simp add: all_answered_Cons)
      then show ?thesis by blast
    qed
  qed
  show ?case
    unfolding split Cons.IH[symmetric]
    by (cases b) (auto simp: request_block_def)
qed

text \<open>
  The pending request of a session is the first request in conversation order that no later
  response with its identifier answers; there is none exactly when every request is answered.
\<close>

theorem pending_is_first_unanswered:
  "pending_user_input_request s = Some r \<longleftrightarrow>
     (\<exists>pre post. session_blocks s = pre @ request_block r # post \<and>
        \<not> list_ex (answers (pending_id r)) post \<and> all_answered pre (request_block r # post))"
proof -
  have "pending_user_input_request s = Some r \<longleftrightarrow> (\<exists>rs. unanswered (session_blocks s) = r # rs)"
    by (simp add: pending_unanswered split: list.split)
  then show ?thesis by (simp only: unanswered_Cons_iff)
qed

text \<open>
  C5: Storing a session and loading the file gives the same session, for every session: every
  role and block kind, optional usage and telemetry, all token counts, all strings. The file
  system is only assumed to read back what was written.
\<close>

theorem session_save_load:
  assumes "read_after_write fs_write fs_read"
    and "save_to_path fs_write fs s path = Inr fs'"
  shows "load_from_path fs_read fs' path = Inr s"
proof -
  have "fs_write fs path (render (session_to_json s)) = Inr fs'"
    using assms(2) by (cases "fs_write fs path (render (session_to_json s))")
      (simp_all add: save_to_path_def)
  then have "fs_read fs' path = Inr (render (session_to_json s))"
    using assms(1) by (simp add: read_after_write_def)
  then show ?thesis
    by (simp add: load_from_path_def
        json.store_load[where enc = session_to_json and dec = session_from_json,
          OF session_json_ok session_json_round_trip])
qed

definition map_write :: "(rstr \<rightharpoonup> rstr) \<Rightarrow> rstr \<Rightarrow> rstr \<Rightarrow> rstr + (rstr \<rightharpoonup> rstr)" where
  "map_write fs path c = Inr (fs(path \<mapsto> c))"

definition map_read :: "(rstr \<rightharpoonup> rstr) \<Rightarrow> rstr \<Rightarrow> rstr + rstr" where
  "map_read fs path = (case fs path of None \<Rightarrow> Inl (lit ''not found'') | Some c \<Rightarrow> Inr c)"

theorem session_save_load_witness:
  "\<exists>fs'. save_to_path map_write Map.empty
      (Session_new\<lparr>messages := [user_text (lit ''hi'')]\<rparr>) (lit ''a'') = Inr fs' \<and>
    load_from_path map_read fs' (lit ''a'') = Inr (Session_new\<lparr>messages := [user_text (lit ''hi'')]\<rparr>)"
proof -
  have rw: "read_after_write map_write map_read"
    by (auto simp: read_after_write_def map_write_def map_read_def)
  have "\<exists>fs'. save_to_path map_write Map.empty
      (Session_new\<lparr>messages := [user_text (lit ''hi'')]\<rparr>) (lit ''a'') = Inr fs'"
    by (simp add: save_to_path_def map_write_def)
  then show ?thesis using session_save_load[OF rw] by blast
qed

end
