(* ===== verification/Rust_Path.thy ===== *)
theory Rust_Path
  imports Rust_Str
begin

text \<open>
  \<open>std::path\<close> on Unix, as far as the source uses it. A path is the list of its components:
  equality, \<open>starts_with\<close>, \<open>strip_prefix\<close>, \<open>parent\<close> and \<open>file_name\<close> of \<open>Path\<close> all work on
  components, so repeated separators and inner \<open>.\<close> segments make no difference.
\<close>

datatype Component = RootDir | CurDir | ParentDir | Normal rstr

type_synonym path = "Component list"

fun segment_component :: "rstr \<Rightarrow> Component option" where
  "segment_component s =
     (if s = [] \<or> s = [46] then None
      else if s = [46, 46] then Some ParentDir
      else Some (Normal s))"

definition path_components :: "rstr \<Rightarrow> path" where
  "path_components s =
     (let segs = split_char 47 s in
      (if s \<noteq> [] \<and> hd s = 47 then [RootDir]
       else if segs \<noteq> [] \<and> hd segs = [46] then [CurDir] else [])
      @ List.map_filter segment_component segs)"

definition is_absolute :: "path \<Rightarrow> bool" where
  "is_absolute p \<longleftrightarrow> (\<exists>q. p = RootDir # q)"

lemma is_absolute_simps [simp, code]:
  "is_absolute [] = False"
  "is_absolute (c # p) = (c = RootDir)"
  by (auto simp: is_absolute_def)

text \<open>\<open>join\<close>: an absolute path replaces the base, a relative one is appended.\<close>

definition path_join :: "path \<Rightarrow> path \<Rightarrow> path" where
  "path_join base p =
     (if is_absolute p then p
      else if base = [] then p
      else base @ (case p of CurDir # q \<Rightarrow> q | _ \<Rightarrow> p))"

lemma path_join_Normal [simp]: "path_join base [Normal n] = base @ [Normal n]"
  by (simp add: path_join_def)

definition path_parent :: "path \<Rightarrow> path option" where
  "path_parent p = (if p = [] \<or> last p = RootDir then None else Some (butlast p))"

definition path_file_name :: "path \<Rightarrow> rstr option" where
  "path_file_name p =
     (if p = [] then None else case last p of Normal n \<Rightarrow> Some n | _ \<Rightarrow> None)"

fun path_strip_prefix :: "path \<Rightarrow> path \<Rightarrow> path option" where
  "path_strip_prefix p [] = Some p"
| "path_strip_prefix [] (b # bs) = None"
| "path_strip_prefix (c # cs) (b # bs) = (if c = b then path_strip_prefix cs bs else None)"

definition path_starts_with :: "path \<Rightarrow> path \<Rightarrow> bool" where
  "path_starts_with p base \<longleftrightarrow> path_strip_prefix p base \<noteq> None"

lemma path_strip_prefix_iff: "path_strip_prefix p base = Some r \<longleftrightarrow> p = base @ r"
  by (induction p base rule: path_strip_prefix.induct) auto

lemma path_starts_with_iff: "path_starts_with p base \<longleftrightarrow> (\<exists>r. p = base @ r)"
  by (auto simp: path_starts_with_def path_strip_prefix_iff)

text \<open>
  \<open>extension\<close>: what follows the last dot of the file name, unless that dot is its first
  character.
\<close>

definition path_extension :: "path \<Rightarrow> rstr option" where
  "path_extension p =
     (case path_file_name p of
        None \<Rightarrow> None
      | Some n \<Rightarrow>
          let ext = after_last (\<lambda>c. c = 46) n in
          if 46 \<notin> set n \<or> length n = length ext + 1 then None else Some ext)"

definition eq_ignore_ascii_case :: "rstr \<Rightarrow> rstr \<Rightarrow> bool" where
  "eq_ignore_ascii_case a b \<longleftrightarrow> to_ascii_lowercase a = to_ascii_lowercase b"

end
