(* ===== verification/Compact.thy ===== *)
theory Compact
  imports Session Rust_Path
begin

text \<open>
  Session compaction (\<open>runtime/src/compact.rs\<close>) and the usage tracker of
  \<open>runtime/src/usage.rs\<close>. A compaction replaces the older messages of a session by one system
  message that carries a summary, and moves their token counts into the telemetry.
\<close>

section \<open>Data\<close>

definition COMPACT_CONTINUATION_PREAMBLE :: rstr where
  "COMPACT_CONTINUATION_PREAMBLE = lit ''This session is being continued from a previous conversation that ran out of context. The summary below covers the earlier portion of the conversation.'' @ [10, 10]"

definition COMPACT_RECENT_MESSAGES_NOTE :: rstr where
  "COMPACT_RECENT_MESSAGES_NOTE = lit ''Recent messages are preserved verbatim.''"

definition COMPACT_DIRECT_RESUME_INSTRUCTION :: rstr where
  "COMPACT_DIRECT_RESUME_INSTRUCTION = lit ''Continue the conversation from where it left off without asking the user any further questions. Resume directly '' @ [8212] @ lit '' do not acknowledge the summary, do not recap what was happening, and do not preface with continuation text.''"

record CompactionConfig =
  preserve_recent_messages :: nat
  max_estimated_tokens :: nat

definition CompactionConfig_default :: CompactionConfig where
  "CompactionConfig_default = \<lparr>preserve_recent_messages = 4, max_estimated_tokens = 10000\<rparr>"

datatype CompactionSummaryMode = Unchanged | NewSummary | MergedExisting

record CompactionResult =
  summary :: rstr
  formatted_summary :: rstr
  compacted_session :: Session
  removed_message_count :: nat
  summary_mode :: CompactionSummaryMode
  estimated_tokens_before :: nat
  estimated_tokens_after :: nat
  result_accounting_status :: SessionAccountingStatus

section \<open>Token estimates\<close>

fun estimate_block_tokens :: "ContentBlock \<Rightarrow> nat" where
  "estimate_block_tokens (Text t) = utf8_len t div 4 + 1"
| "estimate_block_tokens (ToolUse i n inp) = (utf8_len n + utf8_len inp) div 4 + 1"
| "estimate_block_tokens (ToolResult i n out err) = (utf8_len n + utf8_len out) div 4 + 1"
| "estimate_block_tokens (UserInputRequest i p opts free) =
     (utf8_len p + utf8_len (join [] opts)) div 4 + 1"
| "estimate_block_tokens (UserInputResponse i c sel) = utf8_len c div 4 + 1"

definition estimate_message_tokens :: "ConversationMessage \<Rightarrow> nat" where
  "estimate_message_tokens m = sum_list (map estimate_block_tokens (blocks m))"

definition estimate_session_tokens :: "Session \<Rightarrow> nat" where
  "estimate_session_tokens s = sum_list (map estimate_message_tokens (messages s))"

section \<open>Texts\<close>

definition not_blank :: "rstr \<Rightarrow> bool" where
  "not_blank t \<longleftrightarrow> trim t \<noteq> []"

fun block_text_of :: "ContentBlock \<Rightarrow> rstr option" where
  "block_text_of (Text t) = (if not_blank t then Some t else None)"
| "block_text_of (UserInputResponse i c sel) = (if not_blank c then Some c else None)"
| "block_text_of (ToolUse i n inp) = None"
| "block_text_of (ToolResult i n out err) = None"
| "block_text_of (UserInputRequest i p opts free) = None"

fun find_map :: "('a \<Rightarrow> 'b option) \<Rightarrow> 'a list \<Rightarrow> 'b option" where
  "find_map f [] = None"
| "find_map f (x # xs) = (case f x of None \<Rightarrow> find_map f xs | Some y \<Rightarrow> Some y)"

definition first_text_block :: "ConversationMessage \<Rightarrow> rstr option" where
  "first_text_block m = find_map block_text_of (blocks m)"

definition truncate_summary :: "rstr \<Rightarrow> nat \<Rightarrow> rstr" where
  "truncate_summary c max_chars =
     (if length c \<le> max_chars then c else take max_chars c @ [8230])"

definition tag_open :: "rstr \<Rightarrow> rstr" where
  "tag_open tag = lit ''<'' @ tag @ lit ''>''"

definition tag_close :: "rstr \<Rightarrow> rstr" where
  "tag_close tag = lit ''</'' @ tag @ lit ''>''"

definition extract_tag_block :: "rstr \<Rightarrow> rstr \<Rightarrow> rstr option" where
  "extract_tag_block c tag =
     Option.bind (split_once (tag_open tag) c) (\<lambda>(_, r).
       map_option fst (split_once (tag_close tag) r))"

text \<open>
  Both ends are searched from the start of the text; what stands before the opening tag and what
  follows the closing tag is kept.
\<close>

definition strip_tag_block :: "rstr \<Rightarrow> rstr \<Rightarrow> rstr" where
  "strip_tag_block c tag =
     (case (split_once (tag_open tag) c, split_once (tag_close tag) c) of
        (Some (before, _), Some (_, after)) \<Rightarrow> before @ after
      | _ \<Rightarrow> c)"

fun collapse_lines :: "bool \<Rightarrow> rstr list \<Rightarrow> rstr" where
  "collapse_lines last_blank [] = []"
| "collapse_lines last_blank (l # ls) =
     (let blank = (trim l = []) in
      if blank \<and> last_blank then collapse_lines last_blank ls
      else l @ [10] @ collapse_lines blank ls)"

definition collapse_blank_lines :: "rstr \<Rightarrow> rstr" where
  "collapse_blank_lines c = collapse_lines False (str_lines c)"

definition format_compact_summary :: "rstr \<Rightarrow> rstr" where
  "format_compact_summary s =
     (let without_analysis = strip_tag_block s (lit ''analysis'');
          formatted =
            (case extract_tag_block without_analysis (lit ''summary'') of
               Some c \<Rightarrow>
                 replace_str (lit ''<summary>'' @ c @ lit ''</summary>'')
                   (lit ''Summary:'' @ [10] @ trim c) without_analysis
             | None \<Rightarrow> without_analysis) in
      trim (collapse_blank_lines formatted))"

definition get_compact_continuation_message :: "rstr \<Rightarrow> bool \<Rightarrow> bool \<Rightarrow> rstr" where
  "get_compact_continuation_message s suppress_follow_up_questions recent_messages_preserved =
     COMPACT_CONTINUATION_PREAMBLE @ format_compact_summary s
     @ (if recent_messages_preserved then [10, 10] @ COMPACT_RECENT_MESSAGES_NOTE else [])
     @ (if suppress_follow_up_questions then [10] @ COMPACT_DIRECT_RESUME_INSTRUCTION else [])"

definition extract_existing_compacted_summary :: "ConversationMessage \<Rightarrow> rstr option" where
  "extract_existing_compacted_summary m =
     (if role m \<noteq> System then None
      else Option.bind (first_text_block m) (\<lambda>t.
           Option.bind (strip_prefix COMPACT_CONTINUATION_PREAMBLE t) (\<lambda>s0.
             let s1 = (case split_once ([10, 10] @ COMPACT_RECENT_MESSAGES_NOTE) s0 of
                         None \<Rightarrow> s0 | Some (v, _) \<Rightarrow> v);
                 s2 = (case split_once ([10] @ COMPACT_DIRECT_RESUME_INSTRUCTION) s1 of
                         None \<Rightarrow> s1 | Some (v, _) \<Rightarrow> v) in
             Some (trim s2))))"

definition compacted_summary_prefix_len :: "Session \<Rightarrow> nat" where
  "compacted_summary_prefix_len s =
     (case messages s of
        [] \<Rightarrow> 0
      | m # _ \<Rightarrow> (if extract_existing_compacted_summary m \<noteq> None then 1 else 0))"

definition session_has_compacted_summary :: "Session \<Rightarrow> bool" where
  "session_has_compacted_summary s \<longleftrightarrow> compacted_summary_prefix_len s > 0"

definition should_compact :: "Session \<Rightarrow> CompactionConfig \<Rightarrow> bool" where
  "should_compact s config =
     (let compactable = drop (compacted_summary_prefix_len s) (messages s) in
      length compactable > preserve_recent_messages config \<and>
      sum_list (map estimate_message_tokens compactable) \<ge> max_estimated_tokens config)"

section \<open>Summaries\<close>

fun summarize_block_raw :: "ContentBlock \<Rightarrow> rstr" where
  "summarize_block_raw (Text t) = t"
| "summarize_block_raw (ToolUse i n inp) = lit ''tool_use '' @ n @ lit ''('' @ inp @ lit '')''"
| "summarize_block_raw (ToolResult i n out err) =
     lit ''tool_result '' @ n @ lit '': '' @ (if err then lit ''error '' else []) @ out"
| "summarize_block_raw (UserInputRequest i p opts free) =
     lit ''user_input_request '' @ p
     @ (if opts = [] then [] else lit '' options='' @ join (lit '', '') opts)"
| "summarize_block_raw (UserInputResponse i c sel) = lit ''user_input_response '' @ c"

definition summarize_block :: "ContentBlock \<Rightarrow> rstr" where
  "summarize_block b = truncate_summary (summarize_block_raw b) 160"

definition collect_recent_role_summaries ::
  "ConversationMessage list \<Rightarrow> MessageRole \<Rightarrow> nat \<Rightarrow> rstr list" where
  "collect_recent_role_summaries ms r limit =
     rev (map (\<lambda>t. truncate_summary t 160)
       (take limit (List.map_filter first_text_block (rev (filter (\<lambda>m. role m = r) ms)))))"

definition mentions_pending_work :: "rstr \<Rightarrow> bool" where
  "mentions_pending_work t =
     (let lowered = to_ascii_lowercase t in
      contains (lit ''todo'') lowered \<or> contains (lit ''next'') lowered
      \<or> contains (lit ''pending'') lowered \<or> contains (lit ''follow up'') lowered
      \<or> contains (lit ''remaining'') lowered)"

definition infer_pending_work :: "ConversationMessage list \<Rightarrow> rstr list" where
  "infer_pending_work ms =
     rev (map (\<lambda>t. truncate_summary t 160)
       (take 3 (filter mentions_pending_work (List.map_filter first_text_block (rev ms)))))"

definition infer_current_work :: "ConversationMessage list \<Rightarrow> rstr option" where
  "infer_current_work ms =
     map_option (\<lambda>t. truncate_summary t 200)
       (find not_blank (List.map_filter first_text_block (rev ms)))"

definition has_interesting_extension :: "rstr \<Rightarrow> bool" where
  "has_interesting_extension c =
     (case path_extension (path_components c) of
        None \<Rightarrow> False
      | Some e \<Rightarrow>
          list_ex (\<lambda>expected. eq_ignore_ascii_case e (lit expected))
            [''rs'', ''ts'', ''tsx'', ''js'', ''json'', ''md''])"

definition is_file_punctuation :: "rchar \<Rightarrow> bool" where
  "is_file_punctuation c \<longleftrightarrow> c \<in> {44, 46, 58, 59, 41, 40, 34, 39, 96}"

definition file_candidate :: "rstr \<Rightarrow> rstr option" where
  "file_candidate token =
     (let c = trim_by is_file_punctuation token in
      if 47 \<in> set c \<and> has_interesting_extension c then Some c else None)"

definition extract_file_candidates :: "rstr \<Rightarrow> rstr list" where
  "extract_file_candidates c = List.map_filter file_candidate (split_whitespace c)"

fun key_file_text :: "ContentBlock \<Rightarrow> rstr" where
  "key_file_text (Text t) = t"
| "key_file_text (ToolUse i n inp) = inp"
| "key_file_text (ToolResult i n out err) = out"
| "key_file_text (UserInputRequest i p opts free) = p"
| "key_file_text (UserInputResponse i c sel) = c"

text \<open>\<open>sort\<close> followed by \<open>dedup\<close> is \<open>remdups_adj\<close> of the sorted list.\<close>

definition collect_key_files :: "ConversationMessage list \<Rightarrow> rstr list" where
  "collect_key_files ms =
     take 8 (remdups_adj (sort (concat (map (extract_file_candidates \<circ> key_file_text)
       (concat (map blocks ms))))))"

fun block_tool_name :: "ContentBlock \<Rightarrow> rstr option" where
  "block_tool_name (ToolUse i n inp) = Some n"
| "block_tool_name (ToolResult i n out err) = Some n"
| "block_tool_name (Text t) = None"
| "block_tool_name (UserInputRequest i p opts free) = None"
| "block_tool_name (UserInputResponse i c sel) = None"

definition timeline_line :: "ConversationMessage \<Rightarrow> rstr" where
  "timeline_line m =
     lit ''  - '' @ role_str (role m) @ lit '': '' @ join (lit '' | '') (map summarize_block (blocks m))"

definition bullet :: "rstr \<Rightarrow> rstr" where
  "bullet s = lit ''  - '' @ s"

definition summary_scope_line :: "ConversationMessage list \<Rightarrow> rstr" where
  "summary_scope_line ms =
     lit ''- Scope: '' @ show_nat (length ms) @ lit '' earlier messages compacted (user=''
     @ show_nat (length (filter (\<lambda>m. role m = User) ms)) @ lit '', assistant=''
     @ show_nat (length (filter (\<lambda>m. role m = Assistant) ms)) @ lit '', tool=''
     @ show_nat (length (filter (\<lambda>m. role m = Tool) ms)) @ lit '').''"

definition summarize_messages :: "ConversationMessage list \<Rightarrow> rstr" where
  "summarize_messages ms =
     (let tool_names =
            remdups_adj (sort (List.map_filter block_tool_name (concat (map blocks ms))));
          requests = collect_recent_role_summaries ms User 3;
          pending = infer_pending_work ms;
          files = collect_key_files ms in
      join [10]
        ([lit ''<summary>'', lit ''Conversation summary:'', summary_scope_line ms]
         @ (if tool_names = [] then []
            else [lit ''- Tools mentioned: '' @ join (lit '', '') tool_names @ lit ''.''])
         @ (if requests = [] then []
            else lit ''- Recent user requests:'' # map bullet requests)
         @ (if pending = [] then [] else lit ''- Pending work:'' # map bullet pending)
         @ (if files = [] then []
            else [lit ''- Key files referenced: '' @ join (lit '', '') files @ lit ''.''])
         @ (case infer_current_work ms of None \<Rightarrow> []
            | Some w \<Rightarrow> [lit ''- Current work: '' @ w])
         @ [lit ''- Key timeline:''] @ map timeline_line ms @ [lit ''</summary>'']))"

fun highlights_loop :: "bool \<Rightarrow> rstr list \<Rightarrow> rstr list" where
  "highlights_loop in_timeline [] = []"
| "highlights_loop in_timeline (l # ls) =
     (let t = trim_end l in
      if t = [] \<or> t = lit ''Summary:'' \<or> t = lit ''Conversation summary:''
      then highlights_loop in_timeline ls
      else if t = lit ''- Key timeline:'' then highlights_loop True ls
      else if in_timeline then highlights_loop in_timeline ls
      else t # highlights_loop in_timeline ls)"

definition extract_summary_highlights :: "rstr \<Rightarrow> rstr list" where
  "extract_summary_highlights s = highlights_loop False (str_lines (format_compact_summary s))"

fun timeline_loop :: "bool \<Rightarrow> rstr list \<Rightarrow> rstr list" where
  "timeline_loop in_timeline [] = []"
| "timeline_loop in_timeline (l # ls) =
     (let t = trim_end l in
      if t = lit ''- Key timeline:'' then timeline_loop True ls
      else if \<not> in_timeline then timeline_loop in_timeline ls
      else if t = [] then []
      else t # timeline_loop in_timeline ls)"

definition extract_summary_timeline :: "rstr \<Rightarrow> rstr list" where
  "extract_summary_timeline s = timeline_loop False (str_lines (format_compact_summary s))"

definition indented_section :: "rstr \<Rightarrow> rstr list \<Rightarrow> rstr list" where
  "indented_section title ls = (if ls = [] then [] else title # map (\<lambda>l. lit ''  '' @ l) ls)"

definition merge_compact_summaries :: "rstr option \<Rightarrow> rstr \<Rightarrow> rstr" where
  "merge_compact_summaries existing new_summary =
     (case existing of
        None \<Rightarrow> new_summary
      | Some old \<Rightarrow>
          (let new_formatted = format_compact_summary new_summary in
           join [10]
             ([lit ''<summary>'', lit ''Conversation summary:'']
              @ indented_section (lit ''- Previously compacted context:'') (extract_summary_highlights old)
              @ indented_section (lit ''- Newly compacted context:'') (extract_summary_highlights new_formatted)
              @ indented_section (lit ''- Key timeline:'') (extract_summary_timeline new_formatted)
              @ [lit ''</summary>''])))"

section \<open>Accounting\<close>

text \<open>\<open>u32::saturating_add\<close>.\<close>

definition saturating_add :: "u32 \<Rightarrow> u32 \<Rightarrow> u32" where
  "saturating_add a b = (if unat a + unat b < 2 ^ 32 then a + b else - 1)"

definition add_usage :: "TokenUsage \<Rightarrow> TokenUsage \<Rightarrow> TokenUsage" where
  "add_usage l r =
     \<lparr>input_tokens = saturating_add (input_tokens l) (input_tokens r),
      output_tokens = saturating_add (output_tokens l) (output_tokens r),
      cache_creation_input_tokens =
        saturating_add (cache_creation_input_tokens l) (cache_creation_input_tokens r),
      cache_read_input_tokens =
        saturating_add (cache_read_input_tokens l) (cache_read_input_tokens r)\<rparr>"

definition usage_for_messages :: "ConversationMessage list \<Rightarrow> TokenUsage" where
  "usage_for_messages ms = foldl add_usage TokenUsage_default (List.map_filter usage ms)"

definition turns_for_messages :: "ConversationMessage list \<Rightarrow> u32" where
  "turns_for_messages ms =
     (let n = length (filter (\<lambda>m. usage m \<noteq> None) ms) in
      if n < 2 ^ 32 then of_nat n else - 1)"

definition effective_accounting_status :: "Session \<Rightarrow> SessionAccountingStatus" where
  "effective_accounting_status s =
     (case telemetry s of
        None \<Rightarrow> if session_has_compacted_summary s then PartialLegacyCompaction else Complete
      | Some t \<Rightarrow> accounting_status t)"

definition SessionTelemetry_default :: SessionTelemetry where
  "SessionTelemetry_default = \<lparr>compacted_usage = TokenUsage_default, compacted_turns = 0,
     accounting_status = Complete\<rparr>"

section \<open>Compaction\<close>

definition compact_session :: "Session \<Rightarrow> CompactionConfig \<Rightarrow> CompactionResult" where
  "compact_session s config =
     (let before = estimate_session_tokens s;
          status = effective_accounting_status s in
      if \<not> should_compact s config then
        \<lparr>summary = [], formatted_summary = [], compacted_session = s, removed_message_count = 0,
         summary_mode = Unchanged, estimated_tokens_before = before,
         estimated_tokens_after = before, result_accounting_status = status\<rparr>
      else
        let existing = (case messages s of [] \<Rightarrow> None
                        | m # _ \<Rightarrow> extract_existing_compacted_summary m);
            mode = (if existing \<noteq> None then MergedExisting else NewSummary);
            prefix_len = (if existing \<noteq> None then 1 else 0);
            keep_from = length (messages s) - preserve_recent_messages config;
            removed = drop prefix_len (take keep_from (messages s));
            preserved = drop keep_from (messages s);
            removed_usage = usage_for_messages removed;
            removed_turns = turns_for_messages removed;
            summ = merge_compact_summaries existing (summarize_messages removed);
            formatted = format_compact_summary summ;
            continuation = get_compact_continuation_message summ True (preserved \<noteq> []);
            compacted_messages =
              \<lparr>role = System, blocks = [Text continuation], usage = None\<rparr> # preserved;
            previous = unwrap_or SessionTelemetry_default (telemetry s);
            compacted =
              \<lparr>version = version s, messages = compacted_messages,
               telemetry = Some
                 \<lparr>compacted_usage = add_usage (compacted_usage previous) removed_usage,
                  compacted_turns = compacted_turns previous + removed_turns,
                  accounting_status = status\<rparr>\<rparr> in
        \<lparr>summary = summ, formatted_summary = formatted, compacted_session = compacted,
         removed_message_count = length removed, summary_mode = mode,
         estimated_tokens_before = before,
         estimated_tokens_after = estimate_session_tokens compacted,
         result_accounting_status = status\<rparr>)"

section \<open>The usage tracker\<close>

record UsageTracker =
  latest_turn :: TokenUsage
  cumulative :: TokenUsage
  tracker_turns :: u32
  tracker_accounting_status :: SessionAccountingStatus

definition UsageTracker_new :: UsageTracker where
  "UsageTracker_new = \<lparr>latest_turn = TokenUsage_default, cumulative = TokenUsage_default,
     tracker_turns = 0, tracker_accounting_status = Complete\<rparr>"

text \<open>
  \<open>TokenUsage::total_tokens\<close> adds in \<open>u32\<close>; \<open>UsageTracker::record\<close> adds field by field, with the
  wrap-around of a release build.
\<close>

definition total_tokens :: "TokenUsage \<Rightarrow> u32" where
  "total_tokens u = input_tokens u + output_tokens u + cache_creation_input_tokens u
     + cache_read_input_tokens u"

definition plus_usage :: "TokenUsage \<Rightarrow> TokenUsage \<Rightarrow> TokenUsage" where
  "plus_usage l r =
     \<lparr>input_tokens = input_tokens l + input_tokens r,
      output_tokens = output_tokens l + output_tokens r,
      cache_creation_input_tokens = cache_creation_input_tokens l + cache_creation_input_tokens r,
      cache_read_input_tokens = cache_read_input_tokens l + cache_read_input_tokens r\<rparr>"

definition tracker_record :: "UsageTracker \<Rightarrow> TokenUsage \<Rightarrow> UsageTracker" where
  "tracker_record t u =
     t\<lparr>latest_turn := u, cumulative := plus_usage (cumulative t) u,
       tracker_turns := tracker_turns t + 1\<rparr>"

definition tracker_from_session :: "Session \<Rightarrow> UsageTracker" where
  "tracker_from_session s =
     foldl tracker_record
       \<lparr>latest_turn = TokenUsage_default,
        cumulative = (case telemetry s of None \<Rightarrow> TokenUsage_default | Some t \<Rightarrow> compacted_usage t),
        tracker_turns = (case telemetry s of None \<Rightarrow> 0 | Some t \<Rightarrow> compacted_turns t),
        tracker_accounting_status =
          (case telemetry s of
             None \<Rightarrow> if session_has_compacted_summary s then PartialLegacyCompaction else Complete
           | Some t \<Rightarrow> accounting_status t)\<rparr>
       (List.map_filter usage (messages s))"

section \<open>Reading a summary back\<close>

lemma unbordered_note: "unbordered ([10, 10] @ COMPACT_RECENT_MESSAGES_NOTE)"
  by (rule unbordered_last) (simp add: COMPACT_RECENT_MESSAGES_NOTE_def lit_def)

lemma unbordered_instruction: "unbordered ([10] @ COMPACT_DIRECT_RESUME_INSTRUCTION)"
  by (rule unbordered_hd) (simp add: COMPACT_DIRECT_RESUME_INSTRUCTION_def lit_def)

lemma continuation_not_blank [simp]: "not_blank (get_compact_continuation_message s a b)"
proof -
  have "84 \<in> set COMPACT_CONTINUATION_PREAMBLE" "\<not> is_ws 84" by (simp_all add: COMPACT_CONTINUATION_PREAMBLE_def lit_def is_ws_def)
  then show ?thesis
    by (auto simp: not_blank_def get_compact_continuation_message_def trim_Nil_iff)
qed

lemma trim_format [simp]: "trim (format_compact_summary s) = format_compact_summary s"
  by (simp add: format_compact_summary_def Let_def)

lemma continuation_recognised [simp]:
  "extract_existing_compacted_summary
     \<lparr>role = System, blocks = [Text (get_compact_continuation_message s a b)], usage = u\<rparr> \<noteq> None"
  using continuation_not_blank[of s a b]
  by (simp add: extract_existing_compacted_summary_def first_text_block_def Let_def)
   (simp add: get_compact_continuation_message_def)

lemma extract_continuation:
  assumes "\<not> contains ([10, 10] @ COMPACT_RECENT_MESSAGES_NOTE) (format_compact_summary s)"
    and "\<not> contains ([10] @ COMPACT_DIRECT_RESUME_INSTRUCTION) (format_compact_summary s)"
  shows "extract_existing_compacted_summary
     \<lparr>role = System, blocks = [Text (get_compact_continuation_message s q True)], usage = u\<rparr>
     = Some (format_compact_summary s)"
proof -
  let ?F = "format_compact_summary s"
  let ?r = "if q then [10] @ COMPACT_DIRECT_RESUME_INSTRUCTION else []"
  have "split_once ([10, 10] @ COMPACT_RECENT_MESSAGES_NOTE)
      (?F @ ([10, 10] @ COMPACT_RECENT_MESSAGES_NOTE) @ ?r) = Some (?F, ?r)"
    by (rule split_once_unbordered[OF unbordered_note assms(1)])
  moreover have "split_once ([10] @ COMPACT_DIRECT_RESUME_INSTRUCTION) ?F = None"
    using assms(2) by (simp only: split_once_None_iff not_False_eq_True simp_thms)
  moreover have "get_compact_continuation_message s q True =
      COMPACT_CONTINUATION_PREAMBLE @ ?F @ ([10, 10] @ COMPACT_RECENT_MESSAGES_NOTE) @ ?r"
    by (simp only: get_compact_continuation_message_def if_True append.assoc)
  ultimately show ?thesis
    using continuation_not_blank[of s q True]
    by (simp add: extract_existing_compacted_summary_def first_text_block_def Let_def
        del: append.simps)
qed

section \<open>Sums of token counts\<close>

text \<open>Sums of one token count over messages, in unbounded arithmetic.\<close>

definition usage_fields :: "(TokenUsage \<Rightarrow> u32) list" where
  "usage_fields =
     [input_tokens, output_tokens, cache_creation_input_tokens, cache_read_input_tokens]"

definition field_sum :: "(TokenUsage \<Rightarrow> u32) \<Rightarrow> ConversationMessage list \<Rightarrow> nat" where
  "field_sum f ms = sum_list (map (\<lambda>u. unat (f u)) (List.map_filter usage ms))"

definition carried_usage :: "Session \<Rightarrow> TokenUsage" where
  "carried_usage s = compacted_usage (unwrap_or SessionTelemetry_default (telemetry s))"

definition carried_turns :: "Session \<Rightarrow> u32" where
  "carried_turns s = compacted_turns (unwrap_or SessionTelemetry_default (telemetry s))"

definition accounting_ok :: "Session \<Rightarrow> bool" where
  "accounting_ok s \<longleftrightarrow>
     list_all (\<lambda>f. unat (f (carried_usage s)) + field_sum f (messages s) < 2 ^ 32) usage_fields
     \<and> unat (carried_turns s) + length (List.map_filter usage (messages s)) < 2 ^ 32
     \<and> (case messages s of [] \<Rightarrow> True
        | m # _ \<Rightarrow> extract_existing_compacted_summary m = None \<or> usage m = None)"

lemma field_sum_append [simp]: "field_sum f (xs @ ys) = field_sum f xs + field_sum f ys"
  by (simp add: field_sum_def)

lemma usage_eqI: "(\<And>f. f \<in> set usage_fields \<Longrightarrow> f u = f v) \<Longrightarrow> u = (v :: TokenUsage)"
  by (rule TokenUsage.equality) (auto simp: usage_fields_def)

lemma field_laws:
  assumes "f \<in> set usage_fields"
  shows "f (plus_usage u v) = f u + f v" "f (add_usage u v) = saturating_add (f u) (f v)"
    "f TokenUsage_default = 0"
  using assms by (auto simp: usage_fields_def plus_usage_def add_usage_def TokenUsage_default_def)

lemma saturating_add_in_range:
  "unat a + unat b < 2 ^ 32 \<Longrightarrow> saturating_add a b = a + b"
  by (simp add: saturating_add_def)

lemma foldl_add_usage:
  assumes f: "f \<in> set usage_fields"
  shows "unat (f u) + sum_list (map (\<lambda>u. unat (f u)) us) < 2 ^ 32 \<Longrightarrow>
    f (foldl add_usage u us) = f u + of_nat (sum_list (map (\<lambda>u. unat (f u)) us))"
proof (induction us arbitrary: u)
  case Nil
  then show ?case by simp
next
  case (Cons v us)
  have eq: "f (add_usage u v) = f u + f v"
    using Cons.prems by (simp add: field_laws[OF f] saturating_add_in_range)
  have "unat (f u + f v) = unat (f u) + unat (f v)"
    using Cons.prems by (subst unat_add_lem[THEN iffD1]) simp_all
  with Cons.prems eq have "unat (f (add_usage u v)) + sum_list (map (\<lambda>u. unat (f u)) us) < 2 ^ 32"
    by simp
  from Cons.IH[OF this] eq show ?case by (simp add: add.assoc)
qed

lemma usage_for_messages_field:
  assumes "f \<in> set usage_fields" "field_sum f ms < 2 ^ 32"
  shows "f (usage_for_messages ms) = of_nat (field_sum f ms)"
  using foldl_add_usage[OF assms(1), of TokenUsage_default "List.map_filter usage ms"] assms
  by (simp add: usage_for_messages_def field_sum_def field_laws)

lemma tracker_fold:
  "cumulative (foldl tracker_record t us) = foldl plus_usage (cumulative t) us"
  "tracker_turns (foldl tracker_record t us) = tracker_turns t + of_nat (length us)"
  "tracker_accounting_status (foldl tracker_record t us) = tracker_accounting_status t"
  by (induction us arbitrary: t) (simp_all add: tracker_record_def)

lemma foldl_plus_usage:
  "f \<in> set usage_fields \<Longrightarrow>
     f (foldl plus_usage u us) = f u + of_nat (sum_list (map (\<lambda>u. unat (f u)) us))"
  by (induction us arbitrary: u) (simp_all add: field_laws add.assoc)

lemma tracker_cumulative:
  "f \<in> set usage_fields \<Longrightarrow>
     f (cumulative (tracker_from_session s)) = f (carried_usage s) + of_nat (field_sum f (messages s))"
  by (simp add: tracker_from_session_def tracker_fold foldl_plus_usage field_sum_def carried_usage_def
      unwrap_or_def SessionTelemetry_default_def split: option.splits)

lemma tracker_turns_session:
  "tracker_turns (tracker_from_session s) =
     carried_turns s + of_nat (length (List.map_filter usage (messages s)))"
  by (simp add: tracker_from_session_def tracker_fold carried_turns_def
      unwrap_or_def SessionTelemetry_default_def split: option.splits)

lemma tracker_status:
  "tracker_accounting_status (tracker_from_session s) = effective_accounting_status s"
  by (simp add: tracker_from_session_def tracker_fold effective_accounting_status_def)

text \<open>What a compaction keeps and what it drops.\<close>

definition compact_dropped :: "Session \<Rightarrow> CompactionConfig \<Rightarrow> ConversationMessage list" where
  "compact_dropped s c =
     drop (compacted_summary_prefix_len s) (take (length (messages s) - preserve_recent_messages c) (messages s))"

definition compact_kept :: "Session \<Rightarrow> CompactionConfig \<Rightarrow> ConversationMessage list" where
  "compact_kept s c = drop (length (messages s) - preserve_recent_messages c) (messages s)"

lemma should_compact_bounds:
  "should_compact s c \<Longrightarrow>
     compacted_summary_prefix_len s + preserve_recent_messages c < length (messages s)"
  by (auto simp: should_compact_def Let_def)

lemma compact_split:
  assumes "should_compact s c"
  shows "messages s =
    take (compacted_summary_prefix_len s) (messages s) @ compact_dropped s c @ compact_kept s c"
proof -
  have "take (compacted_summary_prefix_len s) (messages s) =
      take (compacted_summary_prefix_len s) (take (length (messages s) - preserve_recent_messages c) (messages s))"
    using should_compact_bounds[OF assms] by simp
  then show ?thesis
    by (metis append.assoc append_take_drop_id compact_dropped_def compact_kept_def)
qed

lemma compact_kept_length:
  "should_compact s c \<Longrightarrow> length (compact_kept s c) = preserve_recent_messages c"
  using should_compact_bounds[of s c] by (simp add: compact_kept_def)

lemma compact_session_unchanged:
  "\<not> should_compact s c \<Longrightarrow> compacted_session (compact_session s c) = s"
  "\<not> should_compact s c \<Longrightarrow> summary_mode (compact_session s c) = Unchanged"
  by (simp_all add: compact_session_def Let_def)

lemma compact_session_changed:
  assumes "should_compact s c"
  shows "messages (compacted_session (compact_session s c)) =
      \<lparr>role = System,
       blocks = [Text (get_compact_continuation_message (summary (compact_session s c)) True
                   (preserve_recent_messages c > 0))], usage = None\<rparr> # compact_kept s c"
    and "telemetry (compacted_session (compact_session s c)) =
      Some \<lparr>compacted_usage = add_usage (carried_usage s) (usage_for_messages (compact_dropped s c)),
        compacted_turns = carried_turns s + turns_for_messages (compact_dropped s c),
        accounting_status = effective_accounting_status s\<rparr>"
    and "version (compacted_session (compact_session s c)) = version s"
    and "removed_message_count (compact_session s c) = length (compact_dropped s c)"
    and "formatted_summary (compact_session s c) = format_compact_summary (summary (compact_session s c))"
    and "summary_mode (compact_session s c) \<noteq> Unchanged"
proof -
  have kept: "(drop (length (messages s) - preserve_recent_messages c) (messages s) \<noteq> []) \<longleftrightarrow>
      preserve_recent_messages c > 0"
    using compact_kept_length[OF assms] unfolding compact_kept_def by (metis length_greater_0_conv)
  have kept': "length (messages s) \<le> length (messages s) - preserve_recent_messages c \<longleftrightarrow>
      preserve_recent_messages c = 0"
    using should_compact_bounds[OF assms] by arith
  have pre: "(if (case messages s of [] \<Rightarrow> None | m # _ \<Rightarrow> extract_existing_compacted_summary m) \<noteq> None
      then 1 else 0) = compacted_summary_prefix_len s"
    by (simp add: compacted_summary_prefix_len_def split: list.splits)
  note d = compact_session_def Let_def pre kept compact_dropped_def[symmetric] compact_kept_def[symmetric]
    carried_usage_def carried_turns_def
  show "messages (compacted_session (compact_session s c)) =
      \<lparr>role = System,
       blocks = [Text (get_compact_continuation_message (summary (compact_session s c)) True
                   (preserve_recent_messages c > 0))], usage = None\<rparr> # compact_kept s c"
    using assms by (simp add: d kept')
  show "telemetry (compacted_session (compact_session s c)) =
      Some \<lparr>compacted_usage = add_usage (carried_usage s) (usage_for_messages (compact_dropped s c)),
        compacted_turns = carried_turns s + turns_for_messages (compact_dropped s c),
        accounting_status = effective_accounting_status s\<rparr>"
    using assms pre by (simp add: d)
  show "removed_message_count (compact_session s c) = length (compact_dropped s c)"
    using assms pre by (simp add: d) (simp add: compact_dropped_def)
  show "version (compacted_session (compact_session s c)) = version s"
    "formatted_summary (compact_session s c) = format_compact_summary (summary (compact_session s c))"
    "summary_mode (compact_session s c) \<noteq> Unchanged"
    using assms pre by (simp_all add: d)
qed

lemma compacted_carried:
  assumes "should_compact s c"
  shows "carried_usage (compacted_session (compact_session s c)) =
      add_usage (carried_usage s) (usage_for_messages (compact_dropped s c))"
    and "carried_turns (compacted_session (compact_session s c)) =
      carried_turns s + turns_for_messages (compact_dropped s c)"
    and "effective_accounting_status (compacted_session (compact_session s c)) =
      effective_accounting_status s"
  by (simp_all add: carried_usage_def carried_turns_def effective_accounting_status_def
      compact_session_changed[OF assms] unwrap_or_def)

lemma prefix_usage:
  assumes "accounting_ok s"
  shows "List.map_filter usage (take (compacted_summary_prefix_len s) (messages s)) = []"
  using assms by (auto simp: accounting_ok_def compacted_summary_prefix_len_def split: list.splits)

lemma messages_usage:
  assumes "accounting_ok s" "should_compact s c"
  shows "List.map_filter usage (messages s) =
    List.map_filter usage (compact_dropped s c) @ List.map_filter usage (compact_kept s c)"
  using arg_cong[OF compact_split[OF assms(2)], of "List.map_filter usage"] prefix_usage[OF assms(1)]
  by (simp del: append_take_drop_id)

lemma messages_field_sum:
  assumes "accounting_ok s" "should_compact s c"
  shows "field_sum f (messages s) = field_sum f (compact_dropped s c) + field_sum f (compact_kept s c)"
  using messages_usage[OF assms] by (simp add: field_sum_def)

lemma accounting_ok_field:
  assumes "accounting_ok s" "f \<in> set usage_fields"
  shows "unat (f (carried_usage s)) + field_sum f (messages s) < 2 ^ 32"
  using assms unfolding accounting_ok_def list_all_iff by blast

text \<open>A compaction moves the removed counts into the telemetry without losing any.\<close>

lemma compacted_field:
  assumes "accounting_ok s" "should_compact s c" "f \<in> set usage_fields"
  shows "f (carried_usage (compacted_session (compact_session s c))) =
      f (carried_usage s) + of_nat (field_sum f (compact_dropped s c))"
    and "unat (f (carried_usage (compacted_session (compact_session s c)))) =
      unat (f (carried_usage s)) + field_sum f (compact_dropped s c)"
proof -
  let ?d = "field_sum f (compact_dropped s c)"
  have r: "unat (f (carried_usage s)) + ?d < 2 ^ 32"
    using accounting_ok_field[OF assms(1,3)] messages_field_sum[OF assms(1,2), of f] by simp
  then have d: "f (usage_for_messages (compact_dropped s c)) = of_nat ?d"
    using assms(3) by (intro usage_for_messages_field) simp_all
  have u: "unat (of_nat ?d :: u32) = ?d"
    using r by (intro unat_of_nat_u32) simp
  show e: "f (carried_usage (compacted_session (compact_session s c))) =
      f (carried_usage s) + of_nat ?d"
    using r u by (simp add: compacted_carried[OF assms(2)] field_laws[OF assms(3)] d
        saturating_add_in_range)
  show "unat (f (carried_usage (compacted_session (compact_session s c)))) =
      unat (f (carried_usage s)) + ?d"
    unfolding e using r u by (subst unat_add_lem[THEN iffD1]) simp_all
qed

lemma compacted_turns_count:
  assumes "accounting_ok s" "should_compact s c"
  shows "carried_turns (compacted_session (compact_session s c)) =
      carried_turns s + of_nat (length (List.map_filter usage (compact_dropped s c)))"
    and "unat (carried_turns (compacted_session (compact_session s c))) =
      unat (carried_turns s) + length (List.map_filter usage (compact_dropped s c))"
proof -
  let ?n = "length (List.map_filter usage (compact_dropped s c))"
  have r: "unat (carried_turns s) + ?n < 2 ^ 32"
    using assms(1) messages_usage[OF assms] by (simp add: accounting_ok_def)
  then show e: "carried_turns (compacted_session (compact_session s c)) = carried_turns s + of_nat ?n"
    by (simp add: compacted_carried[OF assms(2)] turns_for_messages_def length_map_filter Let_def)
  have u: "unat (of_nat ?n :: u32) = ?n" using r by (intro unat_of_nat_u32) simp
  show "unat (carried_turns (compacted_session (compact_session s c))) = unat (carried_turns s) + ?n"
    unfolding e using r u by (subst unat_add_lem[THEN iffD1]) simp_all
qed

text \<open>C4: compacting a session never loses a token: as long as the true totals fit a \<open>u32\<close>, a
  usage tracker built from the compacted session reports the same cumulative usage, the same
  number of turns and the same accounting status as one built from the original, and the
  compacted session again satisfies what the next compaction needs.\<close>

theorem compaction_preserves_accounting:
  assumes ok: "accounting_ok s"
  shows "cumulative (tracker_from_session (compacted_session (compact_session s c))) =
      cumulative (tracker_from_session s)
    \<and> tracker_turns (tracker_from_session (compacted_session (compact_session s c))) =
      tracker_turns (tracker_from_session s)
    \<and> tracker_accounting_status (tracker_from_session (compacted_session (compact_session s c))) =
      tracker_accounting_status (tracker_from_session s)
    \<and> accounting_ok (compacted_session (compact_session s c))"
proof (cases "should_compact s c")
  case False
  then show ?thesis using ok by (simp add: compact_session_unchanged)
next
  case True
  note ch = compact_session_changed[OF True]
  have fs: "field_sum f (messages (compacted_session (compact_session s c))) =
      field_sum f (compact_kept s c)" for f
    by (simp add: ch field_sum_def)
  have mf: "List.map_filter usage (messages (compacted_session (compact_session s c))) =
      List.map_filter usage (compact_kept s c)"
    by (simp add: ch)
  have "cumulative (tracker_from_session (compacted_session (compact_session s c))) =
      cumulative (tracker_from_session s)"
    by (rule usage_eqI)
      (simp add: tracker_cumulative fs compacted_field[OF ok True] messages_field_sum[OF ok True])
  moreover have "tracker_turns (tracker_from_session (compacted_session (compact_session s c))) =
      tracker_turns (tracker_from_session s)"
    by (simp add: tracker_turns_session mf compacted_turns_count[OF ok True] messages_usage[OF ok True])
  moreover have "accounting_ok (compacted_session (compact_session s c))"
    unfolding accounting_ok_def list_all_iff
  proof (intro conjI ballI)
    fix f assume f: "f \<in> set usage_fields"
    show "unat (f (carried_usage (compacted_session (compact_session s c)))) +
        field_sum f (messages (compacted_session (compact_session s c))) < 2 ^ 32"
      using accounting_ok_field[OF ok f]
      by (simp add: fs compacted_field(2)[OF ok True f] messages_field_sum[OF ok True])
  next
    show "unat (carried_turns (compacted_session (compact_session s c))) +
        length (List.map_filter usage (messages (compacted_session (compact_session s c)))) < 2 ^ 32"
      using ok by (simp add: mf compacted_turns_count(2)[OF ok True] accounting_ok_def
          messages_usage[OF ok True])
  qed (simp add: ch)
  ultimately show ?thesis
    by (simp add: tracker_status compacted_carried[OF True])
qed

text \<open>a compaction replaces exactly the messages it counts by one system message with the
  summary and keeps the configured number of most recent messages, in order and unchanged; the
  slice bounds the code computes are always valid, because some message is removed.\<close>

theorem compaction_keeps_recent_messages:
  assumes "should_compact s c"
  shows "\<exists>m. messages (compacted_session (compact_session s c)) =
        m # drop (length (messages s) - preserve_recent_messages c) (messages s)
      \<and> role m = System \<and> usage m = None
      \<and> extract_existing_compacted_summary m \<noteq> None
    \<and> length (messages (compacted_session (compact_session s c))) = preserve_recent_messages c + 1
    \<and> removed_message_count (compact_session s c) + compacted_summary_prefix_len s
        + preserve_recent_messages c = length (messages s)
    \<and> 0 < removed_message_count (compact_session s c)"
  using should_compact_bounds[OF assms] compact_kept_length[OF assms]
  by (simp add: compact_session_changed[OF assms] del: not_None_eq)
    (simp add: compact_kept_def compact_dropped_def)

text \<open>compacting twice with the same configuration is compacting once: the second call finds
  only the messages the first one kept and returns the session unchanged.\<close>

theorem compaction_idempotent:
  "compacted_session (compact_session (compacted_session (compact_session s c)) c) =
     compacted_session (compact_session s c)
   \<and> summary_mode (compact_session (compacted_session (compact_session s c)) c) = Unchanged"
proof -
  have "\<not> should_compact (compacted_session (compact_session s c)) c"
  proof (cases "should_compact s c")
    case False
    then show ?thesis by (simp add: compact_session_unchanged)
  next
    case True
    show ?thesis
    proof
      assume "should_compact (compacted_session (compact_session s c)) c"
      from should_compact_bounds[OF this] show False
        using compact_kept_length[OF True]
        by (simp add: compact_session_changed[OF True] compacted_summary_prefix_len_def)
    qed
  qed
  then show ?thesis by (simp add: compact_session_unchanged)
qed

text \<open>the summary a compaction writes into the session is the one the next compaction reads
  back and merges, whenever the summary does not itself quote the two marker sentences.\<close>

theorem compaction_summary_readable:
  assumes "should_compact s c" "preserve_recent_messages c > 0"
    and "\<not> contains ([10, 10] @ COMPACT_RECENT_MESSAGES_NOTE) (formatted_summary (compact_session s c))"
    and "\<not> contains ([10] @ COMPACT_DIRECT_RESUME_INSTRUCTION) (formatted_summary (compact_session s c))"
  shows "map_option extract_existing_compacted_summary
      (case messages (compacted_session (compact_session s c)) of [] \<Rightarrow> None | m # _ \<Rightarrow> Some m)
    = Some (Some (formatted_summary (compact_session s c)))"
  using assms extract_continuation[of "summary (compact_session s c)" True None]
  by (simp add: compact_session_changed[OF assms(1)] del: append.simps)


lemma set_collapse_lines: "set (collapse_lines b ls) \<subseteq> \<Union> (set ` set ls) \<union> {10}"
  by (induction b ls rule: collapse_lines.induct) (auto simp: Let_def)

lemma set_collapse_blank_lines: "set (collapse_blank_lines s) \<subseteq> set s \<union> {10}"
  using set_collapse_lines[of False "str_lines s"] set_lines_acc[of "[]" s]
  unfolding collapse_blank_lines_def str_lines_def by auto

lemma set_strip_tag: "set (strip_tag_block s tag) \<subseteq> set s"
  by (auto simp: strip_tag_block_def dest!: set_split_once split: option.splits)

lemma set_extract_tag: "extract_tag_block s tag = Some c \<Longrightarrow> set c \<subseteq> set s"
  by (auto simp: extract_tag_block_def bind_eq_Some_conv dest!: set_split_once)

lemma set_format: "set (format_compact_summary s) \<subseteq> set s \<union> set (lit ''Summary:'') \<union> {10}"
proof -
  let ?w = "strip_tag_block s (lit ''analysis'')"
  let ?f = "case extract_tag_block ?w (lit ''summary'') of
      Some c \<Rightarrow> replace_str (lit ''<summary>'' @ c @ lit ''</summary>'')
        (lit ''Summary:'' @ [10] @ trim c) ?w
    | None \<Rightarrow> ?w"
  have w: "set ?w \<subseteq> set s" by (rule set_strip_tag)
  have "set ?f \<subseteq> set s \<union> set (lit ''Summary:'') \<union> {10}"
  proof (cases "extract_tag_block ?w (lit ''summary'')")
    case None
    then show ?thesis using w by auto
  next
    case (Some c)
    have c: "set (trim c) \<subseteq> set s"
      using set_extract_tag[OF Some] set_trim_by[of is_ws c] w unfolding trim_def by blast
    have "set ?f \<subseteq> set (lit ''Summary:'' @ [10] @ trim c) \<union> set ?w"
      unfolding Some option.case replace_str_def by (rule set_replace_from)
    then show ?thesis using c w by auto
  qed
  moreover have "set (format_compact_summary s) \<subseteq> set (collapse_blank_lines ?f)"
    unfolding format_compact_summary_def Let_def trim_def by (rule set_trim_by)
  ultimately show ?thesis using set_collapse_blank_lines[of ?f] by blast
qed

section \<open>A concrete compaction\<close>

definition sample_usage :: TokenUsage where
  "sample_usage = \<lparr>input_tokens = 7, output_tokens = 3, cache_creation_input_tokens = 0,
     cache_read_input_tokens = 1\<rparr>"

definition sample_session :: Session where
  "sample_session = \<lparr>version = 1,
     messages =
       [assistant_with_usage [Text (lit ''hi'')] None,
        assistant_with_usage [Text (lit ''ok'')] (Some sample_usage),
        user_text (lit ''go'')],
     telemetry = None\<rparr>"

definition sample_config :: CompactionConfig where
  "sample_config = \<lparr>preserve_recent_messages = 1, max_estimated_tokens = 0\<rparr>"

lemma sample_should_compact: "should_compact sample_session sample_config"
  by code_simp

theorem compaction_preserves_accounting_witness:
  "accounting_ok sample_session \<and> should_compact sample_session sample_config
   \<and> tracker_turns (tracker_from_session
       (compacted_session (compact_session sample_session sample_config))) = 1"
proof -
  have "accounting_ok sample_session"
    by (simp add: accounting_ok_def sample_session_def sample_usage_def user_text_def assistant_with_usage_def
        usage_fields_def carried_usage_def carried_turns_def unwrap_or_def field_sum_def
        SessionTelemetry_default_def TokenUsage_default_def extract_existing_compacted_summary_def)
  moreover have "tracker_turns (tracker_from_session sample_session) = 1"
    by (simp add: tracker_turns_session sample_session_def user_text_def assistant_with_usage_def
        carried_turns_def unwrap_or_def SessionTelemetry_default_def)
  ultimately show ?thesis
    using compaction_preserves_accounting[of sample_session sample_config] sample_should_compact
    by simp
qed

theorem compaction_keeps_recent_messages_witness:
  "removed_message_count (compact_session sample_session sample_config) = 2"
proof -
  have "compacted_summary_prefix_len sample_session = 0" "preserve_recent_messages sample_config = 1"
    "length (messages sample_session) = 3"
    by code_simp+
  then show ?thesis
    using compaction_keeps_recent_messages[OF sample_should_compact] by auto
qed

lemma sample_summary: "82 \<notin> set (summarize_messages (take 2 (messages sample_session)))"
  "8212 \<notin> set (summarize_messages (take 2 (messages sample_session)))"
  by (simp_all add: summarize_messages_def sample_session_def assistant_with_usage_def Let_def
      collect_recent_role_summaries_def infer_pending_work_def infer_current_work_def
      collect_key_files_def extract_file_candidates_def file_candidate_def split_whitespace_def
      first_text_block_def not_blank_def trim_Nil_iff trim_by_def trim_start_by_def trim_end_by_def
      is_file_punctuation_def is_ws_def mentions_pending_work_def to_ascii_lowercase_def
      ascii_lower_char_def contains_def truncate_summary_def summary_scope_line_def timeline_line_def
      summarize_block_def show_nat.simps lit_def)

lemma sample_no_notes:
  "\<not> contains ([10, 10] @ COMPACT_RECENT_MESSAGES_NOTE)
      (formatted_summary (compact_session sample_session sample_config))"
  "\<not> contains ([10] @ COMPACT_DIRECT_RESUME_INSTRUCTION)
      (formatted_summary (compact_session sample_session sample_config))"
proof -
  have ex: "extract_existing_compacted_summary (hd (messages sample_session)) = None"
    by (simp add: sample_session_def assistant_with_usage_def extract_existing_compacted_summary_def)
  then have "summary (compact_session sample_session sample_config) =
      summarize_messages (take 2 (messages sample_session))"
    using sample_should_compact
    by (simp add: compact_session_def Let_def merge_compact_summaries_def sample_session_def
        sample_config_def)
  then have "formatted_summary (compact_session sample_session sample_config) =
      format_compact_summary (summarize_messages (take 2 (messages sample_session)))"
    by (simp only: compact_session_changed(5)[OF sample_should_compact])
  then have "82 \<notin> set (formatted_summary (compact_session sample_session sample_config))"
    "8212 \<notin> set (formatted_summary (compact_session sample_session sample_config))"
    using set_format[of "summarize_messages (take 2 (messages sample_session))"] sample_summary
    by (auto simp: lit_def)
  moreover have "82 \<in> set COMPACT_RECENT_MESSAGES_NOTE" "8212 \<in> set COMPACT_DIRECT_RESUME_INSTRUCTION"
    by (simp_all add: COMPACT_RECENT_MESSAGES_NOTE_def COMPACT_DIRECT_RESUME_INSTRUCTION_def lit_def)
  ultimately show "\<not> contains ([10, 10] @ COMPACT_RECENT_MESSAGES_NOTE)
      (formatted_summary (compact_session sample_session sample_config))"
    "\<not> contains ([10] @ COMPACT_DIRECT_RESUME_INSTRUCTION)
      (formatted_summary (compact_session sample_session sample_config))"
    by (auto dest!: contains_set)
qed

theorem compaction_summary_readable_witness:
  "map_option extract_existing_compacted_summary
     (case messages (compacted_session (compact_session sample_session sample_config)) of
        [] \<Rightarrow> None | m # _ \<Rightarrow> Some m)
   = Some (Some (formatted_summary (compact_session sample_session sample_config)))"
  by (rule compaction_summary_readable[OF sample_should_compact _ sample_no_notes])
    (simp add: sample_config_def)


end
