(* ===== verification/Permissions.thy ===== *)
theory Permissions
  imports Rust_Str
begin

text \<open>
  The permission policy of \<open>runtime/src/permissions.rs\<close>: the modes, the requirement of every tool
  and the decision whether a call may run, which may ask a prompter. The prompter is the caller's
  code: it is a function from a request and its own state to a decision and its new state.
\<close>

datatype PermissionMode = ReadOnly | WorkspaceWrite | DangerFullAccess | Prompt | Allow

fun mode_as_str :: "PermissionMode \<Rightarrow> rstr" where
  "mode_as_str ReadOnly = lit ''read-only''"
| "mode_as_str WorkspaceWrite = lit ''workspace-write''"
| "mode_as_str DangerFullAccess = lit ''danger-full-access''"
| "mode_as_str Prompt = lit ''prompt''"
| "mode_as_str Allow = lit ''allow''"

fun auto_allows :: "PermissionMode \<Rightarrow> PermissionMode \<Rightarrow> bool" where
  "auto_allows Allow r = True"
| "auto_allows Prompt r = (r = ReadOnly)"
| "auto_allows ReadOnly r = (r = ReadOnly)"
| "auto_allows DangerFullAccess r = (r = ReadOnly \<or> r = WorkspaceWrite \<or> r = DangerFullAccess)"
| "auto_allows WorkspaceWrite r = (r = ReadOnly \<or> r = WorkspaceWrite)"

definition encompasses :: "PermissionMode \<Rightarrow> PermissionMode \<Rightarrow> bool" where
  "encompasses m r = auto_allows m r"

record PermissionRequest =
  request_tool :: rstr
  request_input :: rstr
  current_mode :: PermissionMode
  required_mode :: PermissionMode

datatype PermissionPromptDecision = PromptAllow | PromptDeny rstr

datatype PermissionOutcome = OutcomeAllow | OutcomeDeny rstr

record PermissionPolicy =
  active_mode :: PermissionMode
  tool_requirements :: "(rstr \<times> PermissionMode) list"

definition PermissionPolicy_new :: "PermissionMode \<Rightarrow> PermissionPolicy" where
  "PermissionPolicy_new m = \<lparr>active_mode = m, tool_requirements = []\<rparr>"

definition with_tool_requirement ::
  "PermissionPolicy \<Rightarrow> rstr \<Rightarrow> PermissionMode \<Rightarrow> PermissionPolicy" where
  "with_tool_requirement p tool r =
     p\<lparr>tool_requirements := bt_insert tool r (tool_requirements p)\<rparr>"

definition required_mode_for :: "PermissionPolicy \<Rightarrow> rstr \<Rightarrow> PermissionMode" where
  "required_mode_for p tool =
     (case bt_get (tool_requirements p) tool of None \<Rightarrow> DangerFullAccess | Some r \<Rightarrow> r)"

type_synonym 'p prompter = "PermissionRequest \<Rightarrow> 'p \<Rightarrow> PermissionPromptDecision \<times> 'p"

definition authorize ::
  "PermissionPolicy \<Rightarrow> rstr \<Rightarrow> rstr \<Rightarrow> 'p prompter option \<Rightarrow> 'p \<Rightarrow> PermissionOutcome \<times> 'p" where
  "authorize p tool inp prompter st =
     (let cur = active_mode p; req = required_mode_for p tool in
      if auto_allows cur req then (OutcomeAllow, st)
      else
        let request = \<lparr>request_tool = tool, request_input = inp, current_mode = cur,
                       required_mode = req\<rparr> in
        if cur = Prompt \<or> cur = WorkspaceWrite \<and> req = DangerFullAccess then
          (case prompter of
             Some decide \<Rightarrow>
               (case decide request st of
                  (PromptAllow, st') \<Rightarrow> (OutcomeAllow, st')
                | (PromptDeny reason, st') \<Rightarrow> (OutcomeDeny reason, st'))
           | None \<Rightarrow>
               (OutcomeDeny (lit ''tool '' @ [39] @ tool @ [39]
                  @ lit '' requires approval to escalate from '' @ mode_as_str cur
                  @ lit '' to '' @ mode_as_str req), st))
        else
          (OutcomeDeny (lit ''tool '' @ [39] @ tool @ [39] @ lit '' requires '' @ mode_as_str req
             @ lit '' permission; current mode is '' @ mode_as_str cur), st))"

section \<open>Lemmas\<close>

lemma required_mode_for_new [simp]: "required_mode_for (PermissionPolicy_new m) tool = DangerFullAccess"
  by (simp add: required_mode_for_def PermissionPolicy_new_def)

lemma required_mode_for_with [simp]:
  "required_mode_for (with_tool_requirement p t r) tool =
     (if tool = t then r else required_mode_for p tool)"
  by (simp add: required_mode_for_def with_tool_requirement_def bt_get_insert)

lemma active_mode_with [simp]: "active_mode (with_tool_requirement p t r) = active_mode p"
  by (simp add: with_tool_requirement_def)

text \<open>The prompter is consulted in exactly two situations.\<close>

definition may_escalate :: "PermissionMode \<Rightarrow> PermissionMode \<Rightarrow> bool" where
  "may_escalate cur req \<longleftrightarrow>
     \<not> auto_allows cur req \<and> (cur = Prompt \<or> cur = WorkspaceWrite \<and> req = DangerFullAccess)"

lemma authorize_cases:
  "authorize p tool inp prompter st =
     (if auto_allows (active_mode p) (required_mode_for p tool) then (OutcomeAllow, st)
      else case (if may_escalate (active_mode p) (required_mode_for p tool) then prompter else None) of
        Some decide \<Rightarrow>
          (case decide \<lparr>request_tool = tool, request_input = inp, current_mode = active_mode p,
                        required_mode = required_mode_for p tool\<rparr> st of
             (PromptAllow, st') \<Rightarrow> (OutcomeAllow, st')
           | (PromptDeny reason, st') \<Rightarrow> (OutcomeDeny reason, st'))
      | None \<Rightarrow> (fst (authorize p tool inp None st), st))"
  by (auto simp: authorize_def Let_def may_escalate_def split: option.splits)

lemma authorize_no_prompter [simp]:
  "authorize p tool inp None st = (OutcomeAllow, st') \<longleftrightarrow>
     auto_allows (active_mode p) (required_mode_for p tool) \<and> st' = st"
  by (auto simp: authorize_def Let_def)

lemma authorize_None_iff:
  "fst (authorize p tool inp None st) = OutcomeAllow \<longleftrightarrow>
     auto_allows (active_mode p) (required_mode_for p tool)"
  by (simp add: authorize_def Let_def)

section \<open>What a mode grants\<close>

text \<open>
  The access a tool may need is a rung of a ladder, and so is the access a mode grants: a mode covers every need up
  to its rung. \<open>Prompt\<close> grants what \<open>ReadOnly\<close> does, \<open>Allow\<close> covers whatever is asked; a tool that is registered
  with one of these two as its need is covered by \<open>Allow\<close> alone.
\<close>

fun needed_rung :: "PermissionMode \<Rightarrow> nat option" where
  "needed_rung ReadOnly = Some 0"
| "needed_rung WorkspaceWrite = Some 1"
| "needed_rung DangerFullAccess = Some 2"
| "needed_rung _ = None"

fun granted_rung :: "PermissionMode \<Rightarrow> nat" where
  "granted_rung WorkspaceWrite = 1"
| "granted_rung DangerFullAccess = 2"
| "granted_rung _ = 0"

definition mode_covers :: "PermissionMode \<Rightarrow> PermissionMode \<Rightarrow> bool" where
  "mode_covers m need \<longleftrightarrow> m = Allow \<or> (\<exists>k. needed_rung need = Some k \<and> k \<le> granted_rung m)"

lemma auto_allows_covers: "auto_allows m need \<longleftrightarrow> mode_covers m need"
  by (cases m; cases need) (simp_all add: mode_covers_def)

text \<open>The need of a tool is what was registered for it last; a tool nobody registered needs full access.\<close>

definition registered_need :: "(rstr \<times> PermissionMode) list \<Rightarrow> rstr \<Rightarrow> PermissionMode" where
  "registered_need registered tool =
     (case filter (\<lambda>(t, r). t = tool) registered of [] \<Rightarrow> DangerFullAccess | ts \<Rightarrow> snd (last ts))"

definition policy_of :: "PermissionMode \<Rightarrow> (rstr \<times> PermissionMode) list \<Rightarrow> PermissionPolicy" where
  "policy_of m registered = foldl (\<lambda>p (t, r). with_tool_requirement p t r) (PermissionPolicy_new m) registered"

lemma active_mode_policy_of [simp]: "active_mode (policy_of m registered) = m"
  by (induction registered rule: rev_induct) (auto simp: policy_of_def PermissionPolicy_new_def)

lemma required_mode_policy_of [simp]: "required_mode_for (policy_of m registered) tool = registered_need registered tool"
  by (induction registered rule: rev_induct)
    (auto simp: policy_of_def registered_need_def split: list.splits if_splits)

text \<open>A person decides where the mode leaves the decision to one: everything \<open>Prompt\<close> does not cover, and the step
  from the workspace to full access.\<close>

definition asks_person :: "PermissionMode \<Rightarrow> PermissionMode \<Rightarrow> bool" where
  "asks_person m need \<longleftrightarrow> m = Prompt \<and> need \<noteq> ReadOnly \<or> m = WorkspaceWrite \<and> need = DangerFullAccess"

lemma may_escalate_asks: "may_escalate m need \<longleftrightarrow> asks_person m need"
  by (cases m; cases need) (simp_all add: may_escalate_def asks_person_def)

lemma authorize_allowed:
  assumes "authorize p tool inp prompter st = (OutcomeAllow, st')"
  shows "mode_covers (active_mode p) (required_mode_for p tool)
    \<or> asks_person (active_mode p) (required_mode_for p tool)
      \<and> (\<exists>decide. prompter = Some decide
           \<and> decide \<lparr>request_tool = tool, request_input = inp, current_mode = active_mode p,
                     required_mode = required_mode_for p tool\<rparr> st = (PromptAllow, st'))"
proof (cases "mode_covers (active_mode p) (required_mode_for p tool)")
  case False
  let ?r = "\<lparr>request_tool = tool, request_input = inp, current_mode = active_mode p,
      required_mode = required_mode_for p tool\<rparr>"
  have n: "fst (authorize p tool inp None st) \<noteq> OutcomeAllow"
    using False by (simp add: authorize_None_iff auto_allows_covers)
  note run = assms[unfolded authorize_cases[of p tool inp prompter st] auto_allows_covers may_escalate_asks if_not_P[OF False]]
  show ?thesis
  proof (cases "if asks_person (active_mode p) (required_mode_for p tool) then prompter else None")
    case None
    then show ?thesis using run n by simp
  next
    case (Some decide)
    then show ?thesis using run
      by (cases "decide ?r st"; cases "fst (decide ?r st)") (auto split: if_splits)
  qed
qed simp

text \<open>C22: under a policy built from a mode and any registrations, a call is let through exactly when the rung of
  the mode reaches that of the tool - what was registered for it last, full access if nothing was - or the mode
  leaves the decision to a person, there is a prompter and it says yes to this very request. The prompter is asked
  at most once, and never where the mode decides by itself: a read-only mode cannot be widened by any prompter.\<close>

theorem authorize_allows_iff:
  "(fst (authorize (policy_of m registered) tool inp prompter st) = OutcomeAllow \<longleftrightarrow>
      mode_covers m (registered_need registered tool)
      \<or> asks_person m (registered_need registered tool)
        \<and> (\<exists>decide. prompter = Some decide
            \<and> fst (decide \<lparr>request_tool = tool, request_input = inp, current_mode = m,
                          required_mode = registered_need registered tool\<rparr> st) = PromptAllow))
   \<and> snd (authorize (policy_of m registered) tool inp prompter st) =
      (case prompter of
         Some decide \<Rightarrow>
           if asks_person m (registered_need registered tool)
           then snd (decide \<lparr>request_tool = tool, request_input = inp, current_mode = m,
                            required_mode = registered_need registered tool\<rparr> st)
           else st
       | None \<Rightarrow> st)"
proof -
  let ?p = "policy_of m registered" and ?need = "registered_need registered tool"
  let ?r = "\<lparr>request_tool = tool, request_input = inp, current_mode = m, required_mode = ?need\<rparr>"
  have none: "fst (authorize ?p tool inp None st) = OutcomeAllow \<longleftrightarrow> mode_covers m ?need"
    by (simp add: authorize_None_iff auto_allows_covers)
  have asks: "mode_covers m ?need \<Longrightarrow> \<not> asks_person m ?need"
    by (cases m; cases ?need) (simp_all add: mode_covers_def asks_person_def)
  have run: "authorize ?p tool inp prompter st =
      (if mode_covers m ?need then (OutcomeAllow, st)
       else case (if asks_person m ?need then prompter else None) of
         Some decide \<Rightarrow>
           (case decide ?r st of
              (PromptAllow, st') \<Rightarrow> (OutcomeAllow, st')
            | (PromptDeny reason, st') \<Rightarrow> (OutcomeDeny reason, st'))
       | None \<Rightarrow> (fst (authorize ?p tool inp None st), st))"
    unfolding authorize_cases[of ?p tool inp prompter st] auto_allows_covers may_escalate_asks
      active_mode_policy_of required_mode_policy_of by (rule refl)
  show ?thesis
  proof (cases "mode_covers m ?need \<or> \<not> asks_person m ?need \<or> prompter = None")
    case True
    then show ?thesis using none asks by (auto simp: run split: option.split)
  next
    case False
    then obtain decide where d: "prompter = Some decide" by auto
    show ?thesis using False d
      by (cases "decide ?r st"; cases "fst (decide ?r st)") (simp_all add: run[unfolded d])
  qed
qed

text \<open>a prompter that is not entitled to decide is never called: its state is unchanged
  whenever the mode already allows the call or the escalation is not one a prompt can grant.\<close>

theorem authorize_no_needless_prompt:
  assumes "\<not> may_escalate (active_mode p) (required_mode_for p tool)"
  shows "snd (authorize p tool inp prompter st) = st"
  using assms by (auto simp: authorize_def Let_def may_escalate_def)

theorem authorize_no_needless_prompt_witness:
  "snd (authorize (PermissionPolicy_new ReadOnly) (lit ''bash'') []
     (Some (\<lambda>r n. (PromptAllow, n + 1))) (0::nat)) = 0"
  by (rule authorize_no_needless_prompt) (simp add: may_escalate_def PermissionPolicy_new_def)

end
