(* ===== verification/Bash_Validation.thy ===== *)
theory Bash_Validation
  imports Permissions
begin

text \<open>
  The shell-command filter of \<open>runtime/src/bash_validation.rs\<close>. The separator expression
  \<open>||\<close>, \<open>&&\<close>, \<open>;\<close>, \<open>|\<close> (tried in this order at every position) is the scanner
  \<open>split_segments\<close>; everything else is the code's own string processing.
\<close>

record BashCommandDenial =
  denial_required_mode :: PermissionMode
  denial_reason :: rstr

datatype BashCommandValidation = BashAllow | BashDeny BashCommandDenial

definition READ_ONLY_COMMANDS :: "rstr list" where
  "READ_ONLY_COMMANDS = map lit
     [''awk'', ''basename'', ''b3sum'', ''cal'', ''cat'', ''cut'', ''date'', ''df'', ''diff'',
      ''dirname'', ''du'', ''echo'', ''env'', ''false'', ''file'', ''find'', ''free'', ''grep'',
      ''head'', ''hexdump'', ''jq'', ''less'', ''ls'', ''md5sum'', ''more'', ''od'', ''paste'',
      ''printenv'', ''printf'', ''pwd'', ''readlink'', ''realpath'', ''rg'', ''sed'', ''sha256sum'',
      ''sort'', ''stat'', ''strings'', ''tail'', ''test'', ''tree'', ''tr'', ''true'', ''type'',
      ''uname'', ''uniq'', ''uptime'', ''wc'', ''where'', ''which'', ''whoami'', ''xxd'', ''yq'']"

definition READ_ONLY_GIT_SUBCOMMANDS :: "rstr list" where
  "READ_ONLY_GIT_SUBCOMMANDS = map lit
     [''blame'', ''cat-file'', ''describe'', ''diff'', ''log'', ''ls-files'', ''ls-tree'',
      ''reflog'', ''rev-parse'', ''shortlog'', ''show'', ''status'']"

definition WRITE_COMMANDS :: "rstr list" where
  "WRITE_COMMANDS = map lit
     [''cp'', ''dd'', ''install'', ''ln'', ''mkdir'', ''mkfifo'', ''mknod'', ''mv'', ''rm'',
      ''rmdir'', ''shred'', ''tee'', ''touch'', ''truncate'']"

definition STATE_CHANGING_COMMANDS :: "rstr list" where
  "STATE_CHANGING_COMMANDS = map lit
     [''apt'', ''apt-get'', ''brew'', ''bun'', ''cargo'', ''chgrp'', ''chmod'', ''choco'',
      ''chown'', ''crontab'', ''dnf'', ''docker'', ''gem'', ''go'', ''groupadd'', ''groupdel'',
      ''halt'', ''kill'', ''killall'', ''launchctl'', ''mount'', ''netsh'', ''npm'', ''pacman'',
      ''pip'', ''pip3'', ''pkill'', ''pnpm'', ''poweroff'', ''reboot'', ''reg'', ''rustup'',
      ''sc'', ''service'', ''shutdown'', ''scoop'', ''systemctl'', ''takeown'', ''umount'',
      ''useradd'', ''userdel'', ''usermod'', ''winget'', ''yarn'', ''yum'']"

definition WORKSPACE_WRITE_MACHINE_COMMANDS :: "rstr list" where
  "WORKSPACE_WRITE_MACHINE_COMMANDS = map lit
     [''apt'', ''apt-get'', ''brew'', ''chgrp'', ''choco'', ''chown'', ''crontab'', ''diskutil'',
      ''dnf'', ''fdisk'', ''format'', ''groupadd'', ''groupdel'', ''halt'', ''icacls'',
      ''launchctl'', ''mkfs'', ''mount'', ''netsh'', ''pacman'', ''parted'', ''poweroff'',
      ''reboot'', ''reg'', ''sc'', ''service'', ''shutdown'', ''scoop'', ''systemctl'',
      ''takeown'', ''umount'', ''useradd'', ''userdel'', ''usermod'', ''winget'', ''wipefs'',
      ''yum'']"

section \<open>Segments and tokens\<close>

fun split_segments :: "rstr \<Rightarrow> rstr \<Rightarrow> rstr list" where
  "split_segments acc [] = [acc]"
| "split_segments acc (c # cs) =
     (if (c = 124 \<or> c = 38) \<and> cs \<noteq> [] \<and> hd cs = c then acc # split_segments [] (tl cs)
      else if c = 59 \<or> c = 124 then acc # split_segments [] cs
      else split_segments (acc @ [c]) cs)"

definition command_segments :: "rstr \<Rightarrow> rstr list" where
  "command_segments command =
     filter (\<lambda>s. s \<noteq> []) (map trim (split_segments [] command))"

definition is_token_punctuation :: "rchar \<Rightarrow> bool" where
  "is_token_punctuation c \<longleftrightarrow> c \<in> {34, 39, 40, 41, 123, 125}"

definition normalize_token :: "rstr \<Rightarrow> rstr" where
  "normalize_token t = to_ascii_lowercase (trim_by is_token_punctuation t)"

definition normalized_tokens :: "rstr \<Rightarrow> rstr list" where
  "normalized_tokens segment =
     filter (\<lambda>t. t \<noteq> []) (map normalize_token (split_whitespace segment))"

text \<open>\<open>rsplit(['/', '\']).next()\<close>: what follows the last slash or backslash.\<close>

definition command_name :: "rstr \<Rightarrow> rstr" where
  "command_name t = after_last (\<lambda>c. c = 47 \<or> c = 92) t"

definition is_flag :: "rstr \<Rightarrow> bool" where
  "is_flag t \<longleftrightarrow> starts_with (lit ''-'') t"

definition effective_tokens :: "rstr list \<Rightarrow> rstr list" where
  "effective_tokens tokens =
     (if tokens = [] \<or> command_name (hd tokens) \<noteq> lit ''sudo'' then tokens
      else dropWhile is_flag (tl tokens))"

fun git_subcommand_loop :: "rstr list \<Rightarrow> rstr option" where
  "git_subcommand_loop [] = None"
| "git_subcommand_loop (t # ts) =
     (if t = lit ''--'' then (if ts = [] then None else Some (hd ts))
      else if t = lit ''-c'' \<or> t = lit ''-C'' \<or> t = lit ''--git-dir'' \<or> t = lit ''--work-tree''
      then git_subcommand_loop (tl ts)
      else if is_flag t then git_subcommand_loop ts
      else Some t)"

definition git_subcommand :: "rstr list \<Rightarrow> rstr option" where
  "git_subcommand tokens = git_subcommand_loop (tl tokens)"

definition has_in_place_flag :: "rstr list \<Rightarrow> bool" where
  "has_in_place_flag tokens =
     list_ex (\<lambda>t. t = lit ''-i'' \<or> starts_with (lit ''-i'') t \<or> t = lit ''--in-place''
                 \<or> starts_with (lit ''--in-place='') t) (tl tokens)"

fun redirection_scan :: "bool \<Rightarrow> bool \<Rightarrow> rstr \<Rightarrow> bool" where
  "redirection_scan sq dq [] = False"
| "redirection_scan sq dq (c # cs) =
     (if c = 39 \<and> \<not> dq then redirection_scan (\<not> sq) dq cs
      else if c = 34 \<and> \<not> sq then redirection_scan sq (\<not> dq) cs
      else if c = 62 \<and> \<not> sq \<and> \<not> dq then True
      else redirection_scan sq dq cs)"

definition has_write_redirection :: "rstr \<Rightarrow> bool" where
  "has_write_redirection command = redirection_scan False False command"

section \<open>Read-only mode\<close>

definition bash_deny :: "PermissionMode \<Rightarrow> rstr \<Rightarrow> BashCommandValidation" where
  "bash_deny m reason = BashDeny \<lparr>denial_required_mode = m, denial_reason = reason\<rparr>"

definition quoted :: "rstr \<Rightarrow> rstr" where
  "quoted s = [39] @ s @ [39]"

fun read_only_loop :: "rstr list \<Rightarrow> BashCommandValidation" where
  "read_only_loop [] = BashAllow"
| "read_only_loop (segment # segments) =
     (let tokens = normalized_tokens segment in
      if tokens = [] then read_only_loop segments
      else if command_name (hd tokens) = lit ''sudo'' then
        bash_deny WorkspaceWrite
          (lit ''read-only mode blocks privileged shell command '' @ quoted (lit ''sudo''))
      else
        let eff = effective_tokens tokens in
        if eff = [] then read_only_loop segments
        else
          let first = command_name (hd eff) in
          if first = lit ''sed'' \<and> has_in_place_flag eff then
            bash_deny WorkspaceWrite
              (lit ''read-only mode blocks in-place editing via '' @ quoted (lit ''sed -i''))
          else if first = lit ''git'' then
            (case git_subcommand eff of
               Some sub \<Rightarrow>
                 if sub \<notin> set READ_ONLY_GIT_SUBCOMMANDS then
                   bash_deny WorkspaceWrite
                     (lit ''read-only mode blocks git subcommand '' @ quoted sub
                      @ lit '' because it mutates repository state'')
                 else read_only_loop segments
             | None \<Rightarrow> read_only_loop segments)
          else if first \<in> set READ_ONLY_COMMANDS then read_only_loop segments
          else if first \<in> set WRITE_COMMANDS then
            bash_deny WorkspaceWrite
              (lit ''read-only mode blocks shell write command '' @ quoted first)
          else if first \<in> set STATE_CHANGING_COMMANDS then
            bash_deny WorkspaceWrite
              (lit ''read-only mode blocks state-changing shell command '' @ quoted first)
          else
            bash_deny WorkspaceWrite
              (lit ''read-only mode only allows known read-only shell commands; '' @ quoted first
               @ lit '' is not classified as read-only''))"

definition validate_read_only :: "rstr \<Rightarrow> BashCommandValidation" where
  "validate_read_only command =
     (if has_write_redirection command then
        bash_deny WorkspaceWrite (lit ''read-only mode blocks shell write redirection'')
      else read_only_loop (command_segments command))"

section \<open>Workspace-write mode\<close>

definition recursive_rm_reason :: "rstr list \<Rightarrow> rstr option" where
  "recursive_rm_reason tokens =
     (if tokens = [] \<or> command_name (hd tokens) \<noteq> lit ''rm'' then None
      else
        let recursive = list_ex (\<lambda>t. is_flag t \<and> contains (lit ''r'') t) (tl tokens);
            force = list_ex (\<lambda>t. is_flag t \<and> contains (lit ''f'') t) (tl tokens) in
        if \<not> recursive \<or> \<not> force then None
        else
          let targets = filter (\<lambda>t. \<not> is_flag t) (tl tokens) in
          if list_ex (\<lambda>t. t = lit ''/'' \<or> t = lit ''/*'') targets
          then Some (lit ''root recursive deletion'')
          else if list_ex (\<lambda>t. t = lit ''~'' \<or> t = lit ''~/'' \<or> t = lit ''~/*'') targets
          then Some (lit ''home-directory recursive deletion'')
          else if list_ex (\<lambda>t. t = lit ''.'' \<or> t = lit ''./'' \<or> t = lit ''*'' \<or> t = lit ''./*'') targets
          then Some (lit ''current-directory recursive deletion'')
          else None)"

fun destructive_segments :: "rstr list \<Rightarrow> rstr option" where
  "destructive_segments [] = None"
| "destructive_segments (s # ss) =
     (case recursive_rm_reason (effective_tokens (normalized_tokens s)) of
        Some r \<Rightarrow> Some r
      | None \<Rightarrow> destructive_segments ss)"

definition destructive_reason :: "rstr \<Rightarrow> rstr option" where
  "destructive_reason command =
     (case destructive_segments (command_segments command) of
        Some r \<Rightarrow> Some r
      | None \<Rightarrow>
          let lowered = to_ascii_lowercase command in
          if contains (lit '':(){ :|:& };:'') lowered then Some (lit ''fork bomb'')
          else if contains (lit ''chmod -r 777'') lowered \<or> contains (lit ''chmod -r 000'') lowered
          then Some (lit ''destructive recursive permission reset'')
          else None)"

definition raw_device_write_detected :: "rstr \<Rightarrow> bool" where
  "raw_device_write_detected command =
     (let lowered = to_ascii_lowercase command in
      contains (lit ''of=/dev/'') lowered \<or> contains (lit ''>/dev/'') lowered
      \<or> contains (lit ''> /dev/'') lowered
      \<or> contains ([92, 92, 46, 92] @ lit ''physicaldrive'') lowered)"

fun workspace_write_loop :: "rstr list \<Rightarrow> BashCommandValidation" where
  "workspace_write_loop [] = BashAllow"
| "workspace_write_loop (segment # segments) =
     (let tokens = normalized_tokens segment in
      if tokens = [] then workspace_write_loop segments
      else if command_name (hd tokens) = lit ''sudo'' then
        bash_deny DangerFullAccess
          (lit ''workspace-write mode blocks privileged shell command '' @ quoted (lit ''sudo'')
           @ lit ''; use danger-full-access'')
      else
        let eff = effective_tokens tokens in
        if eff = [] then workspace_write_loop segments
        else
          let first = command_name (hd eff) in
          if first \<in> set WORKSPACE_WRITE_MACHINE_COMMANDS then
            bash_deny DangerFullAccess
              (lit ''workspace-write mode blocks system administration command '' @ quoted first
               @ lit ''; use danger-full-access'')
          else workspace_write_loop segments)"

definition validate_workspace_write :: "rstr \<Rightarrow> BashCommandValidation" where
  "validate_workspace_write command =
     (case destructive_reason command of
        Some reason \<Rightarrow>
          bash_deny DangerFullAccess
            (lit ''workspace-write mode blocks destructive shell pattern ('' @ reason
             @ lit ''); use danger-full-access'')
      | None \<Rightarrow>
          if raw_device_write_detected command then
            bash_deny DangerFullAccess
              (lit ''workspace-write mode blocks raw device writes; use danger-full-access'')
          else workspace_write_loop (command_segments command))"

definition validate_bash_command :: "rstr \<Rightarrow> PermissionMode \<Rightarrow> BashCommandValidation" where
  "validate_bash_command command mode =
     (if trim command = [] then
        bash_deny mode (lit ''shell command is empty or whitespace-only'')
      else
        case mode of
          ReadOnly \<Rightarrow> validate_read_only command
        | WorkspaceWrite \<Rightarrow> validate_workspace_write command
        | Prompt \<Rightarrow>
            bash_deny DangerFullAccess (lit ''bash requires confirmation in prompt mode'')
        | DangerFullAccess \<Rightarrow> BashAllow
        | Allow \<Rightarrow> BashAllow)"

section \<open>What the modes allow\<close>

text \<open>The declarative reading of the two loops, segment by segment.\<close>

definition read_only_segment :: "rstr \<Rightarrow> bool" where
  "read_only_segment segment =
     (let tokens = normalized_tokens segment in
      tokens = [] \<or>
      (let first = command_name (hd tokens) in
       if first = lit ''git'' then
         (case git_subcommand tokens of None \<Rightarrow> True | Some sub \<Rightarrow> sub \<in> set READ_ONLY_GIT_SUBCOMMANDS)
       else first \<in> set READ_ONLY_COMMANDS \<and> \<not> (first = lit ''sed'' \<and> has_in_place_flag tokens)))"

definition workspace_segment :: "rstr \<Rightarrow> bool" where
  "workspace_segment segment =
     (let tokens = normalized_tokens segment in
      tokens = [] \<or>
      command_name (hd tokens) \<noteq> lit ''sudo''
      \<and> command_name (hd tokens) \<notin> set WORKSPACE_WRITE_MACHINE_COMMANDS)"

lemma bash_deny_not_allow [simp]: "bash_deny m r \<noteq> BashAllow"
  by (simp add: bash_deny_def)

lemma effective_not_sudo:
  "ts \<noteq> [] \<Longrightarrow> command_name (hd ts) \<noteq> lit ''sudo'' \<Longrightarrow> effective_tokens ts = ts"
  by (simp add: effective_tokens_def)

lemma sudo_not_read_only: "lit ''sudo'' \<notin> set READ_ONLY_COMMANDS"
  by (simp add: READ_ONLY_COMMANDS_def)

lemma git_not_read_only: "lit ''git'' \<notin> set READ_ONLY_COMMANDS"
  by (simp add: READ_ONLY_COMMANDS_def)

lemma read_only_loop_iff:
  "read_only_loop segments = BashAllow \<longleftrightarrow> list_all read_only_segment segments"
proof (induction segments)
  case Nil
  then show ?case by simp
next
  case (Cons s ss)
  let ?ts = "normalized_tokens s"
  consider "?ts = []" | "?ts \<noteq> []" "command_name (hd ?ts) = lit ''sudo''"
    | "?ts \<noteq> []" "command_name (hd ?ts) \<noteq> lit ''sudo''" by blast
  then show ?case
  proof cases
    case 1
    then show ?thesis using Cons.IH by (simp add: Let_def read_only_segment_def)
  next
    case 2
    then show ?thesis using sudo_not_read_only by (simp add: Let_def read_only_segment_def)
  next
    case 3
    then show ?thesis using Cons.IH git_not_read_only
      by (auto simp: Let_def read_only_segment_def effective_not_sudo split: option.splits)
  qed
qed

lemma workspace_write_loop_iff:
  "workspace_write_loop segments = BashAllow \<longleftrightarrow> list_all workspace_segment segments"
proof (induction segments)
  case Nil
  then show ?case by simp
next
  case (Cons s ss)
  let ?ts = "normalized_tokens s"
  consider "?ts = []" | "?ts \<noteq> []" "command_name (hd ?ts) = lit ''sudo''"
    | "?ts \<noteq> []" "command_name (hd ?ts) \<noteq> lit ''sudo''" by blast
  then show ?case
    by cases (use Cons.IH in \<open>simp_all add: Let_def workspace_segment_def effective_not_sudo\<close>)
qed

lemma validate_read_only_iff:
  "validate_bash_command c ReadOnly = BashAllow \<longleftrightarrow>
     trim c \<noteq> [] \<and> \<not> has_write_redirection c \<and> list_all read_only_segment (command_segments c)"
  by (simp add: validate_bash_command_def validate_read_only_def read_only_loop_iff)

lemma validate_workspace_write_iff:
  "validate_bash_command c WorkspaceWrite = BashAllow \<longleftrightarrow>
     trim c \<noteq> [] \<and> destructive_reason c = None \<and> \<not> raw_device_write_detected c
     \<and> list_all workspace_segment (command_segments c)"
  by (simp add: validate_bash_command_def validate_workspace_write_def workspace_write_loop_iff
      split: option.splits)

lemma split_segments_chars:
  "59 \<notin> set acc \<Longrightarrow> 124 \<notin> set acc \<Longrightarrow>
     list_all (\<lambda>s. 59 \<notin> set s \<and> 124 \<notin> set s) (split_segments acc cs)"
proof (induction acc cs rule: split_segments.induct)
  case (1 acc)
  then show ?case by simp
next
  case (2 acc c cs)
  show ?case
  proof (cases "(c = 124 \<or> c = 38) \<and> cs \<noteq> [] \<and> hd cs = c")
    case True
    with 2 show ?thesis by simp
  next
    case False
    show ?thesis
    proof (cases "c = 59 \<or> c = 124")
      case True
      with False 2 show ?thesis by auto
    next
      case F2: False
      have "list_all (\<lambda>s. 59 \<notin> set s \<and> 124 \<notin> set s) (split_segments (acc @ [c]) cs)"
        using 2(3)[OF False F2] 2(4,5) F2 by simp
      then show ?thesis
        by (subst split_segments.simps(2)) (simp only: if_not_P[OF False] if_not_P[OF F2])
    qed
  qed
qed

lemma split_segments_set: "s \<in> set (split_segments acc cs) \<Longrightarrow> set s \<subseteq> set acc \<union> set cs"
proof (induction acc cs rule: split_segments.induct)
  case (1 acc)
  then show ?case by simp
next
  case (2 acc c cs)
  have tl: "set (tl cs) \<subseteq> set cs" by (cases cs) auto
  show ?case
  proof (cases "(c = 124 \<or> c = 38) \<and> cs \<noteq> [] \<and> hd cs = c")
    case True
    with 2(4) have "s = acc \<or> s \<in> set (split_segments [] (tl cs))" by simp
    with 2(1)[OF True] tl show ?thesis by auto
  next
    case F1: False
    show ?thesis
    proof (cases "c = 59 \<or> c = 124")
      case True
      have "split_segments acc (c # cs) = acc # split_segments [] cs"
        by (subst split_segments.simps(2)) (simp only: if_not_P[OF F1] if_P[OF True])
      with 2(4) have "s = acc \<or> s \<in> set (split_segments [] cs)" by simp
      with 2(2)[OF F1 True] show ?thesis by auto
    next
      case False
      have "split_segments acc (c # cs) = split_segments (acc @ [c]) cs"
        by (subst split_segments.simps(2)) (simp only: if_not_P[OF F1] if_not_P[OF False])
      with 2(3)[OF F1 False] 2(4) show ?thesis by simp
    qed
  qed
qed

lemma segment_not_blank:
  assumes "s \<in> set (command_segments c)"
  shows "trim c \<noteq> []"
proof -
  obtain r where r: "r \<in> set (split_segments [] c)" "s = trim r" "s \<noteq> []"
    using assms by (auto simp: command_segments_def)
  then obtain x where "x \<in> set r" "\<not> is_ws x" by (auto simp: trim_Nil_iff)
  with split_segments_set[OF r(1)] show ?thesis by (auto simp: trim_Nil_iff)
qed

lemma command_segments_chars:
  "list_all (\<lambda>s. 59 \<notin> set s \<and> 124 \<notin> set s \<and> s \<noteq> []) (command_segments c)"
proof -
  have l: "list_all (\<lambda>s. 59 \<notin> set s \<and> 124 \<notin> set s) (split_segments [] c)"
    by (rule split_segments_chars) simp_all
  show ?thesis
    unfolding list_all_iff
  proof
    fix s assume "s \<in> set (command_segments c)"
    then obtain r where r: "r \<in> set (split_segments [] c)" "s = trim r" "s \<noteq> []"
      by (auto simp: command_segments_def)
    have "set s \<subseteq> set r" using set_trim_by[of is_ws r] by (simp add: r(2) trim_def)
    with l r show "59 \<notin> set s \<and> 124 \<notin> set s \<and> s \<noteq> []" unfolding list_all_iff by blast
  qed
qed

text \<open>read-only mode lets a shell command through exactly when it is not blank, has no \<open>>\<close>
  outside quotes, and every one of its segments - none of which contains \<open>;\<close> or \<open>|\<close> any more -
  is empty after normalisation or runs a command of the read-only list (no \<open>sed\<close> with an in-place
  flag) or a \<open>git\<close> call whose subcommand, if it has one, is read-only. The refusal texts and the
  order of the checks make no difference to the decision.\<close>

theorem read_only_by_segments:
  "(validate_bash_command c ReadOnly = BashAllow \<longleftrightarrow>
     trim c \<noteq> [] \<and> \<not> has_write_redirection c \<and> list_all read_only_segment (command_segments c))
   \<and> list_all (\<lambda>s. 59 \<notin> set s \<and> 124 \<notin> set s) (command_segments c)"
  using command_segments_chars[of c] by (simp add: validate_read_only_iff list_all_iff)

text \<open>workspace-write mode lets a command through exactly when it is not blank, no segment is
  a recursive forced deletion of the root, home or current directory, it has no fork bomb, no
  recursive permission reset, no raw device write, and no segment starts with \<open>sudo\<close> or a system
  administration command.\<close>

theorem workspace_write_allows_iff:
  "validate_bash_command c WorkspaceWrite = BashAllow \<longleftrightarrow>
     trim c \<noteq> []
     \<and> list_all (\<lambda>s. recursive_rm_reason (effective_tokens (normalized_tokens s)) = None
                    \<and> workspace_segment s) (command_segments c)
     \<and> \<not> contains (lit '':(){ :|:& };:'') (to_ascii_lowercase c)
     \<and> \<not> contains (lit ''chmod -r 777'') (to_ascii_lowercase c)
     \<and> \<not> contains (lit ''chmod -r 000'') (to_ascii_lowercase c)
     \<and> \<not> raw_device_write_detected c"
proof -
  have "destructive_segments ss = None \<longleftrightarrow>
      list_all (\<lambda>s. recursive_rm_reason (effective_tokens (normalized_tokens s)) = None) ss" for ss
    by (induction ss) (auto split: option.splits)
  note ds = this[of "command_segments c"]
  then have "destructive_reason c = None \<longleftrightarrow>
      list_all (\<lambda>s. recursive_rm_reason (effective_tokens (normalized_tokens s)) = None) (command_segments c)
      \<and> \<not> contains (lit '':(){ :|:& };:'') (to_ascii_lowercase c)
      \<and> \<not> contains (lit ''chmod -r 777'') (to_ascii_lowercase c)
      \<and> \<not> contains (lit ''chmod -r 000'') (to_ascii_lowercase c)"
    unfolding ds[symmetric]
    by (cases "destructive_segments (command_segments c)") (auto simp: destructive_reason_def Let_def)
  then show ?thesis
    unfolding validate_workspace_write_iff by (auto simp: list_all_iff)
qed

text \<open>The targets whose recursive deletion is refused.\<close>

definition protected_targets :: "rstr list" where
  "protected_targets = map lit [''/'', ''/*'', ''~'', ''~/'', ''~/*'', ''.'', ''./'', ''*'', ''./*'']"

lemma protected_not_flag: "t \<in> set protected_targets \<Longrightarrow> \<not> is_flag t"
  by (auto simp: protected_targets_def is_flag_def starts_with_def lit_def)

lemma recursive_rm_detected:
  assumes "command_name (hd ts) = lit ''rm''" "ts \<noteq> []"
    and "list_ex (\<lambda>t. is_flag t \<and> contains (lit ''r'') t) (tl ts)"
    and "list_ex (\<lambda>t. is_flag t \<and> contains (lit ''f'') t) (tl ts)"
    and "t \<in> set (tl ts)" "t \<in> set protected_targets"
  shows "recursive_rm_reason ts \<noteq> None"
proof -
  have "t \<in> set (filter (\<lambda>t. \<not> is_flag t) (tl ts))"
    using assms(5) protected_not_flag[OF assms(6)] by simp
  then show ?thesis
    using assms by (auto simp: recursive_rm_reason_def Let_def protected_targets_def list_ex_iff)
qed

lemma destructive_segments_found:
  "s \<in> set ss \<Longrightarrow> recursive_rm_reason (effective_tokens (normalized_tokens s)) \<noteq> None \<Longrightarrow>
     destructive_segments ss \<noteq> None"
  by (induction ss) (auto split: option.splits)

text \<open>a recursive forced deletion of the root, the home or the current directory is refused in
  workspace-write mode wherever it stands in the command line, with or without \<open>sudo\<close>, whatever
  its path, its case, its quotes and the arrangement of its flags, and the refusal asks for full
  access.\<close>

theorem destructive_rm_denied:
  assumes "s \<in> set (command_segments c)"
    and "effective_tokens (normalized_tokens s) = cmd # args"
    and "command_name cmd = lit ''rm''"
    and "list_ex (\<lambda>t. is_flag t \<and> contains (lit ''r'') t) args"
    and "list_ex (\<lambda>t. is_flag t \<and> contains (lit ''f'') t) args"
    and "t \<in> set args" "t \<in> set protected_targets"
  shows "\<exists>d. validate_bash_command c WorkspaceWrite = BashDeny d
      \<and> denial_required_mode d = DangerFullAccess"
proof -
  have "recursive_rm_reason (effective_tokens (normalized_tokens s)) \<noteq> None"
    using assms by (intro recursive_rm_detected[of _ t]) simp_all
  then have "destructive_reason c \<noteq> None"
    using destructive_segments_found[OF assms(1)] by (auto simp: destructive_reason_def)
  then show ?thesis using segment_not_blank[OF assms(1)]
    by (auto simp: validate_bash_command_def validate_workspace_write_def bash_deny_def)
qed

text \<open>What evaluates the filter on a concrete command.\<close>

lemmas bash_eval = lit_def command_segments_def normalized_tokens_def split_whitespace_def
  normalize_token_def to_ascii_lowercase_def ascii_lower_char_def trim_def trim_by_def
  trim_start_by_def trim_end_by_def is_token_punctuation_def is_ws_def effective_tokens_def
  command_name_def after_last_def is_flag_def starts_with_def has_write_redirection_def
  git_subcommand_def has_in_place_flag_def read_only_segment_def READ_ONLY_COMMANDS_def
  validate_read_only_iff contains_def protected_targets_def

theorem destructive_rm_denied_witness:
  "\<exists>d. validate_bash_command (lit ''ls; sudo rm -fr ~'') WorkspaceWrite = BashDeny d
      \<and> denial_required_mode d = DangerFullAccess"
proof (rule destructive_rm_denied)
  show "lit ''sudo rm -fr ~'' \<in> set (command_segments (lit ''ls; sudo rm -fr ~''))"
    by (simp add: bash_eval)
  show "effective_tokens (normalized_tokens (lit ''sudo rm -fr ~'')) =
      lit ''rm'' # [lit ''-fr'', lit ''~'']"
    by (simp add: bash_eval)
  show "lit ''~'' \<in> set [lit ''-fr'', lit ''~'']" by simp
qed (simp_all add: bash_eval)

lemma bypass_newline: "validate_bash_command (lit ''ls'' @ [10] @ lit ''rm x'') ReadOnly = BashAllow"
  by (simp add: bash_eval)

lemma bypass_background: "validate_bash_command (lit ''ls & rm x'') ReadOnly = BashAllow"
  by (simp add: bash_eval)

lemma bypass_substitution: "validate_bash_command (lit ''cat $(rm x)'') ReadOnly = BashAllow"
  by (simp add: bash_eval)

lemma bypass_wrapper: "validate_bash_command (lit ''env rm x'') ReadOnly = BashAllow"
  by (simp add: bash_eval)

lemma bypass_sed: "validate_bash_command (lit ''sed -ni p x'') ReadOnly = BashAllow"
  by (simp add: bash_eval)

lemma bypass_quote:
  "validate_bash_command (lit ''echo '' @ [92, 34] @ lit '' > x'') ReadOnly = BashAllow"
  by (simp add: bash_eval)

text \<open>the read-only filter does not see a command that is hidden behind a line feed, a single
  \<open>&\<close>, a command substitution, a wrapper on its own read-only list, a bundled \<open>sed\<close> flag or an
  escaped quote: each of these shell commands deletes or overwrites a file, and each is
  allowed.\<close>

theorem read_only_filter_bypassed:
  "validate_bash_command (lit ''ls'' @ [10] @ lit ''rm x'') ReadOnly = BashAllow
   \<and> validate_bash_command (lit ''ls & rm x'') ReadOnly = BashAllow
   \<and> validate_bash_command (lit ''cat $(rm x)'') ReadOnly = BashAllow
   \<and> validate_bash_command (lit ''env rm x'') ReadOnly = BashAllow
   \<and> validate_bash_command (lit ''sed -ni p x'') ReadOnly = BashAllow
   \<and> validate_bash_command (lit ''echo '' @ [92, 34] @ lit '' > x'') ReadOnly = BashAllow"
  by (intro conjI bypass_newline bypass_background bypass_substitution bypass_wrapper bypass_sed
      bypass_quote)

end
