(* ===== verification/Bash_Lines.thy ===== *)
theory Bash_Lines
  imports Bash_Validation
begin

text \<open>
  What the filter of \<open>bash_validation.rs\<close> decides about ordinary command lines. A line is given by what it means:
  commands with their arguments, joined by the operators of the shell. Its text is what is typed; the reading of
  that text by the filter - segments, words, names, subcommands - is compared with the line it came from.
\<close>

section \<open>Command lines\<close>

text \<open>A command with the directory it is named in, or \<open>git\<close> with its options, its subcommand and the rest.\<close>

datatype Invocation =
    Run rstr rstr "rstr list"
  | Git rstr "rstr list list" "(rstr \<times> rstr list) option"

fun invocation_words :: "Invocation \<Rightarrow> rstr list" where
  "invocation_words (Run dir name args) = (dir @ name) # args"
| "invocation_words (Git dir opts sub) =
     (dir @ lit ''git'') # concat opts @ (case sub of None \<Rightarrow> [] | Some (s, rest) \<Rightarrow> s # rest)"

definition invocation_text :: "Invocation \<Rightarrow> rstr" where
  "invocation_text i = join [32] (invocation_words i)"

text \<open>The text of a line: its operators stand between blanks.\<close>

fun line_text :: "Invocation \<Rightarrow> (rstr \<times> Invocation) list \<Rightarrow> rstr" where
  "line_text i [] = invocation_text i"
| "line_text i ((operator, j) # r) = invocation_text i @ [32] @ operator @ [32] @ line_text j r"

definition shell_operators :: "rstr list" where
  "shell_operators = map lit [''&&'', ''||'', '';'', ''|'']"

text \<open>Words without quotes, upper case and operators; they may contain \<open>>\<close>.\<close>

definition plain_char :: "rchar \<Rightarrow> bool" where
  "plain_char c \<longleftrightarrow> 97 \<le> c \<and> c \<le> 122 \<or> 48 \<le> c \<and> c \<le> 57 \<or> c \<in> {45, 46, 47, 61, 62, 95}"

definition plain_word :: "rstr \<Rightarrow> bool" where
  "plain_word w \<longleftrightarrow> w \<noteq> [] \<and> (\<forall>c \<in> set w. plain_char c)"

definition is_directory :: "rstr \<Rightarrow> bool" where
  "is_directory dir \<longleftrightarrow> dir = [] \<or> last dir = 47"

text \<open>An option of \<open>git\<close>: a flag, or one of those that take a value.\<close>

definition valued_options :: "rstr list" where
  "valued_options = map lit [''-c'', ''-C'', ''--git-dir'', ''--work-tree'']"

definition is_git_option :: "rstr list \<Rightarrow> bool" where
  "is_git_option ws \<longleftrightarrow>
     (\<exists>f. ws = [45 # f] \<and> 45 # f \<notin> set valued_options \<and> 45 # f \<noteq> lit ''--'')
     \<or> (\<exists>f v. ws = [f, v] \<and> f \<in> set valued_options)"

fun well_formed :: "Invocation \<Rightarrow> bool" where
  "well_formed (Run dir name args) \<longleftrightarrow>
     (\<forall>w \<in> set (invocation_words (Run dir name args)). plain_word w)
     \<and> is_directory dir \<and> name \<noteq> [] \<and> 47 \<notin> set name \<and> name \<noteq> lit ''git''"
| "well_formed (Git dir opts sub) \<longleftrightarrow>
     (\<forall>w \<in> set (invocation_words (Git dir opts sub)). plain_word w)
     \<and> is_directory dir \<and> (\<forall>ws \<in> set opts. is_git_option ws)
     \<and> (case sub of None \<Rightarrow> True | Some (s, rest) \<Rightarrow> hd s \<noteq> 45)"

text \<open>What read-only mode means to let through.\<close>

fun reads_only :: "Invocation \<Rightarrow> bool" where
  "reads_only (Run dir name args) \<longleftrightarrow>
     name \<in> set READ_ONLY_COMMANDS
     \<and> (name = lit ''sed'' \<longrightarrow>
          (\<forall>a \<in> set args. take 2 a \<noteq> lit ''-i'' \<and> a \<noteq> lit ''--in-place'' \<and> take 11 a \<noteq> lit ''--in-place=''))"
| "reads_only (Git dir opts sub) \<longleftrightarrow>
     (case sub of None \<Rightarrow> True | Some (s, rest) \<Rightarrow> s \<in> set READ_ONLY_GIT_SUBCOMMANDS)"

section \<open>The words of a line\<close>

lemma plain_char_facts:
  assumes "plain_char c"
  shows "\<not> is_ws c" "\<not> is_token_punctuation c" "ascii_lower_char c = c"
    "c \<noteq> 59" "c \<noteq> 124" "c \<noteq> 38" "c \<noteq> 39" "c \<noteq> 34" "c \<noteq> 92"
  using assms by (auto simp: plain_char_def is_ws_def is_token_punctuation_def ascii_lower_char_def)

lemma well_formed_words: "well_formed i \<Longrightarrow> w \<in> set (invocation_words i) \<Longrightarrow> plain_word w"
  by (cases i) auto

lemma words_nonempty [simp]: "invocation_words i \<noteq> []"
  by (cases i) simp_all

lemma join_blank_chars:
  "\<forall>w \<in> set ws. plain_word w \<Longrightarrow> c \<in> set (join [32] ws) \<Longrightarrow> c = 32 \<or> plain_char c"
  by (induction ws rule: induct_list012) (auto simp: plain_word_def)

lemma join_blank_ends:
  "\<forall>w \<in> set ws. plain_word w \<Longrightarrow> ws \<noteq> [] \<Longrightarrow>
     join [32] ws \<noteq> [] \<and> plain_char (hd (join [32] ws)) \<and> plain_char (last (join [32] ws))"
proof (induction ws rule: induct_list012)
  case (3 x y zs)
  then show ?case by (auto simp: plain_word_def)
qed (auto simp: plain_word_def)

lemma split_ws_word:
  "\<forall>c \<in> set w. \<not> is_ws c \<Longrightarrow> split_ws_acc acc (w @ r) = split_ws_acc (acc @ w) r"
  by (induction w arbitrary: acc) auto

lemma split_whitespace_join:
  "\<forall>w \<in> set ws. plain_word w \<Longrightarrow> split_whitespace (join [32] ws) = ws"
proof (induction ws rule: induct_list012)
  case 1
  then show ?case by (simp add: split_whitespace_def)
next
  case (2 x)
  then show ?case using split_ws_word[of x "[]" "[]"]
    by (auto simp: split_whitespace_def plain_word_def plain_char_facts)
next
  case (3 x y zs)
  have "\<forall>c \<in> set x. \<not> is_ws c" "x \<noteq> []" using "3.prems" by (auto simp: plain_word_def plain_char_facts)
  moreover have "is_ws 32" by (simp add: is_ws_def)
  ultimately have "split_whitespace (join [32] (x # y # zs)) = x # split_whitespace (join [32] (y # zs))"
    by (simp add: split_whitespace_def split_ws_word)
  with 3 show ?case by simp
qed

lemma normalize_plain: "plain_word w \<Longrightarrow> normalize_token w = w"
proof -
  assume w: "plain_word w"
  then have "\<not> is_token_punctuation (hd w)" "\<not> is_token_punctuation (last w)" "map ascii_lower_char w = w"
    by (auto simp: plain_word_def plain_char_facts intro!: map_idI)
  then show ?thesis
    by (simp add: normalize_token_def trim_by_def trim_start_by_id trim_end_by_id to_ascii_lowercase_def)
qed

lemma normalized_tokens_text:
  assumes "well_formed i"
  shows "normalized_tokens (invocation_text i) = invocation_words i"
proof -
  have p: "\<forall>w \<in> set (invocation_words i). plain_word w" using assms well_formed_words by blast
  then have "map normalize_token (invocation_words i) = invocation_words i"
    by (intro map_idI) (simp add: normalize_plain)
  then show ?thesis using p
    by (auto simp: normalized_tokens_def invocation_text_def split_whitespace_join plain_word_def filter_id_conv)
qed

lemma text_facts:
  assumes "well_formed i"
  shows "invocation_text i \<noteq> []" "\<not> is_ws (hd (invocation_text i))" "\<not> is_ws (last (invocation_text i))"
    "c \<in> set (invocation_text i) \<Longrightarrow> c = 32 \<or> plain_char c"
  using join_blank_ends[of "invocation_words i"] join_blank_chars[of "invocation_words i" c]
    well_formed_words[OF assms]
  by (auto simp: invocation_text_def plain_char_facts)

section \<open>The segments of a line\<close>

lemma split_segments_plain:
  "\<forall>c \<in> set s. c \<noteq> 59 \<and> c \<noteq> 124 \<and> c \<noteq> 38 \<Longrightarrow> split_segments acc (s @ r) = split_segments (acc @ s) r"
  by (induction s arbitrary: acc) auto

lemma split_segments_operator:
  "operator \<in> set shell_operators \<Longrightarrow> split_segments acc (operator @ 32 # r) = acc # split_segments [32] r"
  by (auto simp: shell_operators_def lit_def)

lemma trim_blanks:
  assumes "t \<noteq> []" "\<not> is_ws (hd t)" "\<not> is_ws (last t)" "a = [] \<or> a = [32]" "b = [] \<or> b = [32]"
  shows "trim (a @ t @ b) = t"
proof -
  have w: "is_ws 32" by (simp add: is_ws_def)
  have "trim_start_by is_ws (a @ t @ b) = t @ b"
    using assms w by (cases t) (auto simp: trim_start_by_def)
  moreover have "trim_end_by is_ws (t @ b) = t"
    using assms w by (cases t rule: rev_cases) (auto simp: trim_end_by_def)
  ultimately show ?thesis by (simp add: trim_def trim_by_def)
qed

lemma line_segments:
  assumes "\<forall>j \<in> insert i (snd ` set r). well_formed j" "\<forall>p \<in> fst ` set r. p \<in> set shell_operators"
    and "a = [] \<or> a = [32]"
  shows "map trim (split_segments a (line_text i r)) = map invocation_text (i # map snd r)"
  using assms
proof (induction r arbitrary: i a)
  case Nil
  then have "well_formed i" by simp
  note t = text_facts[OF this]
  have "\<forall>c \<in> set (invocation_text i). c \<noteq> 59 \<and> c \<noteq> 124 \<and> c \<noteq> 38"
    using t(4) plain_char_facts by fastforce
  then have "split_segments a (invocation_text i) = [a @ invocation_text i]"
    using split_segments_plain[of "invocation_text i" a "[]"] by simp
  then show ?case using trim_blanks[OF t(1-3) Nil(3), of "[]"] by simp
next
  case (Cons x r)
  obtain p j where x: "x = (p, j)" by (cases x)
  have "well_formed i" using Cons.prems by simp
  note t = text_facts[OF this]
  have c: "\<forall>c \<in> set (invocation_text i @ [32]). c \<noteq> 59 \<and> c \<noteq> 124 \<and> c \<noteq> 38"
    using t(4) plain_char_facts by fastforce
  have "split_segments a (line_text i (x # r)) =
      (a @ invocation_text i @ [32]) # split_segments [32] (line_text j r)"
    using split_segments_plain[OF c, of a "p @ 32 # line_text j r"] split_segments_operator[of p] Cons.prems
    by (simp add: x)
  moreover have "map trim (split_segments [32] (line_text j r)) = map invocation_text (j # map snd r)"
    using Cons.prems by (intro Cons.IH) (auto simp: x)
  ultimately show ?case using trim_blanks[OF t(1-3) Cons.prems(3), of "[32]"] by (simp add: x)
qed

lemma line_command_segments:
  assumes "\<forall>j \<in> insert i (snd ` set r). well_formed j" "\<forall>p \<in> fst ` set r. p \<in> set shell_operators"
  shows "command_segments (line_text i r) = map invocation_text (i # map snd r)"
  unfolding command_segments_def line_segments[OF assms, of "[]", simplified]
  using assms(1) text_facts(1) by (auto simp: filter_id_conv)

section \<open>Redirection\<close>

lemma redirection_plain:
  "\<forall>c \<in> set s. c \<noteq> 39 \<and> c \<noteq> 34 \<Longrightarrow> redirection_scan False False s \<longleftrightarrow> 62 \<in> set s"
  by (induction s) auto

lemma join_blank_redirects: "62 \<in> set (join [32] ws) \<longleftrightarrow> (\<exists>w \<in> set ws. 62 \<in> set w)"
  by (induction ws rule: induct_list012) auto

lemma line_chars:
  assumes "\<forall>j \<in> insert i (snd ` set r). well_formed j" "\<forall>p \<in> fst ` set r. p \<in> set shell_operators"
  shows "(\<forall>c \<in> set (line_text i r). c \<noteq> 39 \<and> c \<noteq> 34)
    \<and> (62 \<in> set (line_text i r) \<longleftrightarrow> (\<exists>j \<in> insert i (snd ` set r). \<exists>w \<in> set (invocation_words j). 62 \<in> set w))"
  using assms
proof (induction r arbitrary: i)
  case Nil
  then show ?case using text_facts(4)[of i] plain_char_facts
    by (fastforce simp: invocation_text_def join_blank_redirects)
next
  case (Cons x r)
  obtain p j where x: "x = (p, j)" by (cases x)
  have p: "\<forall>c \<in> set p. c \<noteq> 39 \<and> c \<noteq> 34 \<and> c \<noteq> 62" using Cons.prems by (auto simp: x shell_operators_def lit_def)
  have i: "\<forall>c \<in> set (invocation_text i). c \<noteq> 39 \<and> c \<noteq> 34"
    using Cons.prems text_facts(4)[of i] plain_char_facts by fastforce
  have "62 \<in> set (invocation_text i) \<longleftrightarrow> (\<exists>w \<in> set (invocation_words i). 62 \<in> set w)"
    by (simp add: invocation_text_def join_blank_redirects)
  moreover note Cons.IH[of j]
  ultimately show ?case using Cons.prems p i by (auto simp: x)
qed

section \<open>Names and subcommands\<close>

lemma name_of_word:
  assumes "is_directory dir" "47 \<notin> set name" "\<forall>c \<in> set name. plain_char c"
  shows "command_name (dir @ name) = name"
proof -
  have n: "\<forall>c \<in> set name. \<not> (c = 47 \<or> c = 92)" using assms(2,3) plain_char_facts(9) by blast
  show ?thesis
  proof (cases "dir = []")
    case True
    then show ?thesis using n by (simp add: command_name_def after_last_no_sep)
  next
    case False
    then obtain d where d: "dir = d @ [47]"
      using assms(1) by (cases dir rule: rev_cases) (auto simp: is_directory_def)
    then show ?thesis
      using n after_last_append[of "\<lambda>c. c = 47 \<or> c = 92" 47 d name] after_last_no_sep[OF n]
      by (simp add: command_name_def)
  qed
qed

lemma is_flag_hd: "is_flag w \<longleftrightarrow> w \<noteq> [] \<and> hd w = 45"
  by (cases w) (auto simp: is_flag_def starts_with_def lit_def)

lemma git_options:
  "\<forall>ws \<in> set opts. is_git_option ws \<Longrightarrow> git_subcommand_loop (concat opts @ r) = git_subcommand_loop r"
proof (induction opts)
  case (Cons ws opts)
  then consider f where "ws = [45 # f]" "45 # f \<notin> set valued_options" "45 # f \<noteq> lit ''--''"
    | f v where "ws = [f, v]" "f \<in> set valued_options"
    by (auto simp: is_git_option_def)
  then show ?case
  proof cases
    case 1
    then show ?thesis using 1 Cons by (auto simp: valued_options_def is_flag_hd)
  next
    case 2
    then show ?thesis using Cons by (auto simp: valued_options_def)
  qed
qed simp

lemma take_is_prefix: "starts_with p w \<longleftrightarrow> take (length p) w = p"
  by (auto simp: starts_with_iff) (metis append_take_drop_id)

lemma segment_reads_only:
  assumes "well_formed i"
  shows "read_only_segment (invocation_text i) \<longleftrightarrow> reads_only i"
proof (cases i)
  case (Run dir name args)
  have plain: "\<forall>c \<in> set name. plain_char c" using assms by (auto simp: Run plain_word_def)
  have n: "command_name (dir @ name) = name"
    using assms plain by (intro name_of_word) (auto simp: Run)
  have tk: "normalized_tokens (invocation_text i) = (dir @ name) # args"
    using normalized_tokens_text[OF assms] by (simp add: Run)
  have p: "starts_with (lit ''-i'') a \<longleftrightarrow> take 2 a = lit ''-i''"
    "starts_with (lit ''--in-place='') a \<longleftrightarrow> take 11 a = lit ''--in-place=''" for a
  proof -
    have "length (lit ''-i'') = 2" "length (lit ''--in-place='') = 11" by (simp_all add: lit_def)
    then show "starts_with (lit ''-i'') a \<longleftrightarrow> take 2 a = lit ''-i''"
      "starts_with (lit ''--in-place='') a \<longleftrightarrow> take 11 a = lit ''--in-place=''"
      unfolding take_is_prefix by metis+
  qed
  have "has_in_place_flag ((dir @ name) # args) \<longleftrightarrow>
      (\<exists>a \<in> set args. take 2 a = lit ''-i'' \<or> a = lit ''--in-place'' \<or> take 11 a = lit ''--in-place='')"
    by (auto simp: has_in_place_flag_def list_ex_iff p) (auto simp: lit_def intro!: bexI[of _ "[45, 105]"])
  moreover have "name \<noteq> lit ''git''" using assms by (simp add: Run)
  moreover have "reads_only i \<longleftrightarrow> reads_only (Run dir name args)" by (simp add: Run)
  ultimately show ?thesis using n by (auto simp: read_only_segment_def tk)
next
  case (Git dir opts sub)
  have n: "command_name (dir @ lit ''git'') = lit ''git''"
    using assms by (intro name_of_word) (auto simp: Git plain_char_def lit_def)
  have g: "git_subcommand (invocation_words i) = map_option fst sub"
  proof (cases sub)
    case None
    then show ?thesis using assms git_options[of opts "[]"] by (simp add: Git git_subcommand_def)
  next
    case (Some sr)
    obtain s rest where sr: "sr = (s, rest)" by (cases sr)
    have "s \<noteq> []" "hd s \<noteq> 45" using assms by (auto simp: Git Some sr plain_word_def)
    then have "git_subcommand_loop (s # rest) = Some s" by (cases s) (auto simp: is_flag_hd lit_def)
    then show ?thesis using assms git_options[of opts "s # rest"] by (simp add: Git git_subcommand_def Some sr)
  qed
  have tk: "normalized_tokens (invocation_text i) = invocation_words i" by (rule normalized_tokens_text[OF assms])
  have h: "invocation_words i \<noteq> []" "command_name (hd (invocation_words i)) = lit ''git''" using n by (simp_all add: Git)
  have "reads_only i \<longleftrightarrow> reads_only (Git dir opts sub)" by (simp add: Git)
  then show ?thesis using h g by (cases sub) (auto simp: read_only_segment_def tk)
qed

text \<open>C8: read-only mode lets an ordinary command line through exactly when every command of it is on the read-only
  list - \<open>sed\<close> without an in-place flag - or is \<open>git\<close> with a read-only subcommand or none, wherever the commands
  stand behind \<open>&&\<close>, \<open>||\<close>, \<open>;\<close> and \<open>|\<close>, in whatever directories they are named and whatever options \<open>git\<close> is given,
  and no word contains \<open>>\<close>. The read-only list names no command of the lists of writing and of state-changing
  commands, nor \<open>sudo\<close>. Ordinary are the lines of words in lower case without quotes, line feeds and
  substitutions.\<close>

theorem read_only_allows_iff:
  assumes "\<forall>j \<in> insert i (snd ` set r). well_formed j" "\<forall>p \<in> fst ` set r. p \<in> set shell_operators"
  shows "(validate_bash_command (line_text i r) ReadOnly = BashAllow \<longleftrightarrow>
      (\<forall>j \<in> insert i (snd ` set r). reads_only j \<and> (\<forall>w \<in> set (invocation_words j). 62 \<notin> set w)))
    \<and> set READ_ONLY_COMMANDS \<inter> (set WRITE_COMMANDS \<union> set STATE_CHANGING_COMMANDS \<union> {lit ''sudo''}) = {}"
proof
  have seg: "command_segments (line_text i r) = map invocation_text (i # map snd r)"
    by (rule line_command_segments[OF assms])
  have "trim (line_text i r) \<noteq> []"
    using segment_not_blank[of "invocation_text i" "line_text i r"] by (simp add: seg)
  moreover have "has_write_redirection (line_text i r) \<longleftrightarrow>
      (\<exists>j \<in> insert i (snd ` set r). \<exists>w \<in> set (invocation_words j). 62 \<in> set w)"
    using line_chars[OF assms] redirection_plain[of "line_text i r"] by (simp add: has_write_redirection_def)
  moreover have "list_all read_only_segment (command_segments (line_text i r)) \<longleftrightarrow>
      (\<forall>j \<in> insert i (snd ` set r). reads_only j)"
    using assms(1) by (auto simp: seg list_all_iff segment_reads_only)
  ultimately show "validate_bash_command (line_text i r) ReadOnly = BashAllow \<longleftrightarrow>
      (\<forall>j \<in> insert i (snd ` set r). reads_only j \<and> (\<forall>w \<in> set (invocation_words j). 62 \<notin> set w))"
    by (auto simp: validate_read_only_iff)
  show "set READ_ONLY_COMMANDS \<inter> (set WRITE_COMMANDS \<union> set STATE_CHANGING_COMMANDS \<union> {lit ''sudo''}) = {}"
    by (simp add: READ_ONLY_COMMANDS_def WRITE_COMMANDS_def STATE_CHANGING_COMMANDS_def)
qed

text \<open>\<open>/bin/ls -l && git -c color=never log | rm x\<close>: the last command spoils the line.\<close>

definition demo_list :: Invocation where
  "demo_list = Run (lit ''/bin/'') (lit ''ls'') [lit ''-l'']"

definition demo_log :: Invocation where
  "demo_log = Git [] [[lit ''-c'', lit ''color=never'']] (Some (lit ''log'', []))"

definition demo_remove :: Invocation where
  "demo_remove = Run [] (lit ''rm'') [lit ''x'']"

theorem read_only_allows_iff_witness:
  "validate_bash_command (line_text demo_list [(lit ''&&'', demo_log)]) ReadOnly = BashAllow
   \<and> validate_bash_command (line_text demo_list [(lit ''&&'', demo_log), (lit ''|'', demo_remove)]) ReadOnly \<noteq> BashAllow"
proof -
  have wf: "well_formed demo_list" "well_formed demo_log" "well_formed demo_remove"
    by (auto simp: demo_list_def demo_log_def demo_remove_def lit_def plain_word_def plain_char_def is_directory_def
        is_git_option_def valued_options_def)
  have op: "lit ''&&'' \<in> set shell_operators" "lit ''|'' \<in> set shell_operators" by (simp_all add: shell_operators_def)
  have ro: "reads_only demo_list" "reads_only demo_log" "\<not> reads_only demo_remove"
    by (simp_all add: demo_list_def demo_log_def demo_remove_def READ_ONLY_COMMANDS_def READ_ONLY_GIT_SUBCOMMANDS_def)
  have nr: "\<forall>w \<in> set (invocation_words demo_list). 62 \<notin> set w" "\<forall>w \<in> set (invocation_words demo_log). 62 \<notin> set w"
    by (simp_all add: demo_list_def demo_log_def lit_def)
  have "validate_bash_command (line_text demo_list [(lit ''&&'', demo_log)]) ReadOnly = BashAllow"
    using read_only_allows_iff[of demo_list "[(lit ''&&'', demo_log)]"] wf op ro nr by simp
  moreover have "validate_bash_command (line_text demo_list [(lit ''&&'', demo_log), (lit ''|'', demo_remove)]) ReadOnly \<noteq> BashAllow"
    using read_only_allows_iff[of demo_list "[(lit ''&&'', demo_log), (lit ''|'', demo_remove)]"] wf op ro nr by simp
  ultimately show ?thesis by (rule conjI)
qed

end
