(* ===== verification/Enforcer.thy ===== *)
theory Enforcer
  imports Bash_Validation Rust_Path
begin

text \<open>
  The enforcement layer of \<open>runtime/src/permission_enforcer.rs\<close>: tool calls, shell commands and
  file writes are checked against the active permission mode. \<open>Path::canonicalize\<close> asks the file
  system, so it is the parameter \<open>canon\<close>; \<open>None\<close> is its error.
\<close>

datatype EnforcementResult =
    Allowed
  | Denied (denied_tool: rstr) (denied_active: rstr) (denied_required: rstr) (denied_reason: rstr)

record PermissionEnforcer =
  policy :: PermissionPolicy

definition enforcer_check :: "PermissionEnforcer \<Rightarrow> rstr \<Rightarrow> rstr \<Rightarrow> EnforcementResult" where
  "enforcer_check e tool inp =
     (if active_mode (policy e) = Prompt then Allowed
      else
        case fst (authorize (policy e) tool inp None ()) of
          OutcomeAllow \<Rightarrow> Allowed
        | OutcomeDeny reason \<Rightarrow>
            Denied tool (mode_as_str (active_mode (policy e)))
              (mode_as_str (required_mode_for (policy e) tool)) reason)"

definition is_allowed :: "PermissionEnforcer \<Rightarrow> rstr \<Rightarrow> rstr \<Rightarrow> bool" where
  "is_allowed e tool inp \<longleftrightarrow> enforcer_check e tool inp = Allowed"

definition check_bash :: "PermissionEnforcer \<Rightarrow> rstr \<Rightarrow> EnforcementResult" where
  "check_bash e command =
     (let mode = active_mode (policy e) in
      case validate_bash_command command mode of
        BashAllow \<Rightarrow> Allowed
      | BashDeny d \<Rightarrow>
          Denied (lit ''bash'') (mode_as_str mode) (mode_as_str (denial_required_mode d))
            (denial_reason d))"

section \<open>The workspace boundary\<close>

type_synonym canonicalizer = "path \<Rightarrow> path option"

definition relative_path_within_root :: "path \<Rightarrow> path \<Rightarrow> path option" where
  "relative_path_within_root candidate root =
     (case path_strip_prefix candidate root of
        None \<Rightarrow> None
      | Some relative \<Rightarrow>
          if ParentDir \<in> set relative \<or> RootDir \<in> set relative then None else Some relative)"

definition rewrite_workspace_alias_path :: "path \<Rightarrow> path \<Rightarrow> path \<Rightarrow> path option" where
  "rewrite_workspace_alias_path candidate raw_root resolved_root =
     map_option (path_join resolved_root)
       (case relative_path_within_root candidate raw_root of
          Some r \<Rightarrow> Some r
        | None \<Rightarrow> relative_path_within_root candidate resolved_root)"

definition resolve_write_target_path :: "canonicalizer \<Rightarrow> path \<Rightarrow> path \<Rightarrow> path \<Rightarrow> path" where
  "resolve_write_target_path canon p raw_root resolved_root =
     (let candidate = (if is_absolute p then p else path_join resolved_root p) in
      case canon candidate of
        Some c \<Rightarrow> c
      | None \<Rightarrow>
          (case rewrite_workspace_alias_path candidate raw_root resolved_root of
             Some r \<Rightarrow> r
           | None \<Rightarrow>
               (case path_parent candidate of
                  None \<Rightarrow> candidate
                | Some parent \<Rightarrow>
                    let canonical_parent =
                      (case canon parent of
                         Some c \<Rightarrow> Some c
                       | None \<Rightarrow> rewrite_workspace_alias_path parent raw_root resolved_root) in
                    (case path_file_name candidate of
                       Some name \<Rightarrow> path_join (unwrap_or parent canonical_parent) [Normal name]
                     | None \<Rightarrow> candidate))))"

definition resolved_root_of :: "canonicalizer \<Rightarrow> path \<Rightarrow> path" where
  "resolved_root_of canon raw_root = unwrap_or raw_root (canon raw_root)"

text \<open>\<open>normalize_comparable_path\<close> is the identity on Unix.\<close>

definition normalize_comparable_path :: "path \<Rightarrow> path" where
  "normalize_comparable_path p = p"

definition is_within_workspace :: "canonicalizer \<Rightarrow> rstr \<Rightarrow> rstr \<Rightarrow> bool" where
  "is_within_workspace canon p workspace_root =
     (let raw_root = path_components workspace_root;
          resolved_root = resolved_root_of canon raw_root;
          canonical_root = normalize_comparable_path resolved_root;
          candidate = normalize_comparable_path
            (resolve_write_target_path canon (path_components p) raw_root resolved_root) in
      candidate = canonical_root \<or> path_starts_with candidate canonical_root)"

definition check_file_write ::
  "canonicalizer \<Rightarrow> PermissionEnforcer \<Rightarrow> rstr \<Rightarrow> rstr \<Rightarrow> EnforcementResult" where
  "check_file_write canon e p workspace_root =
     (let mode = active_mode (policy e) in
      case mode of
        ReadOnly \<Rightarrow>
          Denied (lit ''write_file'') (mode_as_str mode) (mode_as_str WorkspaceWrite)
            (lit ''file writes are not allowed in '' @ quoted (mode_as_str mode) @ lit '' mode'')
      | WorkspaceWrite \<Rightarrow>
          if is_within_workspace canon p workspace_root then Allowed
          else
            Denied (lit ''write_file'') (mode_as_str mode) (mode_as_str DangerFullAccess)
              (lit ''path '' @ quoted p @ lit '' is outside workspace root '' @ quoted workspace_root)
      | Allow \<Rightarrow> Allowed
      | DangerFullAccess \<Rightarrow> Allowed
      | Prompt \<Rightarrow>
          Denied (lit ''write_file'') (mode_as_str mode) (mode_as_str WorkspaceWrite)
            (lit ''file write requires confirmation in prompt mode''))"

section \<open>Wider modes\<close>

text \<open>Prompt mode stands beside the chain of the other four.\<close>

definition mode_rank :: "PermissionMode \<Rightarrow> nat" where
  "mode_rank m = (case m of ReadOnly \<Rightarrow> 0 | Prompt \<Rightarrow> 0 | WorkspaceWrite \<Rightarrow> 1 | DangerFullAccess \<Rightarrow> 2 | Allow \<Rightarrow> 3)"

lemma auto_allows_mono: "mode_rank m \<le> mode_rank m' \<Longrightarrow> auto_allows m r \<Longrightarrow> auto_allows m' r"
  by (cases m; cases m'; auto simp: mode_rank_def)

lemma enforcer_check_iff:
  "enforcer_check e tool inp = Allowed \<longleftrightarrow>
     active_mode (policy e) = Prompt \<or> auto_allows (active_mode (policy e)) (required_mode_for (policy e) tool)"
  using authorize_None_iff[of "policy e" tool inp "()"]
  by (auto simp: enforcer_check_def split: PermissionOutcome.splits)

text \<open>raising the active mode never revokes anything: what the enforcer lets a tool do, or lets
  be written, under one mode it also lets under every wider mode with the same requirements.\<close>

theorem wider_mode_keeps_permissions:
  assumes "mode_rank (active_mode (policy e)) \<le> mode_rank m" "active_mode (policy e) \<noteq> Prompt"
  shows "(is_allowed e tool inp \<longrightarrow> is_allowed (e\<lparr>policy := (policy e)\<lparr>active_mode := m\<rparr>\<rparr>) tool inp)
    \<and> (check_file_write canon e p root = Allowed \<longrightarrow>
        check_file_write canon (e\<lparr>policy := (policy e)\<lparr>active_mode := m\<rparr>\<rparr>) p root = Allowed)"
proof
  show "is_allowed e tool inp \<longrightarrow> is_allowed (e\<lparr>policy := (policy e)\<lparr>active_mode := m\<rparr>\<rparr>) tool inp"
    using auto_allows_mono[OF assms(1)] assms(2)
    by (auto simp: is_allowed_def enforcer_check_iff required_mode_for_def)
  show "check_file_write canon e p root = Allowed \<longrightarrow>
        check_file_write canon (e\<lparr>policy := (policy e)\<lparr>active_mode := m\<rparr>\<rparr>) p root = Allowed"
    using assms
    by (cases "active_mode (policy e)"; cases m; simp add: check_file_write_def mode_rank_def Let_def)
qed

theorem wider_mode_keeps_permissions_witness:
  "is_allowed \<lparr>policy = (with_tool_requirement (PermissionPolicy_new WorkspaceWrite) (lit ''edit_file'')
     WorkspaceWrite)\<lparr>active_mode := DangerFullAccess\<rparr>\<rparr> (lit ''edit_file'') []"
  using wider_mode_keeps_permissions[of "\<lparr>policy = with_tool_requirement
      (PermissionPolicy_new WorkspaceWrite) (lit ''edit_file'') WorkspaceWrite\<rparr>" DangerFullAccess
      "lit ''edit_file''" "[]"]
  by (simp add: mode_rank_def is_allowed_def enforcer_check_iff)
    (simp add: PermissionPolicy_new_def)

end
