(* ===== verification/File_Ops.thy ===== *)
theory File_Ops
  imports Enforcer
begin

text \<open>
  The file tools of \<open>runtime/src/file_ops.rs\<close>: reading a window of lines, writing, editing and the
  paging of search results. The file system is a parameter: a record of the calls the code makes,
  over a world it may change. The file system decides the messages of its errors; paths stay
  component lists, their text form is the caller's. The search tools walk directories and match
  regular expressions, which is library code; only their paging is here.
\<close>

record 'w Fs =
  fs_current_dir :: "'w \<Rightarrow> rstr + path"
  fs_canonicalize :: "'w \<Rightarrow> path \<Rightarrow> rstr + path"
  fs_read_to_string :: "'w \<Rightarrow> path \<Rightarrow> rstr + rstr"
  fs_create_dir_all :: "path \<Rightarrow> 'w \<Rightarrow> (rstr + unit) \<times> 'w"
  fs_write :: "path \<Rightarrow> rstr \<Rightarrow> 'w \<Rightarrow> (rstr + unit) \<times> 'w"

text \<open>\<open>Result::ok\<close>.\<close>

fun result_ok :: "'e + 'a \<Rightarrow> 'a option" where
  "result_ok (Inl e) = None"
| "result_ok (Inr x) = Some x"

record TextFilePayload =
  payload_path :: path
  payload_content :: rstr
  num_lines :: nat
  start_line :: nat
  total_lines :: nat

record StructuredPatchHunk =
  old_start :: nat
  old_lines :: nat
  new_start :: nat
  new_lines :: nat
  hunk_lines :: "rstr list"

record WriteFileOutput =
  write_kind :: rstr
  write_path :: path
  write_content :: rstr
  write_patch :: "StructuredPatchHunk list"
  write_original :: "rstr option"

record EditFileOutput =
  edit_path :: path
  edit_old :: rstr
  edit_new :: rstr
  edit_original :: rstr
  edit_patch :: "StructuredPatchHunk list"
  edit_user_modified :: bool
  edit_replace_all :: bool

section \<open>Paths\<close>

definition absolute_candidate :: "'w Fs \<Rightarrow> 'w \<Rightarrow> path \<Rightarrow> rstr + path" where
  "absolute_candidate fs w p =
     (if is_absolute p then Inr p
      else res_bind (fs_current_dir fs w) (\<lambda>cwd. Inr (path_join cwd p)))"

definition normalize_path :: "'w Fs \<Rightarrow> 'w \<Rightarrow> rstr \<Rightarrow> rstr + path" where
  "normalize_path fs w p =
     res_bind (absolute_candidate fs w (path_components p)) (fs_canonicalize fs w)"

definition normalize_path_allow_missing :: "'w Fs \<Rightarrow> 'w \<Rightarrow> rstr \<Rightarrow> rstr + path" where
  "normalize_path_allow_missing fs w p =
     res_bind (absolute_candidate fs w (path_components p)) (\<lambda>candidate. Inr
       (case fs_canonicalize fs w candidate of
          Inr c \<Rightarrow> c
        | Inl e \<Rightarrow>
            (case path_parent candidate of
               None \<Rightarrow> candidate
             | Some parent \<Rightarrow>
                 let canonical_parent = unwrap_or parent (result_ok (fs_canonicalize fs w parent)) in
                 (case path_file_name candidate of
                    Some name \<Rightarrow> path_join canonical_parent [Normal name]
                  | None \<Rightarrow> candidate))))"

section \<open>Reading, writing, editing\<close>

definition read_file ::
  "'w Fs \<Rightarrow> 'w \<Rightarrow> rstr \<Rightarrow> nat option \<Rightarrow> nat option \<Rightarrow> rstr + TextFilePayload" where
  "read_file fs w p offset limit =
     res_bind (normalize_path fs w p) (\<lambda>absolute.
     res_bind (fs_read_to_string fs w absolute) (\<lambda>content.
       let ls = str_lines content;
           start_index = min (unwrap_or 0 offset) (length ls);
           end_index = (case limit of None \<Rightarrow> length ls
                        | Some l \<Rightarrow> min (start_index + l) (length ls)) in
       Inr \<lparr>payload_path = absolute,
            payload_content = join [10] (take (end_index - start_index) (drop start_index ls)),
            num_lines = end_index - start_index, start_line = start_index + 1,
            total_lines = length ls\<rparr>))"

definition make_patch :: "rstr \<Rightarrow> rstr \<Rightarrow> StructuredPatchHunk list" where
  "make_patch original updated =
     [\<lparr>old_start = 1, old_lines = length (str_lines original), new_start = 1,
       new_lines = length (str_lines updated),
       hunk_lines = map (\<lambda>l. lit ''-'' @ l) (str_lines original)
         @ map (\<lambda>l. lit ''+'' @ l) (str_lines updated)\<rparr>]"

definition write_file ::
  "'w Fs \<Rightarrow> rstr \<Rightarrow> rstr \<Rightarrow> 'w \<Rightarrow> (rstr + WriteFileOutput) \<times> 'w" where
  "write_file fs p content w =
     (case normalize_path_allow_missing fs w p of
        Inl e \<Rightarrow> (Inl e, w)
      | Inr absolute \<Rightarrow>
          let original = result_ok (fs_read_to_string fs w absolute) in
          (case (case path_parent absolute of
                   None \<Rightarrow> (Inr (), w)
                 | Some parent \<Rightarrow> fs_create_dir_all fs parent w) of
             (Inl e, w1) \<Rightarrow> (Inl e, w1)
           | (Inr _, w1) \<Rightarrow>
               (case fs_write fs absolute content w1 of
                  (Inl e, w2) \<Rightarrow> (Inl e, w2)
                | (Inr _, w2) \<Rightarrow>
                    (Inr \<lparr>write_kind = (if original \<noteq> None then lit ''update'' else lit ''create''),
                          write_path = absolute, write_content = content,
                          write_patch = make_patch (unwrap_or [] original) content,
                          write_original = original\<rparr>, w2))))"

text \<open>
  \<open>replace\<close> of an empty pattern inserts at every character boundary; \<open>replacen(.., 1)\<close> replaces the
  first occurrence.
\<close>

definition replace_any :: "rstr \<Rightarrow> rstr \<Rightarrow> rstr \<Rightarrow> rstr" where
  "replace_any p q s =
     (if p = [] then concat (map (\<lambda>c. q @ [c]) s) @ q else replace_str p q s)"

definition replace_first :: "rstr \<Rightarrow> rstr \<Rightarrow> rstr \<Rightarrow> rstr" where
  "replace_first p q s = (case split_once p s of None \<Rightarrow> s | Some (a, b) \<Rightarrow> a @ q @ b)"

definition edit_file ::
  "'w Fs \<Rightarrow> rstr \<Rightarrow> rstr \<Rightarrow> rstr \<Rightarrow> bool \<Rightarrow> 'w \<Rightarrow> (rstr + EditFileOutput) \<times> 'w" where
  "edit_file fs p old_string new_string all w =
     (case res_bind (normalize_path fs w p) (\<lambda>absolute.
             res_bind (fs_read_to_string fs w absolute) (\<lambda>original. Inr (absolute, original))) of
        Inl e \<Rightarrow> (Inl e, w)
      | Inr (absolute, original) \<Rightarrow>
          if old_string = new_string then
            (Inl (lit ''old_string and new_string must differ''), w)
          else if \<not> contains old_string original then
            (Inl (lit ''old_string not found in file''), w)
          else
            let updated = (if all then replace_any old_string new_string original
                           else replace_first old_string new_string original) in
            (case fs_write fs absolute updated w of
               (Inl e, w2) \<Rightarrow> (Inl e, w2)
             | (Inr _, w2) \<Rightarrow>
                 (Inr \<lparr>edit_path = absolute, edit_old = old_string, edit_new = new_string,
                       edit_original = original, edit_patch = make_patch original updated,
                       edit_user_modified = False, edit_replace_all = all\<rparr>, w2)))"

text \<open>The paging of search results: the items, the limit that was applied, the offset.\<close>

definition apply_limit ::
  "'a list \<Rightarrow> nat option \<Rightarrow> nat option \<Rightarrow> 'a list \<times> nat option \<times> nat option" where
  "apply_limit items limit offset =
     (let offset_value = unwrap_or 0 offset;
          rest = drop offset_value items;
          explicit_limit = unwrap_or 250 limit in
      if explicit_limit = 0 then
        (rest, None, if offset_value > 0 then Some offset_value else None)
      else
        (take explicit_limit rest,
         if length rest > explicit_limit then Some explicit_limit else None,
         if offset_value > 0 then Some offset_value else None))"

section \<open>The workspace boundary of a write\<close>

text \<open>
  The documented behaviour of \<open>canonicalize\<close>: its results are absolute and have no \<open>.\<close> or \<open>..\<close>
  component.
\<close>

definition canonical_paths :: "canonicalizer \<Rightarrow> bool" where
  "canonical_paths canon \<longleftrightarrow>
     (\<forall>p q. canon p = Some q \<longrightarrow> is_absolute q \<and> ParentDir \<notin> set q \<and> CurDir \<notin> set q)"

definition fs_canon :: "'w Fs \<Rightarrow> 'w \<Rightarrow> canonicalizer" where
  "fs_canon fs w p = result_ok (fs_canonicalize fs w p)"

text \<open>No symbolic link lies below the root: what exists there is its own canonical form.\<close>

definition no_links_below :: "canonicalizer \<Rightarrow> path \<Rightarrow> bool" where
  "no_links_below canon root \<longleftrightarrow>
     (\<forall>q c. ParentDir \<notin> set q \<longrightarrow> canon (root @ q) = Some c \<longrightarrow> c = root @ q)"

lemma path_join_absolute: "is_absolute base \<Longrightarrow> \<not> is_absolute p \<Longrightarrow>
    path_join base p = base @ (case p of CurDir # q \<Rightarrow> q | _ \<Rightarrow> p)"
  by (auto simp: path_join_def)

lemma is_absolute_append: "is_absolute a \<Longrightarrow> is_absolute (a @ b)"
  by (auto simp: is_absolute_def)

lemma path_join_name [simp]: "base \<noteq> [] \<Longrightarrow> path_join base [Normal n] = base @ [Normal n]"
  by (simp add: path_join_def)

lemma path_join_set: "c \<in> set (path_join a b) \<Longrightarrow> c \<in> set a \<or> c \<in> set b"
  by (auto simp: path_join_def split: if_splits list.splits Component.splits)

lemma path_split: "path_parent p = Some q \<Longrightarrow> path_file_name p = Some n \<Longrightarrow> p = q @ [Normal n]"
  by (cases p rule: rev_cases)
    (auto simp: path_parent_def path_file_name_def split: if_splits Component.splits)

lemma root_join_self:
  assumes "is_absolute root" "RootDir \<notin> set r" "CurDir \<notin> set r"
  shows "path_join root r = root @ r"
  using assms by (cases r) (auto simp: path_join_def split: Component.splits)


lemma segment_component_plain: "segment_component s = Some c \<Longrightarrow> c \<noteq> RootDir \<and> c \<noteq> CurDir"
  by (auto split: if_splits)

lemma map_filter_segments: "c \<in> set (List.map_filter segment_component segs) \<Longrightarrow> c \<noteq> RootDir \<and> c \<noteq> CurDir"
  using segment_component_plain by (fastforce simp: List.map_filter_def)

text \<open>Only the first component can be the root or the current directory.\<close>

lemma path_components_tl:
  "c \<in> set (tl (path_components s)) \<Longrightarrow> c \<noteq> RootDir \<and> c \<noteq> CurDir"
proof -
  let ?body = "List.map_filter segment_component (split_char 47 s)"
  assume "c \<in> set (tl (path_components s))"
  then have "c \<in> set ?body"
    by (auto simp: path_components_def Let_def split: if_splits dest: in_set_tl)
  then show ?thesis by (rule map_filter_segments)
qed

lemma candidate_plain:
  assumes "is_absolute cwd" "ParentDir \<notin> set cwd" "CurDir \<notin> set cwd" "RootDir \<notin> set (tl cwd)"
    and "ParentDir \<notin> set (path_components s)"
    and "cand = (if is_absolute (path_components s) then path_components s
                 else path_join cwd (path_components s))"
  shows "is_absolute cand \<and> ParentDir \<notin> set cand \<and> CurDir \<notin> set cand \<and> RootDir \<notin> set (tl cand)"
proof (cases "path_components s")
  case Nil
  with assms show ?thesis by (auto simp: path_join_absolute)
next
  case (Cons c cs)
  have t: "RootDir \<notin> set cs" "CurDir \<notin> set cs"
    using path_components_tl[of _ s] Cons by fastforce+
  obtain d ds where d: "cwd = d # ds" using assms(1) by (cases cwd) auto
  show ?thesis
    using assms t d Cons by (cases c) (auto simp: path_join_def)
qed

lemma relative_none:
  assumes "relative_path_within_root cand root = None" "ParentDir \<notin> set cand" "RootDir \<notin> set (tl cand)"
    "root \<noteq> []"
  shows "\<not> path_starts_with cand root"
proof
  assume "path_starts_with cand root"
  then obtain r where r: "cand = root @ r" by (auto simp: path_starts_with_iff)
  then have "path_strip_prefix cand root = Some r" by (simp add: path_strip_prefix_iff)
  moreover have "ParentDir \<notin> set r" "RootDir \<notin> set r"
    using r assms(2,3,4) by (cases root; simp)+
  ultimately show False using assms(1) by (simp add: relative_path_within_root_def)
qed

lemma write_target_agrees:
  fixes fs :: "'w Fs"
  assumes canon: "canonical_paths (fs_canon fs w)" "no_links_below (fs_canon fs w) cwd"
    and cwd: "fs_current_dir fs w = Inr cwd" "fs_canon fs w cwd = Some cwd" "RootDir \<notin> set (tl cwd)"
    and p: "ParentDir \<notin> set (path_components p)"
    and inside: "path_starts_with
      (resolve_write_target_path (fs_canon fs w) (path_components p) cwd cwd) cwd"
  shows "\<exists>r. normalize_path_allow_missing fs w p = Inr (cwd @ r) \<and> ParentDir \<notin> set r"
proof -
  let ?canon = "fs_canon fs w"
  define cand where "cand = (if is_absolute (path_components p) then path_components p
                 else path_join cwd (path_components p))"
  have c: "is_absolute cwd" "ParentDir \<notin> set cwd" "CurDir \<notin> set cwd"
    using canon(1) cwd(2) by (auto simp: canonical_paths_def)
  then have ne: "cwd \<noteq> []" by auto
  have cp: "is_absolute cand" "ParentDir \<notin> set cand" "CurDir \<notin> set cand" "RootDir \<notin> set (tl cand)"
    using candidate_plain[OF c cwd(3) p cand_def] by auto
  have abs: "absolute_candidate fs w (path_components p) = Inr cand"
    using cwd(1) by (simp add: absolute_candidate_def cand_def)
  define target where "target = (case ?canon cand of Some c \<Rightarrow> c | None \<Rightarrow>
      (case path_parent cand of None \<Rightarrow> cand | Some parent \<Rightarrow>
        (case path_file_name cand of
           Some n \<Rightarrow> path_join (unwrap_or parent (?canon parent)) [Normal n] | None \<Rightarrow> cand)))"
  have norm: "normalize_path_allow_missing fs w p = Inr target"
    by (auto simp: normalize_path_allow_missing_def abs target_def fs_canon_def Let_def
        split: option.splits sum.splits)
  have "\<exists>r. target = cwd @ r \<and> ParentDir \<notin> set r"
  proof (cases "?canon cand")
    case (Some q)
    then have "path_starts_with q cwd"
      using inside by (simp add: resolve_write_target_path_def cand_def[symmetric] Let_def)
    moreover have "ParentDir \<notin> set q" using Some canon(1) by (auto simp: canonical_paths_def)
    ultimately show ?thesis using Some by (auto simp: target_def path_starts_with_iff)
  next
    case None
    show ?thesis
    proof (cases "relative_path_within_root cand cwd")
      case rel: (Some r)
      have r: "cand = cwd @ r" "ParentDir \<notin> set r"
        using rel by (auto simp: relative_path_within_root_def path_strip_prefix_iff
            split: option.splits if_splits)
      have "r \<noteq> []" using None cwd(2) r(1) by auto
      have "target = cand"
      proof (cases "path_parent cand")
        case pa: (Some q)
        show ?thesis
        proof (cases "path_file_name cand")
          case fn: (Some n)
          have qn: "cand = q @ [Normal n]" by (rule path_split[OF pa fn])
          then obtain r' where q: "q = cwd @ r'" "r = r' @ [Normal n]"
            using r(1) \<open>r \<noteq> []\<close> by (cases r rule: rev_cases) auto
          then have "unwrap_or q (?canon q) = q"
            using canon(2) r(2) by (auto simp: no_links_below_def unwrap_or_def split: option.splits)
          then show ?thesis using None pa fn q(1) ne qn by (simp add: target_def)
        qed (use None pa in \<open>simp add: target_def\<close>)
      qed (use None in \<open>simp add: target_def\<close>)
      then show ?thesis using r by auto
    next
      case rel: None
      have out: "\<not> path_starts_with cand cwd" by (rule relative_none[OF rel cp(2,4) ne])
      have rw: "rewrite_workspace_alias_path cand cwd cwd = None"
        using rel by (simp add: rewrite_workspace_alias_path_def)
      note res = inside[unfolded resolve_write_target_path_def Let_def cand_def[symmetric]]
      obtain q where pa: "path_parent cand = Some q"
        using res out None rw by (auto split: option.splits)
      obtain n where fn: "path_file_name cand = Some n"
        using res out None rw pa by (auto split: option.splits)
      have qn: "cand = q @ [Normal n]" by (rule path_split[OF pa fn])
      have qne: "q \<noteq> []" using qn cp(1) by auto
      have "path_strip_prefix q cwd = None"
        using out qn by (cases "path_strip_prefix q cwd")
          (auto simp: path_strip_prefix_iff path_starts_with_iff)
      then have rwq: "rewrite_workspace_alias_path q cwd cwd = None"
        by (simp add: rewrite_workspace_alias_path_def relative_path_within_root_def)
      obtain d where d: "?canon q = Some d"
        using res out None rw pa fn rwq qne qn
        by (cases "?canon q") (auto simp: unwrap_or_def)
      have dp: "d \<noteq> []" "ParentDir \<notin> set d"
        using d canon(1) by (fastforce simp: canonical_paths_def)+
      have "target = d @ [Normal n]"
        using None pa fn d dp(1) by (simp add: target_def unwrap_or_def)
      moreover have "path_starts_with (d @ [Normal n]) cwd"
        using res None rw pa fn d dp(1) by (simp add: unwrap_or_def)
      moreover have "ParentDir \<in> set r \<Longrightarrow> d @ [Normal n] = cwd @ r \<Longrightarrow> ParentDir \<in> set d" for r
        by (metis Component.distinct(11) Un_iff set_ConsD set_append set_empty empty_iff list.set(1))
      ultimately show ?thesis using dp(2) by (auto simp: path_starts_with_iff)
    qed
  qed
  then show ?thesis using norm by auto
qed


text \<open>C23: in workspace-write mode, a write the enforcer allows lands inside the workspace: if the
  requested path has no \<open>..\<close>, no symbolic link lies below the root, and the root is the canonical
  current directory, then the path \<open>write_file\<close> opens is the root followed by components none of
  which is \<open>..\<close>.\<close>

theorem allowed_write_stays_inside:
  assumes "canonical_paths (fs_canon fs w)" "no_links_below (fs_canon fs w) cwd"
    and "fs_current_dir fs w = Inr cwd" "path_components root = cwd" "fs_canon fs w cwd = Some cwd"
    and "ParentDir \<notin> set (path_components p)"
    and "active_mode (policy e) = WorkspaceWrite"
    and "check_file_write (fs_canon fs w) e p root = Allowed"
  shows "\<exists>r. normalize_path_allow_missing fs w p = Inr (cwd @ r) \<and> ParentDir \<notin> set r"
proof (rule write_target_agrees)
  show "RootDir \<notin> set (tl cwd)" using path_components_tl[of RootDir root] assms(4) by auto
  have "is_within_workspace (fs_canon fs w) p root"
    using assms(7,8) by (auto simp: check_file_write_def split: if_splits)
  then show "path_starts_with
      (resolve_write_target_path (fs_canon fs w) (path_components p) cwd cwd) cwd"
    using assms(4,5)
    by (auto simp: is_within_workspace_def Let_def normalize_comparable_path_def resolved_root_of_def
        unwrap_or_def path_starts_with_iff)
qed (use assms in simp_all)

text \<open>A world with the directories \<open>/\<close>, \<open>/ws\<close> and \<open>/etc\<close>, the file \<open>/ws/a\<close>, and, where the flag
  is set, the link \<open>/ws/link\<close> to \<open>/etc\<close>.\<close>

definition ws :: path where
  "ws = [RootDir, Normal (lit ''ws'')]"

definition demo_canonicalize :: "bool \<Rightarrow> path \<Rightarrow> rstr + path" where
  "demo_canonicalize links p =
     (if p = [RootDir] \<or> p = ws \<or> p = ws @ [Normal (lit ''a'')] \<or> p = [RootDir, Normal (lit ''etc'')]
      then Inr p
      else if links \<and> p = ws @ [Normal (lit ''link'')] then Inr [RootDir, Normal (lit ''etc'')]
      else Inl (lit ''not found''))"

definition demo_fs :: "bool \<Rightarrow> unit Fs" where
  "demo_fs links = \<lparr>fs_current_dir = (\<lambda>w. Inr ws), fs_canonicalize = (\<lambda>w. demo_canonicalize links),
     fs_read_to_string = (\<lambda>w p. Inl (lit ''not found'')),
     fs_create_dir_all = (\<lambda>p w. (Inr (), w)), fs_write = (\<lambda>p c w. (Inr (), w))\<rparr>"

definition demo_enforcer :: PermissionEnforcer where
  "demo_enforcer = \<lparr>policy = PermissionPolicy_new WorkspaceWrite\<rparr>"

lemmas demo_defs = demo_fs_def demo_canonicalize_def ws_def fs_canon_def demo_enforcer_def
  PermissionPolicy_new_def

lemma demo_ws: "path_components (lit ''/ws'') = ws"
  by (simp add: path_components_def split_char_def ws_def lit_def)

lemma demo_canonical: "canonical_paths (fs_canon (demo_fs links) ())"
  by (auto simp: canonical_paths_def demo_defs split: if_splits)

lemma demo_no_links: "no_links_below (fs_canon (demo_fs False) ()) ws"
  by (auto simp: no_links_below_def demo_defs split: if_splits)

lemma demo_components:
  "path_components (lit ''b/c'') = [Normal (lit ''b''), Normal (lit ''c'')]"
  "path_components (lit ''link/passwd'') = [Normal (lit ''link''), Normal (lit ''passwd'')]"
  "path_components (lit ''new/../../x'') =
     [Normal (lit ''new''), ParentDir, ParentDir, Normal (lit ''x'')]"
  by (simp_all add: path_components_def split_char_def lit_def)

lemmas demo_eval = check_file_write_def is_within_workspace_def resolve_write_target_path_def
  rewrite_workspace_alias_path_def relative_path_within_root_def normalize_comparable_path_def
  resolved_root_of_def unwrap_or_def path_starts_with_def path_join_def path_parent_def
  path_file_name_def demo_ws demo_components

lemma demo_allowed:
  "check_file_write (fs_canon (demo_fs False) ()) demo_enforcer (lit ''b/c'') (lit ''/ws'') = Allowed"
  by (simp add: demo_eval demo_defs)

theorem allowed_write_stays_inside_witness:
  "\<exists>r. normalize_path_allow_missing (demo_fs False) () (lit ''b/c'') = Inr (ws @ r)
     \<and> ParentDir \<notin> set r"
proof (rule allowed_write_stays_inside[OF demo_canonical demo_no_links _ demo_ws _ _ _ demo_allowed])
  show "fs_current_dir (demo_fs False) () = Inr ws" by (simp add: demo_fs_def)
  show "fs_canon (demo_fs False) () ws = Some ws" by (simp add: demo_defs)
  show "ParentDir \<notin> set (path_components (lit ''b/c''))" by (simp add: demo_components)
  show "active_mode (policy demo_enforcer) = WorkspaceWrite" by (simp add: demo_defs)
qed

text \<open>both restrictions are needed, because the enforcer rewrites a path that does not exist yet
  before it resolves the parent: a new file under a symbolic link of the workspace is allowed and
  opened outside it, and so is a path that climbs out through a directory that does not exist,
  whose unresolved components the check compares one by one.\<close>

theorem workspace_write_escapes:
  "check_file_write (fs_canon (demo_fs True) ()) demo_enforcer (lit ''link/passwd'') (lit ''/ws'') = Allowed
   \<and> normalize_path_allow_missing (demo_fs True) () (lit ''link/passwd'') =
       Inr [RootDir, Normal (lit ''etc''), Normal (lit ''passwd'')]
   \<and> check_file_write (fs_canon (demo_fs False) ()) demo_enforcer (lit ''new/../../x'') (lit ''/ws'') = Allowed
   \<and> normalize_path_allow_missing (demo_fs False) () (lit ''new/../../x'') =
       Inr (ws @ [Normal (lit ''new''), ParentDir, ParentDir, Normal (lit ''x'')])"
  by (intro conjI; simp add: demo_eval demo_defs normalize_path_allow_missing_def absolute_candidate_def)

section \<open>Contents\<close>

text \<open>A world with a single text file, which every path names.\<close>

definition one_file_fs :: "rstr Fs" where
  "one_file_fs = \<lparr>fs_current_dir = (\<lambda>w. Inr ws), fs_canonicalize = (\<lambda>w p. Inr p),
     fs_read_to_string = (\<lambda>w p. Inr w), fs_create_dir_all = (\<lambda>p w. (Inr (), w)),
     fs_write = (\<lambda>p c w. (Inr (), c))\<rparr>"

text \<open>an edit that replaces one occurrence replaces exactly the leftmost one: everything before
  and after it is written back unchanged, and what was read is reported as the original.\<close>

theorem edit_file_replaces_first:
  assumes "edit_file fs p old new False w = (Inr r, w')"
  shows "\<exists>a b. edit_original r = a @ old @ b
      \<and> fs_read_to_string fs w (edit_path r) = Inr (edit_original r)
      \<and> fs_write fs (edit_path r) (a @ new @ b) w = (Inr (), w')
      \<and> old \<noteq> new
      \<and> (\<forall>x y. edit_original r = x @ old @ y \<longrightarrow> length a \<le> length x)"
proof -
  obtain absolute where n: "normalize_path fs w p = Inr absolute"
    using assms by (cases "normalize_path fs w p") (auto simp: edit_file_def)
  obtain original where o: "fs_read_to_string fs w absolute = Inr original"
    using assms n by (cases "fs_read_to_string fs w absolute") (auto simp: edit_file_def)
  have d: "old \<noteq> new" "contains old original"
    using assms n o by (auto simp: edit_file_def split: if_splits)
  obtain a b where s: "split_once old original = Some (a, b)"
    using d(2) by (auto simp: contains_def)
  have "edit_path r = absolute" "edit_original r = original"
    "fs_write fs absolute (a @ new @ b) w = (Inr (), w')"
    using assms n o d s
    by (auto simp: edit_file_def Let_def replace_first_def split: prod.splits sum.splits)
  then show ?thesis
    using d(1) o split_once_Some[OF s] split_once_leftmost[OF s] by auto
qed

theorem edit_file_replaces_first_witness:
  "\<exists>r a b. edit_file one_file_fs (lit ''f'') (lit ''b'') (lit ''xy'') False (lit ''abba'') =
       (Inr r, lit ''axyba'')
     \<and> edit_original r = a @ lit ''b'' @ b"
proof -
  obtain r where r: "edit_file one_file_fs (lit ''f'') (lit ''b'') (lit ''xy'') False (lit ''abba'') =
       (Inr r, lit ''axyba'')"
    by (simp add: edit_file_def one_file_fs_def normalize_path_def absolute_candidate_def
        path_components_def split_char_def contains_def replace_first_def Let_def lit_def)
  with edit_file_replaces_first[OF r] show ?thesis by blast
qed

text \<open>reading a file in consecutive windows loses and repeats nothing: a window of \<open>a + b\<close> lines
  is the window of \<open>a\<close> lines followed by the window of the next \<open>b\<close> lines.\<close>

theorem read_file_windows:
  assumes "read_file fs w p (Some off) (Some (a + b)) = Inr r"
  shows "\<exists>r1 r2. read_file fs w p (Some off) (Some a) = Inr r1
      \<and> read_file fs w p (Some (off + a)) (Some b) = Inr r2
      \<and> num_lines r = num_lines r1 + num_lines r2
      \<and> payload_content r =
          (if num_lines r1 = 0 then payload_content r2
           else if num_lines r2 = 0 then payload_content r1
           else payload_content r1 @ [10] @ payload_content r2)"
proof -
  obtain q where n: "normalize_path fs w p = Inr q"
    using assms by (cases "normalize_path fs w p") (auto simp: read_file_def)
  obtain c where c: "fs_read_to_string fs w q = Inr c"
    using assms n by (cases "fs_read_to_string fs w q") (auto simp: read_file_def)
  let ?ls = "str_lines c"
  have win: "\<exists>r. read_file fs w p (Some o') (Some k) = Inr r
      \<and> num_lines r = min k (length ?ls - o') \<and> payload_content r = join [10] (take k (drop o' ?ls))" for o' k
  proof -
    have "take (min (min o' (length ?ls) + k) (length ?ls) - min o' (length ?ls)) (drop (min o' (length ?ls)) ?ls)
        = take k (drop o' ?ls)"
      by (cases "o' \<le> length ?ls") (auto simp: min_def)
    moreover have "min (min o' (length ?ls) + k) (length ?ls) - min o' (length ?ls) = min k (length ?ls - o')"
      by (auto simp: min_def)
    ultimately show ?thesis using n c by (simp add: read_file_def unwrap_or_def Let_def)
  qed
  obtain r1 where r1: "read_file fs w p (Some off) (Some a) = Inr r1" "num_lines r1 = min a (length ?ls - off)"
      "payload_content r1 = join [10] (take a (drop off ?ls))" using win by blast
  obtain r2 where r2: "read_file fs w p (Some (off + a)) (Some b) = Inr r2"
      "num_lines r2 = min b (length ?ls - (off + a))"
      "payload_content r2 = join [10] (take b (drop (off + a) ?ls))" using win by blast
  have r: "num_lines r = min (a + b) (length ?ls - off)"
      "payload_content r = join [10] (take a (drop off ?ls) @ take b (drop (off + a) ?ls))"
    using win[of off "a + b"] assms by (auto simp: take_add add.commute)
  show ?thesis
    using r1 r2 r by (auto simp: join_append min_def)
qed

theorem read_file_windows_witness:
  "\<exists>r r2. read_file one_file_fs [97, 10, 98, 10, 99, 10, 100] (lit ''f'') (Some 1) (Some (1 + 1)) = Inr r
     \<and> read_file one_file_fs [97, 10, 98, 10, 99, 10, 100] (lit ''f'') (Some (1 + 1)) (Some 1) = Inr r2
     \<and> num_lines r = 2"
proof -
  obtain r where r: "read_file one_file_fs [97, 10, 98, 10, 99, 10, 100] (lit ''f'') (Some 1) (Some (1 + 1))
      = Inr r" "num_lines r = 2"
    by (simp add: read_file_def one_file_fs_def normalize_path_def absolute_candidate_def
        path_components_def split_char_def str_lines_def unwrap_or_def Let_def lit_def)
  with read_file_windows[OF r(1)] show ?thesis by blast
qed

text \<open>the pages of a search tile the results: a page of \<open>k\<close> items followed by the page that
  starts where it ended is the page of the joint length, and a page reports its limit exactly when
  items remain after it.\<close>

theorem apply_limit_pages:
  assumes "0 < k" "0 < k'"
  shows "fst (apply_limit items (Some k) (Some off)) @ fst (apply_limit items (Some k') (Some (off + k)))
      = fst (apply_limit items (Some (k + k')) (Some off))
    \<and> (fst (snd (apply_limit items (Some k) (Some off))) \<noteq> None \<longleftrightarrow> off + k < length items)"
  using assms by (auto simp: apply_limit_def unwrap_or_def Let_def take_add add.commute)

theorem apply_limit_pages_witness:
  "fst (apply_limit [1::nat, 2, 3, 4, 5] (Some 2) (Some 1))
     @ fst (apply_limit [1::nat, 2, 3, 4, 5] (Some 1) (Some 3)) = [2, 3, 4]"
  using apply_limit_pages[of 2 1 "[1::nat, 2, 3, 4, 5]" 1] by (simp add: apply_limit_def unwrap_or_def)

end
