(* ===== verification/Sse.thy ===== *)
theory Sse
  imports Rust_Str
begin

text \<open>
  The incremental server-sent-events parser of \<open>runtime/src/sse.rs\<close>: text arrives in chunks of any
  size, complete lines are processed, an empty line delivers the event that was collected.
\<close>

record SseEvent =
  ev_event :: "rstr option"
  ev_data :: rstr
  ev_id :: "rstr option"
  ev_retry :: "u64 option"

record IncrementalSseParser =
  buffer :: rstr
  event_name :: "rstr option"
  data_lines :: "rstr list"
  sse_id :: "rstr option"
  retry :: "u64 option"

definition IncrementalSseParser_new :: IncrementalSseParser where
  "IncrementalSseParser_new =
     \<lparr>buffer = [], event_name = None, data_lines = [], sse_id = None, retry = None\<rparr>"

definition take_event :: "IncrementalSseParser \<Rightarrow> SseEvent list \<times> IncrementalSseParser" where
  "take_event p =
     (if data_lines p = [] \<and> event_name p = None \<and> sse_id p = None \<and> retry p = None then ([], p)
      else ([\<lparr>ev_event = event_name p, ev_data = join [10] (data_lines p), ev_id = sse_id p,
             ev_retry = retry p\<rparr>],
            p\<lparr>data_lines := [], event_name := None, sse_id := None, retry := None\<rparr>))"

text \<open>The field name and its value: one space after the colon is dropped.\<close>

definition field_of_line :: "rstr \<Rightarrow> rstr \<times> rstr" where
  "field_of_line line =
     (case split_once [58] line of
        None \<Rightarrow> (line, [])
      | Some (field, v) \<Rightarrow> (field, unwrap_or v (strip_prefix [32] v)))"

definition apply_field :: "rstr \<Rightarrow> rstr \<Rightarrow> IncrementalSseParser \<Rightarrow> IncrementalSseParser" where
  "apply_field field v p =
     (if field = lit ''event'' then p\<lparr>event_name := Some v\<rparr>
      else if field = lit ''data'' then p\<lparr>data_lines := data_lines p @ [v]\<rparr>
      else if field = lit ''id'' then p\<lparr>sse_id := Some v\<rparr>
      else if field = lit ''retry'' then p\<lparr>retry := parse_u64 v\<rparr>
      else p)"

definition process_line ::
  "rstr \<Rightarrow> IncrementalSseParser \<Rightarrow> SseEvent list \<times> IncrementalSseParser" where
  "process_line line p =
     (if line = [] then take_event p
      else if starts_with [58] line then ([], p)
      else
        (let (field, v) = field_of_line line in
         ([], apply_field field v p)))"

lemma process_line_buffer [simp]: "buffer (snd (process_line line p)) = buffer p"
  by (simp add: process_line_def apply_field_def take_event_def split: prod.split)

definition pop_cr :: "rstr \<Rightarrow> rstr" where
  "pop_cr line = (if line \<noteq> [] \<and> last line = 13 then butlast line else line)"

lemma split_once_shorter: "split_once [d] s = Some (a, b) \<Longrightarrow> length b < length s"
  by (drule split_once_Some) simp

function drain :: "IncrementalSseParser \<Rightarrow> SseEvent list \<times> IncrementalSseParser" where
  "drain p =
     (case split_once [10] (buffer p) of
        None \<Rightarrow> ([], p)
      | Some (line, rest) \<Rightarrow>
          (let (ev, p') = process_line (pop_cr line) (p\<lparr>buffer := rest\<rparr>);
               (evs, p'') = drain p' in
           (ev @ evs, p'')))"
  by pat_completeness auto
termination
proof (relation "measure (\<lambda>p. length (buffer p))", simp, clarsimp)
  fix p line rest ev p'
  assume s: "split_once [10] (buffer p) = Some (line, rest)"
    and pl: "(ev, p') = process_line (pop_cr line) (p\<lparr>buffer := rest\<rparr>)"
  have "buffer p' = rest" using process_line_buffer[of "pop_cr line" "p\<lparr>buffer := rest\<rparr>"] pl[symmetric] by simp
  then show "length (buffer p') < length (buffer p)" using split_once_shorter[OF s] by simp
qed

declare drain.simps [simp del]

definition push_chunk ::
  "IncrementalSseParser \<Rightarrow> rstr \<Rightarrow> SseEvent list \<times> IncrementalSseParser" where
  "push_chunk p chunk = drain (p\<lparr>buffer := buffer p @ chunk\<rparr>)"

definition sse_finish :: "IncrementalSseParser \<Rightarrow> SseEvent list \<times> IncrementalSseParser" where
  "sse_finish p =
     (let (evs, p1) =
            (if buffer p = [] then ([], p)
             else process_line (trim_end_by (\<lambda>c. c = 13) (buffer p)) (p\<lparr>buffer := []\<rparr>));
          (ev, p2) = take_event p1 in
      (evs @ ev, p2))"

section \<open>Chunks do not matter\<close>

lemma drain_None: "10 \<notin> set (buffer p) \<Longrightarrow> drain p = ([], p)"
proof -
  assume "10 \<notin> set (buffer p)"
  then have "split_once [10] (buffer p) = None"
    by (auto simp: split_once_None_iff contains_iff)
  then show ?thesis by (subst drain.simps) simp
qed

lemma drain_line:
  "10 \<notin> set line \<Longrightarrow> buffer p = line @ 10 # rest \<Longrightarrow>
     drain p = (let (ev, p') = process_line (pop_cr line) (p\<lparr>buffer := rest\<rparr>);
                    (evs, p'') = drain p' in (ev @ evs, p''))"
  by (subst drain.simps) (simp add: split_once_char)

lemma process_line_with_buffer:
  "process_line line (p\<lparr>buffer := b\<rparr>) =
     (fst (process_line line p), (snd (process_line line p))\<lparr>buffer := b\<rparr>)"
  by (simp add: process_line_def apply_field_def take_event_def split: prod.split)

lemma drain_no_newline: "10 \<notin> set (buffer (snd (drain p)))"
proof (induction p rule: drain.induct)
  case (1 p)
  show ?case
  proof (cases "split_once [10] (buffer p)")
    case None
    then show ?thesis by (subst drain.simps) (simp add: split_once_char_None)
  next
    case (Some lr)
    obtain line rest where lr: "lr = (line, rest)" by (cases lr)
    obtain ev p' where pl: "process_line (pop_cr line) (p\<lparr>buffer := rest\<rparr>) = (ev, p')"
      by (cases "process_line (pop_cr line) (p\<lparr>buffer := rest\<rparr>)")
    have "10 \<notin> set (buffer (snd (drain p')))"
      by (rule "1.IH"[OF Some lr[symmetric] pl[symmetric] refl])
    then show ?thesis
      using Some lr pl by (subst drain.simps) (cases "drain p'"; simp)
  qed
qed

lemma drain_append:
  "drain (p\<lparr>buffer := buffer p @ b\<rparr>) =
     (let (e1, p1) = drain p; (e2, p2) = drain (p1\<lparr>buffer := buffer p1 @ b\<rparr>) in (e1 @ e2, p2))"
proof (induction p rule: drain.induct)
  case (1 p)
  show ?case
  proof (cases "split_once [10] (buffer p)")
    case None
    then show ?thesis by (subst (2) drain.simps) (simp split: prod.split)
  next
    case (Some lr)
    obtain line rest where lr: "lr = (line, rest)" by (cases lr)
    obtain ev p' where pl: "process_line (pop_cr line) (p\<lparr>buffer := rest\<rparr>) = (ev, p')"
      by (cases "process_line (pop_cr line) (p\<lparr>buffer := rest\<rparr>)")
    have bp: "buffer p = line @ 10 # rest" "10 \<notin> set line"
      using split_once_char_Some[OF Some[unfolded lr]] by auto
    have b': "buffer p' = rest"
      using process_line_buffer[of "pop_cr line" "p\<lparr>buffer := rest\<rparr>"] pl by simp
    have p': "p' = (snd (process_line (pop_cr line) p))\<lparr>buffer := rest\<rparr>"
        "ev = fst (process_line (pop_cr line) p)"
      using pl process_line_with_buffer[of "pop_cr line" rest p] by auto
    have pl': "process_line (pop_cr line) (p\<lparr>buffer := rest @ b\<rparr>) = (ev, p'\<lparr>buffer := buffer p' @ b\<rparr>)"
      using process_line_with_buffer[of "pop_cr line" "rest @ b" p] by (simp add: p')
    note IH = "1.IH"[OF Some lr[symmetric] pl[symmetric] refl]
    have "drain (p\<lparr>buffer := buffer p @ b\<rparr>) =
        (let (evs, q) = drain (p'\<lparr>buffer := buffer p' @ b\<rparr>) in (ev @ evs, q))"
      by (subst drain_line[of line _ "rest @ b"]) (simp_all add: bp pl')
    moreover have "drain p = (let (evs, q) = drain p' in (ev @ evs, q))"
      by (subst drain_line[of line _ rest]) (simp_all add: bp pl)
    ultimately show ?thesis using IH by (simp add: Let_def split: prod.split)
  qed
qed

text \<open>
  The interface a caller of a streaming parser relies on: a step consumes a chunk, and cutting a
  chunk in two changes nothing.
\<close>

locale chunked_parser =
  fixes push :: "'s \<Rightarrow> 'c list \<Rightarrow> 'e list \<times> 's"
    and ready :: "'s \<Rightarrow> bool"
  assumes push_nil: "ready s \<Longrightarrow> push s [] = ([], s)"
    and push_ready: "ready (snd (push s c))"
    and push_append: "push s (a @ b) =
      (let (e1, s1) = push s a; (e2, s2) = push s1 b in (e1 @ e2, s2))"
begin

fun feed :: "'s \<Rightarrow> 'c list list \<Rightarrow> 'e list \<times> 's" where
  "feed s [] = ([], s)"
| "feed s (c # cs) = (let (e1, s1) = push s c; (e2, s2) = feed s1 cs in (e1 @ e2, s2))"

lemma feed_concat: "ready s \<Longrightarrow> feed s cs = push s (concat cs)"
proof (induction cs arbitrary: s)
  case Nil
  then show ?case by (simp add: push_nil)
next
  case (Cons c cs)
  obtain e1 s1 where c: "push s c = (e1, s1)" by (cases "push s c")
  have "ready s1" using push_ready[of s c] c by simp
  from Cons.IH[OF this] show ?case by (simp add: push_append c)
qed

lemma chunking_irrelevant:
  "ready s \<Longrightarrow> concat cs = concat cs' \<Longrightarrow> feed s cs = feed s cs'"
  by (simp add: feed_concat)

end

definition sse_ready :: "IncrementalSseParser \<Rightarrow> bool" where
  "sse_ready p \<longleftrightarrow> 10 \<notin> set (buffer p)"

interpretation sse: chunked_parser push_chunk sse_ready
proof
  show "sse_ready p \<Longrightarrow> push_chunk p [] = ([], p)" for p
    by (simp add: push_chunk_def sse_ready_def drain_None)
  show "sse_ready (snd (push_chunk p c))" for p c
    by (simp add: push_chunk_def sse_ready_def drain_no_newline)
  show "push_chunk p (a @ b) =
      (let (e1, p1) = push_chunk p a; (e2, p2) = push_chunk p1 b in (e1 @ e2, p2))" for p a b
    using drain_append[of "p\<lparr>buffer := buffer p @ a\<rparr>" b]
    by (simp add: push_chunk_def)
qed

text \<open>A whole stream: the chunks one after the other, then \<open>finish\<close>.\<close>

fun push_chunks ::
  "IncrementalSseParser \<Rightarrow> rstr list \<Rightarrow> SseEvent list \<times> IncrementalSseParser" where
  "push_chunks p [] = ([], p)"
| "push_chunks p (c # cs) =
     (let (e1, p1) = push_chunk p c; (e2, p2) = push_chunks p1 cs in (e1 @ e2, p2))"

definition sse_events :: "rstr list \<Rightarrow> SseEvent list" where
  "sse_events chunks =
     (let (e1, p) = push_chunks IncrementalSseParser_new chunks in e1 @ fst (sse_finish p))"

lemma push_chunks_feed: "push_chunks p cs = sse.feed p cs"
  by (induction cs arbitrary: p) auto

lemma new_ready: "sse_ready IncrementalSseParser_new"
  by (simp add: sse_ready_def IncrementalSseParser_new_def)

text \<open>C7: how the network cuts a stream into chunks makes no difference: two sequences of chunks with
  the same text deliver the same events, in the same order, and leave the parser in the same
  state - even when a cut falls inside a line, a field name or a line ending.\<close>

theorem sse_chunking_irrelevant:
  assumes "concat cs = concat cs'"
  shows "push_chunks IncrementalSseParser_new cs = push_chunks IncrementalSseParser_new cs'
    \<and> sse_events cs = sse_events cs'"
  using sse.chunking_irrelevant[OF new_ready assms] by (simp add: push_chunks_feed sse_events_def)

theorem sse_chunking_irrelevant_witness:
  "sse_events [lit ''data: a'' @ [10], [10] @ lit ''da'', lit ''ta: b'' @ [13, 10]] =
   sse_events [lit ''data: a'' @ [10, 10] @ lit ''data: b'' @ [13, 10]]"
  by (rule conjunct2[OF sse_chunking_irrelevant]) (simp add: lit_def)

section \<open>Reading what a server writes\<close>

text \<open>The text form of an event in the protocol: one \<open>data\<close> line for every line of its data.\<close>

definition sse_field :: "string \<Rightarrow> rstr \<Rightarrow> rstr" where
  "sse_field name v = lit name @ [58, 32] @ v @ [10]"

definition sse_encode :: "SseEvent \<Rightarrow> rstr" where
  "sse_encode e =
     (case ev_event e of None \<Rightarrow> [] | Some n \<Rightarrow> sse_field ''event'' n)
     @ (case ev_id e of None \<Rightarrow> [] | Some i \<Rightarrow> sse_field ''id'' i)
     @ (case ev_retry e of None \<Rightarrow> [] | Some r \<Rightarrow> sse_field ''retry'' (show_nat (unat r)))
     @ concat (map (sse_field ''data'') (split_char 10 (ev_data e)))
     @ [10]"

definition one_line :: "rstr \<Rightarrow> bool" where
  "one_line s \<longleftrightarrow> 10 \<notin> set s \<and> 13 \<notin> set s"

definition sse_sendable :: "SseEvent \<Rightarrow> bool" where
  "sse_sendable e \<longleftrightarrow>
     (case ev_event e of None \<Rightarrow> True | Some n \<Rightarrow> one_line n)
     \<and> (case ev_id e of None \<Rightarrow> True | Some i \<Rightarrow> one_line i)
     \<and> 13 \<notin> set (ev_data e)"

lemma split_char_acc_nonempty [simp]: "split_char_acc d acc s \<noteq> []"
  by (induction d acc s rule: split_char_acc.induct) auto

lemma join_split_char_acc: "join [d] (split_char_acc d acc s) = acc @ s"
  by (induction d acc s rule: split_char_acc.induct) (auto simp: join_Cons)

lemma split_char_acc_pieces:
  "d \<notin> set acc \<Longrightarrow> list_all (\<lambda>l. d \<notin> set l \<and> set l \<subseteq> set acc \<union> set s) (split_char_acc d acc s)"
proof (induction d acc s rule: split_char_acc.induct)
  case (1 d acc)
  then show ?case by simp
next
  case (2 d acc c cs)
  show ?case
  proof (cases "c = d")
    case True
    then have "list_all (\<lambda>l. d \<notin> set l \<and> set l \<subseteq> set [] \<union> set cs) (split_char_acc d [] cs)"
      by (intro "2.IH"(1)) simp_all
    then show ?thesis using True 2(3) by (auto simp: list_all_iff)
  next
    case False
    then have "list_all (\<lambda>l. d \<notin> set l \<and> set l \<subseteq> set (acc @ [c]) \<union> set cs) (split_char_acc d (acc @ [c]) cs)"
      using 2(3) by (intro "2.IH"(2)) auto
    then show ?thesis using False by (auto simp: list_all_iff)
  qed
qed

definition plain_name :: "string \<Rightarrow> bool" where
  "plain_name name \<longleftrightarrow> name \<in> {''event'', ''data'', ''id'', ''retry''}"

lemma process_field:
  assumes "plain_name name"
  shows "process_line (lit name @ [58, 32] @ v) p = ([], apply_field (lit name) v p)"
proof -
  have n: "58 \<notin> set (lit name)" "lit name \<noteq> []" "hd (lit name) \<noteq> 58"
    using assms by (auto simp: plain_name_def lit_def)
  have "\<not> starts_with [58] (lit name @ [58, 32] @ v)"
    using n(2,3) by (cases "lit name") (auto simp: starts_with_def)
  moreover have "field_of_line (lit name @ [58, 32] @ v) = (lit name, v)"
    using split_once_char[OF n(1), of "32 # v"] by (simp add: field_of_line_def unwrap_or_def)
  ultimately show ?thesis using n(2) by (simp add: process_line_def)
qed

lemma apply_field_buffer [simp]: "buffer (apply_field f v p) = buffer p"
  by (simp add: apply_field_def)

lemma drain_field:
  assumes "plain_name name" "one_line v" "buffer p = sse_field name v @ rest"
  shows "drain p = drain (apply_field (lit name) v (p\<lparr>buffer := rest\<rparr>))"
proof -
  let ?line = "lit name @ [58, 32] @ v"
  have n: "10 \<notin> set (lit name)" using assms(1) by (auto simp: plain_name_def lit_def)
  have "pop_cr ?line = ?line"
    using assms(2) by (cases v rule: rev_cases) (auto simp: pop_cr_def one_line_def)
  moreover have "10 \<notin> set ?line" using n assms(2) by (simp add: one_line_def)
  moreover have "buffer p = ?line @ 10 # rest" using assms(3) by (simp add: sse_field_def)
  ultimately show ?thesis
    by (subst drain_line[of ?line _ rest]) (simp_all add: process_field[OF assms(1)] split: prod.split del: append.simps)
qed

lemma drain_data:
  "list_all one_line ls \<Longrightarrow> buffer p = concat (map (sse_field ''data'') ls) @ rest \<Longrightarrow>
     drain p = drain (p\<lparr>buffer := rest, data_lines := data_lines p @ ls\<rparr>)"
proof (induction ls arbitrary: p)
  case Nil
  then have "p\<lparr>buffer := rest, data_lines := data_lines p @ []\<rparr> = p" by (cases p) auto
  then show ?case by simp
next
  case (Cons l ls)
  let ?p = "apply_field (lit ''data'') l (p\<lparr>buffer := concat (map (sse_field ''data'') ls) @ rest\<rparr>)"
  have "drain p = drain ?p"
    using Cons.prems by (intro drain_field) (simp_all add: plain_name_def)
  also have "\<dots> = drain (?p\<lparr>buffer := rest, data_lines := data_lines ?p @ ls\<rparr>)"
    using Cons.prems by (intro Cons.IH) simp_all
  finally show ?case by (simp add: apply_field_def)
qed

lemma drain_blank:
  "buffer p = 10 # rest \<Longrightarrow>
     drain p = (let (ev, p') = take_event (p\<lparr>buffer := rest\<rparr>); (evs, q) = drain p' in (ev @ evs, q))"
  by (subst drain_line[of "[]" _ rest]) (simp_all add: pop_cr_def process_line_def)

lemma drain_opt:
  assumes "plain_name name" "case v of None \<Rightarrow> True | Some x \<Rightarrow> one_line (f x)"
    and "buffer p = (case v of None \<Rightarrow> [] | Some x \<Rightarrow> sse_field name (f x)) @ rest"
  shows "drain p = drain (case v of None \<Rightarrow> p\<lparr>buffer := rest\<rparr>
    | Some x \<Rightarrow> apply_field (lit name) (f x) (p\<lparr>buffer := rest\<rparr>))"
proof (cases v)
  case None
  with assms(3) have "p\<lparr>buffer := rest\<rparr> = p" by (cases p) auto
  with None show ?thesis by simp
next
  case (Some x)
  with assms show ?thesis by (simp add: drain_field)
qed

lemma one_line_show_nat: "one_line (show_nat n)"
  using show_nat_digits[of n] by (auto simp: one_line_def is_digit_def)

lemma drain_encoded:
  assumes "sse_sendable e"
  shows "drain (IncrementalSseParser_new\<lparr>buffer := sse_encode e @ rest\<rparr>) =
    (let (evs, q) = drain (IncrementalSseParser_new\<lparr>buffer := rest\<rparr>) in (e # evs, q))"
proof -
  let ?n = IncrementalSseParser_new
  let ?ls = "split_char 10 (ev_data e)"
  let ?r3 = "concat (map (sse_field ''data'') ?ls) @ 10 # rest"
  let ?r2 = "(case ev_retry e of None \<Rightarrow> [] | Some r \<Rightarrow> sse_field ''retry'' (show_nat (unat r))) @ ?r3"
  let ?r1 = "(case ev_id e of None \<Rightarrow> [] | Some i \<Rightarrow> sse_field ''id'' i) @ ?r2"
  have ok: "case ev_event e of None \<Rightarrow> True | Some n \<Rightarrow> one_line n"
    "case ev_id e of None \<Rightarrow> True | Some i \<Rightarrow> one_line i" "13 \<notin> set (ev_data e)"
    using assms by (simp_all add: sse_sendable_def)
  have ls: "list_all one_line ?ls" "?ls \<noteq> []" "join [10] ?ls = ev_data e"
    using split_char_acc_pieces[of 10 "[]" "ev_data e"] ok(3)
    by (auto simp: split_char_def list_all_iff one_line_def join_split_char_acc)
  have "drain (?n\<lparr>buffer := sse_encode e @ rest\<rparr>) =
      drain (?n\<lparr>buffer := ?r1, event_name := ev_event e\<rparr>)"
    using ok(1) drain_opt[where name = "''event''" and v = "ev_event e" and f = "\<lambda>x. x" and rest = ?r1 and p = "?n\<lparr>buffer := sse_encode e @ rest\<rparr>"]
    by (cases "ev_event e")
      (simp_all add: plain_name_def sse_encode_def apply_field_def IncrementalSseParser_new_def)
  also have "\<dots> = drain (?n\<lparr>buffer := ?r2, event_name := ev_event e, sse_id := ev_id e\<rparr>)"
    using ok(2) drain_opt[where name = "''id''" and v = "ev_id e" and f = "\<lambda>x. x" and rest = ?r2 and p = "?n\<lparr>buffer := ?r1, event_name := ev_event e\<rparr>"]
    by (cases "ev_id e") (simp_all add: plain_name_def apply_field_def IncrementalSseParser_new_def)
  also have "\<dots> = drain (?n\<lparr>buffer := ?r3, event_name := ev_event e, sse_id := ev_id e, retry := ev_retry e\<rparr>)"
    using drain_opt[where name = "''retry''" and v = "ev_retry e" and f = "\<lambda>r. show_nat (unat r)" and rest = ?r3 and p = 
        "?n\<lparr>buffer := ?r2, event_name := ev_event e, sse_id := ev_id e\<rparr>"] one_line_show_nat
    by (cases "ev_retry e")
      (simp_all add: plain_name_def apply_field_def IncrementalSseParser_new_def parse_u64_show)
  also have "\<dots> = drain (?n\<lparr>buffer := 10 # rest, event_name := ev_event e, sse_id := ev_id e,
      retry := ev_retry e, data_lines := ?ls\<rparr>)"
    using ls(1) by (subst drain_data[where rest = "10 # rest" and ls = ?ls])
      (simp_all add: IncrementalSseParser_new_def)
  also have "\<dots> = (let (evs, q) = drain (?n\<lparr>buffer := rest\<rparr>) in (e # evs, q))"
    using ls(2,3) by (subst drain_blank)
      (auto simp: take_event_def IncrementalSseParser_new_def Let_def split: prod.split)
  finally show ?thesis .
qed

text \<open>what a server sends is what the client reads: the protocol text of any sequence of events
  whose names and ids are single lines and whose data has no carriage return is parsed back into
  exactly these events, however it is cut into chunks.\<close>

theorem sse_round_trip:
  assumes "list_all sse_sendable es" "concat cs = concat (map sse_encode es)"
  shows "push_chunks IncrementalSseParser_new cs = (es, IncrementalSseParser_new)"
proof -
  have "drain (IncrementalSseParser_new\<lparr>buffer := concat (map sse_encode es)\<rparr>) = (es, IncrementalSseParser_new)"
    using assms(1)
  proof (induction es)
    case Nil
    then show ?case by (simp add: drain_None IncrementalSseParser_new_def)
  next
    case (Cons e es)
    then show ?case by (simp add: drain_encoded)
  qed
  then show ?thesis
    using sse.feed_concat[OF new_ready, of cs] assms(2)
    by (simp add: push_chunks_feed push_chunk_def) (simp add: IncrementalSseParser_new_def)
qed

definition sample_event :: SseEvent where
  "sample_event = \<lparr>ev_event = Some (lit ''message''), ev_data = [97, 10, 10, 98], ev_id = None,
     ev_retry = Some 5\<rparr>"

theorem sse_round_trip_witness:
  "push_chunks IncrementalSseParser_new (map (\<lambda>c. [c]) (sse_encode sample_event)) =
     ([sample_event], IncrementalSseParser_new)"
  by (rule sse_round_trip) (simp_all add: sse_sendable_def sample_event_def one_line_def lit_def)

end
