(* ===== verification/Lifecycle.thy ===== *)
theory Lifecycle
  imports Rust_Str
begin

text \<open>
  The snapshots of \<open>runtime/src/lifecycle.rs\<close> that the registries attach to their entries: where
  an entry lives, and which state it is in, with the advice given after a failure.
\<close>

definition PROCESS_LOCAL_TRUTH_LAYER :: rstr where
  "PROCESS_LOCAL_TRUTH_LAYER = lit ''process_local_v1''"

definition DAEMON_LOCAL_TRUTH_LAYER :: rstr where
  "DAEMON_LOCAL_TRUTH_LAYER = lit ''daemon_local_v1''"

record LifecycleContractSnapshot =
  truth_layer :: rstr
  operator_plane :: rstr
  persistence :: rstr

definition process_local_foundation :: LifecycleContractSnapshot where
  "process_local_foundation =
     \<lparr>truth_layer = PROCESS_LOCAL_TRUTH_LAYER,
      operator_plane = lit ''local_runtime_foundation_v1'',
      persistence = lit ''process_memory_only_v1''\<rparr>"

definition daemon_local_thread :: LifecycleContractSnapshot where
  "daemon_local_thread =
     \<lparr>truth_layer = DAEMON_LOCAL_TRUTH_LAYER,
      operator_plane = lit ''local_loopback_operator_v1'',
      persistence = lit ''workspace_sqlite_v1''\<rparr>"

record ThreadContractSnapshot =
  thread_lifecycle :: LifecycleContractSnapshot
  attach_api :: rstr

definition ThreadContractSnapshot_current :: ThreadContractSnapshot where
  "ThreadContractSnapshot_current =
     \<lparr>thread_lifecycle = daemon_local_thread, attach_api = lit ''/v1/threads''\<rparr>"

record RecoveryGuidanceSnapshot =
  recovery_failure_kind :: rstr
  recovery_kind :: rstr
  recommended_actions :: "rstr list"

record LifecycleStateSnapshot =
  lc_status :: rstr
  lc_failure_kind :: "rstr option"
  lc_recovery :: "RecoveryGuidanceSnapshot option"

definition lifecycle_status :: "rstr \<Rightarrow> LifecycleStateSnapshot" where
  "lifecycle_status s = \<lparr>lc_status = s, lc_failure_kind = None, lc_recovery = None\<rparr>"

definition with_recovery :: "rstr \<Rightarrow> RecoveryGuidanceSnapshot \<Rightarrow> LifecycleStateSnapshot" where
  "with_recovery s r =
     \<lparr>lc_status = s, lc_failure_kind = Some (recovery_failure_kind r), lc_recovery = Some r\<rparr>"

definition process_local_task :: "rstr \<Rightarrow> LifecycleStateSnapshot" where
  "process_local_task s = lifecycle_status s"

definition process_local_task_failure :: LifecycleStateSnapshot where
  "process_local_task_failure =
     with_recovery (lit ''failed'')
       \<lparr>recovery_failure_kind = lit ''process_local_task_failed'',
        recovery_kind = lit ''inspect_output_and_retry'',
        recommended_actions =
          [lit ''inspect task output and last_error in the current runtime'',
           lit ''retry the task from the same process-local operator surface when safe'']\<rparr>"

definition process_local_task_error :: "rstr \<Rightarrow> LifecycleStateSnapshot" where
  "process_local_task_error s =
     with_recovery s
       \<lparr>recovery_failure_kind = lit ''process_local_task_conflict'',
        recovery_kind = lit ''resolve_task_state_and_retry'',
        recommended_actions =
          [lit ''inspect the task state and last_error in the current runtime'',
           lit ''resolve the conflicting operator action before retrying'']\<rparr>"

definition process_local_team :: "rstr \<Rightarrow> LifecycleStateSnapshot" where
  "process_local_team s = lifecycle_status s"

definition process_local_team_error :: "rstr \<Rightarrow> LifecycleStateSnapshot" where
  "process_local_team_error s =
     with_recovery s
       \<lparr>recovery_failure_kind = lit ''process_local_team_conflict'',
        recovery_kind = lit ''resolve_team_state_and_retry'',
        recommended_actions =
          [lit ''inspect the current team state in the active runtime'',
           lit ''resolve the conflicting team action before retrying'']\<rparr>"

definition process_local_cron_enabled :: LifecycleStateSnapshot where
  "process_local_cron_enabled = lifecycle_status (lit ''enabled'')"

definition process_local_cron_disabled :: LifecycleStateSnapshot where
  "process_local_cron_disabled = lifecycle_status (lit ''disabled'')"

definition process_local_cron_deleted :: LifecycleStateSnapshot where
  "process_local_cron_deleted = lifecycle_status (lit ''deleted'')"

definition process_local_cron_error :: "rstr \<Rightarrow> LifecycleStateSnapshot" where
  "process_local_cron_error s =
     with_recovery s
       \<lparr>recovery_failure_kind = lit ''process_local_cron_conflict'',
        recovery_kind = lit ''adjust_cron_state_and_retry'',
        recommended_actions =
          [lit ''inspect the cron entry state in the current runtime'',
           lit ''re-enable or update the cron entry before retrying'']\<rparr>"

definition daemon_thread :: "rstr \<Rightarrow> RecoveryGuidanceSnapshot option \<Rightarrow> LifecycleStateSnapshot" where
  "daemon_thread s r =
     (case r of Some g \<Rightarrow> with_recovery (lit ''interrupted'') g | None \<Rightarrow> lifecycle_status s)"

lemmas lifecycle_defs = lifecycle_status_def with_recovery_def process_local_task_def
  process_local_task_failure_def process_local_task_error_def process_local_team_def
  process_local_team_error_def process_local_cron_enabled_def process_local_cron_disabled_def
  process_local_cron_deleted_def process_local_cron_error_def

lemma lc_status_simps [simp]:
  "lc_status (lifecycle_status s) = s" "lc_status (with_recovery s r) = s"
  "lc_status (process_local_task s) = s" "lc_status process_local_task_failure = lit ''failed''"
  "lc_status (process_local_task_error s) = s" "lc_status (process_local_team s) = s"
  "lc_status (process_local_team_error s) = s"
  "lc_status process_local_cron_enabled = lit ''enabled''"
  "lc_status process_local_cron_disabled = lit ''disabled''"
  "lc_status (process_local_cron_error s) = s"
  by (simp_all add: lifecycle_defs)

text \<open>A snapshot is consistent when its failure kind is the one of its recovery advice.\<close>

definition lifecycle_consistent :: "LifecycleStateSnapshot \<Rightarrow> bool" where
  "lifecycle_consistent l \<longleftrightarrow> lc_failure_kind l = map_option recovery_failure_kind (lc_recovery l)"

lemma lifecycle_consistent_simps [simp]:
  "lifecycle_consistent (lifecycle_status s)" "lifecycle_consistent (with_recovery s r)"
  "lifecycle_consistent (process_local_task s)" "lifecycle_consistent process_local_task_failure"
  "lifecycle_consistent (process_local_task_error s)" "lifecycle_consistent (process_local_team s)"
  "lifecycle_consistent (process_local_team_error s)"
  "lifecycle_consistent process_local_cron_enabled" "lifecycle_consistent process_local_cron_disabled"
  "lifecycle_consistent (process_local_cron_error s)"
  by (simp_all add: lifecycle_consistent_def lifecycle_defs)

end
