(* ===== verification/Registry.thy ===== *)
theory Registry
  imports Lifecycle "HOL-Library.Product_Lexorder"
begin

text \<open>
  What the three in-memory registries share (\<open>task_registry.rs\<close>, \<open>team_cron_registry.rs\<close>): a hash
  map from ids to entries with a counter, ids that carry the counter, access to one entry, and the
  sorted listing. The entries of the hash map are a list whose order means nothing; the clock is an
  argument.
\<close>

record 'a registry =
  entries :: "(rstr \<times> 'a) list"
  counter :: u64

definition registry_new :: "'a registry" where
  "registry_new = \<lparr>entries = [], counter = 0\<rparr>"

definition reg_get :: "'a registry \<Rightarrow> rstr \<Rightarrow> 'a option" where
  "reg_get r k = map_of (entries r) k"

definition reg_insert :: "'a registry \<Rightarrow> rstr \<Rightarrow> 'a \<Rightarrow> 'a registry" where
  "reg_insert r k v = r\<lparr>entries := (k, v) # filter (\<lambda>e. fst e \<noteq> k) (entries r)\<rparr>"

definition reg_remove :: "'a registry \<Rightarrow> rstr \<Rightarrow> 'a option \<times> 'a registry" where
  "reg_remove r k = (reg_get r k, r\<lparr>entries := filter (\<lambda>e. fst e \<noteq> k) (entries r)\<rparr>)"

definition reg_len :: "'a registry \<Rightarrow> nat" where
  "reg_len r = length (entries r)"

definition reg_is_empty :: "'a registry \<Rightarrow> bool" where
  "reg_is_empty r \<longleftrightarrow> reg_len r = 0"

text \<open>
  \<open>get_mut(id).ok_or_else(..)?\<close> and what follows: the closure sees the entry, returns the result of
  the operation and the entry as it leaves it.
\<close>

definition with_entry ::
  "'a registry \<Rightarrow> rstr \<Rightarrow> rstr \<Rightarrow> ('a \<Rightarrow> (rstr + 'b) \<times> 'a) \<Rightarrow> (rstr + 'b) \<times> 'a registry" where
  "with_entry r k not_found f =
     (case reg_get r k of
        None \<Rightarrow> (Inl not_found, r)
      | Some v \<Rightarrow>
          (let (res, v') = f v in
           (res, r\<lparr>entries := map (\<lambda>(k', u). if k' = k then (k', v') else (k', u)) (entries r)\<rparr>)))"

text \<open>\<open>format!("{prefix}_{:08x}_{}", ts, counter)\<close> and the number after the last underscore.\<close>

definition make_id :: "string \<Rightarrow> u64 \<Rightarrow> u64 \<Rightarrow> rstr" where
  "make_id prefix ts n =
     lit prefix @ [95] @ pad_left 8 48 (show_hex (unat ts)) @ [95] @ show_nat (unat n)"

definition id_counter :: "rstr \<Rightarrow> u64" where
  "id_counter i = unwrap_or 0 (parse_u64 (after_last (\<lambda>c. c = 95) i))"

definition reg_list :: "('a \<Rightarrow> u64) \<Rightarrow> ('a \<Rightarrow> rstr) \<Rightarrow> ('a \<Rightarrow> bool) \<Rightarrow> 'a registry \<Rightarrow> 'a list" where
  "reg_list created id_of P r =
     sort_key (\<lambda>v. (created v, id_counter (id_of v))) (filter P (map snd (entries r)))"

section \<open>Ids\<close>

lemma id_counter_make_id [simp]: "id_counter (make_id prefix ts n) = n"
proof -
  have "\<forall>c \<in> set (show_nat (unat n)). \<not> c = 95"
    using show_nat_digits[of "unat n"] by (auto simp: is_digit_def)
  then have "after_last (\<lambda>c. c = 95) (make_id prefix ts n) = show_nat (unat n)"
    using after_last_append[of "\<lambda>c. c = 95" 95 "lit prefix @ [95] @ pad_left 8 48 (show_hex (unat ts))"
        "show_nat (unat n)"] after_last_no_sep[of "show_nat (unat n)" "\<lambda>c. c = 95"]
    by (simp add: make_id_def)
  then show ?thesis by (simp add: id_counter_def parse_u64_show unwrap_or_def)
qed

section \<open>The hash map\<close>

lemma reg_get_new [simp]: "reg_get registry_new k = None"
  by (simp add: reg_get_def registry_new_def)

lemma map_of_filter_neq: "map_of (filter (\<lambda>e. fst e \<noteq> k) m) = (map_of m)(k := None)"
  by (induction m) (auto simp: fun_eq_iff)

lemma map_of_update_value:
  "map_of (map (\<lambda>(k', u). if k' = k then (k', v) else (k', u)) m) =
     (if map_of m k = None then map_of m else (map_of m)(k \<mapsto> v))"
  by (induction m) (auto simp: fun_eq_iff)

lemma reg_get_insert [simp]: "reg_get (reg_insert r k v) k' = (if k' = k then Some v else reg_get r k')"
  by (simp add: reg_get_def reg_insert_def map_of_filter_neq)

lemma reg_get_remove [simp]:
  "reg_get (snd (reg_remove r k)) k' = (if k' = k then None else reg_get r k')"
  by (simp add: reg_get_def reg_remove_def map_of_filter_neq)

lemma with_entry_missing: "reg_get r k = None \<Longrightarrow> with_entry r k e f = (Inl e, r)"
  by (simp add: with_entry_def)

lemma with_entry_result: "reg_get r k = Some v \<Longrightarrow> fst (with_entry r k e f) = fst (f v)"
  by (simp add: with_entry_def split: prod.split)

lemma with_entry_get:
  "reg_get (snd (with_entry r k e f)) k' =
     (if k' = k then map_option (\<lambda>v. snd (f v)) (reg_get r k) else reg_get r k')"
  by (auto simp: with_entry_def reg_get_def map_of_update_value split: option.splits prod.splits)

lemma with_entry_counter [simp]: "counter (snd (with_entry r k e f)) = counter r"
  by (simp add: with_entry_def split: option.splits prod.splits)

section \<open>The invariant\<close>

text \<open>
  Every entry is filed under its own id, its number does not exceed the counter, no two entries
  have the same number, and every entry is good.
\<close>

definition entry_filed :: "('a \<Rightarrow> rstr) \<Rightarrow> ('a \<Rightarrow> bool) \<Rightarrow> u64 \<Rightarrow> rstr \<times> 'a \<Rightarrow> bool" where
  "entry_filed id_of good n e \<longleftrightarrow>
     id_of (snd e) = fst e \<and> good (snd e) \<and> id_counter (fst e) \<le> n"

definition reg_ok :: "('a \<Rightarrow> rstr) \<Rightarrow> ('a \<Rightarrow> bool) \<Rightarrow> 'a registry \<Rightarrow> bool" where
  "reg_ok id_of good r \<longleftrightarrow>
     distinct (map (\<lambda>e. id_counter (fst e)) (entries r))
     \<and> list_all (entry_filed id_of good (counter r)) (entries r)"

lemma reg_ok_new [simp]: "reg_ok id_of good registry_new"
  by (simp add: reg_ok_def registry_new_def)

lemma reg_ok_get: "reg_ok id_of good r \<Longrightarrow> reg_get r k = Some v \<Longrightarrow> id_of v = k \<and> good v"
  unfolding reg_get_def by (drule map_of_SomeD) (auto simp: reg_ok_def list_all_iff entry_filed_def)

lemma reg_get_iff:
  assumes "reg_ok id_of good r"
  shows "reg_get r k = Some v \<longleftrightarrow> (k, v) \<in> set (entries r)"
proof -
  have "distinct (map id_counter (map fst (entries r)))"
    using assms by (simp add: reg_ok_def comp_def)
  then have "distinct (map fst (entries r))"
    by (rule distinct_map[THEN iffD1, THEN conjunct1])
  then show ?thesis by (simp add: reg_get_def)
qed

lemma reg_ok_remove:
  assumes "reg_ok id_of good r"
  shows "reg_ok id_of good (snd (reg_remove r k))"
  using assms by (auto simp: reg_ok_def reg_remove_def list_all_iff distinct_map_filter)

lemma reg_ok_with_entry:
  assumes "reg_ok id_of good r"
    and "\<And>v. good v \<Longrightarrow> id_of v = k \<Longrightarrow> good (snd (f v)) \<and> id_of (snd (f v)) = k"
  shows "reg_ok id_of good (snd (with_entry r k e f))"
proof (cases "reg_get r k")
  case None
  then show ?thesis using assms(1) by (simp add: with_entry_missing)
next
  case (Some v)
  obtain res v' where f: "f v = (res, v')" by (cases "f v")
  have v': "good v'" "id_of v' = k"
    using assms(2)[of v] reg_ok_get[OF assms(1) Some] f by auto
  let ?u = "\<lambda>(k', u). if k' = k then (k', v') else (k', u)"
  have "map (\<lambda>e. id_counter (fst e)) (map ?u (entries r)) = map (\<lambda>e. id_counter (fst e)) (entries r)"
    by auto
  then have "distinct (map (\<lambda>e. id_counter (fst e)) (map ?u (entries r)))"
    using assms(1) unfolding reg_ok_def by (simp only:)
  moreover have "list_all (entry_filed id_of good (counter r)) (map ?u (entries r))"
    unfolding list_all_iff set_map
  proof
    fix x assume "x \<in> ?u ` set (entries r)"
    then obtain a b where x: "(a, b) \<in> set (entries r)" "x = ?u (a, b)" by auto
    have "entry_filed id_of good (counter r) (a, b)"
      using assms(1) x(1) unfolding reg_ok_def list_all_iff by blast
    then show "entry_filed id_of good (counter r) x"
      using x(2) v' by (cases "a = k") (simp_all add: entry_filed_def)
  qed
  ultimately show ?thesis
    using Some f by (simp add: with_entry_def reg_ok_def del: map_map)
qed

lemma u64_succ: "unat n + 1 < 2 ^ 64 \<Longrightarrow> n < (n + 1 :: u64)"
proof -
  assume "unat n + 1 < 2 ^ 64"
  then have "unat (n + 1) = unat n + unat (1 :: u64)"
    by (intro unat_add_lem[THEN iffD1]) simp
  then show ?thesis by (simp add: word_less_nat_alt)
qed

text \<open>
  The contract of a registry: \<open>fresh\<close> builds the entry for an id and a time. From it follow that a
  creation never overwrites an entry and that the listing is determined by the contents.
\<close>

locale id_registry =
  fixes id_of :: "'a \<Rightarrow> rstr" and created :: "'a \<Rightarrow> u64" and good :: "'a \<Rightarrow> bool"
    and prefix :: string and fresh :: "'arg \<Rightarrow> u64 \<Rightarrow> rstr \<Rightarrow> 'a"
  assumes id_fresh: "id_of (fresh arg ts i) = i"
    and created_fresh: "created (fresh arg ts i) = ts"
    and good_fresh: "good (fresh arg ts i)"
begin

abbreviation ok :: "'a registry \<Rightarrow> bool" where
  "ok \<equiv> reg_ok id_of good"

definition new_id :: "u64 \<Rightarrow> 'a registry \<Rightarrow> rstr" where
  "new_id ts r = make_id prefix ts (counter r + 1)"

definition add :: "'arg \<Rightarrow> u64 \<Rightarrow> 'a registry \<Rightarrow> 'a \<times> 'a registry" where
  "add arg ts r =
     (let r1 = r\<lparr>counter := counter r + 1\<rparr>;
          v = fresh arg ts (new_id ts r) in
      (v, reg_insert r1 (new_id ts r) v))"

lemma new_id_fresh:
  assumes "ok r" "unat (counter r) + 1 < 2 ^ 64"
  shows "new_id ts r \<notin> fst ` set (entries r)"
proof
  assume "new_id ts r \<in> fst ` set (entries r)"
  then have "id_counter (new_id ts r) \<le> counter r"
    using assms(1) by (auto simp: reg_ok_def list_all_iff entry_filed_def)
  then show False using u64_succ[OF assms(2)] by (simp add: new_id_def)
qed

lemma get_new_id: "ok r \<Longrightarrow> unat (counter r) + 1 < 2 ^ 64 \<Longrightarrow> reg_get r (new_id ts r) = None"
  unfolding reg_get_def map_of_eq_None_iff by (rule new_id_fresh)

lemma add_entries:
  assumes "ok r" "unat (counter r) + 1 < 2 ^ 64"
  shows "entries (snd (add arg ts r)) = (new_id ts r, fresh arg ts (new_id ts r)) # entries r"
proof -
  have "filter (\<lambda>e. fst e \<noteq> new_id ts r) (entries r) = entries r"
    unfolding filter_id_conv
  proof
    fix e assume "e \<in> set (entries r)"
    then have "fst e \<in> fst ` set (entries r)" by (rule imageI)
    then show "fst e \<noteq> new_id ts r" using new_id_fresh[OF assms, of ts] by metis
  qed
  then show ?thesis by (simp add: add_def reg_insert_def Let_def)
qed

lemma ok_add:
  assumes "ok r" "unat (counter r) + 1 < 2 ^ 64"
  shows "ok (snd (add arg ts r))"
proof -
  have lt: "counter r < counter r + 1" by (rule u64_succ[OF assms(2)])
  have c: "counter (snd (add arg ts r)) = counter r + 1"
    by (simp add: add_def reg_insert_def Let_def)
  have old: "id_counter (fst e) \<le> counter r" if "e \<in> set (entries r)" for e
    using assms(1) that by (auto simp: reg_ok_def list_all_iff entry_filed_def)
  have "entry_filed id_of good (counter r + 1) e" if "e \<in> set (entries r)" for e
    using assms(1) that lt
    by (auto simp: reg_ok_def list_all_iff entry_filed_def intro: order_trans less_imp_le)
  moreover have "id_counter (new_id ts r) \<notin> (\<lambda>e. id_counter (fst e)) ` set (entries r)"
  proof
    assume "id_counter (new_id ts r) \<in> (\<lambda>e. id_counter (fst e)) ` set (entries r)"
    then obtain e where "e \<in> set (entries r)" "id_counter (fst e) = counter r + 1"
      by (auto simp: new_id_def)
    with old[of e] lt show False by simp
  qed
  ultimately show ?thesis
    using assms(1) unfolding reg_ok_def add_entries[OF assms] c
    by (auto simp: list_all_iff entry_filed_def id_fresh good_fresh new_id_def)
qed

lemma add_get:
  assumes "ok r" "unat (counter r) + 1 < 2 ^ 64"
  shows "reg_get (snd (add arg ts r)) k =
    (if k = new_id ts r then Some (fresh arg ts (new_id ts r)) else reg_get r k)"
  by (auto simp: add_entries[OF assms] reg_get_def)

lemma key_inj:
  assumes "ok r"
  shows "inj_on (\<lambda>v. (created v, id_counter (id_of v))) (set (map snd (entries r)))"
proof (rule inj_onI)
  fix u v assume uv: "u \<in> set (map snd (entries r))" "v \<in> set (map snd (entries r))"
    and eq: "(created u, id_counter (id_of u)) = (created v, id_counter (id_of v))"
  then obtain i j where e: "(i, u) \<in> set (entries r)" "(j, v) \<in> set (entries r)" by auto
  have "id_of u = i" "id_of v = j"
    using assms e by (fastforce simp: reg_ok_def list_all_iff entry_filed_def)+
  with eq have "id_counter (fst (i, u)) = id_counter (fst (j, v))" by simp
  moreover have "inj_on (\<lambda>e. id_counter (fst e)) (set (entries r))"
    using assms by (simp add: reg_ok_def distinct_map)
  ultimately have "(i, u) = (j, v)" using e unfolding inj_on_def by blast
  then show "u = v" by simp
qed

lemma list_order_irrelevant:
  assumes "ok r" "mset (entries r) = mset (entries r')"
  shows "reg_list created id_of P r = reg_list created id_of P r'"
proof -
  let ?k = "\<lambda>v. (created v, id_counter (id_of v))"
  have "mset (filter P (map snd (entries r))) = mset (filter P (map snd (entries r')))"
    using assms(2) by simp
  moreover have "inj_on ?k (set (filter P (map snd (entries r))))"
    using key_inj[OF assms(1)] by (rule inj_on_subset) auto
  ultimately show ?thesis
    unfolding reg_list_def by (intro sort_key_inj_key_eq) simp_all
qed

lemma list_contents: "set (reg_list created id_of P r) = {v \<in> snd ` set (entries r). P v}"
  by (auto simp: reg_list_def)

lemma list_sorted:
  assumes "ok r"
  shows "sorted_wrt (\<lambda>u v. created u < created v \<or> created u = created v \<and> id_counter (id_of u) < id_counter (id_of v))
    (reg_list created id_of P r)"
proof -
  let ?k = "\<lambda>v. (created v, id_counter (id_of v))"
  have "map (\<lambda>e. id_counter (id_of (snd e))) (entries r) = map (\<lambda>e. id_counter (fst e)) (entries r)"
    using assms by (auto simp: reg_ok_def list_all_iff entry_filed_def)
  then have "distinct (map (\<lambda>e. id_counter (id_of (snd e))) (entries r))"
    using assms unfolding reg_ok_def by (simp only:)
  then have "distinct (map (\<lambda>v. id_counter (id_of v)) (map snd (entries r)))"
    by (simp add: comp_def)
  then have "distinct (map snd (map ?k (map snd (entries r))))"
    by (simp add: comp_def)
  then have "distinct (map ?k (map snd (entries r)))"
    by (rule distinct_map[THEN iffD1, THEN conjunct1])
  then have "distinct (map ?k (filter P (map snd (entries r))))"
    by (rule distinct_map_filter)
  moreover have "mset (map ?k (reg_list created id_of P r)) = mset (map ?k (filter P (map snd (entries r))))"
    by (simp add: reg_list_def del: filter_map map_map)
  ultimately have "distinct (map ?k (reg_list created id_of P r))"
    using mset_eq_imp_distinct_iff by blast
  moreover have "sorted (map ?k (reg_list created id_of P r))"
    unfolding reg_list_def by (rule sorted_sort_key)
  ultimately have "sorted_wrt (<) (map ?k (reg_list created id_of P r))"
    by (simp add: strict_sorted_iff)
  then show ?thesis
    unfolding sorted_wrt_map
    by (rule sorted_wrt_mono_rel[rotated]) (auto simp: less_prod_def le_less)
qed

end

end
