(* ===== verification/Task_Registry.thy ===== *)
theory Task_Registry
  imports Registry
begin

text \<open>
  The task registry of \<open>runtime/src/task_registry.rs\<close>. Every operation takes the time of each call of
  the clock it makes; the mutex makes the operations atomic, so a run of the registry is a sequence
  of them.
\<close>

datatype TaskStatus = Created | Running | Completed | Failed | Stopped

fun task_status_str :: "TaskStatus \<Rightarrow> rstr" where
  "task_status_str Created = lit ''created''"
| "task_status_str Running = lit ''running''"
| "task_status_str Completed = lit ''completed''"
| "task_status_str Failed = lit ''failed''"
| "task_status_str Stopped = lit ''stopped''"

record TaskMessage =
  msg_role :: rstr
  msg_content :: rstr
  timestamp :: u64

record Task =
  task_id :: rstr
  prompt :: rstr
  description :: "rstr option"
  status :: TaskStatus
  lifecycle :: LifecycleStateSnapshot
  created_at :: u64
  updated_at :: u64
  last_error :: "rstr option"
  origin :: rstr
  contract :: LifecycleContractSnapshot
  capabilities :: "rstr list"
  task_messages :: "TaskMessage list"
  task_output_text :: rstr
  team_id :: "rstr option"

type_synonym TaskRegistry = "Task registry"

definition task_capabilities :: "rstr list" where
  "task_capabilities = map lit
     [''get'', ''list'', ''update'', ''stop'', ''output'', ''assign_team'', ''append_output'']"

definition fresh_task :: "rstr \<times> rstr option \<Rightarrow> u64 \<Rightarrow> rstr \<Rightarrow> Task" where
  "fresh_task a ts i =
     \<lparr>task_id = i, prompt = fst a, description = snd a, status = Created,
      lifecycle = process_local_task (lit ''created''), created_at = ts, updated_at = ts,
      last_error = None, origin = PROCESS_LOCAL_TRUTH_LAYER, contract = process_local_foundation,
      capabilities = task_capabilities, task_messages = [], task_output_text = [], team_id = None\<rparr>"

definition task_create ::
  "rstr \<Rightarrow> rstr option \<Rightarrow> u64 \<Rightarrow> TaskRegistry \<Rightarrow> Task \<times> TaskRegistry" where
  "task_create p d ts r =
     (let r1 = r\<lparr>counter := counter r + 1\<rparr>;
          i = make_id ''task'' ts (counter r1);
          t = fresh_task (p, d) ts i in
      (t, reg_insert r1 i t))"

definition task_get :: "TaskRegistry \<Rightarrow> rstr \<Rightarrow> Task option" where
  "task_get r i = reg_get r i"

definition task_list :: "TaskStatus option \<Rightarrow> TaskRegistry \<Rightarrow> Task list" where
  "task_list status_filter r =
     reg_list created_at task_id
       (\<lambda>t. case status_filter of None \<Rightarrow> True | Some s \<Rightarrow> status t = s) r"

definition task_not_found :: "rstr \<Rightarrow> rstr" where
  "task_not_found i = lit ''task not found: '' @ i"

definition is_terminal :: "TaskStatus \<Rightarrow> bool" where
  "is_terminal s \<longleftrightarrow> s = Completed \<or> s = Failed \<or> s = Stopped"

definition stop_task :: "rstr \<Rightarrow> u64 \<Rightarrow> Task \<Rightarrow> (rstr + Task) \<times> Task" where
  "stop_task i now t =
     (if is_terminal (status t) then
        (let error = lit ''task '' @ i @ lit '' is already in terminal state: ''
               @ task_status_str (status t) in
         (Inl error,
          t\<lparr>last_error := Some error,
            lifecycle := process_local_task_error (task_status_str (status t))\<rparr>))
      else
        (let t' = t\<lparr>status := Stopped, lifecycle := process_local_task (lit ''stopped''),
                    updated_at := now, last_error := None\<rparr> in
         (Inr t', t')))"

definition task_stop :: "rstr \<Rightarrow> u64 \<Rightarrow> TaskRegistry \<Rightarrow> (rstr + Task) \<times> TaskRegistry" where
  "task_stop i now r = with_entry r i (task_not_found i) (stop_task i now)"

definition update_task :: "rstr \<Rightarrow> u64 \<Rightarrow> u64 \<Rightarrow> Task \<Rightarrow> (rstr + Task) \<times> Task" where
  "update_task message now1 now2 t =
     (let t' = t\<lparr>task_messages := task_messages t
                   @ [\<lparr>msg_role = lit ''user'', msg_content = message, timestamp = now1\<rparr>],
                 lifecycle := process_local_task (task_status_str (status t)),
                 updated_at := now2, last_error := None\<rparr> in
      (Inr t', t'))"

definition task_update ::
  "rstr \<Rightarrow> rstr \<Rightarrow> u64 \<Rightarrow> u64 \<Rightarrow> TaskRegistry \<Rightarrow> (rstr + Task) \<times> TaskRegistry" where
  "task_update i message now1 now2 r =
     with_entry r i (task_not_found i) (update_task message now1 now2)"

definition task_output :: "TaskRegistry \<Rightarrow> rstr \<Rightarrow> rstr + rstr" where
  "task_output r i =
     res_bind (ok_or (task_not_found i) (reg_get r i)) (\<lambda>t. Inr (task_output_text t))"

definition append_task :: "rstr \<Rightarrow> u64 \<Rightarrow> Task \<Rightarrow> (rstr + unit) \<times> Task" where
  "append_task out now t =
     (Inr (), t\<lparr>task_output_text := task_output_text t @ out,
                lifecycle := process_local_task (task_status_str (status t)),
                updated_at := now, last_error := None\<rparr>)"

definition task_append_output ::
  "rstr \<Rightarrow> rstr \<Rightarrow> u64 \<Rightarrow> TaskRegistry \<Rightarrow> (rstr + unit) \<times> TaskRegistry" where
  "task_append_output i out now r = with_entry r i (task_not_found i) (append_task out now)"

definition set_task_status :: "TaskStatus \<Rightarrow> u64 \<Rightarrow> Task \<Rightarrow> (rstr + unit) \<times> Task" where
  "set_task_status s now t =
     (Inr (), t\<lparr>status := s,
                lifecycle := (if s = Failed then process_local_task_failure
                              else process_local_task (task_status_str s)),
                updated_at := now,
                last_error := (if s \<noteq> Failed then None else last_error t)\<rparr>)"

definition task_set_status ::
  "rstr \<Rightarrow> TaskStatus \<Rightarrow> u64 \<Rightarrow> TaskRegistry \<Rightarrow> (rstr + unit) \<times> TaskRegistry" where
  "task_set_status i s now r = with_entry r i (task_not_found i) (set_task_status s now)"

definition fail_task :: "rstr \<Rightarrow> u64 \<Rightarrow> Task \<Rightarrow> (rstr + Task) \<times> Task" where
  "fail_task error now t =
     (let t' = t\<lparr>status := Failed, lifecycle := process_local_task_failure, updated_at := now,
                 last_error := Some error\<rparr> in
      (Inr t', t'))"

definition task_record_failure ::
  "rstr \<Rightarrow> rstr \<Rightarrow> u64 \<Rightarrow> TaskRegistry \<Rightarrow> (rstr + Task) \<times> TaskRegistry" where
  "task_record_failure i error now r = with_entry r i (task_not_found i) (fail_task error now)"

definition assign_task :: "rstr \<Rightarrow> rstr \<Rightarrow> u64 \<Rightarrow> Task \<Rightarrow> (rstr + unit) \<times> Task" where
  "assign_task i team now t =
     (case team_id t of
        Some existing \<Rightarrow>
          if existing = team then
            (Inr (), t\<lparr>last_error := None,
                       lifecycle := process_local_task (task_status_str (status t))\<rparr>)
          else
            (let error = lit ''task '' @ i @ lit '' is already assigned to team '' @ existing in
             (Inl error,
              t\<lparr>last_error := Some error,
                lifecycle := process_local_task_error (task_status_str (status t))\<rparr>))
      | None \<Rightarrow>
          (Inr (), t\<lparr>team_id := Some team,
                     lifecycle := process_local_task (task_status_str (status t)),
                     updated_at := now, last_error := None\<rparr>))"

definition task_assign_team ::
  "rstr \<Rightarrow> rstr \<Rightarrow> u64 \<Rightarrow> TaskRegistry \<Rightarrow> (rstr + unit) \<times> TaskRegistry" where
  "task_assign_team i team now r = with_entry r i (task_not_found i) (assign_task i team now)"

definition unassign_task :: "rstr \<Rightarrow> rstr \<Rightarrow> u64 \<Rightarrow> Task \<Rightarrow> (rstr + unit) \<times> Task" where
  "unassign_task i team now t =
     (case team_id t of
        Some existing \<Rightarrow>
          if existing = team then
            (Inr (), t\<lparr>team_id := None,
                       lifecycle := process_local_task (task_status_str (status t)),
                       updated_at := now, last_error := None\<rparr>)
          else
            (let error = lit ''task '' @ i @ lit '' is assigned to team '' @ existing
                   @ lit '', not '' @ team in
             (Inl error,
              t\<lparr>last_error := Some error,
                lifecycle := process_local_task_error (task_status_str (status t))\<rparr>))
      | None \<Rightarrow>
          (Inr (), t\<lparr>last_error := None,
                     lifecycle := process_local_task (task_status_str (status t))\<rparr>))"

definition task_unassign_team ::
  "rstr \<Rightarrow> rstr \<Rightarrow> u64 \<Rightarrow> TaskRegistry \<Rightarrow> (rstr + unit) \<times> TaskRegistry" where
  "task_unassign_team i team now r = with_entry r i (task_not_found i) (unassign_task i team now)"

definition task_remove :: "TaskRegistry \<Rightarrow> rstr \<Rightarrow> Task option \<times> TaskRegistry" where
  "task_remove r i = reg_remove r i"

definition task_len :: "TaskRegistry \<Rightarrow> nat" where
  "task_len r = reg_len r"

section \<open>The invariant and the runs\<close>

text \<open>A good task: its lifecycle snapshot shows its status and is consistent.\<close>

definition task_good :: "Task \<Rightarrow> bool" where
  "task_good t \<longleftrightarrow>
     lc_status (lifecycle t) = task_status_str (status t) \<and> lifecycle_consistent (lifecycle t)"

interpretation tasks: id_registry task_id created_at task_good "''task''" fresh_task
  by unfold_locales (simp_all add: fresh_task_def task_good_def)

abbreviation task_ok :: "TaskRegistry \<Rightarrow> bool" where
  "task_ok \<equiv> reg_ok task_id task_good"

lemma task_create_add: "task_create p d ts r = tasks.add (p, d) ts r"
  by (simp add: task_create_def tasks.add_def tasks.new_id_def Let_def)

lemmas task_entry_defs = stop_task_def update_task_def append_task_def set_task_status_def
  fail_task_def assign_task_def unassign_task_def

lemmas task_op_defs = task_stop_def task_update_def task_append_output_def task_set_status_def
  task_record_failure_def task_assign_team_def task_unassign_team_def

text \<open>The mutating operations as data: what a run of the registry consists of.\<close>

datatype TaskOp =
    OpStop rstr u64
  | OpUpdate rstr rstr u64 u64
  | OpAppend rstr rstr u64
  | OpSetStatus rstr TaskStatus u64
  | OpFail rstr rstr u64
  | OpAssign rstr rstr u64
  | OpUnassign rstr rstr u64
  | OpRemove rstr

fun task_apply :: "TaskOp \<Rightarrow> TaskRegistry \<Rightarrow> TaskRegistry" where
  "task_apply (OpStop i now) r = snd (task_stop i now r)"
| "task_apply (OpUpdate i m now1 now2) r = snd (task_update i m now1 now2 r)"
| "task_apply (OpAppend i out now) r = snd (task_append_output i out now r)"
| "task_apply (OpSetStatus i s now) r = snd (task_set_status i s now r)"
| "task_apply (OpFail i e now) r = snd (task_record_failure i e now r)"
| "task_apply (OpAssign i team now) r = snd (task_assign_team i team now r)"
| "task_apply (OpUnassign i team now) r = snd (task_unassign_team i team now r)"
| "task_apply (OpRemove i) r = snd (task_remove r i)"

fun op_target :: "TaskOp \<Rightarrow> rstr" where
  "op_target (OpStop i now) = i"
| "op_target (OpUpdate i m now1 now2) = i"
| "op_target (OpAppend i out now) = i"
| "op_target (OpSetStatus i s now) = i"
| "op_target (OpFail i e now) = i"
| "op_target (OpAssign i team now) = i"
| "op_target (OpUnassign i team now) = i"
| "op_target (OpRemove i) = i"

text \<open>The registries reachable with \<open>n\<close> creations.\<close>

inductive task_reachable :: "nat \<Rightarrow> TaskRegistry \<Rightarrow> bool" where
  initial: "task_reachable 0 registry_new"
| create: "task_reachable n r \<Longrightarrow> task_reachable (Suc n) (snd (task_create p d ts r))"
| operate: "task_reachable n r \<Longrightarrow> task_reachable n (task_apply op r)"

inductive_cases task_reachable_SucE: "task_reachable (Suc n) r"

lemma task_op_ok: "task_ok r \<Longrightarrow> task_ok (task_apply op r)"
  by (cases op)
    (auto simp: task_op_defs task_entry_defs task_remove_def task_good_def Let_def
      intro!: reg_ok_with_entry reg_ok_remove split: option.splits)

lemma task_op_counter: "counter (task_apply op r) = counter r"
  by (cases op) (simp_all add: task_op_defs task_remove_def reg_remove_def)

lemma task_op_frame: "i \<noteq> op_target op \<Longrightarrow> task_get (task_apply op r) i = task_get r i"
  by (cases op) (simp_all add: task_op_defs task_get_def with_entry_get task_remove_def)

lemma task_create_counter: "counter (snd (task_create p d ts r)) = counter r + 1"
  by (simp add: task_create_def reg_insert_def Let_def)

lemma task_reachable_inv:
  "task_reachable n r \<Longrightarrow> n < 2 ^ 64 \<Longrightarrow> task_ok r \<and> unat (counter r) = n"
proof (induction rule: task_reachable.induct)
  case initial
  then show ?case by (simp add: registry_new_def reg_ok_def)
next
  case (create n r p d ts)
  then have r: "task_ok r" "unat (counter r) = n" by simp_all
  have b: "unat (counter r) + 1 < 2 ^ 64" using create.prems r(2) by simp
  have "unat (counter r + 1) = Suc n"
    using b r(2) by (subst unat_add_lem[THEN iffD1]) simp_all
  then show ?case
    using tasks.ok_add[OF r(1) b, of "(p, d)" ts] by (simp add: task_create_add task_create_counter[unfolded task_create_add])
next
  case (operate n r op)
  then show ?case by (simp add: task_op_ok task_op_counter)
qed

section \<open>Properties\<close>

text \<open>every registry a run can reach is well formed: each task is filed under its own id, no two
  ids share a number, the counter counts the creations, and the lifecycle snapshot of every task
  shows the task's status and is consistent - after any interleaving of operations, failed ones
  included.\<close>

theorem task_registry_invariant:
  assumes "task_reachable n r" "n < 2 ^ 64"
  shows "reg_ok task_id task_good r \<and> unat (counter r) = n
    \<and> (\<forall>i t. task_get r i = Some t \<longrightarrow>
         task_id t = i \<and> lc_status (lifecycle t) = task_status_str (status t))"
  using task_reachable_inv[OF assms] reg_ok_get[of task_id task_good r]
  by (auto simp: task_get_def task_good_def)

lemma demo_reachable:
  "task_reachable (Suc 0) (task_apply (OpFail (make_id ''task'' 9 1) (lit ''boom'') 10)
     (snd (task_create (lit ''p'') None 9 registry_new)))"
  by (rule task_reachable.operate[OF task_reachable.create[OF task_reachable.initial]])

theorem task_registry_invariant_witness:
  "reg_ok task_id task_good (task_apply (OpFail (make_id ''task'' 9 1) (lit ''boom'') 10)
     (snd (task_create (lit ''p'') None 9 registry_new)))"
  by (rule conjunct1[OF task_registry_invariant[OF demo_reachable]]) simp

text \<open>a creation is fresh: in a reachable registry the new id is not in use, the returned task is
  what a lookup of that id finds afterwards, in state created, and every other task is
  untouched.\<close>

theorem task_create_fresh:
  assumes "task_reachable n r" "Suc n < 2 ^ 64" "task_create p d ts r = (t, r')"
  shows "task_get r (task_id t) = None
    \<and> task_get r' (task_id t) = Some t
    \<and> status t = Created \<and> prompt t = p \<and> created_at t = ts
    \<and> (\<forall>i. i \<noteq> task_id t \<longrightarrow> task_get r' i = task_get r i)
    \<and> task_len r' = task_len r + 1"
proof -
  have r: "task_ok r" "unat (counter r) + 1 < 2 ^ 64"
    using task_reachable_inv[OF assms(1)] assms(2) by simp_all
  have t: "t = fresh_task (p, d) ts (tasks.new_id ts r)" "r' = snd (tasks.add (p, d) ts r)"
    using assms(3) by (auto simp: task_create_add tasks.add_def Let_def)
  have i: "task_id t = tasks.new_id ts r" by (simp add: t fresh_task_def)
  show ?thesis
    unfolding task_get_def i
    using tasks.get_new_id[OF r] tasks.add_get[OF r, of "(p, d)" ts] tasks.add_entries[OF r, of "(p, d)" ts]
    by (simp add: t task_len_def reg_len_def) (simp add: fresh_task_def)
qed

theorem task_create_fresh_witness:
  "task_get registry_new (make_id ''task'' 9 1) = None
   \<and> task_len (snd (task_create (lit ''p'') None 9 registry_new)) = 1"
  using task_create_fresh[OF task_reachable.initial, of "lit ''p''" None 9
      "fst (task_create (lit ''p'') None 9 registry_new)" "snd (task_create (lit ''p'') None 9 registry_new)"]
  by (simp add: task_create_def fresh_task_def registry_new_def task_len_def reg_len_def Let_def
      reg_insert_def)

text \<open>the listing of a reachable registry is determined by its contents: it does not depend on
  the order in which the hash map yields its entries, it is strictly ordered by creation time and
  then by number, and it has exactly the tasks with the requested status.\<close>

theorem task_list_deterministic:
  assumes "task_reachable n r" "n < 2 ^ 64" "mset (entries r') = mset (entries r)"
  shows "task_list f r' = task_list f r
    \<and> sorted_wrt (\<lambda>a b. created_at a < created_at b
          \<or> created_at a = created_at b \<and> id_counter (task_id a) < id_counter (task_id b)) (task_list f r)
    \<and> set (task_list f r) = {t. \<exists>i. task_get r i = Some t \<and> (f = None \<or> f = Some (status t))}"
proof -
  have r: "task_ok r" using task_reachable_inv[OF assms(1,2)] by simp
  have "task_get r i = Some t \<longleftrightarrow> (i, t) \<in> set (entries r)" for i t
    unfolding task_get_def by (rule reg_get_iff[OF r])
  then have e: "snd ` set (entries r) = {t. \<exists>i. task_get r i = Some t}" by force
  have c: "set (task_list f r) = {t. \<exists>i. task_get r i = Some t \<and> (f = None \<or> f = Some (status t))}"
    unfolding task_list_def tasks.list_contents e by (cases f) auto
  show ?thesis
    using tasks.list_order_irrelevant[OF r assms(3)[symmetric]] tasks.list_sorted[OF r] c
    by (simp add: task_list_def)
qed

theorem task_list_deterministic_witness:
  "set (task_list (Some Failed) (task_apply (OpFail (make_id ''task'' 9 1) (lit ''boom'') 10)
     (snd (task_create (lit ''p'') None 9 registry_new)))) \<subseteq> {t. status t = Failed}"
  using task_list_deterministic[OF demo_reachable _ refl, of "Some Failed"] by auto

text \<open>a task is stopped at most once: stopping an unfinished task succeeds and leaves it stopped,
  stopping a finished one is an error that names its state, records that error and changes neither
  the status nor the output, and an unknown id is an error that changes nothing. Other tasks are
  never touched.\<close>

theorem task_stop_once:
  "(case task_get r i of
      None \<Rightarrow> task_stop i now r = (Inl (task_not_found i), r)
    | Some t \<Rightarrow>
        (if is_terminal (status t) then
           \<exists>e t'. fst (task_stop i now r) = Inl e
             \<and> task_get (snd (task_stop i now r)) i = Some t'
             \<and> status t' = status t \<and> task_output_text t' = task_output_text t
             \<and> last_error t' = Some e
         else
           \<exists>t'. fst (task_stop i now r) = Inr t'
             \<and> task_get (snd (task_stop i now r)) i = Some t'
             \<and> status t' = Stopped \<and> last_error t' = None))
   \<and> (task_get (snd (task_stop i now r)))(i := None) = (task_get r)(i := None)
   \<and> (\<exists>e. fst (task_stop i later (snd (task_stop i now r))) = Inl e)"
proof (cases "reg_get r i")
  case None
  then show ?thesis by (simp add: task_get_def[abs_def] task_stop_def with_entry_missing)
next
  case (Some t)
  define q where "q = with_entry r i (task_not_found i) (stop_task i now)"
  have q: "fst q = fst (stop_task i now t)" "reg_get (snd q) i = Some (snd (stop_task i now t))"
    "j \<noteq> i \<Longrightarrow> reg_get (snd q) j = reg_get r j" for j
    using Some by (simp_all add: q_def with_entry_result with_entry_get)
  have "fst (with_entry (snd q) i (task_not_found i) (stop_task i later)) =
      fst (stop_task i later (snd (stop_task i now t)))"
    using q(2) by (rule with_entry_result)
  then show ?thesis
    unfolding task_stop_def task_get_def q_def[symmetric]
    using Some q by (auto simp: stop_task_def is_terminal_def Let_def fun_eq_iff task_get_def)
qed

text \<open>a task belongs to at most one team: while it is assigned, assigning it to another team is
  refused and changes no assignment, and only the owning team can release it.\<close>

theorem task_team_exclusive:
  assumes "task_get r i = Some t" "team_id t = Some team" "other \<noteq> team"
  shows "(\<exists>e. fst (task_assign_team i other now r) = Inl e)
    \<and> map_option team_id (task_get (snd (task_assign_team i other now r)) i) = Some (Some team)
    \<and> (\<exists>e. fst (task_unassign_team i other now r) = Inl e)
    \<and> map_option team_id (task_get (snd (task_unassign_team i other now r)) i) = Some (Some team)
    \<and> fst (task_unassign_team i team now r) = Inr ()
    \<and> map_option team_id (task_get (snd (task_unassign_team i team now r)) i) = Some None"
  using assms
  by (simp add: task_get_def task_assign_team_def task_unassign_team_def with_entry_result
      with_entry_get assign_task_def unassign_task_def Let_def)

theorem task_team_exclusive_witness:
  "\<exists>e. fst (task_assign_team (lit ''t'') (lit ''b'') 0
     \<lparr>entries = [(lit ''t'', (fresh_task (lit ''p'', None) 0 (lit ''t''))\<lparr>team_id := Some (lit ''a'')\<rparr>)],
      counter = 1\<rparr>) = Inl e"
  using task_team_exclusive[of "\<lparr>entries = [(lit ''t'',
      (fresh_task (lit ''p'', None) 0 (lit ''t''))\<lparr>team_id := Some (lit ''a'')\<rparr>)], counter = 1\<rparr>"
      "lit ''t''" _ "lit ''a''" "lit ''b''" 0]
  by (simp add: task_get_def reg_get_def)

end
