(* ===== verification/Team_Cron_Registry.thy ===== *)
theory Team_Cron_Registry
  imports Registry
begin

text \<open>
  The team and cron registries of \<open>runtime/src/team_cron_registry.rs\<close>, on the same foundation as
  the task registry. Deleting a team leaves the entry with a tombstone status, deleting a cron entry
  removes it.
\<close>

section \<open>Teams\<close>

datatype TeamStatus = TeamCreated | TeamRunning | TeamCompleted | TeamDeleted

fun team_status_str :: "TeamStatus \<Rightarrow> rstr" where
  "team_status_str TeamCreated = lit ''created''"
| "team_status_str TeamRunning = lit ''running''"
| "team_status_str TeamCompleted = lit ''completed''"
| "team_status_str TeamDeleted = lit ''deleted''"

record Team =
  tm_id :: rstr
  tm_name :: rstr
  tm_task_ids :: "rstr list"
  tm_status :: TeamStatus
  tm_lifecycle :: LifecycleStateSnapshot
  tm_created_at :: u64
  tm_updated_at :: u64
  tm_last_error :: "rstr option"
  tm_origin :: rstr
  tm_contract :: LifecycleContractSnapshot
  tm_capabilities :: "rstr list"

type_synonym TeamRegistry = "Team registry"

definition team_capabilities :: "rstr list" where
  "team_capabilities = map lit [''get'', ''list'', ''delete'']"

definition fresh_team :: "rstr \<times> rstr list \<Rightarrow> u64 \<Rightarrow> rstr \<Rightarrow> Team" where
  "fresh_team a ts i =
     \<lparr>tm_id = i, tm_name = fst a, tm_task_ids = snd a, tm_status = TeamCreated,
      tm_lifecycle = process_local_team (lit ''created''), tm_created_at = ts,
      tm_updated_at = ts, tm_last_error = None, tm_origin = PROCESS_LOCAL_TRUTH_LAYER,
      tm_contract = process_local_foundation, tm_capabilities = team_capabilities\<rparr>"

definition team_create ::
  "rstr \<Rightarrow> rstr list \<Rightarrow> u64 \<Rightarrow> TeamRegistry \<Rightarrow> Team \<times> TeamRegistry" where
  "team_create name task_ids ts r =
     (let r1 = r\<lparr>counter := counter r + 1\<rparr>;
          i = make_id ''team'' ts (counter r1);
          t = fresh_team (name, task_ids) ts i in
      (t, reg_insert r1 i t))"

definition team_get :: "TeamRegistry \<Rightarrow> rstr \<Rightarrow> Team option" where
  "team_get r i = reg_get r i"

definition team_list :: "TeamRegistry \<Rightarrow> Team list" where
  "team_list r = reg_list tm_created_at tm_id (\<lambda>_. True) r"

definition team_not_found :: "rstr \<Rightarrow> rstr" where
  "team_not_found i = lit ''team not found: '' @ i"

definition delete_team :: "rstr \<Rightarrow> u64 \<Rightarrow> Team \<Rightarrow> (rstr + Team) \<times> Team" where
  "delete_team i now t =
     (if tm_status t = TeamDeleted then
        (let error = lit ''team already deleted: '' @ i in
         (Inl error, t\<lparr>tm_last_error := Some error,
                       tm_lifecycle := process_local_team_error (lit ''deleted'')\<rparr>))
      else
        (let t' = t\<lparr>tm_status := TeamDeleted, tm_lifecycle := process_local_team (lit ''deleted''),
                    tm_updated_at := now, tm_last_error := None\<rparr> in
         (Inr t', t')))"

definition team_delete :: "rstr \<Rightarrow> u64 \<Rightarrow> TeamRegistry \<Rightarrow> (rstr + Team) \<times> TeamRegistry" where
  "team_delete i now r = with_entry r i (team_not_found i) (delete_team i now)"

definition team_remove :: "TeamRegistry \<Rightarrow> rstr \<Rightarrow> Team option \<times> TeamRegistry" where
  "team_remove r i = reg_remove r i"

definition team_len :: "TeamRegistry \<Rightarrow> nat" where
  "team_len r = reg_len r"

section \<open>Cron entries\<close>

record CronEntry =
  cron_id :: rstr
  schedule :: rstr
  cr_prompt :: rstr
  cr_description :: "rstr option"
  enabled :: bool
  cr_lifecycle :: LifecycleStateSnapshot
  cr_created_at :: u64
  cr_updated_at :: u64
  last_run_at :: "u64 option"
  run_count :: u64
  cr_last_error :: "rstr option"
  disabled_reason :: "rstr option"
  cr_origin :: rstr
  cr_contract :: LifecycleContractSnapshot
  cr_capabilities :: "rstr list"

type_synonym CronRegistry = "CronEntry registry"

definition cron_capabilities :: "rstr list" where
  "cron_capabilities =
     map lit [''get'', ''list'', ''disable'', ''enable'', ''delete'', ''record_run'']"

definition fresh_cron :: "rstr \<times> rstr \<times> rstr option \<Rightarrow> u64 \<Rightarrow> rstr \<Rightarrow> CronEntry" where
  "fresh_cron a ts i =
     \<lparr>cron_id = i, schedule = fst a, cr_prompt = fst (snd a), cr_description = snd (snd a),
      enabled = True, cr_lifecycle = process_local_cron_enabled, cr_created_at = ts,
      cr_updated_at = ts, last_run_at = None, run_count = 0, cr_last_error = None,
      disabled_reason = None, cr_origin = PROCESS_LOCAL_TRUTH_LAYER,
      cr_contract = process_local_foundation, cr_capabilities = cron_capabilities\<rparr>"

definition cron_create ::
  "rstr \<Rightarrow> rstr \<Rightarrow> rstr option \<Rightarrow> u64 \<Rightarrow> CronRegistry \<Rightarrow> CronEntry \<times> CronRegistry" where
  "cron_create sched p d ts r =
     (let r1 = r\<lparr>counter := counter r + 1\<rparr>;
          i = make_id ''cron'' ts (counter r1);
          e = fresh_cron (sched, p, d) ts i in
      (e, reg_insert r1 i e))"

definition cron_get :: "CronRegistry \<Rightarrow> rstr \<Rightarrow> CronEntry option" where
  "cron_get r i = reg_get r i"

definition cron_list :: "bool \<Rightarrow> CronRegistry \<Rightarrow> CronEntry list" where
  "cron_list enabled_only r =
     reg_list cr_created_at cron_id (\<lambda>e. \<not> enabled_only \<or> enabled e) r"

definition cron_not_found :: "rstr \<Rightarrow> rstr" where
  "cron_not_found i = lit ''cron not found: '' @ i"

definition cron_delete :: "rstr \<Rightarrow> CronRegistry \<Rightarrow> (rstr + CronEntry) \<times> CronRegistry" where
  "cron_delete i r =
     (case reg_remove r i of
        (None, r') \<Rightarrow> (Inl (cron_not_found i), r')
      | (Some e, r') \<Rightarrow> (Inr (e\<lparr>cr_lifecycle := process_local_cron_deleted\<rparr>), r'))"

definition disable_cron :: "rstr \<Rightarrow> u64 \<Rightarrow> CronEntry \<Rightarrow> (rstr + unit) \<times> CronEntry" where
  "disable_cron i now e =
     (if \<not> enabled e then
        (let error = lit ''cron already disabled: '' @ i in
         (Inl error, e\<lparr>cr_last_error := Some error,
                       cr_lifecycle := process_local_cron_error (lit ''disabled'')\<rparr>))
      else
        (Inr (), e\<lparr>enabled := False, cr_lifecycle := process_local_cron_disabled,
                   cr_updated_at := now, cr_last_error := None,
                   disabled_reason := Some (lit ''disabled_by_operator_request'')\<rparr>))"

definition cron_disable :: "rstr \<Rightarrow> u64 \<Rightarrow> CronRegistry \<Rightarrow> (rstr + unit) \<times> CronRegistry" where
  "cron_disable i now r = with_entry r i (cron_not_found i) (disable_cron i now)"

definition enable_cron :: "rstr \<Rightarrow> u64 \<Rightarrow> CronEntry \<Rightarrow> (rstr + unit) \<times> CronEntry" where
  "enable_cron i now e =
     (if enabled e then
        (let error = lit ''cron already enabled: '' @ i in
         (Inl error, e\<lparr>cr_last_error := Some error,
                       cr_lifecycle := process_local_cron_error (lit ''enabled'')\<rparr>))
      else
        (Inr (), e\<lparr>enabled := True, cr_lifecycle := process_local_cron_enabled,
                   cr_updated_at := now, cr_last_error := None, disabled_reason := None\<rparr>))"

definition cron_enable :: "rstr \<Rightarrow> u64 \<Rightarrow> CronRegistry \<Rightarrow> (rstr + unit) \<times> CronRegistry" where
  "cron_enable i now r = with_entry r i (cron_not_found i) (enable_cron i now)"

definition run_cron :: "rstr \<Rightarrow> u64 \<Rightarrow> u64 \<Rightarrow> CronEntry \<Rightarrow> (rstr + unit) \<times> CronEntry" where
  "run_cron i now1 now2 e =
     (if \<not> enabled e then
        (let error = lit ''cron is disabled: '' @ i in
         (Inl error, e\<lparr>cr_last_error := Some error,
                       cr_lifecycle := process_local_cron_error (lit ''disabled'')\<rparr>))
      else
        (Inr (), e\<lparr>last_run_at := Some now1, run_count := run_count e + 1,
                   cr_lifecycle := process_local_cron_enabled, cr_updated_at := now2,
                   cr_last_error := None\<rparr>))"

definition cron_record_run ::
  "rstr \<Rightarrow> u64 \<Rightarrow> u64 \<Rightarrow> CronRegistry \<Rightarrow> (rstr + unit) \<times> CronRegistry" where
  "cron_record_run i now1 now2 r = with_entry r i (cron_not_found i) (run_cron i now1 now2)"

definition cron_len :: "CronRegistry \<Rightarrow> nat" where
  "cron_len r = reg_len r"

section \<open>Invariants\<close>

definition team_good :: "Team \<Rightarrow> bool" where
  "team_good t \<longleftrightarrow>
     lc_status (tm_lifecycle t) = team_status_str (tm_status t)
     \<and> lifecycle_consistent (tm_lifecycle t)
     \<and> (tm_status t = TeamCreated \<or> tm_status t = TeamDeleted)"

interpretation teams: id_registry tm_id tm_created_at team_good "''team''" fresh_team
  by unfold_locales (simp_all add: fresh_team_def team_good_def)

definition cron_good :: "CronEntry \<Rightarrow> bool" where
  "cron_good e \<longleftrightarrow>
     lc_status (cr_lifecycle e) = (if enabled e then lit ''enabled'' else lit ''disabled'')
     \<and> lifecycle_consistent (cr_lifecycle e)
     \<and> (enabled e \<longleftrightarrow> disabled_reason e = None)
     \<and> (last_run_at e = None \<longrightarrow> run_count e = 0)"

interpretation crons: id_registry cron_id cr_created_at cron_good "''cron''" fresh_cron
  by unfold_locales (simp_all add: fresh_cron_def cron_good_def)

lemma team_create_add: "team_create name ids ts r = teams.add (name, ids) ts r"
  by (simp add: team_create_def teams.add_def teams.new_id_def Let_def)

lemma cron_create_add: "cron_create s p d ts r = crons.add (s, p, d) ts r"
  by (simp add: cron_create_def crons.add_def crons.new_id_def Let_def)

text \<open>The steps of the two registries, creations included; the number counts the creations.\<close>

inductive team_step :: "nat \<Rightarrow> TeamRegistry \<Rightarrow> nat \<Rightarrow> TeamRegistry \<Rightarrow> bool" where
  "team_step n r (Suc n) (snd (team_create name ids ts r))"
| "team_step n r n (snd (team_delete i now r))"
| "team_step n r n (snd (team_remove r i))"

inductive cron_step :: "nat \<Rightarrow> CronRegistry \<Rightarrow> nat \<Rightarrow> CronRegistry \<Rightarrow> bool" where
  "cron_step n r (Suc n) (snd (cron_create s p d ts r))"
| "cron_step n r n (snd (cron_delete i r))"
| "cron_step n r n (snd (cron_disable i now r))"
| "cron_step n r n (snd (cron_enable i now r))"
| "cron_step n r n (snd (cron_record_run i now1 now2 r))"

inductive team_run :: "nat \<Rightarrow> TeamRegistry \<Rightarrow> bool" where
  team_initial: "team_run 0 registry_new"
| team_more: "team_run n r \<Longrightarrow> team_step n r n' r' \<Longrightarrow> team_run n' r'"

inductive cron_run :: "nat \<Rightarrow> CronRegistry \<Rightarrow> bool" where
  cron_initial: "cron_run 0 registry_new"
| cron_more: "cron_run n r \<Longrightarrow> cron_step n r n' r' \<Longrightarrow> cron_run n' r'"

inductive_cases team_stepE: "team_step n r n' r'"
inductive_cases cron_stepE: "cron_step n r n' r'"

text \<open>What a bounded number of creations does to an invariant and to the counter.\<close>

lemma counter_succ:
  assumes "unat (c :: u64) = n" "Suc n < 2 ^ 64"
  shows "unat (c + 1) = Suc n"
  using assms by (subst unat_add_lem[THEN iffD1]) simp_all

lemma reg_insert_counter [simp]: "counter (reg_insert r k v) = counter r"
  by (simp add: reg_insert_def)

lemma reg_remove_counter [simp]: "counter (snd (reg_remove r k)) = counter r"
  by (simp add: reg_remove_def)

lemma cron_delete_registry: "snd (cron_delete i r) = snd (reg_remove r i)"
  by (simp add: cron_delete_def split: prod.split option.split)

lemmas team_cron_ops = team_delete_def team_remove_def cron_delete_registry cron_disable_def
  cron_enable_def cron_record_run_def

lemma team_delete_ok:
  assumes "reg_ok tm_id team_good r"
  shows "reg_ok tm_id team_good (snd (team_delete i now r))"
  unfolding team_delete_def
  by (rule reg_ok_with_entry[OF assms]) (auto simp: delete_team_def team_good_def Let_def)

lemma cron_ops_ok:
  assumes "reg_ok cron_id cron_good r"
  shows "reg_ok cron_id cron_good (snd (cron_disable i now r))"
    and "reg_ok cron_id cron_good (snd (cron_enable i now r))"
    and "reg_ok cron_id cron_good (snd (cron_record_run i now now2 r))"
  unfolding cron_disable_def cron_enable_def cron_record_run_def
  by (rule reg_ok_with_entry[OF assms];
      auto simp: disable_cron_def enable_cron_def run_cron_def cron_good_def Let_def)+

lemma team_run_inv:
  "team_run n r \<Longrightarrow> n < 2 ^ 64 \<Longrightarrow> reg_ok tm_id team_good r \<and> unat (counter r) = n"
proof (induction rule: team_run.induct)
  case team_initial
  then show ?case by (simp add: registry_new_def reg_ok_def)
next
  case (team_more n r n' r')
  have "n \<le> n'" using team_more.hyps(2) by (auto elim: team_stepE)
  then have r: "reg_ok tm_id team_good r" "unat (counter r) = n"
    using team_more.IH team_more.prems by simp_all
  from team_more.hyps(2) show ?case
  proof (cases rule: team_step.cases)
    case (1 name ids ts)
    then show ?thesis
      using teams.ok_add[OF r(1), of "(name, ids)" ts] counter_succ[OF r(2)] r(2) team_more.prems
      by (simp add: team_create_add) (simp add: teams.add_def Let_def)
  next
    case (2 i now)
    then show ?thesis using r team_delete_ok[OF r(1)] by (simp add: team_delete_def)
  next
    case (3 i)
    then show ?thesis using r by (simp add: team_cron_ops reg_ok_remove)
  qed
qed

lemma cron_run_inv:
  "cron_run n r \<Longrightarrow> n < 2 ^ 64 \<Longrightarrow> reg_ok cron_id cron_good r \<and> unat (counter r) = n"
proof (induction rule: cron_run.induct)
  case cron_initial
  then show ?case by (simp add: registry_new_def reg_ok_def)
next
  case (cron_more n r n' r')
  have "n \<le> n'" using cron_more.hyps(2) by (auto elim: cron_stepE)
  then have r: "reg_ok cron_id cron_good r" "unat (counter r) = n"
    using cron_more.IH cron_more.prems by simp_all
  note ok = cron_ops_ok[OF r(1)] reg_ok_remove[OF r(1)]
  from cron_more.hyps(2) show ?case
  proof (cases rule: cron_step.cases)
    case (1 sched p d ts)
    then show ?thesis
      using crons.ok_add[OF r(1), of "(sched, p, d)" ts] counter_succ[OF r(2)] r(2) cron_more.prems
      by (simp add: cron_create_add) (simp add: crons.add_def Let_def)
  qed (use r ok in \<open>simp_all add: cron_delete_registry cron_disable_def cron_enable_def
      cron_record_run_def\<close>)
qed

text \<open>in every reachable team registry each team is filed under its own id with a unique number,
  its lifecycle shows its status, and no team is ever running or completed: the only states a team
  can be in are created and deleted.\<close>

theorem team_registry_invariant:
  assumes "team_run n r" "n < 2 ^ 64" "team_get r i = Some t"
  shows "tm_id t = i \<and> (tm_status t = TeamCreated \<or> tm_status t = TeamDeleted)
    \<and> lc_status (tm_lifecycle t) = team_status_str (tm_status t)"
  using team_run_inv[OF assms(1,2)] reg_ok_get[of tm_id team_good r i t] assms(3)
  by (simp add: team_get_def team_good_def)

lemma demo_team_run: "team_run (Suc 0) (snd (team_create (lit ''a'') [] 9 registry_new))"
  by (rule team_run.team_more[OF team_run.team_initial team_step.intros(1)])

theorem team_registry_invariant_witness:
  "\<exists>t. team_get (snd (team_create (lit ''a'') [] 9 registry_new)) (make_id ''team'' 9 1) = Some t
     \<and> tm_id t = make_id ''team'' 9 1"
proof -
  obtain t where t: "team_get (snd (team_create (lit ''a'') [] 9 registry_new)) (make_id ''team'' 9 1) = Some t"
    by (simp add: team_get_def team_create_def Let_def registry_new_def reg_insert_def reg_get_def)
  then show ?thesis using team_registry_invariant[OF demo_team_run _ t] by auto
qed

text \<open>in every reachable cron registry an entry is enabled exactly when it has no reason for being
  disabled, its lifecycle says the same, and an entry that never ran has a run count of zero.\<close>

theorem cron_registry_invariant:
  assumes "cron_run n r" "n < 2 ^ 64" "cron_get r i = Some e"
  shows "cron_id e = i
    \<and> (enabled e \<longleftrightarrow> disabled_reason e = None)
    \<and> lc_status (cr_lifecycle e) = (if enabled e then lit ''enabled'' else lit ''disabled'')
    \<and> (last_run_at e = None \<longrightarrow> run_count e = 0)"
  using cron_run_inv[OF assms(1,2)] reg_ok_get[of cron_id cron_good r i e] assms(3)
  by (simp add: cron_get_def cron_good_def)

lemma demo_cron_run:
  "cron_run (Suc 0) (snd (cron_create (lit ''0 5 * * *'') (lit ''p'') None 9 registry_new))"
  by (rule cron_run.cron_more[OF cron_run.cron_initial cron_step.intros(1)])

theorem cron_registry_invariant_witness:
  "\<exists>e. cron_get (snd (cron_create (lit ''0 5 * * *'') (lit ''p'') None 9 registry_new))
         (make_id ''cron'' 9 1) = Some e \<and> cron_id e = make_id ''cron'' 9 1"
proof -
  obtain e where e: "cron_get (snd (cron_create (lit ''0 5 * * *'') (lit ''p'') None 9 registry_new))
      (make_id ''cron'' 9 1) = Some e"
    by (simp add: cron_get_def cron_create_def Let_def registry_new_def reg_insert_def reg_get_def)
  then show ?thesis using cron_registry_invariant[OF demo_cron_run _ e] by auto
qed

text \<open>the three guarded operations of a cron entry: a run is recorded, and its counter advanced by
  one, exactly when the entry is enabled; disabling succeeds exactly when it is enabled and enabling
  exactly when it is not; a refused operation leaves the flag and the run count alone; and disabling
  then enabling restores the flag.\<close>

theorem cron_guards:
  assumes "cron_get r i = Some e"
  shows "(fst (cron_record_run i t1 t2 r) = Inr () \<longleftrightarrow> enabled e)
    \<and> map_option run_count (cron_get (snd (cron_record_run i t1 t2 r)) i) =
        Some (if enabled e then run_count e + 1 else run_count e)
    \<and> (fst (cron_disable i t1 r) = Inr () \<longleftrightarrow> enabled e)
    \<and> (fst (cron_enable i t1 r) = Inr () \<longleftrightarrow> \<not> enabled e)
    \<and> map_option enabled (cron_get (snd (cron_disable i t1 r)) i) = Some False
    \<and> map_option enabled (cron_get (snd (cron_enable i t1 r)) i) = Some True
    \<and> map_option run_count (cron_get (snd (cron_disable i t1 r)) i) = Some (run_count e)
    \<and> map_option run_count (cron_get (snd (cron_enable i t1 r)) i) = Some (run_count e)
    \<and> fst (cron_enable i t2 (snd (cron_disable i t1 r))) = Inr ()"
proof -
  have d: "reg_get (snd (cron_disable i t1 r)) i = Some (snd (disable_cron i t1 e))"
    using assms by (simp add: cron_get_def cron_disable_def with_entry_get)
  have "fst (cron_enable i t2 (snd (cron_disable i t1 r))) = fst (enable_cron i t2 (snd (disable_cron i t1 e)))"
    unfolding cron_enable_def by (rule with_entry_result[OF d])
  then show ?thesis
    using assms d
    by (simp add: cron_get_def cron_record_run_def cron_enable_def with_entry_result with_entry_get
        run_cron_def enable_cron_def Let_def)
      (simp add: cron_disable_def with_entry_result disable_cron_def Let_def)
qed

theorem cron_guards_witness:
  "fst (cron_record_run (lit ''c'') 3 3 \<lparr>entries = [(lit ''c'', fresh_cron (lit ''* * * * *'', lit ''p'', None) 1 (lit ''c''))],
     counter = 1\<rparr>) = Inr ()"
  using cron_guards[of "\<lparr>entries = [(lit ''c'', fresh_cron (lit ''* * * * *'', lit ''p'', None) 1 (lit ''c''))],
     counter = 1\<rparr>" "lit ''c''" _ 3 3]
  by (simp add: cron_get_def reg_get_def) (simp add: fresh_cron_def)

text \<open>a deleted team stays in the registry as a tombstone and cannot be deleted again; a deleted
  cron entry is gone, and neither operation touches any other entry.\<close>

theorem team_and_cron_deletion:
  "(\<exists>x. fst (team_delete i t2 (snd (team_delete i t1 r))) = Inl x)
   \<and> (team_get r i \<noteq> None \<longrightarrow>
        map_option tm_status (team_get (snd (team_delete i t1 r)) i) = Some TeamDeleted)
   \<and> (\<forall>j. j \<noteq> i \<longrightarrow> team_get (snd (team_delete i t1 r)) j = team_get r j)
   \<and> cron_get (snd (cron_delete i c)) i = None
   \<and> fst (cron_delete i (snd (cron_delete i c))) = Inl (cron_not_found i)
   \<and> (\<forall>j. j \<noteq> i \<longrightarrow> cron_get (snd (cron_delete i c)) j = cron_get c j)"
proof -
  have t: "team_get (snd (team_delete i t1 r)) j =
      (if j = i then map_option (\<lambda>t. snd (delete_team i t1 t)) (team_get r i) else team_get r j)" for j
    by (simp add: team_get_def team_delete_def with_entry_get)
  have c: "cron_get (snd (cron_delete i c)) j = (if j = i then None else cron_get c j)" for j
    by (simp add: cron_get_def cron_delete_registry)
  have "\<exists>x. fst (team_delete i t2 (snd (team_delete i t1 r))) = Inl x"
  proof (cases "team_get r i")
    case None
    then have "reg_get (snd (team_delete i t1 r)) i = None" using t[of i] by (simp add: team_get_def)
    then have "fst (team_delete i t2 (snd (team_delete i t1 r))) = Inl (team_not_found i)"
      unfolding team_delete_def[of i t2] by (simp add: with_entry_missing)
    then show ?thesis by blast
  next
    case (Some u)
    then have "reg_get (snd (team_delete i t1 r)) i = Some (snd (delete_team i t1 u))"
      using t[of i] by (simp add: team_get_def)
    then have "fst (team_delete i t2 (snd (team_delete i t1 r))) =
        fst (delete_team i t2 (snd (delete_team i t1 u)))"
      unfolding team_delete_def[of i t2] by (rule with_entry_result)
    then show ?thesis by (simp add: delete_team_def Let_def)
  qed
  moreover have "fst (cron_delete i (snd (cron_delete i c))) = Inl (cron_not_found i)"
    using c[of i] by (simp add: cron_get_def) (simp add: cron_delete_def reg_remove_def)
  moreover have "team_get r i \<noteq> None \<longrightarrow>
      map_option tm_status (team_get (snd (team_delete i t1 r)) i) = Some TeamDeleted"
    by (cases "team_get r i") (simp_all add: t delete_team_def Let_def)
  ultimately show ?thesis by (simp add: t c)
qed

theorem team_and_cron_deletion_witness:
  "map_option tm_status (team_get (snd (team_delete (make_id ''team'' 9 1) 10
     (snd (team_create (lit ''a'') [] 9 registry_new)))) (make_id ''team'' 9 1)) = Some TeamDeleted"
proof -
  have "team_get (snd (team_create (lit ''a'') [] 9 registry_new)) (make_id ''team'' 9 1) \<noteq> None"
    by (simp add: team_get_def team_create_def Let_def registry_new_def reg_insert_def reg_get_def)
  then show ?thesis
    using team_and_cron_deletion[where i = "make_id ''team'' 9 1" and ?t1.0 = 10
      and r = "snd (team_create (lit ''a'') [] 9 registry_new)"] by blast
qed

end
