(* ===== verification/Bootstrap.thy ===== *)
theory Bootstrap
  imports Main
begin

text \<open>The start-up plan of \<open>runtime/src/bootstrap.rs\<close>: the phases in order, without repetitions.\<close>

datatype BootstrapPhase =
    CliEntry
  | FastPathVersion
  | StartupProfiler
  | SystemPromptFastPath
  | ChromeMcpFastPath
  | DaemonWorkerFastPath
  | BridgeFastPath
  | DaemonFastPath
  | BackgroundSessionFastPath
  | TemplateFastPath
  | EnvironmentRunnerFastPath
  | MainRuntime

record BootstrapPlan =
  phases :: "BootstrapPhase list"

definition dedup_phase :: "BootstrapPhase list \<Rightarrow> BootstrapPhase \<Rightarrow> BootstrapPhase list" where
  "dedup_phase deduped phase = (if phase \<notin> set deduped then deduped @ [phase] else deduped)"

definition from_phases :: "BootstrapPhase list \<Rightarrow> BootstrapPlan" where
  "from_phases ps = \<lparr>phases = foldl dedup_phase [] ps\<rparr>"

definition openyak_default :: BootstrapPlan where
  "openyak_default = from_phases
     [CliEntry, FastPathVersion, StartupProfiler, SystemPromptFastPath, ChromeMcpFastPath,
      DaemonWorkerFastPath, BridgeFastPath, DaemonFastPath, BackgroundSessionFastPath,
      TemplateFastPath, EnvironmentRunnerFastPath, MainRuntime]"

lemma foldl_dedup:
  "distinct acc \<Longrightarrow> foldl dedup_phase acc ps = acc @ rev (remdups (rev (filter (\<lambda>p. p \<notin> set acc) ps)))"
proof (induction ps rule: rev_induct)
  case Nil
  then show ?case by simp
next
  case (snoc p ps)
  then show ?case by (auto simp: dedup_phase_def)
qed

text \<open>a plan keeps the first occurrence of every phase and drops the later ones: no phase runs
  twice, none is lost, and a plan that has no repetition is kept as it is; the default plan runs all
  twelve phases and ends in the main runtime.\<close>

theorem bootstrap_plan_first_occurrences:
  "phases (from_phases ps) = rev (remdups (rev ps))
   \<and> distinct (phases (from_phases ps))
   \<and> set (phases (from_phases ps)) = set ps
   \<and> from_phases (phases (from_phases ps)) = from_phases ps
   \<and> length (phases openyak_default) = 12 \<and> last (phases openyak_default) = MainRuntime"
proof -
  have p: "phases (from_phases qs) = rev (remdups (rev qs))" for qs
    using foldl_dedup[of "[]" qs] by (simp add: from_phases_def)
  have "from_phases (phases (from_phases ps)) = from_phases ps"
    using foldl_dedup[of "[]" "rev (remdups (rev ps))"] foldl_dedup[of "[]" ps]
    by (simp add: from_phases_def distinct_remdups_id)
  then show ?thesis by (simp add: p) (simp add: openyak_default_def from_phases_def dedup_phase_def)
qed

end
