(* ===== verification/Hooks.thy ===== *)
theory Hooks
  imports Rust_Str
begin

text \<open>
  The tool hooks of \<open>runtime/src/hooks.rs\<close> with their configuration (\<open>runtime/src/config.rs\<close>).
  Starting a shell command and waiting for it is the parameter \<open>hook_process\<close>: it gets the command,
  what the code passes it, and the world, and returns the decoded output and exit code (\<open>None\<close> after
  a signal) or the error of starting it. The JSON text of the payload is made by \<open>serde_json\<close> and is
  the parameter \<open>payload_json\<close>.
\<close>

datatype HookEvent = PreToolUse | PostToolUse

fun hook_event_str :: "HookEvent \<Rightarrow> rstr" where
  "hook_event_str PreToolUse = lit ''PreToolUse''"
| "hook_event_str PostToolUse = lit ''PostToolUse''"

record HookRunResult =
  denied :: bool
  hook_messages :: "rstr list"

definition hook_allow :: "rstr list \<Rightarrow> HookRunResult" where
  "hook_allow ms = \<lparr>denied = False, hook_messages = ms\<rparr>"

record RuntimeHookConfig =
  pre_tool_use :: "rstr list"
  post_tool_use :: "rstr list"

definition RuntimeHookConfig_default :: RuntimeHookConfig where
  "RuntimeHookConfig_default = \<lparr>pre_tool_use = [], post_tool_use = []\<rparr>"

definition push_unique :: "rstr list \<Rightarrow> rstr \<Rightarrow> rstr list" where
  "push_unique target v = (if v \<in> set target then target else target @ [v])"

definition extend_unique :: "rstr list \<Rightarrow> rstr list \<Rightarrow> rstr list" where
  "extend_unique target vs = foldl push_unique target vs"

definition hook_config_merged :: "RuntimeHookConfig \<Rightarrow> RuntimeHookConfig \<Rightarrow> RuntimeHookConfig" where
  "hook_config_merged a b =
     \<lparr>pre_tool_use = extend_unique (pre_tool_use a) (pre_tool_use b),
      post_tool_use = extend_unique (post_tool_use a) (post_tool_use b)\<rparr>"

record HookCommandRequest =
  hook_event :: HookEvent
  hook_tool_name :: rstr
  hook_tool_input :: rstr
  hook_tool_output :: "rstr option"
  hook_is_error :: bool
  hook_payload :: rstr

record ProcessOutput =
  po_stdout :: rstr
  po_stderr :: rstr
  po_code :: "int option"

datatype HookCommandOutcome =
    HookAllow "rstr option"
  | HookDeny "rstr option"
  | HookWarn rstr

definition format_hook_warning :: "rstr \<Rightarrow> int \<Rightarrow> rstr option \<Rightarrow> rstr \<Rightarrow> rstr" where
  "format_hook_warning command code out err =
     lit ''Hook '' @ [96] @ command @ [96] @ lit '' exited with status '' @ show_int code
     @ lit ''; allowing tool execution to continue''
     @ (case out of
          Some s \<Rightarrow> if s \<noteq> [] then lit '': '' @ s
                    else if err \<noteq> [] then lit '': '' @ err else []
        | None \<Rightarrow> if err \<noteq> [] then lit '': '' @ err else [])"

type_synonym 'w hook_process =
  "rstr \<Rightarrow> HookCommandRequest \<Rightarrow> 'w \<Rightarrow> (rstr + ProcessOutput) \<times> 'w"

definition hook_outcome :: "rstr \<Rightarrow> HookCommandRequest \<Rightarrow> rstr + ProcessOutput \<Rightarrow> HookCommandOutcome" where
  "hook_outcome command req res =
     (case res of
        Inr out \<Rightarrow>
          (let stdout = trim (po_stdout out);
               stderr = trim (po_stderr out);
               message = (if stdout \<noteq> [] then Some stdout else None) in
           case po_code out of
             Some code \<Rightarrow>
               if code = 0 then HookAllow message
               else if code = 2 then HookDeny message
               else HookWarn (format_hook_warning command code message stderr)
           | None \<Rightarrow>
               HookWarn (hook_event_str (hook_event req) @ lit '' hook '' @ [96] @ command @ [96]
                 @ lit '' terminated by signal while handling '' @ [96] @ hook_tool_name req @ [96]))
      | Inl e \<Rightarrow>
          HookWarn (hook_event_str (hook_event req) @ lit '' hook '' @ [96] @ command @ [96]
            @ lit '' failed to start for '' @ [96] @ hook_tool_name req @ [96] @ lit '': '' @ e))"

definition run_command ::
  "'w hook_process \<Rightarrow> rstr \<Rightarrow> HookCommandRequest \<Rightarrow> 'w \<Rightarrow> HookCommandOutcome \<times> 'w" where
  "run_command hook_process command req w =
     (case hook_process command req w of (res, w') \<Rightarrow> (hook_outcome command req res, w'))"

fun run_commands_loop ::
  "'w hook_process \<Rightarrow> HookCommandRequest \<Rightarrow> rstr list \<Rightarrow> rstr list \<Rightarrow> 'w \<Rightarrow> HookRunResult \<times> 'w" where
  "run_commands_loop proc req msgs [] w = (hook_allow msgs, w)"
| "run_commands_loop proc req msgs (c # cs) w =
     (case run_command proc c req w of
        (HookAllow m, w') \<Rightarrow>
          run_commands_loop proc req (case m of None \<Rightarrow> msgs | Some t \<Rightarrow> msgs @ [t]) cs w'
      | (HookDeny m, w') \<Rightarrow>
          (\<lparr>denied = True,
            hook_messages = msgs @ [unwrap_or (hook_event_str (hook_event req)
              @ lit '' hook denied tool '' @ [96] @ hook_tool_name req @ [96]) m]\<rparr>, w')
      | (HookWarn m, w') \<Rightarrow> run_commands_loop proc req (msgs @ [m]) cs w')"

type_synonym payload_json = "HookEvent \<Rightarrow> rstr \<Rightarrow> rstr \<Rightarrow> rstr option \<Rightarrow> bool \<Rightarrow> rstr"

definition run_commands ::
  "'w hook_process \<Rightarrow> payload_json \<Rightarrow> HookEvent \<Rightarrow> rstr list \<Rightarrow> rstr \<Rightarrow> rstr \<Rightarrow> rstr option \<Rightarrow> bool
     \<Rightarrow> 'w \<Rightarrow> HookRunResult \<times> 'w" where
  "run_commands proc payload_json event commands tool inp out err w =
     (if commands = [] then (hook_allow [], w)
      else
        run_commands_loop proc
          \<lparr>hook_event = event, hook_tool_name = tool, hook_tool_input = inp, hook_tool_output = out,
           hook_is_error = err, hook_payload = payload_json event tool inp out err\<rparr>
          [] commands w)"

definition run_pre_tool_use ::
  "'w hook_process \<Rightarrow> payload_json \<Rightarrow> RuntimeHookConfig \<Rightarrow> rstr \<Rightarrow> rstr \<Rightarrow> 'w \<Rightarrow> HookRunResult \<times> 'w" where
  "run_pre_tool_use proc payload_json config tool inp w =
     run_commands proc payload_json PreToolUse (pre_tool_use config) tool inp None False w"

definition run_post_tool_use ::
  "'w hook_process \<Rightarrow> payload_json \<Rightarrow> RuntimeHookConfig \<Rightarrow> rstr \<Rightarrow> rstr \<Rightarrow> rstr \<Rightarrow> bool \<Rightarrow> 'w
     \<Rightarrow> HookRunResult \<times> 'w" where
  "run_post_tool_use proc payload_json config tool inp out err w =
     run_commands proc payload_json PostToolUse (post_tool_use config) tool inp (Some out) err w"

section \<open>Lemmas\<close>

text \<open>Running a prefix of the commands, none of which denies.\<close>

fun hooks_pass :: "'w hook_process \<Rightarrow> HookCommandRequest \<Rightarrow> rstr list \<Rightarrow> 'w \<Rightarrow> 'w option" where
  "hooks_pass proc req [] w = Some w"
| "hooks_pass proc req (c # cs) w =
     (case run_command proc c req w of
        (HookDeny m, w') \<Rightarrow> None
      | (HookAllow m, w') \<Rightarrow> hooks_pass proc req cs w'
      | (HookWarn m, w') \<Rightarrow> hooks_pass proc req cs w')"

definition exit_code :: "rstr + ProcessOutput \<Rightarrow> int option" where
  "exit_code res = (case res of Inl e \<Rightarrow> None | Inr out \<Rightarrow> po_code out)"

lemma hook_outcome_deny: "(\<exists>m. hook_outcome c req res = HookDeny m) \<longleftrightarrow> exit_code res = Some 2"
  by (auto simp: hook_outcome_def exit_code_def Let_def split: sum.splits option.splits)

lemma run_commands_loop_denied:
  "run_commands_loop proc req msgs cs w = (r, w') \<Longrightarrow> denied r \<Longrightarrow>
     \<exists>pre c post w1 m. cs = pre @ c # post \<and> hooks_pass proc req pre w = Some w1
       \<and> run_command proc c req w1 = (HookDeny m, w')"
proof (induction cs arbitrary: msgs w)
  case Nil
  then show ?case by (auto simp: hook_allow_def)
next
  case (Cons c cs)
  obtain oc w1 where c: "run_command proc c req w = (oc, w1)" by (cases "run_command proc c req w")
  show ?case
  proof (cases oc)
    case (HookDeny m)
    with Cons.prems c have "run_command proc c req w = (HookDeny m, w')" by simp
    then have "c # cs = [] @ c # cs \<and> hooks_pass proc req [] w = Some w
        \<and> run_command proc c req w = (HookDeny m, w')" by simp
    then show ?thesis by blast
  next
    case (HookAllow m)
    with Cons c obtain pre d post w2 m' where
      "cs = pre @ d # post" "hooks_pass proc req pre w1 = Some w2"
      "run_command proc d req w2 = (HookDeny m', w')"
      by (fastforce split: option.splits)
    then have "c # cs = (c # pre) @ d # post \<and> hooks_pass proc req (c # pre) w = Some w2
        \<and> run_command proc d req w2 = (HookDeny m', w')"
      using c HookAllow by simp
    then show ?thesis by blast
  next
    case (HookWarn m)
    with Cons c obtain pre d post w2 m' where
      "cs = pre @ d # post" "hooks_pass proc req pre w1 = Some w2"
      "run_command proc d req w2 = (HookDeny m', w')"
      by fastforce
    then have "c # cs = (c # pre) @ d # post \<and> hooks_pass proc req (c # pre) w = Some w2
        \<and> run_command proc d req w2 = (HookDeny m', w')"
      using c HookWarn by simp
    then show ?thesis by blast
  qed
qed

lemma run_commands_loop_append:
  "hooks_pass proc req pre w = Some w1 \<Longrightarrow>
     \<exists>ms. run_commands_loop proc req msgs (pre @ post) w = run_commands_loop proc req ms post w1"
proof (induction pre arbitrary: msgs w)
  case (Cons c cs)
  then show ?case
    by (auto split: prod.splits HookCommandOutcome.splits)
qed auto

lemma run_commands_not_denied:
  "run_commands_loop proc req msgs cs w = (r, w') \<Longrightarrow> \<not> denied r \<Longrightarrow> hooks_pass proc req cs w = Some w'"
proof (induction cs arbitrary: msgs w)
  case (Cons c cs)
  then show ?case
    by (auto split: prod.splits HookCommandOutcome.splits)
qed simp

text \<open>the hooks of an event deny a tool exactly because one of them exits with status 2, and the
  first one that does ends the run: the hooks before it all ran and passed, those after it are not
  started. Any other status, a signal or a command that does not start never denies.\<close>

theorem hook_denial:
  assumes "run_commands proc pj event commands tool inp out err w = (r, w')"
    and "req = \<lparr>hook_event = event, hook_tool_name = tool, hook_tool_input = inp,
      hook_tool_output = out, hook_is_error = err, hook_payload = pj event tool inp out err\<rparr>"
  shows "(denied r \<longleftrightarrow>
      (\<exists>pre c post w1 res w2. commands = pre @ c # post \<and> hooks_pass proc req pre w = Some w1
         \<and> proc c req w1 = (res, w2) \<and> exit_code res = Some 2))
    \<and> (denied r \<longrightarrow>
      (\<exists>pre c post w1 res. commands = pre @ c # post \<and> hooks_pass proc req pre w = Some w1
         \<and> proc c req w1 = (res, w') \<and> exit_code res = Some 2))
    \<and> (\<not> denied r \<longrightarrow> hooks_pass proc req commands w = Some w')"
proof -
  have run: "run_commands_loop proc req [] commands w = (r, w')"
    using assms by (cases commands) (auto simp: run_commands_def)
  have deny: "\<exists>res. proc c req w1 = (res, w2) \<and> exit_code res = Some 2"
    if d: "run_command proc c req w1 = (HookDeny m, w2)" for c w1 m w2
  proof -
    obtain res where res: "proc c req w1 = (res, w2)" "hook_outcome c req res = HookDeny m"
      using d by (auto simp: run_command_def split: prod.splits)
    then have "exit_code res = Some 2" using hook_outcome_deny[of c req res] by blast
    with res(1) show ?thesis by blast
  qed
  have fwd: "denied r \<Longrightarrow> \<exists>pre c post w1 res. commands = pre @ c # post \<and> hooks_pass proc req pre w = Some w1
         \<and> proc c req w1 = (res, w') \<and> exit_code res = Some 2"
  proof -
    assume "denied r"
    then obtain pre c post w1 m where h: "commands = pre @ c # post"
      "hooks_pass proc req pre w = Some w1" "run_command proc c req w1 = (HookDeny m, w')"
      using run_commands_loop_denied[OF run] by metis
    obtain res where "proc c req w1 = (res, w')" "exit_code res = Some 2" using deny[OF h(3)] by metis
    with h(1,2) show ?thesis by (intro exI conjI)
  qed
  have bwd: "denied r" if h: "commands = pre @ c # post" "hooks_pass proc req pre w = Some w1"
    "proc c req w1 = (res, w2)" "exit_code res = Some 2" for pre c post w1 res w2
  proof -
    obtain m where "hook_outcome c req res = HookDeny m"
      using h(4) hook_outcome_deny by blast
    then have "run_command proc c req w1 = (HookDeny m, w2)"
      using h(3) by (simp add: run_command_def)
    then show ?thesis
      using run run_commands_loop_append[OF h(2), of "[]" "c # post"] h(1) by auto
  qed
  show ?thesis
  proof (intro conjI impI iffI)
    assume "denied r"
    from fwd[OF this] show "\<exists>pre c post w1 res w2. commands = pre @ c # post
        \<and> hooks_pass proc req pre w = Some w1 \<and> proc c req w1 = (res, w2) \<and> exit_code res = Some 2"
      by metis
  qed (use bwd fwd run_commands_not_denied[OF run] in metis)+
qed

text \<open>A world that counts the processes it started; a hook named \<open>no\<close> exits with status 2.\<close>

definition counting_process :: "nat hook_process" where
  "counting_process c req n =
     (Inr \<lparr>po_stdout = [], po_stderr = [], po_code = Some (if c = lit ''no'' then 2 else 0)\<rparr>, n + 1)"

theorem hook_denial_witness:
  "denied (fst (run_commands counting_process (\<lambda>e t i out err. []) PreToolUse
      [lit ''yes'', lit ''no'', lit ''later''] (lit ''bash'') [] None False 0))
   \<and> snd (run_commands counting_process (\<lambda>e t i out err. []) PreToolUse
      [lit ''yes'', lit ''no'', lit ''later''] (lit ''bash'') [] None False 0) = 2"
proof -
  obtain r w' where r: "run_commands counting_process (\<lambda>e t i out err. []) PreToolUse
      [lit ''yes'', lit ''no'', lit ''later''] (lit ''bash'') [] None False 0 = (r, w')"
    by (cases "run_commands counting_process (\<lambda>e t i out err. []) PreToolUse
      [lit ''yes'', lit ''no'', lit ''later''] (lit ''bash'') [] None False 0")
  have "w' = 2"
    using r by (simp add: run_commands_def run_command_def counting_process_def hook_outcome_def Let_def
        split: if_splits)
  moreover have "denied r"
    using hook_denial[OF r refl] by (fastforce simp: run_command_def counting_process_def
        hook_outcome_def exit_code_def Let_def intro: exI[of _ "[lit ''yes'']"])
  ultimately show ?thesis using r by simp
qed

text \<open>merging hook configurations keeps the order, the base's hooks first, and adds every hook of
  the other configuration at most once; a configuration without duplicates stays so, and merging the
  same configuration again changes nothing.\<close>

theorem hook_config_merge:
  "set (extend_unique target vs) = set target \<union> set vs
   \<and> (distinct (extend_unique target vs) \<longleftrightarrow> distinct target)
   \<and> (\<exists>added. extend_unique target vs = target @ added)
   \<and> extend_unique (extend_unique target vs) vs = extend_unique target vs"
proof -
  have s: "set (extend_unique t vs) = set t \<union> set vs" for t vs
    by (induction vs arbitrary: t) (auto simp: extend_unique_def push_unique_def)
  have d: "distinct (extend_unique t vs) \<longleftrightarrow> distinct t" for t vs
    by (induction vs arbitrary: t) (auto simp: extend_unique_def push_unique_def)
  have p: "\<exists>added. extend_unique t vs = t @ added" for t vs
  proof (induction vs arbitrary: t)
    case (Cons v vs)
    obtain added where "extend_unique (push_unique t v) vs = push_unique t v @ added"
      using Cons.IH by blast
    then show ?case by (auto simp: extend_unique_def push_unique_def)
  qed (simp add: extend_unique_def)
  have i: "set vs \<subseteq> set t \<Longrightarrow> extend_unique t vs = t" for t vs
    by (induction vs arbitrary: t) (auto simp: extend_unique_def push_unique_def)
  show ?thesis using s[of target vs] d[of target vs] p[of target vs] i[of vs "extend_unique target vs"]
    by auto
qed

end
