(* ===== verification/Conversation.thy ===== *)
theory Conversation
  imports Compact Permissions Hooks
begin

text \<open>
  The conversation runtime of \<open>runtime/src/conversation.rs\<close>: a turn sends the history to the model,
  records its answer, runs the tools it asks for - each behind the permission policy and the hooks -
  and repeats until an answer asks for nothing.

  The model service, the tools, the two prompters and the hook processes are the caller's code: they
  are functions of an environment over a world \<open>'w\<close> they may change.
\<close>

section \<open>Data\<close>

record UserInputRequest =
  request_id :: rstr
  req_text :: rstr
  options :: "rstr list"
  allow_freeform :: bool

definition request_from_pending :: "PendingUserInputRequest \<Rightarrow> UserInputRequest" where
  "request_from_pending p =
     \<lparr>request_id = pending_id p, req_text = pending_prompt p, options = pending_options p,
      allow_freeform = pending_freeform p\<rparr>"

record UserInputResponse =
  response_id :: rstr
  content :: rstr
  selected_option :: "rstr option"

datatype UserInputOutcome = Submitted UserInputResponse | Cancelled | Unavailable rstr

record ApiRequest =
  api_system_prompt :: "rstr list"
  api_messages :: "ConversationMessage list"

datatype AssistantEvent =
    TextDelta rstr
  | ToolUseEvent rstr rstr rstr
  | RequestUserInput UserInputRequest
  | UsageEvent TokenUsage
  | MessageStop

record RuntimeError =
  error_message :: rstr
  error_pending :: "UserInputRequest option"

definition RuntimeError_new :: "rstr \<Rightarrow> RuntimeError" where
  "RuntimeError_new m = \<lparr>error_message = m, error_pending = None\<rparr>"

definition RuntimeError_pending :: "UserInputRequest \<Rightarrow> rstr \<Rightarrow> RuntimeError" where
  "RuntimeError_pending r m = \<lparr>error_message = m, error_pending = Some r\<rparr>"

record TurnSummary =
  assistant_messages :: "ConversationMessage list"
  tool_results :: "ConversationMessage list"
  iterations :: "64 word"
  turn_usage :: TokenUsage

record 'w Env =
  api_stream :: "ApiRequest \<Rightarrow> 'w \<Rightarrow> (RuntimeError + AssistantEvent list) \<times> 'w"
  tool_execute :: "rstr \<Rightarrow> rstr \<Rightarrow> 'w \<Rightarrow> (rstr + rstr) \<times> 'w"
  permission_prompter :: "'w prompter option"
  user_prompter :: "(UserInputRequest \<Rightarrow> 'w \<Rightarrow> UserInputOutcome \<times> 'w) option"
  env_hook_process :: "'w hook_process"
  env_payload_json :: payload_json

record Runtime =
  session :: Session
  permission_policy :: PermissionPolicy
  system_prompt :: "rstr list"
  max_iterations :: "64 word"
  usage_tracker :: UsageTracker
  hook_config :: RuntimeHookConfig

text \<open>\<open>usize::MAX\<close> is the default limit.\<close>

definition Runtime_new ::
  "Session \<Rightarrow> PermissionPolicy \<Rightarrow> rstr list \<Rightarrow> RuntimeHookConfig \<Rightarrow> Runtime" where
  "Runtime_new s p sys hooks =
     \<lparr>session = s, permission_policy = p, system_prompt = sys, max_iterations = - 1,
      usage_tracker = tracker_from_session s, hook_config = hooks\<rparr>"

definition with_max_iterations :: "Runtime \<Rightarrow> 64 word \<Rightarrow> Runtime" where
  "with_max_iterations rt n = rt\<lparr>max_iterations := n\<rparr>"

definition push_message :: "ConversationMessage \<Rightarrow> Runtime \<Rightarrow> Runtime" where
  "push_message m rt = rt\<lparr>session := (session rt)\<lparr>messages := messages (session rt) @ [m]\<rparr>\<rparr>"

definition record_usage :: "TokenUsage option \<Rightarrow> Runtime \<Rightarrow> Runtime" where
  "record_usage u rt =
     (case u of None \<Rightarrow> rt
      | Some u \<Rightarrow> rt\<lparr>usage_tracker := tracker_record (usage_tracker rt) u\<rparr>)"

section \<open>Assembling the assistant message\<close>

definition flush_text_block :: "rstr \<Rightarrow> ContentBlock list \<Rightarrow> ContentBlock list" where
  "flush_text_block t bs = (if t \<noteq> [] then bs @ [Text t] else bs)"

fun assemble ::
  "rstr \<Rightarrow> ContentBlock list \<Rightarrow> bool \<Rightarrow> TokenUsage option \<Rightarrow> AssistantEvent list
     \<Rightarrow> rstr \<times> ContentBlock list \<times> bool \<times> TokenUsage option" where
  "assemble t bs fin u [] = (t, bs, fin, u)"
| "assemble t bs fin u (TextDelta d # es) = assemble (t @ d) bs fin u es"
| "assemble t bs fin u (ToolUseEvent i n inp # es) =
     assemble [] (flush_text_block t bs @ [ToolUse i n inp]) fin u es"
| "assemble t bs fin u (RequestUserInput r # es) =
     assemble [] (flush_text_block t bs
       @ [UserInputRequest (request_id r) (req_text r) (options r) (allow_freeform r)]) fin u es"
| "assemble t bs fin u (UsageEvent v # es) = assemble t bs fin (Some v) es"
| "assemble t bs fin u (MessageStop # es) = assemble t bs True u es"

definition build_assistant_message ::
  "AssistantEvent list \<Rightarrow> RuntimeError + (ConversationMessage \<times> TokenUsage option)" where
  "build_assistant_message events =
     (let (t, bs, finished, u) = assemble [] [] False None events;
          bs = flush_text_block t bs in
      if \<not> finished then
        Inl (RuntimeError_new (lit ''assistant stream ended without a message stop event''))
      else if bs = [] then Inl (RuntimeError_new (lit ''assistant stream produced no content''))
      else Inr (assistant_with_usage bs u, u))"

section \<open>Tools\<close>

definition format_hook_message :: "HookRunResult \<Rightarrow> rstr \<Rightarrow> rstr" where
  "format_hook_message r fallback =
     (if hook_messages r = [] then fallback else join [10] (hook_messages r))"

definition merge_hook_feedback :: "rstr list \<Rightarrow> rstr \<Rightarrow> bool \<Rightarrow> rstr" where
  "merge_hook_feedback msgs output_text was_denied =
     (if msgs = [] then output_text
      else
        (let label = (if was_denied then lit ''Hook feedback (denied)'' else lit ''Hook feedback'') in
         join [10, 10]
           ((if trim output_text \<noteq> [] then [output_text] else [])
            @ [label @ lit '':'' @ [10] @ join [10] msgs])))"

definition resolve_user_input_request ::
  "'w Env \<Rightarrow> UserInputRequest \<Rightarrow> 'w \<Rightarrow> (RuntimeError + ConversationMessage) \<times> 'w" where
  "resolve_user_input_request env req w =
     (let subject = lit ''request-user-input '' @ [39] @ request_id req @ [39] in
      case user_prompter env of
        None \<Rightarrow>
          (Inl (RuntimeError_pending req
             (subject @ lit '' is pending because no user-input responder is available'')), w)
      | Some ask \<Rightarrow>
          (case ask req w of
             (Submitted r, w') \<Rightarrow>
               (Inr (user_input_response (response_id r) (content r) (selected_option r)), w')
           | (Cancelled, w') \<Rightarrow>
               (Inl (RuntimeError_pending req
                  (subject @ lit '' was cancelled before a reply was captured'')), w')
           | (Unavailable reason, w') \<Rightarrow>
               (Inl (RuntimeError_pending req (subject @ lit '' is pending: '' @ reason)), w')))"

definition execute_tool ::
  "'w Env \<Rightarrow> RuntimeHookConfig \<Rightarrow> rstr \<Rightarrow> rstr \<Rightarrow> rstr list \<Rightarrow> 'w \<Rightarrow> (rstr \<times> bool) \<times> 'w" where
  "execute_tool env hooks name inp pre_messages w =
     (let (res, w1) = tool_execute env name inp w;
          (out0, err0) = (case res of Inr out \<Rightarrow> (out, False) | Inl e \<Rightarrow> (e, True));
          out1 = merge_hook_feedback pre_messages out0 False;
          (post, w2) =
            run_post_tool_use (env_hook_process env) (env_payload_json env) hooks name inp out1 err0 w1
      in ((merge_hook_feedback (hook_messages post) out1 (denied post),
           if denied post then True else err0), w2))"

definition run_tool_use ::
  "'w Env \<Rightarrow> Runtime \<Rightarrow> rstr \<Rightarrow> rstr \<Rightarrow> rstr \<Rightarrow> 'w \<Rightarrow> ConversationMessage \<times> 'w" where
  "run_tool_use env rt i name inp w =
     (case authorize (permission_policy rt) name inp (permission_prompter env) w of
        (OutcomeDeny reason, w1) \<Rightarrow> (tool_result i name reason True, w1)
      | (OutcomeAllow, w1) \<Rightarrow>
          (let (pre, w2) =
                 run_pre_tool_use (env_hook_process env) (env_payload_json env) (hook_config rt)
                   name inp w1 in
           if denied pre then
             (tool_result i name
                (format_hook_message pre
                   (lit ''PreToolUse hook denied tool '' @ [96] @ name @ [96])) True, w2)
           else
             (let ((out, err), w3) = execute_tool env (hook_config rt) name inp (hook_messages pre) w2
              in (tool_result i name out err, w3))))"

section \<open>The turn\<close>

text \<open>
  The loop over the blocks of an answer: the error that ends the turn if there is one, the runtime,
  the world, the tool results so far, and whether an action was handled.
\<close>

fun process_blocks ::
  "'w Env \<Rightarrow> ContentBlock list \<Rightarrow> Runtime \<Rightarrow> 'w \<Rightarrow> ConversationMessage list \<Rightarrow> bool
     \<Rightarrow> RuntimeError option \<times> Runtime \<times> 'w \<times> ConversationMessage list \<times> bool" where
  "process_blocks env [] rt w results handled = (None, rt, w, results, handled)"
| "process_blocks env (b # bs) rt w results handled =
     (case b of
        ToolUse i name inp \<Rightarrow>
          (case run_tool_use env rt i name inp w of
             (m, w') \<Rightarrow> process_blocks env bs (push_message m rt) w' (results @ [m]) True)
      | UserInputRequest i p opts free \<Rightarrow>
          (case resolve_user_input_request env
                  \<lparr>request_id = i, req_text = p, options = opts, allow_freeform = free\<rparr> w of
             (Inl e, w') \<Rightarrow> (Some e, rt, w', results, True)
           | (Inr m, w') \<Rightarrow> process_blocks env bs (push_message m rt) w' results True)
      | Text t \<Rightarrow> process_blocks env bs rt w results handled
      | ToolResult i n out err \<Rightarrow> process_blocks env bs rt w results handled
      | UserInputResponse i c sel \<Rightarrow> process_blocks env bs rt w results handled)"

definition answer_pending ::
  "'w Env \<Rightarrow> Runtime \<Rightarrow> 'w \<Rightarrow> (RuntimeError + Runtime) \<times> 'w" where
  "answer_pending env rt w =
     (case map_option request_from_pending (pending_user_input_request (session rt)) of
        None \<Rightarrow> (Inr rt, w)
      | Some req \<Rightarrow>
          (case resolve_user_input_request env req w of
             (Inl e, w') \<Rightarrow> (Inl e, w')
           | (Inr m, w') \<Rightarrow> (Inr (push_message m rt), w')))"

text \<open>
  The loop, with fuel for its passes; \<open>None\<close> is fuel that ran out. The counter is a \<open>usize\<close>.
\<close>

fun turn_loop ::
  "nat \<Rightarrow> 'w Env \<Rightarrow> Runtime \<Rightarrow> 'w \<Rightarrow> ConversationMessage list \<Rightarrow> ConversationMessage list \<Rightarrow> 64 word
     \<Rightarrow> ((RuntimeError + TurnSummary) \<times> Runtime \<times> 'w) option" where
  "turn_loop 0 env rt w answers_so_far results n = None"
| "turn_loop (Suc fuel) env rt w answers_so_far results n =
     (case answer_pending env rt w of
        (Inl e, w1) \<Rightarrow> Some (Inl e, rt, w1)
      | (Inr rt1, w1) \<Rightarrow>
          if n + 1 > max_iterations rt1 then
            Some (Inl (RuntimeError_new
              (lit ''conversation loop exceeded the maximum number of iterations'')), rt1, w1)
          else
            (case api_stream env
                    \<lparr>api_system_prompt = system_prompt rt1, api_messages = messages (session rt1)\<rparr> w1 of
               (Inl e, w2) \<Rightarrow> Some (Inl e, rt1, w2)
             | (Inr events, w2) \<Rightarrow>
                 (case build_assistant_message events of
                    Inl e \<Rightarrow> Some (Inl e, rt1, w2)
                  | Inr (m, u) \<Rightarrow>
                      (case process_blocks env (blocks m) (push_message m (record_usage u rt1)) w2
                              results False of
                         (Some e, rt2, w3, results', handled) \<Rightarrow> Some (Inl e, rt2, w3)
                       | (None, rt2, w3, results', handled) \<Rightarrow>
                           if \<not> handled then
                             Some (Inr \<lparr>assistant_messages = answers_so_far @ [m],
                                        tool_results = results', iterations = n + 1,
                                        turn_usage = cumulative (usage_tracker rt2)\<rparr>, rt2, w3)
                           else turn_loop fuel env rt2 w3 (answers_so_far @ [m]) results' (n + 1)))))"

definition run_turn ::
  "nat \<Rightarrow> 'w Env \<Rightarrow> rstr \<Rightarrow> Runtime \<Rightarrow> 'w \<Rightarrow> ((RuntimeError + TurnSummary) \<times> Runtime \<times> 'w) option" where
  "run_turn fuel env user_input rt w =
     turn_loop fuel env (push_message (user_text user_input) rt) w [] [] 0"

definition resume_pending_turn ::
  "nat \<Rightarrow> 'w Env \<Rightarrow> Runtime \<Rightarrow> 'w \<Rightarrow> ((RuntimeError + TurnSummary) \<times> Runtime \<times> 'w) option" where
  "resume_pending_turn fuel env rt w =
     (if pending_user_input_request (session rt) = None then
        Some (Inl (RuntimeError_new (lit ''session has no pending request-user-input item'')), rt, w)
      else turn_loop fuel env rt w [] [] 0)"

definition runtime_compact :: "Runtime \<Rightarrow> CompactionConfig \<Rightarrow> CompactionResult" where
  "runtime_compact rt c = compact_session (session rt) c"

definition runtime_estimated_tokens :: "Runtime \<Rightarrow> nat" where
  "runtime_estimated_tokens rt = estimate_session_tokens (session rt)"

section \<open>The table of tool handlers\<close>

type_synonym 'w tool_handlers = "(rstr \<times> (rstr \<Rightarrow> 'w \<Rightarrow> (rstr + rstr) \<times> 'w)) list"

definition register_tool ::
  "'w tool_handlers \<Rightarrow> rstr \<Rightarrow> (rstr \<Rightarrow> 'w \<Rightarrow> (rstr + rstr) \<times> 'w) \<Rightarrow> 'w tool_handlers" where
  "register_tool hs name h = bt_insert name h hs"

definition static_execute :: "'w tool_handlers \<Rightarrow> rstr \<Rightarrow> rstr \<Rightarrow> 'w \<Rightarrow> (rstr + rstr) \<times> 'w" where
  "static_execute hs name inp w =
     (case bt_get hs name of
        None \<Rightarrow> (Inl (lit ''unknown tool: '' @ name), w)
      | Some h \<Rightarrow> h inp w)"

end
