(* ===== verification/Turns.thy ===== *)
theory Turns
  imports Conversation
begin

text \<open>
  The properties of the conversation runtime: what the assembled answer contains, what every turn
  keeps (an invariant of the runtime only has to survive the messages a turn adds), that tool calls
  are answered, that denied tools are never run, that a limited turn returns, and what happens at an
  input request nobody answers.
\<close>

section \<open>The assembled answer\<close>

fun events_text :: "AssistantEvent list \<Rightarrow> rstr" where
  "events_text [] = []"
| "events_text (TextDelta d # es) = d @ events_text es"
| "events_text (_ # es) = events_text es"

fun events_actions :: "AssistantEvent list \<Rightarrow> ContentBlock list" where
  "events_actions [] = []"
| "events_actions (ToolUseEvent i n inp # es) = ToolUse i n inp # events_actions es"
| "events_actions (RequestUserInput r # es) =
     UserInputRequest (request_id r) (req_text r) (options r) (allow_freeform r) # events_actions es"
| "events_actions (_ # es) = events_actions es"

fun last_usage :: "TokenUsage option \<Rightarrow> AssistantEvent list \<Rightarrow> TokenUsage option" where
  "last_usage u [] = u"
| "last_usage u (UsageEvent v # es) = last_usage (Some v) es"
| "last_usage u (_ # es) = last_usage u es"

fun text_of_block :: "ContentBlock \<Rightarrow> rstr" where
  "text_of_block (Text t) = t"
| "text_of_block _ = []"

fun is_action :: "ContentBlock \<Rightarrow> bool" where
  "is_action (ToolUse i n inp) = True"
| "is_action (UserInputRequest i p opts free) = True"
| "is_action _ = False"

definition blocks_text :: "ContentBlock list \<Rightarrow> rstr" where
  "blocks_text bs = concat (map text_of_block bs)"

lemma flush_simps [simp]:
  "blocks_text (flush_text_block t bs) = blocks_text bs @ t"
  "filter is_action (flush_text_block t bs) = filter is_action bs"
  "Text [] \<in> set (flush_text_block t bs) \<longleftrightarrow> Text [] \<in> set bs"
  "flush_text_block t bs = [] \<longleftrightarrow> t = [] \<and> bs = []"
  by (auto simp: flush_text_block_def blocks_text_def)

lemma blocks_text_Nil [simp]: "blocks_text [] = []"
  by (simp add: blocks_text_def)

lemma blocks_text_snoc [simp]: "blocks_text (bs @ [b]) = blocks_text bs @ text_of_block b"
  by (simp add: blocks_text_def)

lemma assemble_spec:
  "assemble t bs fin u es = (t', bs', fin', u') \<Longrightarrow> Text [] \<notin> set bs \<Longrightarrow>
     blocks_text bs' @ t' = blocks_text bs @ t @ events_text es
     \<and> filter is_action bs' = filter is_action bs @ events_actions es
     \<and> (fin' \<longleftrightarrow> fin \<or> MessageStop \<in> set es) \<and> u' = last_usage u es \<and> Text [] \<notin> set bs'"
proof (induction t bs fin u es rule: assemble.induct)
  case (2 t bs fin u d es)
  from "2.IH"[of] 2(2,3) show ?case by simp
next
  case (3 t bs fin u i n inp es)
  then show ?case by simp
next
  case (4 t bs fin u r es)
  then show ?case by simp
qed simp_all

lemma no_text_no_action:
  "blocks_text bs = [] \<Longrightarrow> filter is_action bs = [] \<Longrightarrow> Text [] \<notin> set bs \<Longrightarrow>
     list_all (\<lambda>b. is_action b \<or> (\<exists>t. b = Text t)) bs \<Longrightarrow> bs = []"
  by (cases bs) (auto simp: blocks_text_def)

lemma assemble_shape:
  "assemble t bs fin u es = (t', bs', fin', u') \<Longrightarrow> list_all (\<lambda>b. is_action b \<or> (\<exists>t. b = Text t)) bs \<Longrightarrow>
     list_all (\<lambda>b. is_action b \<or> (\<exists>t. b = Text t)) bs'"
  by (induction t bs fin u es rule: assemble.induct) (auto simp: flush_text_block_def split: if_splits)

text \<open>the answer assembled from a stream of events has exactly the streamed text, the streamed
  tool calls and input requests in their order, and the last usage report; it never has an empty
  text block. It is refused exactly when the stream has no stop event or no content.\<close>

theorem assembled_message:
  "case build_assistant_message es of
     Inl e \<Rightarrow>
       (if MessageStop \<in> set es then
          events_text es = [] \<and> events_actions es = []
          \<and> e = RuntimeError_new (lit ''assistant stream produced no content'')
        else e = RuntimeError_new (lit ''assistant stream ended without a message stop event''))
   | Inr (m, u) \<Rightarrow>
       MessageStop \<in> set es \<and> role m = Assistant \<and> usage m = u \<and> u = last_usage None es
       \<and> blocks_text (blocks m) = events_text es
       \<and> filter is_action (blocks m) = events_actions es
       \<and> Text [] \<notin> set (blocks m) \<and> blocks m \<noteq> []"
proof -
  obtain t bs fin u where a: "assemble [] [] False None es = (t, bs, fin, u)"
    by (cases "assemble [] [] False None es")
  note spec = assemble_spec[OF a] and shape = assemble_shape[OF a]
  show ?thesis
    using spec shape no_text_no_action[of bs]
    by (auto simp: build_assistant_message_def a Let_def assistant_with_usage_def)
qed

lemma assembled_message_inr:
  assumes "build_assistant_message es = Inr (m, u)"
  shows "role m = Assistant" "usage m = u"
  using assms by (auto simp: build_assistant_message_def Let_def assistant_with_usage_def
      split: prod.splits if_splits)

section \<open>What a turn keeps\<close>

lemma push_message_simps [simp]:
  "messages (session (push_message m rt)) = messages (session rt) @ [m]"
  "version (session (push_message m rt)) = version (session rt)"
  "telemetry (session (push_message m rt)) = telemetry (session rt)"
  "permission_policy (push_message m rt) = permission_policy rt"
  "max_iterations (push_message m rt) = max_iterations rt"
  "hook_config (push_message m rt) = hook_config rt"
  "system_prompt (push_message m rt) = system_prompt rt"
  "usage_tracker (push_message m rt) = usage_tracker rt"
  by (simp_all add: push_message_def)

lemma record_usage_simps [simp]:
  "session (record_usage u rt) = session rt"
  "permission_policy (record_usage u rt) = permission_policy rt"
  "max_iterations (record_usage u rt) = max_iterations rt"
  "hook_config (record_usage u rt) = hook_config rt"
  by (simp_all add: record_usage_def split: option.split)

lemma run_tool_use_message:
  "run_tool_use env rt i name inp w = (m, w') \<Longrightarrow> \<exists>out err. m = tool_result i name out err"
  by (auto simp: run_tool_use_def Let_def split: prod.splits PermissionOutcome.splits if_splits)

lemma resolve_message:
  "resolve_user_input_request env req w = (Inr m, w') \<Longrightarrow>
     \<exists>i c sel. m = user_input_response i c sel"
  by (auto simp: resolve_user_input_request_def Let_def
      split: option.splits prod.splits UserInputOutcome.splits)

text \<open>
  What an invariant of the runtime has to promise for a turn to keep it: it survives the messages a
  turn adds - results and replies, which carry no usage, and an answer together with its usage.
\<close>

locale turn_invariant =
  fixes I :: "Runtime \<Rightarrow> bool"
  assumes push_plain: "I rt \<Longrightarrow> role m = User \<or> role m = Tool \<Longrightarrow> usage m = None \<Longrightarrow> I (push_message m rt)"
    and push_answer: "I rt \<Longrightarrow> role m = Assistant \<Longrightarrow> I (push_message m (record_usage (usage m) rt))"
begin

lemma process_blocks_inv:
  "process_blocks env bs rt w rs h = (e, rt', w', rs', h') \<Longrightarrow> I rt \<Longrightarrow> I rt'"
proof (induction bs arbitrary: rt w rs h)
  case Nil
  then show ?case by simp
next
  case (Cons b bs)
  show ?case
  proof (cases b)
    case (ToolUse i n inp)
    obtain m w1 where m: "run_tool_use env rt i n inp w = (m, w1)" by fastforce
    have "I (push_message m rt)"
      using run_tool_use_message[OF m] Cons.prems(2) by (auto simp: tool_result_def intro!: push_plain)
    then show ?thesis using Cons.IH[of "push_message m rt" w1] Cons.prems(1) ToolUse m by auto
  next
    case (UserInputRequest i p opts free)
    let ?req = "\<lparr>request_id = i, req_text = p, options = opts, allow_freeform = free\<rparr>"
    obtain r w1 where r: "resolve_user_input_request env ?req w = (r, w1)" by fastforce
    show ?thesis
    proof (cases r)
      case (Inl x)
      then show ?thesis using Cons.prems UserInputRequest r by simp
    next
      case (Inr m)
      have "I (push_message m rt)"
        using resolve_message[OF r[unfolded Inr]] Cons.prems(2)
        by (auto simp: user_input_response_def intro!: push_plain)
      then show ?thesis
        using Cons.IH[of "push_message m rt" w1] Cons.prems(1) UserInputRequest r Inr by auto
    qed
  qed (use Cons in auto)
qed

lemma answer_pending_inv:
  "answer_pending env rt w = (Inr rt', w') \<Longrightarrow> I rt \<Longrightarrow> I rt'"
  by (auto simp: answer_pending_def user_input_response_def intro!: push_plain
      dest!: resolve_message split: option.splits prod.splits sum.splits)

lemma turn_loop_inv:
  "turn_loop fuel env rt w as rs n = Some (res, rt', w') \<Longrightarrow> I rt \<Longrightarrow> I rt'"
proof (induction fuel arbitrary: rt w as rs n)
  case 0
  then show ?case by simp
next
  case (Suc fuel)
  obtain p w1 where p: "answer_pending env rt w = (p, w1)" by fastforce
  show ?case
  proof (cases p)
    case (Inl e)
    with Suc.prems p show ?thesis by simp
  next
    case (Inr rt1)
    have I1: "I rt1" by (rule answer_pending_inv[OF p[unfolded Inr] Suc.prems(2)])
    show ?thesis
    proof (cases "n + 1 > max_iterations rt1")
      case True
      with Suc.prems(1) p Inr I1 show ?thesis by simp
    next
      case lim: False
      let ?req = "\<lparr>api_system_prompt = system_prompt rt1, api_messages = messages (session rt1)\<rparr>"
      obtain ev w2 where ev: "api_stream env ?req w1 = (ev, w2)" by fastforce
      show ?thesis
      proof (cases ev)
        case e: (Inl e)
        with Suc.prems(1) p Inr lim ev I1 show ?thesis by simp
      next
        case events: (Inr events)
        show ?thesis
        proof (cases "build_assistant_message events")
          case e: (Inl e)
          with Suc.prems(1) p Inr lim ev events I1 show ?thesis by simp
        next
          case built: (Inr mu)
          obtain m u where mu: "mu = (m, u)" by fastforce
          have m: "role m = Assistant" "usage m = u"
            using assembled_message_inr[OF built[unfolded mu]] by simp_all
          obtain e rt2 w3 rs' h where pb: "process_blocks env (blocks m) (push_message m (record_usage u rt1)) w2 rs False
              = (e, rt2, w3, rs', h)" by (metis prod_cases5)
          have I2: "I rt2"
            using process_blocks_inv[OF pb] push_answer[OF I1 m(1)] m(2) by simp
          show ?thesis
            using Suc.prems(1) p Inr lim ev events built mu pb I2 Suc.IH[OF _ I2]
            by (auto split: option.splits if_splits)
        qed
      qed
    qed
  qed
qed

end


section \<open>The history and the usage tracker\<close>

text \<open>The history of a runtime extends that of an earlier session, whose other fields are kept.\<close>

definition extends_session :: "Session \<Rightarrow> Runtime \<Rightarrow> bool" where
  "extends_session s rt \<longleftrightarrow>
     version (session rt) = version s \<and> telemetry (session rt) = telemetry s
     \<and> (\<exists>new. messages (session rt) = messages s @ new
         \<and> list_all (\<lambda>m. role m \<noteq> System) new)"

interpretation history: turn_invariant "extends_session s" for s
  by unfold_locales (auto simp: extends_session_def)

definition tracker_synced :: "Runtime \<Rightarrow> bool" where
  "tracker_synced rt \<longleftrightarrow> usage_tracker rt = tracker_from_session (session rt)"

lemma has_summary_append:
  "role m \<noteq> System \<Longrightarrow>
     session_has_compacted_summary (s\<lparr>messages := messages s @ [m]\<rparr>) = session_has_compacted_summary s"
  by (cases "messages s")
    (simp_all add: session_has_compacted_summary_def compacted_summary_prefix_len_def
      extract_existing_compacted_summary_def)

lemma tracker_append:
  assumes "role m \<noteq> System"
  shows "tracker_from_session (s\<lparr>messages := messages s @ [m]\<rparr>) =
    (case usage m of None \<Rightarrow> tracker_from_session s
     | Some u \<Rightarrow> tracker_record (tracker_from_session s) u)"
  using has_summary_append[OF assms, of s]
  by (simp add: tracker_from_session_def split: option.splits)

interpretation tracker: turn_invariant tracker_synced
proof
  show "tracker_synced (push_message m rt)"
    if "tracker_synced rt" "role m = User \<or> role m = Tool" "usage m = None" for rt m
    using that tracker_append[of m "session rt"]
    by (auto simp: tracker_synced_def push_message_def)
  show "tracker_synced (push_message m (record_usage (usage m) rt))"
    if "tracker_synced rt" "role m = Assistant" for rt m
    using that tracker_append[of m "session rt"]
    by (auto simp: tracker_synced_def push_message_def record_usage_def split: option.splits)
qed

lemma push_user_synced: "tracker_synced rt \<Longrightarrow> tracker_synced (push_message (user_text t) rt)"
  by (rule tracker.push_plain) (simp_all add: user_text_def)

text \<open>a turn only ever appends to the conversation: however it ends - with a summary, an error of
  the service, a refused or cancelled input request, or the iteration limit - the messages that were
  there stay first and unchanged, the user's message follows them, nothing it adds is a system
  message, and version and telemetry are kept.\<close>

theorem turn_appends_history:
  assumes "run_turn fuel env input rt w = Some (res, rt', w')"
  shows "\<exists>new. messages (session rt') = messages (session rt) @ user_text input # new
      \<and> list_all (\<lambda>m. role m \<noteq> System) new
      \<and> version (session rt') = version (session rt) \<and> telemetry (session rt') = telemetry (session rt)"
proof -
  let ?rt = "push_message (user_text input) rt"
  have "extends_session (session ?rt) ?rt" by (simp add: extends_session_def)
  from history.turn_loop_inv[OF assms[unfolded run_turn_def] this] show ?thesis
    by (auto simp: extends_session_def)
qed

text \<open>the usage tracker of the runtime is always the one that would be rebuilt from its session:
  a runtime created from a session starts that way, and every turn keeps it, so a saved and
  reloaded session reports the same usage, turns and accounting status.\<close>

theorem turn_keeps_tracker_synced:
  assumes "usage_tracker rt = tracker_from_session (session rt)"
    and "run_turn fuel env input rt w = Some (res, rt', w')"
  shows "usage_tracker rt' = tracker_from_session (session rt')"
  using tracker.turn_loop_inv[OF assms(2)[unfolded run_turn_def] push_user_synced] assms(1)
  by (simp add: tracker_synced_def)

section \<open>Tool calls and their results\<close>

fun tool_call :: "ContentBlock \<Rightarrow> (rstr \<times> rstr) option" where
  "tool_call (ToolUse i n inp) = Some (i, n)"
| "tool_call _ = None"

fun tool_answer :: "ContentBlock \<Rightarrow> (rstr \<times> rstr) option" where
  "tool_answer (ToolResult i n out err) = Some (i, n)"
| "tool_answer _ = None"

definition calls_of :: "ConversationMessage list \<Rightarrow> (rstr \<times> rstr) list" where
  "calls_of ms = List.map_filter tool_call (concat (map blocks ms))"

definition answers_of :: "ConversationMessage list \<Rightarrow> (rstr \<times> rstr) list" where
  "answers_of ms = List.map_filter tool_answer (concat (map blocks ms))"

lemma calls_answers_append [simp]:
  "calls_of (a @ b) = calls_of a @ calls_of b" "answers_of (a @ b) = answers_of a @ answers_of b"
  "calls_of [] = []" "answers_of [] = []"
  by (simp_all add: calls_of_def answers_of_def)

lemma process_blocks_results:
  "process_blocks env bs rt w rs h = (None, rt', w', rs', h') \<Longrightarrow>
     \<exists>new ts. messages (session rt') = messages (session rt) @ new \<and> rs' = rs @ ts
       \<and> filter (\<lambda>m. role m = Tool) new = ts \<and> filter (\<lambda>m. role m = Assistant) new = []
       \<and> answers_of ts = List.map_filter tool_call bs
       \<and> (h' \<longleftrightarrow> h \<or> list_ex is_action bs)"
proof (induction bs arbitrary: rt w rs h)
  case Nil
  then show ?case by simp
next
  case (Cons b bs)
  show ?case
  proof (cases b)
    case (ToolUse i n inp)
    obtain m w1 where m: "run_tool_use env rt i n inp w = (m, w1)" by fastforce
    obtain out err where me: "m = tool_result i n out err" using run_tool_use_message[OF m] by blast
    have "process_blocks env bs (push_message m rt) w1 (rs @ [m]) True = (None, rt', w', rs', h')"
      using Cons.prems ToolUse m by simp
    from Cons.IH[OF this] obtain new ts where *: "messages (session rt') = messages (session rt) @ m # new"
      "rs' = rs @ m # ts" "filter (\<lambda>m. role m = Tool) new = ts" "filter (\<lambda>m. role m = Assistant) new = []"
      "answers_of ts = List.map_filter tool_call bs" "h'" by auto
    have "answers_of (m # ts) = (i, n) # answers_of ts"
      by (simp add: answers_of_def me tool_result_def)
    then show ?thesis using * ToolUse
      by (intro exI[of _ "m # new"] exI[of _ "m # ts"]) (simp add: me tool_result_def)
  next
    case (UserInputRequest i p opts free)
    let ?req = "\<lparr>request_id = i, req_text = p, options = opts, allow_freeform = free\<rparr>"
    obtain r w1 where r: "resolve_user_input_request env ?req w = (r, w1)" by fastforce
    then obtain m where rm: "r = Inr m" using Cons.prems UserInputRequest by (cases r) auto
    obtain j c sel where me: "m = user_input_response j c sel"
      using resolve_message r rm by metis
    have "process_blocks env bs (push_message m rt) w1 rs True = (None, rt', w', rs', h')"
      using Cons.prems UserInputRequest r rm by simp
    from Cons.IH[OF this] obtain new ts where *: "messages (session rt') = messages (session rt) @ m # new"
      "rs' = rs @ ts" "filter (\<lambda>m. role m = Tool) new = ts" "filter (\<lambda>m. role m = Assistant) new = []"
      "answers_of ts = List.map_filter tool_call bs" "h'" by auto
    then show ?thesis using UserInputRequest
      by (intro exI[of _ "m # new"] exI[of _ ts]) (simp add: me user_input_response_def)
  qed (use Cons.IH Cons.prems in force)+
qed

lemma turn_loop_pass:
  assumes "turn_loop (Suc fuel) env rt w as rs n = Some (Inr summ, rt', w')"
  shows "\<exists>rt1 w1 events w2 m u rt2 w3 rs' h.
    answer_pending env rt w = (Inr rt1, w1) \<and> n + 1 \<le> max_iterations rt1
    \<and> build_assistant_message events = Inr (m, u)
    \<and> process_blocks env (blocks m) (push_message m (record_usage u rt1)) w2 rs False = (None, rt2, w3, rs', h)
    \<and> (if h then turn_loop fuel env rt2 w3 (as @ [m]) rs' (n + 1) = Some (Inr summ, rt', w')
       else summ = \<lparr>assistant_messages = as @ [m], tool_results = rs', iterations = n + 1,
              turn_usage = cumulative (usage_tracker rt2)\<rparr> \<and> rt' = rt2 \<and> w' = w3)"
proof -
  obtain p w1 where p: "answer_pending env rt w = (p, w1)" by fastforce
  then obtain rt1 where rt1: "p = Inr rt1" using assms by (cases p) auto
  have lim: "\<not> n + 1 > max_iterations rt1" using assms p rt1 by (auto split: if_splits)
  obtain ev w2 where ev: "api_stream env \<lparr>api_system_prompt = system_prompt rt1,
      api_messages = messages (session rt1)\<rparr> w1 = (ev, w2)" by fastforce
  then obtain events where events: "ev = Inr events" using assms p rt1 lim by (cases ev) auto
  then obtain m u where mu: "build_assistant_message events = Inr (m, u)"
    using assms p rt1 lim ev by (cases "build_assistant_message events") auto
  obtain e rt2 w3 rs' h where pb: "process_blocks env (blocks m) (push_message m (record_usage u rt1)) w2 rs False
      = (e, rt2, w3, rs', h)" by (metis prod_cases5)
  then have "e = None" using assms p rt1 lim ev events mu by (cases e) auto
  with pb assms p rt1 lim ev events mu show ?thesis
    by (intro exI[of _ rt1] exI[of _ w1] exI[of _ events] exI[of _ w2] exI[of _ m] exI[of _ u]
        exI[of _ rt2] exI[of _ w3] exI[of _ rs'] exI[of _ h]) auto
qed

lemma answer_pending_history:
  "answer_pending env rt w = (Inr rt1, w1) \<Longrightarrow>
     \<exists>new. messages (session rt1) = messages (session rt) @ new \<and> list_all (\<lambda>m. role m = User) new"
  by (fastforce simp: answer_pending_def user_input_response_def dest!: resolve_message
      split: option.splits prod.splits sum.splits)

lemma turn_loop_results:
  "turn_loop fuel env rt w as rs n = Some (Inr summ, rt', w') \<Longrightarrow>
     \<exists>new as' rs'. messages (session rt') = messages (session rt) @ new
       \<and> assistant_messages summ = as @ as' \<and> tool_results summ = rs @ rs'
       \<and> filter (\<lambda>m. role m = Assistant) new = as' \<and> filter (\<lambda>m. role m = Tool) new = rs'
       \<and> answers_of rs' = calls_of as'
       \<and> as' \<noteq> [] \<and> list_all (\<lambda>b. \<not> is_action b) (blocks (last as'))
       \<and> list_all (\<lambda>m. list_ex is_action (blocks m)) (butlast as')
       \<and> iterations summ = n + of_nat (length as')"
proof (induction fuel arbitrary: rt w as rs n)
  case 0
  then show ?case by simp
next
  case (Suc fuel)
  from turn_loop_pass[OF Suc.prems] obtain rt1 w1 events w2 m u rt2 w3 rs1 h where
    ap: "answer_pending env rt w = (Inr rt1, w1)"
    and bm: "build_assistant_message events = Inr (m, u)"
    and pb: "process_blocks env (blocks m) (push_message m (record_usage u rt1)) w2 rs False = (None, rt2, w3, rs1, h)"
    and nxt: "if h then turn_loop fuel env rt2 w3 (as @ [m]) rs1 (n + 1) = Some (Inr summ, rt', w')
       else summ = \<lparr>assistant_messages = as @ [m], tool_results = rs1, iterations = n + 1,
              turn_usage = cumulative (usage_tracker rt2)\<rparr> \<and> rt' = rt2 \<and> w' = w3"
    by blast
  have role: "role m = Assistant" using assembled_message_inr[OF bm] by simp
  obtain new0 where new0: "messages (session rt1) = messages (session rt) @ new0"
    "list_all (\<lambda>m. role m = User) new0" using answer_pending_history[OF ap] by blast
  then have f0: "filter (\<lambda>m. role m = Assistant) new0 = []" "filter (\<lambda>m. role m = Tool) new0 = []"
    by (auto simp: list_all_iff filter_empty_conv)
  obtain new1 ts where new1: "messages (session rt2) = messages (session rt) @ new0 @ m # new1"
    "rs1 = rs @ ts" "filter (\<lambda>m. role m = Tool) new1 = ts" "filter (\<lambda>m. role m = Assistant) new1 = []"
    "answers_of ts = List.map_filter tool_call (blocks m)" "h \<longleftrightarrow> list_ex is_action (blocks m)"
    using process_blocks_results[OF pb] new0(1) by auto
  have c: "answers_of ts = calls_of [m]" by (simp add: new1(5) calls_of_def)
  show ?case
  proof (cases h)
    case False
    then have "list_all (\<lambda>b. \<not> is_action b) (blocks m)"
      using new1(6) by (auto simp: list_all_iff list_ex_iff)
    then show ?thesis using nxt False new1 f0 role c
      by (intro exI[of _ "new0 @ m # new1"] exI[of _ "[m]"] exI[of _ ts]) simp
  next
    case True
    with nxt have "turn_loop fuel env rt2 w3 (as @ [m]) rs1 (n + 1) = Some (Inr summ, rt', w')" by simp
    from Suc.IH[OF this] obtain new2 as' rs' where
      "messages (session rt') = messages (session rt2) @ new2"
      "assistant_messages summ = (as @ [m]) @ as'" "tool_results summ = rs1 @ rs'"
      "filter (\<lambda>m. role m = Assistant) new2 = as'" "filter (\<lambda>m. role m = Tool) new2 = rs'"
      "answers_of rs' = calls_of as'" "as' \<noteq> []" "list_all (\<lambda>b. \<not> is_action b) (blocks (last as'))"
      "list_all (\<lambda>m. list_ex is_action (blocks m)) (butlast as')"
      "iterations summ = n + 1 + of_nat (length as')"
      by blast
    then show ?thesis using new1 f0 role c True calls_answers_append(1)[of "[m]" as']
      by (intro exI[of _ "new0 @ m # new1 @ new2"] exI[of _ "m # as'"] exI[of _ "ts @ rs'"])
        (simp add: add.assoc)
  qed
qed

text \<open>C1: a turn that succeeds has answered every tool call: the tool results it recorded are, one
  for one and in order, results for the calls of its answers, with the same ids and tool names,
  whether the tool ran, failed, was denied by the policy or by a hook. These results and answers are
  exactly the tool and assistant messages it added to the history; every answer but the last asked
  for something, the last asks for nothing.\<close>

theorem turn_answers_every_call:
  assumes "run_turn fuel env input rt w = Some (Inr summ, rt', w')"
  shows "answers_of (tool_results summ) = calls_of (assistant_messages summ)
    \<and> (\<exists>new. messages (session rt') = messages (session rt) @ user_text input # new
        \<and> filter (\<lambda>m. role m = Assistant) new = assistant_messages summ
        \<and> filter (\<lambda>m. role m = Tool) new = tool_results summ)
    \<and> assistant_messages summ \<noteq> []
    \<and> list_all (\<lambda>b. \<not> is_action b) (blocks (last (assistant_messages summ)))
    \<and> list_all (\<lambda>m. list_ex is_action (blocks m)) (butlast (assistant_messages summ))
    \<and> iterations summ = of_nat (length (assistant_messages summ))"
  using turn_loop_results[OF assms[unfolded run_turn_def]] by auto

section \<open>Denied tools\<close>

text \<open>
  A call is cleared in a world \<open>w\<close>: the hooks that run before the tool have just led to \<open>w\<close> and denied nothing, and
  they were started because the mode covers what the tool needs, or because the prompter had just been asked about
  this call, in a world \<open>w0\<close>, and had said yes.
\<close>

definition cleared :: "'w Env \<Rightarrow> PermissionPolicy \<Rightarrow> RuntimeHookConfig \<Rightarrow> rstr \<Rightarrow> rstr \<Rightarrow> 'w \<Rightarrow> bool" where
  "cleared env p hooks name inp w \<longleftrightarrow>
     (let need = (case bt_get (tool_requirements p) name of None \<Rightarrow> DangerFullAccess | Some r \<Rightarrow> r) in
      \<exists>w1 pre. run_pre_tool_use (env_hook_process env) (env_payload_json env) hooks name inp w1 = (pre, w)
        \<and> \<not> denied pre
        \<and> (mode_covers (active_mode p) need
           \<or> asks_person (active_mode p) need
             \<and> (\<exists>decide w0. permission_prompter env = Some decide
                  \<and> decide \<lparr>request_tool = name, request_input = inp, current_mode = active_mode p,
                            required_mode = need\<rparr> w0 = (PromptAllow, w1))))"

lemma authorize_clears:
  assumes a: "authorize p name inp (permission_prompter env) w0 = (OutcomeAllow, w1)"
    and h: "run_pre_tool_use (env_hook_process env) (env_payload_json env) hooks name inp w1 = (pre, w)" "\<not> denied pre"
  shows "cleared env p hooks name inp w"
proof -
  have "mode_covers (active_mode p) (required_mode_for p name)
      \<or> asks_person (active_mode p) (required_mode_for p name)
        \<and> (\<exists>decide w0. permission_prompter env = Some decide
             \<and> decide \<lparr>request_tool = name, request_input = inp, current_mode = active_mode p,
                       required_mode = required_mode_for p name\<rparr> w0 = (PromptAllow, w1))"
    using authorize_allowed[OF a] by blast
  then show ?thesis using h by (auto simp: cleared_def Let_def required_mode_for_def)
qed

lemma run_tool_use_executor:
  assumes "\<And>inp w. cleared env (permission_policy rt) (hook_config rt) name inp w \<Longrightarrow>
      exec' name inp w = tool_execute env name inp w"
  shows "run_tool_use (env\<lparr>tool_execute := exec'\<rparr>) rt i name inp w = run_tool_use env rt i name inp w"
proof -
  obtain oc w1 where a: "authorize (permission_policy rt) name inp (permission_prompter env) w = (oc, w1)"
    by fastforce
  obtain pre w2 where h: "run_pre_tool_use (env_hook_process env) (env_payload_json env) (hook_config rt) name inp w1
      = (pre, w2)" by fastforce
  show ?thesis
  proof (cases "oc = OutcomeAllow \<and> \<not> denied pre")
    case True
    then have "exec' name inp w2 = tool_execute env name inp w2"
      using a h by (intro assms) (auto intro: authorize_clears)
    then have ex: "execute_tool (env\<lparr>tool_execute := exec'\<rparr>) hooks name inp ms w2 =
        execute_tool env hooks name inp ms w2" for hooks ms
      by (simp add: execute_tool_def)
    show ?thesis using a h True by (simp add: run_tool_use_def ex)
  next
    case False
    then show ?thesis using a h by (cases oc) (simp_all add: run_tool_use_def)
  qed
qed

lemma resolve_executor [simp]:
  "resolve_user_input_request (env\<lparr>tool_execute := exec'\<rparr>) req w = resolve_user_input_request env req w"
  by (simp add: resolve_user_input_request_def)

interpretation same_policy: turn_invariant "\<lambda>rt. permission_policy rt = p" for p
  by unfold_locales simp_all

interpretation same_policy_hooks: turn_invariant "\<lambda>rt. permission_policy rt = p \<and> hook_config rt = h" for p h
  by unfold_locales simp_all

interpretation same_limit: turn_invariant "\<lambda>rt. max_iterations rt = n" for n
  by unfold_locales simp_all

lemma process_blocks_executor:
  assumes "\<And>name inp w. cleared env p hs name inp w \<Longrightarrow> exec' name inp w = tool_execute env name inp w"
  shows "permission_policy rt = p \<and> hook_config rt = hs \<Longrightarrow>
    process_blocks (env\<lparr>tool_execute := exec'\<rparr>) bs rt w rs h = process_blocks env bs rt w rs h"
proof (induction bs arbitrary: rt w rs h)
  case Nil
  then show ?case by simp
next
  case (Cons b bs)
  have "run_tool_use (env\<lparr>tool_execute := exec'\<rparr>) rt i name inp w = run_tool_use env rt i name inp w"
    for i name inp w
    using assms Cons.prems by (intro run_tool_use_executor) simp
  then show ?case using Cons.IH Cons.prems
    by (auto split: ContentBlock.splits prod.splits sum.splits)
qed

lemma turn_loop_executor:
  assumes "\<And>name inp w. cleared env p hs name inp w \<Longrightarrow> exec' name inp w = tool_execute env name inp w"
  shows "permission_policy rt = p \<and> hook_config rt = hs \<Longrightarrow>
    turn_loop fuel (env\<lparr>tool_execute := exec'\<rparr>) rt w as rs n = turn_loop fuel env rt w as rs n"
proof (induction fuel arbitrary: rt w as rs n)
  case 0
  then show ?case by simp
next
  case (Suc fuel)
  have ap: "answer_pending (env\<lparr>tool_execute := exec'\<rparr>) rt w = answer_pending env rt w"
    by (cases "pending_user_input_request (session rt)") (simp_all add: answer_pending_def)
  obtain r w1 where r: "answer_pending env rt w = (r, w1)" by fastforce
  show ?case
  proof (cases r)
    case (Inl e)
    then show ?thesis by (simp add: ap r)
  next
    case (Inr rt1)
    have p1: "permission_policy rt1 = p \<and> hook_config rt1 = hs"
      using same_policy_hooks.answer_pending_inv[OF r[unfolded Inr]] Suc.prems by simp
    have pb: "process_blocks (env\<lparr>tool_execute := exec'\<rparr>) (blocks m) (push_message m (record_usage u rt1)) w2 rs False
        = process_blocks env (blocks m) (push_message m (record_usage u rt1)) w2 rs False" for m u w2
      using assms p1 by (intro process_blocks_executor[of env p hs]) simp_all
    have rec: "turn_loop fuel (env\<lparr>tool_execute := exec'\<rparr>) rt2 w3 as' rs' n' = turn_loop fuel env rt2 w3 as' rs' n'"
      if "process_blocks env (blocks m) (push_message m (record_usage u rt1)) w2 rs False = (e, rt2, w3, rs', h)"
      for m u w2 e rt2 w3 rs' h as' n'
      using same_policy_hooks.process_blocks_inv[OF that, of p hs] p1 by (intro Suc.IH) simp
    show ?thesis
      using Inr r by (auto simp: ap pb rec split: prod.splits sum.splits option.splits if_splits)
  qed
qed

text \<open>C2: a tool call that is denied never runs: a whole turn gives the same result, the same history and the same
  world whatever the executor would do for calls that are not cleared. Not cleared are the calls whose need is
  above what the mode grants when no prompter is there, when the mode leaves nothing to ask, or when the prompter
  has just refused, and the calls a hook denied.\<close>

theorem denied_tools_never_run:
  assumes "\<And>name inp w. cleared env (permission_policy rt) (hook_config rt) name inp w \<Longrightarrow>
      exec' name inp w = tool_execute env name inp w"
  shows "run_turn fuel (env\<lparr>tool_execute := exec'\<rparr>) input rt w = run_turn fuel env input rt w"
  unfolding run_turn_def by (rule turn_loop_executor[OF assms]) simp_all

section \<open>Termination\<close>

lemma turn_loop_returns:
  "max_iterations rt = mx \<Longrightarrow> mx \<noteq> - 1 \<Longrightarrow> n \<le> mx \<Longrightarrow> unat mx < unat n + fuel \<Longrightarrow>
     turn_loop fuel env rt w as rs n \<noteq> None"
proof (induction fuel arbitrary: rt w as rs n)
  case 0
  then show ?case by (simp add: word_le_nat_alt)
next
  case (Suc fuel)
  obtain r w1 where r: "answer_pending env rt w = (r, w1)" by fastforce
  show ?case
  proof (cases r)
    case (Inl e)
    then show ?thesis by (simp add: r)
  next
    case (Inr rt1)
    have m1: "max_iterations rt1 = mx"
      using same_limit.answer_pending_inv[OF r[unfolded Inr]] Suc.prems(1) by simp
    show ?thesis
    proof (cases "n + 1 > mx")
      case True
      then show ?thesis using Inr r m1 by simp
    next
      case False
      have "n \<noteq> - 1" using Suc.prems(2,3) word_order.extremum_unique by blast
      then have u: "unat (n + 1) = unat n + 1"
        by (metis Suc_eq_plus1 add.commute unatSuc add_eq_0_iff)
      have rec: "turn_loop fuel env rt2 w3 as' rs' (n + 1) \<noteq> None"
        if "process_blocks env (blocks m) (push_message m (record_usage u rt1)) w2 rs False = (e, rt2, w3, rs', h)"
        for m u w2 e rt2 w3 rs' h as'
        using same_limit.process_blocks_inv[OF that, of mx] m1 False Suc.prems(2,4) u
        by (intro Suc.IH) simp_all
      show ?thesis
        using Inr r rec by (auto split: prod.splits sum.splits option.splits if_splits)
    qed
  qed
qed

lemma turn_loop_more_fuel:
  "turn_loop fuel env rt w as rs n = Some r \<Longrightarrow> turn_loop (Suc fuel) env rt w as rs n = Some r"
proof (induction fuel arbitrary: rt w as rs n)
  case 0
  then show ?case by simp
next
  case (Suc fuel)
  show ?case
    using Suc.prems Suc.IH
    by (subst turn_loop.simps(2), subst (asm) turn_loop.simps(2))
      (auto simp del: turn_loop.simps split: prod.splits sum.splits option.splits if_splits)
qed

lemma turn_loop_fuel_add:
  "turn_loop fuel env rt w as rs n = Some r \<Longrightarrow> turn_loop (fuel + k) env rt w as rs n = Some r"
  by (induction k) (simp_all add: turn_loop_more_fuel del: turn_loop.simps)

text \<open>C3: a turn with an iteration limit always returns: whatever the service, the tools and the
  prompters do, at most as many passes as the limit allows are needed, and more fuel gives the same
  result.\<close>

theorem turn_terminates:
  assumes "max_iterations rt \<noteq> - 1"
  shows "\<exists>r. \<forall>k. run_turn (unat (max_iterations rt) + 1 + k) env input rt w = Some r"
proof -
  have "turn_loop (unat (max_iterations rt) + 1) env (push_message (user_text input) rt) w [] [] 0 \<noteq> None"
    using assms by (intro turn_loop_returns[where mx = "max_iterations rt"]) simp_all
  then obtain r where "turn_loop (unat (max_iterations rt) + 1) env (push_message (user_text input) rt) w [] [] 0 = Some r"
    by blast
  from turn_loop_fuel_add[OF this] show ?thesis unfolding run_turn_def by blast
qed


section \<open>Waiting input requests\<close>

text \<open>a turn cannot pass a waiting input request without a responder: resuming then stops before
  the service is called, reports exactly the request the session is waiting for, and leaves the
  runtime and the world as they were; a session that waits for nothing cannot be resumed at all.\<close>

theorem resume_needs_responder:
  assumes "user_prompter env = None"
  shows "\<exists>e. resume_pending_turn (Suc fuel) env rt w = Some (Inl e, rt, w)
    \<and> error_pending e = map_option request_from_pending (pending_user_input_request (session rt))"
  using assms
  by (cases "pending_user_input_request (session rt)")
    (simp_all add: resume_pending_turn_def answer_pending_def resolve_user_input_request_def
      RuntimeError_new_def RuntimeError_pending_def Let_def)

text \<open>A service that asks for a tool, an input and another tool, and then says that it is done; the
  world counts its calls. The responder answers every request, where there is one.\<close>

definition demo_stream :: "ApiRequest \<Rightarrow> nat \<Rightarrow> (RuntimeError + AssistantEvent list) \<times> nat" where
  "demo_stream req n =
     (Inr (if n = 0 then
             [ToolUseEvent (lit ''a'') (lit ''t'') [],
              RequestUserInput \<lparr>request_id = lit ''q'', req_text = [], options = [], allow_freeform = True\<rparr>,
              ToolUseEvent (lit ''b'') (lit ''t'') [], MessageStop]
           else [TextDelta (lit ''done''), MessageStop]), n + 1)"

definition demo_env :: "bool \<Rightarrow> nat Env" where
  "demo_env responder =
     \<lparr>api_stream = demo_stream, tool_execute = (\<lambda>name inp n. (Inr (lit ''ok''), n)),
      permission_prompter = None,
      user_prompter =
        (if responder then
           Some (\<lambda>r n. (Submitted \<lparr>response_id = request_id r, content = lit ''yes'',
                                   selected_option = None\<rparr>, n))
         else None),
      env_hook_process = counting_process, env_payload_json = (\<lambda>e t i out err. [])\<rparr>"

definition demo_runtime :: "PermissionMode \<Rightarrow> Runtime" where
  "demo_runtime mode = with_max_iterations
     (Runtime_new Session_new (PermissionPolicy_new mode) [] RuntimeHookConfig_default) 5"

lemmas demo_eval = demo_env_def demo_stream_def demo_runtime_def with_max_iterations_def
  Runtime_new_def Session_new_def RuntimeHookConfig_default_def run_turn_def resume_pending_turn_def
  answer_pending_def pending_user_input_request_def build_assistant_message_def
  flush_text_block_def assistant_with_usage_def resolve_user_input_request_def
  request_from_pending_def run_tool_use_def execute_tool_def run_pre_tool_use_def
  run_post_tool_use_def run_commands_def merge_hook_feedback_def hook_allow_def authorize_def
  user_text_def user_input_response_def tool_result_def record_usage_def push_message_def
  PermissionPolicy_new_def required_mode_for_def

lemma demo_done:
  "\<exists>summ rt' w'. run_turn 3 (demo_env True) (lit ''hi'') (demo_runtime Allow) 0 = Some (Inr summ, rt', w')
     \<and> calls_of (assistant_messages summ) = [(lit ''a'', lit ''t''), (lit ''b'', lit ''t'')]"
  by (simp add: demo_eval numeral_3_eq_3 Let_def calls_of_def)


lemma demo_policy: "permission_policy (demo_runtime mode) = PermissionPolicy_new mode"
  by (simp add: demo_runtime_def with_max_iterations_def Runtime_new_def)

lemma demo_limit: "max_iterations (demo_runtime mode) = 5"
  by (simp add: demo_runtime_def with_max_iterations_def)

lemma demo_synced: "usage_tracker (demo_runtime mode) = tracker_from_session (session (demo_runtime mode))"
  by (simp add: demo_runtime_def with_max_iterations_def Runtime_new_def)

theorem turn_appends_history_witness:
  "\<exists>res rt' w' new. run_turn 3 (demo_env True) (lit ''hi'') (demo_runtime Allow) 0 = Some (res, rt', w')
     \<and> messages (session rt') = messages (session (demo_runtime Allow)) @ user_text (lit ''hi'') # new"
proof -
  obtain summ rt' w' where r: "run_turn 3 (demo_env True) (lit ''hi'') (demo_runtime Allow) 0 =
      Some (Inr summ, rt', w')" using demo_done by blast
  from turn_appends_history[OF r] r show ?thesis by blast
qed

theorem turn_keeps_tracker_synced_witness:
  "\<exists>res rt' w'. run_turn 3 (demo_env True) (lit ''hi'') (demo_runtime Allow) 0 = Some (res, rt', w')
     \<and> usage_tracker rt' = tracker_from_session (session rt')"
proof -
  obtain summ rt' w' where r: "run_turn 3 (demo_env True) (lit ''hi'') (demo_runtime Allow) 0 =
      Some (Inr summ, rt', w')" using demo_done by blast
  from turn_keeps_tracker_synced[OF demo_synced r] r show ?thesis by blast
qed

theorem turn_answers_every_call_witness:
  "\<exists>summ rt' w'. run_turn 3 (demo_env True) (lit ''hi'') (demo_runtime Allow) 0 = Some (Inr summ, rt', w')
     \<and> answers_of (tool_results summ) = [(lit ''a'', lit ''t''), (lit ''b'', lit ''t'')]"
proof -
  obtain summ rt' w' where r: "run_turn 3 (demo_env True) (lit ''hi'') (demo_runtime Allow) 0 =
      Some (Inr summ, rt', w')" "calls_of (assistant_messages summ) = [(lit ''a'', lit ''t''), (lit ''b'', lit ''t'')]"
    using demo_done by blast
  from turn_answers_every_call[OF r(1)] r show ?thesis by auto
qed

text \<open>A prompter that refuses keeps the tool of the demonstration from running in workspace-write mode.\<close>

theorem denied_tools_never_run_witness:
  "run_turn 3 ((demo_env True)\<lparr>permission_prompter := Some (\<lambda>r n. (PromptDeny [], n)),
       tool_execute := (\<lambda>name inp n. (Inl [], n + 99))\<rparr>) (lit ''hi'') (demo_runtime WorkspaceWrite) 0 =
   run_turn 3 ((demo_env True)\<lparr>permission_prompter := Some (\<lambda>r n. (PromptDeny [], n))\<rparr>) (lit ''hi'')
     (demo_runtime WorkspaceWrite) 0"
proof -
  let ?env = "(demo_env True)\<lparr>permission_prompter := Some (\<lambda>r n. (PromptDeny [], n))\<rparr>"
  have "\<not> cleared ?env (permission_policy (demo_runtime WorkspaceWrite)) h name inp n" for h name inp n
    by (simp add: cleared_def demo_policy PermissionPolicy_new_def mode_covers_def)
  then show ?thesis
    using denied_tools_never_run[of ?env "demo_runtime WorkspaceWrite" "\<lambda>name inp n. (Inl [], n + 99)" 3 "lit ''hi''" 0]
    by simp
qed

theorem turn_terminates_witness:
  "\<exists>r. run_turn 6 (demo_env False) (lit ''hi'') (demo_runtime Allow) 0 = Some r"
proof -
  obtain r where "\<forall>k. run_turn (unat (max_iterations (demo_runtime Allow)) + 1 + k) (demo_env False)
      (lit ''hi'') (demo_runtime Allow) 0 = Some r"
    using turn_terminates[of "demo_runtime Allow" "demo_env False" "lit ''hi''" 0]
    by (auto simp: demo_limit)
  then have "run_turn (unat (max_iterations (demo_runtime Allow)) + 1 + 0) (demo_env False)
      (lit ''hi'') (demo_runtime Allow) 0 = Some r" by blast
  then have "run_turn 6 (demo_env False) (lit ''hi'') (demo_runtime Allow) 0 = Some r"
    by (simp add: demo_limit)
  then show ?thesis by blast
qed

theorem resume_needs_responder_witness:
  "\<exists>e. resume_pending_turn (Suc 0) (demo_env False) (demo_runtime Allow) 0 =
     Some (Inl e, demo_runtime Allow, 0)"
  using resume_needs_responder[of "demo_env False" 0 "demo_runtime Allow" 0] by (auto simp: demo_env_def)

text \<open>a turn that is interrupted by an input request never completes its remaining tool calls: the
  first turn below runs the first tool and stops at the request, the resumed turn answers the request
  and succeeds, and the history keeps a tool call without a result.\<close>

theorem interrupted_turn_loses_call:
  "\<exists>e rt1 w1 summ rt2 w2.
     run_turn 3 (demo_env False) (lit ''hi'') (demo_runtime Allow) 0 = Some (Inl e, rt1, w1)
     \<and> error_pending e \<noteq> None
     \<and> resume_pending_turn 3 (demo_env True) rt1 w1 = Some (Inr summ, rt2, w2)
     \<and> calls_of (messages (session rt2)) = [(lit ''a'', lit ''t''), (lit ''b'', lit ''t'')]
     \<and> answers_of (messages (session rt2)) = [(lit ''a'', lit ''t'')]"
  by (simp add: demo_eval numeral_3_eq_3 Let_def calls_of_def answers_of_def RuntimeError_pending_def)

end
