(* ===== verification/Sandbox.thy ===== *)
theory Sandbox
  imports Permissions
begin

text \<open>
  The sandbox of shell commands: the configuration and its resolution
  (\<open>runtime/src/sandbox.rs\<close>), the overrides a command may carry (\<open>runtime/src/bash.rs\<close>) and the
  ceiling a tool profile puts on them (\<open>runtime/src/tool_profile.rs\<close>). What the code asks of the
  host - the operating system, whether \<open>unshare\<close> is installed, the container markers, the variable
  \<open>PATH\<close> - is a record. Directory names are strings, joined the way \<open>PathBuf::push\<close> joins them.
\<close>

datatype FilesystemIsolationMode = Off | WorkspaceOnly | AllowList

fun filesystem_mode_str :: "FilesystemIsolationMode \<Rightarrow> rstr" where
  "filesystem_mode_str Off = lit ''off''"
| "filesystem_mode_str WorkspaceOnly = lit ''workspace-only''"
| "filesystem_mode_str AllowList = lit ''allow-list''"

fun filesystem_mode_rank :: "FilesystemIsolationMode \<Rightarrow> nat" where
  "filesystem_mode_rank Off = 0"
| "filesystem_mode_rank WorkspaceOnly = 1"
| "filesystem_mode_rank AllowList = 2"

text \<open>The modes are ordered by their rank, the stricter one being the greater.\<close>

instantiation FilesystemIsolationMode :: linorder
begin

definition less_eq_FilesystemIsolationMode :: "FilesystemIsolationMode \<Rightarrow> FilesystemIsolationMode \<Rightarrow> bool" where
  "less_eq_FilesystemIsolationMode a b \<longleftrightarrow> filesystem_mode_rank a \<le> filesystem_mode_rank b"

definition less_FilesystemIsolationMode :: "FilesystemIsolationMode \<Rightarrow> FilesystemIsolationMode \<Rightarrow> bool" where
  "less_FilesystemIsolationMode a b \<longleftrightarrow> filesystem_mode_rank a < filesystem_mode_rank b"

instance
proof
  fix a b :: FilesystemIsolationMode
  show "a \<le> b \<Longrightarrow> b \<le> a \<Longrightarrow> a = b"
    by (cases a; cases b; simp add: less_eq_FilesystemIsolationMode_def)
qed (auto simp: less_eq_FilesystemIsolationMode_def less_FilesystemIsolationMode_def)

end

record SandboxConfig =
  cfg_enabled :: "bool option"
  cfg_namespace :: "bool option"
  cfg_network :: "bool option"
  cfg_filesystem :: "FilesystemIsolationMode option"
  cfg_mounts :: "rstr list"

record SandboxRequest =
  rq_enabled :: bool
  rq_namespace :: bool
  rq_network :: bool
  rq_filesystem :: FilesystemIsolationMode
  rq_mounts :: "rstr list"

record ContainerEnvironment =
  in_container :: bool
  markers :: "rstr list"

record SandboxStatus =
  st_enabled :: bool
  st_requested :: SandboxRequest
  st_supported :: bool
  st_active :: bool
  st_namespace_supported :: bool
  st_namespace_active :: bool
  st_network_supported :: bool
  st_network_active :: bool
  st_filesystem_mode :: FilesystemIsolationMode
  st_filesystem_active :: bool
  st_mounts :: "rstr list"
  st_in_container :: bool
  st_markers :: "rstr list"
  st_fallback_reason :: "rstr option"

record SandboxDetectionInputs =
  env_pairs :: "(rstr \<times> rstr) list"
  dockerenv_exists :: bool
  containerenv_exists :: bool
  proc_1_cgroup :: "rstr option"

record LinuxSandboxCommand =
  ls_program :: rstr
  ls_args :: "rstr list"
  ls_env :: "(rstr \<times> rstr) list"

record Host =
  host_linux :: bool
  host_unshare :: bool
  host_detection :: SandboxDetectionInputs
  host_path :: "rstr option"

section \<open>Resolving a request\<close>

definition or_else :: "'a option \<Rightarrow> 'a option \<Rightarrow> 'a option" where
  "or_else a b = (case a of None \<Rightarrow> b | Some x \<Rightarrow> Some x)"

definition resolve_request ::
  "SandboxConfig \<Rightarrow> bool option \<Rightarrow> bool option \<Rightarrow> bool option \<Rightarrow> FilesystemIsolationMode option
     \<Rightarrow> rstr list option \<Rightarrow> SandboxRequest" where
  "resolve_request c en ns nw fsm mts =
     \<lparr>rq_enabled = unwrap_or (unwrap_or True (cfg_enabled c)) en,
      rq_namespace = unwrap_or (unwrap_or True (cfg_namespace c)) ns,
      rq_network = unwrap_or (unwrap_or False (cfg_network c)) nw,
      rq_filesystem = unwrap_or WorkspaceOnly (or_else fsm (cfg_filesystem c)),
      rq_mounts = unwrap_or (cfg_mounts c) mts\<rparr>"

definition env_marker :: "rstr \<times> rstr \<Rightarrow> rstr option" where
  "env_marker kv =
     (let normalized = to_ascii_lowercase (fst kv) in
      if normalized \<in> {lit ''container'', lit ''docker'', lit ''podman'', lit ''kubernetes_service_host''}
        \<and> snd kv \<noteq> []
      then Some (lit ''env:'' @ fst kv @ lit ''='' @ snd kv) else None)"

definition detect_container_environment_from :: "SandboxDetectionInputs \<Rightarrow> ContainerEnvironment" where
  "detect_container_environment_from d =
     (let found =
        (if dockerenv_exists d then [lit ''/.dockerenv''] else [])
        @ (if containerenv_exists d then [lit ''/run/.containerenv''] else [])
        @ List.map_filter env_marker (env_pairs d)
        @ (case proc_1_cgroup d of None \<Rightarrow> []
           | Some cgroup \<Rightarrow>
               map (\<lambda>n. lit ''/proc/1/cgroup:'' @ lit n)
                 (filter (\<lambda>n. contains (lit n) cgroup)
                    [''docker'', ''containerd'', ''kubepods'', ''podman'', ''libpod'']));
          ms = remdups_adj (sort found) in
      \<lparr>in_container = (ms \<noteq> []), markers = ms\<rparr>)"

text \<open>\<open>PathBuf::push\<close> on the text of a path.\<close>

definition push_path :: "rstr \<Rightarrow> rstr \<Rightarrow> rstr" where
  "push_path base p =
     (if p \<noteq> [] \<and> hd p = 47 then p
      else if base \<noteq> [] \<and> last base \<noteq> 47 then base @ [47] @ p
      else base @ p)"

definition normalize_mounts :: "rstr list \<Rightarrow> rstr \<Rightarrow> rstr list" where
  "normalize_mounts mounts cwd = map (\<lambda>m. if m \<noteq> [] \<and> hd m = 47 then m else push_path cwd m) mounts"

definition resolve_sandbox_status_for_request ::
  "Host \<Rightarrow> SandboxRequest \<Rightarrow> rstr \<Rightarrow> SandboxStatus" where
  "resolve_sandbox_status_for_request host rq cwd =
     (let container = detect_container_environment_from (host_detection host);
          namespace_supported = (host_linux host \<and> host_unshare host);
          network_supported = namespace_supported;
          filesystem_active = (rq_enabled rq \<and> rq_filesystem rq \<noteq> Off);
          fallback_reasons =
            (if rq_enabled rq \<and> rq_namespace rq \<and> \<not> namespace_supported then
               [lit ''namespace isolation unavailable (requires Linux with '' @ [96] @ lit ''unshare''
                @ [96] @ lit '')''] else [])
            @ (if rq_enabled rq \<and> rq_network rq \<and> \<not> network_supported then
               [lit ''network isolation unavailable (requires Linux with '' @ [96] @ lit ''unshare''
                @ [96] @ lit '')''] else [])
            @ (if rq_enabled rq \<and> rq_filesystem rq = AllowList \<and> rq_mounts rq = [] then
               [lit ''filesystem allow-list requested without configured mounts''] else []);
          active = (rq_enabled rq \<and> (\<not> rq_namespace rq \<or> namespace_supported)
                    \<and> (\<not> rq_network rq \<or> network_supported)) in
      \<lparr>st_enabled = rq_enabled rq, st_requested = rq, st_supported = namespace_supported,
       st_active = active, st_namespace_supported = namespace_supported,
       st_namespace_active = (rq_enabled rq \<and> rq_namespace rq \<and> namespace_supported),
       st_network_supported = network_supported,
       st_network_active = (rq_enabled rq \<and> rq_network rq \<and> network_supported),
       st_filesystem_mode = rq_filesystem rq, st_filesystem_active = filesystem_active,
       st_mounts = normalize_mounts (rq_mounts rq) cwd,
       st_in_container = in_container container, st_markers = markers container,
       st_fallback_reason =
         (if fallback_reasons = [] then None else Some (join (lit ''; '') fallback_reasons))\<rparr>)"

definition resolve_sandbox_status :: "Host \<Rightarrow> SandboxConfig \<Rightarrow> rstr \<Rightarrow> SandboxStatus" where
  "resolve_sandbox_status host c cwd =
     resolve_sandbox_status_for_request host (resolve_request c None None None None None) cwd"

definition build_linux_sandbox_command ::
  "Host \<Rightarrow> rstr \<Rightarrow> rstr \<Rightarrow> SandboxStatus \<Rightarrow> LinuxSandboxCommand option" where
  "build_linux_sandbox_command host command cwd st =
     (if \<not> host_linux host \<or> \<not> st_enabled st \<or> (\<not> st_namespace_active st \<and> \<not> st_network_active st)
      then None
      else Some
        \<lparr>ls_program = lit ''unshare'',
         ls_args =
           map lit [''--user'', ''--map-root-user'', ''--mount'', ''--ipc'', ''--pid'', ''--uts'', ''--fork'']
           @ (if st_network_active st then [lit ''--net''] else [])
           @ [lit ''sh'', lit ''-lc'', command],
         ls_env =
           [(lit ''HOME'', push_path cwd (lit ''.sandbox-home'')),
            (lit ''TMPDIR'', push_path cwd (lit ''.sandbox-tmp'')),
            (lit ''OPENYAK_SANDBOX_FILESYSTEM_MODE'', filesystem_mode_str (st_filesystem_mode st)),
            (lit ''OPENYAK_SANDBOX_ALLOWED_MOUNTS'', join (lit '':'') (st_mounts st))]
           @ (case host_path host of None \<Rightarrow> [] | Some p \<Rightarrow> [(lit ''PATH'', p)])\<rparr>)"

section \<open>Commands and profiles\<close>

record BashCommandInput =
  command :: rstr
  timeout :: "u64 option"
  bash_description :: "rstr option"
  run_in_background :: "bool option"
  dangerously_disable_sandbox :: "bool option"
  namespace_restrictions :: "bool option"
  isolate_network :: "bool option"
  filesystem_mode :: "FilesystemIsolationMode option"
  allowed_mounts :: "rstr list option"

definition request_for_input :: "SandboxConfig \<Rightarrow> BashCommandInput \<Rightarrow> SandboxRequest" where
  "request_for_input c inp =
     resolve_request c (map_option Not (dangerously_disable_sandbox inp))
       (namespace_restrictions inp) (isolate_network inp) (filesystem_mode inp) (allowed_mounts inp)"

definition sandbox_status_for_input :: "Host \<Rightarrow> BashCommandInput \<Rightarrow> rstr \<Rightarrow> SandboxConfig \<Rightarrow> SandboxStatus" where
  "sandbox_status_for_input host inp cwd c =
     resolve_sandbox_status_for_request host (request_for_input c inp) cwd"

text \<open>
  What is started: the program, its arguments and the variables set for it. The shell is \<open>sh -lc\<close>.
\<close>

record PreparedCommand =
  pc_program :: rstr
  pc_args :: "rstr list"
  pc_env :: "(rstr \<times> rstr) list"

definition prepare_command :: "Host \<Rightarrow> rstr \<Rightarrow> rstr \<Rightarrow> SandboxStatus \<Rightarrow> PreparedCommand" where
  "prepare_command host cmd cwd st =
     (case build_linux_sandbox_command host cmd cwd st of
        Some launcher \<Rightarrow>
          \<lparr>pc_program = ls_program launcher, pc_args = ls_args launcher, pc_env = ls_env launcher\<rparr>
      | None \<Rightarrow>
          \<lparr>pc_program = lit ''sh'', pc_args = [lit ''-lc'', cmd],
           pc_env =
             (if st_filesystem_active st then
                [(lit ''HOME'', push_path cwd (lit ''.sandbox-home'')),
                 (lit ''TMPDIR'', push_path cwd (lit ''.sandbox-tmp''))]
              else [])\<rparr>)"

datatype ResolvedPermissionMode = ResolvedReadOnly | ResolvedWorkspaceWrite | ResolvedDangerFullAccess

fun resolved_permission_mode_to_permission_mode :: "ResolvedPermissionMode \<Rightarrow> PermissionMode" where
  "resolved_permission_mode_to_permission_mode ResolvedReadOnly = ReadOnly"
| "resolved_permission_mode_to_permission_mode ResolvedWorkspaceWrite = WorkspaceWrite"
| "resolved_permission_mode_to_permission_mode ResolvedDangerFullAccess = DangerFullAccess"

record ToolProfileBashPolicy =
  sandbox :: SandboxConfig
  allow_dangerously_disable_sandbox :: bool

definition validate_override :: "ToolProfileBashPolicy \<Rightarrow> BashCommandInput \<Rightarrow> rstr + unit" where
  "validate_override p inp =
     (if dangerously_disable_sandbox inp = Some True \<and> \<not> allow_dangerously_disable_sandbox p
        \<and> unwrap_or True (cfg_enabled (sandbox p)) then
        Inl (lit ''bash override cannot disable the active tool-profile sandbox policy'')
      else if cfg_namespace (sandbox p) = Some True \<and> namespace_restrictions inp = Some False then
        Inl (lit ''bash override cannot weaken required namespace restrictions'')
      else if cfg_network (sandbox p) = Some True \<and> isolate_network inp = Some False then
        Inl (lit ''bash override cannot weaken required network isolation'')
      else if (case (cfg_filesystem (sandbox p), filesystem_mode inp) of
                 (Some required, Some candidate) \<Rightarrow> candidate < required
               | _ \<Rightarrow> False) then
        Inl (lit ''bash override cannot weaken the active filesystem isolation mode'')
      else if (case allowed_mounts inp of None \<Rightarrow> False
               | Some ms \<Rightarrow> \<not> set ms \<subseteq> set (cfg_mounts (sandbox p))) then
        Inl (lit ''bash override cannot widen the active allowedMounts ceiling'')
      else Inr ())"

definition policy_summary :: "ToolProfileBashPolicy \<Rightarrow> rstr" where
  "policy_summary p =
     lit ''bash-only '' @ [183] @ lit '' ''
     @ (if unwrap_or True (cfg_enabled (sandbox p)) then lit ''sandbox on'' else lit ''sandbox off'')
     @ lit '' '' @ [183] @ lit '' fs ''
     @ filesystem_mode_str (unwrap_or WorkspaceOnly (cfg_filesystem (sandbox p)))
     @ lit '' '' @ [183] @ lit '' ''
     @ (if allow_dangerously_disable_sandbox p then lit ''disable allowed'' else lit ''disable denied'')"

section \<open>Properties\<close>

text \<open>A request is at least as strict as another one.\<close>

definition stricter :: "SandboxRequest \<Rightarrow> SandboxRequest \<Rightarrow> bool" where
  "stricter a b \<longleftrightarrow>
     (rq_enabled b \<longrightarrow> rq_enabled a) \<and> (rq_namespace b \<longrightarrow> rq_namespace a)
     \<and> (rq_network b \<longrightarrow> rq_network a) \<and> rq_filesystem b \<le> rq_filesystem a
     \<and> set (rq_mounts a) \<subseteq> set (rq_mounts b)"

lemma accepted_override:
  assumes "validate_override p inp = Inr ()"
  shows "\<not> (dangerously_disable_sandbox inp = Some True \<and> \<not> allow_dangerously_disable_sandbox p
          \<and> unwrap_or True (cfg_enabled (sandbox p)))"
    and "\<not> (cfg_namespace (sandbox p) = Some True \<and> namespace_restrictions inp = Some False)"
    and "\<not> (cfg_network (sandbox p) = Some True \<and> isolate_network inp = Some False)"
    and "\<not> (case (cfg_filesystem (sandbox p), filesystem_mode inp) of
           (Some required, Some candidate) \<Rightarrow> candidate < required | _ \<Rightarrow> False)"
    and "\<not> (case allowed_mounts inp of None \<Rightarrow> False | Some ms \<Rightarrow> \<not> set ms \<subseteq> set (cfg_mounts (sandbox p)))"
  using assms unfolding validate_override_def by (metis Inl_Inr_False)+

text \<open>a tool profile is a ceiling: when the profile states its namespace and filesystem settings
  and does not allow the sandbox to be disabled, the sandbox a command gets after an accepted override
  is at least as strict in every respect as the one the profile asks for.\<close>

theorem accepted_override_is_stricter:
  assumes "validate_override p inp = Inr ()"
    and "\<not> allow_dangerously_disable_sandbox p"
    and "cfg_namespace (sandbox p) \<noteq> None" "cfg_filesystem (sandbox p) \<noteq> None"
  shows "stricter (request_for_input (sandbox p) inp)
    (resolve_request (sandbox p) None None None None None)"
proof -
  let ?c = "sandbox p"
  note acc = accepted_override[OF assms(1)]
  have "rq_enabled (resolve_request ?c None None None None None) \<longrightarrow> rq_enabled (request_for_input ?c inp)"
    using acc(1) assms(2)
    by (cases "dangerously_disable_sandbox inp") (auto simp: request_for_input_def resolve_request_def unwrap_or_def)
  moreover have "rq_namespace (resolve_request ?c None None None None None) \<longrightarrow> rq_namespace (request_for_input ?c inp)"
    using acc(2) assms(3)
    by (cases "namespace_restrictions inp") (auto simp: request_for_input_def resolve_request_def unwrap_or_def)
  moreover have "rq_network (resolve_request ?c None None None None None) \<longrightarrow> rq_network (request_for_input ?c inp)"
    using acc(3)
    by (cases "isolate_network inp"; cases "cfg_network ?c")
      (auto simp: request_for_input_def resolve_request_def unwrap_or_def)
  moreover have "rq_filesystem (resolve_request ?c None None None None None) \<le> rq_filesystem (request_for_input ?c inp)"
    using acc(4) assms(4)
    by (cases "filesystem_mode inp"; cases "cfg_filesystem ?c")
      (auto simp: request_for_input_def resolve_request_def unwrap_or_def or_else_def not_less)
  moreover have "set (rq_mounts (request_for_input ?c inp)) \<subseteq> set (rq_mounts (resolve_request ?c None None None None None))"
    using acc(5)
    by (cases "allowed_mounts inp") (auto simp: request_for_input_def resolve_request_def unwrap_or_def)
  ultimately show ?thesis by (simp add: stricter_def)
qed

definition strict_profile :: ToolProfileBashPolicy where
  "strict_profile =
     \<lparr>sandbox = \<lparr>cfg_enabled = Some True, cfg_namespace = Some True, cfg_network = Some True,
        cfg_filesystem = Some WorkspaceOnly, cfg_mounts = [lit ''data'']\<rparr>,
      allow_dangerously_disable_sandbox = False\<rparr>"

definition plain_input :: BashCommandInput where
  "plain_input =
     \<lparr>command = lit ''ls'', timeout = None, bash_description = None, run_in_background = None,
      dangerously_disable_sandbox = None, namespace_restrictions = None, isolate_network = None,
      filesystem_mode = None, allowed_mounts = None\<rparr>"

theorem accepted_override_is_stricter_witness:
  "stricter (request_for_input (sandbox strict_profile) (plain_input\<lparr>filesystem_mode := Some AllowList\<rparr>))
     (resolve_request (sandbox strict_profile) None None None None None)"
  by (rule accepted_override_is_stricter)
    (simp_all add: validate_override_def strict_profile_def plain_input_def unwrap_or_def
      less_FilesystemIsolationMode_def)

text \<open>the settings a profile leaves to their defaults are not protected: without an explicit
  setting the sandbox has namespace isolation and confines the file system to the workspace, the
  override that turns both off is accepted, and the command runs without them.\<close>

theorem default_settings_can_be_weakened:
  "\<exists>p inp. validate_override p inp = Inr ()
     \<and> \<not> allow_dangerously_disable_sandbox p
     \<and> rq_namespace (resolve_request (sandbox p) None None None None None)
     \<and> rq_filesystem (resolve_request (sandbox p) None None None None None) = WorkspaceOnly
     \<and> \<not> rq_namespace (request_for_input (sandbox p) inp)
     \<and> rq_filesystem (request_for_input (sandbox p) inp) = Off"
  by (rule exI[of _ "\<lparr>sandbox = \<lparr>cfg_enabled = None, cfg_namespace = None, cfg_network = None,
        cfg_filesystem = None, cfg_mounts = []\<rparr>, allow_dangerously_disable_sandbox = False\<rparr>"],
      rule exI[of _ "plain_input\<lparr>namespace_restrictions := Some False, filesystem_mode := Some Off\<rparr>"])
    (simp add: validate_override_def plain_input_def resolve_request_def request_for_input_def
      unwrap_or_def or_else_def)

text \<open>a command never loses isolation silently: whenever an enabled sandbox was asked for
  namespaces or a private network, the command is started through \<open>unshare\<close> with the matching
  options, or the status says why not. A disabled sandbox starts the plain shell and reports
  nothing.\<close>

theorem isolation_or_fallback:
  "let st = resolve_sandbox_status_for_request host rq cwd;
       pc = prepare_command host cmd cwd st in
   (if rq_enabled rq then
      (if rq_namespace rq \<or> rq_network rq then
         st_fallback_reason st \<noteq> None \<and> pc_program pc = lit ''sh''
         \<or> pc_program pc = lit ''unshare'' \<and> lit ''--mount'' \<in> set (pc_args pc)
           \<and> last (pc_args pc) = cmd
           \<and> (if rq_network rq then lit ''--net'' \<in> set (pc_args pc) else True)
       else pc_program pc = lit ''sh'')
    else pc_program pc = lit ''sh'' \<and> pc_env pc = [] \<and> st_fallback_reason st = None)"
proof -
  let ?st = "resolve_sandbox_status_for_request host rq cwd"
  let ?ok = "host_linux host \<and> host_unshare host"
  have st: "st_enabled ?st = rq_enabled rq" "st_namespace_active ?st \<longleftrightarrow> rq_enabled rq \<and> rq_namespace rq \<and> ?ok"
    "st_network_active ?st \<longleftrightarrow> rq_enabled rq \<and> rq_network rq \<and> ?ok"
    "\<not> rq_enabled rq \<Longrightarrow> \<not> st_filesystem_active ?st"
    by (simp_all add: resolve_sandbox_status_for_request_def Let_def)
  have quiet: "\<not> rq_enabled rq \<Longrightarrow> st_fallback_reason ?st = None"
    by (simp add: resolve_sandbox_status_for_request_def Let_def)
  have says: "rq_enabled rq \<Longrightarrow> rq_namespace rq \<or> rq_network rq \<Longrightarrow> \<not> ?ok \<Longrightarrow> st_fallback_reason ?st \<noteq> None"
    by (auto simp: resolve_sandbox_status_for_request_def Let_def)
  show ?thesis
  proof (cases "rq_enabled rq \<and> (rq_namespace rq \<or> rq_network rq) \<and> ?ok")
    case True
    then show ?thesis by (auto simp: Let_def prepare_command_def build_linux_sandbox_command_def st)
  next
    case False
    then have "build_linux_sandbox_command host cmd cwd ?st = None"
      unfolding build_linux_sandbox_command_def st by auto
    moreover have "st_fallback_reason ?st \<noteq> None" if "rq_enabled rq \<and> (rq_namespace rq \<or> rq_network rq)"
      using says False that by blast
    ultimately show ?thesis
      using quiet st(4) by (cases "rq_enabled rq"; cases "rq_namespace rq \<or> rq_network rq") (simp_all add: Let_def prepare_command_def)
  qed
qed

end
