(* ===== verification/Config_Values.thy ===== *)
theory Config_Values
  imports Json Sandbox Hooks Rust_Path
begin

text \<open>
  The values of a settings file: the data of \<open>runtime/src/config.rs\<close>, the accessors that read a
  member of a JSON object and name the member in their errors, and the parsers of the sections of the
  settings. Errors are checked in the order the code checks them.
\<close>

section \<open>Data\<close>

datatype ConfigSource = UserConfig | ProjectConfig | LocalConfig

text \<open>The derived order is the order of the declaration: later sources take precedence.\<close>

fun source_rank :: "ConfigSource \<Rightarrow> nat" where
  "source_rank UserConfig = 0"
| "source_rank ProjectConfig = 1"
| "source_rank LocalConfig = 2"

instantiation ConfigSource :: linorder
begin

definition less_eq_ConfigSource :: "ConfigSource \<Rightarrow> ConfigSource \<Rightarrow> bool" where
  "less_eq_ConfigSource a b \<longleftrightarrow> source_rank a \<le> source_rank b"

definition less_ConfigSource :: "ConfigSource \<Rightarrow> ConfigSource \<Rightarrow> bool" where
  "less_ConfigSource a b \<longleftrightarrow> source_rank a < source_rank b"

instance
proof
  fix a b :: ConfigSource
  show "a \<le> b \<Longrightarrow> b \<le> a \<Longrightarrow> a = b"
    by (cases a; cases b; simp add: less_eq_ConfigSource_def)
qed (auto simp: less_eq_ConfigSource_def less_ConfigSource_def)

end

record ConfigEntry =
  entry_source :: ConfigSource
  entry_path :: path

record RuntimePluginConfig =
  enabled_plugins :: "(rstr \<times> bool) list"
  external_directories :: "path list"
  install_root :: "path option"
  plugin_registry_path :: "path option"
  bundled_root :: "path option"

definition RuntimePluginConfig_default :: RuntimePluginConfig where
  "RuntimePluginConfig_default =
     \<lparr>enabled_plugins = [], external_directories = [], install_root = None,
      plugin_registry_path = None, bundled_root = None\<rparr>"

definition set_plugin_state :: "rstr \<Rightarrow> bool \<Rightarrow> RuntimePluginConfig \<Rightarrow> RuntimePluginConfig" where
  "set_plugin_state plugin_id on c = c\<lparr>enabled_plugins := bt_insert plugin_id on (enabled_plugins c)\<rparr>"

definition state_for :: "RuntimePluginConfig \<Rightarrow> rstr \<Rightarrow> bool \<Rightarrow> bool" where
  "state_for c plugin_id default_enabled =
     unwrap_or default_enabled (bt_get (enabled_plugins c) plugin_id)"

record RuntimeSkillConfig =
  skill_registry_path :: "rstr option"

record RuntimeBrowserControlConfig =
  browser_enabled :: bool
  artifacts_dir :: path

datatype McpTransport =
  TransportStdio | TransportSse | TransportHttp | TransportWs | TransportSdk | TransportManagedProxy

record McpStdioServerConfig =
  stdio_command :: rstr
  stdio_args :: "rstr list"
  stdio_env :: "(rstr \<times> rstr) list"

record McpOAuthConfig =
  mo_client_id :: "rstr option"
  mo_callback_port :: "16 word option"
  mo_auth_server_metadata_url :: "rstr option"
  mo_xaa :: "bool option"

record McpRemoteServerConfig =
  remote_url :: rstr
  remote_headers :: "(rstr \<times> rstr) list"
  remote_headers_helper :: "rstr option"
  remote_oauth :: "McpOAuthConfig option"

record McpWebSocketServerConfig =
  ws_url :: rstr
  ws_headers :: "(rstr \<times> rstr) list"
  ws_headers_helper :: "rstr option"

record McpSdkServerConfig =
  sdk_name :: rstr

record McpManagedProxyServerConfig =
  proxy_url :: rstr
  proxy_id :: rstr

datatype McpServerConfig =
    StdioServer McpStdioServerConfig
  | SseServer McpRemoteServerConfig
  | HttpServer McpRemoteServerConfig
  | WsServer McpWebSocketServerConfig
  | SdkServer McpSdkServerConfig
  | ManagedProxyServer McpManagedProxyServerConfig

fun server_transport :: "McpServerConfig \<Rightarrow> McpTransport" where
  "server_transport (StdioServer _) = TransportStdio"
| "server_transport (SseServer _) = TransportSse"
| "server_transport (HttpServer _) = TransportHttp"
| "server_transport (WsServer _) = TransportWs"
| "server_transport (SdkServer _) = TransportSdk"
| "server_transport (ManagedProxyServer _) = TransportManagedProxy"

record ScopedMcpServerConfig =
  scope :: ConfigSource
  server :: McpServerConfig

record OAuthConfig =
  oc_client_id :: rstr
  oc_authorize_url :: rstr
  oc_token_url :: rstr
  oc_callback_port :: "16 word option"
  oc_manual_redirect_url :: "rstr option"
  oc_scopes :: "rstr list"

record OAuthConfigOverride =
  ov_client_id :: "rstr option"
  ov_authorize_url :: "rstr option"
  ov_token_url :: "rstr option"
  ov_callback_port :: "16 word option"
  ov_manual_redirect_url :: "rstr option"
  ov_scopes :: "rstr list option"

definition merged_with_defaults :: "OAuthConfigOverride \<Rightarrow> OAuthConfig \<Rightarrow> OAuthConfig" where
  "merged_with_defaults v d =
     \<lparr>oc_client_id = unwrap_or (oc_client_id d) (ov_client_id v),
      oc_authorize_url = unwrap_or (oc_authorize_url d) (ov_authorize_url v),
      oc_token_url = unwrap_or (oc_token_url d) (ov_token_url v),
      oc_callback_port = or_else (ov_callback_port v) (oc_callback_port d),
      oc_manual_redirect_url = or_else (ov_manual_redirect_url v) (oc_manual_redirect_url d),
      oc_scopes = unwrap_or (oc_scopes d) (ov_scopes v)\<rparr>"

definition override_resolved :: "OAuthConfigOverride \<Rightarrow> OAuthConfig option" where
  "override_resolved v =
     (case (ov_client_id v, ov_authorize_url v, ov_token_url v) of
        (Some cid, Some auth, Some tok) \<Rightarrow>
          Some \<lparr>oc_client_id = cid, oc_authorize_url = auth, oc_token_url = tok,
                oc_callback_port = ov_callback_port v,
                oc_manual_redirect_url = ov_manual_redirect_url v,
                oc_scopes = unwrap_or [] (ov_scopes v)\<rparr>
      | _ \<Rightarrow> None)"

definition override_is_empty :: "OAuthConfigOverride \<Rightarrow> bool" where
  "override_is_empty v \<longleftrightarrow>
     ov_client_id v = None \<and> ov_authorize_url v = None \<and> ov_token_url v = None
     \<and> ov_callback_port v = None \<and> ov_manual_redirect_url v = None \<and> ov_scopes v = None"

record ToolProfileConfig =
  profile_description :: "rstr option"
  profile_permission_mode :: ResolvedPermissionMode
  profile_allowed_tools :: "rstr list"
  profile_bash_policy :: "ToolProfileBashPolicy option"

text \<open>An I/O error is represented by its message.\<close>

datatype ConfigError = ConfigIo rstr | ConfigParse rstr

fun config_error_display :: "ConfigError \<Rightarrow> rstr" where
  "config_error_display (ConfigIo e) = e"
| "config_error_display (ConfigParse e) = e"

section \<open>Members of an object\<close>

type_synonym json_object = "(rstr \<times> JsonValue) list"

definition expect_object :: "JsonValue \<Rightarrow> rstr \<Rightarrow> ConfigError + json_object" where
  "expect_object value ctx = ok_or (ConfigParse (ctx @ lit '': expected JSON object'')) (as_object value)"

definition expect_string :: "json_object \<Rightarrow> rstr \<Rightarrow> rstr \<Rightarrow> ConfigError + rstr" where
  "expect_string ob key ctx =
     ok_or (ConfigParse (ctx @ lit '': missing string field '' @ key)) (Option.bind (bt_get ob key) as_str)"

text \<open>
  The four accessors of an optional member share their shape: an absent member is fine, a present
  one must convert.
\<close>

definition optional_member ::
  "(JsonValue \<Rightarrow> 'a option) \<Rightarrow> string \<Rightarrow> json_object \<Rightarrow> rstr \<Rightarrow> rstr \<Rightarrow> ConfigError + 'a option" where
  "optional_member as expected ob key ctx =
     transpose_map (\<lambda>v. ok_or (ConfigParse (ctx @ lit '': field '' @ key @ lit expected)) (as v))
       (bt_get ob key)"

definition config_optional_string :: "json_object \<Rightarrow> rstr \<Rightarrow> rstr \<Rightarrow> ConfigError + rstr option" where
  "config_optional_string = optional_member as_str '' must be a string''"

definition optional_bool :: "json_object \<Rightarrow> rstr \<Rightarrow> rstr \<Rightarrow> ConfigError + bool option" where
  "optional_bool = optional_member as_bool '' must be a boolean''"

definition u16_try_from :: "i64 \<Rightarrow> 16 word option" where
  "u16_try_from n = (if 0 \<le> sint n \<and> sint n < 65536 then Some (ucast n) else None)"

definition optional_u16 :: "json_object \<Rightarrow> rstr \<Rightarrow> rstr \<Rightarrow> ConfigError + 16 word option" where
  "optional_u16 ob key ctx =
     res_bind (optional_member as_i64 '' must be an integer'' ob key ctx)
       (transpose_map (\<lambda>n.
          ok_or (ConfigParse (ctx @ lit '': field '' @ key @ lit '' is out of range'')) (u16_try_from n)))"

definition parse_bool_map :: "JsonValue \<Rightarrow> rstr \<Rightarrow> ConfigError + (rstr \<times> bool) list" where
  "parse_bool_map value ctx =
     res_bind (expect_object value ctx) (\<lambda>m.
     res_bind (collect (\<lambda>(key, v).
         ok_or (ConfigParse (ctx @ lit '': field '' @ key @ lit '' must be a boolean''))
           (map_option (Pair key) (as_bool v))) m) (\<lambda>kvs.
     Inr (fold (\<lambda>(k, b). bt_insert k b) kvs [])))"

definition optional_string_array :: "json_object \<Rightarrow> rstr \<Rightarrow> rstr \<Rightarrow> ConfigError + rstr list option" where
  "optional_string_array ob key ctx =
     res_bind (optional_member as_array '' must be an array'' ob key ctx)
       (transpose_map (collect (\<lambda>item.
          ok_or (ConfigParse (ctx @ lit '': field '' @ key @ lit '' must contain only strings''))
            (as_str item))))"

definition optional_string_map ::
  "json_object \<Rightarrow> rstr \<Rightarrow> rstr \<Rightarrow> ConfigError + (rstr \<times> rstr) list option" where
  "optional_string_map ob key ctx =
     res_bind (optional_member as_object '' must be an object'' ob key ctx)
       (transpose_map (\<lambda>m.
          res_bind (collect (\<lambda>(k, v).
              ok_or (ConfigParse (ctx @ lit '': field '' @ key @ lit '' must contain only string values''))
                (map_option (Pair k) (as_str v))) m) (\<lambda>kvs.
          Inr (fold (\<lambda>(k, t). bt_insert k t) kvs []))))"

text \<open>A section of the merged settings: absent sections have a default.\<close>

definition settings_section :: "JsonValue \<Rightarrow> string \<Rightarrow> JsonValue option" where
  "settings_section root key = Option.bind (as_object root) (\<lambda>ob. bt_get ob (lit key))"

section \<open>Labels\<close>

definition parse_permission_mode_label :: "rstr \<Rightarrow> rstr \<Rightarrow> ConfigError + ResolvedPermissionMode" where
  "parse_permission_mode_label mode ctx =
     (if mode \<in> {lit ''default'', lit ''plan'', lit ''read-only''} then Inr ResolvedReadOnly
      else if mode \<in> {lit ''acceptEdits'', lit ''auto'', lit ''workspace-write''}
      then Inr ResolvedWorkspaceWrite
      else if mode \<in> {lit ''dontAsk'', lit ''danger-full-access''} then Inr ResolvedDangerFullAccess
      else Inl (ConfigParse (ctx @ lit '': unsupported permission mode '' @ mode)))"

definition parse_filesystem_mode_label :: "rstr \<Rightarrow> ConfigError + FilesystemIsolationMode" where
  "parse_filesystem_mode_label value =
     (if value = lit ''off'' then Inr Off
      else if value = lit ''workspace-only'' then Inr WorkspaceOnly
      else if value = lit ''allow-list'' then Inr AllowList
      else Inl (ConfigParse
        (lit ''merged settings.sandbox.filesystemMode: unsupported filesystem mode '' @ value)))"

section \<open>Sections\<close>

definition SandboxConfig_default :: SandboxConfig where
  "SandboxConfig_default =
     \<lparr>cfg_enabled = None, cfg_namespace = None, cfg_network = None, cfg_filesystem = None,
      cfg_mounts = []\<rparr>"

definition parse_sandbox_config_value :: "JsonValue \<Rightarrow> rstr \<Rightarrow> ConfigError + SandboxConfig" where
  "parse_sandbox_config_value value ctx =
     res_bind (expect_object value ctx) (\<lambda>sb.
     res_bind (config_optional_string sb (lit ''filesystemMode'') ctx) (\<lambda>label.
     res_bind (transpose_map parse_filesystem_mode_label label) (\<lambda>fsm.
     res_bind (optional_bool sb (lit ''enabled'') ctx) (\<lambda>en.
     res_bind (optional_bool sb (lit ''namespaceRestrictions'') ctx) (\<lambda>ns.
     res_bind (optional_bool sb (lit ''networkIsolation'') ctx) (\<lambda>nw.
     res_bind (optional_string_array sb (lit ''allowedMounts'') ctx) (\<lambda>mts.
     Inr \<lparr>cfg_enabled = en, cfg_namespace = ns, cfg_network = nw, cfg_filesystem = fsm,
          cfg_mounts = unwrap_or [] mts\<rparr>)))))))"

definition parse_optional_sandbox_config :: "JsonValue \<Rightarrow> ConfigError + SandboxConfig" where
  "parse_optional_sandbox_config root =
     (case settings_section root ''sandbox'' of
        None \<Rightarrow> Inr SandboxConfig_default
      | Some v \<Rightarrow> parse_sandbox_config_value v (lit ''merged settings.sandbox''))"

definition parse_optional_model :: "JsonValue \<Rightarrow> rstr option" where
  "parse_optional_model root = Option.bind (settings_section root ''model'') as_str"

definition parse_optional_hooks_config :: "JsonValue \<Rightarrow> ConfigError + RuntimeHookConfig" where
  "parse_optional_hooks_config root =
     (case settings_section root ''hooks'' of
        None \<Rightarrow> Inr RuntimeHookConfig_default
      | Some v \<Rightarrow>
          res_bind (expect_object v (lit ''merged settings.hooks'')) (\<lambda>hooks.
          res_bind (optional_string_array hooks (lit ''PreToolUse'') (lit ''merged settings.hooks'')) (\<lambda>pre.
          res_bind (optional_string_array hooks (lit ''PostToolUse'') (lit ''merged settings.hooks'')) (\<lambda>post.
          Inr \<lparr>pre_tool_use = unwrap_or [] pre, post_tool_use = unwrap_or [] post\<rparr>))))"

definition parse_optional_skill_config :: "JsonValue \<Rightarrow> ConfigError + RuntimeSkillConfig" where
  "parse_optional_skill_config root =
     (case settings_section root ''skills'' of
        None \<Rightarrow> Inr \<lparr>skill_registry_path = None\<rparr>
      | Some v \<Rightarrow>
          res_bind (expect_object v (lit ''merged settings.skills'')) (\<lambda>skills.
          res_bind (config_optional_string skills (lit ''registryPath'') (lit ''merged settings.skills''))
            (\<lambda>p. Inr \<lparr>skill_registry_path = p\<rparr>)))"

definition parse_optional_permission_mode :: "JsonValue \<Rightarrow> ConfigError + ResolvedPermissionMode option" where
  "parse_optional_permission_mode root =
     (case Option.bind (settings_section root ''permissionMode'') as_str of
        Some mode \<Rightarrow>
          res_bind (parse_permission_mode_label mode (lit ''merged settings.permissionMode''))
            (\<lambda>m. Inr (Some m))
      | None \<Rightarrow>
          (case Option.bind (Option.bind (Option.bind (settings_section root ''permissions'') as_object)
                  (\<lambda>ob. bt_get ob (lit ''defaultMode''))) as_str of
             None \<Rightarrow> Inr None
           | Some mode \<Rightarrow>
               res_bind (parse_permission_mode_label mode
                   (lit ''merged settings.permissions.defaultMode''))
                 (\<lambda>m. Inr (Some m))))"

definition parse_optional_oauth_override_config ::
  "JsonValue \<Rightarrow> rstr \<Rightarrow> ConfigError + OAuthConfigOverride option" where
  "parse_optional_oauth_override_config root ctx =
     (case settings_section root ''oauth'' of
        None \<Rightarrow> Inr None
      | Some v \<Rightarrow>
          res_bind (expect_object v ctx) (\<lambda>ob.
          res_bind (config_optional_string ob (lit ''clientId'') ctx) (\<lambda>cid.
          res_bind (config_optional_string ob (lit ''authorizeUrl'') ctx) (\<lambda>auth.
          res_bind (config_optional_string ob (lit ''tokenUrl'') ctx) (\<lambda>tok.
          res_bind (optional_u16 ob (lit ''callbackPort'') ctx) (\<lambda>port.
          res_bind (config_optional_string ob (lit ''manualRedirectUrl'') ctx) (\<lambda>redirect.
          res_bind (optional_string_array ob (lit ''scopes'') ctx) (\<lambda>scopes.
          let v = \<lparr>ov_client_id = cid, ov_authorize_url = auth, ov_token_url = tok,
                   ov_callback_port = port, ov_manual_redirect_url = redirect, ov_scopes = scopes\<rparr> in
          Inr (if override_is_empty v then None else Some v)))))))))"

definition parse_optional_tool_profile_bash_policy ::
  "json_object \<Rightarrow> rstr \<Rightarrow> ConfigError + ToolProfileBashPolicy option" where
  "parse_optional_tool_profile_bash_policy profile ctx =
     (case bt_get profile (lit ''bashPolicy'') of
        None \<Rightarrow> Inr None
      | Some v \<Rightarrow>
          let policy_context = ctx @ lit ''.bashPolicy'' in
          res_bind (expect_object v policy_context) (\<lambda>policy.
          res_bind (ok_or (ConfigParse (policy_context @ lit '': missing field sandbox''))
                      (bt_get policy (lit ''sandbox''))) (\<lambda>sv.
          res_bind (parse_sandbox_config_value sv (policy_context @ lit ''.sandbox'')) (\<lambda>sb.
          res_bind (optional_bool policy (lit ''allowDangerouslyDisableSandbox'') policy_context) (\<lambda>dis.
          Inr (Some \<lparr>sandbox = sb, allow_dangerously_disable_sandbox = unwrap_or False dis\<rparr>))))))"

definition parse_tool_profile :: "rstr \<Rightarrow> JsonValue \<Rightarrow> ConfigError + ToolProfileConfig" where
  "parse_tool_profile profile_id value =
     (let ctx = lit ''merged settings.toolProfiles.'' @ profile_id in
      res_bind (expect_object value ctx) (\<lambda>profile.
      res_bind (config_optional_string profile (lit ''permissionMode'') ctx) (\<lambda>label.
      res_bind (ok_or (ConfigParse (ctx @ lit '': missing field permissionMode'')) label) (\<lambda>mode.
      res_bind (parse_permission_mode_label mode (ctx @ lit ''.permissionMode'')) (\<lambda>m.
      res_bind (optional_string_array profile (lit ''allowedTools'') ctx) (\<lambda>tools.
      res_bind (ok_or (ConfigParse (ctx @ lit '': missing field allowedTools'')) tools) (\<lambda>allowed.
      res_bind (parse_optional_tool_profile_bash_policy profile ctx) (\<lambda>policy.
      res_bind (config_optional_string profile (lit ''description'') ctx) (\<lambda>desc.
      Inr \<lparr>profile_description = desc, profile_permission_mode = m, profile_allowed_tools = allowed,
           profile_bash_policy = policy\<rparr>)))))))))"

definition parse_optional_tool_profiles :: "JsonValue \<Rightarrow> ConfigError + (rstr \<times> ToolProfileConfig) list" where
  "parse_optional_tool_profiles root =
     (case settings_section root ''toolProfiles'' of
        None \<Rightarrow> Inr []
      | Some v \<Rightarrow>
          res_bind (expect_object v (lit ''merged settings.toolProfiles'')) (\<lambda>profiles.
          res_bind (collect (\<lambda>(i, pv). map_sum id (Pair i) (parse_tool_profile i pv)) profiles) (\<lambda>kvs.
          Inr (fold (\<lambda>(k, p). bt_insert k p) kvs []))))"

section \<open>MCP servers\<close>

definition parse_optional_mcp_oauth_config ::
  "json_object \<Rightarrow> rstr \<Rightarrow> ConfigError + McpOAuthConfig option" where
  "parse_optional_mcp_oauth_config ob ctx =
     (case bt_get ob (lit ''oauth'') of
        None \<Rightarrow> Inr None
      | Some v \<Rightarrow>
          res_bind (expect_object v (ctx @ lit ''.oauth'')) (\<lambda>oauth.
          res_bind (config_optional_string oauth (lit ''clientId'') ctx) (\<lambda>cid.
          res_bind (optional_u16 oauth (lit ''callbackPort'') ctx) (\<lambda>port.
          res_bind (config_optional_string oauth (lit ''authServerMetadataUrl'') ctx) (\<lambda>url.
          res_bind (optional_bool oauth (lit ''xaa'') ctx) (\<lambda>xaa.
          Inr (Some \<lparr>mo_client_id = cid, mo_callback_port = port, mo_auth_server_metadata_url = url,
                     mo_xaa = xaa\<rparr>)))))))"

definition parse_mcp_remote_server_config ::
  "json_object \<Rightarrow> rstr \<Rightarrow> ConfigError + McpRemoteServerConfig" where
  "parse_mcp_remote_server_config ob ctx =
     res_bind (expect_string ob (lit ''url'') ctx) (\<lambda>url.
     res_bind (optional_string_map ob (lit ''headers'') ctx) (\<lambda>headers.
     res_bind (config_optional_string ob (lit ''headersHelper'') ctx) (\<lambda>helper.
     res_bind (parse_optional_mcp_oauth_config ob ctx) (\<lambda>oauth.
     Inr \<lparr>remote_url = url, remote_headers = unwrap_or [] headers, remote_headers_helper = helper,
          remote_oauth = oauth\<rparr>))))"

definition parse_mcp_server_config :: "rstr \<Rightarrow> JsonValue \<Rightarrow> rstr \<Rightarrow> ConfigError + McpServerConfig" where
  "parse_mcp_server_config server_name value ctx =
     res_bind (expect_object value ctx) (\<lambda>ob.
     res_bind (config_optional_string ob (lit ''type'') ctx) (\<lambda>ty.
     let server_type = unwrap_or (lit ''stdio'') ty in
     if server_type = lit ''stdio'' then
       res_bind (expect_string ob (lit ''command'') ctx) (\<lambda>cmd.
       res_bind (optional_string_array ob (lit ''args'') ctx) (\<lambda>args.
       res_bind (optional_string_map ob (lit ''env'') ctx) (\<lambda>env.
       Inr (StdioServer \<lparr>stdio_command = cmd, stdio_args = unwrap_or [] args,
                         stdio_env = unwrap_or [] env\<rparr>))))
     else if server_type = lit ''sse'' then
       map_sum id SseServer (parse_mcp_remote_server_config ob ctx)
     else if server_type = lit ''http'' then
       map_sum id HttpServer (parse_mcp_remote_server_config ob ctx)
     else if server_type = lit ''ws'' then
       res_bind (expect_string ob (lit ''url'') ctx) (\<lambda>url.
       res_bind (optional_string_map ob (lit ''headers'') ctx) (\<lambda>headers.
       res_bind (config_optional_string ob (lit ''headersHelper'') ctx) (\<lambda>helper.
       Inr (WsServer \<lparr>ws_url = url, ws_headers = unwrap_or [] headers, ws_headers_helper = helper\<rparr>))))
     else if server_type = lit ''sdk'' then
       res_bind (expect_string ob (lit ''name'') ctx) (\<lambda>n. Inr (SdkServer \<lparr>sdk_name = n\<rparr>))
     else if server_type = lit ''claudeai-proxy'' then
       res_bind (expect_string ob (lit ''url'') ctx) (\<lambda>url.
       res_bind (expect_string ob (lit ''id'') ctx) (\<lambda>i.
       Inr (ManagedProxyServer \<lparr>proxy_url = url, proxy_id = i\<rparr>)))
     else
       Inl (ConfigParse (ctx @ lit '': unsupported MCP server type for '' @ server_name @ lit '': ''
              @ server_type))))"

section \<open>What the parsers accept\<close>

lemma optional_member_Inr_iff [result_simps]:
  "optional_member as expected ob key ctx = Inr r \<longleftrightarrow>
     (case bt_get ob key of None \<Rightarrow> r = None | Some v \<Rightarrow> as v \<noteq> None \<and> r = as v)"
  by (auto simp: optional_member_def result_simps split: option.splits)

end
