(* ===== verification/Config.thy ===== *)
theory Config
  imports Config_Values
begin

text \<open>
  Loading the configuration (\<open>runtime/src/config.rs\<close>): the five settings files in the order of their
  precedence, their deep merge, the resolution of the paths in them, and the typed configuration that
  results. The file system is a record of the calls the code makes over a world; \<open>serde_json\<close>, which
  only \<open>write_user_model\<close> uses, is a record of its own. Paths are component lists.
\<close>

datatype FileRead = FileContents rstr | FileNotFound | FileError rstr

record 'w ConfigFs =
  cf_current_dir :: "'w \<Rightarrow> rstr + path"
  cf_read :: "'w \<Rightarrow> path \<Rightarrow> FileRead"
  cf_exists :: "'w \<Rightarrow> path \<Rightarrow> bool"
  cf_canonicalize :: "'w \<Rightarrow> path \<Rightarrow> rstr + path"
  cf_create_dir_all :: "path \<Rightarrow> 'w \<Rightarrow> (rstr + unit) \<times> 'w"
  cf_write :: "path \<Rightarrow> rstr \<Rightarrow> 'w \<Rightarrow> (rstr + unit) \<times> 'w"

text \<open>\<open>Path::display\<close> of a path without redundant separators.\<close>

fun component_text :: "Component \<Rightarrow> rstr" where
  "component_text RootDir = []"
| "component_text CurDir = lit ''.''"
| "component_text ParentDir = lit ''..''"
| "component_text (Normal n) = n"

definition path_display :: "path \<Rightarrow> rstr" where
  "path_display p = (if p = [RootDir] then [47] else join [47] (map component_text p))"

section \<open>Reading and merging\<close>

definition is_legacy_config :: "path \<Rightarrow> bool" where
  "is_legacy_config p \<longleftrightarrow> path_file_name p = Some (lit ''.openyak.json'')"

definition read_optional_json_object :: "'w ConfigFs \<Rightarrow> 'w \<Rightarrow> path \<Rightarrow> ConfigError + json_object option" where
  "read_optional_json_object fs w p =
     (case cf_read fs w p of
        FileNotFound \<Rightarrow> Inr None
      | FileError e \<Rightarrow> Inl (ConfigIo e)
      | FileContents contents \<Rightarrow>
          if trim contents = [] then Inr (Some [])
          else
            (case parse contents of
               Inl e \<Rightarrow>
                 if is_legacy_config p then Inr None
                 else Inl (ConfigParse (path_display p @ lit '': '' @ (case e of JsonError m \<Rightarrow> m)))
             | Inr v \<Rightarrow>
                 (case as_object v of
                    Some ob \<Rightarrow> Inr (Some ob)
                  | None \<Rightarrow>
                      if is_legacy_config p then Inr None
                      else Inl (ConfigParse (path_display p
                             @ lit '': top-level settings value must be a JSON object'')))))"

function deep_merge_objects :: "json_object \<Rightarrow> json_object \<Rightarrow> json_object" where
  "deep_merge_objects target [] = target"
| "deep_merge_objects target ((key, value) # source) =
     deep_merge_objects
       (bt_insert key
          (case bt_get target key of
             Some (Object existing) \<Rightarrow>
               (case value of
                  Object incoming \<Rightarrow> Object (deep_merge_objects existing incoming)
                | _ \<Rightarrow> value)
           | _ \<Rightarrow> value)
          target)
       source"
  by pat_completeness auto

termination deep_merge_objects
  by (relation "measure (\<lambda>(t, s). size_list (size_prod (\<lambda>_. 0) size) s)") auto

definition merge_mcp_servers ::
  "(rstr \<times> ScopedMcpServerConfig) list \<Rightarrow> ConfigSource \<Rightarrow> json_object \<Rightarrow> path
     \<Rightarrow> ConfigError + (rstr \<times> ScopedMcpServerConfig) list" where
  "merge_mcp_servers target source root p =
     (case bt_get root (lit ''mcpServers'') of
        None \<Rightarrow> Inr target
      | Some v \<Rightarrow>
          res_bind (expect_object v (path_display p @ lit '': mcpServers'')) (\<lambda>servers.
          res_bind (collect (\<lambda>(n, sv). map_sum id (Pair n)
              (parse_mcp_server_config n sv (path_display p @ lit '': mcpServers.'' @ n))) servers) (\<lambda>parsed.
          Inr (fold (\<lambda>(n, c). bt_insert n \<lparr>scope = source, server = c\<rparr>) parsed target))))"

definition merge_bool_map ::
  "(rstr \<times> bool) list \<Rightarrow> JsonValue \<Rightarrow> rstr \<Rightarrow> ConfigError + (rstr \<times> bool) list" where
  "merge_bool_map target value ctx =
     res_bind (parse_bool_map value ctx) (\<lambda>m. Inr (fold (\<lambda>(k, b). bt_insert k b) m target))"

section \<open>Paths\<close>

text \<open>Walking up to the deepest path that exists, collecting the names that are missing.\<close>

function find_existing :: "(path \<Rightarrow> bool) \<Rightarrow> path \<Rightarrow> rstr list \<Rightarrow> (path \<times> rstr list) option" where
  "find_existing ex cursor missing =
     (if ex cursor then Some (cursor, missing)
      else
        (case (path_file_name cursor, path_parent cursor) of
           (Some n, Some parent) \<Rightarrow> find_existing ex parent (missing @ [n])
         | _ \<Rightarrow> None))"
  by pat_completeness auto

termination find_existing
  by (relation "measure (\<lambda>(ex, cursor, missing). length cursor)")
    (auto simp: path_parent_def split: if_splits)

declare find_existing.simps [simp del]

definition canonicalize_allow_missing :: "'w ConfigFs \<Rightarrow> 'w \<Rightarrow> path \<Rightarrow> rstr \<Rightarrow> ConfigError + path" where
  "canonicalize_allow_missing fs w p ctx =
     res_bind (if is_absolute p then Inr p
               else map_sum (\<lambda>e. ConfigParse (ctx @ lit '': '' @ e)) (\<lambda>cwd. path_join cwd p)
                      (cf_current_dir fs w)) (\<lambda>absolute.
     res_bind (ok_or (ConfigParse (ctx @ lit '': failed to resolve path '' @ path_display absolute))
                 (find_existing (cf_exists fs w) absolute [])) (\<lambda>(cursor, missing).
     res_bind (map_sum (\<lambda>e. ConfigParse (ctx @ lit '': '' @ e)) id (cf_canonicalize fs w cursor)) (\<lambda>resolved.
     Inr (foldl (\<lambda>q n. path_join q [Normal n]) resolved (rev missing)))))"

definition resolve_plugin_storage_path ::
  "'w ConfigFs \<Rightarrow> 'w \<Rightarrow> rstr \<Rightarrow> path \<Rightarrow> rstr \<Rightarrow> ConfigError + path" where
  "resolve_plugin_storage_path fs w value config_home ctx =
     res_bind (canonicalize_allow_missing fs w config_home ctx) (\<lambda>config_root.
     res_bind (canonicalize_allow_missing fs w
         (if is_absolute (path_components value) then path_components value
          else path_join config_home (path_components value)) ctx) (\<lambda>resolved.
     if path_starts_with resolved config_root then Inr resolved
     else Inl (ConfigParse (ctx @ lit '': plugin storage paths must stay inside ''
            @ path_display config_root))))"

definition resolve_plugin_discovery_path ::
  "'w ConfigFs \<Rightarrow> 'w \<Rightarrow> rstr \<Rightarrow> ConfigSource \<Rightarrow> path \<Rightarrow> path \<Rightarrow> rstr \<Rightarrow> ConfigError + path" where
  "resolve_plugin_discovery_path fs w value source cwd config_home ctx =
     res_bind (canonicalize_allow_missing fs w cwd ctx) (\<lambda>workspace_root.
     let p = path_components value;
         raw = (case source of
                  UserConfig \<Rightarrow>
                    if is_absolute p then p
                    else if starts_with (lit ''.'') value then path_join cwd p
                    else path_join config_home p
                | _ \<Rightarrow> if is_absolute p then p else path_join cwd p) in
     res_bind (canonicalize_allow_missing fs w raw ctx) (\<lambda>resolved.
     if source \<in> {ProjectConfig, LocalConfig} \<and> \<not> path_starts_with resolved workspace_root then
       Inl (ConfigParse (ctx @ lit '': repo-scoped plugin discovery paths must stay inside ''
              @ path_display workspace_root))
     else Inr resolved))"

text \<open>\<open>PathBuf::push\<close> and \<open>pop\<close> of single components.\<close>

definition virtual_step :: "path \<Rightarrow> Component \<Rightarrow> path" where
  "virtual_step p c =
     (case c of
        CurDir \<Rightarrow> p
      | ParentDir \<Rightarrow> (case path_parent p of None \<Rightarrow> p | Some q \<Rightarrow> q)
      | _ \<Rightarrow> path_join p [c])"

definition normalize_virtual_path :: "path \<Rightarrow> path" where
  "normalize_virtual_path p = foldl virtual_step [] p"

function deepest_existing_ancestor :: "(path \<Rightarrow> bool) \<Rightarrow> path \<Rightarrow> path option" where
  "deepest_existing_ancestor ex p =
     (if ex p then Some p
      else case path_parent p of None \<Rightarrow> None | Some q \<Rightarrow> deepest_existing_ancestor ex q)"
  by pat_completeness auto

termination deepest_existing_ancestor
  by (relation "measure (\<lambda>(ex, p). length p)") (auto simp: path_parent_def split: if_splits)

declare deepest_existing_ancestor.simps [simp del]

definition resolve_workspace_bound_path ::
  "'w ConfigFs \<Rightarrow> 'w \<Rightarrow> path \<Rightarrow> rstr \<Rightarrow> rstr \<Rightarrow> ConfigError + path" where
  "resolve_workspace_bound_path fs w workspace_root value ctx =
     (if trim value = [] then Inl (ConfigParse (ctx @ lit '': path must not be empty''))
      else
        let p = path_components value;
            joined = (if is_absolute p then p else path_join workspace_root p);
            normalized_workspace = normalize_virtual_path workspace_root;
            normalized_path = normalize_virtual_path joined;
            outside = ConfigParse (ctx @ lit '': resolved path must stay inside the workspace root ''
                        @ path_display workspace_root) in
        if \<not> path_starts_with normalized_path normalized_workspace then Inl outside
        else
          res_bind (map_sum (\<lambda>e. ConfigParse (ctx @ lit '': failed to canonicalize workspace root ''
                        @ path_display workspace_root @ lit '': '' @ e)) id
                      (cf_canonicalize fs w workspace_root)) (\<lambda>canonical_workspace.
          res_bind (ok_or (ConfigParse (ctx
                        @ lit '': could not resolve an existing ancestor under workspace root ''
                        @ path_display workspace_root))
                      (deepest_existing_ancestor (cf_exists fs w) normalized_path)) (\<lambda>existing.
          res_bind (map_sum (\<lambda>e. ConfigParse (ctx @ lit '': failed to canonicalize existing ancestor ''
                        @ path_display existing @ lit '': '' @ e)) id
                      (cf_canonicalize fs w existing)) (\<lambda>canonical_ancestor.
          if \<not> path_starts_with canonical_ancestor canonical_workspace then Inl outside
          else Inr normalized_path))))"

definition DEFAULT_BROWSER_ARTIFACTS_DIR :: rstr where
  "DEFAULT_BROWSER_ARTIFACTS_DIR = lit ''.openyak/artifacts/browser''"

definition default_browser_control_config ::
  "'w ConfigFs \<Rightarrow> 'w \<Rightarrow> path \<Rightarrow> ConfigError + RuntimeBrowserControlConfig" where
  "default_browser_control_config fs w workspace_root =
     res_bind (resolve_workspace_bound_path fs w workspace_root DEFAULT_BROWSER_ARTIFACTS_DIR
         (lit ''merged settings.browserControl.artifactsDir''))
       (\<lambda>d. Inr \<lparr>browser_enabled = False, artifacts_dir = d\<rparr>)"

definition parse_optional_browser_control ::
  "'w ConfigFs \<Rightarrow> 'w \<Rightarrow> JsonValue \<Rightarrow> path \<Rightarrow> ConfigError + RuntimeBrowserControlConfig" where
  "parse_optional_browser_control fs w root workspace_root =
     res_bind (default_browser_control_config fs w workspace_root) (\<lambda>default_config.
     case settings_section root ''browserControl'' of
       None \<Rightarrow> Inr default_config
     | Some v \<Rightarrow>
         let ctx = lit ''merged settings.browserControl'' in
         res_bind (expect_object v ctx) (\<lambda>browser.
         res_bind (optional_bool browser (lit ''enabled'') ctx) (\<lambda>en.
         res_bind (config_optional_string browser (lit ''artifactsDir'') ctx) (\<lambda>dir.
         res_bind (case dir of
                     None \<Rightarrow> Inr (artifacts_dir default_config)
                   | Some value \<Rightarrow>
                       resolve_workspace_bound_path fs w workspace_root value
                         (lit ''merged settings.browserControl.artifactsDir'')) (\<lambda>d.
         Inr \<lparr>browser_enabled = unwrap_or False en, artifacts_dir = d\<rparr>)))))"

section \<open>Plugin settings of one file\<close>

fun source_name :: "ConfigSource \<Rightarrow> rstr" where
  "source_name UserConfig = lit ''user''"
| "source_name ProjectConfig = lit ''project''"
| "source_name LocalConfig = lit ''local''"

text \<open>A step that is taken only when a member is there.\<close>

fun when_some :: "'a option \<Rightarrow> ('a \<Rightarrow> 's \<Rightarrow> 'e + 's) \<Rightarrow> 's \<Rightarrow> 'e + 's" where
  "when_some None f s = Inr s"
| "when_some (Some x) f s = f x s"

definition merge_enabled :: "rstr \<Rightarrow> JsonValue \<Rightarrow> RuntimePluginConfig \<Rightarrow> ConfigError + RuntimePluginConfig" where
  "merge_enabled ctx v config =
     res_bind (merge_bool_map (enabled_plugins config) v ctx) (\<lambda>m. Inr (config\<lparr>enabled_plugins := m\<rparr>))"

definition merge_plugins_object ::
  "'w ConfigFs \<Rightarrow> 'w \<Rightarrow> json_object \<Rightarrow> ConfigSource \<Rightarrow> path \<Rightarrow> path \<Rightarrow> rstr
     \<Rightarrow> RuntimePluginConfig \<Rightarrow> ConfigError + RuntimePluginConfig" where
  "merge_plugins_object fs w plugins source cwd config_home ctx c0 =
     res_bind (when_some (bt_get plugins (lit ''enabled'')) (merge_enabled (ctx @ lit ''.plugins.enabled'')) c0) (\<lambda>c1.
     res_bind (optional_string_array plugins (lit ''externalDirectories'') (ctx @ lit ''.plugins'')) (\<lambda>dirs.
     res_bind (when_some dirs (\<lambda>ds c.
         res_bind (collect (\<lambda>d. resolve_plugin_discovery_path fs w d source cwd config_home
             (ctx @ lit ''.plugins.externalDirectories'')) ds) (\<lambda>ps.
         Inr (c\<lparr>external_directories := ps\<rparr>))) c1) (\<lambda>c2.
     res_bind (config_optional_string plugins (lit ''installRoot'') (ctx @ lit ''.plugins'')) (\<lambda>iroot.
     res_bind (when_some iroot (\<lambda>d c.
         res_bind (resolve_plugin_storage_path fs w d config_home (ctx @ lit ''.plugins.installRoot''))
           (\<lambda>q. Inr (c\<lparr>install_root := Some q\<rparr>))) c2) (\<lambda>c3.
     res_bind (config_optional_string plugins (lit ''registryPath'') (ctx @ lit ''.plugins'')) (\<lambda>rpath.
     res_bind (when_some rpath (\<lambda>d c.
         res_bind (resolve_plugin_storage_path fs w d config_home (ctx @ lit ''.plugins.registryPath''))
           (\<lambda>q. Inr (c\<lparr>plugin_registry_path := Some q\<rparr>))) c3) (\<lambda>c4.
     res_bind (config_optional_string plugins (lit ''bundledRoot'') (ctx @ lit ''.plugins'')) (\<lambda>broot.
     when_some broot (\<lambda>d c.
         res_bind (resolve_plugin_discovery_path fs w d source cwd config_home
             (ctx @ lit ''.plugins.bundledRoot''))
           (\<lambda>q. Inr (c\<lparr>bundled_root := Some q\<rparr>))) c4))))))))"

definition merge_plugin_config_from_entry ::
  "'w ConfigFs \<Rightarrow> 'w \<Rightarrow> RuntimePluginConfig \<Rightarrow> JsonValue \<Rightarrow> ConfigSource \<Rightarrow> path \<Rightarrow> path \<Rightarrow> path
     \<Rightarrow> ConfigError + RuntimePluginConfig" where
  "merge_plugin_config_from_entry fs w config root source cwd config_home p =
     (case as_object root of
        None \<Rightarrow> Inr config
      | Some ob \<Rightarrow>
          let ctx = source_name source @ lit '' config '' @ path_display p in
          res_bind (when_some (bt_get ob (lit ''enabledPlugins'')) (merge_enabled (ctx @ lit ''.enabledPlugins'')) config) (\<lambda>c0.
          case bt_get ob (lit ''plugins'') of
            None \<Rightarrow> Inr c0
          | Some v \<Rightarrow>
              res_bind (expect_object v (ctx @ lit ''.plugins'')) (\<lambda>plugins.
              merge_plugins_object fs w plugins source cwd config_home ctx c0)))"

section \<open>The loader\<close>

record ConfigLoader =
  loader_cwd :: path
  loader_home :: path

record RuntimeFeatureConfig =
  fc_hooks :: RuntimeHookConfig
  fc_plugins :: RuntimePluginConfig
  fc_skills :: RuntimeSkillConfig
  fc_mcp :: "(rstr \<times> ScopedMcpServerConfig) list"
  fc_tool_profiles :: "(rstr \<times> ToolProfileConfig) list"
  fc_browser_control :: RuntimeBrowserControlConfig
  fc_oauth :: "OAuthConfig option"
  fc_oauth_override :: "OAuthConfigOverride option"
  fc_model :: "rstr option"
  fc_permission_mode :: "ResolvedPermissionMode option"
  fc_sandbox :: SandboxConfig

record RuntimeConfig =
  merged_settings :: json_object
  loaded_entries :: "ConfigEntry list"
  feature_config :: RuntimeFeatureConfig

definition user_settings_path :: "ConfigLoader \<Rightarrow> path" where
  "user_settings_path l = path_join (loader_home l) [Normal (lit ''settings.json'')]"

definition discover :: "ConfigLoader \<Rightarrow> ConfigEntry list" where
  "discover l =
     (let legacy = Normal (lit ''.openyak.json''); dot = Normal (lit ''.openyak'') in
      [\<lparr>entry_source = UserConfig,
        entry_path = (case path_parent (loader_home l) of
                        None \<Rightarrow> [legacy] | Some parent \<Rightarrow> path_join parent [legacy])\<rparr>,
       \<lparr>entry_source = UserConfig, entry_path = path_join (loader_home l) [Normal (lit ''settings.json'')]\<rparr>,
       \<lparr>entry_source = ProjectConfig, entry_path = path_join (loader_cwd l) [legacy]\<rparr>,
       \<lparr>entry_source = ProjectConfig,
        entry_path = path_join (path_join (loader_cwd l) [dot]) [Normal (lit ''settings.json'')]\<rparr>,
       \<lparr>entry_source = LocalConfig,
        entry_path = path_join (path_join (loader_cwd l) [dot]) [Normal (lit ''settings.local.json'')]\<rparr>])"

text \<open>The state of the loop of \<open>load\<close>.\<close>

record LoadState =
  ls_merged :: json_object
  ls_entries :: "ConfigEntry list"
  ls_mcp :: "(rstr \<times> ScopedMcpServerConfig) list"
  ls_plugins :: RuntimePluginConfig

definition LoadState_new :: LoadState where
  "LoadState_new = \<lparr>ls_merged = [], ls_entries = [], ls_mcp = [], ls_plugins = RuntimePluginConfig_default\<rparr>"

definition load_entry ::
  "'w ConfigFs \<Rightarrow> 'w \<Rightarrow> ConfigLoader \<Rightarrow> ConfigEntry \<Rightarrow> LoadState \<Rightarrow> ConfigError + LoadState" where
  "load_entry fs w l entry st =
     res_bind (read_optional_json_object fs w (entry_path entry)) (\<lambda>found.
     case found of
       None \<Rightarrow> Inr st
     | Some value \<Rightarrow>
         res_bind (merge_mcp_servers (ls_mcp st) (entry_source entry) value (entry_path entry)) (\<lambda>mcp.
         res_bind (merge_plugin_config_from_entry fs w (ls_plugins st) (Object value) (entry_source entry)
             (loader_cwd l) (loader_home l) (entry_path entry)) (\<lambda>plugins.
         Inr \<lparr>ls_merged = deep_merge_objects (ls_merged st) value, ls_entries = ls_entries st @ [entry],
              ls_mcp = mcp, ls_plugins = plugins\<rparr>)))"

fun load_entries ::
  "'w ConfigFs \<Rightarrow> 'w \<Rightarrow> ConfigLoader \<Rightarrow> ConfigEntry list \<Rightarrow> LoadState \<Rightarrow> ConfigError + LoadState" where
  "load_entries fs w l [] st = Inr st"
| "load_entries fs w l (e # es) st = res_bind (load_entry fs w l e st) (load_entries fs w l es)"

definition feature_config_of ::
  "'w ConfigFs \<Rightarrow> 'w \<Rightarrow> ConfigLoader \<Rightarrow> LoadState \<Rightarrow> ConfigError + RuntimeFeatureConfig" where
  "feature_config_of fs w l st =
     (let root = Object (ls_merged st) in
      res_bind (parse_optional_oauth_override_config root (lit ''merged settings.oauth'')) (\<lambda>oauth_override.
      res_bind (parse_optional_hooks_config root) (\<lambda>hooks.
      res_bind (parse_optional_skill_config root) (\<lambda>skills.
      res_bind (parse_optional_tool_profiles root) (\<lambda>profiles.
      res_bind (parse_optional_browser_control fs w root (loader_cwd l)) (\<lambda>browser.
      res_bind (parse_optional_permission_mode root) (\<lambda>mode.
      res_bind (parse_optional_sandbox_config root) (\<lambda>sb.
      Inr \<lparr>fc_hooks = hooks, fc_plugins = ls_plugins st, fc_skills = skills, fc_mcp = ls_mcp st,
           fc_tool_profiles = profiles, fc_browser_control = browser,
           fc_oauth = Option.bind oauth_override override_resolved, fc_oauth_override = oauth_override,
           fc_model = parse_optional_model root, fc_permission_mode = mode, fc_sandbox = sb\<rparr>))))))))"

definition load :: "'w ConfigFs \<Rightarrow> 'w \<Rightarrow> ConfigLoader \<Rightarrow> ConfigError + RuntimeConfig" where
  "load fs w l =
     res_bind (load_entries fs w l (discover l) LoadState_new) (\<lambda>st.
     res_bind (feature_config_of fs w l st) (\<lambda>fc.
     Inr \<lparr>merged_settings = ls_merged st, loaded_entries = ls_entries st, feature_config = fc\<rparr>))"

definition config_get :: "RuntimeConfig \<Rightarrow> rstr \<Rightarrow> JsonValue option" where
  "config_get c key = bt_get (merged_settings c) key"

definition mcp_get :: "RuntimeConfig \<Rightarrow> rstr \<Rightarrow> ScopedMcpServerConfig option" where
  "mcp_get c name = bt_get (fc_mcp (feature_config c)) name"

section \<open>Writing the user's model\<close>

text \<open>\<open>serde_json\<close>: parsing a text, the members of an object, a string value, and pretty printing.\<close>

record 'j Serde =
  sj_from_str :: "rstr \<Rightarrow> rstr + 'j"
  sj_object :: "'j \<Rightarrow> (rstr \<times> 'j) list option"
  sj_string :: "rstr \<Rightarrow> 'j"
  sj_pretty :: "(rstr \<times> 'j) list \<Rightarrow> rstr + rstr"

definition read_optional_serde_json_object ::
  "'j Serde \<Rightarrow> 'w ConfigFs \<Rightarrow> 'w \<Rightarrow> path \<Rightarrow> ConfigError + (rstr \<times> 'j) list option" where
  "read_optional_serde_json_object sj fs w p =
     (case cf_read fs w p of
        FileNotFound \<Rightarrow> Inr None
      | FileError e \<Rightarrow> Inl (ConfigIo e)
      | FileContents contents \<Rightarrow>
          if trim contents = [] then Inr (Some [])
          else
            res_bind (map_sum (\<lambda>e. ConfigParse (path_display p @ lit '': '' @ e)) id (sj_from_str sj contents)) (\<lambda>v.
            res_bind (ok_or (ConfigParse (path_display p
                         @ lit '': top-level settings value must be a JSON object'')) (sj_object sj v)) (\<lambda>ob.
            Inr (Some ob))))"

definition write_user_model ::
  "'j Serde \<Rightarrow> 'w ConfigFs \<Rightarrow> ConfigLoader \<Rightarrow> rstr \<Rightarrow> 'w \<Rightarrow> (ConfigError + path) \<times> 'w" where
  "write_user_model sj fs l model w =
     (let p = user_settings_path l in
      case read_optional_serde_json_object sj fs w p of
        Inl e \<Rightarrow> (Inl e, w)
      | Inr found \<Rightarrow>
          let root = bt_insert (lit ''model'') (sj_string sj model) (unwrap_or [] found) in
          (case cf_create_dir_all fs (loader_home l) w of
             (Inl e, w1) \<Rightarrow> (Inl (ConfigIo e), w1)
           | (Inr _, w1) \<Rightarrow>
               (case sj_pretty sj root of
                  Inl e \<Rightarrow> (Inl (ConfigParse (path_display p @ lit '': '' @ e)), w1)
                | Inr rendered \<Rightarrow>
                    (case cf_write fs p (rendered @ [10]) w1 of
                       (Inl e, w2) \<Rightarrow> (Inl (ConfigIo e), w2)
                     | (Inr _, w2) \<Rightarrow> (Inr p, w2)))))"

end
