(* ===== verification/Config_Props.thy ===== *)
theory Config_Props
  imports Config
begin

text \<open>
  What the configuration loader promises: which file decides a setting, where MCP servers come from,
  where the paths of a loaded configuration can lie, and that a malformed legacy file does no harm.
\<close>

section \<open>The deep merge\<close>

text \<open>A value speaks about a path of keys: it has the path, or something that is no object before its
  end. The setting at a path is the value there unless that is an object.\<close>

fun overrides :: "rstr list \<Rightarrow> JsonValue \<Rightarrow> bool" where
  "overrides [] v = True"
| "overrides (k # ks) (Object m) = (case bt_get m k of None \<Rightarrow> False | Some v \<Rightarrow> overrides ks v)"
| "overrides (k # ks) v = True"

fun setting :: "rstr list \<Rightarrow> JsonValue \<Rightarrow> JsonValue option" where
  "setting [] (Object m) = None"
| "setting [] v = Some v"
| "setting (k # ks) (Object m) = Option.bind (bt_get m k) (setting ks)"
| "setting (k # ks) v = None"

lemma bt_get_deep_merge_other:
  "k \<notin> fst ` set s \<Longrightarrow> bt_get (deep_merge_objects t s) k = bt_get t k"
proof (induction s arbitrary: t)
  case Nil
  then show ?case by simp
next
  case (Cons kv s)
  then show ?case by (cases kv) (simp add: bt_get_insert)
qed

definition merge_value :: "JsonValue option \<Rightarrow> JsonValue \<Rightarrow> JsonValue" where
  "merge_value old new =
     (case (old, new) of
        (Some (Object existing), Object incoming) \<Rightarrow> Object (deep_merge_objects existing incoming)
      | _ \<Rightarrow> new)"

lemma deep_merge_Cons:
  "deep_merge_objects t ((k, v) # s) = deep_merge_objects (bt_insert k (merge_value (bt_get t k) v) t) s"
  by (auto simp: merge_value_def split: option.split JsonValue.split)

lemma bt_get_deep_merge:
  assumes "distinct (map fst s)"
  shows "bt_get (deep_merge_objects t s) k =
     (case bt_get s k of None \<Rightarrow> bt_get t k | Some v \<Rightarrow> Some (merge_value (bt_get t k) v))"
  using assms
proof (induction s arbitrary: t)
  case Nil
  then show ?case by simp
next
  case (Cons kv s)
  obtain k' v where kv: "kv = (k', v)" by (cases kv)
  let ?t = "bt_insert k' (merge_value (bt_get t k') v) t"
  show ?case
  proof (cases "k = k'")
    case True
    then have "k' \<notin> fst ` set s" using Cons.prems kv by auto
    then show ?thesis
      using True kv bt_get_deep_merge_other[of k' s ?t] by (simp add: deep_merge_Cons bt_get_insert del: deep_merge_objects.simps)
  next
    case False
    have "bt_get (deep_merge_objects ?t s) k =
       (case bt_get s k of None \<Rightarrow> bt_get ?t k | Some v \<Rightarrow> Some (merge_value (bt_get ?t k) v))"
      using Cons.IH[of ?t] Cons.prems by simp
    then show ?thesis using False
      by (simp add: kv deep_merge_Cons bt_get_insert del: deep_merge_objects.simps split: option.split)
  qed
qed

lemma setting_merge:
  assumes "json_ok (Object b)"
  shows "setting p (Object (deep_merge_objects a b)) =
    (if overrides p (Object b) then setting p (Object b) else setting p (Object a))"
  using assms
proof (induction p arbitrary: a b)
  case Nil
  then show ?case by simp
next
  case (Cons k ks)
  have d: "distinct (map fst b)" using Cons.prems by (simp add: bt_ok_distinct)
  show ?case
  proof (cases "bt_get b k")
    case None
    then show ?thesis by (simp add: bt_get_deep_merge[OF d])
  next
    case (Some v)
    have ok: "json_ok v"
      using Cons.prems Some by (auto simp: list_all_iff dest: map_of_SomeD)
    show ?thesis
    proof (cases "\<exists>x y. bt_get a k = Some (Object x) \<and> v = Object y")
      case True
      then obtain x y where xy: "bt_get a k = Some (Object x)" "v = Object y" by blast
      show ?thesis
        using Cons.IH[of y x] ok by (simp add: bt_get_deep_merge[OF d] Some xy merge_value_def)
    next
      case False
      then have m: "merge_value (bt_get a k) v = v"
        by (auto simp: merge_value_def split: option.splits JsonValue.splits)
      have "setting ks v = (case bt_get a k of None \<Rightarrow> None | Some x \<Rightarrow> setting ks x)"
        if F: "\<not> overrides ks v"
      proof -
        obtain j js where ks: "ks = j # js" using F by (cases ks) auto
        obtain y where y: "v = Object y" using F unfolding ks by (cases v) auto
        have "setting ks u = None" if "\<nexists>x. u = Object x" for u
          using that unfolding ks by (cases u) auto
        moreover have "setting ks v = None"
          using F by (induction ks v rule: overrides.induct) (auto split: option.splits)
        ultimately show ?thesis using False y by (cases "bt_get a k") auto
      qed
      then show ?thesis
        by (cases "bt_get a k") (use m in \<open>auto simp: bt_get_deep_merge[OF d] Some\<close>)
    qed
  qed
qed

definition found_objects :: "'w ConfigFs \<Rightarrow> 'w \<Rightarrow> ConfigEntry list \<Rightarrow> (ConfigEntry \<times> json_object) list" where
  "found_objects fs w es =
     List.map_filter (\<lambda>e. case read_optional_json_object fs w (entry_path e) of
         Inr (Some ob) \<Rightarrow> Some (e, ob) | _ \<Rightarrow> None) es"

lemma found_objects_simps [simp]:
  "found_objects fs w [] = []"
  "found_objects fs w (e # es) =
     (case read_optional_json_object fs w (entry_path e) of
        Inr (Some ob) \<Rightarrow> (e, ob) # found_objects fs w es | _ \<Rightarrow> found_objects fs w es)"
  by (auto simp: found_objects_def split: sum.split option.split)

lemma read_object_ok:
  "read_optional_json_object fs w p = Inr (Some ob) \<Longrightarrow> json_ok (Object ob)"
proof -
  assume r: "read_optional_json_object fs w p = Inr (Some ob)"
  have "json_ok v" if "parse s = Inr v" for s v
    using that by (auto simp: parse_def result_simps split: if_splits dest: parser_json_ok(1))
  moreover have "v = Object ob" if "as_object v = Some ob" for v using that by (cases v) auto
  ultimately show ?thesis using r
    by (fastforce simp: read_optional_json_object_def split: FileRead.splits if_splits sum.splits option.splits)
qed

lemma found_objects_ok: "(e, ob) \<in> set (found_objects fs w es) \<Longrightarrow> json_ok (Object ob)"
  by (induction es) (auto split: sum.splits option.splits dest: read_object_ok simp del: json_ok.simps)

lemma load_entry_cases:
  assumes "load_entry fs w l e st = Inr st'"
  obtains (absent) "read_optional_json_object fs w (entry_path e) = Inr None" "st' = st"
  | (found) ob mcp plugins where "read_optional_json_object fs w (entry_path e) = Inr (Some ob)"
      "merge_mcp_servers (ls_mcp st) (entry_source e) ob (entry_path e) = Inr mcp"
      "merge_plugin_config_from_entry fs w (ls_plugins st) (Object ob) (entry_source e)
         (loader_cwd l) (loader_home l) (entry_path e) = Inr plugins"
      "st' = \<lparr>ls_merged = deep_merge_objects (ls_merged st) ob, ls_entries = ls_entries st @ [e],
              ls_mcp = mcp, ls_plugins = plugins\<rparr>"
proof -
  from assms obtain f where f: "read_optional_json_object fs w (entry_path e) = Inr f"
    "load_entry fs w l e st = Inr st'"
    by (auto simp: load_entry_def result_simps)
  show thesis
  proof (cases f)
    case None
    then show thesis using f absent by (simp add: load_entry_def)
  next
    case (Some ob)
    then show thesis using f found[of ob] by (auto simp: load_entry_def result_simps)
  qed
qed

lemma load_entries_Cons:
  assumes "load_entries fs w l (e # es) st = Inr st'"
  obtains st1 where "load_entry fs w l e st = Inr st1" "load_entries fs w l es st1 = Inr st'"
  using assms by (auto simp: result_simps)

lemma load_entries_found:
  assumes "load_entries fs w l es st = Inr st'"
  shows "ls_merged st' = foldl (\<lambda>m (e, ob). deep_merge_objects m ob) (ls_merged st) (found_objects fs w es)
    \<and> ls_entries st' = ls_entries st @ map fst (found_objects fs w es)"
  using assms
proof (induction es arbitrary: st)
  case (Cons e es)
  from Cons.prems obtain st1 where s: "load_entry fs w l e st = Inr st1" "load_entries fs w l es st1 = Inr st'"
    by (rule load_entries_Cons)
  from s(1) show ?case by (cases rule: load_entry_cases) (use Cons.IH[OF s(2)] in simp_all)
qed simp

lemma setting_foldl:
  assumes "\<forall>(e, ob) \<in> set found. json_ok (Object ob)"
  shows "setting p (Object (foldl (\<lambda>m (e, ob). deep_merge_objects m ob) m found)) =
    (case find (\<lambda>(e, ob). overrides p (Object ob)) (rev found) of
       None \<Rightarrow> setting p (Object m) | Some (e, ob) \<Rightarrow> setting p (Object ob))"
  using assms
proof (induction found rule: rev_induct)
  case (snoc x xs)
  obtain e ob where x: "x = (e, ob)" by (cases x)
  have ok: "json_ok (Object ob)" using snoc.prems x by auto
  show ?case using snoc.IH snoc.prems
    by (simp add: x setting_merge[OF ok] del: json_ok.simps)
qed simp

lemma find_append:
  "find P (xs @ ys) = (case find P xs of None \<Rightarrow> find P ys | Some x \<Rightarrow> Some x)"
  by (induction xs) auto

definition setting_source :: "'w ConfigFs \<Rightarrow> 'w \<Rightarrow> ConfigLoader \<Rightarrow> rstr list \<Rightarrow> (ConfigEntry \<times> json_object) option" where
  "setting_source fs w l p =
     find (\<lambda>(e, ob). overrides p (Object ob)) (rev (found_objects fs w (discover l)))"

lemma load_cases:
  assumes "load fs w l = Inr c"
  obtains st where "load_entries fs w l (discover l) LoadState_new = Inr st"
    "feature_config_of fs w l st = Inr (feature_config c)"
    "merged_settings c = ls_merged st" "loaded_entries c = ls_entries st"
  using assms by (auto simp: load_def result_simps)

lemma feature_config_fields:
  assumes "feature_config_of fs w l st = Inr fc"
  shows "fc_model fc = parse_optional_model (Object (ls_merged st))"
    and "fc_mcp fc = ls_mcp st"
    and "fc_plugins fc = ls_plugins st"
    and "parse_optional_browser_control fs w (Object (ls_merged st)) (loader_cwd l) = Inr (fc_browser_control fc)"
    and "parse_optional_permission_mode (Object (ls_merged st)) = Inr (fc_permission_mode fc)"
  using assms by (auto simp: feature_config_of_def Let_def result_simps)

lemma parse_optional_model_setting:
  "parse_optional_model (Object m) = Option.bind (setting [lit ''model''] (Object m)) as_str"
proof (cases "bt_get m (lit ''model'')")
  case (Some v)
  then show ?thesis by (cases v) (simp_all add: parse_optional_model_def settings_section_def)
qed (simp add: parse_optional_model_def settings_section_def)

lemma discover_sorted: "sorted (map entry_source (discover l))"
  by (simp add: discover_def Let_def less_eq_ConfigSource_def)

lemma found_subseq: "map fst (found_objects fs w es) = filter (\<lambda>e. \<exists>ob.
    read_optional_json_object fs w (entry_path e) = Inr (Some ob)) es"
  by (induction es) (auto split: sum.splits option.splits)

text \<open>C24: a setting is decided by the last file that speaks about it: what the merged settings hold at a
  path of keys is what the last of the loaded files holds there that defines the path or puts
  something other than an object on the way to it, and nothing if no file does. The files are loaded
  user first, then project, then local; the model in force is the string at \<open>model\<close>.\<close>

theorem settings_last_file:
  assumes "load fs w l = Inr c"
  shows "setting p (Object (merged_settings c)) =
      (case setting_source fs w l p of
         None \<Rightarrow> None | Some (e, ob) \<Rightarrow> setting p (Object ob))
    \<and> fc_model (feature_config c) = Option.bind (setting [lit ''model''] (Object (merged_settings c))) as_str
    \<and> loaded_entries c = map fst (found_objects fs w (discover l))
    \<and> sorted (map entry_source (loaded_entries c))"
proof -
  from assms obtain st where st: "load_entries fs w l (discover l) LoadState_new = Inr st"
    "feature_config_of fs w l st = Inr (feature_config c)"
    "merged_settings c = ls_merged st" "loaded_entries c = ls_entries st" by (rule load_cases)
  note f = load_entries_found[OF st(1), simplified LoadState_new_def, simplified]
  have "setting p (Object []) = None" by (cases p) simp_all
  moreover have "fc_model (feature_config c) = parse_optional_model (Object (ls_merged st))"
    by (rule feature_config_fields(1)[OF st(2)])
  moreover have "sorted (map entry_source (map fst (found_objects fs w (discover l))))"
    unfolding found_subseq by (rule sorted_filter[OF discover_sorted])
  moreover have "\<forall>(e, ob) \<in> set (found_objects fs w (discover l)). json_ok (Object ob)"
    by (auto intro: found_objects_ok simp del: json_ok.simps)
  ultimately show ?thesis
    using f st(3,4) setting_foldl[of "found_objects fs w (discover l)" p "[]"]
    by (simp add: setting_source_def parse_optional_model_setting split: option.split)
qed


section \<open>MCP servers\<close>

definition server_value :: "rstr \<Rightarrow> json_object \<Rightarrow> JsonValue option" where
  "server_value name ob =
     Option.bind (Option.bind (bt_get ob (lit ''mcpServers'')) as_object) (\<lambda>m. bt_get m name)"

lemma bt_get_fold_insert:
  "distinct (map fst kvs) \<Longrightarrow>
     bt_get (fold (\<lambda>(k, v). bt_insert k (f v)) kvs m) k =
       (case map_of kvs k of None \<Rightarrow> bt_get m k | Some v \<Rightarrow> Some (f v))"
proof (induction kvs arbitrary: m)
  case (Cons kv kvs)
  obtain k' v where kv: "kv = (k', v)" by (cases kv)
  show ?case
  proof (cases "k = k'")
    case True
    then have "map_of kvs k = None" using Cons.prems kv by (auto simp: map_of_eq_None_iff)
    then show ?thesis using Cons True by (simp add: kv bt_get_insert)
  next
    case False
    then show ?thesis using Cons by (simp add: kv bt_get_insert split: option.split)
  qed
qed simp

lemma collect_keyed:
  assumes "collect (\<lambda>(k, v). map_sum id (Pair k) (f k v)) m = Inr kvs"
  shows "map fst kvs = map fst m"
    and "map_of kvs k = None \<longleftrightarrow> map_of m k = None"
    and "map_of kvs k = Some y \<Longrightarrow> \<exists>v. map_of m k = Some v \<and> f k v = Inr y"
  using assms
proof (induction m arbitrary: kvs)
  case (Cons kv m)
  obtain k' v where kv: "kv = (k', v)" by (cases kv)
  {
    case 1 then show ?case using Cons.IH(1) by (cases "f k' v") (auto simp: kv result_simps)
  next
    case 2 then show ?case using Cons.IH(2) by (cases "f k' v") (auto simp: kv result_simps)
  next
    case 3 then show ?case using Cons.IH(3)
      by (cases "f k' v") (auto simp: kv result_simps split: if_splits)
  }
qed auto

lemma merge_mcp_servers_get:
  assumes "merge_mcp_servers target source root p = Inr mcp" "json_ok (Object root)"
  shows "case server_value name root of
      None \<Rightarrow> bt_get mcp name = bt_get target name
    | Some v \<Rightarrow> \<exists>config. parse_mcp_server_config name v (path_display p @ lit '': mcpServers.'' @ name) = Inr config
        \<and> bt_get mcp name = Some \<lparr>scope = source, server = config\<rparr>"
proof (cases "bt_get root (lit ''mcpServers'')")
  case None
  then show ?thesis using assms(1) by (simp add: merge_mcp_servers_def server_value_def)
next
  case (Some v)
  obtain servers parsed where s: "as_object v = Some servers"
    "collect (\<lambda>(n, sv). map_sum id (Pair n)
       (parse_mcp_server_config n sv (path_display p @ lit '': mcpServers.'' @ n))) servers = Inr parsed"
    "mcp = fold (\<lambda>(n, c). bt_insert n \<lparr>scope = source, server = c\<rparr>) parsed target"
    using assms(1) Some by (auto simp: merge_mcp_servers_def expect_object_def result_simps)
  have "json_ok v" using assms(2) Some by (auto simp: list_all_iff dest: map_of_SomeD)
  then have "distinct (map fst servers)" using s(1) by (cases v) (auto intro: bt_ok_distinct)
  then have d: "distinct (map fst parsed)" using collect_keyed(1)[OF s(2)] by simp
  have get: "bt_get mcp name = (case map_of parsed name of None \<Rightarrow> bt_get target name
      | Some c \<Rightarrow> Some \<lparr>scope = source, server = c\<rparr>)"
    unfolding s(3) by (rule bt_get_fold_insert[OF d])
  have sv: "server_value name root = bt_get servers name" using Some s(1) by (simp add: server_value_def)
  show ?thesis
  proof (cases "map_of parsed name")
    case None
    then show ?thesis using get sv collect_keyed(2)[OF s(2), of name] by simp
  next
    case S: (Some c)
    then show ?thesis using get sv collect_keyed(3)[OF s(2) S] by auto
  qed
qed

lemma load_entries_mcp:
  assumes "load_entries fs w l es st = Inr st'"
  shows "case find (\<lambda>(e, ob). server_value name ob \<noteq> None) (rev (found_objects fs w es)) of
      None \<Rightarrow> bt_get (ls_mcp st') name = bt_get (ls_mcp st) name
    | Some (e, ob) \<Rightarrow> \<exists>config.
        parse_mcp_server_config name (the (server_value name ob))
          (path_display (entry_path e) @ lit '': mcpServers.'' @ name) = Inr config
        \<and> bt_get (ls_mcp st') name = Some \<lparr>scope = entry_source e, server = config\<rparr>"
  using assms
proof (induction es arbitrary: st)
  case (Cons e es)
  from Cons.prems obtain st1 where s: "load_entry fs w l e st = Inr st1" "load_entries fs w l es st1 = Inr st'"
    by (rule load_entries_Cons)
  note IH = Cons.IH[OF s(2)]
  from s(1) show ?case
  proof (cases rule: load_entry_cases)
    case absent
    then show ?thesis using IH[unfolded absent(2)] by simp
  next
    case (found ob mcp plugins)
    note m = merge_mcp_servers_get[OF found(2) read_object_ok[OF found(1)], of name]
    have st1: "ls_mcp st1 = mcp" using found(4) by simp
    show ?thesis
    proof (cases "find (\<lambda>(e, ob). server_value name ob \<noteq> None) (rev (found_objects fs w es))")
      case None
      then show ?thesis using IH m found(1) st1
        by (cases "server_value name ob") (simp_all add: find_append)
    next
      case (Some x)
      then show ?thesis using IH found(1) by (simp add: find_append)
    qed
  qed
qed simp

section \<open>Paths\<close>

lemma foldl_path_join: "foldl (\<lambda>q n. q @ [Normal n]) r xs = r @ map Normal xs"
  by (induction xs arbitrary: r) simp_all

definition canonical_results :: "'w ConfigFs \<Rightarrow> 'w \<Rightarrow> bool" where
  "canonical_results fs w \<longleftrightarrow>
     (\<forall>p q. cf_canonicalize fs w p = Inr q \<longrightarrow> is_absolute q \<and> ParentDir \<notin> set q \<and> CurDir \<notin> set q)"

lemma canonicalize_allow_missing_plain:
  assumes "canonical_results fs w" "canonicalize_allow_missing fs w p ctx = Inr q"
  shows "ParentDir \<notin> set q"
  using assms
  by (auto simp: canonicalize_allow_missing_def result_simps foldl_path_join canonical_results_def
      split: if_splits)

lemma canonicalize_allow_missing_ctx:
  "canonicalize_allow_missing fs w p ctx = Inr q \<Longrightarrow> canonicalize_allow_missing fs w p ctx' = Inr q"
  by (auto simp: canonicalize_allow_missing_def result_simps split: if_splits)

definition confined :: "'w ConfigFs \<Rightarrow> 'w \<Rightarrow> path \<Rightarrow> path \<Rightarrow> bool" where
  "confined fs w base q \<longleftrightarrow> ParentDir \<notin> set q
     \<and> (\<exists>root. canonicalize_allow_missing fs w base [] = Inr root \<and> path_starts_with q root)"

lemma storage_path_confined:
  assumes "canonical_results fs w" "resolve_plugin_storage_path fs w v home ctx = Inr q"
  shows "confined fs w home q"
  using assms canonicalize_allow_missing_ctx[of fs w home ctx _ "[]"]
  by (auto simp: resolve_plugin_storage_path_def result_simps confined_def
      dest: canonicalize_allow_missing_plain split: if_splits)

lemma discovery_path_confined:
  assumes "canonical_results fs w" "source \<noteq> UserConfig"
    and "resolve_plugin_discovery_path fs w v source cwd home ctx = Inr q"
  shows "confined fs w cwd q"
proof -
  have "source \<in> {ProjectConfig, LocalConfig}" using assms(2) by (cases source) auto
  then show ?thesis
    using assms canonicalize_allow_missing_ctx[of fs w cwd ctx _ "[]"]
    by (auto simp: resolve_plugin_discovery_path_def result_simps confined_def Let_def
        dest: canonicalize_allow_missing_plain split: if_splits)
qed

lemma when_some_Inr_iff [result_simps]:
  "when_some x f s = Inr s' \<longleftrightarrow> (case x of None \<Rightarrow> s' = s | Some v \<Rightarrow> f v s = Inr s')"
  by (cases x) auto

lemma collect_set: "collect f xs = Inr ys \<Longrightarrow> y \<in> set ys \<Longrightarrow> \<exists>x \<in> set xs. f x = Inr y"
  by (induction xs arbitrary: ys) (auto simp: result_simps)

definition storage_kept :: "'w ConfigFs \<Rightarrow> 'w \<Rightarrow> path \<Rightarrow> RuntimePluginConfig \<Rightarrow> RuntimePluginConfig \<Rightarrow> bool" where
  "storage_kept fs w home c c' \<longleftrightarrow>
     (\<forall>q. install_root c' = Some q \<longrightarrow> install_root c = Some q \<or> confined fs w home q)
     \<and> (\<forall>q. plugin_registry_path c' = Some q \<longrightarrow> plugin_registry_path c = Some q \<or> confined fs w home q)"

definition discovery_kept :: "'w ConfigFs \<Rightarrow> 'w \<Rightarrow> path \<Rightarrow> RuntimePluginConfig \<Rightarrow> RuntimePluginConfig \<Rightarrow> bool" where
  "discovery_kept fs w cwd c c' \<longleftrightarrow>
     (external_directories c' = external_directories c
       \<or> list_all (confined fs w cwd) (external_directories c'))
     \<and> (bundled_root c' = bundled_root c \<or> pred_option (confined fs w cwd) (bundled_root c'))"

lemma merge_enabled_keeps:
  "merge_enabled ctx v c = Inr c' \<Longrightarrow>
     install_root c' = install_root c \<and> plugin_registry_path c' = plugin_registry_path c
     \<and> external_directories c' = external_directories c \<and> bundled_root c' = bundled_root c"
  by (auto simp: merge_enabled_def result_simps)

lemma merge_plugins_object_keeps:
  assumes c: "canonical_results fs w" and m: "merge_plugins_object fs w plugins source cwd home ctx c0 = Inr c5"
  shows "storage_kept fs w home c0 c5" and "source \<noteq> UserConfig \<Longrightarrow> discovery_kept fs w cwd c0 c5"
proof -
  obtain c1 dirs c2 iroot c3 rpath c4 broot where s1: "when_some (bt_get plugins (lit ''enabled''))
        (merge_enabled (ctx @ lit ''.plugins.enabled'')) c0 = Inr c1"
    and s2: "when_some dirs (\<lambda>ds c.
         res_bind (collect (\<lambda>d. resolve_plugin_discovery_path fs w d source cwd home
             (ctx @ lit ''.plugins.externalDirectories'')) ds) (\<lambda>ps.
         Inr (c\<lparr>external_directories := ps\<rparr>))) c1 = Inr c2"
    and s3: "when_some iroot (\<lambda>d c.
         res_bind (resolve_plugin_storage_path fs w d home (ctx @ lit ''.plugins.installRoot''))
           (\<lambda>q. Inr (c\<lparr>install_root := Some q\<rparr>))) c2 = Inr c3"
    and s4: "when_some rpath (\<lambda>d c.
         res_bind (resolve_plugin_storage_path fs w d home (ctx @ lit ''.plugins.registryPath''))
           (\<lambda>q. Inr (c\<lparr>plugin_registry_path := Some q\<rparr>))) c3 = Inr c4"
    and s5: "when_some broot (\<lambda>d c.
         res_bind (resolve_plugin_discovery_path fs w d source cwd home
             (ctx @ lit ''.plugins.bundledRoot''))
           (\<lambda>q. Inr (c\<lparr>bundled_root := Some q\<rparr>))) c4 = Inr c5"
    using m unfolding merge_plugins_object_def res_bind_Inr_iff by blast
  have k1: "install_root c1 = install_root c0 \<and> plugin_registry_path c1 = plugin_registry_path c0
     \<and> external_directories c1 = external_directories c0 \<and> bundled_root c1 = bundled_root c0"
    using s1 by (auto simp: result_simps dest: merge_enabled_keeps split: option.splits)
  note steps = s2 s3 s4 s5
  show "storage_kept fs w home c0 c5"
    using steps k1 by (auto simp: storage_kept_def result_simps split: option.splits
        intro: storage_path_confined[OF c])
  show "discovery_kept fs w cwd c0 c5" if "source \<noteq> UserConfig"
    using steps k1
    by (auto simp: discovery_kept_def result_simps list_all_iff split: option.splits
        dest: collect_set intro: discovery_path_confined[OF c that])
qed


lemma kept_refl [simp]: "storage_kept fs w home c c" "discovery_kept fs w cwd c c"
  by (simp_all add: storage_kept_def discovery_kept_def)

lemma kept_trans:
  "storage_kept fs w home a b \<Longrightarrow> storage_kept fs w home b c \<Longrightarrow> storage_kept fs w home a c"
  "discovery_kept fs w cwd a b \<Longrightarrow> discovery_kept fs w cwd b c \<Longrightarrow> discovery_kept fs w cwd a c"
  by (auto simp: storage_kept_def discovery_kept_def)

lemma merge_enabled_kept:
  assumes "when_some x (merge_enabled ctx) c = Inr c'"
  shows "storage_kept fs w home c c'" "discovery_kept fs w cwd c c'"
  using assms by (auto simp: result_simps storage_kept_def discovery_kept_def
      dest: merge_enabled_keeps split: option.splits)

lemma merge_plugin_config_kept:
  assumes c: "canonical_results fs w"
    and m: "merge_plugin_config_from_entry fs w config root source cwd home p = Inr config'"
  shows "storage_kept fs w home config config'"
    and "source \<noteq> UserConfig \<Longrightarrow> discovery_kept fs w cwd config config'"
proof -
  have *: "storage_kept fs w home config config' \<and> (source \<noteq> UserConfig \<longrightarrow> discovery_kept fs w cwd config config')"
  proof (cases "as_object root")
    case None
    then show ?thesis using m by (simp add: merge_plugin_config_from_entry_def)
  next
    case (Some ob)
    define ctx where "ctx = source_name source @ lit '' config '' @ path_display p"
    obtain c0 where c0: "when_some (bt_get ob (lit ''enabledPlugins''))
        (merge_enabled (ctx @ lit ''.enabledPlugins'')) config = Inr c0"
      and rest: "(case bt_get ob (lit ''plugins'') of None \<Rightarrow> Inr c0
          | Some v \<Rightarrow> res_bind (expect_object v (ctx @ lit ''.plugins'')) (\<lambda>plugins.
              merge_plugins_object fs w plugins source cwd home ctx c0)) = Inr config'"
      using m unfolding merge_plugin_config_from_entry_def Some option.case Let_def ctx_def[symmetric]
        res_bind_Inr_iff by blast
    note k = merge_enabled_kept[OF c0, of fs w]
    show ?thesis
    proof (cases "bt_get ob (lit ''plugins'')")
      case None
      then show ?thesis using rest k by simp
    next
      case (Some v)
      then obtain plugins where "merge_plugins_object fs w plugins source cwd home ctx c0 = Inr config'"
        using rest by (auto simp: res_bind_Inr_iff)
      note pk = merge_plugins_object_keeps[OF c this]
      show ?thesis using kept_trans(1)[OF k(1) pk(1)] kept_trans(2)[OF k(2) pk(2)] by simp
    qed
  qed
  then show "storage_kept fs w home config config'"
    and "source \<noteq> UserConfig \<Longrightarrow> discovery_kept fs w cwd config config'" by auto
qed

lemma load_entries_kept:
  assumes c: "canonical_results fs w" and "load_entries fs w l es st = Inr st'"
  shows "storage_kept fs w (loader_home l) (ls_plugins st) (ls_plugins st')
    \<and> (UserConfig \<notin> entry_source ` set es \<longrightarrow>
         discovery_kept fs w (loader_cwd l) (ls_plugins st) (ls_plugins st'))"
  using assms(2)
proof (induction es arbitrary: st)
  case (Cons e es)
  from Cons.prems obtain st1 where s: "load_entry fs w l e st = Inr st1" "load_entries fs w l es st1 = Inr st'"
    by (rule load_entries_Cons)
  note IH = Cons.IH[OF s(2)]
  from s(1) show ?case
  proof (cases rule: load_entry_cases)
    case absent
    then show ?thesis using IH[unfolded absent(2)] by simp
  next
    case (found ob mcp plugins)
    have "ls_plugins st1 = plugins" using found(4) by simp
    then show ?thesis using IH merge_plugin_config_kept[OF c found(3)] kept_trans by auto
  qed
qed simp

lemma load_entries_append:
  "load_entries fs w l (xs @ ys) st = res_bind (load_entries fs w l xs st) (load_entries fs w l ys)"
proof (induction xs arbitrary: st)
  case (Cons x xs)
  then show ?case by (cases "load_entry fs w l x st") simp_all
qed simp

lemma virtual_step_plain:
  "ParentDir \<notin> set p \<Longrightarrow> CurDir \<notin> set p \<Longrightarrow>
     ParentDir \<notin> set (virtual_step p c) \<and> CurDir \<notin> set (virtual_step p c)"
  by (cases c) (auto simp: virtual_step_def path_join_def path_parent_def split: option.split dest: in_set_butlastD)

lemma normalize_virtual_path_plain:
  "ParentDir \<notin> set (normalize_virtual_path p) \<and> CurDir \<notin> set (normalize_virtual_path p)"
proof -
  have "ParentDir \<notin> set q \<Longrightarrow> CurDir \<notin> set q \<Longrightarrow>
      ParentDir \<notin> set (foldl virtual_step q p) \<and> CurDir \<notin> set (foldl virtual_step q p)" for q
    by (induction p arbitrary: q) (simp_all add: virtual_step_plain)
  from this[of "[]"] show ?thesis by (simp add: normalize_virtual_path_def)
qed

definition workspace_bound :: "'w ConfigFs \<Rightarrow> 'w \<Rightarrow> path \<Rightarrow> path \<Rightarrow> bool" where
  "workspace_bound fs w cwd q \<longleftrightarrow>
     ParentDir \<notin> set q \<and> path_starts_with q (normalize_virtual_path cwd)
     \<and> (\<exists>a r root. deepest_existing_ancestor (cf_exists fs w) q = Some a \<and> cf_canonicalize fs w a = Inr r
          \<and> cf_canonicalize fs w cwd = Inr root \<and> path_starts_with r root)"

lemma resolve_workspace_bound:
  "resolve_workspace_bound_path fs w cwd v ctx = Inr q \<Longrightarrow> workspace_bound fs w cwd q"
  by (auto simp: resolve_workspace_bound_path_def Let_def result_simps workspace_bound_def
      normalize_virtual_path_plain split: if_splits)

lemma browser_control_bound:
  assumes "parse_optional_browser_control fs w root cwd = Inr b"
  shows "workspace_bound fs w cwd (artifacts_dir b)"
proof -
  obtain d where d: "default_browser_control_config fs w cwd = Inr d"
    using assms by (auto simp: parse_optional_browser_control_def res_bind_Inr_iff)
  have "workspace_bound fs w cwd (artifacts_dir d)"
    using d by (auto simp: default_browser_control_config_def res_bind_Inr_iff dest: resolve_workspace_bound)
  then show ?thesis
    using assms d resolve_workspace_bound[of fs w cwd]
    by (auto simp: parse_optional_browser_control_def Let_def res_bind_Inr_iff split: option.splits)
qed

text \<open>C25: no settings file can move the plugin storage or the browser artifacts: in every configuration
  that loads, the install root and the plugin registry lie below the resolved configuration home, the
  artifacts directory lies lexically in the workspace and its deepest existing ancestor resolves into
  it, and every plugin directory outside the workspace was named by one of the two user files.\<close>

theorem config_paths_confined:
  assumes "canonical_results fs w" "load fs w l = Inr c"
  shows "pred_option (confined fs w (loader_home l)) (install_root (fc_plugins (feature_config c)))
    \<and> pred_option (confined fs w (loader_home l)) (plugin_registry_path (fc_plugins (feature_config c)))
    \<and> workspace_bound fs w (loader_cwd l) (artifacts_dir (fc_browser_control (feature_config c)))
    \<and> (\<exists>st. load_entries fs w l (take 2 (discover l)) LoadState_new = Inr st
        \<and> discovery_kept fs w (loader_cwd l) (ls_plugins st) (fc_plugins (feature_config c)))"
proof -
  from assms(2) obtain st where st: "load_entries fs w l (discover l) LoadState_new = Inr st"
    "feature_config_of fs w l st = Inr (feature_config c)" by (rule load_cases)
  have "load_entries fs w l (take 2 (discover l) @ drop 2 (discover l)) LoadState_new = Inr st"
    using st(1) by simp
  then obtain st0 where st0: "load_entries fs w l (take 2 (discover l)) LoadState_new = Inr st0"
    "load_entries fs w l (drop 2 (discover l)) st0 = Inr st"
    unfolding load_entries_append res_bind_Inr_iff by blast
  have "UserConfig \<notin> entry_source ` set (drop 2 (discover l))"
    by (simp add: discover_def Let_def)
  then have "discovery_kept fs w (loader_cwd l) (ls_plugins st0) (ls_plugins st)"
    using load_entries_kept[OF assms(1) st0(2)] by blast
  moreover have "storage_kept fs w (loader_home l) RuntimePluginConfig_default (ls_plugins st)"
    using load_entries_kept[OF assms(1) st(1)] by (simp add: LoadState_new_def)
  ultimately show ?thesis
    using feature_config_fields(3,4)[OF st(2)] st0(1) browser_control_bound
    by (auto simp: storage_kept_def RuntimePluginConfig_default_def option.pred_set)
qed


section \<open>A malformed legacy file\<close>

lemma cf_read_other [simp]:
  "cf_current_dir (fs\<lparr>cf_read := r\<rparr>) = cf_current_dir fs"
  "cf_exists (fs\<lparr>cf_read := r\<rparr>) = cf_exists fs"
  "cf_canonicalize (fs\<lparr>cf_read := r\<rparr>) = cf_canonicalize fs"
  by simp_all

lemma cf_read_irrelevant:
  "merge_plugin_config_from_entry (fs\<lparr>cf_read := r\<rparr>) = merge_plugin_config_from_entry fs"
  "parse_optional_browser_control (fs\<lparr>cf_read := r\<rparr>) = parse_optional_browser_control fs"
  unfolding fun_eq_iff merge_plugin_config_from_entry_def merge_plugins_object_def
    parse_optional_browser_control_def default_browser_control_config_def
    resolve_plugin_storage_path_def resolve_plugin_discovery_path_def
    resolve_workspace_bound_path_def canonicalize_allow_missing_def cf_read_other
  by (intro allI refl)+

lemma load_read_cong:
  assumes "\<And>p. read_optional_json_object (fs\<lparr>cf_read := r\<rparr>) w p = read_optional_json_object fs w p"
  shows "load (fs\<lparr>cf_read := r\<rparr>) w l = load fs w l"
proof -
  have "load_entry (fs\<lparr>cf_read := r\<rparr>) w l e = load_entry fs w l e" for e
    unfolding fun_eq_iff load_entry_def assms cf_read_irrelevant by (intro allI refl)
  note entry = this
  have entries: "load_entries (fs\<lparr>cf_read := r\<rparr>) w l es = load_entries fs w l es" for es
    by (induction es) (auto intro!: ext simp: entry)
  have "load_entries (fs\<lparr>cf_read := r\<rparr>) w l es st = load_entries fs w l es st" for es st
    by (simp add: entries)
  moreover have "feature_config_of (fs\<lparr>cf_read := r\<rparr>) w l = feature_config_of fs w l"
    unfolding fun_eq_iff feature_config_of_def cf_read_irrelevant by (intro allI refl)
  ultimately show ?thesis unfolding load_def by simp
qed

text \<open>a legacy \<open>.openyak.json\<close> that is not a JSON object never breaks loading: it counts as absent.\<close>

theorem malformed_legacy_file_ignored:
  assumes "is_legacy_config p" "trim s \<noteq> []" "\<nexists>ob. parse s = Inr (Object ob)"
  shows "load (fs\<lparr>cf_read := (cf_read fs)(w := (cf_read fs w)(p := FileContents s))\<rparr>) w l =
    load (fs\<lparr>cf_read := (cf_read fs)(w := (cf_read fs w)(p := FileNotFound))\<rparr>) w l"
proof -
  let ?bad = "(cf_read fs)(w := (cf_read fs w)(p := FileContents s))"
  let ?none = "(cf_read fs)(w := (cf_read fs w)(p := FileNotFound))"
  have "as_object v = None" if "parse s = Inr v" for v
    using assms(3) that by (cases v) auto
  then have "read_optional_json_object (fs\<lparr>cf_read := ?none\<rparr>\<lparr>cf_read := ?bad\<rparr>) w q =
      read_optional_json_object (fs\<lparr>cf_read := ?none\<rparr>) w q" for q
    using assms(1,2) by (auto simp: read_optional_json_object_def split: sum.split option.split)
  from load_read_cong[OF this] show ?thesis by simp
qed


section \<open>A configuration\<close>

definition demo_settings :: "rchar \<Rightarrow> rstr" where
  "demo_settings c = [123, 34] @ lit ''model'' @ [34, 58, 34, c, 34, 125]"

definition demo_file :: "path \<Rightarrow> FileRead" where
  "demo_file p =
     (if p = [RootDir, Normal (lit ''u''), Normal (lit ''.openyak''), Normal (lit ''settings.json'')]
      then FileContents (demo_settings 97)
      else if p = [RootDir, Normal (lit ''.openyak.json'')] then FileContents (demo_settings 98)
      else FileNotFound)"

definition demo_config_fs :: "unit ConfigFs" where
  "demo_config_fs =
     \<lparr>cf_current_dir = \<lambda>_. Inr [RootDir], cf_read = \<lambda>_. demo_file, cf_exists = \<lambda>_ p. p = [RootDir],
      cf_canonicalize = (\<lambda>_ p. if p = [RootDir] then Inr p else Inl []),
      cf_create_dir_all = \<lambda>_ w. (Inr (), w), cf_write = \<lambda>_ _ w. (Inr (), w)\<rparr>"

definition demo_loader :: ConfigLoader where
  "demo_loader = \<lparr>loader_cwd = [RootDir], loader_home = [RootDir, Normal (lit ''u''), Normal (lit ''.openyak'')]\<rparr>"

lemma demo_parse:
  "parse (demo_settings 97) = Inr (Object [(lit ''model'', String [97])])"
  "parse (demo_settings 98) = Inr (Object [(lit ''model'', String [98])])"
  by code_simp+

lemma demo_not_blank: "trim (demo_settings c) \<noteq> []"
  by (simp add: demo_settings_def is_ws_def trim_Nil_iff)

lemma demo_read:
  "read_optional_json_object demo_config_fs () p =
     (if p = [RootDir, Normal (lit ''u''), Normal (lit ''.openyak''), Normal (lit ''settings.json'')]
      then Inr (Some [(lit ''model'', String [97])])
      else if p = [RootDir, Normal (lit ''.openyak.json'')] then Inr (Some [(lit ''model'', String [98])])
      else Inr None)"
  by (simp add: read_optional_json_object_def demo_config_fs_def demo_file_def demo_parse demo_not_blank)

lemma demo_discover:
  "map entry_path (discover demo_loader) =
     [[RootDir, Normal (lit ''u''), Normal (lit ''.openyak.json'')],
      [RootDir, Normal (lit ''u''), Normal (lit ''.openyak''), Normal (lit ''settings.json'')],
      [RootDir, Normal (lit ''.openyak.json'')],
      [RootDir, Normal (lit ''.openyak''), Normal (lit ''settings.json'')],
      [RootDir, Normal (lit ''.openyak''), Normal (lit ''settings.local.json'')]]"
  by (simp add: discover_def demo_loader_def path_parent_def Let_def)

lemma demo_load_entries:
  "\<exists>st. load_entries demo_config_fs () demo_loader (discover demo_loader) LoadState_new = Inr st
     \<and> ls_merged st = [(lit ''model'', String [98])]"
  by (simp add: discover_def demo_loader_def path_parent_def load_entry_def demo_read
      merge_mcp_servers_def merge_plugin_config_from_entry_def LoadState_new_def Let_def)

lemma demo_config_canonical: "canonical_results demo_config_fs ()"
  by (auto simp: canonical_results_def demo_config_fs_def split: if_splits)

lemma demo_browser_dir:
  "path_components DEFAULT_BROWSER_ARTIFACTS_DIR =
     [Normal (lit ''.openyak''), Normal (lit ''artifacts''), Normal (lit ''browser'')]"
  by code_simp

lemma demo_load:
  "\<exists>c. load demo_config_fs () demo_loader = Inr c
     \<and> merged_settings c = [(lit ''model'', String [98])]"
proof -
  obtain st where st: "load_entries demo_config_fs () demo_loader (discover demo_loader) LoadState_new = Inr st"
    "ls_merged st = [(lit ''model'', String [98])]" using demo_load_entries by blast
  have "resolve_workspace_bound_path demo_config_fs () [RootDir] DEFAULT_BROWSER_ARTIFACTS_DIR ctx =
     Inr [RootDir, Normal (lit ''.openyak''), Normal (lit ''artifacts''), Normal (lit ''browser'')]" for ctx
    by (simp add: resolve_workspace_bound_path_def demo_browser_dir normalize_virtual_path_def
        virtual_step_def path_join_def demo_config_fs_def deepest_existing_ancestor.simps path_parent_def
        path_starts_with_def Let_def)
      (simp add: DEFAULT_BROWSER_ARTIFACTS_DIR_def trim_Nil_iff lit_def is_ws_def)
  then have "\<exists>fc. feature_config_of demo_config_fs () demo_loader st = Inr fc"
    by (simp add: feature_config_of_def st(2) Let_def demo_loader_def
        parse_optional_oauth_override_config_def parse_optional_hooks_config_def
        parse_optional_skill_config_def parse_optional_tool_profiles_def parse_optional_browser_control_def
        default_browser_control_config_def parse_optional_permission_mode_def
        parse_optional_sandbox_config_def settings_section_def)
  then show ?thesis using st by (auto simp: load_def)
qed

text \<open>MCP servers are not merged member by member: the server of a name is the one the last file
  that defines it describes, parsed on its own, with that file's source as its scope.\<close>

theorem mcp_server_last_definition:
  assumes "load fs w l = Inr c"
  shows "case find (\<lambda>(e, ob). server_value name ob \<noteq> None) (rev (found_objects fs w (discover l))) of
      None \<Rightarrow> mcp_get c name = None
    | Some (e, ob) \<Rightarrow> \<exists>config.
        parse_mcp_server_config name (the (server_value name ob))
          (path_display (entry_path e) @ lit '': mcpServers.'' @ name) = Inr config
        \<and> mcp_get c name = Some \<lparr>scope = entry_source e, server = config\<rparr>"
proof -
  from assms obtain st where st: "load_entries fs w l (discover l) LoadState_new = Inr st"
    "feature_config_of fs w l st = Inr (feature_config c)" by (rule load_cases)
  have n: "bt_get (ls_mcp LoadState_new) name = None" by (simp add: LoadState_new_def)
  have m: "mcp_get c name = bt_get (ls_mcp st) name"
    using feature_config_fields(2)[OF st(2)] by (simp add: mcp_get_def)
  show ?thesis using load_entries_mcp[OF st(1), of name] unfolding m n .
qed

section \<open>Witnesses\<close>

theorem settings_last_file_witness:
  "\<exists>c. load demo_config_fs () demo_loader = Inr c \<and> fc_model (feature_config c) = Some [98]"
proof -
  obtain c where c: "load demo_config_fs () demo_loader = Inr c"
    "merged_settings c = [(lit ''model'', String [98])]" using demo_load by blast
  then show ?thesis using settings_last_file[OF c(1), of "[]"] by simp
qed

theorem config_paths_confined_witness:
  "\<exists>c. load demo_config_fs () demo_loader = Inr c
     \<and> workspace_bound demo_config_fs () [RootDir] (artifacts_dir (fc_browser_control (feature_config c)))"
proof -
  obtain c where c: "load demo_config_fs () demo_loader = Inr c" using demo_load by blast
  then show ?thesis
    using config_paths_confined[OF demo_config_canonical c] by (simp add: demo_loader_def)
qed

theorem malformed_legacy_file_ignored_witness:
  "load (demo_config_fs\<lparr>cf_read := (cf_read demo_config_fs)
       (() := (cf_read demo_config_fs ())([Normal (lit ''.openyak.json'')] := FileContents [48]))\<rparr>) () demo_loader =
   load (demo_config_fs\<lparr>cf_read := (cf_read demo_config_fs)
       (() := (cf_read demo_config_fs ())([Normal (lit ''.openyak.json'')] := FileNotFound))\<rparr>) () demo_loader"
proof (rule malformed_legacy_file_ignored)
  have "parse [48] = Inr (Number 0)" by code_simp
  then show "\<nexists>ob. parse [48] = Inr (Object ob)" by simp
qed (simp_all add: is_legacy_config_def path_file_name_def trim_Nil_iff is_ws_def)

theorem mcp_server_last_definition_witness:
  "\<exists>c. load demo_config_fs () demo_loader = Inr c \<and> mcp_get c (lit ''s'') = None"
proof -
  obtain c where c: "load demo_config_fs () demo_loader = Inr c" using demo_load by blast
  have "server_value (lit ''s'') ob = None"
    if "(e, ob) \<in> set (found_objects demo_config_fs () es)" for e ob es
    using that
    by (induction es) (auto simp: demo_read server_value_def split: if_splits)
  then have "find (\<lambda>(e, ob). server_value (lit ''s'') ob \<noteq> None)
      (rev (found_objects demo_config_fs () (discover demo_loader))) = None"
    by (auto simp: find_None_iff)
  then show ?thesis using mcp_server_last_definition[OF c, of "lit ''s''"] c by simp
qed

end
