(* ===== verification/Utf8.thy ===== *)
theory Utf8
  imports Rust_Str
begin

unbundle bit_operations_syntax

text \<open>
  Strings as bytes: UTF-8 as the standard library writes it (\<open>str::as_bytes\<close>), checks it
  (\<open>String::from_utf8\<close>, with the text of its errors) and repairs it (\<open>String::from_utf8_lossy\<close>).
\<close>

type_synonym u8 = "8 word"

named_theorems utf8_simps \<open>facts about bytes of strings\<close>

definition scalar :: "rchar \<Rightarrow> bool" where
  "scalar c \<longleftrightarrow> c < 55296 \<or> 57344 \<le> c \<and> c \<le> 1114111"

text \<open>The bytes of a character, as numbers.\<close>

definition char_codes :: "rchar \<Rightarrow> nat list" where
  "char_codes c =
     (if c < 128 then [c]
      else if c < 2048 then [192 + c div 64, 128 + c mod 64]
      else if c < 65536 then [224 + c div 4096, 128 + c div 64 mod 64, 128 + c mod 64]
      else [240 + c div 262144, 128 + c div 4096 mod 64, 128 + c div 64 mod 64, 128 + c mod 64])"

definition as_bytes :: "rstr \<Rightarrow> u8 list" where
  "as_bytes s = map of_nat (concat (map char_codes s))"

text \<open>
  One step of the validation: a character and the number of bytes it takes, the number of bytes that
  can belong to no character, or the number of bytes of a character the input ends in.
\<close>

datatype Utf8Step = Utf8Char rchar nat | Utf8Invalid nat | Utf8Incomplete nat

fun take_continuation :: "nat \<Rightarrow> nat \<Rightarrow> nat \<Rightarrow> nat list \<Rightarrow> Utf8Step" where
  "take_continuation 0 used acc r = Utf8Char acc used"
| "take_continuation (Suc n) used acc [] = Utf8Incomplete used"
| "take_continuation (Suc n) used acc (b # r) =
     (if 128 \<le> b \<and> b < 192 then take_continuation n (Suc used) (acc * 64 + (b - 128)) r
      else Utf8Invalid used)"

text \<open>The second byte of a longer sequence: no overlong forms, surrogates or values beyond the range.\<close>

definition second_byte_ok :: "nat \<Rightarrow> nat \<Rightarrow> bool" where
  "second_byte_ok b b2 \<longleftrightarrow>
     (if b = 224 then 160 \<le> b2 \<and> b2 < 192
      else if b = 237 then 128 \<le> b2 \<and> b2 < 160
      else if b = 240 then 144 \<le> b2 \<and> b2 < 192
      else if b = 244 then 128 \<le> b2 \<and> b2 < 144
      else 128 \<le> b2 \<and> b2 < 192)"

definition long_sequence :: "nat \<Rightarrow> nat \<Rightarrow> nat \<Rightarrow> nat list \<Rightarrow> Utf8Step" where
  "long_sequence n acc b r =
     (case r of
        [] \<Rightarrow> Utf8Incomplete 1
      | b2 # _ \<Rightarrow> if second_byte_ok b b2 then take_continuation n 1 acc r else Utf8Invalid 1)"

definition utf8_step :: "nat \<Rightarrow> nat list \<Rightarrow> Utf8Step" where
  "utf8_step b r =
     (if b < 128 then Utf8Char b 1
      else if 194 \<le> b \<and> b < 224 then take_continuation 1 1 (b - 192) r
      else if 224 \<le> b \<and> b < 240 then long_sequence 2 (b - 224) b r
      else if 240 \<le> b \<and> b \<le> 244 then long_sequence 3 (b - 240) b r
      else Utf8Invalid 1)"

function utf8_chars :: "nat \<Rightarrow> nat list \<Rightarrow> rstr + rstr" where
  "utf8_chars pos [] = Inr []"
| "utf8_chars pos (b # r) =
     (case utf8_step b r of
        Utf8Char c n \<Rightarrow> res_bind (utf8_chars (pos + n) (drop (n - 1) r)) (\<lambda>s. Inr (c # s))
      | Utf8Invalid n \<Rightarrow>
          Inl (lit ''invalid utf-8 sequence of '' @ show_nat n @ lit '' bytes from index '' @ show_nat pos)
      | Utf8Incomplete n \<Rightarrow> Inl (lit ''incomplete utf-8 byte sequence from index '' @ show_nat pos))"
  by pat_completeness auto

termination utf8_chars by (relation "measure (\<lambda>(pos, bs). length bs)") auto

definition from_utf8 :: "u8 list \<Rightarrow> rstr + rstr" where
  "from_utf8 bs = utf8_chars 0 (map unat bs)"

function lossy_chars :: "nat list \<Rightarrow> rstr" where
  "lossy_chars [] = []"
| "lossy_chars (b # r) =
     (case utf8_step b r of
        Utf8Char c n \<Rightarrow> c # lossy_chars (drop (n - 1) r)
      | Utf8Invalid n \<Rightarrow> 65533 # lossy_chars (drop (n - 1) r)
      | Utf8Incomplete n \<Rightarrow> 65533 # lossy_chars (drop (n - 1) r))"
  by pat_completeness auto

termination lossy_chars by (relation "measure length") auto

definition from_utf8_lossy :: "u8 list \<Rightarrow> rstr" where
  "from_utf8_lossy bs = lossy_chars (map unat bs)"

section \<open>Reading back what was written\<close>

lemma char_codes_less: "scalar c \<Longrightarrow> b \<in> set (char_codes c) \<Longrightarrow> b < 256"
  by (auto simp: char_codes_def scalar_def split: if_splits)

lemma map_unat_of_nat: "\<forall>n \<in> set ns. n < 256 \<Longrightarrow> map unat (map of_nat ns :: u8 list) = ns"
  by (induction ns) (auto simp: unat_of_nat)

lemma map_unat_as_bytes:
  assumes "\<forall>c \<in> set s. scalar c"
  shows "map unat (as_bytes s) = concat (map char_codes s)"
  unfolding as_bytes_def by (rule map_unat_of_nat) (use assms char_codes_less in auto)

lemma as_bytes_append [utf8_simps]: "as_bytes (a @ b) = as_bytes a @ as_bytes b"
  by (simp add: as_bytes_def)

lemma as_bytes_Nil [utf8_simps]: "as_bytes [] = []"
  by (simp add: as_bytes_def)

lemma div_steps: "c div 4096 * 64 + c div 64 mod 64 = c div (64::nat)"
  "c div 262144 * 64 + c div 4096 mod 64 = c div (4096::nat)"
  "c div 64 * 64 + c mod 64 = (c::nat)"
proof -
  have "c div 4096 = c div 64 div 64" "c div 262144 = c div 4096 div 64"
    by (simp_all add: div_mult2_eq[symmetric])
  then show "c div 4096 * 64 + c div 64 mod 64 = c div 64"
    "c div 262144 * 64 + c div 4096 mod 64 = c div 4096"
    by simp_all
qed simp

lemma utf8_step_char:
  assumes "scalar c"
  obtains b bs where "char_codes c = b # bs"
    and "\<And>r. utf8_step b (bs @ r) = Utf8Char c (Suc (length bs))"
proof -
  consider "c < 128" | "128 \<le> c" "c < 2048" | "2048 \<le> c" "c < 65536" | "65536 \<le> c" by linarith
  then show thesis
  proof cases
    case 1
    then show thesis using that[of c "[]"] by (simp add: char_codes_def utf8_step_def)
  next
    case 2
    then have "2 \<le> c div 64" "c div 64 < 32" by (auto simp: div_le_mono[of 128 c 64, simplified])
    then show thesis using 2 div_steps[of c] that[of "192 + c div 64" "[128 + c mod 64]"]
      by (simp add: char_codes_def utf8_step_def numeral_2_eq_2 numeral_3_eq_3)
  next
    case 3
    let ?a = "c div 4096" let ?b = "c div 64 mod 64"
    have a: "?a < 16" using 3 by simp
    have e: "?a * 64 + ?b = c div 64" by (rule div_steps)
    have lo: "?a = 0 \<Longrightarrow> 32 \<le> ?b" using e div_le_mono[of 2048 c 64] 3 by simp
    have hi: "?a = 13 \<Longrightarrow> ?b < 32"
    proof -
      assume "?a = 13"
      then have "c < 57344" by simp
      then have "c < 55296" using assms by (auto simp: scalar_def)
      then have "c div 64 < 864" by simp
      then show ?thesis using e \<open>?a = 13\<close> by simp
    qed
    have ok: "second_byte_ok (224 + ?a) (128 + ?b)"
      using lo hi a by (auto simp: second_byte_ok_def)
    show thesis
      by (rule that[of "224 + ?a" "[128 + ?b, 128 + c mod 64]"])
        (use 3 a ok e div_steps(3)[of c] in \<open>simp_all add: char_codes_def utf8_step_def long_sequence_def numeral_2_eq_2 numeral_3_eq_3\<close>)
  next
    case 4
    let ?a = "c div 262144" let ?b = "c div 4096 mod 64" let ?d = "c div 64 mod 64"
    have c: "c \<le> 1114111" using assms 4 by (auto simp: scalar_def)
    have a: "?a \<le> 4" using div_le_mono[OF c, of 262144] by simp
    have e: "?a * 64 + ?b = c div 4096" by (rule div_steps)
    have lo: "?a = 0 \<Longrightarrow> 16 \<le> ?b" using e div_le_mono[OF 4, of 4096] by simp
    have hi: "?a = 4 \<Longrightarrow> ?b < 16" using e div_le_mono[OF c, of 4096] by simp
    have ok: "second_byte_ok (240 + ?a) (128 + ?b)"
      using lo hi a by (auto simp: second_byte_ok_def)
    show thesis
      by (rule that[of "240 + ?a" "[128 + ?b, 128 + ?d, 128 + c mod 64]"])
        (use 4 a ok e div_steps[of c] in \<open>simp_all add: char_codes_def utf8_step_def long_sequence_def numeral_2_eq_2 numeral_3_eq_3\<close>)
  qed
qed

lemma utf8_chars_codes:
  assumes "\<forall>c \<in> set s. scalar c"
  shows "utf8_chars pos (concat (map char_codes s)) = Inr s"
  using assms
proof (induction s arbitrary: pos)
  case (Cons c s)
  obtain b bs where b: "char_codes c = b # bs" "\<And>r. utf8_step b (bs @ r) = Utf8Char c (Suc (length bs))"
    using utf8_step_char[of c] Cons.prems by auto
  then show ?case using Cons by simp
qed simp

lemma lossy_chars_codes:
  assumes "\<forall>c \<in> set s. scalar c"
  shows "lossy_chars (concat (map char_codes s)) = s"
  using assms
proof (induction s)
  case (Cons c s)
  obtain b bs where b: "char_codes c = b # bs" "\<And>r. utf8_step b (bs @ r) = Utf8Char c (Suc (length bs))"
    using utf8_step_char[of c] Cons.prems by auto
  then show ?case using Cons by simp
qed simp

lemma from_utf8_as_bytes: "\<forall>c \<in> set s. scalar c \<Longrightarrow> from_utf8 (as_bytes s) = Inr s"
  by (simp add: from_utf8_def map_unat_as_bytes utf8_chars_codes)

lemma from_utf8_lossy_as_bytes: "\<forall>c \<in> set s. scalar c \<Longrightarrow> from_utf8_lossy (as_bytes s) = s"
  by (simp add: from_utf8_lossy_def map_unat_as_bytes lossy_chars_codes)

lemma as_bytes_ascii: "\<forall>c \<in> set s. c < 128 \<Longrightarrow> as_bytes s = map of_nat s"
  by (induction s) (auto simp: as_bytes_def char_codes_def)

end
