(* ===== verification/OAuth_Encoding.thy ===== *)
theory OAuth_Encoding
  imports Utf8
begin

text \<open>
  The three encodings of \<open>runtime/src/oauth.rs\<close>: percent encoding of query parameters, its decoding,
  and unpadded base64url, over bytes as 8-bit words and blocks as 32-bit words.
\<close>

section \<open>Percent encoding\<close>

definition unreserved :: "u8 \<Rightarrow> bool" where
  "unreserved b \<longleftrightarrow>
     65 \<le> b \<and> b \<le> 90 \<or> 97 \<le> b \<and> b \<le> 122 \<or> 48 \<le> b \<and> b \<le> 57 \<or> b \<in> {45, 95, 46, 126}"

text \<open>The format \<open>{:02X}\<close> of a byte.\<close>

definition hex_upper :: "nat \<Rightarrow> rchar" where
  "hex_upper n = (if n < 10 then 48 + n else 55 + n)"

definition hex_upper_byte :: "u8 \<Rightarrow> rstr" where
  "hex_upper_byte b = [hex_upper (unat (drop_bit 4 b)), hex_upper (unat (take_bit 4 b))]"

definition percent_encode_byte :: "u8 \<Rightarrow> rstr" where
  "percent_encode_byte b = (if unreserved b then [unat b] else 37 # hex_upper_byte b)"

definition percent_encode :: "rstr \<Rightarrow> rstr" where
  "percent_encode s = concat (map percent_encode_byte (as_bytes s))"

definition decode_hex :: "u8 \<Rightarrow> rstr + u8" where
  "decode_hex b =
     (if 48 \<le> b \<and> b \<le> 57 then Inr (b - 48)
      else if 97 \<le> b \<and> b \<le> 102 then Inr (b - 97 + 10)
      else if 65 \<le> b \<and> b \<le> 70 then Inr (b - 65 + 10)
      else Inl (lit ''invalid percent-encoding byte: '' @ show_nat (unat b)))"

function percent_decode_bytes :: "u8 list \<Rightarrow> rstr + u8 list" where
  "percent_decode_bytes [] = Inr []"
| "percent_decode_bytes (b # r) =
     (case (b = 37, r) of
        (True, h # l # r') \<Rightarrow>
          res_bind (decode_hex h) (\<lambda>hi.
          res_bind (decode_hex l) (\<lambda>lo.
          res_bind (percent_decode_bytes r') (\<lambda>d. Inr ((push_bit 4 hi OR lo) # d))))
      | _ \<Rightarrow> res_bind (percent_decode_bytes r) (\<lambda>d. Inr ((if b = 43 then 32 else b) # d)))"
  by pat_completeness auto

termination percent_decode_bytes by (relation "measure length") auto

definition percent_decode :: "rstr \<Rightarrow> rstr + rstr" where
  "percent_decode s = res_bind (percent_decode_bytes (as_bytes s)) from_utf8"

section \<open>base64url\<close>

definition TABLE :: rstr where
  "TABLE = lit ''ABCDEFGHIJKLMNOPQRSTUVWXYZabcdefghijklmnopqrstuvwxyz0123456789-_''"

definition table_char :: "u32 \<Rightarrow> nat \<Rightarrow> rchar" where
  "table_char block n = TABLE ! unat (drop_bit n block AND 63)"

fun base64url_encode :: "u8 list \<Rightarrow> rstr" where
  "base64url_encode [] = []"
| "base64url_encode [a] =
     (let block = push_bit 16 (ucast a) in [table_char block 18, table_char block 12])"
| "base64url_encode [a, b] =
     (let block = push_bit 16 (ucast a) OR push_bit 8 (ucast b)
      in [table_char block 18, table_char block 12, table_char block 6])"
| "base64url_encode (a # b # c # r) =
     (let block = push_bit 16 (ucast a) OR push_bit 8 (ucast b) OR ucast c
      in [table_char block 18, table_char block 12, table_char block 6, table_char block 0]
         @ base64url_encode r)"

section \<open>Lemmas\<close>

lemma nibbles: "push_bit 4 (drop_bit 4 b) OR take_bit 4 b = (b :: u8)"
  by (rule bit_word_eqI) (auto simp: bit_simps)

lemma decode_hex_upper:
  assumes "n < 16"
  shows "decode_hex (of_nat (hex_upper n)) = Inr (of_nat n)"
proof -
  have "\<forall>k \<in> set [0..<16]. decode_hex (of_nat (hex_upper k)) = Inr (of_nat k)"
    by (simp add: upt_rec decode_hex_def hex_upper_def)
  then show ?thesis using assms by simp
qed

lemma nibble_less: "unat (drop_bit 4 (b :: u8)) < 16" "unat (take_bit 4 (b :: u8)) < 16"
proof -
  have "unat b < 256" using unsigned_less[of b] by simp
  then show "unat (drop_bit 4 b) < 16"
    by (simp add: drop_bit_eq_div unat_div less_mult_imp_div_less)
  show "unat (take_bit 4 b) < 16"
    by (simp add: take_bit_eq_mod unat_mod)
qed

lemma hex_upper_less: "n < 16 \<Longrightarrow> hex_upper n < 128"
  by (simp add: hex_upper_def)

lemma percent_encode_byte_ascii: "c \<in> set (percent_encode_byte b) \<Longrightarrow> c < 128"
  using nibble_less[of b] hex_upper_less
  by (auto simp: percent_encode_byte_def hex_upper_byte_def unreserved_def word_le_nat_alt split: if_splits)

lemma percent_encode_ascii: "c \<in> set (percent_encode s) \<Longrightarrow> c < 128"
  by (auto simp: percent_encode_def dest: percent_encode_byte_ascii)

lemma percent_decode_bytes_encoded:
  "percent_decode_bytes (map of_nat (percent_encode_byte b) @ r) =
     res_bind (percent_decode_bytes r) (\<lambda>d. Inr (b # d))"
proof (cases "unreserved b")
  case True
  then have "b \<noteq> 37" "b \<noteq> 43" by (auto simp: unreserved_def)
  then show ?thesis using True by (simp add: percent_encode_byte_def)
next
  case False
  then show ?thesis
    by (simp add: percent_encode_byte_def hex_upper_byte_def decode_hex_upper nibble_less nibbles)
qed

lemma percent_decode_bytes_concat:
  "percent_decode_bytes (map of_nat (concat (map percent_encode_byte bs))) = Inr bs"
  by (induction bs) (simp_all add: percent_decode_bytes_encoded)

lemma percent_decode_encode: "\<forall>c \<in> set s. scalar c \<Longrightarrow> percent_decode (percent_encode s) = Inr s"
  using as_bytes_ascii[of "percent_encode s"] percent_encode_ascii
  by (simp add: percent_decode_def percent_encode_def percent_decode_bytes_concat from_utf8_as_bytes)

text \<open>The encoded text has only unreserved characters and percent signs.\<close>

definition unreserved_char :: "rchar \<Rightarrow> bool" where
  "unreserved_char c \<longleftrightarrow>
     65 \<le> c \<and> c \<le> 90 \<or> 97 \<le> c \<and> c \<le> 122 \<or> 48 \<le> c \<and> c \<le> 57 \<or> c \<in> {45, 95, 46, 126}"

lemma unreserved_unat: "unreserved b \<longleftrightarrow> unreserved_char (unat b)"
proof -
  have "b = x \<longleftrightarrow> unat b = unat x" for x by (simp add: word_unat_eq_iff)
  then show ?thesis by (simp add: unreserved_def unreserved_char_def word_le_nat_alt)
qed

lemma percent_encode_chars:
  assumes "c \<in> set (percent_encode s)"
  shows "unreserved_char c \<or> c = 37"
proof -
  from assms obtain b where b: "c \<in> set (percent_encode_byte b)" by (auto simp: percent_encode_def)
  have h: "unreserved_char (hex_upper n)" if "n < 16" for n
    using that by (auto simp: unreserved_char_def hex_upper_def)
  show ?thesis using b h nibble_less[of b]
    by (auto simp: percent_encode_byte_def hex_upper_byte_def unreserved_unat split: if_splits)
qed

lemma unreserved_char_less: "unreserved_char c \<Longrightarrow> c < 128"
  by (auto simp: unreserved_char_def)

lemma percent_encode_unreserved:
  assumes "\<forall>c \<in> set s. unreserved_char c"
  shows "percent_encode s = s"
proof -
  have "as_bytes s = map of_nat s" by (rule as_bytes_ascii) (use assms unreserved_char_less in auto)
  moreover have "percent_encode_byte (of_nat c) = [c]" if "c \<in> set s" for c
  proof -
    have "unat (of_nat c :: u8) = c" using assms that unreserved_char_less[of c] by (simp add: unat_of_nat)
    then show ?thesis using assms that by (simp add: percent_encode_byte_def unreserved_unat)
  qed
  then have "concat (map percent_encode_byte (map of_nat s)) = s"
    by (induction s) simp_all
  ultimately show ?thesis by (simp add: percent_encode_def)
qed

text \<open>A reference decoder for base64url: six bits per character, eight bits per byte.\<close>

lemma sextet_less: "unat (w AND 63 :: u32) < 64"
proof -
  have "w AND 63 = take_bit 6 w" by (simp add: take_bit_eq_mask mask_eq_exp_minus_1)
  then show ?thesis using take_bit_nat_less_exp[of 6 "unat w"] by (simp add: unsigned_take_bit_eq)
qed

lemma table_char_bounds:
  "table_char w n \<in> set TABLE" "unreserved_char (table_char w n)"
proof -
  have l: "length TABLE = 64" by (simp add: TABLE_def lit_def)
  show m: "table_char w n \<in> set TABLE" using l sextet_less by (simp add: table_char_def)
  have "\<forall>c \<in> set TABLE. unreserved_char c" by (simp add: TABLE_def lit_def unreserved_char_def)
  then show "unreserved_char (table_char w n)" using m by blast
qed

lemma base64url_length: "length (base64url_encode bs) = (4 * length bs + 2) div 3"
  by (induction bs rule: base64url_encode.induct) (simp_all add: Let_def)

lemma base64url_chars: "c \<in> set (base64url_encode bs) \<Longrightarrow> unreserved_char c"
  by (induction bs rule: base64url_encode.induct) (auto simp: Let_def table_char_bounds(2))

lemma table_char_eq:
  assumes "table_char v n = table_char w m"
  shows "drop_bit n v AND 63 = drop_bit m w AND 63"
proof -
  have "distinct TABLE" "length TABLE = 64" by (simp_all add: TABLE_def lit_def)
  then show ?thesis
    using assms sextet_less by (simp add: table_char_def nth_eq_iff_index_eq word_unat_eq_iff)
qed

lemma table_char_bit:
  assumes "table_char v n = table_char w n" "n \<le> i" "i < n + 6"
  shows "bit v i \<longleftrightarrow> bit w i"
proof -
  have m: "(63 :: u32) = mask 6" by (simp add: mask_eq_exp_minus_1)
  have "bit (drop_bit n v AND 63) (i - n) \<longleftrightarrow> bit (drop_bit n w AND 63) (i - n)"
    using table_char_eq[OF assms(1)] by simp
  then show ?thesis using assms(2,3) unfolding m
    by (auto simp: bit_simps dest: bit_imp_le_length)
qed

definition block24 :: "u8 \<Rightarrow> u8 \<Rightarrow> u8 \<Rightarrow> u32" where
  "block24 a b c = push_bit 16 (ucast a) OR push_bit 8 (ucast b) OR ucast c"

lemma bit_block24:
  "i < 8 \<Longrightarrow> bit (block24 a b c) (16 + i) = bit a i"
  "i < 8 \<Longrightarrow> bit (block24 a b c) (8 + i) = bit b i"
  "i < 8 \<Longrightarrow> bit (block24 a b c) i = bit c i"
  by (auto simp: block24_def bit_simps dest: bit_imp_le_length)

lemma base64url_block:
  "base64url_encode [a] = [table_char (block24 a 0 0) 18, table_char (block24 a 0 0) 12]"
  "base64url_encode [a, b] = [table_char (block24 a b 0) 18, table_char (block24 a b 0) 12, table_char (block24 a b 0) 6]"
  "base64url_encode (a # b # c # r) =
     [table_char (block24 a b c) 18, table_char (block24 a b c) 12, table_char (block24 a b c) 6,
      table_char (block24 a b c) 0] @ base64url_encode r"
  by (simp_all add: block24_def Let_def)

lemma block24_inj:
  assumes "table_char (block24 a b c) 18 = table_char (block24 a' b' c') 18"
    and "table_char (block24 a b c) 12 = table_char (block24 a' b' c') 12"
  shows "a = a'"
    and "table_char (block24 a b c) 6 = table_char (block24 a' b' c') 6 \<Longrightarrow> b = b'"
    and "table_char (block24 a b c) 6 = table_char (block24 a' b' c') 6 \<Longrightarrow>
      table_char (block24 a b c) 0 = table_char (block24 a' b' c') 0 \<Longrightarrow> c = c'"
proof -
  have hi: "bit (block24 a b c) i = bit (block24 a' b' c') i" if "12 \<le> i" "i < 24" for i
    using table_char_bit[OF assms(1), of i] table_char_bit[OF assms(2), of i] that by linarith
  have byte: "x = y" if "\<And>i. i < 8 \<Longrightarrow> bit x i = bit y i" for x y :: u8
    by (rule bit_word_eqI) (simp add: that)
  show "a = a'"
  proof (rule byte)
    fix i :: nat assume i: "i < 8"
    show "bit a i = bit a' i"
      using hi[of "16 + i"] bit_block24(1)[OF i, of a b c] bit_block24(1)[OF i, of a' b' c'] i by simp
  qed
  assume e6: "table_char (block24 a b c) 6 = table_char (block24 a' b' c') 6"
  have mid: "bit (block24 a b c) i = bit (block24 a' b' c') i" if "6 \<le> i" "i < 24" for i
    using hi[of i] table_char_bit[OF e6, of i] that by linarith
  show "b = b'"
  proof (rule byte)
    fix i :: nat assume i: "i < 8"
    show "bit b i = bit b' i"
      using mid[of "8 + i"] bit_block24(2)[OF i, of a b c] bit_block24(2)[OF i, of a' b' c'] i by simp
  qed
  assume e0: "table_char (block24 a b c) 0 = table_char (block24 a' b' c') 0"
  have lo: "bit (block24 a b c) i = bit (block24 a' b' c') i" if "i < 24" for i
    using mid[of i] table_char_bit[OF e0, of i] that by linarith
  show "c = c'"
  proof (rule byte)
    fix i :: nat assume i: "i < 8"
    show "bit c i = bit c' i"
      using lo[of "i"] bit_block24(3)[OF i, of a b c] bit_block24(3)[OF i, of a' b' c'] i by simp
  qed
qed

lemma base64url_inj: "base64url_encode x = base64url_encode y \<Longrightarrow> x = y"
proof (induction x arbitrary: y rule: base64url_encode.induct)
  case 1
  then show ?case by (cases y rule: base64url_encode.cases) (simp_all add: base64url_block del: base64url_encode.simps(2-))
next
  case (2 a)
  then show ?case
    by (cases y rule: base64url_encode.cases)
      (auto simp: base64url_block dest: block24_inj(1) simp del: base64url_encode.simps(2-))
next
  case (3 a b)
  then show ?case
    by (cases y rule: base64url_encode.cases)
      (auto simp: base64url_block dest: block24_inj(1,2) simp del: base64url_encode.simps(2-))
next
  case (4 a b c r)
  then show ?case
    by (cases y rule: base64url_encode.cases)
      (auto simp: base64url_block dest: block24_inj simp del: base64url_encode.simps(2-))
qed

end
