(* ===== verification/OAuth.thy ===== *)
theory OAuth
  imports OAuth_Encoding Config_Values
begin

text \<open>
  The OAuth requests of \<open>runtime/src/oauth.rs\<close>: PKCE pairs, the authorization URL, the form parameters of
  the token requests, and the parameters of the callback. The random source and SHA-256 are arguments.
\<close>

section \<open>Requests\<close>

record OAuthTokenSet =
  access_token :: rstr
  refresh_token :: "rstr option"
  expires_at :: "u64 option"
  scopes :: "rstr list"

datatype PkceChallengeMethod = S256

record PkceCodePair =
  verifier :: rstr
  challenge :: rstr
  challenge_method :: PkceChallengeMethod

fun challenge_method_str :: "PkceChallengeMethod \<Rightarrow> rstr" where
  "challenge_method_str S256 = lit ''S256''"

record OAuthAuthorizationRequest =
  ar_authorize_url :: rstr
  ar_client_id :: rstr
  ar_redirect_uri :: rstr
  ar_scopes :: "rstr list"
  ar_state :: rstr
  ar_code_challenge :: rstr
  ar_code_challenge_method :: PkceChallengeMethod
  ar_extra_params :: "(rstr \<times> rstr) list"

record OAuthTokenExchangeRequest =
  te_grant_type :: rstr
  te_code :: rstr
  te_redirect_uri :: rstr
  te_client_id :: rstr
  te_code_verifier :: rstr
  te_state :: rstr

record OAuthRefreshRequest =
  rr_grant_type :: rstr
  rr_refresh_token :: rstr
  rr_client_id :: rstr
  rr_scopes :: "rstr list"

record OAuthCallbackParams =
  cb_code :: "rstr option"
  cb_state :: "rstr option"
  cb_error :: "rstr option"
  cb_error_description :: "rstr option"

definition authorization_from_config ::
  "OAuthConfig \<Rightarrow> rstr \<Rightarrow> rstr \<Rightarrow> PkceCodePair \<Rightarrow> OAuthAuthorizationRequest" where
  "authorization_from_config config redirect_uri st pkce =
     \<lparr>ar_authorize_url = oc_authorize_url config, ar_client_id = oc_client_id config,
      ar_redirect_uri = redirect_uri, ar_scopes = oc_scopes config, ar_state = st,
      ar_code_challenge = challenge pkce, ar_code_challenge_method = challenge_method pkce,
      ar_extra_params = []\<rparr>"

definition with_extra_param ::
  "rstr \<Rightarrow> rstr \<Rightarrow> OAuthAuthorizationRequest \<Rightarrow> OAuthAuthorizationRequest" where
  "with_extra_param key value r = r\<lparr>ar_extra_params := bt_insert key value (ar_extra_params r)\<rparr>"

definition url_params :: "OAuthAuthorizationRequest \<Rightarrow> (rstr \<times> rstr) list" where
  "url_params r =
     [(lit ''response_type'', lit ''code''), (lit ''client_id'', ar_client_id r),
      (lit ''redirect_uri'', ar_redirect_uri r), (lit ''scope'', join [32] (ar_scopes r)),
      (lit ''state'', ar_state r), (lit ''code_challenge'', ar_code_challenge r),
      (lit ''code_challenge_method'', challenge_method_str (ar_code_challenge_method r))]
     @ ar_extra_params r"

definition encode_pair :: "rstr \<times> rstr \<Rightarrow> rstr" where
  "encode_pair kv = percent_encode (fst kv) @ [61] @ percent_encode (snd kv)"

definition encode_query :: "(rstr \<times> rstr) list \<Rightarrow> rstr" where
  "encode_query params = join [38] (map encode_pair params)"

definition build_url :: "OAuthAuthorizationRequest \<Rightarrow> rstr" where
  "build_url r =
     ar_authorize_url r @ (if 63 \<in> set (ar_authorize_url r) then [38] else [63])
     @ encode_query (url_params r)"

definition exchange_from_config ::
  "OAuthConfig \<Rightarrow> rstr \<Rightarrow> rstr \<Rightarrow> rstr \<Rightarrow> rstr \<Rightarrow> OAuthTokenExchangeRequest" where
  "exchange_from_config config code st v redirect_uri =
     \<lparr>te_grant_type = lit ''authorization_code'', te_code = code, te_redirect_uri = redirect_uri,
      te_client_id = oc_client_id config, te_code_verifier = v, te_state = st\<rparr>"

definition from_entries :: "(rstr \<times> rstr) list \<Rightarrow> (rstr \<times> rstr) list" where
  "from_entries kvs = fold (\<lambda>(k, v). bt_insert k v) kvs []"

definition exchange_form_params :: "OAuthTokenExchangeRequest \<Rightarrow> (rstr \<times> rstr) list" where
  "exchange_form_params r = from_entries
     [(lit ''grant_type'', te_grant_type r), (lit ''code'', te_code r),
      (lit ''redirect_uri'', te_redirect_uri r), (lit ''client_id'', te_client_id r),
      (lit ''code_verifier'', te_code_verifier r), (lit ''state'', te_state r)]"

definition refresh_from_config :: "OAuthConfig \<Rightarrow> rstr \<Rightarrow> rstr list option \<Rightarrow> OAuthRefreshRequest" where
  "refresh_from_config config token sc =
     \<lparr>rr_grant_type = lit ''refresh_token'', rr_refresh_token = token,
      rr_client_id = oc_client_id config, rr_scopes = unwrap_or (oc_scopes config) sc\<rparr>"

definition refresh_form_params :: "OAuthRefreshRequest \<Rightarrow> (rstr \<times> rstr) list" where
  "refresh_form_params r = from_entries
     [(lit ''grant_type'', rr_grant_type r), (lit ''refresh_token'', rr_refresh_token r),
      (lit ''client_id'', rr_client_id r), (lit ''scope'', join [32] (rr_scopes r))]"

definition generate_random_token :: "(nat \<Rightarrow> 'w \<Rightarrow> (rstr + u8 list) \<times> 'w) \<Rightarrow> nat \<Rightarrow> 'w \<Rightarrow> (rstr + rstr) \<times> 'w" where
  "generate_random_token getrandom n w =
     (case getrandom n w of
        (Inl e, w') \<Rightarrow> (Inl e, w')
      | (Inr buffer, w') \<Rightarrow> (Inr (base64url_encode buffer), w'))"

definition code_challenge_s256 :: "(u8 list \<Rightarrow> u8 list) \<Rightarrow> rstr \<Rightarrow> rstr" where
  "code_challenge_s256 sha256 v = base64url_encode (sha256 (as_bytes v))"

definition generate_pkce_pair ::
  "(nat \<Rightarrow> 'w \<Rightarrow> (rstr + u8 list) \<times> 'w) \<Rightarrow> (u8 list \<Rightarrow> u8 list) \<Rightarrow> 'w \<Rightarrow> (rstr + PkceCodePair) \<times> 'w" where
  "generate_pkce_pair getrandom sha256 w =
     (case generate_random_token getrandom 32 w of
        (Inl e, w') \<Rightarrow> (Inl e, w')
      | (Inr v, w') \<Rightarrow>
          (Inr \<lparr>verifier = v, challenge = code_challenge_s256 sha256 v, challenge_method = S256\<rparr>, w'))"

definition generate_state :: "(nat \<Rightarrow> 'w \<Rightarrow> (rstr + u8 list) \<times> 'w) \<Rightarrow> 'w \<Rightarrow> (rstr + rstr) \<times> 'w" where
  "generate_state getrandom w = generate_random_token getrandom 32 w"

definition loopback_redirect_uri :: "16 word \<Rightarrow> rstr" where
  "loopback_redirect_uri port = lit ''http://localhost:'' @ show_nat (unat port) @ lit ''/callback''"

section \<open>The callback\<close>

definition split_pair :: "rstr \<Rightarrow> rstr \<times> rstr" where
  "split_pair pair = (case split_once [61] pair of None \<Rightarrow> (pair, []) | Some kv \<Rightarrow> kv)"

fun collect_params :: "rstr list \<Rightarrow> (rstr \<times> rstr) list \<Rightarrow> rstr + (rstr \<times> rstr) list" where
  "collect_params [] m = Inr m"
| "collect_params (pair # r) m =
     (let (key, value) = split_pair pair in
      res_bind (percent_decode key) (\<lambda>k.
      res_bind (percent_decode value) (\<lambda>v. collect_params r (bt_insert k v m))))"

definition parse_oauth_callback_query :: "rstr \<Rightarrow> rstr + OAuthCallbackParams" where
  "parse_oauth_callback_query query =
     res_bind (collect_params (filter (\<lambda>p. p \<noteq> []) (split_char 38 query)) []) (\<lambda>params.
     Inr \<lparr>cb_code = bt_get params (lit ''code''), cb_state = bt_get params (lit ''state''),
          cb_error = bt_get params (lit ''error''),
          cb_error_description = bt_get params (lit ''error_description'')\<rparr>)"

definition parse_oauth_callback_request_target :: "rstr \<Rightarrow> rstr + OAuthCallbackParams" where
  "parse_oauth_callback_request_target target =
     (let (p, query) = (case split_once [63] target of None \<Rightarrow> (target, []) | Some pq \<Rightarrow> pq) in
      if p \<noteq> lit ''/callback'' then Inl (lit ''unexpected callback path: '' @ p)
      else parse_oauth_callback_query query)"

definition parse_oauth_callback_input :: "rstr \<Rightarrow> rstr + OAuthCallbackParams" where
  "parse_oauth_callback_input input =
     (let trimmed = trim input in
      if trimmed = [] then Inl (lit ''missing OAuth callback input'')
      else case split_once [63] trimmed of
        Some (p, query) \<Rightarrow> parse_oauth_callback_query query
      | None \<Rightarrow>
          if contains [61] trimmed then parse_oauth_callback_query trimmed
          else Inl (lit ''OAuth callback input must include a query string''))"


section \<open>What a request carries\<close>

lemma encode_pair_chars: "c \<in> set (encode_pair kv) \<Longrightarrow> unreserved_char c \<or> c = 37 \<or> c = 61"
  by (auto simp: encode_pair_def dest: percent_encode_chars)

lemma encode_pair_plain: "38 \<notin> set (encode_pair kv)" "63 \<notin> set (encode_pair kv)" "encode_pair kv \<noteq> []"
  by (auto dest: encode_pair_chars simp: unreserved_char_def) (simp add: encode_pair_def)

lemma split_encode_pair: "split_pair (encode_pair (k, v)) = (percent_encode k, percent_encode v)"
proof -
  have "61 \<notin> set (percent_encode k)" by (auto dest: percent_encode_chars simp: unreserved_char_def)
  then show ?thesis by (simp add: split_pair_def encode_pair_def split_once_char)
qed

definition well_formed_params :: "(rstr \<times> rstr) list \<Rightarrow> bool" where
  "well_formed_params kvs \<longleftrightarrow> (\<forall>(k, v) \<in> set kvs. (\<forall>c \<in> set k. scalar c) \<and> (\<forall>c \<in> set v. scalar c))"

lemma collect_params_encoded:
  "well_formed_params kvs \<Longrightarrow>
     collect_params (map encode_pair kvs) m = Inr (fold (\<lambda>(k, v). bt_insert k v) kvs m)"
  by (induction kvs arbitrary: m)
    (auto simp: well_formed_params_def split_encode_pair percent_decode_encode)

lemma filter_encode_pair: "filter (\<lambda>p. p \<noteq> []) (map encode_pair kvs) = map encode_pair kvs"
  by (simp add: filter_id_conv encode_pair_plain)

lemma collect_encode_query:
  assumes "well_formed_params kvs"
  shows "collect_params (filter (\<lambda>p. p \<noteq> []) (split_char 38 (encode_query kvs))) [] = Inr (from_entries kvs)"
proof (cases "kvs = []")
  case True
  then show ?thesis by (simp add: encode_query_def split_char_def from_entries_def)
next
  case False
  then have "split_char 38 (encode_query kvs) = map encode_pair kvs"
    unfolding encode_query_def by (intro split_char_join) (auto simp: encode_pair_plain)
  then show ?thesis using collect_params_encoded[OF assms, of "[]"]
    by (simp only: filter_encode_pair from_entries_def)
qed

lemma get_from_entries: "bt_get (from_entries kvs) = map_of (rev kvs)"
proof -
  have "bt_get (fold (\<lambda>(k, v). bt_insert k v) kvs m) = bt_get m ++ map_of (rev kvs)" for m
    by (induction kvs arbitrary: m) (auto simp: bt_get_insert)
  then show ?thesis by (simp add: from_entries_def)
qed

definition callback_params :: "(rstr \<times> rstr) list \<Rightarrow> OAuthCallbackParams" where
  "callback_params kvs =
     \<lparr>cb_code = map_of (rev kvs) (lit ''code''), cb_state = map_of (rev kvs) (lit ''state''),
      cb_error = map_of (rev kvs) (lit ''error''),
      cb_error_description = map_of (rev kvs) (lit ''error_description'')\<rparr>"

lemma parse_callback_encoded:
  "well_formed_params kvs \<Longrightarrow> parse_oauth_callback_query (encode_query kvs) = Inr (callback_params kvs)"
  by (simp add: parse_oauth_callback_query_def collect_encode_query get_from_entries callback_params_def)

lemma encode_query_last:
  assumes "kvs \<noteq> []"
  shows "encode_query kvs \<noteq> []" "\<not> is_ws (last (encode_query kvs))"
proof -
  have s: "c \<in> set (encode_query kvs) \<Longrightarrow> unreserved_char c \<or> c = 37 \<or> c = 61 \<or> c = 38" for c
  proof (induction kvs)
    case (Cons kv kvs)
    then show ?case
      by (cases kvs) (auto simp: encode_query_def dest: encode_pair_chars)
  qed (simp add: encode_query_def)
  show n: "encode_query kvs \<noteq> []"
    using assms encode_pair_plain(3) by (cases kvs; cases "tl kvs") (auto simp: encode_query_def)
  show "\<not> is_ws (last (encode_query kvs))"
    using s[OF last_in_set[OF n]] by (auto simp: is_ws_def unreserved_char_def)
qed

text \<open>C27: a callback whose parameters are encoded as the program encodes them is read back: the query gives
  the last value of each of the four parameters the program looks at, whatever bytes they contain, and
  the request target of the loopback server and a pasted address, with blanks around it, are read the
  same way.\<close>

theorem callback_round_trip:
  assumes "well_formed_params kvs" "kvs \<noteq> []"
    and "63 \<notin> set uri" "uri \<noteq> []" "\<not> is_ws (hd uri)"
  shows "parse_oauth_callback_query (encode_query kvs) = Inr (callback_params kvs)
    \<and> parse_oauth_callback_request_target (lit ''/callback?'' @ encode_query kvs) = Inr (callback_params kvs)
    \<and> parse_oauth_callback_input ([32] @ uri @ [63] @ encode_query kvs @ [10]) = Inr (callback_params kvs)"
proof -
  note q = parse_callback_encoded[OF assms(1)]
  have "split_once [63] (lit ''/callback'' @ 63 # encode_query kvs) = Some (lit ''/callback'', encode_query kvs)"
    by (rule split_once_char) (simp add: lit_def)
  moreover have "lit ''/callback?'' = lit ''/callback'' @ [63]" by (simp add: lit_def)
  ultimately have t: "parse_oauth_callback_request_target (lit ''/callback?'' @ encode_query kvs) = Inr (callback_params kvs)"
    using q by (simp add: parse_oauth_callback_request_target_def)
  let ?s = "uri @ [63] @ encode_query kvs"
  obtain c cs where uri: "uri = c # cs" "\<not> is_ws c" using assms(4,5) by (cases uri) auto
  have "trim ([32] @ ?s @ [10]) = trim ?s"
    using uri by (simp add: trim_def trim_by_def trim_end_by_def trim_start_by_def is_ws_def[of 32] is_ws_def[of 10])
  also have "\<dots> = ?s" by (rule trim_id) (use assms(4,5) encode_query_last[OF assms(2)] in simp)
  finally have "trim ([32] @ ?s @ [10]) = ?s" .
  then have "parse_oauth_callback_input ([32] @ ?s @ [10]) = Inr (callback_params kvs)"
    using q assms(3,4) by (simp add: parse_oauth_callback_input_def split_once_char)
  then show ?thesis using q t by simp
qed

text \<open>the authorization URL is the configured address followed by a query that carries exactly the
  parameters of the request: decoding it gives every parameter back, the scopes joined by blanks, and
  nothing in a parameter can add, remove or change another one.\<close>

theorem authorize_url_carries_parameters:
  assumes "well_formed_params (url_params r)"
  shows "split_char 38 (encode_query (url_params r)) = map encode_pair (url_params r)
    \<and> collect (\<lambda>p. res_bind (percent_decode (fst (split_pair p))) (\<lambda>k.
         res_bind (percent_decode (snd (split_pair p))) (\<lambda>v. Inr (k, v))))
        (split_char 38 (encode_query (url_params r))) = Inr (url_params r)
    \<and> (63 \<notin> set (ar_authorize_url r) \<longrightarrow>
        split_once [63] (build_url r) = Some (ar_authorize_url r, encode_query (url_params r)))"
proof -
  have "split_char 38 (encode_query (url_params r)) = map encode_pair (url_params r)"
    unfolding encode_query_def
    by (intro split_char_join) (auto simp: encode_pair_plain url_params_def)
  moreover have "collect (\<lambda>p. res_bind (percent_decode (fst (split_pair p))) (\<lambda>k.
      res_bind (percent_decode (snd (split_pair p))) (\<lambda>v. Inr (k, v)))) (map encode_pair kvs) = Inr kvs"
    if "well_formed_params kvs" for kvs
    using that by (intro collect_map_Inr)
      (fastforce simp: well_formed_params_def split_encode_pair percent_decode_encode)
  ultimately show ?thesis using assms by (auto simp: build_url_def split_once_char)
qed

text \<open>a PKCE pair made from 32 random bytes has a verifier of 43 characters, all unreserved, as RFC 7636
  asks, from which the random bytes can be recovered; its challenge is the unpadded base64url text of
  the digest of the verifier, again 43 characters, and neither text is changed by percent encoding.\<close>

theorem pkce_pair_well_formed:
  assumes "generate_pkce_pair getrandom sha256 w = (Inr pair, w')"
    and "\<And>n w bs w'. getrandom n w = (Inr bs, w') \<Longrightarrow> length bs = n"
    and "\<And>bs. length (sha256 bs) = 32"
  shows "\<exists>bs. getrandom 32 w = (Inr bs, w') \<and> length bs = 32 \<and> verifier pair = base64url_encode bs
    \<and> (\<forall>bs'. base64url_encode bs' = verifier pair \<longrightarrow> bs' = bs)
    \<and> challenge pair = base64url_encode (sha256 (as_bytes (verifier pair)))
    \<and> length (verifier pair) = 43 \<and> length (challenge pair) = 43
    \<and> (\<forall>c \<in> set (verifier pair) \<union> set (challenge pair). unreserved_char c)
    \<and> percent_encode (verifier pair) = verifier pair \<and> percent_encode (challenge pair) = challenge pair"
proof -
  from assms(1) obtain bs where bs: "getrandom 32 w = (Inr bs, w')" "verifier pair = base64url_encode bs"
    "challenge pair = base64url_encode (sha256 (as_bytes (verifier pair)))"
    by (auto simp: generate_pkce_pair_def generate_random_token_def code_challenge_s256_def
        split: prod.splits sum.splits)
  moreover have "length bs = 32" using assms(2)[OF bs(1)] .
  moreover have u: "\<forall>c \<in> set (verifier pair) \<union> set (challenge pair). unreserved_char c"
    using bs(2,3) base64url_chars by auto
  ultimately show ?thesis
    using base64url_inj percent_encode_unreserved assms(3) by (auto simp: base64url_length)
qed

definition demo_request :: OAuthAuthorizationRequest where
  "demo_request = \<lparr>ar_authorize_url = lit ''https://a.example/o'', ar_client_id = lit ''c&d'',
     ar_redirect_uri = lit ''http://localhost:1/callback'', ar_scopes = [lit ''org:read'', [233]],
     ar_state = lit ''s=1'', ar_code_challenge = lit ''x'', ar_code_challenge_method = S256,
     ar_extra_params = []\<rparr>"

theorem authorize_url_carries_parameters_witness:
  "split_once [63] (build_url demo_request)
     = Some (lit ''https://a.example/o'', encode_query (url_params demo_request))"
proof -
  have "well_formed_params (url_params demo_request)"
    by (simp add: well_formed_params_def url_params_def demo_request_def lit_def scalar_def)
  from authorize_url_carries_parameters[OF this]
  show ?thesis by (simp add: demo_request_def lit_def)
qed

theorem callback_round_trip_witness:
  "parse_oauth_callback_input ([32] @ lit ''http://h/callback'' @ [63] @ encode_query [(lit ''code'', lit ''a&b''), (lit ''state'', [233])] @ [10])
     = Inr \<lparr>cb_code = Some (lit ''a&b''), cb_state = Some [233], cb_error = None, cb_error_description = None\<rparr>"
proof -
  have "well_formed_params [(lit ''code'', lit ''a&b''), (lit ''state'', [233])]"
    by (simp add: well_formed_params_def lit_def scalar_def)
  from callback_round_trip[OF this, of "lit ''http://h/callback''"]
  show ?thesis by (simp add: callback_params_def lit_def is_ws_def)
qed

theorem pkce_pair_well_formed_witness:
  "length (verifier \<lparr>verifier = base64url_encode (replicate 32 7),
     challenge = base64url_encode (replicate 32 9), challenge_method = S256\<rparr>) = 43"
  using pkce_pair_well_formed[of "\<lambda>n w. (Inr (replicate n 7), w)" "\<lambda>bs. replicate 32 9" "()"
      "\<lparr>verifier = base64url_encode (replicate 32 7),
        challenge = base64url_encode (replicate 32 9), challenge_method = S256\<rparr>" "()"]
  by (simp add: generate_pkce_pair_def generate_random_token_def code_challenge_s256_def)

end
