(* ===== verification/Paths.thy ===== *)
theory Paths
  imports Rust_Path
begin

text \<open>
  Where the program keeps its files (\<open>runtime/src/paths.rs\<close>, the variant for Unix): the home directories
  as a function of the environment. \<open>env::temp_dir\<close> is an argument.
\<close>

type_synonym env = "rstr \<Rightarrow> rstr option"

record HomeLocations =
  user_home :: path
  codex_home :: path
  openyak_home :: path
  codex_home_from_env :: bool
  openyak_home_from_env :: bool

definition env_path :: "env \<Rightarrow> string \<Rightarrow> path option" where
  "env_path env name =
     (case env (lit name) of None \<Rightarrow> None | Some v \<Rightarrow> if v = [] then None else Some (path_components v))"

definition home_drive_home_path :: "env \<Rightarrow> path option" where
  "home_drive_home_path env =
     (case (env (lit ''HOMEDRIVE''), env (lit ''HOMEPATH'')) of
        (Some d, Some p) \<Rightarrow>
          if d = [] \<or> p = [] then None else Some (path_join (path_components d) (path_components p))
      | _ \<Rightarrow> None)"

definition derive_user_home_from_named_dir :: "path \<Rightarrow> path" where
  "derive_user_home_from_named_dir p = (case path_parent p of None \<Rightarrow> [CurDir] | Some q \<Rightarrow> q)"

fun first_some :: "'a option list \<Rightarrow> 'a \<Rightarrow> 'a" where
  "first_some [] d = d"
| "first_some (None # r) d = first_some r d"
| "first_some (Some x # r) d = x"

definition platform_user_home_dir :: "env \<Rightarrow> path \<Rightarrow> path" where
  "platform_user_home_dir env temp_dir =
     first_some [env_path env ''HOME'', env_path env ''USERPROFILE'', home_drive_home_path env] temp_dir"

definition home_locations :: "env \<Rightarrow> path \<Rightarrow> HomeLocations" where
  "home_locations env temp_dir =
     (let explicit_openyak_home = env_path env ''OPENYAK_CONFIG_HOME'';
          explicit_codex_home = env_path env ''CODEX_HOME'';
          home = first_some [map_option derive_user_home_from_named_dir explicit_openyak_home,
                             map_option derive_user_home_from_named_dir explicit_codex_home]
                   (platform_user_home_dir env temp_dir) in
      \<lparr>user_home = home,
       codex_home = unwrap_or (path_join home [Normal (lit ''.codex'')]) explicit_codex_home,
       openyak_home = unwrap_or (path_join home [Normal (lit ''.openyak'')]) explicit_openyak_home,
       codex_home_from_env = (explicit_codex_home \<noteq> None),
       openyak_home_from_env = (explicit_openyak_home \<noteq> None)\<rparr>)"

definition default_codex_home :: "env \<Rightarrow> path \<Rightarrow> path" where
  "default_codex_home env temp_dir = codex_home (home_locations env temp_dir)"

definition default_openyak_home :: "env \<Rightarrow> path \<Rightarrow> path" where
  "default_openyak_home env temp_dir = openyak_home (home_locations env temp_dir)"

definition legacy_claw_home :: "env \<Rightarrow> path \<Rightarrow> path" where
  "legacy_claw_home env temp_dir =
     unwrap_or (path_join (user_home (home_locations env temp_dir)) [Normal (lit ''.claw'')])
       (env_path env ''CLAW_CONFIG_HOME'')"

text \<open>Unless \<open>OPENYAK_CONFIG_HOME\<close> is set, all the directories hang below one home.\<close>

lemma default_homes:
  assumes "env_path env ''OPENYAK_CONFIG_HOME'' = None" "env_path env ''CODEX_HOME'' = None"
    "env_path env ''CLAW_CONFIG_HOME'' = None"
  shows "default_openyak_home env tmp = path_join (platform_user_home_dir env tmp) [Normal (lit ''.openyak'')]"
    and "default_codex_home env tmp = path_join (platform_user_home_dir env tmp) [Normal (lit ''.codex'')]"
    and "legacy_claw_home env tmp = path_join (platform_user_home_dir env tmp) [Normal (lit ''.claw'')]"
  using assms by (simp_all add: default_openyak_home_def default_codex_home_def legacy_claw_home_def
      home_locations_def Let_def unwrap_or_def)

end
