(* ===== verification/Rust_State.thy ===== *)
theory Rust_State
  imports Rust_Prelude
begin

text \<open>
  Fallible calls that change a state: a call takes the state and returns its result with the next one.
  \<open>io_bind\<close> is the operator \<open>?\<close> after such a call: an error ends the sequence and keeps what was done.
\<close>

definition io_return :: "'a \<Rightarrow> 's \<Rightarrow> ('e + 'a) \<times> 's" where
  "io_return x s = (Inr x, s)"

definition io_bind ::
  "('s \<Rightarrow> ('e + 'a) \<times> 's) \<Rightarrow> ('a \<Rightarrow> 's \<Rightarrow> ('e + 'b) \<times> 's) \<Rightarrow> 's \<Rightarrow> ('e + 'b) \<times> 's" where
  "io_bind m f s = (case m s of (Inl e, s') \<Rightarrow> (Inl e, s') | (Inr x, s') \<Rightarrow> f x s')"

definition io_read :: "('s \<Rightarrow> 'e + 'a) \<Rightarrow> 's \<Rightarrow> ('e + 'a) \<times> 's" where
  "io_read f s = (f s, s)"

definition io_result :: "'e + 'a \<Rightarrow> 's \<Rightarrow> ('e + 'a) \<times> 's" where
  "io_result r s = (r, s)"

text \<open>\<open>let _ = ...\<close>: the error of a call is dropped, its effect stays.\<close>

definition ignore_error :: "('s \<Rightarrow> ('e + unit) \<times> 's) \<Rightarrow> 's \<Rightarrow> ('e + unit) \<times> 's" where
  "ignore_error m s = (Inr (), snd (m s))"

lemma io_bind_Inr_iff:
  "io_bind m f w = (Inr y, w') \<longleftrightarrow> (\<exists>x w1. m w = (Inr x, w1) \<and> f x w1 = (Inr y, w'))"
  by (auto simp: io_bind_def split: prod.split sum.split)

lemma snd_io_bind:
  "snd (io_bind m f w) = (case m w of (Inl e, w') \<Rightarrow> w' | (Inr x, w') \<Rightarrow> snd (f x w'))"
  by (simp add: io_bind_def split: prod.split sum.split)

end
