(* ===== verification/OAuth_Store.thy ===== *)
theory OAuth_Store
  imports OAuth Paths Rust_State
begin

text \<open>
  Where \<open>runtime/src/oauth.rs\<close> keeps credentials: the system's secret store and, if that cannot be
  reached, the file \<open>credentials.json\<close>, with the places of earlier releases. The file system, the
  secret store and \<open>serde_json\<close> are records of the calls the code makes over a world; a call returns
  its result and the next world. This is the build for Linux (a supported system store).
\<close>

datatype IoError = NotFound | OtherError rstr

text \<open>The errors of the secret store, with their texts: no entry, the two kinds that fall back to the file,
  the others.\<close>

datatype KeyringError = NoEntry rstr | PlatformFailure rstr | NoStorageAccess rstr | KeyringOther rstr

record 'w StoreFs =
  sf_read :: "path \<Rightarrow> 'w \<Rightarrow> IoError + rstr"
  sf_exists :: "path \<Rightarrow> 'w \<Rightarrow> bool"
  sf_create_dir_all :: "path \<Rightarrow> 'w \<Rightarrow> (IoError + unit) \<times> 'w"
  sf_set_permissions :: "path \<Rightarrow> nat \<Rightarrow> 'w \<Rightarrow> (IoError + unit) \<times> 'w"
  sf_write_with_mode :: "path \<Rightarrow> nat \<Rightarrow> rstr \<Rightarrow> 'w \<Rightarrow> (IoError + unit) \<times> 'w"
  sf_remove_file :: "path \<Rightarrow> 'w \<Rightarrow> (IoError + unit) \<times> 'w"
  sf_rename :: "path \<Rightarrow> path \<Rightarrow> 'w \<Rightarrow> (IoError + unit) \<times> 'w"

record 'w Keyring =
  kr_new :: "rstr \<Rightarrow> rstr \<Rightarrow> 'w \<Rightarrow> KeyringError + unit"
  kr_get :: "rstr \<Rightarrow> rstr \<Rightarrow> 'w \<Rightarrow> KeyringError + u8 list"
  kr_set :: "rstr \<Rightarrow> rstr \<Rightarrow> u8 list \<Rightarrow> 'w \<Rightarrow> (KeyringError + unit) \<times> 'w"
  kr_delete :: "rstr \<Rightarrow> rstr \<Rightarrow> 'w \<Rightarrow> (KeyringError + unit) \<times> 'w"

text \<open>\<open>serde_json\<close>: values, the members of an object in order, and the derived forms of
  \<open>StoredOAuthCredentials\<close>, whose fields are those of the token set.\<close>

record 'j StoreJson =
  st_from_str :: "rstr \<Rightarrow> rstr + 'j"
  st_object :: "'j \<Rightarrow> (rstr \<times> 'j) list option"
  st_is_null :: "'j \<Rightarrow> bool"
  st_pretty :: "(rstr \<times> 'j) list \<Rightarrow> rstr + rstr"
  st_to_value :: "OAuthTokenSet \<Rightarrow> rstr + 'j"
  st_from_value :: "'j \<Rightarrow> rstr + OAuthTokenSet"
  st_to_vec :: "OAuthTokenSet \<Rightarrow> rstr + u8 list"
  st_from_slice :: "u8 list \<Rightarrow> rstr + OAuthTokenSet"

record ('w, 'j) Store =
  store_fs :: "'w StoreFs"
  store_keyring :: "'w Keyring"
  store_json :: "'j StoreJson"
  store_sha256 :: "u8 list \<Rightarrow> u8 list"
  store_path_text :: "path \<Rightarrow> rstr" \<comment> \<open>\<open>to_string_lossy\<close>\<close>

type_synonym ('w, 'a) io = "'w \<Rightarrow> (IoError + 'a) \<times> 'w"

text \<open>\<open>map_err(|error| io::Error::new(InvalidData, error))\<close>.\<close>

definition invalid_data :: "rstr + 'a \<Rightarrow> IoError + 'a" where
  "invalid_data r = map_sum OtherError id r"

section \<open>The secret store\<close>

definition OAUTH_KEYRING_SERVICE :: rstr where
  "OAUTH_KEYRING_SERVICE = lit ''openyak''"

definition LEGACY_OAUTH_KEYRING_SERVICE :: rstr where
  "LEGACY_OAUTH_KEYRING_SERVICE = lit ''claw-code''"

definition OAUTH_KEYRING_USER_PREFIX :: rstr where
  "OAUTH_KEYRING_USER_PREFIX = lit ''oauth:''"

definition system_store_user :: "('w, 'j) Store \<Rightarrow> path \<Rightarrow> rstr" where
  "system_store_user s p =
     OAUTH_KEYRING_USER_PREFIX
     @ concat (map (\<lambda>b. pad_left 2 48 (show_hex (unat b))) (store_sha256 s (as_bytes (store_path_text s p))))"

fun keyring_error_is_fallbackable :: "KeyringError \<Rightarrow> bool" where
  "keyring_error_is_fallbackable (PlatformFailure e) = True"
| "keyring_error_is_fallbackable (NoStorageAccess e) = True"
| "keyring_error_is_fallbackable (NoEntry e) = False"
| "keyring_error_is_fallbackable (KeyringOther e) = False"

fun keyring_error_to_io :: "KeyringError \<Rightarrow> IoError" where
  "keyring_error_to_io (NoEntry e) = OtherError e"
| "keyring_error_to_io (PlatformFailure e) = OtherError e"
| "keyring_error_to_io (NoStorageAccess e) = OtherError e"
| "keyring_error_to_io (KeyringOther e) = OtherError e"

fun load_secret_from :: "'w Keyring \<Rightarrow> rstr \<Rightarrow> rstr list \<Rightarrow> 'w \<Rightarrow> IoError + u8 list option" where
  "load_secret_from k user [] w = Inr None"
| "load_secret_from k user (service # services) w =
     (case kr_new k service user w of
        Inl e \<Rightarrow> if keyring_error_is_fallbackable e then Inr None else Inl (keyring_error_to_io e)
      | Inr _ \<Rightarrow>
          (case kr_get k service user w of
             Inr secret \<Rightarrow> Inr (Some secret)
           | Inl (NoEntry _) \<Rightarrow> load_secret_from k user services w
           | Inl e \<Rightarrow> if keyring_error_is_fallbackable e then Inr None else Inl (keyring_error_to_io e)))"

definition load_secret_from_system_store :: "('w, 'j) Store \<Rightarrow> path \<Rightarrow> ('w, u8 list option) io" where
  "load_secret_from_system_store s p =
     io_read (load_secret_from (store_keyring s) (system_store_user s p)
       [OAUTH_KEYRING_SERVICE, LEGACY_OAUTH_KEYRING_SERVICE])"

definition save_secret_to_system_store :: "('w, 'j) Store \<Rightarrow> path \<Rightarrow> u8 list \<Rightarrow> ('w, bool) io" where
  "save_secret_to_system_store s p secret w =
     (let k = store_keyring s; user = system_store_user s p in
      case kr_new k OAUTH_KEYRING_SERVICE user w of
        Inl e \<Rightarrow> (if keyring_error_is_fallbackable e then Inr False else Inl (keyring_error_to_io e), w)
      | Inr _ \<Rightarrow>
          (case kr_set k OAUTH_KEYRING_SERVICE user secret w of
             (Inr _, w') \<Rightarrow> (Inr True, w')
           | (Inl e, w') \<Rightarrow>
               (if keyring_error_is_fallbackable e then Inr False else Inl (keyring_error_to_io e), w')))"

fun clear_secret_from :: "'w Keyring \<Rightarrow> rstr \<Rightarrow> rstr list \<Rightarrow> ('w, unit) io" where
  "clear_secret_from k user [] w = (Inr (), w)"
| "clear_secret_from k user (service # services) w =
     (case kr_new k service user w of
        Inl e \<Rightarrow> (if keyring_error_is_fallbackable e then Inr () else Inl (keyring_error_to_io e), w)
      | Inr _ \<Rightarrow>
          (case kr_delete k service user w of
             (Inr _, w') \<Rightarrow> clear_secret_from k user services w'
           | (Inl (NoEntry _), w') \<Rightarrow> clear_secret_from k user services w'
           | (Inl e, w') \<Rightarrow>
               (if keyring_error_is_fallbackable e then Inr () else Inl (keyring_error_to_io e), w')))"

definition clear_secret_from_system_store :: "('w, 'j) Store \<Rightarrow> path \<Rightarrow> ('w, unit) io" where
  "clear_secret_from_system_store s p =
     clear_secret_from (store_keyring s) (system_store_user s p)
       [OAUTH_KEYRING_SERVICE, LEGACY_OAUTH_KEYRING_SERVICE]"

section \<open>The credentials file\<close>

definition read_credentials_root :: "('w, 'j) Store \<Rightarrow> path \<Rightarrow> ('w, (rstr \<times> 'j) list) io" where
  "read_credentials_root s p = io_read (\<lambda>w.
     case sf_read (store_fs s) p w of
       Inl NotFound \<Rightarrow> Inr []
     | Inl e \<Rightarrow> Inl e
     | Inr contents \<Rightarrow>
         if trim contents = [] then Inr []
         else
           res_bind (invalid_data (st_from_str (store_json s) contents)) (\<lambda>v.
           ok_or (OtherError (lit ''credentials file must contain a JSON object''))
             (st_object (store_json s) v)))"

definition parse_oauth_credentials_from_root ::
  "('w, 'j) Store \<Rightarrow> (rstr \<times> 'j) list \<Rightarrow> IoError + OAuthTokenSet option" where
  "parse_oauth_credentials_from_root s root =
     (case bt_get root (lit ''oauth'') of
        None \<Rightarrow> Inr None
      | Some v \<Rightarrow>
          if st_is_null (store_json s) v then Inr None
          else res_bind (invalid_data (st_from_value (store_json s) v)) (\<lambda>t. Inr (Some t)))"

definition path_with_extension :: "path \<Rightarrow> rstr \<Rightarrow> path" where
  "path_with_extension p ext =
     (case path_file_name p of
        None \<Rightarrow> p
      | Some n \<Rightarrow>
          let stem = (case path_extension p of None \<Rightarrow> n | Some e \<Rightarrow> take (length n - length e - 1) n) in
          butlast p @ [Normal (if ext = [] then stem else stem @ [46] @ ext)])"

definition restrict_credentials_dir_permissions :: "('w, 'j) Store \<Rightarrow> path \<Rightarrow> ('w, unit) io" where
  "restrict_credentials_dir_permissions s p = sf_set_permissions (store_fs s) p 448"

definition restrict_credentials_file_permissions :: "('w, 'j) Store \<Rightarrow> path \<Rightarrow> ('w, unit) io" where
  "restrict_credentials_file_permissions s p = sf_set_permissions (store_fs s) p 384"

definition write_restricted_credentials_file :: "('w, 'j) Store \<Rightarrow> path \<Rightarrow> rstr \<Rightarrow> ('w, unit) io" where
  "write_restricted_credentials_file s p contents =
     io_bind (sf_write_with_mode (store_fs s) p 384 contents) (\<lambda>_.
     restrict_credentials_file_permissions s p)"

text \<open>\<open>remove_file\<close> where a missing file is no error.\<close>

definition remove_if_present :: "('w, 'j) Store \<Rightarrow> path \<Rightarrow> ('w, unit) io" where
  "remove_if_present s p w =
     (case sf_remove_file (store_fs s) p w of
        (Inl NotFound, w') \<Rightarrow> (Inr (), w')
      | r \<Rightarrow> r)"

definition replace_credentials_file :: "('w, 'j) Store \<Rightarrow> path \<Rightarrow> path \<Rightarrow> ('w, unit) io" where
  "replace_credentials_file s temp p w =
     io_bind (if sf_exists (store_fs s) p w then remove_if_present s p else io_return ())
       (\<lambda>_. sf_rename (store_fs s) temp p) w"

definition write_credentials_root :: "('w, 'j) Store \<Rightarrow> path \<Rightarrow> (rstr \<times> 'j) list \<Rightarrow> ('w, unit) io" where
  "write_credentials_root s p root =
     io_bind (case path_parent p of
                None \<Rightarrow> io_return ()
              | Some parent \<Rightarrow>
                  io_bind (sf_create_dir_all (store_fs s) parent) (\<lambda>_.
                  restrict_credentials_dir_permissions s parent)) (\<lambda>_.
     io_bind (io_result (invalid_data (st_pretty (store_json s) root))) (\<lambda>rendered.
     let temp = path_with_extension p (lit ''json.tmp'') in
     io_bind (write_restricted_credentials_file s temp (rendered @ [10])) (\<lambda>_.
     io_bind (replace_credentials_file s temp p) (\<lambda>_.
     restrict_credentials_file_permissions s p))))"

definition save_oauth_credentials_to_file :: "('w, 'j) Store \<Rightarrow> path \<Rightarrow> OAuthTokenSet \<Rightarrow> ('w, unit) io" where
  "save_oauth_credentials_to_file s p token_set =
     io_bind (read_credentials_root s p) (\<lambda>root.
     io_bind (io_result (invalid_data (st_to_value (store_json s) token_set))) (\<lambda>v.
     write_credentials_root s p (bt_insert (lit ''oauth'') v root)))"

definition bt_remove :: "'k \<Rightarrow> ('k \<times> 'v) list \<Rightarrow> ('k \<times> 'v) list" where
  "bt_remove k m = filter (\<lambda>kv. fst kv \<noteq> k) m"

definition remove_oauth_credentials_from_file :: "('w, 'j) Store \<Rightarrow> path \<Rightarrow> ('w, unit) io" where
  "remove_oauth_credentials_from_file s p w =
     (if \<not> sf_exists (store_fs s) p w then (Inr (), w)
      else
        io_bind (read_credentials_root s p) (\<lambda>root.
          let root' = bt_remove (lit ''oauth'') root in
          if root' = [] then remove_if_present s p else write_credentials_root s p root') w)"

section \<open>Load, save and clear\<close>

definition load_oauth_credentials_from_file :: "('w, 'j) Store \<Rightarrow> path \<Rightarrow> ('w, OAuthTokenSet option) io" where
  "load_oauth_credentials_from_file s p =
     io_bind (read_credentials_root s p) (\<lambda>root. io_result (parse_oauth_credentials_from_root s root))"

definition load_oauth_credentials_from_secret :: "('w, 'j) Store \<Rightarrow> u8 list \<Rightarrow> IoError + OAuthTokenSet" where
  "load_oauth_credentials_from_secret s secret = invalid_data (st_from_slice (store_json s) secret)"

definition encode_oauth_credentials :: "('w, 'j) Store \<Rightarrow> OAuthTokenSet \<Rightarrow> IoError + u8 list" where
  "encode_oauth_credentials s token_set = invalid_data (st_to_vec (store_json s) token_set)"

definition load_oauth_credentials_from_path :: "('w, 'j) Store \<Rightarrow> path \<Rightarrow> ('w, OAuthTokenSet option) io" where
  "load_oauth_credentials_from_path s p =
     io_bind (load_secret_from_system_store s p) (\<lambda>secret.
     case secret of
       Some b \<Rightarrow> io_result (map_sum id Some (load_oauth_credentials_from_secret s b))
     | None \<Rightarrow>
         io_bind (load_oauth_credentials_from_file s p) (\<lambda>token_set.
         case token_set of
           None \<Rightarrow> io_return None
         | Some t \<Rightarrow>
             io_bind (io_result (encode_oauth_credentials s t)) (\<lambda>encoded.
             io_bind (save_secret_to_system_store s p encoded) (\<lambda>stored.
             io_bind (if stored then remove_oauth_credentials_from_file s p else io_return ()) (\<lambda>_.
             io_return (Some t))))))"

definition persist_oauth_credentials_at_path :: "('w, 'j) Store \<Rightarrow> path \<Rightarrow> OAuthTokenSet \<Rightarrow> ('w, unit) io" where
  "persist_oauth_credentials_at_path s p token_set =
     io_bind (io_result (encode_oauth_credentials s token_set)) (\<lambda>encoded.
     io_bind (save_secret_to_system_store s p encoded) (\<lambda>stored.
     if stored then remove_oauth_credentials_from_file s p
     else save_oauth_credentials_to_file s p token_set))"

definition clear_oauth_credentials_at_path :: "('w, 'j) Store \<Rightarrow> path \<Rightarrow> ('w, unit) io" where
  "clear_oauth_credentials_at_path s p =
     io_bind (remove_oauth_credentials_from_file s p) (\<lambda>_. clear_secret_from_system_store s p)"

definition credentials_path :: "env \<Rightarrow> path \<Rightarrow> path" where
  "credentials_path env temp_dir =
     path_join (default_openyak_home env temp_dir) [Normal (lit ''credentials.json'')]"

definition legacy_credentials_path :: "env \<Rightarrow> path \<Rightarrow> path" where
  "legacy_credentials_path env temp_dir =
     path_join (legacy_claw_home env temp_dir) [Normal (lit ''credentials.json'')]"

definition load_oauth_credentials ::
  "('w, 'j) Store \<Rightarrow> env \<Rightarrow> path \<Rightarrow> ('w, OAuthTokenSet option) io" where
  "load_oauth_credentials s env temp_dir =
     (let current = credentials_path env temp_dir; legacy = legacy_credentials_path env temp_dir in
      io_bind (load_oauth_credentials_from_path s current) (\<lambda>found.
      if found \<noteq> None then io_return found
      else if legacy = current then io_return None
      else
        io_bind (load_oauth_credentials_from_path s legacy) (\<lambda>old.
        case old of
          None \<Rightarrow> io_return None
        | Some t \<Rightarrow>
            io_bind (persist_oauth_credentials_at_path s current t) (\<lambda>_.
            io_bind (ignore_error (clear_oauth_credentials_at_path s legacy)) (\<lambda>_.
            io_return (Some t))))))"

definition save_oauth_credentials ::
  "('w, 'j) Store \<Rightarrow> env \<Rightarrow> path \<Rightarrow> OAuthTokenSet \<Rightarrow> ('w, unit) io" where
  "save_oauth_credentials s env temp_dir token_set =
     (let current = credentials_path env temp_dir; legacy = legacy_credentials_path env temp_dir in
      io_bind (persist_oauth_credentials_at_path s current token_set) (\<lambda>_.
      if legacy \<noteq> current then ignore_error (clear_oauth_credentials_at_path s legacy)
      else io_return ()))"

definition clear_oauth_credentials :: "('w, 'j) Store \<Rightarrow> env \<Rightarrow> path \<Rightarrow> ('w, unit) io" where
  "clear_oauth_credentials s env temp_dir =
     (let current = credentials_path env temp_dir; legacy = legacy_credentials_path env temp_dir in
      io_bind (clear_oauth_credentials_at_path s current) (\<lambda>_.
      if legacy \<noteq> current then ignore_error (clear_oauth_credentials_at_path s legacy)
      else io_return ()))"

end
