(* ===== verification/OAuth_Store_Props.thy ===== *)
theory OAuth_Store_Props
  imports OAuth_Store
begin

text \<open>
  What the credential store promises, over the documented behaviour of the file system, the secret
  store and \<open>serde_json\<close>: saved credentials are the ones that are loaded, as long as no older secret is
  in the way; and where the code falls short of that.
\<close>

section \<open>What a call touches\<close>

text \<open>A call stays within a set of files and a set of users of the secret store.\<close>

definition touches :: "('w, 'j) Store \<Rightarrow> path set \<Rightarrow> rstr set \<Rightarrow> ('w \<Rightarrow> 'r \<times> 'w) \<Rightarrow> bool" where
  "touches s P U m \<longleftrightarrow>
     (\<forall>w. (\<forall>q. q \<notin> P \<longrightarrow> sf_read (store_fs s) q (snd (m w)) = sf_read (store_fs s) q w)
        \<and> (\<forall>v u. kr_new (store_keyring s) v u (snd (m w)) = kr_new (store_keyring s) v u w)
        \<and> (\<forall>v u. u \<notin> U \<longrightarrow> kr_get (store_keyring s) v u (snd (m w)) = kr_get (store_keyring s) v u w))"

lemma touches_mono: "touches s P U m \<Longrightarrow> P \<subseteq> P' \<Longrightarrow> U \<subseteq> U' \<Longrightarrow> touches s P' U' m"
  unfolding touches_def by blast

lemma touchesD:
  assumes "touches s P U m" "m w = (r, w')"
  shows "q \<notin> P \<Longrightarrow> sf_read (store_fs s) q w' = sf_read (store_fs s) q w"
    and "kr_new (store_keyring s) v u w' = kr_new (store_keyring s) v u w"
    and "u \<notin> U \<Longrightarrow> kr_get (store_keyring s) v u w' = kr_get (store_keyring s) v u w"
  using assms(1)[unfolded touches_def, rule_format, of w] assms(2) by simp_all

section \<open>Documented behaviour\<close>

text \<open>A call changes only the files it names and leaves the secrets alone; a call on the secret store
  changes only entries of its user. What a successful call did can be read afterwards, and a refused
  one has changed nothing.\<close>

definition file_laws :: "('w, 'j) Store \<Rightarrow> bool" where
  "file_laws s \<longleftrightarrow>
     (\<forall>p. touches s {} {} (sf_create_dir_all (store_fs s) p))
   \<and> (\<forall>p mode. touches s {} {} (sf_set_permissions (store_fs s) p mode))
   \<and> (\<forall>p mode c. touches s {p} {} (sf_write_with_mode (store_fs s) p mode c))
   \<and> (\<forall>p. touches s {p} {} (sf_remove_file (store_fs s) p))
   \<and> (\<forall>p q. touches s {p, q} {} (sf_rename (store_fs s) p q))
   \<and> (\<forall>p mode c w w'. sf_write_with_mode (store_fs s) p mode c w = (Inr (), w') \<longrightarrow>
        sf_read (store_fs s) p w' = Inr c)
   \<and> (\<forall>p q w w'. sf_rename (store_fs s) p q w = (Inr (), w') \<longrightarrow>
        sf_read (store_fs s) q w' = sf_read (store_fs s) p w)"

definition secret_laws :: "('w, 'j) Store \<Rightarrow> bool" where
  "secret_laws s \<longleftrightarrow>
     (\<forall>v u b. touches s {} {u} (kr_set (store_keyring s) v u b))
   \<and> (\<forall>v u. touches s {} {u} (kr_delete (store_keyring s) v u))
   \<and> (\<forall>v u b w w'. kr_set (store_keyring s) v u b w = (Inr (), w') \<longrightarrow>
        kr_get (store_keyring s) v u w' = Inr b)
   \<and> (\<forall>v u b w e w' v'. kr_set (store_keyring s) v u b w = (Inl e, w') \<longrightarrow>
        kr_get (store_keyring s) v' u w' = kr_get (store_keyring s) v' u w)"

definition json_laws :: "('w, 'j) Store \<Rightarrow> bool" where
  "json_laws s \<longleftrightarrow>
     (\<forall>t b. st_to_vec (store_json s) t = Inr b \<longrightarrow> st_from_slice (store_json s) b = Inr t)
   \<and> (\<forall>t v. st_to_value (store_json s) t = Inr v \<longrightarrow>
        st_from_value (store_json s) v = Inr t \<and> \<not> st_is_null (store_json s) v)
   \<and> (\<forall>root c. st_pretty (store_json s) root = Inr c \<longrightarrow> trim (c @ [10]) \<noteq> []
        \<and> (\<exists>v. st_from_str (store_json s) (c @ [10]) = Inr v \<and> st_object (store_json s) v = Some root))"

section \<open>What the operations touch\<close>

named_theorems touches_intros \<open>what operations touch\<close>

lemma touches_const [touches_intros]:
  "touches s P U (io_return x)" "touches s P U (io_read f)" "touches s P U (io_result r)"
  by (simp_all add: touches_def io_return_def io_read_def io_result_def)

lemma touches_bind [touches_intros]:
  assumes "touches s P U m" "\<And>x. touches s P U (f x)"
  shows "touches s P U (io_bind m f)"
  using assms unfolding touches_def snd_io_bind by (auto split: prod.splits sum.splits) (metis snd_conv)+

lemma touches_ignore [touches_intros]: "touches s P U m \<Longrightarrow> touches s P U (ignore_error m)"
  by (simp add: touches_def ignore_error_def)

lemma touches_if [touches_intros]:
  "touches s P U m \<Longrightarrow> touches s P U n \<Longrightarrow> touches s P U (if c then m else n)"
  by simp

lemma touches_calls [touches_intros]:
  assumes "file_laws s"
  shows "touches s P U (sf_create_dir_all (store_fs s) p)"
    and "touches s P U (sf_set_permissions (store_fs s) p mode)"
    and "p \<in> P \<Longrightarrow> touches s P U (sf_write_with_mode (store_fs s) p mode c)"
    and "p \<in> P \<Longrightarrow> touches s P U (sf_remove_file (store_fs s) p)"
    and "p \<in> P \<Longrightarrow> q \<in> P \<Longrightarrow> touches s P U (sf_rename (store_fs s) p q)"
  using assms unfolding file_laws_def by (meson touches_mono empty_subsetI insert_subset)+

abbreviation temp_path :: "path \<Rightarrow> path" where
  "temp_path p \<equiv> path_with_extension p (lit ''json.tmp'')"

lemma touches_remove_if_present [touches_intros]:
  "file_laws s \<Longrightarrow> p \<in> P \<Longrightarrow> touches s P U (remove_if_present s p)"
proof -
  have "snd (remove_if_present s p w) = snd (sf_remove_file (store_fs s) p w)" for w
    by (auto simp: remove_if_present_def split: prod.split sum.split IoError.split)
  then show "file_laws s \<Longrightarrow> p \<in> P \<Longrightarrow> touches s P U (remove_if_present s p)"
    using touches_calls(4)[of s p P U] by (simp add: touches_def)
qed

lemma touches_replace [touches_intros]:
  assumes "file_laws s" "p \<in> P" "temp \<in> P"
  shows "touches s P U (replace_credentials_file s temp p)"
proof -
  have "touches s P U (io_bind (if b then remove_if_present s p else io_return ())
     (\<lambda>_. sf_rename (store_fs s) temp p))" for b
    using assms by (auto intro!: touches_intros)
  then show ?thesis unfolding touches_def replace_credentials_file_def by blast
qed

lemma touches_write_root [touches_intros]:
  "file_laws s \<Longrightarrow> {p, temp_path p} \<subseteq> P \<Longrightarrow> touches s P U (write_credentials_root s p root)"
  unfolding write_credentials_root_def Let_def write_restricted_credentials_file_def
    restrict_credentials_file_permissions_def restrict_credentials_dir_permissions_def
  by (auto intro!: touches_intros split: option.split)

lemma touches_remove_oauth [touches_intros]:
  assumes "file_laws s" "{p, temp_path p} \<subseteq> P"
  shows "touches s P U (remove_oauth_credentials_from_file s p)"
proof -
  have "touches s P U (io_bind (read_credentials_root s p) (\<lambda>root.
      let root' = bt_remove (lit ''oauth'') root in
      if root' = [] then remove_if_present s p else write_credentials_root s p root'))"
    using assms unfolding read_credentials_root_def Let_def by (auto intro!: touches_intros)
  moreover have "touches s P U (io_return ())" by (rule touches_const)
  ultimately show ?thesis
    unfolding touches_def remove_oauth_credentials_from_file_def io_return_def by simp
qed

lemma touches_clear_secret_from:
  assumes "secret_laws s" "u \<in> U"
  shows "touches s P U (clear_secret_from (store_keyring s) u services)"
proof -
  have d: "touches s P U (kr_delete (store_keyring s) v u)" for v
    using assms unfolding secret_laws_def by (meson touches_mono empty_subsetI insert_subset)
  show ?thesis unfolding touches_def
  proof
    fix w
    show "(\<forall>q. q \<notin> P \<longrightarrow> sf_read (store_fs s) q (snd (clear_secret_from (store_keyring s) u services w)) = sf_read (store_fs s) q w)
      \<and> (\<forall>v u'. kr_new (store_keyring s) v u' (snd (clear_secret_from (store_keyring s) u services w)) = kr_new (store_keyring s) v u' w)
      \<and> (\<forall>v u'. u' \<notin> U \<longrightarrow> kr_get (store_keyring s) v u' (snd (clear_secret_from (store_keyring s) u services w)) = kr_get (store_keyring s) v u' w)"
    proof (induction services arbitrary: w)
      case (Cons service services)
      show ?case
      proof (cases "kr_delete (store_keyring s) service u w")
        case (Pair r w')
        note t = touchesD[OF d Pair]
        show ?thesis using Pair t Cons.IH[of w'] by (auto split: sum.splits KeyringError.splits)
      qed
    qed simp
  qed
qed

lemma touches_clear [touches_intros]:
  assumes "file_laws s" "secret_laws s" "{p, temp_path p} \<subseteq> P" "system_store_user s p \<in> U"
  shows "touches s P U (clear_oauth_credentials_at_path s p)"
  unfolding clear_oauth_credentials_at_path_def clear_secret_from_system_store_def
  using assms by (auto intro!: touches_intros touches_clear_secret_from)

section \<open>Saving and loading\<close>

abbreviation "store_services \<equiv> [OAUTH_KEYRING_SERVICE, LEGACY_OAUTH_KEYRING_SERVICE]"

text \<open>No secret is found for a path.\<close>

definition no_secret :: "('w, 'j) Store \<Rightarrow> path \<Rightarrow> 'w \<Rightarrow> bool" where
  "no_secret s p w \<longleftrightarrow> load_secret_from (store_keyring s) (system_store_user s p) store_services w = Inr None"

text \<open>The two places where a token set can be: its bytes in the secret store, or the member of the file
  while the secret store has nothing.\<close>

definition in_secret_store :: "('w, 'j) Store \<Rightarrow> path \<Rightarrow> OAuthTokenSet \<Rightarrow> 'w \<Rightarrow> bool" where
  "in_secret_store s p t w \<longleftrightarrow>
     kr_new (store_keyring s) OAUTH_KEYRING_SERVICE (system_store_user s p) w = Inr ()
   \<and> (\<exists>b. kr_get (store_keyring s) OAUTH_KEYRING_SERVICE (system_store_user s p) w = Inr b
        \<and> st_from_slice (store_json s) b = Inr t)"

definition in_file :: "('w, 'j) Store \<Rightarrow> path \<Rightarrow> OAuthTokenSet \<Rightarrow> 'w \<Rightarrow> bool" where
  "in_file s p t w \<longleftrightarrow>
     no_secret s p w
   \<and> (\<exists>root v. fst (read_credentials_root s p w) = Inr root \<and> bt_get root (lit ''oauth'') = Some v
        \<and> \<not> st_is_null (store_json s) v \<and> st_from_value (store_json s) v = Inr t)"

lemma load_secret_from_cong:
  assumes "\<And>v. kr_get k v u w' = kr_get k v u w" "\<And>v. kr_new k v u w' = kr_new k v u w"
  shows "load_secret_from k u services w' = load_secret_from k u services w"
  using assms by (induction services) (auto split: sum.split KeyringError.split)

lemma no_secret_cong:
  assumes "\<And>v. kr_get (store_keyring s) v (system_store_user s p) w' = kr_get (store_keyring s) v (system_store_user s p) w"
    "\<And>v. kr_new (store_keyring s) v (system_store_user s p) w' = kr_new (store_keyring s) v (system_store_user s p) w"
  shows "no_secret s p w' = no_secret s p w"
  unfolding no_secret_def by (subst load_secret_from_cong[OF assms]) (rule refl)

lemma places_stay:
  assumes "touches s P U m" "m w = (r, w')" "p \<notin> P" "system_store_user s p \<notin> U"
  shows "in_secret_store s p t w \<Longrightarrow> in_secret_store s p t w'"
    and "in_file s p t w \<Longrightarrow> in_file s p t w'"
proof -
  note t = touchesD[OF assms(1,2)]
  show "in_secret_store s p t w \<Longrightarrow> in_secret_store s p t w'"
    using t(2,3) assms(4) by (simp add: in_secret_store_def)
  have "no_secret s p w' = no_secret s p w"
    by (rule no_secret_cong) (use t(2,3) assms(4) in auto)
  moreover have "fst (read_credentials_root s p w') = fst (read_credentials_root s p w)"
    using t(1)[OF assms(3)] by (simp add: read_credentials_root_def io_read_def)
  ultimately show "in_file s p t w \<Longrightarrow> in_file s p t w'" by (simp add: in_file_def)
qed

lemma temp_path_neq: "path_file_name p = Some (lit ''credentials.json'') \<Longrightarrow>
    path_file_name q = Some (lit ''credentials.json'') \<Longrightarrow> p \<noteq> temp_path q"
proof -
  assume p: "path_file_name p = Some (lit ''credentials.json'')"
    and q: "path_file_name q = Some (lit ''credentials.json'')"
  have "path_extension q = Some (lit ''json'')" using q by (simp add: path_extension_def after_last_def lit_def)
  then have "temp_path q = butlast q @ [Normal (lit ''credentials.json.tmp'')]"
    using q by (simp add: path_with_extension_def lit_def)
  then have "path_file_name (temp_path q) = Some (lit ''credentials.json.tmp'')"
    by (simp add: path_file_name_def)
  then show "p \<noteq> temp_path q" using p by auto
qed

lemma touches_save_secret [touches_intros]:
  assumes "secret_laws s" "system_store_user s p \<in> U"
  shows "touches s P U (save_secret_to_system_store s p b)"
proof -
  have "touches s P U (kr_set (store_keyring s) OAUTH_KEYRING_SERVICE (system_store_user s p) b)"
    using assms unfolding secret_laws_def by (meson touches_mono empty_subsetI insert_subset)
  moreover have "snd (save_secret_to_system_store s p b w) =
      (case kr_new (store_keyring s) OAUTH_KEYRING_SERVICE (system_store_user s p) w of Inl e \<Rightarrow> w
       | Inr _ \<Rightarrow> snd (kr_set (store_keyring s) OAUTH_KEYRING_SERVICE (system_store_user s p) b w))" for w
    by (simp add: save_secret_to_system_store_def Let_def split: sum.split prod.split)
  ultimately show ?thesis by (simp add: touches_def split: sum.split)
qed

lemma save_secret_result:
  assumes "secret_laws s" "json_laws s" "no_secret s p w" "st_to_vec (store_json s) t = Inr b"
    and "save_secret_to_system_store s p b w = (Inr stored, w1)"
  shows "if stored then in_secret_store s p t w1 else no_secret s p w1"
proof (cases "kr_new (store_keyring s) OAUTH_KEYRING_SERVICE (system_store_user s p) w")
  case (Inl e)
  then show ?thesis using assms(3,5)
    by (simp add: save_secret_to_system_store_def Let_def split: if_splits)
next
  case (Inr u)
  let ?set = "kr_set (store_keyring s) OAUTH_KEYRING_SERVICE (system_store_user s p) b"
  obtain r w2 where s: "?set w = (r, w2)" by fastforce
  have "touches s {} {system_store_user s p} ?set" using assms(1) by (simp add: secret_laws_def)
  note t = touchesD(2)[OF this s]
  show ?thesis
  proof (cases r)
    case R: (Inr x)
    then have "stored" "w1 = w2" using assms(5) Inr s by (simp_all add: save_secret_to_system_store_def Let_def)
    moreover have "kr_get (store_keyring s) OAUTH_KEYRING_SERVICE (system_store_user s p) w2 = Inr b"
      using assms(1) s R unfolding secret_laws_def by simp
    moreover have "st_from_slice (store_json s) b = Inr t" using assms(2,4) by (simp add: json_laws_def)
    ultimately show ?thesis using t Inr by (simp add: in_secret_store_def)
  next
    case L: (Inl e)
    then have "\<not> stored" "w1 = w2"
      using assms(5) Inr s by (simp_all add: save_secret_to_system_store_def Let_def split: if_splits)
    moreover have "kr_get (store_keyring s) v (system_store_user s p) w2
        = kr_get (store_keyring s) v (system_store_user s p) w" for v
      using assms(1) s L unfolding secret_laws_def by blast
    ultimately show ?thesis using assms(3) t no_secret_cong[of s p w2 w] by simp
  qed
qed

lemma write_root_result:
  assumes "file_laws s" "json_laws s" "path_file_name p = Some (lit ''credentials.json'')"
    and "write_credentials_root s p root w = (Inr (), w')"
  shows "fst (read_credentials_root s p w') = Inr root"
proof -
  let ?t = "temp_path p"
  have d: "p \<noteq> ?t" using temp_path_neq[OF assms(3,3)] .
  obtain c w1 w2 w3 where c: "st_pretty (store_json s) root = Inr c"
    and wr: "write_restricted_credentials_file s ?t (c @ [10]) w1 = (Inr (), w2)"
    and rp: "replace_credentials_file s ?t p w2 = (Inr (), w3)"
    and sp: "restrict_credentials_file_permissions s p w3 = (Inr (), w')"
    using assms(4) unfolding write_credentials_root_def Let_def
    by (auto simp: io_bind_Inr_iff io_result_def invalid_data_def map_sum_Inr_iff)
  have "sf_read (store_fs s) ?t w2 = Inr (c @ [10])"
    using wr assms(1) touchesD(1)[OF touches_calls(2)[OF assms(1)], of _ _ _ _ _ ?t "{}"]
    unfolding write_restricted_credentials_file_def restrict_credentials_file_permissions_def
    by (fastforce simp: io_bind_Inr_iff file_laws_def)
  moreover obtain w4 where w4: "(if sf_exists (store_fs s) p w2 then remove_if_present s p else io_return ()) w2
      = (Inr (), w4)" "sf_rename (store_fs s) ?t p w4 = (Inr (), w3)"
    using rp unfolding replace_credentials_file_def by (auto simp: io_bind_Inr_iff)
  moreover have "touches s {p} {} (if sf_exists (store_fs s) p w2 then remove_if_present s p else io_return ())"
    by (intro touches_intros assms(1)) simp
  note touchesD(1)[OF this w4(1), of ?t]
  ultimately have "sf_read (store_fs s) p w3 = Inr (c @ [10])"
    using d assms(1) unfolding file_laws_def by (metis insertE singletonD)
  then have "sf_read (store_fs s) p w' = Inr (c @ [10])"
    using sp touchesD(1)[OF touches_calls(2)[OF assms(1)], of p _ w3 _ w' p "{}"]
    by (simp add: restrict_credentials_file_permissions_def)
  moreover from c assms(2) obtain v where "trim (c @ [10]) \<noteq> []"
    "st_from_str (store_json s) (c @ [10]) = Inr v" "st_object (store_json s) v = Some root"
    unfolding json_laws_def by blast
  ultimately show ?thesis by (simp add: read_credentials_root_def io_read_def invalid_data_def)
qed

lemma persist_result:
  assumes "file_laws s" "secret_laws s" "json_laws s" "path_file_name p = Some (lit ''credentials.json'')"
    and "no_secret s p w" "persist_oauth_credentials_at_path s p t w = (Inr (), w')"
  shows "in_secret_store s p t w' \<or> in_file s p t w'"
proof -
  obtain b stored w1 where b: "st_to_vec (store_json s) t = Inr b"
    and sv: "save_secret_to_system_store s p b w = (Inr stored, w1)"
    and r: "(if stored then remove_oauth_credentials_from_file s p
             else save_oauth_credentials_to_file s p t) w1 = (Inr (), w')"
    using assms(6) unfolding persist_oauth_credentials_at_path_def encode_oauth_credentials_def
    by (auto simp: io_bind_Inr_iff io_result_def invalid_data_def map_sum_Inr_iff)
  note res = save_secret_result[OF assms(2,3,5) b sv]
  show ?thesis
  proof (cases stored)
    case True
    have "kr_get (store_keyring s) v u w' = kr_get (store_keyring s) v u w1"
      "kr_new (store_keyring s) v u w' = kr_new (store_keyring s) v u w1" for v u
      using r True touchesD(2,3)[OF touches_remove_oauth[OF assms(1), of p UNIV "{}"], of w1 _ w'] by auto
    then show ?thesis using res True by (simp add: in_secret_store_def)
  next
    case False
    then obtain root v where v: "fst (read_credentials_root s p w1) = Inr root"
      "st_to_value (store_json s) t = Inr v"
      "write_credentials_root s p (bt_insert (lit ''oauth'') v root) w1 = (Inr (), w')"
      using r unfolding save_oauth_credentials_to_file_def
      by (auto simp: io_bind_Inr_iff io_result_def invalid_data_def map_sum_Inr_iff read_credentials_root_def io_read_def)
    have "touches s UNIV {} (write_credentials_root s p (bt_insert (lit ''oauth'') v root))"
      by (intro touches_intros assms(1)) simp
    note t = touchesD(2,3)[OF this v(3)]
    have "no_secret s p w'" using res False t no_secret_cong[of s p w' w1] by simp
    then show ?thesis
      using write_root_result[OF assms(1,3,4) v(3)] assms(3) v(2)
      by (auto simp: in_file_def json_laws_def bt_get_insert)
  qed
qed

lemma load_from_path:
  assumes "in_secret_store s p t w \<or> in_file s p t w"
    and "load_oauth_credentials_from_path s p w = (Inr r, w')"
  shows "r = Some t"
  using assms(1)
proof
  assume "in_secret_store s p t w"
  then show ?thesis using assms(2)
    by (auto simp: in_secret_store_def load_oauth_credentials_from_path_def io_bind_def io_read_def io_result_def
        load_secret_from_system_store_def load_oauth_credentials_from_secret_def invalid_data_def)
next
  assume "in_file s p t w"
  then show ?thesis using assms(2)
    by (auto simp: in_file_def no_secret_def load_oauth_credentials_from_path_def io_bind_Inr_iff io_read_def
        io_result_def load_secret_from_system_store_def load_oauth_credentials_from_file_def
        parse_oauth_credentials_from_root_def invalid_data_def read_credentials_root_def io_return_def
        split: option.splits prod.splits)
qed

text \<open>credentials that were saved are the ones that are loaded: if no older secret was found for the
  current place, then after a successful save a successful load gives exactly the token set that was
  saved, whether the secret store took it or the file had to, and whatever happened to the credentials
  of an earlier release on the way.\<close>

theorem saved_credentials_are_loaded:
  assumes "file_laws s" "secret_laws s" "json_laws s"
    and "no_secret s (credentials_path env tmp) w"
    and "legacy_credentials_path env tmp \<noteq> credentials_path env tmp \<Longrightarrow>
      system_store_user s (legacy_credentials_path env tmp) \<noteq> system_store_user s (credentials_path env tmp)"
    and "save_oauth_credentials s env tmp t w = (Inr (), w1)"
    and "load_oauth_credentials s env tmp w1 = (Inr r, w2)"
  shows "r = Some t"
proof -
  let ?p = "credentials_path env tmp" let ?q = "legacy_credentials_path env tmp"
  have names: "path_file_name ?p = Some (lit ''credentials.json'')" "path_file_name ?q = Some (lit ''credentials.json'')"
    by (simp_all add: credentials_path_def legacy_credentials_path_def path_file_name_def)
  obtain w3 where w3: "persist_oauth_credentials_at_path s ?p t w = (Inr (), w3)"
    "(if ?q \<noteq> ?p then ignore_error (clear_oauth_credentials_at_path s ?q) else io_return ()) w3 = (Inr (), w1)"
    using assms(6) by (auto simp: save_oauth_credentials_def Let_def io_bind_Inr_iff)
  note here = persist_result[OF assms(1-3) names(1) assms(4) w3(1)]
  have "in_secret_store s ?p t w1 \<or> in_file s ?p t w1"
  proof (cases "?q = ?p")
    case True
    then show ?thesis using here w3(2) by (simp add: io_return_def)
  next
    case False
    have "touches s {?q, temp_path ?q} {system_store_user s ?q} (ignore_error (clear_oauth_credentials_at_path s ?q))"
      by (intro touches_intros assms(1,2)) simp_all
    from places_stay[OF this] show ?thesis
      using here w3(2) False assms(5) temp_path_neq[OF names] by auto
  qed
  moreover obtain f w4 where f: "load_oauth_credentials_from_path s ?p w1 = (Inr f, w4)"
    "f \<noteq> None \<Longrightarrow> r = f"
    using assms(7) by (fastforce simp: load_oauth_credentials_def Let_def io_bind_Inr_iff io_return_def split: if_splits)
  ultimately show ?thesis using load_from_path[of s ?p t w1 f w4] by auto
qed

section \<open>A store to run on\<close>

text \<open>Files and secrets are maps; a locked secret store refuses every access. The JSON of this store knows
  objects with one member \<open>oauth\<close> and token sets with nothing but an access token.\<close>

record World =
  w_files :: "path \<Rightarrow> rstr option"
  w_secrets :: "rstr \<Rightarrow> rstr \<Rightarrow> u8 list option"
  w_locked :: bool

definition demo_store_fs :: "World StoreFs" where
  "demo_store_fs =
     \<lparr>sf_read = (\<lambda>p w. case w_files w p of None \<Rightarrow> Inl NotFound | Some c \<Rightarrow> Inr c),
      sf_exists = (\<lambda>p w. w_files w p \<noteq> None),
      sf_create_dir_all = (\<lambda>p w. (Inr (), w)),
      sf_set_permissions = (\<lambda>p m w. (Inr (), w)),
      sf_write_with_mode = (\<lambda>p m c w. (Inr (), w\<lparr>w_files := (w_files w)(p := Some c)\<rparr>)),
      sf_remove_file = (\<lambda>p w. (Inr (), w\<lparr>w_files := (w_files w)(p := None)\<rparr>)),
      sf_rename = (\<lambda>p q w. case w_files w p of
          None \<Rightarrow> (Inl NotFound, w)
        | Some c \<Rightarrow> (Inr (), w\<lparr>w_files := (w_files w)(p := None, q := Some c)\<rparr>))\<rparr>"

definition demo_keyring :: "World Keyring" where
  "demo_keyring =
     \<lparr>kr_new = (\<lambda>v u w. Inr ()),
      kr_get = (\<lambda>v u w. if w_locked w then Inl (NoStorageAccess [])
         else case w_secrets w v u of None \<Rightarrow> Inl (NoEntry []) | Some b \<Rightarrow> Inr b),
      kr_set = (\<lambda>v u b w. if w_locked w then (Inl (NoStorageAccess []), w)
         else (Inr (), w\<lparr>w_secrets := (w_secrets w)(v := (w_secrets w v)(u := Some b))\<rparr>)),
      kr_delete = (\<lambda>v u w. if w_locked w then (Inl (NoStorageAccess []), w)
         else if w_secrets w v u = None then (Inl (NoEntry []), w)
         else (Inr (), w\<lparr>w_secrets := (w_secrets w)(v := (w_secrets w v)(u := None))\<rparr>))\<rparr>"

definition plain_token :: "rstr \<Rightarrow> OAuthTokenSet" where
  "plain_token a = \<lparr>access_token = a, refresh_token = None, expires_at = None, scopes = []\<rparr>"

definition is_plain :: "OAuthTokenSet \<Rightarrow> bool" where
  "is_plain t \<longleftrightarrow> t = plain_token (access_token t) \<and> (\<forall>c \<in> set (access_token t). c < 128)"

definition demo_json :: "rstr StoreJson" where
  "demo_json =
     \<lparr>st_from_str = (\<lambda>c. if c \<noteq> [] \<and> hd c = 123 then Inr (butlast c) else Inl (lit ''expected value'')),
      st_object = (\<lambda>v. if v = [] then None else Some [(lit ''oauth'', tl v)]),
      st_is_null = (\<lambda>v. v = []),
      st_pretty = (\<lambda>root. case root of
          [(k, v)] \<Rightarrow> if k = lit ''oauth'' then Inr (123 # v) else Inl [] | _ \<Rightarrow> Inl []),
      st_to_value = (\<lambda>t. if is_plain t then Inr (34 # access_token t) else Inl []),
      st_from_value = (\<lambda>v. Inr (plain_token (tl v))),
      st_to_vec = (\<lambda>t. if is_plain t then Inr (map of_nat (access_token t)) else Inl []),
      st_from_slice = (\<lambda>b. Inr (plain_token (map unat b)))\<rparr>"

definition demo_store :: "(World, rstr) Store" where
  "demo_store = \<lparr>store_fs = demo_store_fs, store_keyring = demo_keyring, store_json = demo_json,
     store_sha256 = id, store_path_text = concat \<circ> map (\<lambda>c. case c of Normal n \<Rightarrow> n | _ \<Rightarrow> [])\<rparr>"

lemma demo_laws: "file_laws demo_store" "secret_laws demo_store" "json_laws demo_store"
proof -
  show "file_laws demo_store"
    by (auto simp: file_laws_def touches_def demo_store_def demo_store_fs_def demo_keyring_def split: option.splits)
  show "secret_laws demo_store"
    by (auto simp: secret_laws_def touches_def demo_store_def demo_store_fs_def demo_keyring_def
        split: if_splits option.splits)
  have "map unat (map of_nat (access_token t) :: u8 list) = access_token t" if "is_plain t" for t
    using that map_unat_of_nat[of "access_token t"] by (fastforce simp: is_plain_def)
  then show "json_laws demo_store"
    by (auto simp: json_laws_def demo_store_def demo_json_def trim_Nil_iff is_ws_def is_plain_def[symmetric]
        split: if_splits list.splits) (auto simp: is_plain_def)
qed

text \<open>\<open>HOME\<close> is \<open>/h\<close>; nothing else is set.\<close>

definition demo_env :: env where
  "demo_env name = (if name = lit ''HOME'' then Some (lit ''/h'') else None)"

lemma demo_paths:
  "credentials_path demo_env [] = [RootDir, Normal (lit ''h''), Normal (lit ''.openyak''), Normal (lit ''credentials.json'')]"
  "legacy_credentials_path demo_env [] = [RootDir, Normal (lit ''h''), Normal (lit ''.claw''), Normal (lit ''credentials.json'')]"
proof -
  have h: "path_components (lit ''/h'') = [RootDir, Normal (lit ''h'')]"
    by (simp add: lit_def path_components_def split_char_def)
  show "credentials_path demo_env [] = [RootDir, Normal (lit ''h''), Normal (lit ''.openyak''), Normal (lit ''credentials.json'')]"
    "legacy_credentials_path demo_env [] = [RootDir, Normal (lit ''h''), Normal (lit ''.claw''), Normal (lit ''credentials.json'')]"
    by (simp_all add: credentials_path_def legacy_credentials_path_def default_openyak_home_def legacy_claw_home_def
        home_locations_def platform_user_home_dir_def home_drive_home_path_def env_path_def demo_env_def h
        Let_def unwrap_or_def)
qed

abbreviation "demo_user \<equiv> system_store_user demo_store (credentials_path demo_env [])"
abbreviation "demo_legacy_user \<equiv> system_store_user demo_store (legacy_credentials_path demo_env [])"

lemma demo_users: "demo_legacy_user \<noteq> demo_user"
  unfolding demo_paths by code_simp

definition world :: "rstr option \<Rightarrow> u8 list option \<Rightarrow> bool \<Rightarrow> World" where
  "world file secret locked =
     \<lparr>w_files = (\<lambda>p. if p = credentials_path demo_env [] then file else None),
      w_secrets = (\<lambda>v u. if v = OAUTH_KEYRING_SERVICE \<and> u = demo_user then secret else None),
      w_locked = locked\<rparr>"

lemma demo_parts:
  "store_fs demo_store = demo_store_fs" "store_keyring demo_store = demo_keyring" "store_json demo_store = demo_json"
  by (simp_all add: demo_store_def)

lemmas io_defs = io_bind_def io_return_def io_read_def io_result_def invalid_data_def ignore_error_def Let_def

lemmas store_defs = save_oauth_credentials_def load_oauth_credentials_def clear_oauth_credentials_def
  clear_oauth_credentials_at_path_def persist_oauth_credentials_at_path_def load_oauth_credentials_from_path_def
  encode_oauth_credentials_def load_oauth_credentials_from_secret_def load_oauth_credentials_from_file_def
  remove_oauth_credentials_from_file_def save_oauth_credentials_to_file_def write_credentials_root_def
  replace_credentials_file_def remove_if_present_def write_restricted_credentials_file_def
  restrict_credentials_file_permissions_def restrict_credentials_dir_permissions_def
  parse_oauth_credentials_from_root_def read_credentials_root_def
  clear_secret_from_system_store_def save_secret_to_system_store_def load_secret_from_system_store_def

lemma demo_temp: "temp_path (credentials_path demo_env []) =
    [RootDir, Normal (lit ''h''), Normal (lit ''.openyak''), Normal (lit ''credentials.json.tmp'')]"
  unfolding demo_paths
  by (simp add: path_with_extension_def path_file_name_def path_extension_def after_last_def lit_def)

lemma demo_services: "LEGACY_OAUTH_KEYRING_SERVICE \<noteq> OAUTH_KEYRING_SERVICE"
  by (simp add: OAUTH_KEYRING_SERVICE_def LEGACY_OAUTH_KEYRING_SERVICE_def)

lemma demo_save_locked:
  assumes "is_plain t"
  shows "save_oauth_credentials demo_store demo_env [] t (world None secret True) =
    (Inr (), world (Some (123 # 34 # access_token t @ [10])) secret True)"
  using assms demo_temp unfolding store_defs io_defs demo_parts
  by (simp add: demo_store_fs_def demo_keyring_def demo_json_def world_def demo_users demo_paths path_parent_def fun_eq_iff)

lemma demo_load_locked:
  "fst (load_oauth_credentials demo_store demo_env [] (world (Some (123 # 34 # a @ [10])) secret True))
     = (if is_plain (plain_token a) then Inr (Some (plain_token a)) else Inl (OtherError []))"
  using demo_temp unfolding store_defs io_defs demo_parts
  by (auto simp: demo_store_fs_def demo_keyring_def demo_json_def world_def trim_Nil_iff is_ws_def)

lemma demo_load_secret:
  "load_oauth_credentials demo_store demo_env [] (world file (Some b) False)
     = (Inr (Some (plain_token (map unat b))), world file (Some b) False)"
  unfolding store_defs io_defs demo_parts
  by (simp add: demo_keyring_def demo_json_def world_def)

lemma plain_new: "is_plain (plain_token (lit ''new''))"
  by (simp add: is_plain_def plain_token_def lit_def)

theorem saved_credentials_are_loaded_witness:
  "fst (load_oauth_credentials demo_store demo_env [] (world (Some (123 # 34 # lit ''new'' @ [10])) None True))
     = Inr (Some (plain_token (lit ''new'')))"
proof -
  let ?w = "world (Some (123 # 34 # lit ''new'' @ [10])) None True"
  obtain r w2 where l: "load_oauth_credentials demo_store demo_env [] ?w = (Inr r, w2)"
    using demo_load_locked[of "lit ''new''" None] plain_new
    by (cases "load_oauth_credentials demo_store demo_env [] ?w") auto
  have "no_secret demo_store (credentials_path demo_env []) (world None None True)"
    by (simp add: no_secret_def demo_parts demo_keyring_def world_def)
  moreover have "save_oauth_credentials demo_store demo_env [] (plain_token (lit ''new'')) (world None None True) = (Inr (), ?w)"
    using demo_save_locked[OF plain_new] by (simp add: plain_token_def)
  ultimately have "r = Some (plain_token (lit ''new''))"
    using l by (intro saved_credentials_are_loaded[OF demo_laws _ _ _ l]) (simp_all add: demo_users)
  then show ?thesis using l by simp
qed

text \<open>an older secret is not always replaced or removed: if the secret store refuses access while new
  credentials are saved, they go to the file, the save succeeds, and once the store is open again the
  old ones are loaded; and if the credentials file is not valid JSON, logging out reports an error before
  it reaches the secret store, and the credentials are still loaded afterwards.\<close>

theorem stale_secret_survives:
  "save_oauth_credentials demo_store demo_env [] (plain_token (lit ''new'')) (world None (Some b) True)
     = (Inr (), world (Some (123 # 34 # lit ''new'' @ [10])) (Some b) True)
   \<and> load_oauth_credentials demo_store demo_env [] (world (Some (123 # 34 # lit ''new'' @ [10])) (Some b) False)
     = (Inr (Some (plain_token (map unat b))), world (Some (123 # 34 # lit ''new'' @ [10])) (Some b) False)
   \<and> clear_oauth_credentials demo_store demo_env [] (world (Some (lit ''junk'')) (Some b) False)
     = (Inl (OtherError (lit ''expected value'')), world (Some (lit ''junk'')) (Some b) False)
   \<and> fst (load_oauth_credentials demo_store demo_env [] (world (Some (lit ''junk'')) (Some b) False))
     = Inr (Some (plain_token (map unat b)))"
proof (intro conjI)
  show "clear_oauth_credentials demo_store demo_env [] (world (Some (lit ''junk'')) (Some b) False)
      = (Inl (OtherError (lit ''expected value'')), world (Some (lit ''junk'')) (Some b) False)"
    unfolding store_defs io_defs demo_parts
    by (simp add: demo_store_fs_def demo_json_def world_def trim_Nil_iff is_ws_def lit_def)
qed (use demo_save_locked[OF plain_new] in \<open>simp_all add: demo_load_secret plain_token_def\<close>)

end
