(* ===== verification/Mcp.thy ===== *)
theory Mcp
  imports Utf8 Config_Values
begin

text \<open>
  Names, signatures and hashes of MCP servers (\<open>runtime/src/mcp.rs\<close>) and the description a client is
  started from (\<open>mcp_client.rs\<close>). A function that can panic returns an option, with \<open>None\<close> for the panic.
\<close>

section \<open>Names\<close>

definition CLAUDEAI_SERVER_PREFIX :: rstr where
  "CLAUDEAI_SERVER_PREFIX = lit ''claude.ai ''"

definition name_char :: "rchar \<Rightarrow> bool" where
  "name_char c \<longleftrightarrow>
     97 \<le> c \<and> c \<le> 122 \<or> 65 \<le> c \<and> c \<le> 90 \<or> 48 \<le> c \<and> c \<le> 57 \<or> c = 95 \<or> c = 45"

fun collapse_underscores_from :: "bool \<Rightarrow> rstr \<Rightarrow> rstr" where
  "collapse_underscores_from last_was_underscore [] = []"
| "collapse_underscores_from last_was_underscore (c # s) =
     (if c = 95 then (if last_was_underscore then [] else [c]) @ collapse_underscores_from True s
      else c # collapse_underscores_from False s)"

definition collapse_underscores :: "rstr \<Rightarrow> rstr" where
  "collapse_underscores s = collapse_underscores_from False s"

definition normalize_name_for_mcp :: "rstr \<Rightarrow> rstr" where
  "normalize_name_for_mcp name =
     (let normalized = map (\<lambda>c. if name_char c then c else 95) name in
      if starts_with CLAUDEAI_SERVER_PREFIX name
      then trim_by (\<lambda>c. c = 95) (collapse_underscores normalized)
      else normalized)"

definition mcp_tool_prefix :: "rstr \<Rightarrow> rstr" where
  "mcp_tool_prefix server_name = lit ''mcp__'' @ normalize_name_for_mcp server_name @ lit ''__''"

definition mcp_tool_name :: "rstr \<Rightarrow> rstr \<Rightarrow> rstr" where
  "mcp_tool_name server_name tool_name = mcp_tool_prefix server_name @ normalize_name_for_mcp tool_name"

section \<open>Proxy addresses\<close>

definition CCR_PROXY_PATH_MARKERS :: "rstr list" where
  "CCR_PROXY_PATH_MARKERS = [lit ''/v2/session_ingress/shttp/mcp/'', lit ''/v2/ccr-sessions/'']"

definition hex_value :: "u8 \<Rightarrow> u8 option" where
  "hex_value b =
     (if 48 \<le> b \<and> b \<le> 57 then Some (b - 48)
      else if 97 \<le> b \<and> b \<le> 102 then Some (b - 97 + 10)
      else if 65 \<le> b \<and> b \<le> 70 then Some (b - 65 + 10)
      else None)"

text \<open>\<open>u8::from_str_radix\<close> on two bytes: a leading plus sign is accepted.\<close>

definition u8_from_hex :: "u8 \<Rightarrow> u8 \<Rightarrow> u8 option" where
  "u8_from_hex h l =
     (if h = 43 then hex_value l
      else case (hex_value h, hex_value l) of (Some x, Some y) \<Rightarrow> Some (x * 16 + y) | _ \<Rightarrow> None)"

text \<open>The slice \<open>&value[index + 1..index + 3]\<close> panics where it would end inside a character, which is
  where the next byte continues one.\<close>

definition splits_character :: "u8 list \<Rightarrow> bool" where
  "splits_character r \<longleftrightarrow> r \<noteq> [] \<and> 128 \<le> hd r \<and> hd r < 192"

function mcp_percent_decode_bytes :: "u8 list \<Rightarrow> u8 list option" where
  "mcp_percent_decode_bytes [] = Some []"
| "mcp_percent_decode_bytes (b # r) =
     (case (b = 37, r) of
        (True, h # l # r') \<Rightarrow>
          if splits_character r' then None
          else (case u8_from_hex h l of
                  Some x \<Rightarrow> map_option ((#) x) (mcp_percent_decode_bytes r')
                | None \<Rightarrow> map_option ((#) b) (mcp_percent_decode_bytes r))
      | _ \<Rightarrow> map_option ((#) (if b = 43 then 32 else b)) (mcp_percent_decode_bytes r))"
  by pat_completeness auto

termination mcp_percent_decode_bytes by (relation "measure length") auto

definition mcp_percent_decode :: "rstr \<Rightarrow> rstr option" where
  "mcp_percent_decode s = map_option from_utf8_lossy (mcp_percent_decode_bytes (as_bytes s))"

text \<open>The first pair \<open>mcp_url=...\<close> of a query.\<close>

fun find_mcp_url :: "rstr list \<Rightarrow> rstr option" where
  "find_mcp_url [] = None"
| "find_mcp_url (pair # r) =
     (case split_once [61] pair of
        Some (k, v) \<Rightarrow> if k = lit ''mcp_url'' then Some v else find_mcp_url r
      | None \<Rightarrow> find_mcp_url r)"

definition unwrap_ccr_proxy_url :: "rstr \<Rightarrow> rstr option" where
  "unwrap_ccr_proxy_url url =
     (if \<not> list_ex (\<lambda>marker. contains marker url) CCR_PROXY_PATH_MARKERS then Some url
      else case split_once [63] url of
        None \<Rightarrow> Some url
      | Some (_, query) \<Rightarrow>
          (case find_mcp_url (split_char 38 query) of
             Some value \<Rightarrow> mcp_percent_decode value
           | None \<Rightarrow> Some url))"

section \<open>Signatures\<close>

definition render_command_signature :: "rstr list \<Rightarrow> rstr" where
  "render_command_signature parts =
     [91] @ join [124] (map (\<lambda>part. replace_str [124] [92, 124] (replace_str [92] [92, 92] part)) parts) @ [93]"

definition mcp_server_signature :: "McpServerConfig \<Rightarrow> rstr option option" where
  "mcp_server_signature config =
     (let url = (\<lambda>u. map_option (\<lambda>x. Some (lit ''url:'' @ x)) (unwrap_ccr_proxy_url u)) in
      case config of
        StdioServer c \<Rightarrow>
          Some (Some (lit ''stdio:'' @ render_command_signature (stdio_command c # stdio_args c)))
      | SseServer c \<Rightarrow> url (remote_url c)
      | HttpServer c \<Rightarrow> url (remote_url c)
      | WsServer c \<Rightarrow> url (ws_url c)
      | ManagedProxyServer c \<Rightarrow> url (proxy_url c)
      | SdkServer _ \<Rightarrow> Some None)"

definition render_env_signature :: "(rstr \<times> rstr) list \<Rightarrow> rstr" where
  "render_env_signature m = join [59] (map (\<lambda>(key, value). key @ [61] @ value) m)"

definition render_oauth_signature :: "McpOAuthConfig option \<Rightarrow> rstr" where
  "render_oauth_signature oauth =
     (case oauth of
        None \<Rightarrow> []
      | Some c \<Rightarrow>
          unwrap_or [] (mo_client_id c) @ [124]
          @ unwrap_or [] (map_option (\<lambda>port. show_nat (unat port)) (mo_callback_port c)) @ [124]
          @ unwrap_or [] (mo_auth_server_metadata_url c) @ [124]
          @ unwrap_or [] (map_option (\<lambda>flag. if flag then lit ''true'' else lit ''false'') (mo_xaa c)))"

definition stable_hex_hash :: "rstr \<Rightarrow> rstr" where
  "stable_hex_hash value =
     (let hash = foldl (\<lambda>h b. (h XOR ucast b) * 0x100000001b3) (0xcbf29ce484222325 :: u64) (as_bytes value)
      in pad_left 16 48 (show_hex (unat hash)))"

definition render_remote_signature :: "string \<Rightarrow> McpRemoteServerConfig \<Rightarrow> rstr" where
  "render_remote_signature tag c =
     lit tag @ [124] @ remote_url c @ [124] @ render_env_signature (remote_headers c) @ [124]
     @ unwrap_or [] (remote_headers_helper c) @ [124] @ render_oauth_signature (remote_oauth c)"

definition rendered_config :: "McpServerConfig \<Rightarrow> rstr" where
  "rendered_config config =
     (case config of
        StdioServer c \<Rightarrow>
          lit ''stdio|'' @ stdio_command c @ [124] @ render_command_signature (stdio_args c) @ [124]
          @ render_env_signature (stdio_env c)
      | SseServer c \<Rightarrow> render_remote_signature ''sse'' c
      | HttpServer c \<Rightarrow> render_remote_signature ''http'' c
      | WsServer c \<Rightarrow>
          lit ''ws|'' @ ws_url c @ [124] @ render_env_signature (ws_headers c) @ [124]
          @ unwrap_or [] (ws_headers_helper c)
      | SdkServer c \<Rightarrow> lit ''sdk|'' @ sdk_name c
      | ManagedProxyServer c \<Rightarrow> lit ''claudeai-proxy|'' @ proxy_url c @ [124] @ proxy_id c)"

definition scoped_mcp_config_hash :: "ScopedMcpServerConfig \<Rightarrow> rstr" where
  "scoped_mcp_config_hash c = stable_hex_hash (rendered_config (server c))"

section \<open>Clients\<close>

datatype McpClientAuth = AuthNone | AuthOAuth McpOAuthConfig

record McpStdioTransport =
  ts_command :: rstr
  ts_args :: "rstr list"
  ts_env :: "(rstr \<times> rstr) list"

record McpRemoteTransport =
  tr_url :: rstr
  tr_headers :: "(rstr \<times> rstr) list"
  tr_headers_helper :: "rstr option"
  tr_auth :: McpClientAuth

record McpSdkTransport =
  tk_name :: rstr

record McpManagedProxyTransport =
  tp_url :: rstr
  tp_id :: rstr

datatype McpClientTransport =
    ClientStdio McpStdioTransport
  | ClientSse McpRemoteTransport
  | ClientHttp McpRemoteTransport
  | ClientWebSocket McpRemoteTransport
  | ClientSdk McpSdkTransport
  | ClientManagedProxy McpManagedProxyTransport

definition auth_from_oauth :: "McpOAuthConfig option \<Rightarrow> McpClientAuth" where
  "auth_from_oauth oauth = (case oauth of None \<Rightarrow> AuthNone | Some c \<Rightarrow> AuthOAuth c)"

fun requires_user_auth :: "McpClientAuth \<Rightarrow> bool" where
  "requires_user_auth AuthNone = False"
| "requires_user_auth (AuthOAuth c) = True"

definition remote_transport :: "McpRemoteServerConfig \<Rightarrow> McpRemoteTransport" where
  "remote_transport c =
     \<lparr>tr_url = remote_url c, tr_headers = remote_headers c, tr_headers_helper = remote_headers_helper c,
      tr_auth = auth_from_oauth (remote_oauth c)\<rparr>"

fun transport_from_config :: "McpServerConfig \<Rightarrow> McpClientTransport" where
  "transport_from_config (StdioServer c) =
     ClientStdio \<lparr>ts_command = stdio_command c, ts_args = stdio_args c, ts_env = stdio_env c\<rparr>"
| "transport_from_config (SseServer c) = ClientSse (remote_transport c)"
| "transport_from_config (HttpServer c) = ClientHttp (remote_transport c)"
| "transport_from_config (WsServer c) =
     ClientWebSocket \<lparr>tr_url = ws_url c, tr_headers = ws_headers c,
       tr_headers_helper = ws_headers_helper c, tr_auth = AuthNone\<rparr>"
| "transport_from_config (SdkServer c) = ClientSdk \<lparr>tk_name = sdk_name c\<rparr>"
| "transport_from_config (ManagedProxyServer c) = ClientManagedProxy \<lparr>tp_url = proxy_url c, tp_id = proxy_id c\<rparr>"

record McpClientBootstrap =
  bs_server_name :: rstr
  bs_normalized_name :: rstr
  bs_tool_prefix :: rstr
  bs_signature :: "rstr option"
  bs_transport :: McpClientTransport

definition bootstrap_from_scoped_config :: "rstr \<Rightarrow> ScopedMcpServerConfig \<Rightarrow> McpClientBootstrap option" where
  "bootstrap_from_scoped_config server_name config =
     map_option (\<lambda>sig. \<lparr>bs_server_name = server_name, bs_normalized_name = normalize_name_for_mcp server_name,
         bs_tool_prefix = mcp_tool_prefix server_name, bs_signature = sig,
         bs_transport = transport_from_config (server config)\<rparr>)
       (mcp_server_signature (server config))"

section \<open>Lemmas\<close>

lemma replace_str_char: "replace_str [d] q s = concat (map (\<lambda>c. if c = d then q else [c]) s)"
  unfolding replace_str_def by (induction s) (auto simp: starts_with_def)

definition escape_part :: "rstr \<Rightarrow> rstr" where
  "escape_part s = concat (map (\<lambda>c. if c = 92 then [92, 92] else if c = 124 then [92, 124] else [c]) s)"

lemma escape_part: "replace_str [124] [92, 124] (replace_str [92] [92, 92] s) = escape_part s"
  unfolding replace_str_char escape_part_def by (induction s) auto

text \<open>Reading the parts back: a backslash quotes the next character, a bar ends a part.\<close>

fun read_parts :: "rstr \<Rightarrow> rstr \<Rightarrow> rstr list" where
  "read_parts acc [] = [acc]"
| "read_parts acc [c] = (if c = 124 then [acc, []] else [acc @ [c]])"
| "read_parts acc (c # d # s) =
     (if c = 92 then read_parts (acc @ [d]) s
      else if c = 124 then acc # read_parts [] (d # s)
      else read_parts (acc @ [c]) (d # s))"

lemma read_parts_plain: "c \<noteq> 92 \<Longrightarrow> c \<noteq> 124 \<Longrightarrow> read_parts acc (c # s) = read_parts (acc @ [c]) s"
  by (cases s) simp_all

lemma read_parts_bar: "read_parts acc (124 # s) = acc # read_parts [] s"
  by (cases s) simp_all

lemma read_parts_escape: "read_parts acc (escape_part s @ r) = read_parts (acc @ s) r"
  by (induction s arbitrary: acc) (auto simp: escape_part_def read_parts_plain)

lemma read_parts_join: "xs \<noteq> [] \<Longrightarrow> read_parts [] (join [124] (map escape_part xs)) = xs"
proof (induction xs rule: induct_list012)
  case (2 x)
  then show ?case using read_parts_escape[of "[]" x "[]"] by simp
next
  case (3 x y zs)
  then show ?case by (simp add: read_parts_escape read_parts_bar)
qed simp

lemma render_command_signature_inj:
  assumes "render_command_signature xs = render_command_signature ys" "xs \<noteq> []" "ys \<noteq> []"
  shows "xs = ys"
proof -
  have "join [124] (map escape_part xs) = join [124] (map escape_part ys)"
    using assms(1) by (simp add: render_command_signature_def escape_part)
  then have "read_parts [] (join [124] (map escape_part xs)) = read_parts [] (join [124] (map escape_part ys))"
    by (rule arg_cong)
  then show ?thesis unfolding read_parts_join[OF assms(2)] read_parts_join[OF assms(3)] .
qed

lemma set_collapse: "c \<in> set (collapse_underscores_from b s) \<Longrightarrow> c \<in> set s"
  by (induction b s rule: collapse_underscores_from.induct) (auto split: if_splits)

lemma normalize_name_chars: "c \<in> set (normalize_name_for_mcp name) \<Longrightarrow> name_char c"
proof -
  let ?n = "map (\<lambda>c. if name_char c then c else 95) name"
  assume c: "c \<in> set (normalize_name_for_mcp name)"
  have sub: "set (trim_by P (collapse_underscores_from False ?n)) \<subseteq> set ?n" for P
    using set_trim_by set_collapse by (meson subsetI subsetD)
  have "c \<in> set ?n"
  proof (cases "starts_with CLAUDEAI_SERVER_PREFIX name")
    case True
    then show ?thesis
      using c subsetD[OF sub] by (simp only: normalize_name_for_mcp_def collapse_underscores_def Let_def if_True)
  next
    case False
    then show ?thesis using c by (simp only: normalize_name_for_mcp_def Let_def if_False)
  qed
  then show ?thesis by (auto simp: name_char_def)
qed

lemma normalize_name_plain:
  assumes "\<forall>c \<in> set name. name_char c"
  shows "normalize_name_for_mcp name = name"
proof -
  have "\<not> starts_with CLAUDEAI_SERVER_PREFIX name"
    using assms by (auto simp: starts_with_iff CLAUDEAI_SERVER_PREFIX_def lit_def name_char_def)
  then show ?thesis using assms by (simp add: normalize_name_for_mcp_def map_idI)
qed

text \<open>the tool name the model service sees is made of letters, digits, underscores and hyphens only,
  begins with \<open>mcp__\<close> and the normalized server name, and names that consist of such characters are kept
  as they are, so that normalizing is idempotent.\<close>

theorem mcp_tool_name_wellformed:
  "list_all name_char (mcp_tool_name server_name tool_name)
   \<and> starts_with (mcp_tool_prefix server_name) (mcp_tool_name server_name tool_name)
   \<and> starts_with (lit ''mcp__'') (mcp_tool_prefix server_name)
   \<and> normalize_name_for_mcp (normalize_name_for_mcp server_name) = normalize_name_for_mcp server_name
   \<and> mcp_tool_name (normalize_name_for_mcp server_name) (normalize_name_for_mcp tool_name)
     = mcp_tool_name server_name tool_name"
proof -
  have i: "normalize_name_for_mcp (normalize_name_for_mcp n) = normalize_name_for_mcp n" for n
    by (rule normalize_name_plain) (auto dest: normalize_name_chars)
  moreover have "list_all name_char (lit ''mcp__'')" "list_all name_char (lit ''__'')"
    by (simp_all add: lit_def name_char_def)
  ultimately show ?thesis
    by (auto simp: mcp_tool_name_def mcp_tool_prefix_def starts_with_iff list_all_iff
        dest: normalize_name_chars)
qed

text \<open>the signature identifies a stdio server by its command and arguments, whatever characters they
  contain, and no server that is reached through an address has the signature of one that is started.\<close>

theorem stdio_signature_identifies:
  "(mcp_server_signature (StdioServer a) = mcp_server_signature (StdioServer b)
      \<longleftrightarrow> stdio_command a = stdio_command b \<and> stdio_args a = stdio_args b)
   \<and> mcp_server_signature (StdioServer a) \<noteq> mcp_server_signature (HttpServer c)
   \<and> mcp_server_signature (StdioServer a) \<noteq> mcp_server_signature (SseServer c)
   \<and> mcp_server_signature (StdioServer a) \<noteq> mcp_server_signature (WsServer d)
   \<and> mcp_server_signature (StdioServer a) \<noteq> mcp_server_signature (ManagedProxyServer p)"
proof -
  have "Some (Some (lit ''stdio:'' @ x)) \<noteq> map_option (\<lambda>x. Some (lit ''url:'' @ x)) u" for x u
    by (cases u) (simp_all add: lit_def)
  then show ?thesis
    using render_command_signature_inj[of "stdio_command a # stdio_args a" "stdio_command b # stdio_args b"]
    by (auto simp: mcp_server_signature_def)
qed

text \<open>a configured address can crash the program: in the \<open>mcp_url\<close> of a proxy address, a percent sign
  followed by one character and the first byte of a longer one makes the slice of the decoder panic, and
  with it the start of every client with that address.\<close>

theorem proxy_url_panics:
  "unwrap_ccr_proxy_url (lit ''https://h/v2/ccr-sessions/1?mcp_url=%a'' @ [233]) = None
   \<and> bootstrap_from_scoped_config name
       \<lparr>scope = UserConfig, server = WsServer \<lparr>ws_url = lit ''https://h/v2/ccr-sessions/1?mcp_url=%a'' @ [233],
          ws_headers = [], ws_headers_helper = None\<rparr>\<rparr> = None"
proof -
  have "unwrap_ccr_proxy_url (lit ''https://h/v2/ccr-sessions/1?mcp_url=%a'' @ [233]) = None"
    by code_simp
  then show ?thesis
    by (simp add: bootstrap_from_scoped_config_def mcp_server_signature_def Let_def)
qed

text \<open>different servers and tools can share a name, and different configurations a hash: normalizing maps
  \<open>a.b\<close> and \<open>a_b\<close> to one name, two underscores in a name imitate the separator, and an environment value
  with a semicolon imitates a second variable.\<close>

theorem names_and_hashes_collide:
  "mcp_tool_name (lit ''a.b'') t = mcp_tool_name (lit ''a_b'') t
   \<and> mcp_tool_name (lit ''a'') (lit ''b__c'') = mcp_tool_name (lit ''a__b'') (lit ''c'')
   \<and> scoped_mcp_config_hash \<lparr>scope = s, server = StdioServer \<lparr>stdio_command = c, stdio_args = xs,
        stdio_env = [(lit ''A'', lit ''1;B=2'')]\<rparr>\<rparr>
     = scoped_mcp_config_hash \<lparr>scope = s, server = StdioServer \<lparr>stdio_command = c, stdio_args = xs,
        stdio_env = [(lit ''A'', lit ''1''), (lit ''B'', lit ''2'')]\<rparr>\<rparr>"
  by (simp add: mcp_tool_name_def mcp_tool_prefix_def normalize_name_for_mcp_def Let_def name_char_def
      CLAUDEAI_SERVER_PREFIX_def starts_with_def scoped_mcp_config_hash_def rendered_config_def
      render_env_signature_def lit_def)

end
