(* ===== verification/Mcp_Stdio.thy ===== *)
theory Mcp_Stdio
  imports Mcp
begin

text \<open>
  The messages of MCP servers on their standard streams (\<open>runtime/src/mcp_stdio.rs\<close>): the data of the
  protocol, with \<open>serde_json\<close>'s value as a type variable, and the framing by \<open>Content-Length\<close>. The output of
  a process is the list of the bytes it will write before it closes the stream.
\<close>

section \<open>Data\<close>

datatype JsonRpcId = IdNumber u64 | IdString rstr | IdNull

record 'a JsonRpcRequest =
  rq_jsonrpc :: rstr
  rq_id :: JsonRpcId
  rq_method :: rstr
  rq_params :: "'a option"

definition JsonRpcRequest_new :: "JsonRpcId \<Rightarrow> rstr \<Rightarrow> 'a option \<Rightarrow> 'a JsonRpcRequest" where
  "JsonRpcRequest_new i method params =
     \<lparr>rq_jsonrpc = lit ''2.0'', rq_id = i, rq_method = method, rq_params = params\<rparr>"

record 'j JsonRpcError =
  je_code :: i64
  je_message :: rstr
  je_data :: "'j option"

record ('j, 'a) JsonRpcResponse =
  rs_jsonrpc :: rstr
  rs_id :: JsonRpcId
  rs_result :: "'a option"
  rs_error :: "'j JsonRpcError option"

record McpInitializeServerInfo =
  is_name :: rstr
  is_version :: rstr

record 'j McpInitializeResult =
  ir_protocol_version :: rstr
  ir_capabilities :: 'j
  ir_server_info :: McpInitializeServerInfo

record 'j McpTool =
  mt_name :: rstr
  mt_description :: "rstr option"
  mt_input_schema :: "'j option"
  mt_annotations :: "'j option"
  mt_meta :: "'j option"

record 'j McpListToolsResult =
  lt_tools :: "'j McpTool list"
  lt_next_cursor :: "rstr option"

record 'j McpToolCallParams =
  cp_name :: rstr
  cp_arguments :: "'j option"
  cp_meta :: "'j option"

record 'j McpToolCallContent =
  cc_kind :: rstr
  cc_data :: "(rstr \<times> 'j) list"

record 'j McpToolCallResult =
  cr_content :: "'j McpToolCallContent list"
  cr_structured_content :: "'j option"
  cr_is_error :: "bool option"
  cr_meta :: "'j option"

record 'j ManagedMcpTool =
  mm_server_name :: rstr
  mm_qualified_name :: rstr
  mm_raw_name :: rstr
  mm_tool :: "'j McpTool"

record UnsupportedMcpServer =
  us_server_name :: rstr
  us_transport :: McpTransport
  us_reason :: rstr

section \<open>Frames\<close>

definition encode_frame :: "u8 list \<Rightarrow> u8 list" where
  "encode_frame payload =
     as_bytes (lit ''Content-Length: '' @ show_nat (length payload) @ [13, 10, 13, 10]) @ payload"

text \<open>\<open>read_line\<close>: the bytes up to and with the next line feed, or up to the end.\<close>

fun take_line :: "u8 list \<Rightarrow> u8 list \<times> u8 list" where
  "take_line [] = ([], [])"
| "take_line (b # r) = (if b = 10 then ([b], r) else (case take_line r of (l, s) \<Rightarrow> (b # l, s)))"

lemma take_line_length: "take_line bs = (l, r) \<Longrightarrow> length l + length r = length bs"
  by (induction bs arbitrary: l r) (auto split: if_splits prod.splits)

lemma take_line_shorter: "(l, r) = take_line bs \<Longrightarrow> l \<noteq> [] \<longrightarrow> length r < length bs"
  using take_line_length[of bs l r] by (cases l) auto

text \<open>The error of \<open>parse::<usize>\<close>: the first thing that goes wrong from left to right.\<close>

fun parse_digits_error :: "nat \<Rightarrow> rstr \<Rightarrow> rstr" where
  "parse_digits_error acc [] = []"
| "parse_digits_error acc (c # s) =
     (if \<not> is_digit c then lit ''invalid digit found in string''
      else if acc * 10 + (c - 48) \<ge> 2 ^ 64 then lit ''number too large to fit in target type''
      else parse_digits_error (acc * 10 + (c - 48)) s)"

definition parse_usize_error :: "rstr \<Rightarrow> rstr" where
  "parse_usize_error s =
     (if s = [] then lit ''cannot parse integer from empty string''
      else if s = [43] then lit ''invalid digit found in string''
      else parse_digits_error 0 (if hd s = 43 then tl s else s))"

definition parse_usize :: "rstr \<Rightarrow> rstr + u64" where
  "parse_usize s = (case parse_u64 s of None \<Rightarrow> Inl (parse_usize_error s) | Some n \<Rightarrow> Inr n)"

function read_headers :: "u64 option \<Rightarrow> u8 list \<Rightarrow> rstr + (u64 option \<times> u8 list)" where
  "read_headers content_length input =
     (let (raw, rest) = take_line input in
      case from_utf8 raw of
        Inl _ \<Rightarrow> Inl (lit ''stream did not contain valid UTF-8'')
      | Inr line \<Rightarrow>
          if raw = [] then Inl (lit ''MCP stdio stream closed while reading headers'')
          else if line = [13, 10] then Inr (content_length, rest)
          else (case strip_prefix (lit ''Content-Length:'') line of
                  Some v \<Rightarrow> res_bind (parse_usize (trim v)) (\<lambda>n. read_headers (Some n) rest)
                | None \<Rightarrow> read_headers content_length rest))"
  by pat_completeness auto

termination read_headers
  by (relation "measure (\<lambda>(c, input). length input)") (auto dest!: take_line_shorter)

declare read_headers.simps [simp del]

text \<open>\<open>vec![0; n]\<close> panics for a length beyond \<open>isize::MAX\<close>: the result is then \<open>None\<close>.\<close>

definition read_frame :: "u8 list \<Rightarrow> (rstr + (u8 list \<times> u8 list)) option" where
  "read_frame input =
     (case read_headers None input of
        Inl e \<Rightarrow> Some (Inl e)
      | Inr (None, rest) \<Rightarrow> Some (Inl (lit ''missing Content-Length header''))
      | Inr (Some n, rest) \<Rightarrow>
          if 2 ^ 63 \<le> unat n then None
          else if length rest < unat n then Some (Inl (lit ''early eof''))
          else Some (Inr (take (unat n) rest, drop (unat n) rest)))"

section \<open>Round trip\<close>

lemma take_line_append: "10 \<notin> set l \<Longrightarrow> take_line (l @ 10 # r) = (l @ [10], r)"
  by (induction l) auto

lemma read_headers_line:
  assumes "10 \<notin> set raw" "from_utf8 (raw @ [10]) = Inr line"
  shows "read_headers c (raw @ 10 # rest) =
    (if line = [13, 10] then Inr (c, rest)
     else (case strip_prefix (lit ''Content-Length:'') line of
             Some v \<Rightarrow> res_bind (parse_usize (trim v)) (\<lambda>n. read_headers (Some n) rest)
           | None \<Rightarrow> read_headers c rest))"
  by (subst read_headers.simps) (simp add: take_line_append assms)

lemma ascii_line:
  assumes "\<forall>c \<in> set s. c < 128" "10 \<notin> set s"
  shows "as_bytes s = map of_nat s" "(10 :: u8) \<notin> set (map of_nat s)"
    "from_utf8 (map of_nat s @ [10]) = Inr (s @ [10])"
proof -
  show a: "as_bytes s = map of_nat s" by (rule as_bytes_ascii) (use assms in auto)
  have inj: "of_nat c \<noteq> (10 :: u8)" if "c \<in> set s" for c
  proof
    assume "of_nat c = (10 :: u8)"
    then have "unat (of_nat c :: u8) = 10" by simp
    moreover have "c < 128" "c \<noteq> 10" using that assms by auto
    ultimately show False by (simp add: unat_of_nat)
  qed
  then show "(10 :: u8) \<notin> set (map of_nat s)" by auto
  have "as_bytes (s @ [10]) = map of_nat s @ [10]" using a by (simp add: utf8_simps) (simp add: as_bytes_def char_codes_def)
  moreover have "\<forall>c \<in> set (s @ [10]). scalar c" using assms(1) by (auto simp: scalar_def)
  ultimately show "from_utf8 (map of_nat s @ [10]) = Inr (s @ [10])"
    using from_utf8_as_bytes[of "s @ [10]"] by simp
qed

lemma frame_rest:
  assumes "n < 2 ^ 64"
  shows "read_headers None (as_bytes (lit ''Content-Length: '' @ show_nat n @ [13, 10, 13, 10]) @ rest)
    = Inr (Some (of_nat n), rest)"
proof -
  let ?d = "show_nat n"
  have d: "\<forall>c \<in> set ?d. 48 \<le> c \<and> c \<le> 57" using show_nat_digits by (auto simp: is_digit_def)
  let ?h = "lit ''Content-Length: '' @ ?d @ [13]"
  have h: "\<forall>c \<in> set ?h. c < 128" "10 \<notin> set ?h" using d by (auto simp: lit_def)
  have e: "as_bytes (lit ''Content-Length: '' @ ?d @ [13, 10, 13, 10]) @ rest = map of_nat ?h @ 10 # [13] @ 10 # rest"
  proof -
    have "as_bytes (?h @ [10, 13, 10]) = map of_nat (?h @ [10, 13, 10])"
      by (rule as_bytes_ascii) (use h(1) in auto)
    then show ?thesis by simp
  qed
  have "trim ([32] @ ?d @ [13, 10]) = ?d"
  proof -
    obtain c cs where cs: "?d = c # cs" "is_digit c" "\<forall>x\<in>set cs. is_digit x" by (rule show_nat_Cons)
    have "trim ([32] @ ?d @ [13, 10]) = trim ?d"
      using cs by (simp add: trim_def trim_by_def trim_end_by_def trim_start_by_def is_ws_def is_digit_def)
    also have "\<dots> = ?d"
    proof (rule trim_id)
      have "\<not> is_ws c" if "c \<in> set ?d" for c using d that by (auto simp: is_ws_def)
      then show "?d = [] \<or> \<not> is_ws (hd ?d) \<and> \<not> is_ws (last ?d)" by simp
    qed
    finally show ?thesis .
  qed
  moreover have "parse_u64 ?d = Some (of_nat n)"
    using parse_u64_show[of "of_nat n"] assms by (simp add: unat_of_nat)
  moreover have "strip_prefix (lit ''Content-Length:'') (?h @ [10]) = Some ([32] @ ?d @ [13, 10])"
    by (simp add: strip_prefix_iff lit_def)
  moreover have "?h @ [10] \<noteq> [13, 10]" by (simp add: lit_def)
  moreover have "read_headers c ([13] @ 10 # rest) = Inr (c, rest)" for c
    using read_headers_line[OF ascii_line(2,3)[of "[13]"], of c rest] by simp
  ultimately show ?thesis
    unfolding e read_headers_line[OF ascii_line(2,3)[OF h]] by (simp add: parse_usize_def)
qed

text \<open>a frame is read back: whatever bytes a message has and whatever follows it on the stream, reading
  takes exactly the message and leaves exactly the rest, so that a sequence of messages is read in
  order; a stream that ends inside a message is an error.\<close>

theorem frame_round_trip:
  assumes "length payload < 2 ^ 63"
  shows "read_frame (encode_frame payload @ rest) = Some (Inr (payload, rest))
    \<and> read_frame [] = Some (Inl (lit ''MCP stdio stream closed while reading headers''))
    \<and> (n < length payload \<longrightarrow>
        read_frame (take (length (encode_frame payload) - length payload + n) (encode_frame payload))
          = Some (Inl (lit ''early eof'')))"
proof -
  have len: "unat (of_nat (length payload) :: u64) = length payload" using assms by (simp add: unat_of_nat)
  have "read_frame (encode_frame payload @ rest) = Some (Inr (payload, rest))"
    using frame_rest[of "length payload" "payload @ rest"] assms len by (simp add: read_frame_def encode_frame_def)
  moreover have "read_frame [] = Some (Inl (lit ''MCP stdio stream closed while reading headers''))"
    by (simp add: read_frame_def read_headers.simps from_utf8_def)
  moreover have "read_frame (take (length (encode_frame payload) - length payload + n) (encode_frame payload))
      = Some (Inl (lit ''early eof''))" if "n < length payload"
  proof -
    let ?h = "as_bytes (lit ''Content-Length: '' @ show_nat (length payload) @ [13, 10, 13, 10])"
    have "take (length (encode_frame payload) - length payload + n) (encode_frame payload) = ?h @ take n payload"
      by (simp add: encode_frame_def)
    moreover have "read_headers None (?h @ take n payload) = Inr (Some (of_nat (length payload)), take n payload)"
      using frame_rest[of "length payload" "take n payload"] assms by simp
    ultimately show ?thesis using that assms len by (simp add: read_frame_def)
  qed
  ultimately show ?thesis by simp
qed

theorem frame_round_trip_witness:
  "read_frame (encode_frame [7, 10, 13] @ [1]) = Some (Inr ([7, 10, 13], [1]))"
  using frame_round_trip[of "[7, 10, 13]" "[1]" 0] by simp

text \<open>a process that announces a length beyond what a vector can have makes the reader panic.\<close>

theorem oversized_frame_panics:
  "read_frame (as_bytes (lit ''Content-Length: '' @ show_nat (2 ^ 64 - 1) @ [13, 10, 13, 10])) = None"
  using frame_rest[of "2 ^ 64 - 1" "[]"] by (simp add: read_frame_def unat_of_nat)

end
