(* ===== verification/Mcp_Manager.thy ===== *)
theory Mcp_Manager
  imports Mcp_Stdio Rust_State
begin

text \<open>
  The manager of MCP servers (\<open>runtime/src/mcp_stdio.rs\<close>): which servers run, which are initialized, and
  which server and tool a qualified name leads to. Starting a process and its typed requests are a
  record of calls over a world. The loop over the pages of a tool list takes fuel, because the server
  decides how many pages there are.
\<close>

datatype 'j McpServerManagerError =
    McpIo rstr
  | McpJsonRpc rstr rstr "'j JsonRpcError"
  | McpInvalidResponse rstr rstr rstr
  | UnknownTool rstr
  | UnknownServer rstr

fun manager_error_display :: "'j McpServerManagerError \<Rightarrow> rstr" where
  "manager_error_display (McpIo e) = e"
| "manager_error_display (McpJsonRpc server_name method e) =
     lit ''MCP server `'' @ server_name @ lit ''` returned JSON-RPC error for '' @ method @ lit '': ''
     @ je_message e @ lit '' ('' @ show_int (sint (je_code e)) @ lit '')''"
| "manager_error_display (McpInvalidResponse server_name method details) =
     lit ''MCP server `'' @ server_name @ lit ''` returned invalid response for '' @ method @ lit '': '' @ details"
| "manager_error_display (UnknownTool qualified_name) = lit ''unknown MCP tool `'' @ qualified_name @ lit ''`''"
| "manager_error_display (UnknownServer server_name) = lit ''unknown MCP server `'' @ server_name @ lit ''`''"

record ToolRoute =
  route_server :: rstr
  route_raw_name :: rstr

record 'p ManagedMcpServer =
  ms_bootstrap :: McpClientBootstrap
  ms_process :: "'p option"
  ms_initialized :: bool

record 'p McpServerManager =
  mg_servers :: "(rstr \<times> 'p ManagedMcpServer) list"
  mg_unsupported :: "UnsupportedMcpServer list"
  mg_tool_index :: "(rstr \<times> ToolRoute) list"
  mg_next_request_id :: u64

text \<open>What a process can be asked. A failed call is an I/O error.\<close>

record ('p, 'j, 'w) McpEnv =
  me_spawn :: "McpStdioTransport \<Rightarrow> 'w \<Rightarrow> (rstr + 'p) \<times> 'w"
  me_initialize :: "'p \<Rightarrow> JsonRpcId \<Rightarrow> 'w \<Rightarrow> (rstr + ('j, 'j McpInitializeResult) JsonRpcResponse) \<times> 'w"
  me_list_tools :: "'p \<Rightarrow> JsonRpcId \<Rightarrow> rstr option \<Rightarrow> 'w \<Rightarrow> (rstr + ('j, 'j McpListToolsResult) JsonRpcResponse) \<times> 'w"
  me_call_tool :: "'p \<Rightarrow> JsonRpcId \<Rightarrow> 'j McpToolCallParams \<Rightarrow> 'w \<Rightarrow> (rstr + ('j, 'j McpToolCallResult) JsonRpcResponse) \<times> 'w"
  me_shutdown :: "'p \<Rightarrow> 'w \<Rightarrow> (rstr + unit) \<times> 'w"

type_synonym ('p, 'j, 'w, 'a) mcp =
  "'p McpServerManager \<times> 'w \<Rightarrow> ('j McpServerManagerError + 'a) \<times> ('p McpServerManager \<times> 'w)"

section \<open>Setting up\<close>

definition ManagedMcpServer_new :: "McpClientBootstrap \<Rightarrow> 'p ManagedMcpServer" where
  "ManagedMcpServer_new b = \<lparr>ms_bootstrap = b, ms_process = None, ms_initialized = False\<rparr>"

fun transport_debug :: "McpTransport \<Rightarrow> rstr" where
  "transport_debug TransportStdio = lit ''Stdio''"
| "transport_debug TransportSse = lit ''Sse''"
| "transport_debug TransportHttp = lit ''Http''"
| "transport_debug TransportWs = lit ''Ws''"
| "transport_debug TransportSdk = lit ''Sdk''"
| "transport_debug TransportManagedProxy = lit ''ManagedProxy''"

text \<open>The signature of a stdio server never panics, so neither does the loop.\<close>

fun add_server ::
  "'p McpServerManager \<Rightarrow> rstr \<times> ScopedMcpServerConfig \<Rightarrow> 'p McpServerManager" where
  "add_server m (name, config) =
     (if server_transport (server config) = TransportStdio then
        (case bootstrap_from_scoped_config name config of
           Some b \<Rightarrow> m\<lparr>mg_servers := bt_insert name (ManagedMcpServer_new b) (mg_servers m)\<rparr>
         | None \<Rightarrow> m)
      else
        m\<lparr>mg_unsupported := mg_unsupported m @
            [\<lparr>us_server_name = name, us_transport = server_transport (server config),
              us_reason = lit ''transport '' @ transport_debug (server_transport (server config))
                @ lit '' is not supported by McpServerManager''\<rparr>]\<rparr>)"

definition from_servers :: "(rstr \<times> ScopedMcpServerConfig) list \<Rightarrow> 'p McpServerManager" where
  "from_servers servers =
     foldl add_server
       \<lparr>mg_servers = [], mg_unsupported = [], mg_tool_index = [], mg_next_request_id = 1\<rparr> servers"

section \<open>Starting a server\<close>

text \<open>\<open>saturating_add(1)\<close>.\<close>

definition take_request_id :: "('p, 'j, 'w, JsonRpcId) mcp" where
  "take_request_id = (\<lambda>(m, w).
     (Inr (IdNumber (mg_next_request_id m)),
      (m\<lparr>mg_next_request_id :=
           (if mg_next_request_id m = - 1 then - 1 else mg_next_request_id m + 1)\<rparr>, w)))"

definition server_mut :: "rstr \<Rightarrow> ('p, 'j, 'w, 'p ManagedMcpServer) mcp" where
  "server_mut name = (\<lambda>(m, w). (ok_or (UnknownServer name) (bt_get (mg_servers m) name), (m, w)))"

text \<open>Writing back through the reference that \<open>server_mut\<close> gives.\<close>

definition put_server :: "rstr \<Rightarrow> 'p ManagedMcpServer \<Rightarrow> ('p, 'j, 'w, unit) mcp" where
  "put_server name sv = (\<lambda>(m, w). (Inr (), (m\<lparr>mg_servers := bt_insert name sv (mg_servers m)\<rparr>, w)))"

text \<open>A call of the environment, its error turned into \<open>Io\<close>.\<close>

definition lift_io :: "('w \<Rightarrow> (rstr + 'a) \<times> 'w) \<Rightarrow> ('p, 'j, 'w, 'a) mcp" where
  "lift_io f = (\<lambda>(m, w). case f w of (r, w') \<Rightarrow> (map_sum McpIo id r, (m, w')))"

definition spawn_mcp_stdio_process :: "('p, 'j, 'w) McpEnv \<Rightarrow> McpClientBootstrap \<Rightarrow> 'w \<Rightarrow> (rstr + 'p) \<times> 'w" where
  "spawn_mcp_stdio_process env b w =
     (case bs_transport b of
        ClientStdio t \<Rightarrow> me_spawn env t w
      | _ \<Rightarrow> (Inl (lit ''MCP bootstrap transport for '' @ bs_server_name b @ lit '' is not stdio''), w))"

definition server_process :: "rstr \<Rightarrow> string \<Rightarrow> string \<Rightarrow> ('p, 'j, 'w, 'p) mcp" where
  "server_process name method details =
     io_bind (server_mut name) (\<lambda>sv.
     io_result (ok_or (McpInvalidResponse name (lit method) (lit details)) (ms_process sv)))"

definition response_result :: "rstr \<Rightarrow> string \<Rightarrow> ('j, 'a) JsonRpcResponse \<Rightarrow> 'j McpServerManagerError + 'a" where
  "response_result name method response =
     (case rs_error response of
        Some e \<Rightarrow> Inl (McpJsonRpc name (lit method) e)
      | None \<Rightarrow> ok_or (McpInvalidResponse name (lit method) (lit ''missing result payload'')) (rs_result response))"

definition spawn_if_needed :: "('p, 'j, 'w) McpEnv \<Rightarrow> rstr \<Rightarrow> 'p ManagedMcpServer \<Rightarrow> ('p, 'j, 'w, unit) mcp" where
  "spawn_if_needed env name sv =
     (if ms_process sv = None then
        io_bind (lift_io (spawn_mcp_stdio_process env (ms_bootstrap sv))) (\<lambda>p.
        put_server name (sv\<lparr>ms_process := Some p, ms_initialized := False\<rparr>))
      else io_return ())"

definition initialize_if_needed :: "('p, 'j, 'w) McpEnv \<Rightarrow> rstr \<Rightarrow> 'p ManagedMcpServer \<Rightarrow> ('p, 'j, 'w, unit) mcp" where
  "initialize_if_needed env name sv =
     (if ms_initialized sv then io_return ()
      else
        io_bind take_request_id (\<lambda>i.
        io_bind (server_process name ''initialize'' ''server process missing before initialize'') (\<lambda>p.
        io_bind (lift_io (me_initialize env p i)) (\<lambda>response.
        io_bind (io_result (response_result name ''initialize'' response)) (\<lambda>_.
        io_bind (server_mut name) (\<lambda>sv2. put_server name (sv2\<lparr>ms_initialized := True\<rparr>)))))))"

definition ensure_server_ready :: "('p, 'j, 'w) McpEnv \<Rightarrow> rstr \<Rightarrow> ('p, 'j, 'w, unit) mcp" where
  "ensure_server_ready env name =
     io_bind (server_mut name) (\<lambda>sv.
     io_bind (spawn_if_needed env name sv) (\<lambda>_.
     io_bind (server_mut name) (initialize_if_needed env name)))"

section \<open>Tools\<close>

definition clear_routes_for_server :: "rstr \<Rightarrow> ('p, 'j, 'w, unit) mcp" where
  "clear_routes_for_server name = (\<lambda>(m, w).
     (Inr (), (m\<lparr>mg_tool_index := filter (\<lambda>(q, r). route_server r \<noteq> name) (mg_tool_index m)\<rparr>, w)))"

definition managed_tool :: "rstr \<Rightarrow> 'j McpTool \<Rightarrow> 'j ManagedMcpTool" where
  "managed_tool name tool =
     \<lparr>mm_server_name = name, mm_qualified_name = mcp_tool_name name (mt_name tool),
      mm_raw_name = mt_name tool, mm_tool = tool\<rparr>"

definition tool_route :: "'j ManagedMcpTool \<Rightarrow> ToolRoute" where
  "tool_route t = \<lparr>route_server = mm_server_name t, route_raw_name = mm_raw_name t\<rparr>"

definition index_tools :: "'j ManagedMcpTool list \<Rightarrow> ('p, 'j, 'w, unit) mcp" where
  "index_tools tools = (\<lambda>(m, w).
     (Inr (), (m\<lparr>mg_tool_index := fold (\<lambda>t. bt_insert (mm_qualified_name t) (tool_route t)) tools (mg_tool_index m)\<rparr>, w)))"

definition list_page :: "('p, 'j, 'w) McpEnv \<Rightarrow> rstr \<Rightarrow> rstr option \<Rightarrow> ('p, 'j, 'w, 'j McpListToolsResult) mcp" where
  "list_page env name cursor =
     io_bind take_request_id (\<lambda>i.
     io_bind (server_process name ''tools/list'' ''server process missing after initialization'') (\<lambda>p.
     io_bind (lift_io (me_list_tools env p i cursor)) (\<lambda>response.
     io_bind (io_result (response_result name ''tools/list'' response)) (\<lambda>page.
     io_bind (index_tools (map (managed_tool name) (lt_tools page))) (\<lambda>_. io_return page)))))"

fun list_pages ::
  "('p, 'j, 'w) McpEnv \<Rightarrow> nat \<Rightarrow> rstr \<Rightarrow> rstr option \<Rightarrow> 'p McpServerManager \<times> 'w
     \<Rightarrow> (('j McpServerManagerError + 'j ManagedMcpTool list) \<times> ('p McpServerManager \<times> 'w)) option" where
  "list_pages env 0 name cursor s = None"
| "list_pages env (Suc n) name cursor s =
     (case list_page env name cursor s of
        (Inl e, s') \<Rightarrow> Some (Inl e, s')
      | (Inr page, s') \<Rightarrow>
          let tools = map (managed_tool name) (lt_tools page) in
          (case lt_next_cursor page of
             None \<Rightarrow> Some (Inr tools, s')
           | Some next \<Rightarrow>
               map_option (\<lambda>(r, s''). (map_sum id ((@) tools) r, s''))
                 (list_pages env n name (Some next) s')))"

fun discover_servers ::
  "('p, 'j, 'w) McpEnv \<Rightarrow> nat \<Rightarrow> rstr list \<Rightarrow> 'p McpServerManager \<times> 'w
     \<Rightarrow> (('j McpServerManagerError + 'j ManagedMcpTool list) \<times> ('p McpServerManager \<times> 'w)) option" where
  "discover_servers env n [] s = Some (Inr [], s)"
| "discover_servers env n (name # names) s =
     (case io_bind (ensure_server_ready env name) (\<lambda>_. clear_routes_for_server name) s of
        (Inl e, s') \<Rightarrow> Some (Inl e, s')
      | (Inr _, s') \<Rightarrow>
          (case list_pages env n name None s' of
             None \<Rightarrow> None
           | Some (Inl e, s'') \<Rightarrow> Some (Inl e, s'')
           | Some (Inr tools, s'') \<Rightarrow>
               map_option (\<lambda>(r, s3). (map_sum id ((@) tools) r, s3)) (discover_servers env n names s'')))"

definition discover_tools ::
  "('p, 'j, 'w) McpEnv \<Rightarrow> nat \<Rightarrow> 'p McpServerManager \<times> 'w
     \<Rightarrow> (('j McpServerManagerError + 'j ManagedMcpTool list) \<times> ('p McpServerManager \<times> 'w)) option" where
  "discover_tools env n s = discover_servers env n (map fst (mg_servers (fst s))) s"

definition manager_call_tool ::
  "('p, 'j, 'w) McpEnv \<Rightarrow> rstr \<Rightarrow> 'j option \<Rightarrow> ('p, 'j, 'w, ('j, 'j McpToolCallResult) JsonRpcResponse) mcp" where
  "manager_call_tool env qualified_tool_name arguments =
     io_bind (io_read (\<lambda>(m, w). ok_or (UnknownTool qualified_tool_name) (bt_get (mg_tool_index m) qualified_tool_name))) (\<lambda>route.
     io_bind (ensure_server_ready env (route_server route)) (\<lambda>_.
     io_bind take_request_id (\<lambda>i.
     io_bind (server_process (route_server route) ''tools/call'' ''server process missing after initialization'') (\<lambda>p.
     lift_io (me_call_tool env p i
       \<lparr>cp_name = route_raw_name route, cp_arguments = arguments, cp_meta = None\<rparr>)))))"

definition shutdown_server :: "('p, 'j, 'w) McpEnv \<Rightarrow> rstr \<Rightarrow> ('p, 'j, 'w, unit) mcp" where
  "shutdown_server env name =
     io_bind (server_mut name) (\<lambda>sv.
     io_bind (case ms_process sv of None \<Rightarrow> io_return () | Some p \<Rightarrow> lift_io (me_shutdown env p)) (\<lambda>_.
     put_server name (sv\<lparr>ms_process := None, ms_initialized := False\<rparr>)))"

fun shutdown_servers :: "('p, 'j, 'w) McpEnv \<Rightarrow> rstr list \<Rightarrow> ('p, 'j, 'w, unit) mcp" where
  "shutdown_servers env [] = io_return ()"
| "shutdown_servers env (name # names) =
     io_bind (shutdown_server env name) (\<lambda>_. shutdown_servers env names)"

definition shutdown :: "('p, 'j, 'w) McpEnv \<Rightarrow> ('p, 'j, 'w, unit) mcp" where
  "shutdown env = (\<lambda>(m, w). shutdown_servers env (map fst (mg_servers m)) (m, w))"

end
