(* ===== verification/Mcp_Bridge.thy ===== *)
theory Mcp_Bridge
  imports Mcp_Manager
begin

text \<open>
  The registry between the MCP tools and the manager (\<open>runtime/src/mcp_tool_bridge.rs\<close>). The hash map is
  a list with every key once; the order of \<open>list_servers\<close> is the order of that list. Each operation holds
  the lock of the registry, so it is one step; a tool call releases it before it goes to the manager. The
  start of the thread and of its runtime, and \<open>serde_json::to_value\<close>, are arguments.
\<close>

datatype McpConnectionStatus = Disconnected | Connecting | Connected | AuthRequired | ConnectionError

fun connection_status_str :: "McpConnectionStatus \<Rightarrow> rstr" where
  "connection_status_str Disconnected = lit ''disconnected''"
| "connection_status_str Connecting = lit ''connecting''"
| "connection_status_str Connected = lit ''connected''"
| "connection_status_str AuthRequired = lit ''auth_required''"
| "connection_status_str ConnectionError = lit ''error''"

record McpResourceInfo =
  ri_uri :: rstr
  ri_name :: rstr
  ri_description :: "rstr option"
  ri_mime_type :: "rstr option"

record 'j McpToolInfo =
  ti_name :: rstr
  ti_description :: "rstr option"
  ti_input_schema :: "'j option"

record 'j McpServerState =
  st_server_name :: rstr
  st_status :: McpConnectionStatus
  st_tools :: "'j McpToolInfo list"
  st_resources :: "McpResourceInfo list"
  st_server_info :: "rstr option"
  st_error_message :: "rstr option"

record ('p, 'j) McpToolRegistry =
  tr_inner :: "(rstr \<times> 'j McpServerState) list"
  tr_manager :: "'p McpServerManager option"

definition McpToolRegistry_new :: "('p, 'j) McpToolRegistry" where
  "McpToolRegistry_new = \<lparr>tr_inner = [], tr_manager = None\<rparr>"

text \<open>\<open>OnceLock::set\<close>: the first manager stays.\<close>

definition set_manager ::
  "'p McpServerManager \<Rightarrow> ('p, 'j) McpToolRegistry \<Rightarrow> ('p McpServerManager + unit) \<times> ('p, 'j) McpToolRegistry" where
  "set_manager m r =
     (case tr_manager r of
        None \<Rightarrow> (Inr (), r\<lparr>tr_manager := Some m\<rparr>)
      | Some _ \<Rightarrow> (Inl m, r))"

definition hash_insert :: "'k \<Rightarrow> 'v \<Rightarrow> ('k \<times> 'v) list \<Rightarrow> ('k \<times> 'v) list" where
  "hash_insert k v m = filter (\<lambda>kv. fst kv \<noteq> k) m @ [(k, v)]"

definition register_server ::
  "rstr \<Rightarrow> McpConnectionStatus \<Rightarrow> 'j McpToolInfo list \<Rightarrow> McpResourceInfo list \<Rightarrow> rstr option
     \<Rightarrow> ('p, 'j) McpToolRegistry \<Rightarrow> ('p, 'j) McpToolRegistry" where
  "register_server name st ts rs info r =
     r\<lparr>tr_inner := hash_insert name
         \<lparr>st_server_name = name, st_status = st, st_tools = ts, st_resources = rs,
          st_server_info = info, st_error_message = None\<rparr> (tr_inner r)\<rparr>"

definition get_server :: "('p, 'j) McpToolRegistry \<Rightarrow> rstr \<Rightarrow> 'j McpServerState option" where
  "get_server r name = map_of (tr_inner r) name"

definition list_servers :: "('p, 'j) McpToolRegistry \<Rightarrow> 'j McpServerState list" where
  "list_servers r = map snd (tr_inner r)"

definition server_not_found :: "rstr \<Rightarrow> rstr" where
  "server_not_found name = lit ''server '' @ [39] @ name @ [39] @ lit '' not found''"

text \<open>The guard the queries share: the server is known and connected.\<close>

definition connected_state :: "('p, 'j) McpToolRegistry \<Rightarrow> rstr \<Rightarrow> rstr + 'j McpServerState" where
  "connected_state r name =
     (case get_server r name of
        None \<Rightarrow> Inl (server_not_found name)
      | Some s \<Rightarrow>
          if st_status s \<noteq> Connected then
            Inl (lit ''server '' @ [39] @ name @ [39] @ lit '' is not connected (status: ''
                 @ connection_status_str (st_status s) @ lit '')'')
          else Inr s)"

definition list_resources :: "('p, 'j) McpToolRegistry \<Rightarrow> rstr \<Rightarrow> rstr + McpResourceInfo list" where
  "list_resources r name = map_sum id st_resources (connected_state r name)"

definition read_resource :: "('p, 'j) McpToolRegistry \<Rightarrow> rstr \<Rightarrow> rstr \<Rightarrow> rstr + McpResourceInfo" where
  "read_resource r name uri =
     res_bind (connected_state r name) (\<lambda>s.
     ok_or (lit ''resource '' @ [39] @ uri @ [39] @ lit '' not found on server '' @ [39] @ name @ [39])
       (find (\<lambda>x. ri_uri x = uri) (st_resources s)))"

definition list_tools :: "('p, 'j) McpToolRegistry \<Rightarrow> rstr \<Rightarrow> rstr + 'j McpToolInfo list" where
  "list_tools r name = map_sum id st_tools (connected_state r name)"

definition set_auth_status ::
  "rstr \<Rightarrow> McpConnectionStatus \<Rightarrow> ('p, 'j) McpToolRegistry \<Rightarrow> (rstr + unit) \<times> ('p, 'j) McpToolRegistry" where
  "set_auth_status name st r =
     (case get_server r name of
        None \<Rightarrow> (Inl (server_not_found name), r)
      | Some s \<Rightarrow>
          (Inr (), r\<lparr>tr_inner := map (\<lambda>(n, s). (n, if n = name then s\<lparr>st_status := st\<rparr> else s)) (tr_inner r)\<rparr>))"

definition disconnect ::
  "rstr \<Rightarrow> ('p, 'j) McpToolRegistry \<Rightarrow> 'j McpServerState option \<times> ('p, 'j) McpToolRegistry" where
  "disconnect name r =
     (get_server r name, r\<lparr>tr_inner := filter (\<lambda>kv. fst kv \<noteq> name) (tr_inner r)\<rparr>)"

definition bridge_len :: "('p, 'j) McpToolRegistry \<Rightarrow> nat" where
  "bridge_len r = length (tr_inner r)"

definition bridge_is_empty :: "('p, 'j) McpToolRegistry \<Rightarrow> bool" where
  "bridge_is_empty r \<longleftrightarrow> bridge_len r = 0"

section \<open>Calling a tool\<close>

text \<open>What a call does with the response: an error of the server, or the result as a value.\<close>

definition tool_result_value ::
  "('j McpToolCallResult \<Rightarrow> rstr + 'v) \<Rightarrow> ('j, 'j McpToolCallResult) JsonRpcResponse \<Rightarrow> rstr + 'v" where
  "tool_result_value to_value response =
     (case rs_error response of
        Some e \<Rightarrow> Inl (lit ''MCP server returned JSON-RPC error for tools/call: '' @ je_message e @ lit '' (''
                   @ show_int (sint (je_code e)) @ lit '')'')
      | None \<Rightarrow>
          res_bind (ok_or (lit ''MCP server returned no result for tools/call'') (rs_result response)) (\<lambda>x.
          map_sum (\<lambda>e. lit ''failed to serialize MCP tool result: '' @ e) id (to_value x)))"

text \<open>Discovery, the call and the shutdown under the lock of the manager. The shutdown runs whether the call
  succeeded or not, but not if the discovery failed. A panic of the thread that makes the call is not modelled.\<close>

definition spawn_tool_call ::
  "('p, 'j, 'w) McpEnv \<Rightarrow> nat \<Rightarrow> rstr option \<Rightarrow> ('j McpToolCallResult \<Rightarrow> rstr + 'v) \<Rightarrow> rstr \<Rightarrow> 'j option
     \<Rightarrow> 'p McpServerManager \<times> 'w \<Rightarrow> ((rstr + 'v) \<times> ('p McpServerManager \<times> 'w)) option" where
  "spawn_tool_call env n start_error to_value qualified_tool_name arguments s =
     (case start_error of
        Some e \<Rightarrow> Some (Inl e, s)
      | None \<Rightarrow>
          (case discover_tools env n s of
             None \<Rightarrow> None
           | Some (Inl e, s1) \<Rightarrow> Some (Inl (manager_error_display e), s1)
           | Some (Inr _, s1) \<Rightarrow>
               (case manager_call_tool env qualified_tool_name arguments s1 of
                  (response, s2) \<Rightarrow>
                    (case shutdown env s2 of
                       (stopped, s3) \<Rightarrow>
                         (case (response, stopped) of
                            (Inl e, _) \<Rightarrow> Some (Inl (manager_error_display e), s3)
                          | (Inr _, Inl e) \<Rightarrow> Some (Inl (manager_error_display e), s3)
                          | (Inr r, Inr _) \<Rightarrow> Some (tool_result_value to_value r, s3))))))"

definition bridge_call_tool ::
  "('p, 'j, 'w) McpEnv \<Rightarrow> nat \<Rightarrow> rstr option \<Rightarrow> ('j \<Rightarrow> bool) \<Rightarrow> ('j McpToolCallResult \<Rightarrow> rstr + 'v) \<Rightarrow> rstr \<Rightarrow> rstr \<Rightarrow> 'j
     \<Rightarrow> ('p, 'j) McpToolRegistry \<times> 'w \<Rightarrow> ((rstr + 'v) \<times> ('p, 'j) McpToolRegistry \<times> 'w) option" where
  "bridge_call_tool env n start_error is_null to_value server_name tool_name arguments s =
     (let (r, w) = s in
      case connected_state r server_name of
        Inl e \<Rightarrow> Some (Inl e, (r, w))
      | Inr st \<Rightarrow>
          if \<not> list_ex (\<lambda>t. ti_name t = tool_name) (st_tools st) then
            Some (Inl (lit ''tool '' @ [39] @ tool_name @ [39] @ lit '' not found on server '' @ [39]
                       @ server_name @ [39]), (r, w))
          else
            (case tr_manager r of
               None \<Rightarrow> Some (Inl (lit ''MCP server manager is not configured''), (r, w))
             | Some m \<Rightarrow>
                 map_option (\<lambda>(x, (m', w')). (x, (r\<lparr>tr_manager := Some m'\<rparr>, w')))
                   (spawn_tool_call env n start_error to_value (mcp_tool_name server_name tool_name)
                      (if is_null arguments then None else Some arguments) (m, w))))"

end
