(* ===== verification/Mcp_Manager_Props.thy ===== *)
theory Mcp_Manager_Props
  imports Mcp_Manager
begin

text \<open>
  What the manager of MCP servers promises: its invariant, that a discovered tool is called on its own
  server, and when a discovery returns.
\<close>

section \<open>What the operations keep\<close>

text \<open>A manager is well formed if its maps are ordered and every route leads to one of its servers.\<close>

definition servers_of :: "'p McpServerManager \<Rightarrow> rstr set" where
  "servers_of m = fst ` set (mg_servers m)"

lemma servers_of_update [simp]:
  "servers_of (m\<lparr>mg_tool_index := i\<rparr>) = servers_of m"
  "servers_of (m\<lparr>mg_next_request_id := k\<rparr>) = servers_of m"
  "servers_of (m\<lparr>mg_unsupported := us\<rparr>) = servers_of m"
  "servers_of (m\<lparr>mg_servers := bt_insert name sv (mg_servers m)\<rparr>) = insert name (servers_of m)"
  by (simp_all add: servers_of_def fst_set_bt_insert)

definition manager_ok :: "'p McpServerManager \<Rightarrow> bool" where
  "manager_ok m \<longleftrightarrow>
     bt_ok (mg_servers m) \<and> bt_ok (mg_tool_index m)
   \<and> (\<forall>(q, r) \<in> set (mg_tool_index m). route_server r \<in> servers_of m)"

text \<open>An operation on a server of the manager keeps the set of servers and the invariant; one that keeps
  the routes as well is used between the tool lists.\<close>

definition keeps :: "rstr \<Rightarrow> ('p McpServerManager \<times> 'w \<Rightarrow> 'r \<times> ('p McpServerManager \<times> 'w)) \<Rightarrow> bool" where
  "keeps name f \<longleftrightarrow>
     (\<forall>m w r m' w'. manager_ok m \<longrightarrow> name \<in> servers_of m \<longrightarrow> f (m, w) = (r, (m', w')) \<longrightarrow>
        manager_ok m' \<and> servers_of m' = servers_of m)"

lemma keepsD:
  assumes "keeps name f" "f (m, w) = (r, (m', w'))" "manager_ok m" "name \<in> servers_of m"
  shows "manager_ok m'" and "servers_of m' = servers_of m"
  using assms unfolding keeps_def by blast+

named_theorems keeps_intros \<open>operations that keep a manager well formed\<close>

lemma keeps_basic [keeps_intros]:
  "keeps name (io_return x)" "keeps name (io_read f)" "keeps name (io_result r)"
  "keeps name (server_mut n)" "keeps name (lift_io g)"
  by (auto simp: keeps_def io_return_def io_read_def io_result_def server_mut_def lift_io_def split: prod.splits)

lemma keeps_bind [keeps_intros]:
  assumes "keeps name f" "\<And>x. keeps name (g x)"
  shows "keeps name (io_bind f g)"
  unfolding keeps_def
proof (intro allI impI)
  fix m w r m' w'
  assume ok: "manager_ok m" "name \<in> servers_of m" and b: "io_bind f g (m, w) = (r, (m', w'))"
  obtain r1 m1 w1 where f: "f (m, w) = (r1, (m1, w1))" by (rule prod_cases3)
  then have 1: "manager_ok m1" "servers_of m1 = servers_of m"
    using assms(1) ok unfolding keeps_def by blast+
  show "manager_ok m' \<and> servers_of m' = servers_of m"
  proof (cases r1)
    case (Inl e)
    then show ?thesis using b f 1 by (simp add: io_bind_def)
  next
    case (Inr x)
    then have "g x (m1, w1) = (r, (m', w'))" using b f by (simp add: io_bind_def)
    then show ?thesis using assms(2)[of x] 1 ok(2) unfolding keeps_def by metis
  qed
qed

lemma keeps_take_request_id [keeps_intros]: "keeps name take_request_id"
  by (auto simp: keeps_def take_request_id_def manager_ok_def)

lemma keeps_server_process [keeps_intros]: "keeps name (server_process n method details)"
  unfolding server_process_def by (intro keeps_intros)

lemma keeps_put_server [keeps_intros]: "keeps name (put_server name sv)"
  by (auto simp: keeps_def put_server_def manager_ok_def bt_ok_insert fst_set_bt_insert)

lemma keeps_if [keeps_intros]: "keeps name f \<Longrightarrow> keeps name g \<Longrightarrow> keeps name (if c then f else g)"
  by simp

lemma keeps_ensure_ready [keeps_intros]: "keeps name (ensure_server_ready env name)"
  unfolding ensure_server_ready_def spawn_if_needed_def initialize_if_needed_def by (intro keeps_intros)

lemma set_bt_insert_subset: "set (bt_insert k v m) \<subseteq> insert (k, v) (set m)"
  by (induction k v m rule: bt_insert.induct) auto

lemma bt_ok_filter: "bt_ok m \<Longrightarrow> bt_ok (filter P m)"
  by (induction m) (auto simp: bt_ok_Cons)

lemma keeps_clear_routes [keeps_intros]: "keeps name (clear_routes_for_server n)"
  by (auto simp: keeps_def clear_routes_for_server_def manager_ok_def bt_ok_filter)

lemma keeps_index_tools [keeps_intros]: "keeps name (index_tools (map (managed_tool name) ts))"
proof -
  have "bt_ok (fold (\<lambda>t. bt_insert (mm_qualified_name t) (tool_route t)) (map (managed_tool name) ts) idx)
    \<and> (\<forall>(q, r) \<in> set (fold (\<lambda>t. bt_insert (mm_qualified_name t) (tool_route t)) (map (managed_tool name) ts) idx).
         route_server r \<in> S)"
    if "bt_ok idx" "\<forall>(q, r) \<in> set idx. route_server r \<in> S" "name \<in> S" for idx S
    using that
  proof (induction ts arbitrary: idx)
    case (Cons t ts)
    let ?i = "bt_insert (mm_qualified_name (managed_tool name t)) (tool_route (managed_tool name t)) idx"
    have "\<forall>(q, r) \<in> set ?i. route_server r \<in> S"
      using Cons.prems set_bt_insert_subset[of "mm_qualified_name (managed_tool name t)" "tool_route (managed_tool name t)" idx]
      by (fastforce simp: tool_route_def managed_tool_def)
    then show ?case using Cons.IH[of ?i] Cons.prems by (simp add: bt_ok_insert)
  qed simp
  note step = this
  show ?thesis unfolding keeps_def
  proof (intro allI impI)
    fix m w r m' w'
    assume m: "manager_ok m" "name \<in> servers_of m"
      and i: "index_tools (map (managed_tool name) ts) (m, w) = (r, (m', w'))"
    from step[of "mg_tool_index m" "servers_of m"] m
    show "manager_ok m' \<and> servers_of m' = servers_of m"
      using i by (simp add: manager_ok_def index_tools_def) auto
  qed
qed

lemma keeps_list_page [keeps_intros]: "keeps name (list_page env name cursor)"
  unfolding list_page_def by (intro keeps_intros)

lemma list_pages_ok:
  assumes "manager_ok m" "name \<in> servers_of m" "list_pages env n name cursor (m, w) = Some (r, (m', w'))"
  shows "manager_ok m' \<and> servers_of m' = servers_of m"
  using assms
proof (induction n arbitrary: cursor m w r m' w')
  case (Suc n)
  obtain r1 m1 w1 where p: "list_page env name cursor (m, w) = (r1, (m1, w1))"
    by (rule prod_cases3)
  then have 1: "manager_ok m1" "servers_of m1 = servers_of m"
    using keepsD[OF keeps_list_page p Suc.prems(1,2)] by simp_all
  show ?case
    using Suc.prems(3) p 1 Suc.IH[of m1 _ w1] Suc.prems(2)
    by (auto simp: Let_def split: sum.splits option.splits)
qed simp

lemma discover_servers_ok:
  assumes "manager_ok m" "set names \<subseteq> servers_of m" "discover_servers env n names (m, w) = Some (r, (m', w'))"
  shows "manager_ok m' \<and> servers_of m' = servers_of m"
  using assms
proof (induction names arbitrary: m w r m' w')
  case (Cons name names)
  let ?f = "io_bind (ensure_server_ready env name) (\<lambda>_. clear_routes_for_server name)"
  obtain r1 m1 w1 where f: "?f (m, w) = (r1, (m1, w1))" by (rule prod_cases3)
  have k: "keeps name ?f" by (intro keeps_intros)
  have 1: "manager_ok m1" "servers_of m1 = servers_of m"
    using keepsD[OF k f Cons.prems(1)] Cons.prems(2) by simp_all
  show ?case
  proof (cases r1)
    case (Inl e)
    then show ?thesis using Cons.prems(3) f 1 by simp
  next
    case (Inr x)
    show ?thesis
    proof (cases "list_pages env n name None (m1, w1)")
      case None
      then show ?thesis using Cons.prems(3) f Inr by simp
    next
      case (Some y)
      obtain r2 m2 w2 where y: "y = (r2, (m2, w2))" by (rule prod_cases3)
      have 2: "manager_ok m2 \<and> servers_of m2 = servers_of m1"
        using list_pages_ok[OF 1(1) _ Some[unfolded y]] 1(2) Cons.prems(2) by auto
      show ?thesis
      proof (cases r2)
        case (Inl e)
        then show ?thesis using Cons.prems(3) f \<open>r1 = Inr x\<close> Some y 1 2 by simp
      next
        case R: (Inr tools)
        obtain r3 where "discover_servers env n names (m2, w2) = Some (r3, (m', w'))"
          using Cons.prems(3) f Inr Some y R by (auto simp del: discover_servers.simps(1) simp: discover_servers.simps(2))
        then show ?thesis using Cons.IH[of m2 w2 r3 m' w'] 1 2 Cons.prems(2) by simp
      qed
    qed
  qed
qed simp

lemma call_tool_ok:
  assumes "manager_ok m" "manager_call_tool env q args (m, w) = (r, (m', w'))"
  shows "manager_ok m' \<and> servers_of m' = servers_of m"
proof (cases "bt_get (mg_tool_index m) q")
  case None
  then show ?thesis using assms by (simp add: manager_call_tool_def io_bind_def io_read_def)
next
  case (Some route)
  then have "route_server route \<in> servers_of m"
    using assms(1) map_of_SomeD[OF Some] by (auto simp: manager_ok_def)
  moreover have "keeps (route_server route) (io_bind (ensure_server_ready env (route_server route)) (\<lambda>_.
      io_bind take_request_id (\<lambda>i.
      io_bind (server_process (route_server route) ''tools/call'' ''server process missing after initialization'') (\<lambda>p.
      lift_io (me_call_tool env p i \<lparr>cp_name = route_raw_name route, cp_arguments = args, cp_meta = None\<rparr>)))))"
    (is "keeps _ ?f") by (intro keeps_intros)
  moreover have "?f (m, w) = (r, (m', w'))"
    using assms(2) Some by (simp add: manager_call_tool_def io_bind_def[of "io_read _"] io_read_def)
  ultimately show ?thesis using keepsD[of _ ?f] assms(1) by blast
qed

lemma shutdown_ok:
  assumes "manager_ok m" "shutdown env (m, w) = (r, (m', w'))"
  shows "manager_ok m' \<and> servers_of m' = servers_of m"
proof -
  have step: "manager_ok m' \<and> servers_of m' = servers_of m"
    if "manager_ok m" "set names \<subseteq> servers_of m" "shutdown_servers env names (m, w) = (r, (m', w'))"
    for names m m' w w' r
    using that
  proof (induction names arbitrary: m w)
    case (Cons name names)
    have k: "keeps name (shutdown_server env name)"
      unfolding shutdown_server_def by (auto intro!: keeps_intros split: option.split)
    obtain r1 m1 w1 where f: "shutdown_server env name (m, w) = (r1, (m1, w1))" by (rule prod_cases3)
    have 1: "manager_ok m1" "servers_of m1 = servers_of m"
      using keepsD[OF k f Cons.prems(1)] Cons.prems(2) by simp_all
    have sub: "set names \<subseteq> servers_of m1" using Cons.prems(2) unfolding 1(2) by simp
    show ?case
    proof (cases r1)
      case (Inl e)
      then have "(m', w') = (m1, w1)" using Cons.prems(3) f by (auto simp: io_bind_def)
      then show ?thesis using 1 by blast
    next
      case (Inr u)
      then have "shutdown_servers env names (m1, w1) = (r, m', w')" using Cons.prems(3) f by (simp add: io_bind_def)
      from Cons.IH[OF 1(1) sub this] show ?thesis unfolding 1(2) .
    qed
  qed (simp add: io_return_def)
  have "shutdown_servers env (map fst (mg_servers m)) (m, w) = (r, m', w')" using assms(2) by (simp add: shutdown_def)
  from step[OF assms(1) _ this] show ?thesis by (simp add: servers_of_def)
qed

section \<open>What a successful discovery leaves behind\<close>

definition ready :: "'p McpServerManager \<Rightarrow> rstr \<Rightarrow> 'p \<Rightarrow> bool" where
  "ready m name p \<longleftrightarrow>
     (\<exists>sv. bt_get (mg_servers m) name = Some sv \<and> ms_process sv = Some p \<and> ms_initialized sv)"

definition bump_id :: "'p McpServerManager \<Rightarrow> 'p McpServerManager" where
  "bump_id m = m\<lparr>mg_next_request_id := (if mg_next_request_id m = - 1 then - 1 else mg_next_request_id m + 1)\<rparr>"

lemma bump_id_simps [simp]:
  "mg_servers (bump_id m) = mg_servers m" "mg_tool_index (bump_id m) = mg_tool_index m"
  by (simp_all add: bump_id_def)

lemma take_request_id_result: "take_request_id (m, w) = (Inr i, (m', w')) \<longleftrightarrow>
    i = IdNumber (mg_next_request_id m) \<and> m' = bump_id m \<and> w' = w"
  by (auto simp: take_request_id_def bump_id_def)

lemma server_mut_result: "server_mut name (m, w) = (Inr sv, (m', w')) \<longleftrightarrow>
    bt_get (mg_servers m) name = Some sv \<and> m' = m \<and> w' = w"
  by (auto simp: server_mut_def result_simps)

lemma put_server_result: "put_server name sv (m, w) = (Inr u, (m', w')) \<longleftrightarrow>
    m' = m\<lparr>mg_servers := bt_insert name sv (mg_servers m)\<rparr> \<and> w' = w"
  by (auto simp: put_server_def)

lemma lift_io_result: "lift_io f (m, w) = (Inr x, (m', w')) \<longleftrightarrow> f w = (Inr x, w') \<and> m' = m"
  by (cases "f w"; cases "fst (f w)") (auto simp: lift_io_def)

lemma server_process_result: "server_process name method details (m, w) = (Inr p, (m', w')) \<longleftrightarrow>
    (\<exists>sv. bt_get (mg_servers m) name = Some sv \<and> ms_process sv = Some p) \<and> m' = m \<and> w' = w"
  by (auto simp: server_process_def io_bind_Inr_iff server_mut_result io_result_def result_simps)

lemma io_result_Inr: "io_result r s = (Inr x, s') \<longleftrightarrow> r = Inr x \<and> s' = s"
  by (auto simp: io_result_def)

lemma io_return_Inr: "io_return y s = (Inr x, s') \<longleftrightarrow> y = x \<and> s' = s"
  by (auto simp: io_return_def)

lemma index_tools_result: "index_tools ts (m, w) = (Inr u, (m', w')) \<longleftrightarrow>
    m' = m\<lparr>mg_tool_index := fold (\<lambda>t. bt_insert (mm_qualified_name t) (tool_route t)) ts (mg_tool_index m)\<rparr> \<and> w' = w"
  by (auto simp: index_tools_def)

lemmas call_results = take_request_id_result index_tools_result server_mut_result put_server_result lift_io_result server_process_result
  io_result_Inr io_return_Inr io_bind_Inr_iff

lemma initialize_result:
  assumes "initialize_if_needed env name sv (m, w) = (Inr (), (m', w'))"
    and "bt_get (mg_servers m) name = Some sv" "ms_process sv = Some p"
  shows "ready m' name p \<and> mg_tool_index m' = mg_tool_index m
    \<and> (\<forall>n. n \<noteq> name \<longrightarrow> bt_get (mg_servers m') n = bt_get (mg_servers m) n)"
proof (cases "ms_initialized sv")
  case True
  then show ?thesis using assms by (auto simp: initialize_if_needed_def io_return_Inr ready_def)
next
  case False
  then have "m' = (bump_id m)\<lparr>mg_servers := bt_insert name (sv\<lparr>ms_initialized := True\<rparr>) (mg_servers m)\<rparr>"
    using assms(1,2) unfolding initialize_if_needed_def by (auto simp: call_results)
  then show ?thesis using assms(2,3) by (auto simp: ready_def bt_get_insert)
qed

lemma spawn_result:
  assumes "spawn_if_needed env name sv (m, w) = (Inr (), (m', w'))"
    and "bt_get (mg_servers m) name = Some sv" "bt_get (mg_servers m') name = Some sv'"
  shows "ms_process sv' \<noteq> None \<and> mg_tool_index m' = mg_tool_index m
    \<and> (\<forall>n. n \<noteq> name \<longrightarrow> bt_get (mg_servers m') n = bt_get (mg_servers m) n)"
  using assms by (auto simp: spawn_if_needed_def call_results bt_get_insert split: if_splits)

lemma ensure_ready_result:
  assumes "ensure_server_ready env name (m, w) = (Inr (), (m', w'))"
  shows "(\<exists>p. ready m' name p) \<and> mg_tool_index m' = mg_tool_index m
    \<and> (\<forall>n. n \<noteq> name \<longrightarrow> bt_get (mg_servers m') n = bt_get (mg_servers m) n)"
proof -
  obtain sv m1 w1 sv1 where sv: "bt_get (mg_servers m) name = Some sv"
    "spawn_if_needed env name sv (m, w) = (Inr (), (m1, w1))" "bt_get (mg_servers m1) name = Some sv1"
    "initialize_if_needed env name sv1 (m1, w1) = (Inr (), (m', w'))"
    using assms unfolding ensure_server_ready_def by (auto simp: io_bind_Inr_iff server_mut_result)
  from spawn_result[OF sv(2,1,3)] obtain p where p: "ms_process sv1 = Some p" "mg_tool_index m1 = mg_tool_index m"
    "\<forall>n. n \<noteq> name \<longrightarrow> bt_get (mg_servers m1) n = bt_get (mg_servers m) n" by blast
  show ?thesis using initialize_result[OF sv(4,3) p(1)] p(2,3) by auto
qed

definition routes_of :: "'j ManagedMcpTool list \<Rightarrow> (rstr \<rightharpoonup> ToolRoute) \<Rightarrow> rstr \<rightharpoonup> ToolRoute" where
  "routes_of tools f = f ++ map_of (rev (map (\<lambda>t. (mm_qualified_name t, tool_route t)) tools))"

lemma routes_of_append: "routes_of (a @ b) f = routes_of b (routes_of a f)"
  by (simp add: routes_of_def)

lemma list_page_result:
  assumes "list_page env name cursor (m, w) = (Inr page, (m', w'))"
  shows "mg_servers m' = mg_servers m
    \<and> bt_get (mg_tool_index m') = routes_of (map (managed_tool name) (lt_tools page)) (bt_get (mg_tool_index m))"
proof -
  have get: "bt_get (fold (\<lambda>t. bt_insert (mm_qualified_name t) (tool_route t)) ts idx) = routes_of ts (bt_get idx)"
    for ts idx
    by (induction ts arbitrary: idx) (auto simp: routes_of_def bt_get_insert fun_eq_iff map_add_def split: option.split)
  have "m' = (bump_id m)\<lparr>mg_tool_index := fold (\<lambda>t. bt_insert (mm_qualified_name t) (tool_route t))
      (map (managed_tool name) (lt_tools page)) (mg_tool_index m)\<rparr>"
    using assms unfolding list_page_def by (auto simp: call_results)
  then show ?thesis by (simp add: get)
qed

lemma list_pages_result:
  assumes "list_pages env n name cursor (m, w) = Some (Inr tools, (m', w'))"
  shows "mg_servers m' = mg_servers m \<and> bt_get (mg_tool_index m') = routes_of tools (bt_get (mg_tool_index m))
    \<and> (\<forall>t \<in> set tools. mm_server_name t = name \<and> mm_qualified_name t = mcp_tool_name name (mm_raw_name t))"
  using assms
proof (induction n arbitrary: cursor m w tools)
  case (Suc n)
  from Suc.prems obtain page m1 w1 where p: "list_page env name cursor (m, w) = (Inr page, (m1, w1))"
    by (auto simp: Let_def split: sum.splits prod.splits option.splits)
  let ?ts = "map (managed_tool name) (lt_tools page)"
  note r = list_page_result[OF p]
  have names: "\<forall>t \<in> set ?ts. mm_server_name t = name \<and> mm_qualified_name t = mcp_tool_name name (mm_raw_name t)"
    by (auto simp: managed_tool_def)
  show ?case
  proof (cases "lt_next_cursor page")
    case None
    then have "tools = ?ts" "(m', w') = (m1, w1)" using Suc.prems p by (auto simp: Let_def)
    then show ?thesis using r names by auto
  next
    case (Some next')
    then obtain more where more: "list_pages env n name (Some next') (m1, w1) = Some (Inr more, (m', w'))"
      "tools = ?ts @ more"
      using Suc.prems p by (auto simp: Let_def map_sum_Inr_iff)
    note IH = Suc.IH[OF more(1)]
    have "mg_servers m' = mg_servers m" using IH r by simp
    moreover have "bt_get (mg_tool_index m') = routes_of tools (bt_get (mg_tool_index m))"
      unfolding more(2) routes_of_append using IH r by simp
    moreover have "\<forall>t \<in> set tools. mm_server_name t = name \<and> mm_qualified_name t = mcp_tool_name name (mm_raw_name t)"
      using IH names unfolding more(2) by (simp only: set_append ball_Un) blast
    ultimately show ?thesis by blast
  qed
qed simp

lemma get_filter_routes:
  assumes "bt_ok idx"
  shows "bt_get (filter (\<lambda>(q, r). route_server r \<noteq> name) idx) q =
    (case bt_get idx q of Some r \<Rightarrow> if route_server r = name then None else Some r | None \<Rightarrow> None)"
  using assms
proof (induction idx)
  case (Cons x idx)
  obtain k r where x: "x = (k, r)" by (cases x)
  have "k \<notin> fst ` set idx" using Cons.prems by (auto simp: x bt_ok_Cons)
  then have n: "bt_get idx k = None" by (simp add: map_of_eq_None_iff)
  show ?case using Cons n by (auto simp: x bt_ok_Cons)
qed simp

text \<open>Clearing the routes of a server before its tools are indexed does not lose the tools of another.\<close>

definition without_servers :: "rstr set \<Rightarrow> (rstr \<rightharpoonup> ToolRoute) \<Rightarrow> rstr \<rightharpoonup> ToolRoute" where
  "without_servers S f q = (case f q of Some r \<Rightarrow> if route_server r \<in> S then None else Some r | None \<Rightarrow> None)"

lemma without_routes_of:
  assumes "\<forall>t \<in> set tools. mm_server_name t \<notin> S"
  shows "without_servers S (routes_of tools f) = routes_of tools (without_servers S f)"
proof
  fix q
  show "without_servers S (routes_of tools f) q = routes_of tools (without_servers S f) q"
  proof (cases "map_of (rev (map (\<lambda>t. (mm_qualified_name t, tool_route t)) tools)) q")
    case None
    then show ?thesis by (simp add: without_servers_def routes_of_def map_add_def)
  next
    case (Some r)
    then have "\<exists>t \<in> set tools. r = tool_route t" by (auto dest!: map_of_SomeD)
    then show ?thesis using Some assms by (auto simp: without_servers_def routes_of_def map_add_def tool_route_def)
  qed
qed

lemma discover_servers_result:
  assumes "discover_servers env n names (m, w) = Some (Inr tools, (m', w'))"
    and "manager_ok m" "set names \<subseteq> servers_of m" "distinct names"
  shows "(\<forall>name \<in> set names. \<exists>p. ready m' name p)
    \<and> (\<forall>name. name \<notin> set names \<longrightarrow> bt_get (mg_servers m') name = bt_get (mg_servers m) name)
    \<and> bt_get (mg_tool_index m') = routes_of tools (without_servers (set names) (bt_get (mg_tool_index m)))
    \<and> (\<forall>t \<in> set tools. mm_server_name t \<in> set names
         \<and> mm_qualified_name t = mcp_tool_name (mm_server_name t) (mm_raw_name t))"
  using assms
proof (induction names arbitrary: m w tools)
  case Nil
  then show ?case by (simp add: routes_of_def without_servers_def fun_eq_iff split: option.split)
next
  case (Cons name names)
  obtain m0 w0 m1 w1 ts m2 w2 more where
      e: "ensure_server_ready env name (m, w) = (Inr (), (m0, w0))"
    and c: "m1 = m0\<lparr>mg_tool_index := filter (\<lambda>(q, r). route_server r \<noteq> name) (mg_tool_index m0)\<rparr>"
    and l: "list_pages env n name None (m1, w0) = Some (Inr ts, (m2, w2))"
    and d: "discover_servers env n names (m2, w2) = Some (Inr more, (m', w'))"
    and tools: "tools = ts @ more"
    using Cons.prems(1)
    by (auto simp: clear_routes_for_server_def io_bind_def map_sum_Inr_iff split: prod.splits sum.splits option.splits)
  note e' = ensure_ready_result[OF e] and l' = list_pages_result[OF l]
  have name: "name \<in> servers_of m" using Cons.prems(3) by simp
  have k0: "manager_ok m0" "servers_of m0 = servers_of m"
    using keepsD[OF keeps_ensure_ready e Cons.prems(2) name] by auto
  have k1: "manager_ok m1" "servers_of m1 = servers_of m"
    using k0 by (auto simp: c manager_ok_def bt_ok_filter)
  have k2: "manager_ok m2" "servers_of m2 = servers_of m"
    using list_pages_ok[OF k1(1) _ l] k1(2) name by auto
  have sub: "set names \<subseteq> servers_of m2" "distinct names" "name \<notin> set names"
    using Cons.prems(3,4) k2(2) by auto
  note IH = Cons.IH[OF d k2(1) sub(1,2)]
  have "bt_ok (mg_tool_index m0)" using k0(1) by (simp add: manager_ok_def)
  then have i1: "bt_get (mg_tool_index m1) = without_servers {name} (bt_get (mg_tool_index m))"
    using e' by (auto simp: c get_filter_routes without_servers_def fun_eq_iff split: option.split)
  have "\<forall>t \<in> set ts. mm_server_name t \<notin> set names" using l' sub(3) by auto
  then have "without_servers (set names) (bt_get (mg_tool_index m2))
      = routes_of ts (without_servers (set names) (bt_get (mg_tool_index m1)))"
    using l' by (simp add: without_routes_of)
  also have "\<dots> = routes_of ts (without_servers (set (name # names)) (bt_get (mg_tool_index m)))"
  proof -
    have "without_servers (set names) (without_servers {name} f) = without_servers (set (name # names)) f" for f
      by (auto simp: without_servers_def fun_eq_iff split: option.split)
    then show ?thesis by (simp only: i1)
  qed
  finally have idx: "bt_get (mg_tool_index m') = routes_of tools (without_servers (set (name # names)) (bt_get (mg_tool_index m)))"
    using IH by (simp add: tools routes_of_append)
  have "\<exists>p. ready m' name p"
    using e' l' IH sub(3) by (auto simp: c ready_def)
  moreover have "bt_get (mg_servers m') k = bt_get (mg_servers m) k" if "k \<notin> set (name # names)" for k
    using that e' l' IH by (simp add: c)
  moreover have "\<forall>t \<in> set tools. mm_server_name t \<in> set (name # names)
      \<and> mm_qualified_name t = mcp_tool_name (mm_server_name t) (mm_raw_name t)"
    using l' IH by (auto simp: tools)
  ultimately show ?case using IH idx by auto
qed

text \<open>C26: after a successful discovery the routes are exactly the discovered tools: a qualified name leads to
  the server and the tool that were listed last under it, and a name that was not listed leads nowhere.
  Calling the name of a discovered tool that no tool listed after it shares reaches the running process of the
  tool's own server under its own name, with one request and no other effect - so a tool whose name is shared is
  called unless another of that name was listed later; an unknown name is an error that changes nothing.\<close>

theorem discovered_tools_are_called:
  assumes "manager_ok m" "discover_tools env n (m, w) = Some (Inr tools, (m', w'))"
  shows "bt_get (mg_tool_index m') q = map_of (rev (map (\<lambda>t. (mm_qualified_name t, tool_route t)) tools)) q
    \<and> (q \<notin> mm_qualified_name ` set tools \<longrightarrow> manager_call_tool env q args (m', w') = (Inl (UnknownTool q), (m', w')))
    \<and> (tools = before @ t # after \<longrightarrow> mm_qualified_name t \<notin> mm_qualified_name ` set after \<longrightarrow>
        (\<exists>p. ready m' (mm_server_name t) p
           \<and> manager_call_tool env (mm_qualified_name t) args (m', w')
             = lift_io (me_call_tool env p (IdNumber (mg_next_request_id m'))
                 \<lparr>cp_name = mm_raw_name t, cp_arguments = args, cp_meta = None\<rparr>) (bump_id m', w')))"
proof -
  let ?names = "map fst (mg_servers m)"
  have d: "discover_servers env n ?names (m, w) = Some (Inr tools, (m', w'))"
    using assms(2) by (simp add: discover_tools_def)
  have "set ?names \<subseteq> servers_of m" "distinct ?names"
    using assms(1) by (auto simp: servers_of_def manager_ok_def bt_ok_distinct)
  note r = discover_servers_result[OF d assms(1) this]
  have "without_servers (set ?names) (bt_get (mg_tool_index m)) = (\<lambda>q. None)"
    using assms(1) by (fastforce simp: without_servers_def manager_ok_def servers_of_def fun_eq_iff
        dest: map_of_SomeD split: option.split)
  then have idx: "bt_get (mg_tool_index m') = map_of (rev (map (\<lambda>t. (mm_qualified_name t, tool_route t)) tools))"
    using r by (simp add: routes_of_def map_add_def fun_eq_iff split: option.split)
  have unknown: "manager_call_tool env q args (m', w') = (Inl (UnknownTool q), (m', w'))"
    if "q \<notin> mm_qualified_name ` set tools"
  proof -
    have "bt_get (mg_tool_index m') q = None" using that unfolding idx by (auto simp: map_of_eq_None_iff image_iff)
    then show ?thesis by (simp add: manager_call_tool_def io_bind_def io_read_def)
  qed
  have call: "\<exists>p. ready m' (mm_server_name t) p
      \<and> manager_call_tool env (mm_qualified_name t) args (m', w')
        = lift_io (me_call_tool env p (IdNumber (mg_next_request_id m'))
            \<lparr>cp_name = mm_raw_name t, cp_arguments = args, cp_meta = None\<rparr>) (bump_id m', w')"
    if t: "tools = before @ t # after" "mm_qualified_name t \<notin> mm_qualified_name ` set after"
  proof -
    have "map_of (map (\<lambda>t. (mm_qualified_name t, tool_route t)) (rev after)) (mm_qualified_name t) = None"
      using t(2) by (auto simp: map_of_eq_None_iff image_iff)
    then have get: "bt_get (mg_tool_index m') (mm_qualified_name t) = Some (tool_route t)"
      unfolding idx by (simp add: t(1) rev_map[symmetric] map_add_def)
    have "t \<in> set tools" using t(1) by simp
    then have "mm_server_name t \<in> set ?names" using r by blast
    then obtain p where p: "ready m' (mm_server_name t) p" using r by blast
    then obtain sv where sv: "bt_get (mg_servers m') (mm_server_name t) = Some sv" "ms_process sv = Some p" "ms_initialized sv"
      by (auto simp: ready_def)
    have "ensure_server_ready env (mm_server_name t) (m', w') = (Inr (), (m', w'))"
      using sv by (simp add: ensure_server_ready_def spawn_if_needed_def initialize_if_needed_def
          io_bind_def server_mut_def io_return_def)
    then have "manager_call_tool env (mm_qualified_name t) args (m', w')
        = lift_io (me_call_tool env p (IdNumber (mg_next_request_id m'))
            \<lparr>cp_name = mm_raw_name t, cp_arguments = args, cp_meta = None\<rparr>) (bump_id m', w')"
      using get sv by (simp add: manager_call_tool_def io_bind_def io_read_def tool_route_def take_request_id_def
          bump_id_def server_process_def server_mut_def io_result_def)
    then show ?thesis using p by blast
  qed
  show ?thesis using idx unknown call by (intro conjI impI) simp_all
qed

section \<open>Reachable managers\<close>

lemma add_server_ok:
  assumes "manager_ok m"
  shows "manager_ok (add_server m nc)"
  using assms by (cases nc) (auto simp: manager_ok_def bt_ok_insert split: option.split)

lemma from_servers_ok: "manager_ok (from_servers servers)"
proof -
  have "manager_ok (foldl add_server m servers)" if "manager_ok m" for m
    using that by (induction servers arbitrary: m) (auto intro: add_server_ok simp del: add_server.simps)
  moreover have "manager_ok \<lparr>mg_servers = [], mg_unsupported = [], mg_tool_index = [], mg_next_request_id = 1\<rparr>"
    by (simp add: manager_ok_def)
  ultimately show ?thesis unfolding from_servers_def .
qed

lemma stdio_bootstrap: "server_transport (server c) = TransportStdio \<Longrightarrow> \<exists>b. bootstrap_from_scoped_config n c = Some b"
  by (cases "server c") (simp_all add: bootstrap_from_scoped_config_def mcp_server_signature_def Let_def)

lemma foldl_add_server_names:
  "servers_of (foldl add_server m servers) =
     servers_of m \<union> {n. \<exists>c. (n, c) \<in> set servers \<and> server_transport (server c) = TransportStdio}"
proof (induction servers arbitrary: m)
  case (Cons nc servers)
  obtain n c where nc: "nc = (n, c)" by (cases nc)
  have "servers_of (add_server m nc) = servers_of m \<union> (if server_transport (server c) = TransportStdio then {n} else {})"
    using stdio_bootstrap[of c n] by (auto simp: nc)
  then show ?case using Cons.IH[of "add_server m nc"] by (auto simp: nc)
qed simp

lemma from_servers_names:
  "servers_of (from_servers servers) = {n. \<exists>c. (n, c) \<in> set servers \<and> server_transport (server c) = TransportStdio}"
  unfolding from_servers_def foldl_add_server_names by (simp add: servers_of_def)

text \<open>The managers a program can have: a new one, and what an operation leaves, whatever the processes do.\<close>

inductive reachable_manager ::
  "('p, 'j, 'w) McpEnv \<Rightarrow> 'p McpServerManager \<Rightarrow> 'p McpServerManager \<Rightarrow> bool" for env m0 where
  start: "reachable_manager env m0 m0"
| discover: "reachable_manager env m0 m \<Longrightarrow> discover_tools env n (m, w) = Some (r, (m', w')) \<Longrightarrow>
    reachable_manager env m0 m'"
| call: "reachable_manager env m0 m \<Longrightarrow> manager_call_tool env q args (m, w) = (r, (m', w')) \<Longrightarrow>
    reachable_manager env m0 m'"
| stop: "reachable_manager env m0 m \<Longrightarrow> shutdown env (m, w) = (r, (m', w')) \<Longrightarrow>
    reachable_manager env m0 m'"

text \<open>whatever the servers answer and however discoveries, calls and shutdowns fail, the servers of a
  manager stay the configured stdio servers, its maps stay ordered, and every route leads to one of its
  servers.\<close>

theorem manager_invariant:
  assumes "reachable_manager env (from_servers servers) m"
  shows "manager_ok m
    \<and> servers_of m = {n. \<exists>c. (n, c) \<in> set servers \<and> server_transport (server c) = TransportStdio}
    \<and> (bt_get (mg_tool_index m) q = Some r \<longrightarrow> route_server r \<in> servers_of m)"
proof -
  from assms obtain m0 where m0: "m0 = from_servers servers" "reachable_manager env m0 m" by simp
  have "manager_ok m \<and> servers_of m = servers_of m0"
    using m0(2)
  proof (induction rule: reachable_manager.induct)
    case start
    then show ?case by (simp add: m0(1) from_servers_ok)
  next
    case (discover m n w r m' w')
    then have d: "discover_servers env n (map fst (mg_servers m)) (m, w) = Some (r, (m', w'))"
      by (simp add: discover_tools_def)
    have "manager_ok m" "set (map fst (mg_servers m)) \<subseteq> servers_of m"
      using discover.IH by (auto simp: servers_of_def)
    from discover_servers_ok[OF this d] discover.IH show ?case by simp
  next
    case (call m q args w r m' w')
    then show ?case using call_tool_ok[of m env q args w r m' w'] by simp
  next
    case (stop m w r m' w')
    then show ?case using shutdown_ok[of m env w r m' w'] by simp
  qed
  then show ?thesis by (auto simp: m0(1) manager_ok_def from_servers_names dest!: map_of_SomeD)
qed

section \<open>When a discovery returns\<close>

lemma list_pages_returns:
  assumes "\<And>p i c w r w' page c'. me_list_tools env p i c w = (Inr r, w') \<Longrightarrow> rs_result r = Some page \<Longrightarrow>
      lt_next_cursor page = Some c' \<Longrightarrow> rank (Some c') < (rank c :: nat)"
    and "rank c < n"
  shows "list_pages env n name c (m, w) \<noteq> None"
  using assms(2)
proof (induction n arbitrary: c m w)
  case (Suc n)
  obtain r m' w' where p: "list_page env name c (m, w) = (r, (m', w'))" by (rule prod_cases3)
  show ?case
  proof (cases r)
    case (Inl e)
    then show ?thesis using p by simp
  next
    case (Inr page)
    show ?thesis
    proof (cases "lt_next_cursor page")
      case None
      then show ?thesis using p Inr by (simp add: Let_def)
    next
      case (Some c')
      obtain p' i w1 r1 w2 where l: "me_list_tools env p' i c w1 = (Inr r1, w2)" "response_result name ''tools/list'' r1 = Inr page"
        using p unfolding Inr list_page_def by (auto simp: call_results)
      have "rs_result r1 = Some page"
        using l(2) by (auto simp: response_result_def result_simps split: option.splits)
      from assms(1)[OF l(1) this Some] have "rank (Some c') < n" using Suc.prems by simp
      then have "list_pages env n name (Some c') (m', w') \<noteq> None" by (rule Suc.IH)
      then show ?thesis using p Inr Some by (auto simp: Let_def)
    qed
  qed
qed simp

text \<open>a discovery returns, with a result or an error, if no server lists tools for ever: when every page
  that names a next one brings the server closer to its last page, one more round than the first page is
  away from the last is enough. If a server always names a next page, no number of rounds is enough.\<close>

theorem discovery_terminates:
  assumes "\<And>p i c w r w' page c'. me_list_tools env p i c w = (Inr r, w') \<Longrightarrow> rs_result r = Some page \<Longrightarrow>
      lt_next_cursor page = Some c' \<Longrightarrow> rank (Some c') < (rank c :: nat)"
  shows "discover_tools env (Suc (rank None)) s \<noteq> None"
proof -
  have "discover_servers env (Suc (rank None)) names s \<noteq> None" for names s
  proof (induction names arbitrary: s)
    case (Cons name names)
    have l: "list_pages env (Suc (rank None)) name None s' \<noteq> None" for s'
      using list_pages_returns[of env rank None "Suc (rank None)" name "fst s'" "snd s'"] assms by simp
    obtain r s1 where f: "io_bind (ensure_server_ready env name) (\<lambda>_. clear_routes_for_server name) s = (r, s1)"
      by (rule prod.exhaust)
    obtain r2 s2 where y: "list_pages env (Suc (rank None)) name None s1 = Some (r2, s2)"
      using l[of s1] by (auto simp del: list_pages.simps)
    have "discover_servers env (Suc (rank None)) names s2 \<noteq> None" by (rule Cons.IH)
    then show ?case using f y
      by (cases r; cases r2) (auto simp del: list_pages.simps)
  qed simp
  then show ?thesis by (simp add: discover_tools_def)
qed

section \<open>Servers to run on\<close>

text \<open>A process is its command; the world is the list of the calls that reached a process.\<close>

definition ok_response :: "'a \<Rightarrow> JsonRpcId \<Rightarrow> (unit, 'a) JsonRpcResponse" where
  "ok_response x i = \<lparr>rs_jsonrpc = lit ''2.0'', rs_id = i, rs_result = Some x, rs_error = None\<rparr>"

definition demo_tool :: "unit McpTool" where
  "demo_tool = \<lparr>mt_name = lit ''run'', mt_description = None, mt_input_schema = None, mt_annotations = None, mt_meta = None\<rparr>"

definition demo_mcp_env :: "rstr option \<Rightarrow> (rstr \<Rightarrow> bool) \<Rightarrow> (rstr, unit, (rstr \<times> rstr) list) McpEnv" where
  "demo_mcp_env next' broken =
     \<lparr>me_spawn = (\<lambda>t w. (if broken (ts_command t) then Inl (lit ''no such file'') else Inr (ts_command t), w)),
      me_initialize = (\<lambda>p i w. (Inr (ok_response
         \<lparr>ir_protocol_version = [], ir_capabilities = (), ir_server_info = \<lparr>is_name = p, is_version = []\<rparr>\<rparr> i), w)),
      me_list_tools = (\<lambda>p i c w. (Inr (ok_response \<lparr>lt_tools = [demo_tool], lt_next_cursor = next'\<rparr> i), w)),
      me_call_tool = (\<lambda>p i c w. (Inr (ok_response
         \<lparr>cr_content = [], cr_structured_content = None, cr_is_error = None, cr_meta = None\<rparr> i), w @ [(p, cp_name c)])),
      me_shutdown = (\<lambda>p w. (Inr (), w))\<rparr>"

definition demo_server :: "rstr \<Rightarrow> ScopedMcpServerConfig" where
  "demo_server c = \<lparr>scope = UserConfig, server = StdioServer \<lparr>stdio_command = c, stdio_args = [], stdio_env = []\<rparr>\<rparr>"

definition demo_manager :: "rstr \<Rightarrow> rstr \<Rightarrow> rstr McpServerManager" where
  "demo_manager a b = from_servers [(a, demo_server a), (b, demo_server b)]"

text \<open>two servers whose names normalize to the same text share the names of their tools: the route of the
  second replaces that of the first, and a call of the first server's tool reaches the second server.\<close>

theorem colliding_servers_misroute:
  "case discover_tools (demo_mcp_env None (\<lambda>c. False)) 1 (demo_manager (lit ''a.b'') (lit ''a_b''), []) of
     Some (Inr tools, s) \<Rightarrow> map mm_server_name tools = [lit ''a.b'', lit ''a_b'']
       \<and> snd (snd (manager_call_tool (demo_mcp_env None (\<lambda>c. False)) (mcp_tool_name (lit ''a.b'') (lit ''run'')) None s))
         = [(lit ''a_b'', lit ''run'')]
   | _ \<Rightarrow> False"
  by code_simp

lemma demo_discovery:
  "case discover_tools (demo_mcp_env None (\<lambda>c. False)) 1 (demo_manager (lit ''a'') (lit ''b''), []) of
     Some (Inr tools, s) \<Rightarrow> tools = [managed_tool (lit ''a'') demo_tool, managed_tool (lit ''b'') demo_tool]
   | _ \<Rightarrow> False"
  by code_simp

theorem discovered_tools_are_called_witness:
  "\<exists>m w p. ready m (lit ''a'') p \<and> manager_call_tool (demo_mcp_env None (\<lambda>c. False)) (lit ''mcp__a__run'') None (m, w)
     = lift_io (me_call_tool (demo_mcp_env None (\<lambda>c. False)) p (IdNumber (mg_next_request_id m))
         \<lparr>cp_name = lit ''run'', cp_arguments = None, cp_meta = None\<rparr>) (bump_id m, w)"
proof -
  let ?ts = "[managed_tool (lit ''a'') demo_tool, managed_tool (lit ''b'') demo_tool]"
  obtain m' w' where d: "discover_tools (demo_mcp_env None (\<lambda>c. False)) 1 (demo_manager (lit ''a'') (lit ''b''), [])
      = Some (Inr ?ts, (m', w'))"
    using demo_discovery by (auto split: option.splits sum.splits prod.splits)
  have "map mm_qualified_name ?ts = [lit ''mcp__a__run'', lit ''mcp__b__run'']" by code_simp
  then show ?thesis
    using discovered_tools_are_called[OF from_servers_ok[of "[(lit ''a'', demo_server (lit ''a'')), (lit ''b'', demo_server (lit ''b''))]"]
        d[unfolded demo_manager_def], of "[]" None "[]" "managed_tool (lit ''a'') demo_tool"
        "[managed_tool (lit ''b'') demo_tool]"]
    by (auto simp: managed_tool_def demo_tool_def)
qed

theorem manager_invariant_witness:
  "servers_of (demo_manager (lit ''a'') (lit ''b'')) = {lit ''a'', lit ''b''}"
  using manager_invariant[OF reachable_manager.start[of "demo_mcp_env None (\<lambda>c. False)"
      "from_servers [(lit ''a'', demo_server (lit ''a'')), (lit ''b'', demo_server (lit ''b''))]"]]
  by (auto simp: demo_manager_def demo_server_def)

theorem discovery_terminates_witness:
  "discover_tools (demo_mcp_env None (\<lambda>c. False)) 1 (demo_manager (lit ''a'') (lit ''b''), []) \<noteq> None"
proof -
  let ?env = "demo_mcp_env None (\<lambda>c. False)"
  have "lt_next_cursor page = None" if "me_list_tools ?env p i c w = (Inr r, w')" "rs_result r = Some page" for p i c w r w' page
    using that by (auto simp: demo_mcp_env_def ok_response_def)
  then show ?thesis using discovery_terminates[of ?env "\<lambda>c. 0"] by (metis One_nat_def option.discI)
qed

lemma endless_pages:
  assumes "ready m name p"
  shows "list_pages (demo_mcp_env (Some c) broken) n name cursor (m, w) = None"
  using assms
proof (induction n arbitrary: cursor m)
  case (Suc n)
  obtain sv where sv: "bt_get (mg_servers m) name = Some sv" "ms_process sv = Some p" "ms_initialized sv"
    using Suc.prems by (auto simp: ready_def)
  let ?m = "(bump_id m)\<lparr>mg_tool_index := bt_insert (mm_qualified_name (managed_tool name demo_tool))
      (tool_route (managed_tool name demo_tool)) (mg_tool_index m)\<rparr>"
  have "list_page (demo_mcp_env (Some c) broken) name cursor (m, w)
      = (Inr \<lparr>lt_tools = [demo_tool], lt_next_cursor = Some c\<rparr>, (?m, w))"
    using sv by (simp add: list_page_def io_bind_def take_request_id_def bump_id_def server_process_def server_mut_def
        io_result_def lift_io_def demo_mcp_env_def ok_response_def response_result_def index_tools_def io_return_def)
  moreover have "ready ?m name p" using sv by (simp add: ready_def)
  ultimately show ?case using Suc.IH[of ?m] by (simp add: Let_def)
qed simp

text \<open>a server that answers every page with a next one keeps a discovery, and every call that starts with
  one, from ever returning: no number of rounds is enough.\<close>

theorem endless_discovery:
  "discover_tools (demo_mcp_env (Some c) (\<lambda>x. False)) n (demo_manager (lit ''a'') (lit ''b''), []) = None"
proof -
  let ?env = "demo_mcp_env (Some c) (\<lambda>x. False)" let ?m = "demo_manager (lit ''a'') (lit ''b'')"
  have "case io_bind (ensure_server_ready ?env (lit ''a'')) (\<lambda>_. clear_routes_for_server (lit ''a'')) (?m, []) of
      (Inr _, (m', w')) \<Rightarrow> w' = [] \<and> (case bt_get (mg_servers m') (lit ''a'') of
         Some sv \<Rightarrow> ms_initialized sv \<and> ms_process sv = Some (lit ''a'') | None \<Rightarrow> False)
    | _ \<Rightarrow> False"
    by code_simp
  then obtain u m' where m': "io_bind (ensure_server_ready ?env (lit ''a'')) (\<lambda>_. clear_routes_for_server (lit ''a'')) (?m, [])
      = (Inr u, (m', []))" "ready m' (lit ''a'') (lit ''a'')"
    by (cases "io_bind (ensure_server_ready ?env (lit ''a'')) (\<lambda>_. clear_routes_for_server (lit ''a'')) (?m, [])"
        rule: prod_cases3; cases "fst (io_bind (ensure_server_ready ?env (lit ''a'')) (\<lambda>_. clear_routes_for_server (lit ''a'')) (?m, []))")
      (auto simp: ready_def split: option.splits)
  have "map fst (mg_servers ?m) = [lit ''a'', lit ''b'']" by code_simp
  then show ?thesis using m' endless_pages[OF m'(2)] by (simp add: discover_tools_def)
qed

end
