(* ===== verification/Mcp_Bridge_Props.thy ===== *)
theory Mcp_Bridge_Props
  imports Mcp_Bridge Mcp_Manager_Props
begin

text \<open>
  What a bridged tool call promises, and what it does not.
\<close>

section \<open>After a shutdown\<close>

definition stopped_servers :: "rstr set \<Rightarrow> 'p McpServerManager \<Rightarrow> bool" where
  "stopped_servers N m \<longleftrightarrow> (\<forall>n \<in> N. \<forall>sv. bt_get (mg_servers m) n = Some sv \<longrightarrow>
     ms_process sv = None \<and> \<not> ms_initialized sv)"

lemma shutdown_server_result:
  assumes "shutdown_server env name (m, w) = (Inr u, (m', w'))"
  shows "\<exists>sv. mg_servers m' = bt_insert name (sv\<lparr>ms_process := None, ms_initialized := False\<rparr>) (mg_servers m)"
  using assms by (auto simp: shutdown_server_def call_results split: option.splits)

lemma shutdown_servers_stop:
  assumes "shutdown_servers env names (m, w) = (Inr u, (m', w'))" "stopped_servers N m"
  shows "stopped_servers (N \<union> set names) m'"
  using assms
proof (induction names arbitrary: N m w)
  case Nil
  then show ?case by (simp add: io_return_def)
next
  case (Cons name names)
  obtain m1 w1 where s: "shutdown_server env name (m, w) = (Inr (), (m1, w1))"
      "shutdown_servers env names (m1, w1) = (Inr u, (m', w'))"
    using Cons.prems(1) by (auto simp: io_bind_Inr_iff)
  have "stopped_servers (insert name N) m1"
    using shutdown_server_result[OF s(1)] Cons.prems(2) by (auto simp: stopped_servers_def bt_get_insert split: if_splits)
  from Cons.IH[OF s(2) this] show ?case by simp
qed

lemma shutdown_stops:
  assumes "shutdown env (m, w) = (Inr u, (m', w'))" "manager_ok m"
  shows "manager_ok m' \<and> servers_of m' = servers_of m \<and> stopped_servers (servers_of m') m'"
proof -
  have "stopped_servers ({} \<union> set (map fst (mg_servers m))) m'"
    using assms by (intro shutdown_servers_stop[of env _ m w u m' w']) (auto simp: shutdown_def stopped_servers_def)
  then show ?thesis using shutdown_ok[OF assms(2,1)] by (simp add: servers_of_def)
qed

lemma spawn_tool_call_stops:
  assumes "spawn_tool_call env n e tv q args (m, w) = Some (Inr v, (m', w'))" "manager_ok m"
  shows "e = None \<and> manager_ok m' \<and> servers_of m' = servers_of m \<and> stopped_servers (servers_of m') m'"
proof -
  obtain tools m1 w1 where d: "discover_tools env n (m, w) = Some (Inr tools, (m1, w1))" and e: "e = None"
    using assms(1) by (auto simp: spawn_tool_call_def split: option.splits sum.splits prod.splits)
  obtain r m2 w2 where c: "manager_call_tool env q args (m1, w1) = (r, (m2, w2))" by (rule prod_cases3)
  obtain st m3 w3 where s: "shutdown env (m2, w2) = (st, (m3, w3))" by (rule prod_cases3)
  have st: "st = Inr ()" "m3 = m'"
    using assms(1) by (cases st; cases r; simp add: spawn_tool_call_def d c s e)+
  have ok1: "manager_ok m1 \<and> servers_of m1 = servers_of m"
    by (rule discover_servers_ok[OF assms(2) _ d[unfolded discover_tools_def]]) (simp add: servers_of_def)
  have ok2: "manager_ok m2 \<and> servers_of m2 = servers_of m1" by (rule call_tool_ok[OF conjunct1[OF ok1] c])
  show ?thesis using shutdown_stops[OF s[unfolded st] conjunct1[OF ok2]] conjunct2[OF ok1] conjunct2[OF ok2] e
    by (elim conjE) (intro conjI; simp only:)
qed

text \<open>C33: a bridged call returns a value only for a tool the registry lists on a connected server, and then
  every server of the manager has been shut down again, its process given up; the registry is as before. A
  call of an unknown or unconnected server, or of a tool it does not list, changes nothing.\<close>

theorem bridged_call_cleans_up:
  assumes "tr_manager r = Some m" "manager_ok m"
    and "bridge_call_tool env n e is_null tv name tool args (r, w) = Some (x, (r', w'))"
  shows "tr_inner r' = tr_inner r
    \<and> (\<forall>v. x = Inr v \<longrightarrow>
          (\<exists>st. get_server r name = Some st \<and> st_status st = Connected \<and> tool \<in> ti_name ` set (st_tools st))
        \<and> (\<exists>m'. tr_manager r' = Some m' \<and> servers_of m' = servers_of m \<and> stopped_servers (servers_of m') m'))
    \<and> ((\<forall>st. get_server r name = Some st \<longrightarrow> st_status st \<noteq> Connected \<or> tool \<notin> ti_name ` set (st_tools st)) \<longrightarrow>
        (\<exists>msg. x = Inl msg) \<and> r' = r \<and> w' = w)"
proof (cases "connected_state r name")
  case (Inl msg)
  then have "x = Inl msg" "r' = r" "w' = w" using assms(3) by (auto simp: bridge_call_tool_def)
  then show ?thesis by simp
next
  case (Inr st)
  then have st: "get_server r name = Some st" "st_status st = Connected"
    by (auto simp: connected_state_def split: option.splits if_splits)
  show ?thesis
  proof (cases "tool \<in> ti_name ` set (st_tools st)")
    case False
    then have "\<not> list_ex (\<lambda>t. ti_name t = tool) (st_tools st)" by (auto simp: list_ex_iff)
    then have "\<exists>msg. x = Inl msg" "r' = r" "w' = w" using assms(3) Inr by (auto simp: bridge_call_tool_def)
    then show ?thesis by auto
  next
    case True
    then have "list_ex (\<lambda>t. ti_name t = tool) (st_tools st)" by (auto simp: list_ex_iff)
    then obtain m' where m': "spawn_tool_call env n e tv (mcp_tool_name name tool) (if is_null args then None else Some args) (m, w)
        = Some (x, (m', w'))" "r' = r\<lparr>tr_manager := Some m'\<rparr>"
      using assms(1,3) Inr by (auto simp: bridge_call_tool_def)
    have "servers_of m' = servers_of m \<and> stopped_servers (servers_of m') m'" if "x = Inr v" for v
      using spawn_tool_call_stops[OF m'(1)[unfolded that] assms(2)] by blast
    then show ?thesis using st True m'(2) by auto
  qed
qed

text \<open>one server that cannot be started makes the call of every other server's tool fail, and the call
  returns without shutting down the servers it has started: their processes stay with the manager.\<close>

theorem one_broken_server_blocks_all:
  "case spawn_tool_call (demo_mcp_env None (\<lambda>c. c = lit ''b'')) 1 None (\<lambda>r. Inr ()) (lit ''mcp__a__run'') None
      (demo_manager (lit ''a'') (lit ''b''), []) of
     Some (Inl msg, (m, w)) \<Rightarrow> msg = lit ''no such file'' \<and> w = []
       \<and> map_option ms_process (bt_get (mg_servers m) (lit ''a'')) = Some (Some (lit ''a''))
   | _ \<Rightarrow> False"
  by code_simp

definition demo_registry :: "(rstr, unit) McpToolRegistry" where
  "demo_registry = register_server (lit ''a'') Connected
     [\<lparr>ti_name = lit ''run'', ti_description = None, ti_input_schema = None\<rparr>] [] None
     (snd (set_manager (demo_manager (lit ''a'') (lit ''b'')) McpToolRegistry_new))"

theorem bridged_call_cleans_up_witness:
  "\<exists>r' w' m'. bridge_call_tool (demo_mcp_env None (\<lambda>c. False)) 1 None (\<lambda>_. True) (\<lambda>r. Inr ()) (lit ''a'') (lit ''run'') ()
      (demo_registry, []) = Some (Inr (), (r', w')) \<and> tr_manager r' = Some m' \<and> stopped_servers (servers_of m') m'"
proof -
  let ?b = "bridge_call_tool (demo_mcp_env None (\<lambda>c. False)) 1 None (\<lambda>_. True) (\<lambda>r. Inr ()) (lit ''a'') (lit ''run'') () (demo_registry, [])"
  have "map_option fst ?b = Some (Inr ())" by code_simp
  then obtain r' w' where b: "?b = Some (Inr (), (r', w'))" by (auto simp: map_option_eq_Some)
  have m: "tr_manager demo_registry = Some (demo_manager (lit ''a'') (lit ''b''))" by code_simp
  have "manager_ok (demo_manager (lit ''a'') (lit ''b''))" by (simp add: demo_manager_def from_servers_ok)
  from bridged_call_cleans_up[OF m this b] b show ?thesis by auto
qed

end
