(* ===== verification/Str_Slice.thy ===== *)
theory Str_Slice
  imports Rust_Str "HOL-Library.Monad_Syntax"
begin

text \<open>
  Byte offsets into strings. \<open>str\<close> is indexed by bytes, and a slice at an offset that is past the end or
  inside a character panics: every operation here returns \<open>None\<close> then. All of them rest on \<open>split_at\<close>,
  and \<open>split_at_Some\<close> turns an offset into the two parts of the text around it.
\<close>

lemma utf8_width_pos [simp]: "0 < utf8_width c" "utf8_width c \<noteq> 0"
  by simp_all

lemma utf8_len_Cons [simp]: "utf8_len (c # s) = utf8_width c + utf8_len s"
  by (simp add: utf8_len_def)

lemma utf8_len_0_iff [simp]: "utf8_len s = 0 \<longleftrightarrow> s = []"
  by (cases s) auto

lemma utf8_len_pos_iff [simp]: "0 < utf8_len s \<longleftrightarrow> s \<noteq> []"
  by (cases s) auto

declare utf8_width.simps [simp del]

lemma utf8_width_newline [simp]: "utf8_width 10 = 1"
  by (simp add: utf8_width.simps)

fun split_at :: "nat \<Rightarrow> rstr \<Rightarrow> (rstr \<times> rstr) option" where
  "split_at 0 s = Some ([], s)"
| "split_at (Suc n) [] = None"
| "split_at (Suc n) (c # s) =
     (if utf8_width c \<le> Suc n then map_option (\<lambda>(a, b). (c # a, b)) (split_at (Suc n - utf8_width c) s)
      else None)"

lemma split_at_append [simp]: "split_at (utf8_len a) (a @ b) = Some (a, b)"
proof (induction a)
  case (Cons c a)
  obtain k where k: "utf8_width c + utf8_len a = Suc k" by (cases "utf8_width c + utf8_len a") auto
  then have "Suc k - utf8_width c = utf8_len a" "utf8_width c \<le> Suc k" by auto
  then show ?case using Cons k by simp
qed simp

lemma split_at_Some: "split_at n s = Some (a, b) \<longleftrightarrow> s = a @ b \<and> n = utf8_len a"
proof
  show "split_at n s = Some (a, b) \<Longrightarrow> s = a @ b \<and> n = utf8_len a"
    by (induction n s arbitrary: a rule: split_at.induct) (auto split: if_splits)
qed auto

definition slice_to :: "rstr \<Rightarrow> nat \<Rightarrow> rstr option" where
  "slice_to s n = map_option fst (split_at n s)"

definition slice_from :: "rstr \<Rightarrow> nat \<Rightarrow> rstr option" where
  "slice_from s n = map_option snd (split_at n s)"

definition slice :: "rstr \<Rightarrow> nat \<Rightarrow> nat \<Rightarrow> rstr option" where
  "slice s a b = do { (l, r) \<leftarrow> split_at a s; if b < a then None else slice_to r (b - a) }"

definition insert_str :: "rstr \<Rightarrow> nat \<Rightarrow> rstr \<Rightarrow> rstr option" where
  "insert_str s n t = do { (l, r) \<leftarrow> split_at n s; Some (l @ t @ r) }"

definition drain :: "rstr \<Rightarrow> nat \<Rightarrow> nat \<Rightarrow> rstr option" where
  "drain s a b = do { (l, r) \<leftarrow> split_at a s; if b < a then None else do { r' \<leftarrow> slice_from r (b - a); Some (l @ r') } }"

text \<open>\<open>replace_range(..n, t)\<close>.\<close>

definition replace_to :: "rstr \<Rightarrow> nat \<Rightarrow> rstr \<Rightarrow> rstr option" where
  "replace_to s n t = do { r \<leftarrow> slice_from s n; Some (t @ r) }"

text \<open>\<open>char_indices\<close>, and the byte offsets of the first and the last occurrence of a character.\<close>

fun char_indices_from :: "nat \<Rightarrow> rstr \<Rightarrow> (nat \<times> rchar) list" where
  "char_indices_from i [] = []"
| "char_indices_from i (c # s) = (i, c) # char_indices_from (i + utf8_width c) s"

definition char_indices :: "rstr \<Rightarrow> (nat \<times> rchar) list" where
  "char_indices s = char_indices_from 0 s"

fun find_char :: "rchar \<Rightarrow> rstr \<Rightarrow> nat option" where
  "find_char c [] = None"
| "find_char c (x # s) = (if x = c then Some 0 else map_option (\<lambda>i. utf8_width x + i) (find_char c s))"

fun rfind_char :: "rchar \<Rightarrow> rstr \<Rightarrow> nat option" where
  "rfind_char c [] = None"
| "rfind_char c (x # s) =
     (case rfind_char c s of
        Some i \<Rightarrow> Some (utf8_width x + i)
      | None \<Rightarrow> if x = c then Some 0 else None)"

text \<open>\<open>v[i]\<close> of a vector.\<close>

definition index :: "'a list \<Rightarrow> nat \<Rightarrow> 'a option" where
  "index xs i = (if i < length xs then Some (xs ! i) else None)"

section \<open>Slices around a cursor\<close>

lemma slice_to_append [simp]: "slice_to (a @ b) (utf8_len a) = Some a"
  by (simp add: slice_to_def)

lemma slice_from_append [simp]: "slice_from (a @ b) (utf8_len a) = Some b"
  by (simp add: slice_from_def)

lemma slice_append [simp]: "slice (a @ b @ c) (utf8_len a) (utf8_len a + utf8_len b) = Some b"
  by (simp add: slice_def)

lemma insert_str_append [simp]: "insert_str (a @ b) (utf8_len a) t = Some (a @ t @ b)"
  by (simp add: insert_str_def)

lemma drain_str_append [simp]: "drain (a @ b @ c) (utf8_len a) (utf8_len a + utf8_len b) = Some (a @ c)"
  by (simp add: drain_def)

lemma replace_to_append [simp]: "replace_to (a @ b) (utf8_len a) t = Some (t @ b)"
  by (simp add: replace_to_def)

lemma slice_to_all [simp]: "slice_to s (utf8_len s) = Some s"
  using slice_to_append[of s "[]"] by (simp del: slice_to_append)

lemma replace_to_all [simp]: "replace_to s (utf8_len s) t = Some t"
  using replace_to_append[of s "[]"] by (simp del: replace_to_append)

lemma char_indices_from_append:
  "char_indices_from i (a @ b) = char_indices_from i a @ char_indices_from (i + utf8_len a) b"
  by (induction a arbitrary: i) (simp_all add: add.assoc)

lemma char_indices_snoc: "char_indices (a @ [c]) = char_indices a @ [(utf8_len a, c)]"
  by (simp add: char_indices_def char_indices_from_append)

lemma length_char_indices [simp]: "length (char_indices s) = length s"
proof -
  have "length (char_indices_from i s) = length s" for i by (induction s arbitrary: i) auto
  then show ?thesis by (simp add: char_indices_def)
qed

lemma drop_char_indices_from: "drop n (char_indices_from i s) = char_indices_from (i + utf8_len (take n s)) (drop n s)"
  by (induction s arbitrary: n i) (auto simp: drop_Cons' take_Cons' add.assoc)

lemma find_char_Some:
  "find_char c s = Some i \<longleftrightarrow> (\<exists>a b. s = a @ c # b \<and> c \<notin> set a \<and> i = utf8_len a)"
proof (induction s arbitrary: i)
  case (Cons x s)
  show ?case
  proof (cases "x = c")
    case True
    then show ?thesis by (auto simp: Cons_eq_append_conv)
  next
    case False
    then show ?thesis by (auto simp: Cons.IH Cons_eq_append_conv) (metis append_Cons list.set_intros(2) set_ConsD utf8_len_Cons)+
  qed
qed simp

lemma find_char_None: "find_char c s = None \<longleftrightarrow> c \<notin> set s"
  by (induction s) auto

lemma rfind_char_None: "rfind_char c s = None \<longleftrightarrow> c \<notin> set s"
  by (induction s) (auto split: option.split)

lemma rfind_char_snoc:
  "rfind_char c (s @ [x]) = (if x = c then Some (utf8_len s) else rfind_char c s)"
  by (induction s) (auto split: option.splits)

lemma rfind_char_append:
  "c \<notin> set b \<Longrightarrow> rfind_char c (a @ b) = rfind_char c a"
  by (induction b rule: rev_induct) (auto simp: rfind_char_snoc simp flip: append_assoc)

end
