(* ===== verification/Line_Editor.thy ===== *)
theory Line_Editor
  imports Str_Slice Rust_State
begin

text \<open>
  The line editor of the command line interface (\<open>openyak-cli/src/input.rs\<close>): the text being edited with
  its byte cursor, the modes of the optional vim bindings, history, the yank buffer and completion, the
  handler of a key, the layout of the prompt on the terminal and the loop that reads a line. An operation
  that can panic returns an option, \<open>None\<close> for the panic. What is drawn is the list of terminal
  operations; writing them is assumed to succeed.
\<close>

declare utf8_width.simps [simp del]

section \<open>Offsets in a text\<close>

definition previous_boundary :: "rstr \<Rightarrow> nat \<Rightarrow> nat option" where
  "previous_boundary s cursor =
     (if cursor = 0 then Some 0
      else do {
        p \<leftarrow> slice_to s cursor;
        Some (case rev (char_indices p) of [] \<Rightarrow> 0 | (i, _) # _ \<Rightarrow> i)
      })"

definition previous_command_boundary :: "rstr \<Rightarrow> nat \<Rightarrow> nat option" where
  "previous_command_boundary s cursor = map_option (max 1) (previous_boundary s cursor)"

definition next_boundary :: "rstr \<Rightarrow> nat \<Rightarrow> nat option" where
  "next_boundary s cursor =
     (if utf8_len s \<le> cursor then Some (utf8_len s)
      else do {
        r \<leftarrow> slice_from s cursor;
        Some (case r of [] \<Rightarrow> utf8_len s | c # _ \<Rightarrow> cursor + utf8_width c)
      })"

text \<open>The text without the character before the cursor, and the new cursor.\<close>

definition remove_previous_char :: "rstr \<Rightarrow> nat \<Rightarrow> (rstr \<times> nat) option" where
  "remove_previous_char s cursor =
     (if cursor = 0 then Some (s, cursor)
      else do {
        start \<leftarrow> previous_boundary s cursor;
        s' \<leftarrow> drain s start cursor;
        Some (s', start)
      })"

definition line_start :: "rstr \<Rightarrow> nat \<Rightarrow> nat option" where
  "line_start s cursor = do {
     p \<leftarrow> slice_to s cursor;
     Some (case rfind_char 10 p of None \<Rightarrow> 0 | Some i \<Rightarrow> i + 1)
   }"

definition line_end :: "rstr \<Rightarrow> nat \<Rightarrow> nat option" where
  "line_end s cursor = do {
     r \<leftarrow> slice_from s cursor;
     Some (case find_char 10 r of None \<Rightarrow> utf8_len s | Some i \<Rightarrow> cursor + i)
   }"

definition line_starts :: "rstr \<Rightarrow> nat list" where
  "line_starts s = 0 # map (\<lambda>(i, c). i + 1) (filter (\<lambda>(i, c). c = 10) (char_indices s))"

definition byte_index_for_char_column :: "rstr \<Rightarrow> nat \<Rightarrow> nat" where
  "byte_index_for_char_column s column =
     (case drop column (char_indices s) of [] \<Rightarrow> utf8_len s | (i, _) # _ \<Rightarrow> i)"

definition newlines :: "rstr \<Rightarrow> nat" where
  "newlines s = length (filter (\<lambda>c. c = 10) s)"

definition move_vertical :: "rstr \<Rightarrow> nat \<Rightarrow> int \<Rightarrow> nat option" where
  "move_vertical s cursor delta =
     (let starts = line_starts s in do {
        p \<leftarrow> slice_to s cursor;
        let current_row = newlines p;
        current_start \<leftarrow> index starts current_row;
        before \<leftarrow> slice s current_start cursor;
        let max_row = int (length starts - 1);
        let target_row = nat (max 0 (min (int current_row + delta) max_row));
        if target_row = current_row then Some cursor
        else do {
          target_start \<leftarrow> index starts target_row;
          target_end \<leftarrow>
            (if target_row + 1 < length starts then map_option (\<lambda>x. x - 1) (index starts (target_row + 1))
             else Some (utf8_len s));
          line \<leftarrow> slice s target_start target_end;
          Some (byte_index_for_char_column line (length before) + target_start)
        }
      })"

definition current_line_delete_range :: "rstr \<Rightarrow> nat \<Rightarrow> (nat \<times> nat \<times> nat) option" where
  "current_line_delete_range s cursor = do {
     line_start_idx \<leftarrow> line_start s cursor;
     line_end_core \<leftarrow> line_end s cursor;
     let line_end_idx = (if line_end_core < utf8_len s then line_end_core + 1 else line_end_core);
     let delete_start_idx =
       (if line_end_idx = utf8_len s \<and> 0 < line_start_idx then line_start_idx - 1 else line_start_idx);
     Some (line_start_idx, line_end_idx, delete_start_idx)
   }"

definition selection_bounds :: "rstr \<Rightarrow> nat \<Rightarrow> nat \<Rightarrow> (nat \<times> nat) option option" where
  "selection_bounds s anchor cursor =
     (if s = [] then Some None
      else if anchor \<le> cursor then do {
        e \<leftarrow> next_boundary s cursor;
        Some (Some (min anchor (utf8_len s), min e (utf8_len s)))
      }
      else do {
        e \<leftarrow> next_boundary s anchor;
        Some (Some (min cursor (utf8_len s), min e (utf8_len s)))
      })"

definition reverse_on :: rstr where "reverse_on = 27 # lit ''[7m''"

definition reverse_off :: rstr where "reverse_off = 27 # lit ''[0m''"

fun selected_chars :: "nat \<Rightarrow> nat \<Rightarrow> bool \<Rightarrow> (nat \<times> rchar) list \<Rightarrow> rstr" where
  "selected_chars start e selecting [] = (if selecting then reverse_off else [])"
| "selected_chars start e selecting ((i, c) # r) =
     (let opening = (\<not> selecting \<and> i = start);
          closing = ((selecting \<or> opening) \<and> i = e) in
      (if opening then reverse_on else []) @ (if closing then reverse_off else [])
        @ c # selected_chars start e ((selecting \<or> opening) \<and> \<not> closing) r)"

definition render_selected_text :: "rstr \<Rightarrow> nat \<Rightarrow> nat \<Rightarrow> rstr" where
  "render_selected_text s start e = selected_chars start e False (char_indices s)"

definition slash_command_prefix :: "rstr \<Rightarrow> nat \<Rightarrow> rstr option option" where
  "slash_command_prefix line pos =
     (if pos \<noteq> utf8_len line then Some None
      else do {
        prefix \<leftarrow> slice_to line pos;
        Some (if list_ex is_ws prefix \<or> \<not> starts_with [47] prefix then None else Some prefix)
      })"

definition to_u16 :: "nat \<Rightarrow> rstr + 16 word" where
  "to_u16 value = (if value < 65536 then Inr (of_nat value) else Inl (lit ''terminal position overflowed u16''))"

section \<open>The session\<close>

datatype EditorMode = PlainMode | InsertMode | NormalMode | VisualMode | CommandMode

definition indicator :: "EditorMode \<Rightarrow> bool \<Rightarrow> rstr option" where
  "indicator m vim_enabled =
     (if \<not> vim_enabled then None
      else Some (case m of
          PlainMode \<Rightarrow> lit ''PLAIN''
        | InsertMode \<Rightarrow> lit ''INSERT''
        | NormalMode \<Rightarrow> lit ''NORMAL''
        | VisualMode \<Rightarrow> lit ''VISUAL''
        | CommandMode \<Rightarrow> lit ''COMMAND''))"

record YankBuffer =
  yank_text :: rstr
  yank_linewise :: bool

record EditSession =
  es_text :: rstr
  es_cursor :: nat
  es_mode :: EditorMode
  es_pending_operator :: "rchar option"
  es_visual_anchor :: "nat option"
  es_command_buffer :: rstr
  es_command_cursor :: nat
  es_history_index :: "nat option"
  es_history_backup :: "rstr option"
  es_rendered_cursor_row :: nat
  es_rendered_lines :: nat

definition EditSession_new :: "bool \<Rightarrow> EditSession" where
  "EditSession_new vim_enabled =
     \<lparr>es_text = [], es_cursor = 0, es_mode = (if vim_enabled then InsertMode else PlainMode),
      es_pending_operator = None, es_visual_anchor = None, es_command_buffer = [], es_command_cursor = 0,
      es_history_index = None, es_history_backup = None, es_rendered_cursor_row = 0, es_rendered_lines = 1\<rparr>"

definition active_text :: "EditSession \<Rightarrow> rstr" where
  "active_text s = (if es_mode s = CommandMode then es_command_buffer s else es_text s)"

definition current_len :: "EditSession \<Rightarrow> nat" where
  "current_len s = utf8_len (active_text s)"

definition has_input :: "EditSession \<Rightarrow> bool" where
  "has_input s \<longleftrightarrow> active_text s \<noteq> []"

definition current_line :: "EditSession \<Rightarrow> rstr" where
  "current_line s = active_text s"

definition set_text_from_history :: "rstr \<Rightarrow> EditSession \<Rightarrow> EditSession" where
  "set_text_from_history entry s =
     s\<lparr>es_text := entry, es_cursor := utf8_len entry, es_pending_operator := None, es_visual_anchor := None,
       es_mode := (if es_mode s \<noteq> PlainMode \<and> es_mode s \<noteq> InsertMode then NormalMode else es_mode s)\<rparr>"

definition enter_insert_mode :: "EditSession \<Rightarrow> EditSession" where
  "enter_insert_mode s = s\<lparr>es_mode := InsertMode, es_pending_operator := None, es_visual_anchor := None\<rparr>"

definition enter_normal_mode :: "EditSession \<Rightarrow> EditSession" where
  "enter_normal_mode s = s\<lparr>es_mode := NormalMode, es_pending_operator := None, es_visual_anchor := None\<rparr>"

definition enter_visual_mode :: "EditSession \<Rightarrow> EditSession" where
  "enter_visual_mode s =
     s\<lparr>es_mode := VisualMode, es_pending_operator := None, es_visual_anchor := Some (es_cursor s)\<rparr>"

definition enter_command_mode :: "EditSession \<Rightarrow> EditSession" where
  "enter_command_mode s =
     s\<lparr>es_mode := CommandMode, es_pending_operator := None, es_visual_anchor := None,
       es_command_buffer := [58], es_command_cursor := utf8_len [58]\<rparr>"

definition exit_command_mode :: "EditSession \<Rightarrow> EditSession" where
  "exit_command_mode s = enter_normal_mode (s\<lparr>es_command_buffer := [], es_command_cursor := 0\<rparr>)"

section \<open>Drawing\<close>

definition visible_buffer :: "EditSession \<Rightarrow> rstr option" where
  "visible_buffer s =
     (if es_mode s \<noteq> VisualMode then Some (active_text s)
      else
        (case es_visual_anchor s of
           None \<Rightarrow> Some (active_text s)
         | Some anchor \<Rightarrow> do {
             bounds \<leftarrow> selection_bounds (es_text s) anchor (es_cursor s);
             Some (case bounds of
                 None \<Rightarrow> active_text s
               | Some (start, e) \<Rightarrow> render_selected_text (es_text s) start e)
           }))"

definition editor_prompt :: "EditSession \<Rightarrow> rstr \<Rightarrow> bool \<Rightarrow> rstr" where
  "editor_prompt s base_prompt vim_enabled =
     (case indicator (es_mode s) vim_enabled of
        Some m \<Rightarrow> lit ''['' @ m @ lit ''] '' @ base_prompt
      | None \<Rightarrow> base_prompt)"

definition cursor_layout :: "EditSession \<Rightarrow> rstr \<Rightarrow> (nat \<times> nat \<times> nat) option" where
  "cursor_layout s prompt =
     (let cursor = (if es_mode s = CommandMode then es_command_cursor s else es_cursor s) in do {
        cursor_prefix \<leftarrow> slice_to (active_text s) cursor;
        let cursor_row = newlines cursor_prefix;
        let cursor_col =
          (if 10 \<in> set cursor_prefix then length (after_last (\<lambda>c. c = 10) cursor_prefix)
           else length prompt + length cursor_prefix);
        Some (cursor_row, cursor_col, newlines (active_text s) + 1)
      })"

datatype TermOp = MoveUp "16 word" | MoveToColumn "16 word" | ClearDown | Write rstr

definition clear_render :: "EditSession \<Rightarrow> rstr + TermOp list" where
  "clear_render s =
     res_bind (if 0 < es_rendered_cursor_row s then map_sum id (\<lambda>n. [MoveUp n]) (to_u16 (es_rendered_cursor_row s))
               else Inr []) (\<lambda>up.
     Inr (up @ [MoveToColumn 0, ClearDown]))"

definition render :: "rstr \<Rightarrow> bool \<Rightarrow> EditSession \<Rightarrow> (rstr + TermOp list \<times> EditSession) option" where
  "render base_prompt vim_enabled s =
     (case clear_render s of
        Inl e \<Rightarrow> Some (Inl e)
      | Inr cleared \<Rightarrow>
          let prompt = editor_prompt s base_prompt vim_enabled in do {
            buffer \<leftarrow> visible_buffer s;
            (cursor_row, cursor_col, total_lines) \<leftarrow> cursor_layout s prompt;
            let rows_to_move_up = total_lines - (cursor_row + 1);
            Some (
              res_bind (if 0 < rows_to_move_up then map_sum id (\<lambda>n. [MoveUp n]) (to_u16 rows_to_move_up) else Inr [])
                (\<lambda>up. res_bind (to_u16 cursor_col) (\<lambda>col.
                 Inr (cleared @ [Write (prompt @ buffer)] @ up @ [MoveToColumn col],
                      s\<lparr>es_rendered_cursor_row := cursor_row, es_rendered_lines := total_lines\<rparr>))))
          })"

definition finalize_render :: "rstr \<Rightarrow> bool \<Rightarrow> EditSession \<Rightarrow> (rstr + TermOp list) option" where
  "finalize_render base_prompt vim_enabled s =
     (case clear_render s of
        Inl e \<Rightarrow> Some (Inl e)
      | Inr cleared \<Rightarrow> do {
          buffer \<leftarrow> visible_buffer s;
          Some (Inr (cleared @ [Write (editor_prompt s base_prompt vim_enabled @ buffer), Write [10]]))
        })"

section \<open>The editor\<close>

record CompletionState =
  cs_prefix :: rstr
  cs_matches :: "rstr list"
  cs_next_index :: nat

record LineEditor =
  le_prompt :: rstr
  le_completions :: "rstr list"
  le_history :: "rstr list"
  le_yank_buffer :: YankBuffer
  le_vim_enabled :: bool
  le_completion_state :: "CompletionState option"

definition LineEditor_new :: "rstr \<Rightarrow> rstr list \<Rightarrow> LineEditor" where
  "LineEditor_new prompt completions =
     \<lparr>le_prompt = prompt, le_completions = completions, le_history = [],
      le_yank_buffer = \<lparr>yank_text = [], yank_linewise = False\<rparr>, le_vim_enabled = False,
      le_completion_state = None\<rparr>"

definition push_history :: "rstr \<Rightarrow> LineEditor \<Rightarrow> LineEditor" where
  "push_history entry ed = (if trim entry = [] then ed else ed\<lparr>le_history := le_history ed @ [entry]\<rparr>)"

subsection \<open>Editing\<close>

definition insert_active_text :: "rstr \<Rightarrow> EditSession \<Rightarrow> EditSession option" where
  "insert_active_text t s =
     (if es_mode s = CommandMode then do {
        b \<leftarrow> insert_str (es_command_buffer s) (es_command_cursor s) t;
        Some (s\<lparr>es_command_buffer := b, es_command_cursor := es_command_cursor s + utf8_len t\<rparr>)
      }
      else do {
        b \<leftarrow> insert_str (es_text s) (es_cursor s) t;
        Some (s\<lparr>es_text := b, es_cursor := es_cursor s + utf8_len t\<rparr>)
      })"

definition insert_active_char :: "rchar \<Rightarrow> EditSession \<Rightarrow> EditSession option" where
  "insert_active_char c s = insert_active_text [c] s"

definition set_cursor :: "EditSession \<Rightarrow> nat \<Rightarrow> EditSession" where
  "set_cursor s n = (if es_mode s = CommandMode then s\<lparr>es_command_cursor := n\<rparr> else s\<lparr>es_cursor := n\<rparr>)"

definition move_left :: "EditSession \<Rightarrow> EditSession option" where
  "move_left s = map_option (set_cursor s)
     (if es_mode s = CommandMode then previous_command_boundary (es_command_buffer s) (es_command_cursor s)
      else previous_boundary (es_text s) (es_cursor s))"

definition move_right :: "EditSession \<Rightarrow> EditSession option" where
  "move_right s = map_option (set_cursor s)
     (if es_mode s = CommandMode then next_boundary (es_command_buffer s) (es_command_cursor s)
      else next_boundary (es_text s) (es_cursor s))"

definition move_line_start :: "EditSession \<Rightarrow> EditSession option" where
  "move_line_start s = map_option (set_cursor s)
     (if es_mode s = CommandMode then Some 1 else line_start (es_text s) (es_cursor s))"

definition move_line_end :: "EditSession \<Rightarrow> EditSession option" where
  "move_line_end s = map_option (set_cursor s)
     (if es_mode s = CommandMode then Some (utf8_len (es_command_buffer s))
      else line_end (es_text s) (es_cursor s))"

definition move_up :: "EditSession \<Rightarrow> EditSession option" where
  "move_up s =
     (if es_mode s = CommandMode then Some s
      else map_option (set_cursor s) (move_vertical (es_text s) (es_cursor s) (- 1)))"

definition move_down :: "EditSession \<Rightarrow> EditSession option" where
  "move_down s =
     (if es_mode s = CommandMode then Some s
      else map_option (set_cursor s) (move_vertical (es_text s) (es_cursor s) 1))"

definition delete_at :: "rstr \<Rightarrow> nat \<Rightarrow> rstr option" where
  "delete_at b cursor =
     (if cursor < utf8_len b then do { e \<leftarrow> next_boundary b cursor; drain b cursor e } else Some b)"

definition delete_char_under_cursor :: "EditSession \<Rightarrow> EditSession option" where
  "delete_char_under_cursor s =
     (if es_mode s = CommandMode then
        map_option (\<lambda>b. s\<lparr>es_command_buffer := b\<rparr>) (delete_at (es_command_buffer s) (es_command_cursor s))
      else map_option (\<lambda>b. s\<lparr>es_text := b\<rparr>) (delete_at (es_text s) (es_cursor s)))"

definition delete_current_line :: "LineEditor \<times> EditSession \<Rightarrow> (LineEditor \<times> EditSession) option" where
  "delete_current_line = (\<lambda>(ed, s). do {
     (line_start_idx, line_end_idx, delete_start_idx) \<leftarrow> current_line_delete_range (es_text s) (es_cursor s);
     yanked \<leftarrow> slice (es_text s) line_start_idx line_end_idx;
     b \<leftarrow> drain (es_text s) delete_start_idx line_end_idx;
     Some (ed\<lparr>le_yank_buffer := \<lparr>yank_text = yanked, yank_linewise = True\<rparr>\<rparr>,
           s\<lparr>es_text := b, es_cursor := min delete_start_idx (utf8_len b)\<rparr>)
   })"

definition yank_current_line :: "LineEditor \<times> EditSession \<Rightarrow> (LineEditor \<times> EditSession) option" where
  "yank_current_line = (\<lambda>(ed, s). do {
     (line_start_idx, line_end_idx, _) \<leftarrow> current_line_delete_range (es_text s) (es_cursor s);
     yanked \<leftarrow> slice (es_text s) line_start_idx line_end_idx;
     Some (ed\<lparr>le_yank_buffer := \<lparr>yank_text = yanked, yank_linewise = True\<rparr>\<rparr>, s)
   })"

definition ends_with_newline :: "rstr \<Rightarrow> bool" where
  "ends_with_newline s \<longleftrightarrow> s \<noteq> [] \<and> last s = 10"

definition paste_after :: "LineEditor \<Rightarrow> EditSession \<Rightarrow> EditSession option" where
  "paste_after ed s =
     (let yanked = yank_text (le_yank_buffer ed); b = es_text s in
      if yanked = [] then Some s
      else if yank_linewise (le_yank_buffer ed) then do {
        line_end_idx \<leftarrow> line_end b (es_cursor s);
        let insert_at = (if line_end_idx < utf8_len b then line_end_idx + 1 else utf8_len b);
        let insertion1 =
          (if insert_at = utf8_len b \<and> b \<noteq> [] \<and> \<not> ends_with_newline b then 10 # yanked else yanked);
        let insertion =
          (if insert_at < utf8_len b \<and> \<not> ends_with_newline insertion1 then insertion1 @ [10] else insertion1);
        b' \<leftarrow> insert_str b insert_at insertion;
        Some (s\<lparr>es_text := b', es_cursor := (if starts_with [10] insertion then insert_at + 1 else insert_at)\<rparr>)
      }
      else do {
        insert_at \<leftarrow> next_boundary b (es_cursor s);
        b' \<leftarrow> insert_str b insert_at yanked;
        Some (s\<lparr>es_text := b', es_cursor := insert_at + utf8_len yanked\<rparr>)
      })"

subsection \<open>Completion and history\<close>

definition replace_with_candidate :: "rstr \<Rightarrow> EditSession \<Rightarrow> EditSession option" where
  "replace_with_candidate candidate s = do {
     b \<leftarrow> replace_to (es_text s) (es_cursor s) candidate;
     Some (s\<lparr>es_text := b, es_cursor := utf8_len candidate\<rparr>)
   }"

text \<open>The candidate the completion state is at; the state moves on to the next one.\<close>

definition next_candidate :: "CompletionState \<Rightarrow> (rstr \<times> CompletionState) option" where
  "next_candidate st = do {
     candidate \<leftarrow> index (cs_matches st) (cs_next_index st mod length (cs_matches st));
     Some (candidate, st\<lparr>cs_next_index := cs_next_index st + 1\<rparr>)
   }"

text \<open>The state of a completion that is under way: the text is one of its candidates.\<close>

definition cycling :: "LineEditor \<Rightarrow> EditSession \<Rightarrow> CompletionState option" where
  "cycling ed s =
     (case le_completion_state ed of
        None \<Rightarrow> None
      | Some st \<Rightarrow>
          if es_cursor s = utf8_len (es_text s) \<and> es_text s \<in> set (cs_matches st) then Some st else None)"

definition complete_slash_command :: "LineEditor \<times> EditSession \<Rightarrow> (LineEditor \<times> EditSession) option" where
  "complete_slash_command = (\<lambda>(ed, s).
     if es_mode s = CommandMode then Some (ed\<lparr>le_completion_state := None\<rparr>, s)
     else
       (case cycling ed s of
          Some st \<Rightarrow> do {
            (candidate, st') \<leftarrow> next_candidate st;
            s' \<leftarrow> replace_with_candidate candidate s;
            Some (ed\<lparr>le_completion_state := Some st'\<rparr>, s')
          }
        | None \<Rightarrow> do {
            found \<leftarrow> slash_command_prefix (es_text s) (es_cursor s);
            (case found of
               None \<Rightarrow> Some (ed\<lparr>le_completion_state := None\<rparr>, s)
             | Some prefix \<Rightarrow>
                 let matches = filter (\<lambda>c. starts_with prefix c \<and> c \<noteq> prefix) (le_completions ed) in
                 if matches = [] then Some (ed\<lparr>le_completion_state := None\<rparr>, s)
                 else do {
                   (candidate, st') \<leftarrow>
                     (case le_completion_state ed of
                        Some st \<Rightarrow>
                          if cs_prefix st = prefix \<and> cs_matches st = matches then next_candidate st
                          else Some (hd matches, \<lparr>cs_prefix = prefix, cs_matches = matches, cs_next_index = 1\<rparr>)
                      | None \<Rightarrow> Some (hd matches, \<lparr>cs_prefix = prefix, cs_matches = matches, cs_next_index = 1\<rparr>));
                   s' \<leftarrow> replace_with_candidate candidate s;
                   Some (ed\<lparr>le_completion_state := Some st'\<rparr>, s')
                 })
          }))"

definition history_up :: "LineEditor \<Rightarrow> EditSession \<Rightarrow> EditSession option" where
  "history_up ed s =
     (if es_mode s = CommandMode \<or> le_history ed = [] then Some s
      else
        let (next, s1) =
          (case es_history_index s of
             Some i \<Rightarrow> (i - 1, s)
           | None \<Rightarrow> (length (le_history ed) - 1, s\<lparr>es_history_backup := Some (es_text s)\<rparr>)) in
        do {
          entry \<leftarrow> index (le_history ed) next;
          Some (set_text_from_history entry (s1\<lparr>es_history_index := Some next\<rparr>))
        })"

definition history_down :: "LineEditor \<Rightarrow> EditSession \<Rightarrow> EditSession option" where
  "history_down ed s =
     (if es_mode s = CommandMode then Some s
      else
        (case es_history_index s of
           None \<Rightarrow> Some s
         | Some i \<Rightarrow>
             if i + 1 < length (le_history ed) then do {
               entry \<leftarrow> index (le_history ed) (i + 1);
               Some (set_text_from_history entry (s\<lparr>es_history_index := Some (i + 1)\<rparr>))
             }
             else
               let restored = unwrap_or [] (es_history_backup s);
                   s1 = set_text_from_history restored (s\<lparr>es_history_index := None, es_history_backup := None\<rparr>) in
               Some (if le_vim_enabled ed then enter_insert_mode s1 else s1\<lparr>es_mode := PlainMode\<rparr>)))"

section \<open>Keys\<close>

datatype KeyCode =
  KeyEnter | KeyEsc | KeyBackspace | KeyDelete | KeyLeft | KeyRight | KeyUp | KeyDown | KeyHome | KeyEnd
| KeyTab | KeyChar rchar | KeyOther

record KeyEvent =
  key_code :: KeyCode
  key_control :: bool
  key_shift :: bool

datatype KeyAction = Continue | SubmitLine rstr | CancelLine | ExitEditor | ToggleVim

datatype Submission = SubmissionSubmit | SubmissionToggleVim

definition handle_submission :: "rstr \<Rightarrow> Submission" where
  "handle_submission line = (if trim line = lit ''/vim'' then SubmissionToggleVim else SubmissionSubmit)"

definition submit_or_toggle :: "EditSession \<Rightarrow> KeyAction" where
  "submit_or_toggle s =
     (let line = current_line s in
      case handle_submission line of
        SubmissionSubmit \<Rightarrow> SubmitLine line
      | SubmissionToggleVim \<Rightarrow> ToggleVim)"

definition with_editor :: "LineEditor \<Rightarrow> EditSession option \<Rightarrow> (LineEditor \<times> EditSession) option" where
  "with_editor ed r = map_option (\<lambda>s. (ed, s)) r"

definition handle_normal_char :: "rchar \<Rightarrow> LineEditor \<times> EditSession \<Rightarrow> (LineEditor \<times> EditSession) option" where
  "handle_normal_char c = (\<lambda>(ed, s0).
     let s = s0\<lparr>es_pending_operator := None\<rparr> in
     if es_pending_operator s0 = Some 100 \<and> c = 100 then delete_current_line (ed, s)
     else if es_pending_operator s0 = Some 121 \<and> c = 121 then yank_current_line (ed, s)
     else if c = 104 then with_editor ed (move_left s)
     else if c = 106 then with_editor ed (move_down s)
     else if c = 107 then with_editor ed (move_up s)
     else if c = 108 then with_editor ed (move_right s)
     else if c = 100 \<or> c = 121 then Some (ed, s\<lparr>es_pending_operator := Some c\<rparr>)
     else if c = 112 then with_editor ed (paste_after ed s)
     else if c = 105 then Some (ed, enter_insert_mode s)
     else if c = 118 then Some (ed, enter_visual_mode s)
     else if c = 58 then Some (ed, enter_command_mode s)
     else Some (ed, s))"

definition handle_visual_char :: "rchar \<Rightarrow> EditSession \<Rightarrow> EditSession option" where
  "handle_visual_char c s =
     (if c = 104 then move_left s
      else if c = 106 then move_down s
      else if c = 107 then move_up s
      else if c = 108 then move_right s
      else if c = 118 then Some (enter_normal_mode s)
      else Some s)"

definition handle_char :: "rchar \<Rightarrow> LineEditor \<times> EditSession \<Rightarrow> (LineEditor \<times> EditSession) option" where
  "handle_char c = (\<lambda>(ed, s).
     case es_mode s of
       NormalMode \<Rightarrow> handle_normal_char c (ed, s)
     | VisualMode \<Rightarrow> with_editor ed (handle_visual_char c s)
     | _ \<Rightarrow> with_editor ed (insert_active_char c s))"

definition handle_escape :: "EditSession \<Rightarrow> EditSession option" where
  "handle_escape s =
     (case es_mode s of
        PlainMode \<Rightarrow> Some s
      | NormalMode \<Rightarrow> Some s
      | InsertMode \<Rightarrow>
          map_option enter_normal_mode
            (if 0 < es_cursor s then map_option (\<lambda>n. s\<lparr>es_cursor := n\<rparr>) (previous_boundary (es_text s) (es_cursor s))
             else Some s)
      | VisualMode \<Rightarrow> Some (enter_normal_mode s)
      | CommandMode \<Rightarrow> Some (exit_command_mode s))"

definition handle_backspace :: "EditSession \<Rightarrow> EditSession option" where
  "handle_backspace s =
     (case es_mode s of
        CommandMode \<Rightarrow>
          if es_command_cursor s \<le> 1 then Some (exit_command_mode s)
          else map_option (\<lambda>(b, n). s\<lparr>es_command_buffer := b, es_command_cursor := n\<rparr>)
                 (remove_previous_char (es_command_buffer s) (es_command_cursor s))
      | PlainMode \<Rightarrow> map_option (\<lambda>(b, n). s\<lparr>es_text := b, es_cursor := n\<rparr>)
                       (remove_previous_char (es_text s) (es_cursor s))
      | InsertMode \<Rightarrow> map_option (\<lambda>(b, n). s\<lparr>es_text := b, es_cursor := n\<rparr>)
                       (remove_previous_char (es_text s) (es_cursor s))
      | _ \<Rightarrow> move_left s)"

definition continue_with :: "(LineEditor \<times> EditSession) option \<Rightarrow> (KeyAction \<times> LineEditor \<times> EditSession) option" where
  "continue_with r = map_option (\<lambda>es. (Continue, es)) r"

definition insert_newline :: "EditSession \<Rightarrow> EditSession option" where
  "insert_newline s =
     (if es_mode s \<noteq> NormalMode \<and> es_mode s \<noteq> VisualMode then insert_active_text [10] s else Some s)"

definition handle_key_event ::
  "KeyEvent \<Rightarrow> LineEditor \<times> EditSession \<Rightarrow> (KeyAction \<times> LineEditor \<times> EditSession) option" where
  "handle_key_event key = (\<lambda>(ed0, s).
     let ed = (if key_code key \<noteq> KeyTab then ed0\<lparr>le_completion_state := None\<rparr> else ed0) in
     if key_control key \<and> (key_code key = KeyChar 99 \<or> key_code key = KeyChar 67) then
       Some (if has_input s then CancelLine else ExitEditor, ed, s)
     else if key_control key \<and> (key_code key = KeyChar 106 \<or> key_code key = KeyChar 74) then
       continue_with (with_editor ed (insert_newline s))
     else if key_control key \<and> (key_code key = KeyChar 100 \<or> key_code key = KeyChar 68) then
       (if current_len s = 0 then Some (ExitEditor, ed, s)
        else continue_with (with_editor ed (delete_char_under_cursor s)))
     else
       (case key_code key of
          KeyEnter \<Rightarrow>
            if key_shift key then continue_with (with_editor ed (insert_newline s))
            else Some (submit_or_toggle s, ed, s)
        | KeyEsc \<Rightarrow> continue_with (with_editor ed (handle_escape s))
        | KeyBackspace \<Rightarrow> continue_with (with_editor ed (handle_backspace s))
        | KeyDelete \<Rightarrow> continue_with (with_editor ed (delete_char_under_cursor s))
        | KeyLeft \<Rightarrow> continue_with (with_editor ed (move_left s))
        | KeyRight \<Rightarrow> continue_with (with_editor ed (move_right s))
        | KeyUp \<Rightarrow> continue_with (with_editor ed (history_up ed s))
        | KeyDown \<Rightarrow> continue_with (with_editor ed (history_down ed s))
        | KeyHome \<Rightarrow> continue_with (with_editor ed (move_line_start s))
        | KeyEnd \<Rightarrow> continue_with (with_editor ed (move_line_end s))
        | KeyTab \<Rightarrow> continue_with (complete_slash_command (ed, s))
        | KeyChar c \<Rightarrow> continue_with (handle_char c (ed, s))
        | KeyOther \<Rightarrow> Some (Continue, ed, s)))"

section \<open>Reading a line\<close>

text \<open>
  The loop of \<open>read_line\<close> over the key presses that arrive: it is still reading when they end. Each round
  handles one key and draws the session.
\<close>

datatype ReadOutcome = Submit rstr | Cancel | Exit

datatype ReadState =
  Reading LineEditor EditSession
| Finished ReadOutcome LineEditor
| Failed rstr
| Panicked

definition draw :: "LineEditor \<Rightarrow> EditSession \<Rightarrow> ReadState" where
  "draw ed s =
     (case render (le_prompt ed) (le_vim_enabled ed) s of
        None \<Rightarrow> Panicked
      | Some (Inl e) \<Rightarrow> Failed e
      | Some (Inr (_, s')) \<Rightarrow> Reading ed s')"

definition finish_with :: "ReadOutcome \<Rightarrow> LineEditor \<Rightarrow> rstr + TermOp list \<Rightarrow> ReadState" where
  "finish_with outcome ed r = (case r of Inl e \<Rightarrow> Failed e | Inr _ \<Rightarrow> Finished outcome ed)"

definition read_step :: "KeyEvent \<Rightarrow> LineEditor \<times> EditSession \<Rightarrow> ReadState" where
  "read_step key es =
     (case handle_key_event key es of
        None \<Rightarrow> Panicked
      | Some (action, ed, s) \<Rightarrow>
          (case action of
             Continue \<Rightarrow> draw ed s
           | SubmitLine line \<Rightarrow>
               (case finalize_render (le_prompt ed) (le_vim_enabled ed) s of
                  None \<Rightarrow> Panicked
                | Some r \<Rightarrow> finish_with (Submit line) ed r)
           | CancelLine \<Rightarrow> finish_with Cancel ed (clear_render s)
           | ExitEditor \<Rightarrow> finish_with Exit ed (clear_render s)
           | ToggleVim \<Rightarrow>
               (case clear_render s of
                  Inl e \<Rightarrow> Failed e
                | Inr _ \<Rightarrow>
                    let ed' = ed\<lparr>le_vim_enabled := \<not> le_vim_enabled ed\<rparr> in
                    draw ed' (EditSession_new (le_vim_enabled ed')))))"

fun read_keys :: "KeyEvent list \<Rightarrow> ReadState \<Rightarrow> ReadState" where
  "read_keys [] r = r"
| "read_keys (key # keys) r =
     (case r of Reading ed s \<Rightarrow> read_keys keys (read_step key (ed, s)) | _ \<Rightarrow> r)"

definition read_line :: "LineEditor \<Rightarrow> KeyEvent list \<Rightarrow> ReadState" where
  "read_line ed keys = read_keys keys (draw ed (EditSession_new (le_vim_enabled ed)))"

text \<open>Without a terminal: lines of the standard input, an empty one meaning its end.\<close>

definition strip_line_end :: "rstr \<Rightarrow> rstr" where
  "strip_line_end b = trim_end_by (\<lambda>c. c = 10 \<or> c = 13) b"

fun read_line_fallback :: "LineEditor \<Rightarrow> rstr list \<Rightarrow> ReadOutcome \<times> LineEditor \<times> rstr list" where
  "read_line_fallback ed [] = (Exit, ed, [])"
| "read_line_fallback ed (b # rest) =
     (let line = strip_line_end b in
      if b = [] then (Exit, ed, rest)
      else if handle_submission line = SubmissionToggleVim then
        read_line_fallback (ed\<lparr>le_vim_enabled := \<not> le_vim_enabled ed\<rparr>) rest
      else (Submit line, ed, rest))"

end
