(* ===== verification/Line_Editor_Props.thy ===== *)
theory Line_Editor_Props
  imports Line_Editor
begin

text \<open>
  What the line editor promises: no key makes it panic, an edit is the edit on the two parts of the text
  around the cursor, the vertical moves keep the column, a deleted line is a whole line, history and
  completion come back to where they started. And one key sequence whose drawing panics.
\<close>

section \<open>Offsets and the parts of a text\<close>

text \<open>The parts of a text before and after the cursor. Every operation on offsets is one on these parts.\<close>

named_theorems around_simps \<open>operations on offsets as operations on the parts around the cursor\<close>

definition line_head :: "rstr \<Rightarrow> rstr" where
  "line_head a = rev (dropWhile (\<lambda>c. c \<noteq> 10) (rev a))"

lemma line_head_split: "line_head a @ after_last (\<lambda>c. c = 10) a = a"
  unfolding line_head_def after_last_def by (simp flip: rev_append)

lemma line_head_snoc: "line_head (a @ [c]) = (if c = 10 then a @ [c] else line_head a)"
  by (simp add: line_head_def)

lemma utf8_len_butlast: "a \<noteq> [] \<Longrightarrow> utf8_len (butlast a) + utf8_width (last a) = utf8_len a"
  by (cases a rule: rev_cases) auto

lemma previous_boundary_around [around_simps]:
  "previous_boundary (a @ b) (utf8_len a) = Some (utf8_len (butlast a))"
proof -
  have "(case rev (char_indices a) of [] \<Rightarrow> 0 | (i, _) # _ \<Rightarrow> i) = utf8_len (butlast a)"
    by (cases a rule: rev_cases) (simp_all add: char_indices_snoc, simp add: char_indices_def)
  then show ?thesis by (simp add: previous_boundary_def)
qed

lemma next_boundary_around [around_simps]:
  "next_boundary (a @ b) (utf8_len a) = Some (utf8_len (a @ take 1 b))"
  by (cases b) (simp_all add: next_boundary_def)

lemma remove_previous_char_around [around_simps]:
  "remove_previous_char (a @ b) (utf8_len a) = Some (butlast a @ b, utf8_len (butlast a))"
proof (cases a rule: rev_cases)
  case (snoc a' c)
  then have "drain (a @ b) (utf8_len a') (utf8_len a) = Some (a' @ b)"
    using drain_str_append[of a' "[c]" b] by simp
  then show ?thesis using snoc previous_boundary_around[of a b] by (simp add: remove_previous_char_def)
qed (simp add: remove_previous_char_def)

lemma line_start_around [around_simps]: "line_start (a @ b) (utf8_len a) = Some (utf8_len (line_head a))"
proof -
  have "(case rfind_char 10 a of None \<Rightarrow> 0 | Some i \<Rightarrow> i + 1) = utf8_len (line_head a)"
    by (induction a rule: rev_induct) (simp_all add: rfind_char_snoc line_head_snoc, simp add: line_head_def)
  then show ?thesis by (simp add: line_start_def)
qed

lemma line_end_around [around_simps]:
  "line_end (a @ b) (utf8_len a) = Some (utf8_len (a @ takeWhile (\<lambda>c. c \<noteq> 10) b))"
proof (cases "find_char 10 b")
  case None
  then have "takeWhile (\<lambda>c. c \<noteq> 10) b = b" by (auto simp: find_char_None takeWhile_eq_all_conv)
  then show ?thesis using None by (simp add: line_end_def del: takeWhile_eq_all_conv)
next
  case (Some i)
  then obtain u v where "b = u @ 10 # v" "10 \<notin> set u" "i = utf8_len u" by (auto simp: find_char_Some)
  moreover from this have "takeWhile (\<lambda>c. c \<noteq> 10) b = u" by (subst \<open>b = _\<close>, subst takeWhile_append2) auto
  ultimately show ?thesis using Some by (simp add: line_end_def)
qed

lemma delete_at_around [around_simps]: "delete_at (a @ b) (utf8_len a) = Some (a @ drop 1 b)"
proof (cases b)
  case (Cons c b')
  then show ?thesis using drain_str_append[of a "[c]" b'] next_boundary_around[of a b]
    by (simp add: delete_at_def del: drain_str_append)
qed (simp add: delete_at_def)

section \<open>Rows and columns\<close>

text \<open>The lines of a text, and where they start.\<close>

definition line_offset :: "rstr list \<Rightarrow> nat \<Rightarrow> nat" where
  "line_offset ls r = utf8_len (concat (map (\<lambda>l. l @ [10]) (take r ls)))"

definition is_lines :: "rstr list \<Rightarrow> rstr \<Rightarrow> bool" where
  "is_lines ls s \<longleftrightarrow> ls \<noteq> [] \<and> (\<forall>l \<in> set ls. 10 \<notin> set l) \<and> s = join [10] ls"

lemma join_Cons': "join sep (l # ls) = (if ls = [] then l else l @ sep @ join sep ls)"
  by (cases ls) auto

lemma join_take_drop:
  assumes "r < length ls"
  shows "join [10] ls = concat (map (\<lambda>l. l @ [10]) (take r ls)) @ ls ! r
    @ (if r + 1 < length ls then 10 # join [10] (drop (r + 1) ls) else [])"
  using assms
proof (induction ls arbitrary: r)
  case (Cons l ls)
  then show ?case by (cases "ls = []"; cases r) (auto simp: join_Cons)
qed simp

lemma exists_lines: "\<exists>ls. is_lines ls s"
proof (induction s rule: rev_induct)
  case Nil
  then show ?case by (intro exI[of _ "[[]]"]) (simp add: is_lines_def)
next
  case (snoc c s)
  then obtain ls where ls: "is_lines ls s" by blast
  then obtain us u where u: "ls = us @ [u]" by (cases ls rule: rev_cases) (auto simp: is_lines_def)
  have j: "join [10] (us @ [x]) = concat (map (\<lambda>l. l @ [10]) us) @ x" for x
    by (induction us) (auto simp: join_Cons)
  have j2: "join [10] (us @ [u, []]) = concat (map (\<lambda>l. l @ [10]) us) @ u @ [10]"
    by (induction us) (auto simp: join_Cons)
  show ?case
  proof (cases "c = 10")
    case True
    then show ?thesis using ls u j j2 by (intro exI[of _ "us @ [u, []]"]) (auto simp: is_lines_def)
  next
    case False
    then show ?thesis using ls u j by (intro exI[of _ "us @ [u @ [c]]"]) (auto simp: is_lines_def)
  qed
qed

text \<open>Every cursor is in a row and a column.\<close>

lemma cursor_row_col:
  assumes "is_lines ls (a @ b)"
  shows "\<exists>r c. r < length ls \<and> c \<le> length (ls ! r) \<and> a = concat (map (\<lambda>l. l @ [10]) (take r ls)) @ take c (ls ! r)"
  using assms
proof (induction ls arbitrary: a)
  case (Cons l ls)
  show ?case
  proof (cases "ls = [] \<or> length a \<le> length l")
    case True
    obtain x where x: "a @ b = l @ x" and le: "length a \<le> length l"
    proof (cases "ls = []")
      case True
      then have ab: "a @ b = l" using Cons.prems by (simp add: is_lines_def)
      then have "length a + length b = length l" by (metis length_append)
      then show ?thesis using that[of "[]"] ab by simp
    next
      case False
      then show ?thesis using that[of "10 # join [10] ls"] True Cons.prems by (simp add: is_lines_def join_Cons)
    qed
    from arg_cong[OF x, of "take (length a)"] le have "a = take (length a) l" by simp
    with le show ?thesis by (intro exI[of _ 0] exI[of _ "length a"]) auto
  next
    case False
    then have "a @ b = (l @ [10]) @ join [10] ls" using Cons.prems by (simp add: is_lines_def join_Cons)
    then obtain a' where a': "a = (l @ [10]) @ a'" "a' @ b = join [10] ls"
      using False by (auto simp: append_eq_append_conv2 append_eq_Cons_conv)
    then have "is_lines ls (a' @ b)" using Cons.prems False by (auto simp: is_lines_def)
    from Cons.IH[OF this] obtain r c where
      "r < length ls" "c \<le> length (ls ! r)" "a' = concat (map (\<lambda>l. l @ [10]) (take r ls)) @ take c (ls ! r)" by blast
    then show ?thesis using a' by (intro exI[of _ "Suc r"] exI[of _ c]) simp
  qed
qed (simp add: is_lines_def)

definition line_prefix :: "rstr list \<Rightarrow> nat \<Rightarrow> rstr" where
  "line_prefix ls r = concat (map (\<lambda>l. l @ [10]) (take r ls))"

lemma line_offset_prefix: "line_offset ls r = utf8_len (line_prefix ls r)"
  by (simp add: line_offset_def line_prefix_def)

lemma line_offset_0 [simp]: "line_offset ls 0 = 0"
  by (simp add: line_offset_def)

lemma line_offset_Cons_Suc [simp]: "line_offset (l # ls) (Suc r) = utf8_len l + 1 + line_offset ls r"
  by (simp add: line_offset_def)

lemma line_offset_Suc: "r < length ls \<Longrightarrow> line_offset ls (Suc r) = line_offset ls r + utf8_len (ls ! r) + 1"
  by (simp add: line_offset_def take_Suc_conv_app_nth)

lemma lines_around:
  assumes "is_lines ls s" "r < length ls"
  obtains rest where "s = line_prefix ls r @ ls ! r @ rest" "r + 1 < length ls \<longleftrightarrow> rest \<noteq> []"
  using join_take_drop[OF assms(2)] assms(1) that by (cases "r + 1 < length ls") (auto simp: is_lines_def line_prefix_def)

definition newline_ends :: "nat \<Rightarrow> rstr \<Rightarrow> nat list" where
  "newline_ends i s = map (\<lambda>(i, c). i + 1) (filter (\<lambda>(i, c). c = 10) (char_indices_from i s))"

lemma newline_ends_simps [simp]:
  "newline_ends i [] = []" "newline_ends i (10 # s) = (i + 1) # newline_ends (i + 1) s"
  by (simp_all add: newline_ends_def)

lemma newline_ends_no: "10 \<notin> set l \<Longrightarrow> newline_ends i (l @ s) = newline_ends (i + utf8_len l) s"
  by (induction l arbitrary: i) (auto simp: newline_ends_def add.assoc)

lemma newline_ends_lines:
  assumes "ls \<noteq> []" "\<forall>l \<in> set ls. 10 \<notin> set l"
  shows "i # newline_ends i (join [10] ls) = map (\<lambda>r. i + line_offset ls r) [0..<length ls]"
  using assms
proof (induction ls arbitrary: i)
  case (Cons l ls)
  show ?case
  proof (cases "ls = []")
    case True
    then show ?thesis using Cons.prems newline_ends_no[of l i "[]"] by simp
  next
    case False
    have "newline_ends i (join [10] (l # ls)) = newline_ends (i + utf8_len l) (10 # join [10] ls)"
      using Cons.prems False by (simp add: join_Cons newline_ends_no)
    also have "\<dots> = map (\<lambda>r. (i + utf8_len l + 1) + line_offset ls r) [0..<length ls]"
      using Cons.IH[of "i + utf8_len l + 1"] Cons.prems False by simp
    finally show ?thesis by (simp add: map_upt_Suc add.assoc add.left_commute del: upt_Suc)
  qed
qed simp

lemma line_starts_lines: "is_lines ls s \<Longrightarrow> line_starts s = map (line_offset ls) [0..<length ls]"
  using newline_ends_lines[of ls 0] by (simp add: is_lines_def line_starts_def newline_ends_def char_indices_def)

lemma newlines_append [simp]: "newlines (a @ b) = newlines a + newlines b"
  by (simp add: newlines_def)

lemma newlines_0_iff: "newlines a = 0 \<longleftrightarrow> 10 \<notin> set a"
  by (auto simp: newlines_def filter_empty_conv)

lemma newlines_prefix:
  assumes "is_lines ls s" "r < length ls"
  shows "newlines (line_prefix ls r @ take c (ls ! r)) = r"
proof -
  have no: "newlines l = 0" if "l \<in> set ls" for l using assms(1) that by (auto simp: newlines_0_iff is_lines_def)
  have "newlines (take c (ls ! r)) = 0"
    using assms by (auto simp: newlines_0_iff is_lines_def dest: in_set_takeD)
  moreover have "newlines (line_prefix ls r) = r"
    using assms(2) by (induction r) (auto simp: line_prefix_def take_Suc_conv_app_nth no, auto simp: newlines_def)
  ultimately show ?thesis by simp
qed

lemma byte_index_column: "byte_index_for_char_column l c = utf8_len (take c l)"
  by (cases "drop c l")
    (auto simp: byte_index_for_char_column_def char_indices_def drop_char_indices_from)

lemma move_vertical_lines:
  assumes ls: "is_lines ls s" and r: "r < length ls" and c: "c \<le> length (ls ! r)"
    and r': "r' = nat (max 0 (min (int r + delta) (int (length ls - 1))))"
  shows "move_vertical s (line_offset ls r + utf8_len (take c (ls ! r))) delta =
    Some (line_offset ls r' + utf8_len (take c (ls ! r')))"
proof -
  let ?cursor = "line_offset ls r + utf8_len (take c (ls ! r))"
  obtain rest where s: "s = line_prefix ls r @ ls ! r @ rest" using lines_around[OF ls r] .
  have starts: "line_starts s = map (line_offset ls) [0..<length ls]" using line_starts_lines[OF ls] .
  have parts: "s = (line_prefix ls r @ take c (ls ! r)) @ drop c (ls ! r) @ rest" by (simp add: s)
  have to: "slice_to s ?cursor = Some (line_prefix ls r @ take c (ls ! r))"
    unfolding line_offset_prefix utf8_len_append[symmetric] by (subst parts, rule slice_to_append)
  have before: "slice s (line_offset ls r) ?cursor = Some (take c (ls ! r))"
    unfolding line_offset_prefix
    using slice_append[of "line_prefix ls r" "take c (ls ! r)" "drop c (ls ! r) @ rest"] parts by simp
  have r'_less: "r' < length ls" using r unfolding r' by (auto simp: nat_less_iff min_def)
  obtain rest' where s': "s = line_prefix ls r' @ ls ! r' @ rest'" "r' + 1 < length ls \<longleftrightarrow> rest' \<noteq> []"
    using lines_around[OF ls r'_less] .
  have line: "slice s (line_offset ls r') (line_offset ls r' + utf8_len (ls ! r')) = Some (ls ! r')"
    unfolding line_offset_prefix by (subst s'(1), rule slice_append)
  have len: "utf8_len s = line_offset ls r' + utf8_len (ls ! r')" if "\<not> r' + 1 < length ls"
    using that s' by (simp add: line_offset_prefix)
  have target_end: "(if r' + 1 < length ls then map_option (\<lambda>x. x - 1) (index (line_starts s) (r' + 1)) else Some (utf8_len s))
      = Some (line_offset ls r' + utf8_len (ls ! r'))"
    using r'_less len by (simp add: starts index_def line_offset_Suc)
  have row: "newlines (line_prefix ls r @ take c (ls ! r)) = r" using newlines_prefix[OF ls r] .
  have n: "length (line_starts s) = length ls" by (simp add: starts)
  have i: "index (line_starts s) k = Some (line_offset ls k)" if "k < length ls" for k
    using that by (simp add: index_def starts)
  show ?thesis
    unfolding move_vertical_def Let_def to Option.bind_lunit row i[OF r] before n r'[symmetric]
      target_end i[OF r'_less] line byte_index_column
    using c by (simp add: min_absorb2 line ac_simps)
qed

section \<open>Deleting a line\<close>

lemma line_head_prefix:
  assumes "10 \<notin> set t"
  shows "line_head (line_prefix ls r @ t) = line_prefix ls r" "after_last (\<lambda>c. c = 10) (line_prefix ls r @ t) = t"
proof -
  have 1: "line_head (line_prefix ls r @ t) = line_head (line_prefix ls r)"
    using assms by (induction t rule: rev_induct) (simp_all add: line_head_snoc flip: append_assoc)
  have 2: "line_head (line_prefix ls r) = line_prefix ls r"
    by (cases "take r ls" rule: rev_cases) (auto simp: line_prefix_def line_head_def)
  show "line_head (line_prefix ls r @ t) = line_prefix ls r" using 1 2 by simp
  then show "after_last (\<lambda>c. c = 10) (line_prefix ls r @ t) = t" using line_head_split[of "line_prefix ls r @ t"] by simp
qed

text \<open>The lines that are left when row \<open>r\<close> is deleted.\<close>

definition delete_row :: "nat \<Rightarrow> rstr list \<Rightarrow> rstr list" where
  "delete_row r ls = (if take r ls @ drop (r + 1) ls = [] then [[]] else take r ls @ drop (r + 1) ls)"

definition lost_last_line :: "nat \<Rightarrow> rstr list \<Rightarrow> bool" where
  "lost_last_line r ls \<longleftrightarrow> 0 < r \<and> r + 2 = length ls \<and> last ls = []"

lemma line_prefix_join:
  "r \<le> length ls \<Longrightarrow> line_prefix ls r @ join [10] (drop r ls) = (if r < length ls then join [10] ls else line_prefix ls r)"
proof (induction ls arbitrary: r)
  case (Cons l ls)
  then show ?case by (cases r; cases "ls = []") (auto simp: line_prefix_def join_Cons')
qed (simp add: line_prefix_def)

lemma join_without_row:
  "r + 1 < length ls \<Longrightarrow> join [10] (take r ls @ drop (r + 1) ls) = line_prefix ls r @ join [10] (drop (r + 1) ls)"
proof (induction ls arbitrary: r)
  case (Cons l ls)
  then show ?case by (cases r) (auto simp: line_prefix_def join_Cons')
qed simp

lemma join_butlast_prefix: "0 < r \<Longrightarrow> r \<le> length ls \<Longrightarrow> join [10] (take r ls) @ [10] = line_prefix ls r"
proof (induction ls arbitrary: r)
  case (Cons l ls)
  then obtain k where k: "r = Suc k" by (cases r) auto
  then show ?case using Cons by (cases "k = 0"; cases "ls = []") (auto simp: line_prefix_def join_Cons')
qed (simp add: line_prefix_def)

lemma line_ranges:
  assumes ls: "is_lines ls s" and r: "r < length ls" and c: "c \<le> length (ls ! r)"
  shows "line_start s (line_offset ls r + utf8_len (take c (ls ! r))) = Some (line_offset ls r)"
    and "line_end s (line_offset ls r + utf8_len (take c (ls ! r))) = Some (line_offset ls r + utf8_len (ls ! r))"
proof -
  obtain rest where s: "s = line_prefix ls r @ ls ! r @ rest" and "r + 1 < length ls \<longleftrightarrow> rest \<noteq> []"
    using lines_around[OF ls r] .
  have rest: "rest = [] \<or> hd rest = 10"
    using join_take_drop[OF r] s ls by (auto simp: is_lines_def line_prefix_def split: if_splits)
  have no: "10 \<notin> set (take c (ls ! r))" "10 \<notin> set (drop c (ls ! r))"
    using ls r by (auto simp: is_lines_def dest: in_set_takeD in_set_dropD)
  let ?a = "line_prefix ls r @ take c (ls ! r)" let ?b = "drop c (ls ! r) @ rest"
  have s': "s = ?a @ ?b" by (simp add: s)
  have at': "line_offset ls r + utf8_len (take c (ls ! r)) = utf8_len ?a" by (simp add: line_offset_prefix)
  show "line_start s (line_offset ls r + utf8_len (take c (ls ! r))) = Some (line_offset ls r)"
    unfolding at' by (subst s', subst line_start_around) (simp add: line_head_prefix no line_offset_prefix)
  have "takeWhile (\<lambda>c. c \<noteq> 10) ?b = drop c (ls ! r)"
    using no rest by (subst takeWhile_append2) (auto, cases rest, auto)
  moreover have "utf8_len (take c (ls ! r)) + utf8_len (drop c (ls ! r)) = utf8_len (ls ! r)"
    by (simp flip: utf8_len_append)
  ultimately show "line_end s (line_offset ls r + utf8_len (take c (ls ! r))) = Some (line_offset ls r + utf8_len (ls ! r))"
    unfolding at' by (subst s', subst line_end_around) (simp add: line_offset_prefix)
qed

lemma join_Nil_iff: "ls \<noteq> [] \<Longrightarrow> join [10] ls = [] \<longleftrightarrow> ls = [[]]"
  by (cases ls) (auto simp: join_Cons')

lemma drain_parts: "s = a @ b @ c \<Longrightarrow> n = utf8_len a \<Longrightarrow> m = utf8_len a + utf8_len b \<Longrightarrow> drain s n m = Some (a @ c)"
  by simp

lemma slice_parts: "s = a @ b @ c \<Longrightarrow> n = utf8_len a \<Longrightarrow> m = utf8_len a + utf8_len b \<Longrightarrow> slice s n m = Some b"
  by simp

lemma delete_range_lines:
  assumes "is_lines ls s" "r < length ls" "c \<le> length (ls ! r)"
  shows "current_line_delete_range s (line_offset ls r + utf8_len (take c (ls ! r))) =
    (let e = (if r + 1 < length ls then line_offset ls (r + 1) else utf8_len s) in
     Some (line_offset ls r, e, if e = utf8_len s \<and> 0 < r then line_offset ls r - 1 else line_offset ls r))"
proof -
  obtain rest where s: "s = line_prefix ls r @ ls ! r @ rest" "r + 1 < length ls \<longleftrightarrow> rest \<noteq> []"
    using lines_around[OF assms(1,2)] .
  have core: "line_offset ls r + utf8_len (ls ! r) < utf8_len s \<longleftrightarrow> r + 1 < length ls"
    using s(2) by (simp add: s(1) line_offset_prefix)
  have last: "\<not> r + 1 < length ls \<Longrightarrow> line_offset ls r + utf8_len (ls ! r) = utf8_len s"
    using s(2) by (simp add: s(1) line_offset_prefix)
  have "0 < line_offset ls r \<longleftrightarrow> 0 < r"
    using assms(2) by (cases ls; cases r) auto
  then show ?thesis using assms(2) core last
    by (auto simp: current_line_delete_range_def line_ranges[OF assms] line_offset_Suc Let_def)
qed

lemma delete_line_core:
  assumes "is_lines ls (es_text s)" "r < length ls" "c \<le> length (ls ! r)"
    and "es_cursor s = line_offset ls r + utf8_len (take c (ls ! r))"
  shows "delete_current_line (ed, s) =
    (let t = join [10] (if lost_last_line r ls then take r ls else delete_row r ls) in
     Some (ed\<lparr>le_yank_buffer := \<lparr>yank_text = ls ! r @ (if r + 1 < length ls then [10] else []), yank_linewise = True\<rparr>\<rparr>,
           s\<lparr>es_text := t, es_cursor := (if r + 1 = length ls \<or> lost_last_line r ls then utf8_len t else line_offset ls r)\<rparr>))"
proof -
  let ?x = "es_text s"
  note range = delete_range_lines[OF assms(1-3), folded assms(4)]
  obtain rest where x: "?x = line_prefix ls r @ ls ! r @ rest" "r + 1 < length ls \<longleftrightarrow> rest \<noteq> []"
    using lines_around[OF assms(1,2)] .
  show ?thesis
  proof (cases "r + 1 < length ls")
    case False
    then have r: "r + 1 = length ls" "rest = []" using assms(2) x by auto
    have nl: "\<not> lost_last_line r ls" using r by (simp add: lost_last_line_def)
    have yank: "slice ?x (line_offset ls r) (utf8_len ?x) = Some (ls ! r)"
      by (rule slice_parts[of _ _ _ "[]"]) (simp_all add: x r line_offset_prefix)
    show ?thesis
    proof (cases "r = 0")
      case True
      have "drain ?x 0 (utf8_len ?x) = Some []" by (rule drain_parts[of _ "[]" _ "[]", simplified]) simp_all
      then show ?thesis using range yank True r nl
        by (simp add: delete_current_line_def delete_row_def Let_def)
    next
      case f: False
      then have j: "join [10] (take r ls) @ [10] = line_prefix ls r" using assms(2) by (intro join_butlast_prefix) auto
      have len: "line_offset ls r = utf8_len (join [10] (take r ls)) + 1"
        using arg_cong[OF j, of utf8_len] by (simp add: line_offset_prefix)
      then have off: "line_offset ls r - 1 = utf8_len (join [10] (take r ls))" by simp
      have "drain ?x (line_offset ls r - 1) (utf8_len ?x) = Some (join [10] (take r ls) @ [])"
        by (rule drain_parts[of _ _ "10 # ls ! r"]) (simp_all add: x r off len flip: j)
      moreover have "delete_row r ls = take r ls" using r f by (auto simp: delete_row_def)
      ultimately show ?thesis using range yank False f nl r
        by (simp add: delete_current_line_def Let_def len)
    qed
  next
    case True
    let ?d = "drop (r + 1) ls"
    have d: "?d \<noteq> []" using True by simp
    have rest: "rest = 10 # join [10] ?d"
      using join_take_drop[OF assms(2)] x True assms(1) by (auto simp: is_lines_def line_prefix_def)
    have e: "line_offset ls (Suc r) = line_offset ls r + utf8_len (ls ! r) + 1" using assms(2) by (simp add: line_offset_Suc)
    have at_end: "line_offset ls (Suc r) = utf8_len ?x \<longleftrightarrow> ?d = [[]]"
      unfolding e using join_Nil_iff[OF d] by (simp add: x rest line_offset_prefix)
    have ld: "last ?d = last ls" "length ?d = length ls - (r + 1)" using True by (simp_all add: last_drop)
    have last: "?d = [[]] \<longleftrightarrow> r + 2 = length ls \<and> last ls = []"
    proof
      assume one: "?d = [[]]"
      then show "r + 2 = length ls \<and> last ls = []" using ld unfolding one by simp
    next
      assume e2: "r + 2 = length ls \<and> last ls = []"
      have "length ls - (r + 1) = 1" using e2 by linarith
      then have "length ?d = Suc 0" using ld(2) by linarith
      then obtain l where l: "?d = [l]" by (auto simp only: length_Suc_conv length_0_conv)
      then show "?d = [[]]" using ld(1) e2 unfolding l by simp
    qed
    have yank: "slice ?x (line_offset ls r) (line_offset ls (r + 1)) = Some (ls ! r @ [10])"
      by (rule slice_parts[of _ _ _ "join [10] ?d"]) (simp_all add: x rest e[unfolded line_offset_prefix] line_offset_prefix)
    show ?thesis
    proof (cases "?d = [[]] \<and> 0 < r")
      case lost: True
      then have ll: "lost_last_line r ls" using last by (simp add: lost_last_line_def)
      have j: "join [10] (take r ls) @ [10] = line_prefix ls r" using assms(2) lost by (intro join_butlast_prefix) auto
      have len: "line_offset ls r = utf8_len (join [10] (take r ls)) + 1"
        using arg_cong[OF j, of utf8_len] by (simp add: line_offset_prefix)
      have "drain ?x (line_offset ls r - 1) (line_offset ls (r + 1)) = Some (join [10] (take r ls) @ [])"
        by (rule drain_parts[of _ _ "10 # ls ! r @ [10]"]) (use lost in \<open>simp_all add: x rest e len flip: j\<close>)
      then show ?thesis using range yank True lost at_end ll len by (simp add: delete_current_line_def Let_def)
    next
      case False
      then have nl: "\<not> lost_last_line r ls" using last by (auto simp: lost_last_line_def)
      have row: "delete_row r ls = take r ls @ ?d" using d by (auto simp: delete_row_def)
      have "join [10] (take r ls @ ?d) = line_prefix ls r @ join [10] ?d" using True by (rule join_without_row)
      moreover have "drain ?x (line_offset ls r) (line_offset ls (r + 1)) = Some (line_prefix ls r @ join [10] ?d)"
        by (rule drain_parts[of _ _ "ls ! r @ [10]"]) (simp_all add: x rest e[unfolded line_offset_prefix] line_offset_prefix)
      moreover have "current_line_delete_range ?x (es_cursor s) = Some (line_offset ls r, line_offset ls (r + 1), line_offset ls r)"
        using range True False at_end by auto
      ultimately show ?thesis using yank True nl row
        by (simp add: delete_current_line_def Let_def line_offset_prefix)
    qed
  qed
qed

section \<open>No key panics\<close>

definition boundary :: "rstr \<Rightarrow> nat \<Rightarrow> bool" where
  "boundary s n \<longleftrightarrow> split_at n s \<noteq> None"

lemma boundary_iff: "boundary s n \<longleftrightarrow> (\<exists>a b. s = a @ b \<and> n = utf8_len a)"
  unfolding boundary_def using split_at_Some by fastforce

lemma boundaryE:
  assumes "boundary s n"
  obtains a b where "s = a @ b" "n = utf8_len a"
  using assms by (auto simp: boundary_iff)

lemma boundary_append [simp]: "boundary (a @ b) (utf8_len a)"
  by (auto simp: boundary_iff)

lemma boundary_all [simp]: "boundary s (utf8_len s)"
  using boundary_append[of s "[]"] by simp

lemma boundary_0 [simp]: "boundary s 0"
  using boundary_append[of "[]" s] by simp

text \<open>The command line of the vim bindings starts with its colon, which the cursor stays behind.\<close>

definition command_ok :: "rstr \<Rightarrow> nat \<Rightarrow> bool" where
  "command_ok b n \<longleftrightarrow> (\<exists>t. b = 58 # t) \<and> 1 \<le> n \<and> boundary b n"

lemma command_ok_iff: "command_ok b n \<longleftrightarrow> (\<exists>a t. b = 58 # a @ t \<and> n = 1 + utf8_len a)"
proof
  assume ok: "command_ok b n"
  then obtain t where t: "b = 58 # t" "1 \<le> n" by (auto simp: command_ok_def)
  from ok obtain a c where a: "b = a @ c" "n = utf8_len a" by (auto simp: command_ok_def elim: boundaryE)
  with t obtain a' where a': "a = 58 # a'" by (cases a) auto
  have "b = 58 # a' @ c" "n = 1 + utf8_len a'" using a unfolding a' by (simp_all add: utf8_width.simps)
  then show "\<exists>a t. b = 58 # a @ t \<and> n = 1 + utf8_len a" by blast
next
  assume "\<exists>a t. b = 58 # a @ t \<and> n = 1 + utf8_len a"
  then obtain a t where b: "b = (58 # a) @ t" and n: "n = utf8_len (58 # a)" by (auto simp: utf8_width.simps)
  then have "boundary b n" by (simp only: boundary_append)
  then show "command_ok b n" unfolding command_ok_def by (simp add: b n utf8_width.simps)
qed

definition editor_ok :: "LineEditor \<Rightarrow> EditSession \<Rightarrow> bool" where
  "editor_ok ed s \<longleftrightarrow>
     boundary (es_text s) (es_cursor s)
     \<and> (es_mode s = CommandMode \<longrightarrow> command_ok (es_command_buffer s) (es_command_cursor s))
     \<and> (\<forall>i. es_history_index s = Some i \<longrightarrow> i < length (le_history ed))
     \<and> (\<forall>st. le_completion_state ed = Some st \<longrightarrow> cs_matches st \<noteq> [])
     \<and> (es_mode s = PlainMode \<longleftrightarrow> \<not> le_vim_enabled ed)"

lemma editor_ok_around: "editor_ok ed s \<Longrightarrow> \<exists>a b. es_text s = a @ b \<and> es_cursor s = utf8_len a"
  by (simp add: editor_ok_def boundary_iff)

text \<open>An operation on the session that keeps the invariant, the mode and the history position.\<close>

definition moves :: "EditSession \<Rightarrow> EditSession option \<Rightarrow> bool" where
  "moves s r \<longleftrightarrow> (\<exists>s'. r = Some s' \<and> es_mode s' = es_mode s \<and> es_history_index s' = es_history_index s
     \<and> boundary (es_text s') (es_cursor s')
     \<and> (es_mode s = CommandMode \<longrightarrow> command_ok (es_command_buffer s') (es_command_cursor s')))"

named_theorems moves_intros \<open>editing operations that keep the cursor on a boundary\<close>

lemma editor_ok_moves:
  assumes "editor_ok ed s" "moves s r"
  shows "\<exists>s'. with_editor ed r = Some (ed, s') \<and> editor_ok ed s'"
  using assms by (auto simp: editor_ok_def moves_def with_editor_def)

lemma moves_set_cursor:
  assumes "boundary (es_text s) (es_cursor s)" "es_mode s = CommandMode \<Longrightarrow> command_ok (es_command_buffer s) (es_command_cursor s)"
    and "\<And>a b. es_mode s \<noteq> CommandMode \<Longrightarrow> es_text s = a @ b \<Longrightarrow> es_cursor s = utf8_len a \<Longrightarrow> \<exists>n. r = Some n \<and> boundary (es_text s) n"
    and "\<And>a b. es_mode s = CommandMode \<Longrightarrow> es_command_buffer s = 58 # a @ b \<Longrightarrow> es_command_cursor s = 1 + utf8_len a
      \<Longrightarrow> \<exists>n. r = Some n \<and> command_ok (es_command_buffer s) n"
  shows "moves s (map_option (set_cursor s) r)"
proof (cases "es_mode s = CommandMode")
  case True
  then show ?thesis using assms(1,2,4) unfolding command_ok_iff by (force simp: moves_def set_cursor_def command_ok_iff)
next
  case False
  then show ?thesis using assms(1,3) by (force simp: moves_def set_cursor_def boundary_iff)
qed

lemma command_boundaries:
  assumes "b = 58 # a @ t" "n = 1 + utf8_len a"
  shows "\<exists>n'. previous_command_boundary b n = Some n' \<and> command_ok b n'"
    and "\<exists>n'. next_boundary b n = Some n' \<and> command_ok b n'"
    and "insert_str b n u = Some (58 # a @ u @ t)"
    and "delete_at b n = Some (58 # a @ drop 1 t)"
    and "a \<noteq> [] \<Longrightarrow> remove_previous_char b n = Some (58 # butlast a @ t, 1 + utf8_len (butlast a))"
    and "slice_to b n = Some (58 # a)"
proof -
  have b: "b = (58 # a) @ t" and n: "n = utf8_len (58 # a)" using assms by (simp_all add: utf8_width.simps)
  show "\<exists>n'. previous_command_boundary b n = Some n' \<and> command_ok b n'"
    unfolding previous_command_boundary_def b n previous_boundary_around command_ok_iff
    by (cases a rule: rev_cases) (auto simp: utf8_width.simps butlast_append)
  show "\<exists>n'. next_boundary b n = Some n' \<and> command_ok b n'"
    unfolding b n next_boundary_around command_ok_iff
    by (intro exI[of _ "utf8_len ((58 # a) @ take 1 t)"] conjI exI[of _ "a @ take 1 t"] exI[of _ "drop 1 t"])
      (auto simp: utf8_width.simps)
  show "insert_str b n u = Some (58 # a @ u @ t)" unfolding b n insert_str_append by simp
  show "delete_at b n = Some (58 # a @ drop 1 t)" unfolding b n delete_at_around by simp
  show "remove_previous_char b n = Some (58 # butlast a @ t, 1 + utf8_len (butlast a))" if "a \<noteq> []"
    unfolding b n remove_previous_char_around using that by (simp add: utf8_width.simps)
  show "slice_to b n = Some (58 # a)" unfolding b n slice_to_append by simp
qed

lemma moves_left [moves_intros]:
  assumes "boundary (es_text s) (es_cursor s)" "es_mode s = CommandMode \<Longrightarrow> command_ok (es_command_buffer s) (es_command_cursor s)"
  shows "moves s (move_left s)" and "moves s (move_right s)" and "moves s (move_line_start s)" and "moves s (move_line_end s)"
    and "moves s (move_up s)" and "moves s (move_down s)"
proof -
  have take: "boundary (a @ b) (utf8_len (a @ take 1 b))" for a b
    using boundary_append[of "a @ take 1 b" "drop 1 b"] by simp
  have but: "boundary (a @ b) (utf8_len (butlast a))" for a b
    by (cases a rule: rev_cases) simp_all
  have head: "boundary (a @ b) (utf8_len (line_head a))" for a b
    using boundary_append[of "line_head a" "after_last (\<lambda>c. c = 10) a @ b"] line_head_split[of a] by (metis append.assoc)
  have ends: "boundary (a @ b) (utf8_len (a @ takeWhile (\<lambda>c. c \<noteq> 10) b))" for a b
    using boundary_append[of "a @ takeWhile (\<lambda>c. c \<noteq> 10) b" "dropWhile (\<lambda>c. c \<noteq> 10) b"] by simp
  have all: "boundary (58 # x) (Suc (utf8_len x))" for x
    using boundary_all[of "58 # x"] by (simp add: utf8_width.simps)
  have one: "boundary (58 # x) (Suc 0)" for x
    using boundary_append[of "[58]" x] by (simp add: utf8_width.simps)
  show "moves s (move_left s)" unfolding move_left_def
    by (rule moves_set_cursor[OF assms]) (auto simp: around_simps but command_boundaries(1))
  show "moves s (move_right s)" unfolding move_right_def
    by (rule moves_set_cursor[OF assms]) (auto simp: around_simps take[unfolded One_nat_def] command_boundaries(2) simp del: utf8_len_append)
  show "moves s (move_line_start s)" unfolding move_line_start_def
    by (rule moves_set_cursor[OF assms]) (auto simp: around_simps head one command_ok_def)
  show "moves s (move_line_end s)" unfolding move_line_end_def
    by (rule moves_set_cursor[OF assms]) (auto simp: around_simps ends all command_ok_def utf8_width.simps simp del: utf8_len_append)
  have vertical: "moves s (if es_mode s = CommandMode then Some s
      else map_option (set_cursor s) (move_vertical (es_text s) (es_cursor s) d))" for d
  proof (cases "es_mode s = CommandMode")
    case False
    obtain a b where ab: "es_text s = a @ b" "es_cursor s = utf8_len a" using assms(1) by (rule boundaryE)
    obtain ls where ls: "is_lines ls (es_text s)" using exists_lines by blast
    obtain r c where rc: "r < length ls" "c \<le> length (ls ! r)" "a = line_prefix ls r @ take c (ls ! r)"
      using cursor_row_col[of ls a b] ls ab by (auto simp: line_prefix_def)
    let ?r' = "nat (max 0 (min (int r + d) (int (length ls - 1))))"
    have "move_vertical (es_text s) (es_cursor s) d = Some (line_offset ls ?r' + utf8_len (take c (ls ! ?r')))"
      using move_vertical_lines[OF ls rc(1,2) refl, of d] ab(2) rc(3) by (simp add: line_offset_prefix)
    moreover have "?r' < length ls" using rc(1) by (auto simp: nat_less_iff min_def)
    then obtain rest where "es_text s = line_prefix ls ?r' @ ls ! ?r' @ rest" using lines_around[OF ls] by blast
    then have "es_text s = (line_prefix ls ?r' @ take c (ls ! ?r')) @ drop c (ls ! ?r') @ rest" by simp
    then have "boundary (es_text s) (line_offset ls ?r' + utf8_len (take c (ls ! ?r')))"
      unfolding boundary_iff by (intro exI conjI) (assumption, simp add: line_offset_prefix)
    ultimately show ?thesis using False by (simp add: moves_def set_cursor_def)
  qed (use assms in \<open>simp add: moves_def\<close>)
  show "moves s (move_up s)" unfolding move_up_def by (rule vertical)
  show "moves s (move_down s)" unfolding move_down_def by (rule vertical)
qed

lemma moves_edit [moves_intros]:
  assumes "boundary (es_text s) (es_cursor s)" "es_mode s = CommandMode \<Longrightarrow> command_ok (es_command_buffer s) (es_command_cursor s)"
  shows "moves s (insert_active_text u s)" and "moves s (delete_char_under_cursor s)" and "moves s (paste_after ed s)"
proof -
  obtain a b where ab: "es_text s = a @ b" "es_cursor s = utf8_len a" using assms(1) by (rule boundaryE)
  have ins: "boundary (a @ u @ b) (utf8_len a + utf8_len u)" for a u b
    using boundary_append[of "a @ u" b] by simp
  show "moves s (insert_active_text u s)"
  proof (cases "es_mode s = CommandMode")
    case True
    then obtain a' t where "es_command_buffer s = 58 # a' @ t" "es_command_cursor s = 1 + utf8_len a'"
      using assms(2) by (auto simp: command_ok_iff)
    then show ?thesis using True assms(1)
      by (simp add: moves_def insert_active_text_def command_boundaries(3) command_ok_iff)
        (intro exI[of _ "a' @ u"] exI[of _ t], simp)
  next
    case False
    then show ?thesis using ab ins by (simp add: moves_def insert_active_text_def)
  qed
  show "moves s (delete_char_under_cursor s)"
  proof (cases "es_mode s = CommandMode")
    case True
    then obtain a' t where "es_command_buffer s = 58 # a' @ t" "es_command_cursor s = 1 + utf8_len a'"
      using assms(2) by (auto simp: command_ok_iff)
    then show ?thesis using True assms(1)
      by (simp add: moves_def delete_char_under_cursor_def command_boundaries(4) command_ok_iff)
        (intro exI[of _ a'] exI[of _ "drop 1 t"], simp)
  next
    case False
    then show ?thesis using ab by (simp add: moves_def delete_char_under_cursor_def delete_at_around)
  qed
  show "moves s (paste_after ed s)"
  proof -
    let ?y = "yank_text (le_yank_buffer ed)"
    let ?w = "takeWhile (\<lambda>c. c \<noteq> 10) b" let ?v = "dropWhile (\<lambda>c. c \<noteq> 10) b"
    have e: "line_end (es_text s) (es_cursor s) = Some (utf8_len (a @ ?w))" unfolding ab by (rule line_end_around)
    have bv: "es_text s = (a @ ?w) @ ?v" by (simp add: ab)
    obtain p q where pq: "es_text s = p @ q" "(if utf8_len (a @ ?w) < utf8_len (es_text s) then utf8_len (a @ ?w) + 1 else utf8_len (es_text s)) = utf8_len p"
    proof (cases ?v)
      case Nil
      show ?thesis using that[of "es_text s" "[]"] Nil bv by (metis append_Nil2 order_less_irrefl)
    next
      case (Cons c v)
      then have "c = 10" using hd_dropWhile[of "\<lambda>c. c \<noteq> 10" b] by simp
      then show ?thesis using that[of "a @ ?w @ [10]" v] Cons bv by simp
    qed
    have at_p: "boundary (p @ i @ q) (if starts_with [10] i then utf8_len p + 1 else utf8_len p)" for i
    proof (cases i)
      case (Cons c i')
      then show ?thesis using boundary_append[of "p @ [c]" "i' @ q"] by (auto simp: starts_with_def)
    qed (simp add: starts_with_def)
    have n: "insert_str (es_text s) (utf8_len (a @ take 1 b)) ?y = Some (a @ take 1 b @ ?y @ drop 1 b)"
      "boundary (a @ take 1 b @ ?y @ drop 1 b) (utf8_len (a @ take 1 b) + utf8_len ?y)"
      using insert_str_append[of "a @ take 1 b" "drop 1 b" ?y] boundary_append[of "a @ take 1 b @ ?y" "drop 1 b"]
      by (simp_all add: ab add.assoc)
    have nb: "next_boundary (es_text s) (es_cursor s) = Some (utf8_len (a @ take 1 b))" unfolding ab by (rule next_boundary_around)
    have linewise: "moves s (paste_after ed s)" if "?y \<noteq> []" "yank_linewise (le_yank_buffer ed)"
      using that assms at_p unfolding paste_after_def Let_def e Option.bind_lunit pq(2)
      by (simp add: pq(1) moves_def del: utf8_len_append)
    show ?thesis
    proof (cases "?y = [] \<or> yank_linewise (le_yank_buffer ed)")
      case True
      then show ?thesis using linewise assms by (cases "?y = []") (simp_all add: paste_after_def moves_def)
    next
      case False
      then show ?thesis using n assms unfolding paste_after_def Let_def nb Option.bind_lunit
        by (simp add: moves_def del: utf8_len_append)
    qed
  qed
qed

lemma history_ok:
  assumes "editor_ok ed s"
  shows "\<exists>s'. history_up ed s = Some s' \<and> editor_ok ed s'" "\<exists>s'. history_down ed s = Some s' \<and> editor_ok ed s'"
proof -
  note defs = editor_ok_def set_text_from_history_def index_def
  show "\<exists>s'. history_up ed s = Some s' \<and> editor_ok ed s'"
  proof (cases "es_mode s = CommandMode \<or> le_history ed = []")
    case False
    show ?thesis
    proof (cases "es_history_index s")
      case (Some i)
      then have "i - 1 < length (le_history ed)" using assms by (auto simp: editor_ok_def)
      then show ?thesis using False Some assms by (simp add: history_up_def defs)
    qed (use False assms in \<open>simp add: history_up_def defs\<close>)
  qed (use assms in \<open>auto simp: history_up_def\<close>)
  show "\<exists>s'. history_down ed s = Some s' \<and> editor_ok ed s'"
  proof (cases "es_history_index s")
    case (Some i)
    then show ?thesis using assms by (auto simp: history_down_def defs Let_def enter_insert_mode_def)
  qed (use assms in \<open>auto simp: history_down_def\<close>)
qed

lemma complete_ok:
  assumes "editor_ok ed s"
  shows "\<exists>ed' s'. complete_slash_command (ed, s) = Some (ed', s') \<and> editor_ok ed' s'"
proof -
  obtain a b where ab: "es_text s = a @ b" "es_cursor s = utf8_len a"
    using assms editor_ok_around by blast
  have replace: "replace_with_candidate c s = Some (s\<lparr>es_text := c @ b, es_cursor := utf8_len c\<rparr>)" for c
    by (simp add: replace_with_candidate_def ab)
  have next': "\<exists>c st'. next_candidate st = Some (c, st') \<and> cs_matches st' \<noteq> []" if "cs_matches st \<noteq> []" for st
    using that by (simp add: next_candidate_def index_def)
  have repl: "editor_ok (ed\<lparr>le_completion_state := x\<rparr>) (s\<lparr>es_text := c @ b, es_cursor := utf8_len c\<rparr>)"
    if "es_mode s \<noteq> CommandMode" "\<forall>st. x = Some st \<longrightarrow> cs_matches st \<noteq> []" for x c
    using assms that by (auto simp: editor_ok_def)
  have none: "editor_ok (ed\<lparr>le_completion_state := None\<rparr>) s" using assms by (simp add: editor_ok_def)
  show ?thesis
  proof (cases "es_mode s = CommandMode")
    case True
    then show ?thesis using none by (simp add: complete_slash_command_def)
  next
    case nc: False
    show ?thesis
    proof (cases "cycling ed s")
      case (Some st)
      then have "cs_matches st \<noteq> []" using assms by (auto simp: cycling_def editor_ok_def split: option.splits if_splits)
      then obtain c st' where "next_candidate st = Some (c, st')" "cs_matches st' \<noteq> []" using next' by blast
      then show ?thesis using Some nc repl[of "Some st'" c] by (simp add: complete_slash_command_def replace)
    next
      case None
      have "\<exists>p. slash_command_prefix (es_text s) (es_cursor s) = Some p"
        using ab by (auto simp: slash_command_prefix_def)
      then obtain p where p: "slash_command_prefix (es_text s) (es_cursor s) = Some p" by blast
      let ?m = "\<lambda>prefix. filter (\<lambda>c. starts_with prefix c \<and> c \<noteq> prefix) (le_completions ed)"
      show ?thesis
      proof (cases "p = None \<or> ?m (the p) = []")
        case True
        then show ?thesis using None nc none p by (cases p) (simp_all add: complete_slash_command_def Let_def)
      next
        case False
        then obtain prefix where prefix: "p = Some prefix" "?m prefix \<noteq> []" by (cases p) auto
        let ?fresh = "(hd (?m prefix), \<lparr>cs_prefix = prefix, cs_matches = ?m prefix, cs_next_index = 1\<rparr>)"
        let ?choice = "(case le_completion_state ed of
            Some st \<Rightarrow> if cs_prefix st = prefix \<and> cs_matches st = ?m prefix then next_candidate st else Some ?fresh
          | None \<Rightarrow> Some ?fresh)"
        have "\<exists>c st'. ?choice = Some (c, st') \<and> cs_matches st' \<noteq> []"
        proof (cases "le_completion_state ed")
          case (Some st)
          then show ?thesis using prefix(2) next'[of st]
            by (cases "cs_prefix st = prefix \<and> cs_matches st = ?m prefix") auto
        qed (use prefix(2) in auto)
        then obtain c st' where c: "?choice = Some (c, st')" "cs_matches st' \<noteq> []" by blast
        show ?thesis using None nc p prefix c repl[of "Some st'" c]
          by (simp add: complete_slash_command_def Let_def replace)
      qed
    qed
  qed
qed

lemma delete_line_ok:
  assumes "editor_ok ed s" "es_mode s \<noteq> CommandMode"
  shows "\<exists>ed' s'. delete_current_line (ed, s) = Some (ed', s') \<and> editor_ok ed' s'"
    and "\<exists>ed' s'. yank_current_line (ed, s) = Some (ed', s') \<and> editor_ok ed' s'"
proof -
  obtain a b where ab: "es_text s = a @ b" "es_cursor s = utf8_len a"
    using assms editor_ok_around by blast
  obtain ls where ls: "is_lines ls (es_text s)" using exists_lines by blast
  obtain r c where rc: "r < length ls" "c \<le> length (ls ! r)" "a = line_prefix ls r @ take c (ls ! r)"
    using cursor_row_col[of ls a b] ls ab by (auto simp: line_prefix_def)
  have cur: "es_cursor s = line_offset ls r + utf8_len (take c (ls ! r))" using ab rc by (simp add: line_offset_prefix)
  let ?x = "if lost_last_line r ls then take r ls else delete_row r ls"
  have "boundary (join [10] ?x) (if r + 1 = length ls \<or> lost_last_line r ls then utf8_len (join [10] ?x) else line_offset ls r)"
  proof (cases "r + 1 = length ls \<or> lost_last_line r ls")
    case False
    then have d: "drop (r + 1) ls \<noteq> []" using rc(1) by auto
    have "join [10] (take r ls @ drop (r + 1) ls) = line_prefix ls r @ join [10] (drop (r + 1) ls)"
      using False rc(1) by (intro join_without_row) auto
    then show ?thesis using False d by (simp add: delete_row_def line_offset_prefix)
  qed auto
  then show "\<exists>ed' s'. delete_current_line (ed, s) = Some (ed', s') \<and> editor_ok ed' s'"
    using delete_line_core[OF ls rc(1,2) cur, of ed] assms by (auto simp: editor_ok_def Let_def)
  then show "\<exists>ed' s'. yank_current_line (ed, s) = Some (ed', s') \<and> editor_ok ed' s'"
    using assms by (auto simp: delete_current_line_def yank_current_line_def editor_ok_def split: bind_splits)
qed

lemma with_editor_moves:
  assumes "editor_ok ed s" "moves s r"
  shows "\<exists>ed' s'. with_editor ed r = Some (ed', s') \<and> editor_ok ed' s'"
  using editor_ok_moves[OF assms] by blast

lemma handle_char_ok:
  assumes "editor_ok ed s"
  shows "\<exists>ed' s'. handle_char c (ed, s) = Some (ed', s') \<and> editor_ok ed' s'"
proof -
  have b: "boundary (es_text s) (es_cursor s)" "es_mode s = CommandMode \<Longrightarrow> command_ok (es_command_buffer s) (es_command_cursor s)"
    using assms by (auto simp: editor_ok_def)
  have mode: "editor_ok ed (enter_insert_mode t)" "editor_ok ed (enter_normal_mode t)" "editor_ok ed (enter_visual_mode t)"
    "editor_ok ed (enter_command_mode t)" if "editor_ok ed t" "es_mode t \<noteq> PlainMode" for t
    using that by (auto simp: editor_ok_def enter_insert_mode_def enter_normal_mode_def enter_visual_mode_def
        enter_command_mode_def command_ok_def utf8_width.simps boundary_all[of "[58]", simplified utf8_len_Cons, simplified utf8_width.simps, simplified])
  let ?s = "s\<lparr>es_pending_operator := None\<rparr>"
  have s': "editor_ok ed ?s" "editor_ok ed (?s\<lparr>es_pending_operator := x\<rparr>)" for x using assms by (auto simp: editor_ok_def)
  have b': "boundary (es_text ?s) (es_cursor ?s)" "es_mode ?s = CommandMode \<Longrightarrow> command_ok (es_command_buffer ?s) (es_command_cursor ?s)"
    using b by auto
  show ?thesis
  proof (cases "es_mode s")
    case NormalMode
    then have "\<exists>ed' s'. handle_normal_char c (ed, s) = Some (ed', s') \<and> editor_ok ed' s'"
      using delete_line_ok[OF s'(1)] with_editor_moves[OF s'(1)] moves_left[OF b'] moves_edit(3)[OF b'] mode[OF s'(1)] s'
      unfolding handle_normal_char_def by (simp add: Let_def)
    then show ?thesis using NormalMode by (simp add: handle_char_def)
  next
    case VisualMode
    then show ?thesis using with_editor_moves[OF assms] moves_left[OF b] mode[OF assms] assms
      by (simp add: handle_char_def handle_visual_char_def with_editor_def)
  qed (use with_editor_moves[OF assms] moves_edit(1)[OF b] in \<open>simp_all add: handle_char_def insert_active_char_def\<close>)
qed

lemma key_ok:
  assumes "editor_ok ed s"
  shows "\<exists>action ed' s'. handle_key_event key (ed, s) = Some (action, ed', s') \<and> editor_ok ed' s'"
proof -
  let ?ed = "if key_code key \<noteq> KeyTab then ed\<lparr>le_completion_state := None\<rparr> else ed"
  have ed: "editor_ok ?ed s" using assms by (auto simp: editor_ok_def)
  have b: "boundary (es_text s) (es_cursor s)" "es_mode s = CommandMode \<Longrightarrow> command_ok (es_command_buffer s) (es_command_cursor s)"
    using assms by (auto simp: editor_ok_def)
  have moved: "\<exists>action ed' s'. continue_with (with_editor ?ed r) = Some (action, ed', s') \<and> editor_ok ed' s'" if "moves s r" for r
    using editor_ok_moves[OF ed that] by (auto simp: continue_with_def)
  have continue': "\<exists>action ed' s'. continue_with r = Some (action, ed', s') \<and> editor_ok ed' s'"
    if "\<exists>ed' s'. r = Some (ed', s') \<and> editor_ok ed' s'" for r
    using that by (auto simp: continue_with_def)
  have sess: "\<exists>action ed' s'. continue_with (with_editor ?ed r) = Some (action, ed', s') \<and> editor_ok ed' s'"
    if "\<exists>s'. r = Some s' \<and> editor_ok ?ed s'" for r
    using that by (auto simp: continue_with_def with_editor_def)
  have newline: "\<exists>action ed' s'. continue_with (with_editor ?ed (insert_newline s)) = Some (action, ed', s') \<and> editor_ok ed' s'"
    using moved[OF moves_edit(1)[OF b]] sess[of "Some s"] ed by (simp add: insert_newline_def)
  have escape: "\<exists>s'. handle_escape s = Some s' \<and> editor_ok ?ed s'"
  proof (cases "es_mode s")
    case InsertMode
    obtain a c where ac: "es_text s = a @ c" "es_cursor s = utf8_len a" using editor_ok_around[OF assms] by blast
    have "boundary (a @ c) (utf8_len (butlast a))" by (cases a rule: rev_cases) simp_all
    then show ?thesis using InsertMode ed ac
      by (auto simp: handle_escape_def editor_ok_def enter_normal_mode_def previous_boundary_around)
  qed (use ed in \<open>auto simp: handle_escape_def editor_ok_def enter_normal_mode_def exit_command_mode_def\<close>)
  have backspace: "\<exists>s'. handle_backspace s = Some s' \<and> editor_ok ?ed s'"
  proof (cases "es_mode s = CommandMode")
    case True
    then obtain a t where at: "es_command_buffer s = 58 # a @ t" "es_command_cursor s = 1 + utf8_len a"
      using b(2) by (auto simp: command_ok_iff)
    show ?thesis
    proof (cases "a = []")
      case True
      then show ?thesis using at ed \<open>es_mode s = CommandMode\<close>
        by (auto simp: handle_backspace_def editor_ok_def enter_normal_mode_def exit_command_mode_def)
    next
      case False
      then have "\<not> es_command_cursor s \<le> 1" using at by simp
      then show ?thesis using command_boundaries(5)[OF at False] ed \<open>es_mode s = CommandMode\<close>
        by (auto simp: handle_backspace_def editor_ok_def command_ok_iff)
    qed
  next
    case False
    obtain a c where ac: "es_text s = a @ c" "es_cursor s = utf8_len a" using editor_ok_around[OF assms] by blast
    have left: "\<exists>s'. move_left s = Some s' \<and> editor_ok ?ed s'"
      using editor_ok_moves[OF ed moves_left(1)[OF b]] by (auto simp: with_editor_def)
    show ?thesis using False ed ac left
      by (cases "es_mode s") (auto simp: handle_backspace_def editor_ok_def remove_previous_char_around)
  qed
  show ?thesis
  proof (cases "key_control key \<and> (key_code key = KeyChar 99 \<or> key_code key = KeyChar 67 \<or> key_code key = KeyChar 106
      \<or> key_code key = KeyChar 74 \<or> key_code key = KeyChar 100 \<or> key_code key = KeyChar 68)")
    case True
    then show ?thesis using ed newline moved[OF moves_edit(2)[OF b]] unfolding handle_key_event_def
      by (auto simp: Let_def)
  next
    case False
    then have "handle_key_event key (ed, s) = (case key_code key of
          KeyEnter \<Rightarrow> if key_shift key then continue_with (with_editor ?ed (insert_newline s)) else Some (submit_or_toggle s, ?ed, s)
        | KeyEsc \<Rightarrow> continue_with (with_editor ?ed (handle_escape s))
        | KeyBackspace \<Rightarrow> continue_with (with_editor ?ed (handle_backspace s))
        | KeyDelete \<Rightarrow> continue_with (with_editor ?ed (delete_char_under_cursor s))
        | KeyLeft \<Rightarrow> continue_with (with_editor ?ed (move_left s))
        | KeyRight \<Rightarrow> continue_with (with_editor ?ed (move_right s))
        | KeyUp \<Rightarrow> continue_with (with_editor ?ed (history_up ?ed s))
        | KeyDown \<Rightarrow> continue_with (with_editor ?ed (history_down ?ed s))
        | KeyHome \<Rightarrow> continue_with (with_editor ?ed (move_line_start s))
        | KeyEnd \<Rightarrow> continue_with (with_editor ?ed (move_line_end s))
        | KeyTab \<Rightarrow> continue_with (complete_slash_command (?ed, s))
        | KeyChar c \<Rightarrow> continue_with (handle_char c (?ed, s))
        | KeyOther \<Rightarrow> Some (Continue, ?ed, s))"
      unfolding handle_key_event_def Let_def by auto
    moreover have "\<exists>action ed' s'. \<dots> = Some (action, ed', s') \<and> editor_ok ed' s'"
      using newline ed sess[OF escape] sess[OF backspace] moved[OF moves_edit(2)[OF b]] moved[OF moves_left(1)[OF b]]
        moved[OF moves_left(2)[OF b]] moved[OF moves_left(3)[OF b]] moved[OF moves_left(4)[OF b]]
        sess[OF history_ok(1)[OF ed]] sess[OF history_ok(2)[OF ed]] continue'[OF complete_ok[OF ed]] continue'[OF handle_char_ok[OF ed]]
      by (cases "key_code key") (simp_all only: KeyCode.case, auto)
    ultimately show ?thesis by simp
  qed
qed

text \<open>What can happen to an editor: keys, drawings, the next line with or without a new history entry, and the
  switch of the vim bindings.\<close>

inductive reachable_editor :: "rstr \<Rightarrow> rstr list \<Rightarrow> LineEditor \<Rightarrow> EditSession \<Rightarrow> bool" for prompt completions where
  start: "reachable_editor prompt completions (LineEditor_new prompt completions) (EditSession_new False)"
| key: "reachable_editor prompt completions ed s \<Longrightarrow> handle_key_event key (ed, s) = Some (action, ed', s')
    \<Longrightarrow> reachable_editor prompt completions ed' s'"
| draw: "reachable_editor prompt completions ed s \<Longrightarrow> draw ed s = Reading ed' s' \<Longrightarrow> reachable_editor prompt completions ed' s'"
| line: "reachable_editor prompt completions ed s \<Longrightarrow> reachable_editor prompt completions ed (EditSession_new (le_vim_enabled ed))"
| history: "reachable_editor prompt completions ed s \<Longrightarrow> reachable_editor prompt completions (push_history entry ed) s"
| vim: "reachable_editor prompt completions ed s
    \<Longrightarrow> reachable_editor prompt completions (ed\<lparr>le_vim_enabled := \<not> le_vim_enabled ed\<rparr>) (EditSession_new (\<not> le_vim_enabled ed))"

lemma reachable_editor_ok: "reachable_editor prompt completions ed s \<Longrightarrow> editor_ok ed s"
proof (induction rule: reachable_editor.induct)
  case (key ed s k action ed' s')
  then show ?case using key_ok[of ed s k] by auto
next
  case (draw ed s ed' s')
  then show ?case
    by (auto simp: draw_def render_def editor_ok_def Let_def result_simps split: option.splits sum.splits bind_splits)
next
  case (history ed s entry)
  then show ?case by (auto simp: push_history_def editor_ok_def less_Suc_eq)
qed (auto simp: editor_ok_def LineEditor_new_def EditSession_new_def)

text \<open>C19: no sequence of keys, lines and history entries makes the handler of a key panic, and the cursor can
  always be placed: it is on a character boundary of the text, the cursor of a command line is on a boundary behind
  its colon, and the history position, if there is one, is a position of the history. Only drawing a visual
  selection can fail.\<close>

theorem editor_never_panics:
  assumes "reachable_editor prompt completions ed s"
  shows "handle_key_event key (ed, s) \<noteq> None \<and> boundary (es_text s) (es_cursor s)
    \<and> (es_mode s = CommandMode \<longrightarrow> (\<exists>a t. es_command_buffer s = 58 # a @ t \<and> es_command_cursor s = 1 + utf8_len a))
    \<and> (case es_history_index s of None \<Rightarrow> True | Some i \<Rightarrow> i < length (le_history ed))
    \<and> (\<exists>row col lines. cursor_layout s p = Some (row, col, lines) \<and> row < lines)
    \<and> (es_mode s \<noteq> VisualMode \<longrightarrow> render p vim s \<noteq> None)"
proof -
  have ok: "editor_ok ed s" using reachable_editor_ok[OF assms] .
  obtain a b where ab: "es_text s = a @ b" "es_cursor s = utf8_len a" using editor_ok_around[OF ok] by blast
  have layout: "\<exists>row col lines. cursor_layout s p = Some (row, col, lines) \<and> row < lines" for p
  proof (cases "es_mode s = CommandMode")
    case True
    then obtain a t where at: "es_command_buffer s = 58 # a @ t" "es_command_cursor s = 1 + utf8_len a"
      using ok by (auto simp: editor_ok_def command_ok_iff)
    have "newlines (58 # a) \<le> newlines (58 # a @ t)" by (simp add: newlines_def)
    then show ?thesis using True command_boundaries(6)[OF at] at
      by (auto simp: cursor_layout_def active_text_def Let_def less_Suc_eq_le)
  next
    case False
    then show ?thesis using ab by (simp add: cursor_layout_def active_text_def Let_def)
  qed
  have "render p vim s \<noteq> None" if "es_mode s \<noteq> VisualMode"
    using that layout[of "editor_prompt s p vim"] by (auto simp: render_def visible_buffer_def Let_def split: sum.split)
  moreover have "(es_mode s = CommandMode \<longrightarrow> (\<exists>a t. es_command_buffer s = 58 # a @ t \<and> es_command_cursor s = 1 + utf8_len a))
      \<and> (case es_history_index s of None \<Rightarrow> True | Some i \<Rightarrow> i < length (le_history ed))"
    using ok by (auto simp: editor_ok_def command_ok_iff split: option.split)
  ultimately show ?thesis using key_ok[OF ok, of key] ab layout by auto
qed

text \<open>\<open>dd\<close> yanks the whole line of the cursor, with its line feed if it has one, and removes exactly that
  line from the text; the cursor is at the line that follows, or at the end of the text if there is none.
  The exception is the line before an empty last line: the empty line is lost with it.\<close>

theorem delete_line_removes_row:
  assumes "is_lines ls (es_text s)" "r < length ls" "c \<le> length (ls ! r)"
    and "es_cursor s = line_offset ls r + utf8_len (take c (ls ! r))"
  shows "delete_current_line (ed, s) =
    (let t = join [10] (if lost_last_line r ls then take r ls else delete_row r ls) in
     Some (ed\<lparr>le_yank_buffer := \<lparr>yank_text = ls ! r @ (if r + 1 < length ls then [10] else []), yank_linewise = True\<rparr>\<rparr>,
           s\<lparr>es_text := t, es_cursor := (if r + 1 = length ls \<or> lost_last_line r ls then utf8_len t else line_offset ls r)\<rparr>))"
  by (rule delete_line_core[OF assms])

section \<open>Editing as editing the two parts\<close>

fun press :: "KeyEvent list \<Rightarrow> LineEditor \<times> EditSession \<Rightarrow> (LineEditor \<times> EditSession) option" where
  "press [] es = Some es"
| "press (key # keys) es =
     (case handle_key_event key es of Some (Continue, es') \<Rightarrow> press keys es' | _ \<Rightarrow> None)"

definition plain_key :: "KeyCode \<Rightarrow> KeyEvent" where
  "plain_key k = \<lparr>key_code = k, key_control = False, key_shift = False\<rparr>"

lemma press_append: "press (ks @ ls) es = Option.bind (press ks es) (press ls)"
  by (induction ks arbitrary: es) (auto split: option.split KeyAction.split)

text \<open>What an editing key means: the text is a pair of its parts before and after the cursor. Keys that end the
  line, walk through the history or complete a command are not editing keys.\<close>

definition edit_parts :: "KeyEvent \<Rightarrow> rstr \<times> rstr \<Rightarrow> (rstr \<times> rstr) option" where
  "edit_parts key = (\<lambda>(a, b).
     case key_code key of
       KeyChar c \<Rightarrow>
         if key_control key \<and> c \<in> {99, 67} then None
         else if key_control key \<and> c \<in> {106, 74} then Some (a @ [10], b)
         else if key_control key \<and> c \<in> {100, 68} then (if a @ b = [] then None else Some (a, drop 1 b))
         else Some (a @ [c], b)
     | KeyEnter \<Rightarrow> if key_shift key then Some (a @ [10], b) else None
     | KeyBackspace \<Rightarrow> Some (butlast a, b)
     | KeyDelete \<Rightarrow> Some (a, drop 1 b)
     | KeyLeft \<Rightarrow> Some (butlast a, drop (length a - 1) a @ b)
     | KeyRight \<Rightarrow> Some (a @ take 1 b, drop 1 b)
     | KeyHome \<Rightarrow> Some (line_head a, after_last (\<lambda>c. c = 10) a @ b)
     | KeyEnd \<Rightarrow> Some (a @ takeWhile (\<lambda>c. c \<noteq> 10) b, dropWhile (\<lambda>c. c \<noteq> 10) b)
     | KeyEsc \<Rightarrow> Some (a, b)
     | KeyOther \<Rightarrow> Some (a, b)
     | _ \<Rightarrow> None)"

fun edit_all :: "KeyEvent list \<Rightarrow> rstr \<times> rstr \<Rightarrow> (rstr \<times> rstr) option" where
  "edit_all [] p = Some p"
| "edit_all (key # keys) p = Option.bind (edit_parts key p) (edit_all keys)"

definition holds_parts :: "EditSession \<Rightarrow> rstr \<times> rstr \<Rightarrow> bool" where
  "holds_parts s p \<longleftrightarrow> es_text s = fst p @ snd p \<and> es_cursor s = utf8_len (fst p)"

lemma edit_step:
  assumes mode: "es_mode s = PlainMode" and parts: "holds_parts s (a, b)" and edit: "edit_parts key (a, b) = Some p"
  shows "\<exists>ed' s'. handle_key_event key (ed, s) = Some (Continue, ed', s') \<and> es_mode s' = PlainMode \<and> holds_parts s' p"
proof -
  have ab: "es_text s = a @ b" "es_cursor s = utf8_len a" using parts by (simp_all add: holds_parts_def)
  have last: "butlast a @ drop (length a - 1) a = a" by (cases a rule: rev_cases) simp_all
  have left: "butlast a @ drop (length a - Suc 0) a @ b = a @ b" using last by (simp flip: append_assoc)
  have head: "line_head a @ after_last (\<lambda>c. c = 10) a @ b = a @ b"
    using line_head_split[of a] by (simp flip: append_assoc)
  have ins: "insert_active_text u s = Some (s\<lparr>es_text := a @ u @ b, es_cursor := utf8_len (a @ u)\<rparr>)" for u
    using mode ab by (simp add: insert_active_text_def)
  note ops = handle_key_event_def Let_def continue_with_def with_editor_def insert_newline_def ins mode ab
    handle_char_def insert_active_char_def handle_backspace_def remove_previous_char_around delete_char_under_cursor_def
    delete_at_around move_left_def move_right_def move_line_start_def move_line_end_def previous_boundary_around
    next_boundary_around line_start_around line_end_around handle_escape_def set_cursor_def holds_parts_def
    edit_parts_def current_len_def active_text_def left head
  show ?thesis using edit by (cases "key_code key") (auto simp: ops split: if_splits simp del: utf8_len_append)
qed

text \<open>C11: with plain bindings, every sequence of editing keys has exactly the effect of the same edits on the
  pair of the text before and the text after the cursor, whatever characters it holds: the byte offsets
  implement that pair. Enter then submits the two parts joined, unless they spell the switch of the bindings.\<close>

theorem editing_refines_parts:
  assumes "es_mode s = PlainMode" "es_text s = a @ b" "es_cursor s = utf8_len a"
    and "edit_all keys (a, b) = Some (a', b')"
  shows "\<exists>ed' s'. press keys (ed, s) = Some (ed', s') \<and> es_text s' = a' @ b' \<and> es_cursor s' = utf8_len a'
    \<and> fst (the (handle_key_event (plain_key KeyEnter) (ed', s')))
        = (if trim (a' @ b') = lit ''/vim'' then ToggleVim else SubmitLine (a' @ b'))"
proof -
  have "\<exists>ed' s'. press keys (ed, s) = Some (ed', s') \<and> es_mode s' = PlainMode \<and> holds_parts s' q"
    if "es_mode s = PlainMode" "holds_parts s p" "edit_all keys p = Some q" for p q
    using that
  proof (induction keys arbitrary: ed s p)
    case (Cons key keys)
    obtain p1 where p1: "edit_parts key p = Some p1" "edit_all keys p1 = Some q"
      using Cons.prems(3) by (auto simp: bind_eq_Some_conv)
    obtain ed1 s1 where "handle_key_event key (ed, s) = Some (Continue, ed1, s1)" "es_mode s1 = PlainMode" "holds_parts s1 p1"
      using edit_step[of s "fst p" "snd p" key p1 ed] Cons.prems p1(1) by auto
    then show ?case using Cons.IH[of s1 p1 ed1] p1(2) by simp
  qed simp
  from this[of "(a, b)" "(a', b')"] assms obtain ed' s' where
    "press keys (ed, s) = Some (ed', s')" "es_mode s' = PlainMode" "holds_parts s' (a', b')"
    by (auto simp: holds_parts_def)
  then show ?thesis
    by (auto simp: holds_parts_def handle_key_event_def plain_key_def submit_or_toggle_def current_line_def active_text_def
        handle_submission_def Let_def)
qed

section \<open>History and completion\<close>

lemma up_step:
  assumes "es_mode s = PlainMode" "k < length (le_history ed)"
    and "es_history_index s = None \<and> k = length (le_history ed) - 1 \<and> d = es_text s
      \<or> es_history_index s = Some (Suc k) \<and> es_history_backup s = Some d"
  shows "\<exists>s'. press [plain_key KeyUp] (ed, s) = Some (ed\<lparr>le_completion_state := None\<rparr>, s') \<and> es_mode s' = PlainMode
    \<and> es_history_index s' = Some k \<and> es_history_backup s' = Some d
    \<and> es_text s' = le_history ed ! k \<and> es_cursor s' = utf8_len (le_history ed ! k)"
  using assms by (auto simp: handle_key_event_def plain_key_def continue_with_def with_editor_def history_up_def
      index_def set_text_from_history_def Let_def)

lemma ups:
  assumes "es_mode s = PlainMode" "es_history_index s = None" "0 < k" "k \<le> length (le_history ed)"
  shows "\<exists>s'. press (replicate k (plain_key KeyUp)) (ed, s) = Some (ed\<lparr>le_completion_state := None\<rparr>, s') \<and> es_mode s' = PlainMode
    \<and> es_history_index s' = Some (length (le_history ed) - k) \<and> es_history_backup s' = Some (es_text s)
    \<and> es_text s' = le_history ed ! (length (le_history ed) - k)"
  using assms(3,4)
proof (induction k)
  case (Suc k)
  show ?case
  proof (cases "k = 0")
    case True
    have less: "length (le_history ed) - 1 < length (le_history ed)" using Suc.prems by simp
    show ?thesis using up_step[OF assms(1) less, of "es_text s"] assms(2) True by fastforce
  next
    case False
    then obtain s1 where s1: "press (replicate k (plain_key KeyUp)) (ed, s) = Some (ed\<lparr>le_completion_state := None\<rparr>, s1)"
      "es_mode s1 = PlainMode" "es_history_index s1 = Some (length (le_history ed) - k)" "es_history_backup s1 = Some (es_text s)"
      using Suc by auto
    have e: "replicate (Suc k) (plain_key KeyUp) = replicate k (plain_key KeyUp) @ [plain_key KeyUp]"
      by (simp add: replicate_append_same)
    let ?ed = "ed\<lparr>le_completion_state := None\<rparr>"
    have i: "length (le_history ?ed) - Suc k < length (le_history ?ed)" "es_history_index s1 = Some (Suc (length (le_history ?ed) - Suc k))"
      using Suc.prems s1(3) by simp_all
    obtain s2 where s2: "press [plain_key KeyUp] (?ed, s1) = Some (?ed\<lparr>le_completion_state := None\<rparr>, s2)" "es_mode s2 = PlainMode"
      "es_history_index s2 = Some (length (le_history ed) - Suc k)" "es_history_backup s2 = Some (es_text s)"
      "es_text s2 = le_history ed ! (length (le_history ed) - Suc k)"
      using up_step[OF s1(2) i(1), of "es_text s"] i(2) s1(4) by auto
    then show ?thesis unfolding e press_append s1(1) by (simp del: press.simps)
  qed
qed simp

lemma downs:
  assumes "es_mode s = PlainMode" "es_history_index s = Some i" "i + k = length (le_history ed)" "0 < k"
    "es_history_backup s = Some d" "\<not> le_vim_enabled ed"
  shows "\<exists>s'. press (replicate k (plain_key KeyDown)) (ed, s) = Some (ed\<lparr>le_completion_state := None\<rparr>, s')
    \<and> es_mode s' = PlainMode \<and> es_history_index s' = None \<and> es_text s' = d \<and> es_cursor s' = utf8_len d"
  using assms
proof (induction k arbitrary: s i ed)
  case (Suc k)
  show ?case
  proof (cases "k = 0")
    case True
    then show ?thesis using Suc.prems
      by (auto simp: handle_key_event_def plain_key_def continue_with_def with_editor_def history_down_def
          unwrap_or_def set_text_from_history_def Let_def)
  next
    case False
    let ?ed = "ed\<lparr>le_completion_state := None\<rparr>"
    obtain s1 where s1: "handle_key_event (plain_key KeyDown) (ed, s) = Some (Continue, ?ed, s1)"
      "es_mode s1 = PlainMode" "es_history_index s1 = Some (Suc i)" "es_history_backup s1 = Some d"
      using Suc.prems False
      by (auto simp: handle_key_event_def plain_key_def continue_with_def with_editor_def history_down_def
          index_def set_text_from_history_def Let_def)
    then show ?thesis using Suc.IH[of s1 "Suc i" ?ed] Suc.prems False by simp
  qed
qed simp

text \<open>going up \<open>k\<close> entries in the history shows the entry that was submitted \<open>k\<close> lines ago, and going down
  again as often brings back the draft as it was, with the cursor at its end.\<close>

theorem history_returns_to_draft:
  assumes "es_mode s = PlainMode" "\<not> le_vim_enabled ed" "es_history_index s = None" "0 < k" "k \<le> length (le_history ed)"
  shows "(\<exists>ed' s'. press (replicate k (plain_key KeyUp)) (ed, s) = Some (ed', s') \<and> es_text s' = rev (le_history ed) ! (k - 1))
    \<and> (\<exists>ed' s'. press (replicate k (plain_key KeyUp) @ replicate k (plain_key KeyDown)) (ed, s) = Some (ed', s')
        \<and> es_text s' = es_text s \<and> es_cursor s' = utf8_len (es_text s) \<and> es_history_index s' = None)"
proof -
  obtain s1 where s1: "press (replicate k (plain_key KeyUp)) (ed, s) = Some (ed\<lparr>le_completion_state := None\<rparr>, s1)"
    "es_mode s1 = PlainMode" "es_history_index s1 = Some (length (le_history ed) - k)" "es_history_backup s1 = Some (es_text s)"
    "es_text s1 = le_history ed ! (length (le_history ed) - k)"
    using ups[OF assms(1,3,4,5)] by blast
  have "rev (le_history ed) ! (k - 1) = le_history ed ! (length (le_history ed) - k)"
    using assms(4,5) by (subst rev_nth) auto
  then show ?thesis
    using s1 downs[OF s1(2,3), of k "ed\<lparr>le_completion_state := None\<rparr>"] assms(2,4,5) by (auto simp: press_append)
qed

lemma tab_step:
  assumes "es_mode s \<noteq> CommandMode" "es_cursor s = utf8_len (es_text s)"
    and "le_completion_state ed = Some st" "es_text s \<in> set (cs_matches st)"
  shows "handle_key_event (plain_key KeyTab) (ed, s) =
    (let c = cs_matches st ! (cs_next_index st mod length (cs_matches st)) in
     Some (Continue, ed\<lparr>le_completion_state := Some (st\<lparr>cs_next_index := cs_next_index st + 1\<rparr>)\<rparr>,
           s\<lparr>es_text := c, es_cursor := utf8_len c\<rparr>))"
proof -
  have "cs_next_index st mod length (cs_matches st) < length (cs_matches st)" using assms(4) by (cases "cs_matches st") auto
  then show ?thesis using assms
    by (simp add: handle_key_event_def plain_key_def continue_with_def complete_slash_command_def cycling_def
        next_candidate_def replace_with_candidate_def index_def Let_def)
qed

text \<open>pressing Tab after a slash command prefix goes through all completions that extend it, in their order
  and round again: the \<open>k\<close>-th press shows candidate \<open>k - 1\<close> modulo their number.\<close>

theorem completion_cycles:
  assumes "es_mode s \<noteq> CommandMode" "es_cursor s = utf8_len (es_text s)" "le_completion_state ed = None"
    and prefix: "es_text s = 47 # t" "\<forall>c \<in> set t. \<not> is_ws c"
    and matches: "matches = filter (\<lambda>c. starts_with (es_text s) c \<and> c \<noteq> es_text s) (le_completions ed)" "matches \<noteq> []"
    and k: "0 < k"
  shows "\<exists>ed' s'. press (replicate k (plain_key KeyTab)) (ed, s) = Some (ed', s')
    \<and> es_text s' = matches ! ((k - 1) mod length matches) \<and> es_cursor s' = utf8_len (es_text s')"
proof -
  have "\<exists>ed' s'. press (replicate (Suc n) (plain_key KeyTab)) (ed, s) = Some (ed', s')
    \<and> es_text s' = matches ! (n mod length matches) \<and> es_cursor s' = utf8_len (es_text s') \<and> es_mode s' \<noteq> CommandMode
    \<and> le_completion_state ed' = Some \<lparr>cs_prefix = es_text s, cs_matches = matches, cs_next_index = Suc n\<rparr>" for n
  proof (induction n)
    case 0
    have "slash_command_prefix (es_text s) (es_cursor s) = Some (Some (es_text s))"
    proof -
      have "\<not> list_ex is_ws t" "\<not> is_ws 47" using prefix(2) by (simp_all add: list_ex_iff is_ws_def)
      then show ?thesis unfolding assms(2) prefix(1) by (simp add: slash_command_prefix_def starts_with_def del: utf8_len_Cons)
    qed
    then have "complete_slash_command (ed, s) =
      Some (ed\<lparr>le_completion_state := Some \<lparr>cs_prefix = es_text s, cs_matches = matches, cs_next_index = 1\<rparr>\<rparr>,
            s\<lparr>es_text := hd matches, es_cursor := utf8_len (hd matches)\<rparr>)"
      using assms(1-3) matches(2)
      by (simp add: complete_slash_command_def cycling_def replace_with_candidate_def Let_def flip: matches(1))
    then show ?case using assms(1) matches(2)
      by (simp add: handle_key_event_def plain_key_def continue_with_def Let_def hd_conv_nth)
  next
    case (Suc n)
    then obtain ed1 s1 where 1: "press (replicate (Suc n) (plain_key KeyTab)) (ed, s) = Some (ed1, s1)"
      "es_text s1 = matches ! (n mod length matches)" "es_cursor s1 = utf8_len (es_text s1)" "es_mode s1 \<noteq> CommandMode"
      "le_completion_state ed1 = Some \<lparr>cs_prefix = es_text s, cs_matches = matches, cs_next_index = Suc n\<rparr>" by blast
    have e: "replicate (Suc (Suc n)) (plain_key KeyTab) = replicate (Suc n) (plain_key KeyTab) @ [plain_key KeyTab]"
      by (simp add: replicate_append_same)
    have "es_text s1 \<in> set matches" using matches(2) 1(2) by simp
    then show ?case unfolding e press_append 1(1)
      using tab_step[OF 1(4,3,5)] 1(4) by (simp add: Let_def)
  qed
  from this[of "k - 1"] show ?thesis using k by auto
qed

section \<open>Runs\<close>

definition type_text :: "rstr \<Rightarrow> KeyEvent list" where
  "type_text t = map (\<lambda>c. plain_key (KeyChar c)) t"

text \<open>the selection of the visual mode keeps its anchor while the text changes under it: deleting a character
  before the anchor leaves it inside a character, and drawing the selection panics.\<close>

theorem visual_delete_panics:
  "case press (type_text [97, 233, 233] @ [plain_key KeyEsc] @ type_text [118, 104, 104] @ [plain_key KeyDelete])
       ((LineEditor_new (lit ''> '') [])\<lparr>le_vim_enabled := True\<rparr>, EditSession_new True) of
     Some (ed, s) \<Rightarrow> es_mode s = VisualMode \<and> Option.is_none (visible_buffer s)
   | None \<Rightarrow> False"
  by code_simp

section \<open>Examples\<close>

definition demo_session :: "EditorMode \<Rightarrow> rstr \<Rightarrow> EditSession" where
  "demo_session m t = (EditSession_new (m \<noteq> PlainMode))\<lparr>es_mode := m, es_text := t, es_cursor := utf8_len t\<rparr>"

definition demo_editor :: LineEditor where
  "demo_editor = (LineEditor_new (lit ''> '') [lit ''/help'', lit ''/hello''])\<lparr>le_history := [lit ''one'', lit ''two'']\<rparr>"

theorem delete_line_removes_row_witness:
  "map_option (\<lambda>(ed, s). (es_text s, es_cursor s)) (delete_current_line (demo_editor, demo_session NormalMode (lit ''x'' @ [10] @ lit ''a'' @ [10])))
     = Some (lit ''x'' @ [10] @ lit ''a'', 3)"
proof -
  let ?s = "demo_session NormalMode (lit ''x'' @ [10] @ lit ''a'' @ [10])"
  have lines: "is_lines [lit ''x'', lit ''a'', []] (es_text ?s)"
    by (simp add: is_lines_def demo_session_def lit_def)
  show ?thesis
    using delete_line_removes_row[OF lines, of 2 0 demo_editor]
    by (simp add: demo_session_def line_offset_def lost_last_line_def delete_row_def lit_def utf8_width.simps Let_def)
qed

theorem editor_never_panics_witness:
  "\<exists>ed s. handle_key_event (plain_key KeyTab) (ed, s) \<noteq> None \<and> ed = LineEditor_new (lit ''> '') []"
  using editor_never_panics[OF reachable_editor.start[of "lit ''> ''" "[]"], of "plain_key KeyTab"] by blast

theorem editing_refines_parts_witness:
  "\<exists>ed s. press (type_text (lit ''ab'') @ [plain_key KeyLeft, plain_key KeyBackspace]) (demo_editor, demo_session PlainMode []) = Some (ed, s)
     \<and> es_text s = lit ''b'' \<and> es_cursor s = 0"
  using editing_refines_parts[of "demo_session PlainMode []" "[]" "[]" "type_text (lit ''ab'') @ [plain_key KeyLeft, plain_key KeyBackspace]"
      "[]" "lit ''b''" demo_editor]
  by (auto simp: demo_session_def type_text_def plain_key_def edit_parts_def lit_def EditSession_new_def)

theorem history_returns_to_draft_witness:
  "\<exists>ed s. press [plain_key KeyUp, plain_key KeyUp, plain_key KeyDown, plain_key KeyDown] (demo_editor, demo_session PlainMode (lit ''draft''))
     = Some (ed, s) \<and> es_text s = lit ''draft''"
proof -
  have "\<exists>ed s. press (replicate 2 (plain_key KeyUp) @ replicate 2 (plain_key KeyDown)) (demo_editor, demo_session PlainMode (lit ''draft''))
     = Some (ed, s) \<and> es_text s = es_text (demo_session PlainMode (lit ''draft''))"
    using history_returns_to_draft[of "demo_session PlainMode (lit ''draft'')" demo_editor 2]
    by (auto simp: demo_session_def demo_editor_def LineEditor_new_def EditSession_new_def)
  then show ?thesis by (simp add: numeral_2_eq_2 demo_session_def del: press.simps)
qed

theorem completion_cycles_witness:
  "\<exists>ed s. press (replicate 3 (plain_key KeyTab)) (demo_editor, demo_session PlainMode (lit ''/he'')) = Some (ed, s)
     \<and> es_text s = lit ''/help''"
proof -
  have m: "filter (\<lambda>c. starts_with (es_text (demo_session PlainMode (lit ''/he''))) c \<and> c \<noteq> es_text (demo_session PlainMode (lit ''/he'')))
      (le_completions demo_editor) = [lit ''/help'', lit ''/hello'']"
    by code_simp
  show ?thesis
    using completion_cycles[of "demo_session PlainMode (lit ''/he'')" demo_editor "lit ''he''" "[lit ''/help'', lit ''/hello'']" 3] m
    by (auto simp: demo_session_def demo_editor_def LineEditor_new_def lit_def is_ws_def numeral_2_eq_2)
qed

end
