(* ===== verification/Slash_Commands.thy ===== *)
theory Slash_Commands
  imports Compact Rust_Path "HOL-Library.Product_Lexorder"
begin

text \<open>
  Slash commands (\<open>commands/src/lib.rs\<close>): the table of commands, the parser, the help text, the suggestions
  for a mistyped command with their edit distance, the arguments of \<open>/skills\<close>, and the commands that are
  handled without a running runtime.
\<close>

section \<open>The table\<close>

datatype CommandSource = CommandBuiltin | CommandInternalOnly | CommandFeatureGated

record CommandManifestEntry =
  cme_name :: rstr
  cme_source :: CommandSource

record CommandRegistry =
  cr_entries :: "CommandManifestEntry list"

definition CommandRegistry_new :: "CommandManifestEntry list \<Rightarrow> CommandRegistry" where
  "CommandRegistry_new es = \<lparr>cr_entries = es\<rparr>"

datatype SlashCommandCategory = CategoryCore | CategoryWorkspace | CategorySession | CategoryGit | CategoryAutomation

fun category_title :: "SlashCommandCategory \<Rightarrow> rstr" where
  "category_title CategoryCore = lit ''Core flow''"
| "category_title CategoryWorkspace = lit ''Workspace & memory''"
| "category_title CategorySession = lit ''Sessions & output''"
| "category_title CategoryGit = lit ''Git & GitHub''"
| "category_title CategoryAutomation = lit ''Automation & discovery''"

record SlashCommandSpec =
  spec_name :: rstr
  spec_aliases :: "rstr list"
  spec_summary :: rstr
  spec_argument_hint :: "rstr option"
  spec_resume_supported :: bool
  spec_category :: SlashCommandCategory

definition slash_spec ::
  "rstr \<Rightarrow> rstr list \<Rightarrow> rstr \<Rightarrow> rstr option \<Rightarrow> bool \<Rightarrow> SlashCommandCategory \<Rightarrow> SlashCommandSpec" where
  "slash_spec n aliases s hint resume c =
     \<lparr>spec_name = n, spec_aliases = aliases, spec_summary = s, spec_argument_hint = hint,
      spec_resume_supported = resume, spec_category = c\<rparr>"

definition SLASH_COMMAND_SPECS :: "SlashCommandSpec list" where
  "SLASH_COMMAND_SPECS = [
  slash_spec (lit ''help'') [] (lit ''Show available slash commands'')
    None True CategoryCore,
  slash_spec (lit ''status'') [] (lit ''Show current session status'')
    None True CategoryCore,
  slash_spec (lit ''compact'') [] (lit ''Compact local session history'')
    None True CategoryCore,
  slash_spec (lit ''model'') [] (lit ''Show or switch the active model'')
    (Some (lit ''[model]'')) False CategoryCore,
  slash_spec (lit ''permissions'') [] (lit ''Show or switch the active permission mode'')
    (Some (lit ''[read-only|workspace-write|danger-full-access]'')) False CategoryCore,
  slash_spec (lit ''plan'') [] (lit ''Enter or exit explicit plan mode for this REPL'')
    (Some (lit ''[exit]'')) False CategoryCore,
  slash_spec (lit ''clear'') [] (lit ''Start a fresh local session'')
    (Some (lit ''[--confirm]'')) True CategorySession,
  slash_spec (lit ''cost'') [] (lit ''Show session cost and accounting details'')
    None True CategoryCore,
  slash_spec (lit ''resume'') [] (lit ''Load a saved session into the REPL'')
    (Some (lit ''<session-path>'')) False CategorySession,
  slash_spec (lit ''config'') [] (lit ''Inspect openyak config files or merged sections'')
    (Some (lit ''[env|hooks|model|plugins]'')) True CategoryWorkspace,
  slash_spec (lit ''memory'') [] (lit ''Inspect loaded openyak instruction memory files'')
    None True CategoryWorkspace,
  slash_spec (lit ''init'') [] (lit ''Create a starter OPENYAK.md for this repo'')
    None True CategoryWorkspace,
  slash_spec (lit ''diff'') [] (lit ''Show git diff for current workspace changes'')
    None True CategoryWorkspace,
  slash_spec (lit ''version'') [] (lit ''Show CLI version and build information'')
    None True CategoryWorkspace,
  slash_spec (lit ''bughunter'') [] (lit ''Inspect the codebase for likely bugs'')
    (Some (lit ''[scope]'')) False CategoryAutomation,
  slash_spec (lit ''branch'') [] (lit ''List, create, or switch git branches'')
    (Some (lit ''[list|create <name>|switch <name>]'')) False CategoryGit,
  slash_spec (lit ''worktree'') [] (lit ''List, add, remove, or prune git worktrees'')
    (Some (lit ''[list|add <path> [branch]|remove <path>|prune]'')) False CategoryGit,
  slash_spec (lit ''commit'') [] (lit ''Generate a commit message and create a git commit'')
    None False CategoryGit,
  slash_spec (lit ''commit-push-pr'') [] (lit ''Commit workspace changes, push the branch, and open a PR'')
    (Some (lit ''[context]'')) False CategoryGit,
  slash_spec (lit ''pr'') [] (lit ''Draft or create a pull request from the conversation'')
    (Some (lit ''[context]'')) False CategoryGit,
  slash_spec (lit ''issue'') [] (lit ''Draft or create a GitHub issue from the conversation'')
    (Some (lit ''[context]'')) False CategoryGit,
  slash_spec (lit ''ultraplan'') [] (lit ''Run a deep planning prompt with multi-step reasoning'')
    (Some (lit ''[task]'')) False CategoryAutomation,
  slash_spec (lit ''teleport'') [] (lit ''Jump to a file or symbol by searching the workspace'')
    (Some (lit ''<symbol-or-path>'')) False CategoryWorkspace,
  slash_spec (lit ''debug-tool-call'') [] (lit ''Replay the last tool call with debug details'')
    None False CategoryAutomation,
  slash_spec (lit ''export'') [] (lit ''Export the current conversation to a file'')
    (Some (lit ''[file]'')) True CategorySession,
  slash_spec (lit ''session'') [] (lit ''List or switch managed local sessions'')
    (Some (lit ''[list|switch <session-id>]'')) False CategorySession,
  slash_spec (lit ''plugin'') [lit ''plugins'', lit ''marketplace''] (lit ''Manage openyak plugins'')
    (Some (lit ''[list|install <path-or-git-url>|enable <name>|disable <name>|uninstall <id>|update <id>]'')) False CategoryAutomation,
  slash_spec (lit ''agents'') [] (lit ''List configured agents'')
    None True CategoryAutomation,
  slash_spec (lit ''foundations'') [] (lit ''Explain shipped Task/Team/Cron/LSP/MCP foundations'')
    (Some (lit ''[family]'')) True CategoryAutomation,
  slash_spec (lit ''skills'') [] (lit ''List or manage local skills'')
    (Some (lit ''[subcommand]'')) True CategoryAutomation]"

definition resume_supported_slash_commands :: "SlashCommandSpec list" where
  "resume_supported_slash_commands = filter spec_resume_supported SLASH_COMMAND_SPECS"

section \<open>Parsing\<close>

datatype SlashCommand =
  CmdHelp
| CmdStatus
| CmdCompact
| CmdBranch "rstr option" "rstr option"
| CmdBughunter "rstr option"
| CmdWorktree "rstr option" "rstr option" "rstr option"
| CmdCommit
| CmdCommitPushPr "rstr option"
| CmdPr "rstr option"
| CmdIssue "rstr option"
| CmdUltraplan "rstr option"
| CmdTeleport "rstr option"
| CmdDebugToolCall
| CmdModel "rstr option"
| CmdPermissions "rstr option"
| CmdPlan "rstr option"
| CmdClear bool
| CmdCost
| CmdResume "rstr option"
| CmdConfig "rstr option"
| CmdMemory
| CmdFoundations "rstr option"
| CmdInit
| CmdDiff
| CmdVersion
| CmdExport "rstr option"
| CmdSession "rstr option" "rstr option"
| CmdPlugins "rstr option" "rstr option"
| CmdAgents "rstr option"
| CmdSkills "rstr option"
| CmdUnknown rstr

definition nonempty :: "rstr \<Rightarrow> rstr option" where
  "nonempty s = (if s = [] then None else Some s)"

definition remainder_after_command :: "rstr \<Rightarrow> rstr \<Rightarrow> rstr option" where
  "remainder_after_command input command =
     Option.bind (map_option trim (strip_prefix (47 # command) (trim input))) nonempty"

text \<open>The \<open>n\<close>-th of the words after the command: \<open>parts.next()\<close>.\<close>

definition word_at :: "nat \<Rightarrow> rstr list \<Rightarrow> rstr option" where
  "word_at n parts = (if n < length parts then Some (parts ! n) else None)"

definition command_of_words :: "rstr \<Rightarrow> rstr \<Rightarrow> rstr list \<Rightarrow> SlashCommand" where
  "command_of_words trimmed command parts =
     (let rest = remainder_after_command trimmed command;
          is = (\<lambda>s. command = lit s) in
      if is ''help'' then CmdHelp
      else if is ''status'' then CmdStatus
      else if is ''compact'' then CmdCompact
      else if is ''branch'' then CmdBranch (word_at 0 parts) (word_at 1 parts)
      else if is ''bughunter'' then CmdBughunter rest
      else if is ''worktree'' then CmdWorktree (word_at 0 parts) (word_at 1 parts) (word_at 2 parts)
      else if is ''commit'' then CmdCommit
      else if is ''commit-push-pr'' then CmdCommitPushPr rest
      else if is ''pr'' then CmdPr rest
      else if is ''issue'' then CmdIssue rest
      else if is ''ultraplan'' then CmdUltraplan rest
      else if is ''teleport'' then CmdTeleport rest
      else if is ''debug-tool-call'' then CmdDebugToolCall
      else if is ''model'' then CmdModel (word_at 0 parts)
      else if is ''permissions'' then CmdPermissions (word_at 0 parts)
      else if is ''plan'' then CmdPlan (word_at 0 parts)
      else if is ''clear'' then CmdClear (word_at 0 parts = Some (lit ''--confirm''))
      else if is ''cost'' then CmdCost
      else if is ''resume'' then CmdResume (word_at 0 parts)
      else if is ''config'' then CmdConfig (word_at 0 parts)
      else if is ''memory'' then CmdMemory
      else if is ''foundations'' then CmdFoundations rest
      else if is ''init'' then CmdInit
      else if is ''diff'' then CmdDiff
      else if is ''version'' then CmdVersion
      else if is ''export'' then CmdExport (word_at 0 parts)
      else if is ''session'' then CmdSession (word_at 0 parts) (word_at 1 parts)
      else if is ''plugin'' \<or> is ''plugins'' \<or> is ''marketplace'' then
        CmdPlugins (word_at 0 parts) (nonempty (join [32] (drop 1 parts)))
      else if is ''agents'' then CmdAgents rest
      else if is ''skills'' then CmdSkills rest
      else CmdUnknown command)"

definition parse_slash_command :: "rstr \<Rightarrow> SlashCommand option" where
  "parse_slash_command input =
     (let trimmed = trim input in
      if \<not> starts_with [47] trimmed then None
      else
        let parts = split_whitespace (trim_start_by (\<lambda>c. c = 47) trimmed);
            command = (case parts of [] \<Rightarrow> [] | w # _ \<Rightarrow> w) in
        Some (command_of_words trimmed command (drop 1 parts)))"

section \<open>Help\<close>

definition pad_right :: "nat \<Rightarrow> rstr \<Rightarrow> rstr" where
  "pad_right n s = s @ replicate (n - length s) 32"

definition render_slash_command_name :: "SlashCommandSpec \<Rightarrow> rstr" where
  "render_slash_command_name spec =
     (case spec_argument_hint spec of
        Some hint \<Rightarrow> 47 # spec_name spec @ [32] @ hint
      | None \<Rightarrow> 47 # spec_name spec)"

definition render_slash_command_entry :: "SlashCommandSpec \<Rightarrow> rstr" where
  "render_slash_command_entry spec =
     (let alias_suffix =
            (if spec_aliases spec = [] then []
             else lit '' (aliases: '' @ join (lit '', '') (map (\<lambda>a. 47 # a) (spec_aliases spec)) @ lit '')'');
          resume = (if spec_resume_supported spec then lit '' [resume]'' else []) in
      lit ''  '' @ pad_right 46 (render_slash_command_name spec) @ lit '' '' @ spec_summary spec @ alias_suffix @ resume)"

definition render_slash_command_help :: rstr where
  "render_slash_command_help =
     join [10]
       ([lit ''Slash commands'', lit ''  Tab completes commands inside the REPL.'',
         lit ''  [resume] = also available via openyak --resume SESSION.json'']
        @ concat (map (\<lambda>c. [[], category_title c]
             @ map render_slash_command_entry (filter (\<lambda>s. spec_category s = c) SLASH_COMMAND_SPECS))
            [CategoryCore, CategoryWorkspace, CategorySession, CategoryGit, CategoryAutomation]))"

section \<open>Suggestions\<close>

text \<open>
  One row of the distance table: \<open>previous\<close> from the current column on, and the entry that was just written.
\<close>

fun distance_row :: "rchar \<Rightarrow> rstr \<Rightarrow> nat list \<Rightarrow> nat \<Rightarrow> nat list" where
  "distance_row l (r # rs) (p0 # p1 # ps) current =
     (let v = min (min (p1 + 1) (current + 1)) (p0 + (if l \<noteq> r then 1 else 0)) in
      v # distance_row l rs (p1 # ps) v)"
| "distance_row l rs ps current = []"

fun distance_rows :: "nat \<Rightarrow> rstr \<Rightarrow> rstr \<Rightarrow> nat list \<Rightarrow> nat list" where
  "distance_rows i [] right previous = previous"
| "distance_rows i (l # ls) right previous =
     distance_rows (i + 1) ls right ((i + 1) # distance_row l right previous (i + 1))"

definition levenshtein_distance :: "rstr \<Rightarrow> rstr \<Rightarrow> nat" where
  "levenshtein_distance left right =
     (if left = right then 0
      else if left = [] then length right
      else if right = [] then length left
      else distance_rows 0 left right [0..<length right + 1] ! length right)"

text \<open>How well a name or an alias matches, and its length in bytes.\<close>

definition alias_score :: "rstr \<Rightarrow> rstr \<Rightarrow> (nat \<times> nat) option" where
  "alias_score normalized a =
     (if a = normalized then Some (0, utf8_len a)
      else if starts_with normalized a then Some (1, utf8_len a)
      else if contains normalized a then Some (2, utf8_len a)
      else
        let distance = levenshtein_distance a normalized in
        if distance \<le> 2 then Some (3 + distance, utf8_len a) else None)"

definition min_score :: "(nat \<times> nat) list \<Rightarrow> (nat \<times> nat) option" where
  "min_score xs = (if xs = [] then None else Some (foldl min (hd xs) (tl xs)))"

definition spec_score :: "rstr \<Rightarrow> SlashCommandSpec \<Rightarrow> (nat \<times> nat \<times> rstr) option" where
  "spec_score normalized spec =
     map_option (\<lambda>(bucket, len). (bucket, len, render_slash_command_name spec))
       (min_score (List.map_filter (alias_score normalized) (map to_ascii_lowercase (spec_name spec # spec_aliases spec))))"

text \<open>\<open>dedup_by\<close>: an entry that shows the same as the one kept before it is dropped.\<close>

fun dedup_display :: "(nat \<times> nat \<times> rstr) list \<Rightarrow> (nat \<times> nat \<times> rstr) list" where
  "dedup_display (x # y # ys) =
     (if snd (snd y) = snd (snd x) then dedup_display (x # ys) else x # dedup_display (y # ys))"
| "dedup_display xs = xs"

definition suggest_slash_commands :: "rstr \<Rightarrow> nat \<Rightarrow> rstr list" where
  "suggest_slash_commands input limit =
     (let normalized = to_ascii_lowercase (trim_start_by (\<lambda>c. c = 47) (trim input)) in
      if normalized = [] \<or> limit = 0 then []
      else map (\<lambda>(_, _, display). display)
        (take limit (dedup_display (sort (List.map_filter (spec_score normalized) SLASH_COMMAND_SPECS)))))"

section \<open>Arguments of \<open>/skills\<close>\<close>

definition normalize_optional_args :: "rstr option \<Rightarrow> rstr option" where
  "normalize_optional_args args = Option.bind (map_option trim args) nonempty"

definition render_skills_usage :: "rstr option \<Rightarrow> rstr" where
  "render_skills_usage unexpected =
     join [10]
       ([lit ''Skills'',
         lit ''  Usage            /skills [list|available|info <skill-id>|install <skill-id>|update <skill-id>|uninstall <skill-id>]'',
         lit ''  Direct CLI       openyak skills [list|available|info <skill-id>|install <skill-id>|update <skill-id>|uninstall <skill-id>]'',
         lit ''  Sources          project .codex/.openyak, user home or $CODEX_HOME, legacy /commands'',
         lit ''  Flags            --registry <path>, --version <x.y.z> (install/update only)'',
         lit ''  Notes            managed installs land under <openyak-home>/skills/.managed'']
        @ (case unexpected of None \<Rightarrow> [] | Some args \<Rightarrow> [lit ''  Unexpected       '' @ args]))"

datatype SkillsAction =
  SkillsList | SkillsAvailable | SkillsInfo rstr | SkillsInstall rstr | SkillsUpdate rstr | SkillsUninstall rstr
| SkillsHelp

record ParsedSkillsCommand =
  sk_action :: SkillsAction
  sk_registry_path :: "rstr option"
  sk_version :: "rstr option"

definition backticked :: "rstr \<Rightarrow> rstr" where
  "backticked s = [96] @ s @ [96]"

definition skills_error :: "rstr \<Rightarrow> rstr \<Rightarrow> rstr" where
  "skills_error args message = message @ [10, 10] @ render_skills_usage (Some args)"

text \<open>The loop over the flags.\<close>

fun parse_skills_flags :: "rstr \<Rightarrow> rstr list \<Rightarrow> rstr option \<Rightarrow> rstr option \<Rightarrow> rstr + (rstr option \<times> rstr option)" where
  "parse_skills_flags args [] registry ver = Inr (registry, ver)"
| "parse_skills_flags args (token # tokens) registry ver =
     (if token = lit ''--registry'' then
        (case tokens of
           [] \<Rightarrow> Inl (skills_error args (lit ''missing value for --registry''))
         | value # rest \<Rightarrow> parse_skills_flags args rest (Some value) ver)
      else if starts_with (lit ''--registry='') token then
        parse_skills_flags args tokens (Some (drop 11 token)) ver
      else if token = lit ''--version'' then
        (case tokens of
           [] \<Rightarrow> Inl (skills_error args (lit ''missing value for --version''))
         | value # rest \<Rightarrow> parse_skills_flags args rest registry (Some value))
      else if starts_with (lit ''--version='') token then
        parse_skills_flags args tokens registry (Some (drop 10 token))
      else Inl (skills_error args (lit ''unexpected skills argument '' @ backticked token)))"

definition needs_skill_id :: "rstr \<Rightarrow> bool" where
  "needs_skill_id action \<longleftrightarrow> action \<in> {lit ''info'', lit ''install'', lit ''update'', lit ''uninstall''}"

definition action_of :: "rstr \<Rightarrow> rstr \<Rightarrow> SkillsAction" where
  "action_of action target =
     (if action = lit ''list'' then SkillsList
      else if action = lit ''available'' then SkillsAvailable
      else if action = lit ''info'' then SkillsInfo target
      else if action = lit ''install'' then SkillsInstall target
      else if action = lit ''update'' then SkillsUpdate target
      else SkillsUninstall target)"

definition forbids_version :: "SkillsAction \<Rightarrow> bool" where
  "forbids_version a = (case a of SkillsAvailable \<Rightarrow> True | SkillsInfo _ \<Rightarrow> True | _ \<Rightarrow> False)"

definition finish_skills_command :: "rstr \<Rightarrow> SkillsAction \<Rightarrow> rstr list \<Rightarrow> rstr + ParsedSkillsCommand" where
  "finish_skills_command args a flags =
     res_bind (parse_skills_flags args flags None None) (\<lambda>(registry, ver).
     if forbids_version a \<and> ver \<noteq> None then
       Inl (skills_error args (lit ''--version is only supported for `skills install` and `skills update`''))
     else Inr \<lparr>sk_action = a, sk_registry_path = registry, sk_version = ver\<rparr>)"

definition parse_skills_command :: "rstr \<Rightarrow> rstr + ParsedSkillsCommand" where
  "parse_skills_command args =
     (case split_whitespace args of
        [] \<Rightarrow> Inr \<lparr>sk_action = SkillsList, sk_registry_path = None, sk_version = None\<rparr>
      | action # tokens \<Rightarrow>
          if action \<in> {lit ''-h'', lit ''--help'', lit ''help''} then
            Inr \<lparr>sk_action = SkillsHelp, sk_registry_path = None, sk_version = None\<rparr>
          else if needs_skill_id action then
            (case tokens of
               [] \<Rightarrow> Inl (skills_error args (lit ''missing skill id for `skills '' @ action @ [96]))
             | target # flags \<Rightarrow> finish_skills_command args (action_of action target) flags)
          else if action = lit ''available'' \<or> action = lit ''list'' then
            finish_skills_command args (action_of action []) tokens
          else Inl (skills_error args (lit ''unknown skills action '' @ backticked action)))"

section \<open>Commands without a runtime\<close>

record SlashCommandResult =
  scr_message :: rstr
  scr_session :: Session

definition handle_slash_command :: "rstr \<Rightarrow> Session \<Rightarrow> CompactionConfig \<Rightarrow> SlashCommandResult option" where
  "handle_slash_command input session compaction =
     (case parse_slash_command input of
        Some CmdCompact \<Rightarrow>
          let result = compact_session session compaction;
              message =
                (if removed_message_count result = 0 then
                   lit ''Compaction skipped: session is below the compaction threshold.''
                 else lit ''Compacted '' @ show_nat (removed_message_count result)
                        @ lit '' messages into a resumable system summary.'') in
          Some \<lparr>scr_message = message, scr_session = compacted_session result\<rparr>
      | Some CmdHelp \<Rightarrow> Some \<lparr>scr_message = render_slash_command_help, scr_session = session\<rparr>
      | _ \<Rightarrow> None)"

end
