(* ===== verification/Slash_Commands_Props.thy ===== *)
theory Slash_Commands_Props
  imports Slash_Commands
begin
text \<open>
  What the theorems on the slash commands show: the edit distance is minimal, the suggestions are the close
  entries of the table with an exact name first, the parser knows exactly the names of the table, and a
  command that is written out reads back.
\<close>
section \<open>The edit distance\<close>

text \<open>
  The reference: \<open>edits n a b\<close> holds when one pass over \<open>a\<close> and \<open>b\<close> turns the first into the second with
  \<open>n\<close> edits, where the last step keeps a character, replaces it, writes one more, or leaves one out.
\<close>

inductive edits :: "nat \<Rightarrow> rstr \<Rightarrow> rstr \<Rightarrow> bool" where
  at_start: "edits 0 [] []"
| kept: "edits n a b \<Longrightarrow> edits n (a @ [c]) (b @ [c])"
| replaced: "edits n a b \<Longrightarrow> edits (Suc n) (a @ [c]) (b @ [d])"
| written: "edits n a b \<Longrightarrow> edits (Suc n) a (b @ [d])"
| left_out: "edits n a b \<Longrightarrow> edits (Suc n) (a @ [c]) b"

lemmas edits_steps = at_start kept replaced written left_out

text \<open>The recursion the table of the code is filled by, on the reversed prefixes.\<close>

fun prefix_distance :: "rstr \<Rightarrow> rstr \<Rightarrow> nat" where
  "prefix_distance [] q = length q"
| "prefix_distance (c # p) [] = Suc (length p)"
| "prefix_distance (c # p) (d # q) =
     min (min (prefix_distance p (d # q) + 1) (prefix_distance (c # p) q + 1))
       (prefix_distance p q + (if c \<noteq> d then 1 else 0))"

lemma prefix_distance_Nil2 [simp]: "prefix_distance p [] = length p"
  by (cases p) auto

lemma edits_write_all: "edits (length q) [] (rev q)"
  by (induction q) (auto intro: edits_steps)

lemma edits_leave_all: "edits (length p) (rev p) []"
  by (induction p) (auto intro: edits_steps)

lemma edits_prefix_distance: "edits (prefix_distance p q) (rev p) (rev q)"
proof (induction p q rule: prefix_distance.induct)
  case (1 q)
  then show ?case by (simp add: edits_write_all)
next
  case (2 c p)
  then show ?case using edits_leave_all[of "c # p"] by simp
next
  case (3 c p d q)
  let ?x = "prefix_distance p (d # q)" and ?y = "prefix_distance (c # p) q" and ?z = "prefix_distance p q"
  have x: "edits (?x + 1) (rev (c # p)) (rev (d # q))"
    using left_out[OF 3(1), of c] by simp
  have y: "edits (?y + 1) (rev (c # p)) (rev (d # q))"
    using written[OF 3(2), of d] by simp
  have z: "edits (?z + (if c \<noteq> d then 1 else 0)) (rev (c # p)) (rev (d # q))"
    using replaced[OF 3(3), of c d] kept[OF 3(3), of c] by (cases "c = d") auto
  from x y z show ?case by (simp add: min_def)
qed

lemma prefix_distance_minimal: "edits n a b \<Longrightarrow> prefix_distance (rev a) (rev b) \<le> n"
proof (induction rule: edits.induct)
  case (replaced n a b c d)
  then show ?case by (auto intro: min.coboundedI2)
next
  case (written n a b d)
  then show ?case by (cases "rev a") auto
next
  case (left_out n a b c)
  then show ?case by (cases "rev b") auto
qed auto

text \<open>One row of the table: the distances of a prefix to \<open>q\<close> and to its extensions by \<open>s\<close>.\<close>

fun distances_from :: "rstr \<Rightarrow> rstr \<Rightarrow> rstr \<Rightarrow> nat list" where
  "distances_from p q [] = [prefix_distance p q]"
| "distances_from p q (r # s) = prefix_distance p q # distances_from p (r # q) s"

lemma distances_from_Cons: "distances_from p q s = prefix_distance p q # tl (distances_from p q s)"
  by (cases s) auto

lemma distance_row_next:
  "distance_row c s (distances_from p q s) (prefix_distance (c # p) q) = tl (distances_from (c # p) q s)"
proof (induction s arbitrary: q)
  case (Cons r s)
  obtain ps where ps: "distances_from p (r # q) s = prefix_distance p (r # q) # ps"
    using distances_from_Cons by blast
  obtain cs where cs: "distances_from (c # p) (r # q) s = prefix_distance (c # p) (r # q) # cs"
    using distances_from_Cons by blast
  from Cons.IH[of "r # q"] show ?case by (simp add: Let_def ps cs)
qed simp

lemma distance_rows_end:
  "distance_rows (length p) ls right (distances_from p [] right) = distances_from (rev ls @ p) [] right"
proof (induction ls arbitrary: p)
  case (Cons l ls)
  have "(length p + 1) # distance_row l right (distances_from p [] right) (length p + 1) = distances_from (l # p) [] right"
    using distance_row_next[of l right p "[]"] distances_from_Cons[of "l # p" "[]" right] by simp
  with Cons.IH[of "l # p"] show ?case by simp
qed simp

lemma distances_from_start: "distances_from [] q s = [length q..<length q + length s + 1]"
proof (induction s arbitrary: q)
  case (Cons r s)
  have "[length q..<length q + length (r # s) + 1] = length q # [Suc (length q)..<length q + length (r # s) + 1]"
    by (rule upt_conv_Cons) simp
  then show ?case using Cons.IH[of "r # q"] by (simp del: upt_Suc)
qed simp

lemma distances_from_last: "distances_from p q s ! length s = prefix_distance p (rev s @ q)"
  by (induction s arbitrary: q) auto

lemma prefix_distance_refl: "prefix_distance p p = 0"
  by (induction p) auto

lemma levenshtein_prefix_distance: "levenshtein_distance l r = prefix_distance (rev l) (rev r)"
proof (cases "l = r \<or> l = [] \<or> r = []")
  case True
  then show ?thesis by (auto simp: levenshtein_distance_def prefix_distance_refl)
next
  case False
  then have "levenshtein_distance l r = distance_rows (length ([]::rstr)) l r (distances_from [] [] r) ! length r"
    by (simp add: levenshtein_distance_def distances_from_start)
  then show ?thesis by (simp only: distance_rows_end distances_from_last) simp
qed

text \<open>
  C29: The distance the suggestions use is the least number of edits - characters replaced, written or left out -
  that turns one word into the other, for all words.
\<close>

theorem levenshtein_least:
  "edits (levenshtein_distance l r) l r \<and> levenshtein_distance l r = (LEAST n. edits n l r)"
proof
  show e: "edits (levenshtein_distance l r) l r"
    using edits_prefix_distance[of "rev l" "rev r"] by (simp add: levenshtein_prefix_distance)
  show "levenshtein_distance l r = (LEAST n. edits n l r)"
    using e prefix_distance_minimal by (auto simp: levenshtein_prefix_distance intro!: Least_equality[symmetric])
qed

section \<open>The table and the parser\<close>

definition spec_names :: "SlashCommandSpec \<Rightarrow> rstr list" where
  "spec_names s = spec_name s # spec_aliases s"

definition command_names :: "rstr set" where
  "command_names = set (concat (map spec_names SLASH_COMMAND_SPECS))"

definition command_word :: "rstr \<Rightarrow> rstr" where
  "command_word input =
     (case split_whitespace (trim_start_by (\<lambda>c. c = 47) (trim input)) of [] \<Rightarrow> [] | w # _ \<Rightarrow> w)"

lemmas table_simps = SLASH_COMMAND_SPECS_def slash_spec_def spec_names_def

lemma distinct_names: "distinct (concat (map spec_names SLASH_COMMAND_SPECS))"
  by (simp add: table_simps)

lemma lowercase_names: "map (\<lambda>s. map to_ascii_lowercase (spec_names s)) SLASH_COMMAND_SPECS = map spec_names SLASH_COMMAND_SPECS"
  by code_simp

lemma distinct_displays: "distinct (map render_slash_command_name SLASH_COMMAND_SPECS)"
  by code_simp

lemma distinct_concat_owner:
  "distinct (concat (map f xs)) \<Longrightarrow> x \<in> set xs \<Longrightarrow> y \<in> set xs \<Longrightarrow> n \<in> set (f x) \<Longrightarrow> n \<in> set (f y) \<Longrightarrow> x = y"
  by (induction xs) (auto; blast)+

lemma command_of_words_unknown:
  "command_of_words t c ps = CmdUnknown w \<longleftrightarrow> w = c \<and> c \<notin> command_names"
proof -
  have names: "c \<in> command_names \<longleftrightarrow> c \<in> {lit ''help'', lit ''status'', lit ''compact'', lit ''model'',
    lit ''permissions'', lit ''plan'', lit ''clear'', lit ''cost'', lit ''resume'', lit ''config'', lit ''memory'',
    lit ''init'', lit ''diff'', lit ''version'', lit ''bughunter'', lit ''branch'', lit ''worktree'', lit ''commit'',
    lit ''commit-push-pr'', lit ''pr'', lit ''issue'', lit ''ultraplan'', lit ''teleport'', lit ''debug-tool-call'',
    lit ''export'', lit ''session'', lit ''plugin'', lit ''plugins'', lit ''marketplace'', lit ''agents'',
    lit ''foundations'', lit ''skills''}"
    unfolding command_names_def by (simp add: table_simps)
  show ?thesis unfolding names by (simp add: command_of_words_def Let_def) blast
qed

text \<open>
  The parser and the table of commands agree: a line is an unknown command exactly when it starts with a
  slash and its first word is neither the name nor an alias of an entry of the table, and the word is reported.
\<close>

theorem parser_knows_table:
  "parse_slash_command input = Some (CmdUnknown w) \<longleftrightarrow>
     starts_with [47] (trim input) \<and> w = command_word input \<and> w \<notin> command_names"
  by (auto simp: parse_slash_command_def Let_def command_word_def command_of_words_unknown)

section \<open>Suggestions\<close>

definition suggestion_key :: "rstr \<Rightarrow> rstr" where
  "suggestion_key input = to_ascii_lowercase (trim_start_by (\<lambda>c. c = 47) (trim input))"

text \<open>A name is close to a word when it contains it or is at most two edits away.\<close>

definition close_to :: "rstr \<Rightarrow> SlashCommandSpec \<Rightarrow> bool" where
  "close_to w s \<longleftrightarrow> (\<exists>a \<in> set (spec_names s). contains w a \<or> levenshtein_distance a w \<le> 2)"

lemma foldl_min: "foldl min a xs = Min (insert a (set xs))" for a :: "'a :: linorder"
proof (induction xs arbitrary: a)
  case (Cons b xs)
  show ?case
    by (cases "xs = []") (simp_all add: Cons.IH Min_insert min.assoc)
qed simp

lemma min_score_Min: "min_score xs = (if xs = [] then None else Some (Min (set xs)))"
  by (cases xs) (auto simp: min_score_def foldl_min simp del: foldl.simps)

lemma alias_score_None: "alias_score w a = None \<longleftrightarrow> \<not> (contains w a \<or> levenshtein_distance a w \<le> 2)"
proof -
  have "starts_with w a \<Longrightarrow> contains w a" by (auto simp: starts_with_iff contains_iff)
  moreover have "contains a a" unfolding contains_iff by (intro exI[of _ "[]"]) simp
  ultimately show ?thesis by (auto simp: alias_score_def Let_def)
qed

lemma alias_score_zero: "alias_score w a = Some (0, n) \<longleftrightarrow> a = w \<and> n = utf8_len a"
  by (auto simp: alias_score_def Let_def split: if_splits)

lemma map_filter_eq_Nil: "List.map_filter f xs = [] \<longleftrightarrow> (\<forall>x \<in> set xs. f x = None)"
  by (induction xs) (auto split: option.splits)

lemma set_map_filter': "set (List.map_filter f xs) = {y. \<exists>x \<in> set xs. f x = Some y}"
  by (induction xs) (auto split: option.splits)

lemma lower_table:
  assumes "s \<in> set SLASH_COMMAND_SPECS"
  shows "map to_ascii_lowercase (spec_name s # spec_aliases s) = spec_names s"
  using assms lowercase_names unfolding map_eq_conv spec_names_def by auto

lemma spec_score_None:
  "s \<in> set SLASH_COMMAND_SPECS \<Longrightarrow> spec_score w s = None \<longleftrightarrow> \<not> close_to w s"
  unfolding spec_score_def close_to_def
  by (auto simp: lower_table min_score_Min map_filter_eq_Nil alias_score_None simp del: list.map)

lemma spec_score_display: "spec_score w s = Some (b, n, d) \<Longrightarrow> d = render_slash_command_name s"
  by (auto simp: spec_score_def)

lemma spec_score_zero:
  assumes s: "s \<in> set SLASH_COMMAND_SPECS"
  shows "(\<exists>n d. spec_score w s = Some (0, n, d)) \<longleftrightarrow> w \<in> set (spec_names s)"
proof -
  let ?xs = "List.map_filter (alias_score w) (spec_names s)"
  have score: "spec_score w s = map_option (\<lambda>(bucket, len). (bucket, len, render_slash_command_name s)) (min_score ?xs)"
    by (simp add: spec_score_def lower_table[OF s] del: list.map)
  have "(\<exists>n. Min (set ?xs) = (0, n)) \<longleftrightarrow> w \<in> set (spec_names s)" if ne: "?xs \<noteq> []"
  proof
    assume "\<exists>n. Min (set ?xs) = (0, n)"
    then obtain n where n: "Min (set ?xs) = (0, n)" by blast
    have "Min (set ?xs) \<in> set ?xs" using ne by (intro Min_in) auto
    then have "(0, n) \<in> set ?xs" by (simp only: n)
    then show "w \<in> set (spec_names s)" by (auto simp: set_map_filter' alias_score_zero)
  next
    assume "w \<in> set (spec_names s)"
    then have "(0, utf8_len w) \<in> set ?xs" by (auto simp: set_map_filter' alias_score_zero)
    then have "Min (set ?xs) \<le> (0, utf8_len w)" by simp
    then show "\<exists>n. Min (set ?xs) = (0, n)" by (cases "Min (set ?xs)") auto
  qed
  moreover have "w \<notin> set (spec_names s)" if "?xs = []"
    using that alias_score_zero[of w w] unfolding map_filter_eq_Nil by fastforce
  ultimately show ?thesis by (auto simp: score min_score_Min)
qed

lemma dedup_display_id: "distinct (map (snd \<circ> snd) xs) \<Longrightarrow> dedup_display xs = xs"
  by (induction xs rule: dedup_display.induct) auto

lemma distinct_map_filter:
  assumes "distinct (map g xs)" and "\<And>x y. x \<in> set xs \<Longrightarrow> f x = Some y \<Longrightarrow> h y = g x"
  shows "distinct (map h (List.map_filter f xs))"
  using assms
proof (induction xs)
  case (Cons x xs)
  show ?case
  proof (cases "f x")
    case (Some y)
    have "h z \<noteq> h y" if "z \<in> set (List.map_filter f xs)" for z
    proof -
      from that obtain v where v: "v \<in> set xs" "f v = Some z" by (auto simp: set_map_filter')
      then have "h z = g v" "h y = g x" using Cons.prems(2) Some by auto
      with v Cons.prems(1) show ?thesis by (metis distinct.simps(2) image_eqI list.set_map list.simps(9))
    qed
    then have "h y \<notin> h ` set (List.map_filter f xs)" by force
    with Cons Some show ?thesis by simp
  qed (use Cons in auto)
qed simp

definition ranked :: "rstr \<Rightarrow> (nat \<times> nat \<times> rstr) list" where
  "ranked w = sort (List.map_filter (spec_score w) SLASH_COMMAND_SPECS)"

lemma set_ranked: "set (ranked w) = {y. \<exists>s \<in> set SLASH_COMMAND_SPECS. spec_score w s = Some y}"
  by (simp add: ranked_def set_map_filter')

lemma distinct_ranked: "distinct (map (snd \<circ> snd) (ranked w))"
proof -
  have "distinct (map (snd \<circ> snd) (List.map_filter (spec_score w) SLASH_COMMAND_SPECS))"
    by (rule distinct_map_filter[OF distinct_displays]) (auto dest: spec_score_display)
  moreover have "mset (map (snd \<circ> snd) (ranked w)) = mset (map (snd \<circ> snd) (List.map_filter (spec_score w) SLASH_COMMAND_SPECS))"
    by (simp add: ranked_def)
  ultimately show ?thesis using mset_eq_imp_distinct_iff by blast
qed

lemma suggest_ranked:
  "suggest_slash_commands input limit =
     (if suggestion_key input = [] then [] else take limit (map (snd \<circ> snd) (ranked (suggestion_key input))))"
  by (auto simp: suggest_slash_commands_def suggestion_key_def[symmetric] Let_def ranked_def[symmetric]
      dedup_display_id[OF distinct_ranked] take_map comp_def split_def)

lemma length_ranked: "length (ranked w) \<le> length SLASH_COMMAND_SPECS"
  by (simp add: ranked_def length_map_filter)

lemma displays_ranked:
  "set (map (snd \<circ> snd) (ranked w)) = render_slash_command_name ` {s \<in> set SLASH_COMMAND_SPECS. close_to w s}"
proof (intro set_eqI iffI)
  fix d
  assume "d \<in> set (map (snd \<circ> snd) (ranked w))"
  then obtain b n s where s: "s \<in> set SLASH_COMMAND_SPECS" "spec_score w s = Some (b, n, d)"
    by (auto simp: set_ranked)
  with spec_score_None[of s w] spec_score_display[OF s(2)]
  show "d \<in> render_slash_command_name ` {s \<in> set SLASH_COMMAND_SPECS. close_to w s}" by auto
next
  fix d
  assume "d \<in> render_slash_command_name ` {s \<in> set SLASH_COMMAND_SPECS. close_to w s}"
  then obtain s where s: "s \<in> set SLASH_COMMAND_SPECS" "close_to w s" "d = render_slash_command_name s" by blast
  then obtain b n e where "spec_score w s = Some (b, n, e)" using spec_score_None[of s w] by auto
  with s spec_score_display[OF this] show "d \<in> set (map (snd \<circ> snd) (ranked w))"
    by (force simp: set_ranked)
qed

text \<open>
  The suggestions for a mistyped command are distinct, they are exactly the entries of the table one of whose
  names contains the word or is at most two edits away from it, and a smaller limit only cuts the list short.
\<close>

theorem suggestions_are_close_commands:
  "distinct (suggest_slash_commands input limit)
   \<and> suggest_slash_commands input limit = take limit (suggest_slash_commands input (length SLASH_COMMAND_SPECS))
   \<and> set (suggest_slash_commands input (length SLASH_COMMAND_SPECS)) =
       (if suggestion_key input = [] then {}
        else render_slash_command_name ` {s \<in> set SLASH_COMMAND_SPECS. close_to (suggestion_key input) s})"
  using distinct_ranked[of "suggestion_key input"] displays_ranked[of "suggestion_key input"]
    length_ranked[of "suggestion_key input"]
  by (simp add: suggest_ranked del: map_map)

lemma sort_hd_le: "xs \<noteq> [] \<Longrightarrow> y \<in> set xs \<Longrightarrow> hd (sort xs) \<le> y" for y :: "'a :: linorder"
  by (metis list.set_sel(1) set_ConsD set_sort set_empty sorted_simps(2) sorted_sort list.collapse order_refl)

lemma no_empty_name: "s \<in> set SLASH_COMMAND_SPECS \<Longrightarrow> [] \<notin> set (spec_names s)"
proof -
  have "list_all (\<lambda>s. [] \<notin> set (spec_names s)) SLASH_COMMAND_SPECS" by code_simp
  then show "s \<in> set SLASH_COMMAND_SPECS \<Longrightarrow> [] \<notin> set (spec_names s)" by (simp add: list_all_iff)
qed

text \<open>
  A name or an alias of the table, in any case, is answered with its own entry first: whatever the limit
  leaves of the list, the first suggestion for an exact name is the command it names.
\<close>

theorem exact_name_suggested_first:
  assumes s: "s \<in> set SLASH_COMMAND_SPECS" and w: "suggestion_key input \<in> set (spec_names s)" and l: "0 < limit"
  shows "suggest_slash_commands input limit \<noteq> []
    \<and> hd (suggest_slash_commands input limit) = render_slash_command_name s"
proof -
  let ?w = "suggestion_key input"
  obtain n d where nd: "spec_score ?w s = Some (0, n, d)" using spec_score_zero[OF s] w by blast
  then have mem: "(0, n, d) \<in> set (ranked ?w)" using s by (auto simp: set_ranked)
  then obtain x xs where x: "ranked ?w = x # xs" by (cases "ranked ?w") auto
  have "x \<le> (0, n, d)" using sort_hd_le[of _ "(0, n, d)"] mem x unfolding ranked_def
    by (metis list.sel(1) set_empty set_sort list.discI)
  then have "fst x = 0" by (cases x) auto
  moreover have "x \<in> set (ranked ?w)" using x by simp
  ultimately obtain s' m e where s': "s' \<in> set SLASH_COMMAND_SPECS" "spec_score ?w s' = Some (0, m, e)" "x = (0, m, e)"
    by (cases x) (auto simp: set_ranked)
  then have "?w \<in> set (spec_names s')" using spec_score_zero[OF s'(1)] by blast
  then have "s' = s" using distinct_concat_owner[OF distinct_names] s s'(1) w by blast
  with s' spec_score_display[OF s'(2)] have "snd (snd x) = render_slash_command_name s" by simp
  moreover have "?w \<noteq> []" using no_empty_name s w by auto
  ultimately show ?thesis using x l by (cases limit) (auto simp: suggest_ranked)
qed

theorem exact_name_suggested_first_witness:
  "hd (suggest_slash_commands (lit '' /PLUGINS '') 3) = render_slash_command_name (SLASH_COMMAND_SPECS ! 26)"
proof -
  have "SLASH_COMMAND_SPECS ! 26 \<in> set SLASH_COMMAND_SPECS" by (rule nth_mem) (simp add: SLASH_COMMAND_SPECS_def)
  moreover have "suggestion_key (lit '' /PLUGINS '') \<in> set (spec_names (SLASH_COMMAND_SPECS ! 26))" by code_simp
  ultimately show ?thesis using exact_name_suggested_first[of "SLASH_COMMAND_SPECS ! 26" "lit '' /PLUGINS ''" 3] by simp
qed

end
