(* ===== verification/Serde_Value.thy ===== *)
theory Serde_Value
  imports Rust_Str
begin

text \<open>
  The value of \<open>serde_json\<close> the tools, the plugins and the thread server exchange: an object is an ordered
  map, as \<open>serde_json::Map\<close> is without the feature that keeps the order of the text. A number that is not an
  integer is kept as its text.
\<close>

datatype Value =
    VNull
  | VBool bool
  | VInt int
  | VFloat rstr
  | VString rstr
  | VArray "Value list"
  | VObject "(rstr \<times> Value) list"

text \<open>The macro \<open>json!\<close> on an object and on a list of strings.\<close>

definition json_object :: "(string \<times> Value) list \<Rightarrow> Value" where
  "json_object kvs = VObject (fold (\<lambda>(k, v). bt_insert (lit k) v) kvs [])"

definition strings :: "string list \<Rightarrow> Value" where
  "strings ss = VArray (map (\<lambda>s. VString (lit s)) ss)"

text \<open>A JSON schema: the member \<open>type\<close> and the others.\<close>

definition typed :: "string \<Rightarrow> (string \<times> Value) list \<Rightarrow> Value" where
  "typed t kvs = json_object ((''type'', VString (lit t)) # kvs)"

text \<open>\<open>Value::get\<close> with a key, \<open>Value::as_str\<close>, \<open>Value::as_array\<close>, \<open>Value::as_bool\<close>.\<close>

fun value_get :: "Value \<Rightarrow> rstr \<Rightarrow> Value option" where
  "value_get (VObject m) k = bt_get m k"
| "value_get _ k = None"

fun value_as_str :: "Value \<Rightarrow> rstr option" where
  "value_as_str (VString s) = Some s"
| "value_as_str _ = None"

fun value_as_array :: "Value \<Rightarrow> Value list option" where
  "value_as_array (VArray vs) = Some vs"
| "value_as_array _ = None"

fun value_as_bool :: "Value \<Rightarrow> bool option" where
  "value_as_bool (VBool b) = Some b"
| "value_as_bool _ = None"

definition json_strings :: "rstr list \<Rightarrow> Value" where
  "json_strings ss = VArray (map VString ss)"

definition json_opt :: "('a \<Rightarrow> Value) \<Rightarrow> 'a option \<Rightarrow> Value" where
  "json_opt f x = (case x of None \<Rightarrow> VNull | Some y \<Rightarrow> f y)"

text \<open>A \<open>BTreeSet\<close> of strings, as the sorted list of its elements.\<close>

definition btree_set :: "rstr list \<Rightarrow> rstr list" where
  "btree_set xs = sort (remdups xs)"

lemma set_btree_set [simp]: "set (btree_set xs) = set xs"
  by (simp add: btree_set_def)

lemma sorted_btree_set [simp]: "sorted (btree_set xs)" "distinct (btree_set xs)"
  by (simp_all add: btree_set_def)

lemma btree_set_id: "sorted xs \<Longrightarrow> distinct xs \<Longrightarrow> btree_set xs = xs"
  by (simp add: btree_set_def distinct_remdups_id sorted_sort_id)

end
