(* ===== verification/Tool_Specs.thy ===== *)
theory Tool_Specs
  imports Serde_Value Permissions
begin

text \<open>
  The table of the built-in tools (\<open>mvp_tool_specs\<close> of \<open>tools/src/lib.rs\<close>) with the two optional browser
  tools: the name, the description, the JSON schema of the input, and the permission a tool requires.
\<close>

record ToolSpec =
  ts_name :: rstr
  ts_description :: rstr
  ts_schema :: Value
  ts_permission :: PermissionMode

definition tool_spec :: "rstr \<Rightarrow> rstr \<Rightarrow> Value \<Rightarrow> PermissionMode \<Rightarrow> ToolSpec" where
  "tool_spec n d s p = \<lparr>ts_name = n, ts_description = d, ts_schema = s, ts_permission = p\<rparr>"

definition spec_BrowserObserve :: ToolSpec where
  "spec_BrowserObserve = tool_spec (lit ''BrowserObserve'')
     (lit ''Observe a local browser-rendered page from the current CLI run, with bounded wait ''
      @ lit ''conditions, optional visible-text capture, and workspace-local screenshot artifacts.'')
     (typed ''object'' [(''properties'', json_object [(''url'', typed ''string'' [(''format'',
       VString (lit ''uri''))]),
          (''timeout_ms'', typed ''integer'' [(''minimum'', VInt 1), (''maximum'', VInt 60000)]),
          (''wait'', typed ''object'' [(''properties'', json_object [(''kind'', typed ''string'' [(''enum'',
            strings [''load'', ''network_idle'', ''text'', ''title_contains''])]),
              (''value'', typed ''string'' [])]),
            (''required'', strings [''kind'']),
            (''additionalProperties'', VBool False)]),
          (''capture_visible_text'', typed ''boolean'' []),
          (''screenshot'', typed ''object'' [(''properties'', json_object [(''capture'', typed ''boolean'' []),
              (''format'', typed ''string'' [(''enum'', strings [''png'', ''jpeg''])])]),
            (''required'', strings [''capture'']),
            (''additionalProperties'', VBool False)]),
          (''viewport'', typed ''object'' [(''properties'', json_object [(''width'',
            typed ''integer'' [(''minimum'', VInt 320), (''maximum'', VInt 4096)]),
              (''height'', typed ''integer'' [(''minimum'', VInt 240), (''maximum'', VInt 4096)])]),
            (''required'', strings [''width'', ''height'']),
            (''additionalProperties'', VBool False)])]),
        (''required'', strings [''url'']),
        (''additionalProperties'', VBool False)]) DangerFullAccess"

definition spec_BrowserInteract :: ToolSpec where
  "spec_BrowserInteract = tool_spec (lit ''BrowserInteract'')
     (lit ''Click one selector in a local browser-rendered page from the current CLI run, then ''
      @ lit ''return bounded post-action page state and optional workspace-local screenshot ''
      @ lit ''artifacts.'')
     (typed ''object'' [(''properties'', json_object [(''url'', typed ''string'' [(''format'',
       VString (lit ''uri''))]),
          (''action'', typed ''object'' [(''properties'', json_object [(''kind'', typed ''string'' [(''enum'',
            strings [''click''])]),
              (''selector'', typed ''string'' [])]),
            (''required'', strings [''kind'', ''selector'']),
            (''additionalProperties'', VBool False)]),
          (''timeout_ms'', typed ''integer'' [(''minimum'', VInt 1), (''maximum'', VInt 60000)]),
          (''wait'', typed ''object'' [(''properties'', json_object [(''kind'', typed ''string'' [(''enum'',
            strings [''load'', ''text'', ''title_contains'', ''url_contains''])]),
              (''value'', typed ''string'' [])]),
            (''required'', strings [''kind'']),
            (''additionalProperties'', VBool False)]),
          (''capture_visible_text'', typed ''boolean'' []),
          (''screenshot'', typed ''object'' [(''properties'', json_object [(''capture'', typed ''boolean'' []),
              (''format'', typed ''string'' [(''enum'', strings [''png'', ''jpeg''])])]),
            (''required'', strings [''capture'']),
            (''additionalProperties'', VBool False)]),
          (''viewport'', typed ''object'' [(''properties'', json_object [(''width'',
            typed ''integer'' [(''minimum'', VInt 320), (''maximum'', VInt 4096)]),
              (''height'', typed ''integer'' [(''minimum'', VInt 240), (''maximum'', VInt 4096)])]),
            (''required'', strings [''width'', ''height'']),
            (''additionalProperties'', VBool False)])]),
        (''required'', strings [''url'', ''action'']),
        (''additionalProperties'', VBool False)]) DangerFullAccess"

definition spec_bash :: ToolSpec where
  "spec_bash = tool_spec (lit ''bash'')
     (lit ''Execute a shell command in the current workspace.'')
     (typed ''object'' [(''properties'', json_object [(''command'', typed ''string'' []),
          (''timeout'', typed ''integer'' [(''minimum'', VInt 1)]),
          (''description'', typed ''string'' []),
          (''run_in_background'', typed ''boolean'' []),
          (''dangerouslyDisableSandbox'', typed ''boolean'' [])]),
        (''required'', strings [''command'']),
        (''additionalProperties'', VBool False)]) DangerFullAccess"

definition spec_read_file :: ToolSpec where
  "spec_read_file = tool_spec (lit ''read_file'')
     (lit ''Read a text file from the workspace.'')
     (typed ''object'' [(''properties'', json_object [(''path'', typed ''string'' []),
          (''offset'', typed ''integer'' [(''minimum'', VInt 0)]),
          (''limit'', typed ''integer'' [(''minimum'', VInt 1)])]),
        (''required'', strings [''path'']),
        (''additionalProperties'', VBool False)]) ReadOnly"

definition spec_write_file :: ToolSpec where
  "spec_write_file = tool_spec (lit ''write_file'')
     (lit ''Write a text file in the workspace.'')
     (typed ''object'' [(''properties'', json_object [(''path'', typed ''string'' []),
          (''content'', typed ''string'' [])]),
        (''required'', strings [''path'', ''content'']),
        (''additionalProperties'', VBool False)]) WorkspaceWrite"

definition spec_edit_file :: ToolSpec where
  "spec_edit_file = tool_spec (lit ''edit_file'')
     (lit ''Replace text in a workspace file.'')
     (typed ''object'' [(''properties'', json_object [(''path'', typed ''string'' []),
          (''old_string'', typed ''string'' []),
          (''new_string'', typed ''string'' []),
          (''replace_all'', typed ''boolean'' [])]),
        (''required'', strings [''path'', ''old_string'', ''new_string'']),
        (''additionalProperties'', VBool False)]) WorkspaceWrite"

definition spec_glob_search :: ToolSpec where
  "spec_glob_search = tool_spec (lit ''glob_search'')
     (lit ''Find files by glob pattern.'')
     (typed ''object'' [(''properties'', json_object [(''pattern'', typed ''string'' []),
          (''path'', typed ''string'' [])]),
        (''required'', strings [''pattern'']),
        (''additionalProperties'', VBool False)]) ReadOnly"

definition spec_grep_search :: ToolSpec where
  "spec_grep_search = tool_spec (lit ''grep_search'')
     (lit ''Search file contents with a regex pattern.'')
     (typed ''object'' [(''properties'', json_object [(''pattern'', typed ''string'' []),
          (''path'', typed ''string'' []),
          (''glob'', typed ''string'' []),
          (''output_mode'', typed ''string'' []),
          (''-B'', typed ''integer'' [(''minimum'', VInt 0)]),
          (''-A'', typed ''integer'' [(''minimum'', VInt 0)]),
          (''-C'', typed ''integer'' [(''minimum'', VInt 0)]),
          (''context'', typed ''integer'' [(''minimum'', VInt 0)]),
          (''-n'', typed ''boolean'' []),
          (''-i'', typed ''boolean'' []),
          (''type'', typed ''string'' []),
          (''head_limit'', typed ''integer'' [(''minimum'', VInt 1)]),
          (''offset'', typed ''integer'' [(''minimum'', VInt 0)]),
          (''multiline'', typed ''boolean'' [])]),
        (''required'', strings [''pattern'']),
        (''additionalProperties'', VBool False)]) ReadOnly"

definition spec_WebFetch :: ToolSpec where
  "spec_WebFetch = tool_spec (lit ''WebFetch'')
     (lit ''Fetch a URL, convert it into readable text, and answer a prompt about it.'')
     (typed ''object'' [(''properties'', json_object [(''url'', typed ''string'' [(''format'',
       VString (lit ''uri''))]),
          (''prompt'', typed ''string'' [])]),
        (''required'', strings [''url'', ''prompt'']),
        (''additionalProperties'', VBool False)]) ReadOnly"

definition spec_WebSearch :: ToolSpec where
  "spec_WebSearch = tool_spec (lit ''WebSearch'')
     (lit ''Search the web for current information and return cited results.'')
     (typed ''object'' [(''properties'', json_object [(''query'', typed ''string'' [(''minLength'', VInt 2)]),
          (''allowed_domains'', typed ''array'' [(''items'', typed ''string'' [])]),
          (''blocked_domains'', typed ''array'' [(''items'', typed ''string'' [])])]),
        (''required'', strings [''query'']),
        (''additionalProperties'', VBool False)]) ReadOnly"

definition spec_TodoWrite :: ToolSpec where
  "spec_TodoWrite = tool_spec (lit ''TodoWrite'')
     (lit ''Update the structured task list for the current session.'')
     (typed ''object'' [(''properties'', json_object [(''todos'', typed ''array'' [(''items'',
       typed ''object'' [(''properties'', json_object [(''content'', typed ''string'' []),
                (''activeForm'', typed ''string'' []),
                (''status'', typed ''string'' [(''enum'', strings [''pending'', ''in_progress'',
                  ''completed''])])]),
              (''required'', strings [''content'', ''activeForm'', ''status'']),
              (''additionalProperties'', VBool False)])])]),
        (''required'', strings [''todos'']),
        (''additionalProperties'', VBool False)]) WorkspaceWrite"

definition spec_Skill :: ToolSpec where
  "spec_Skill = tool_spec (lit ''Skill'')
     (lit ''Load a local skill definition and its instructions.'')
     (typed ''object'' [(''properties'', json_object [(''skill'', typed ''string'' []),
          (''args'', typed ''string'' [])]),
        (''required'', strings [''skill'']),
        (''additionalProperties'', VBool False)]) ReadOnly"

definition spec_Agent :: ToolSpec where
  "spec_Agent = tool_spec (lit ''Agent'')
     (lit ''Launch a specialized agent task and persist its handoff metadata.'')
     (typed ''object'' [(''properties'', json_object [(''description'', typed ''string'' []),
          (''prompt'', typed ''string'' []),
          (''subagent_type'', typed ''string'' []),
          (''name'', typed ''string'' []),
          (''model'', typed ''string'' [])]),
        (''required'', strings [''description'', ''prompt'']),
        (''additionalProperties'', VBool False)]) DangerFullAccess"

definition spec_ToolSearch :: ToolSpec where
  "spec_ToolSearch = tool_spec (lit ''ToolSearch'')
     (lit ''Search for deferred or specialized tools by exact name or keywords.'')
     (typed ''object'' [(''properties'', json_object [(''query'', typed ''string'' []),
          (''max_results'', typed ''integer'' [(''minimum'', VInt 1)])]),
        (''required'', strings [''query'']),
        (''additionalProperties'', VBool False)]) ReadOnly"

definition spec_NotebookEdit :: ToolSpec where
  "spec_NotebookEdit = tool_spec (lit ''NotebookEdit'')
     (lit ''Replace, insert, or delete a cell in a Jupyter notebook.'')
     (typed ''object'' [(''properties'', json_object [(''notebook_path'', typed ''string'' []),
          (''cell_id'', typed ''string'' []),
          (''new_source'', typed ''string'' []),
          (''cell_type'', typed ''string'' [(''enum'', strings [''code'', ''markdown''])]),
          (''edit_mode'', typed ''string'' [(''enum'', strings [''replace'', ''insert'', ''delete''])])]),
        (''required'', strings [''notebook_path'']),
        (''additionalProperties'', VBool False)]) WorkspaceWrite"

definition spec_Sleep :: ToolSpec where
  "spec_Sleep = tool_spec (lit ''Sleep'')
     (lit ''Wait for a specified duration without holding a shell process.'')
     (typed ''object'' [(''properties'', json_object [(''duration_ms'', typed ''integer'' [(''minimum'',
       VInt 0)])]),
        (''required'', strings [''duration_ms'']),
        (''additionalProperties'', VBool False)]) ReadOnly"

definition spec_SendUserMessage :: ToolSpec where
  "spec_SendUserMessage = tool_spec (lit ''SendUserMessage'')
     (lit ''Send a message to the user.'')
     (typed ''object'' [(''properties'', json_object [(''message'', typed ''string'' []),
          (''attachments'', typed ''array'' [(''items'', typed ''string'' [])]),
          (''status'', typed ''string'' [(''enum'', strings [''normal'', ''proactive''])])]),
        (''required'', strings [''message'', ''status'']),
        (''additionalProperties'', VBool False)]) ReadOnly"

definition spec_Config :: ToolSpec where
  "spec_Config = tool_spec (lit ''Config'')
     (lit ''Get or set openyak settings.'')
     (typed ''object'' [(''properties'', json_object [(''setting'', typed ''string'' []),
          (''value'', json_object [(''type'', strings [''string'', ''boolean'', ''number''])])]),
        (''required'', strings [''setting'']),
        (''additionalProperties'', VBool False)]) WorkspaceWrite"

definition spec_StructuredOutput :: ToolSpec where
  "spec_StructuredOutput = tool_spec (lit ''StructuredOutput'')
     (lit ''Return structured output in the requested format.'')
     (typed ''object'' [(''additionalProperties'', VBool True)]) ReadOnly"

definition spec_REPL :: ToolSpec where
  "spec_REPL = tool_spec (lit ''REPL'')
     (lit ''Execute code in a REPL-like subprocess.'')
     (typed ''object'' [(''properties'', json_object [(''code'', typed ''string'' []),
          (''language'', typed ''string'' []),
          (''timeout_ms'', typed ''integer'' [(''minimum'', VInt 1)])]),
        (''required'', strings [''code'', ''language'']),
        (''additionalProperties'', VBool False)]) DangerFullAccess"

definition spec_PowerShell :: ToolSpec where
  "spec_PowerShell = tool_spec (lit ''PowerShell'')
     (lit ''Execute a PowerShell command with optional timeout.'')
     (typed ''object'' [(''properties'', json_object [(''command'', typed ''string'' []),
          (''timeout'', typed ''integer'' [(''minimum'', VInt 1)]),
          (''description'', typed ''string'' []),
          (''run_in_background'', typed ''boolean'' [])]),
        (''required'', strings [''command'']),
        (''additionalProperties'', VBool False)]) DangerFullAccess"

definition spec_TaskCreate :: ToolSpec where
  "spec_TaskCreate = tool_spec (lit ''TaskCreate'')
     (lit ''Create a background task record.'')
     (typed ''object'' [(''properties'', json_object [(''prompt'', typed ''string'' []),
          (''description'', typed ''string'' [])]),
        (''required'', strings [''prompt'']),
        (''additionalProperties'', VBool False)]) DangerFullAccess"

definition spec_TaskGet :: ToolSpec where
  "spec_TaskGet = tool_spec (lit ''TaskGet'')
     (lit ''Get a task by id.'')
     (typed ''object'' [(''properties'', json_object [(''task_id'', typed ''string'' [])]),
        (''required'', strings [''task_id'']),
        (''additionalProperties'', VBool False)]) ReadOnly"

definition spec_TaskList :: ToolSpec where
  "spec_TaskList = tool_spec (lit ''TaskList'')
     (lit ''List known tasks.'')
     (typed ''object'' [(''properties'', json_object []),
        (''additionalProperties'', VBool False)]) ReadOnly"

definition spec_TaskStop :: ToolSpec where
  "spec_TaskStop = tool_spec (lit ''TaskStop'')
     (lit ''Stop a task by id.'')
     (typed ''object'' [(''properties'', json_object [(''task_id'', typed ''string'' [])]),
        (''required'', strings [''task_id'']),
        (''additionalProperties'', VBool False)]) DangerFullAccess"

definition spec_TaskUpdate :: ToolSpec where
  "spec_TaskUpdate = tool_spec (lit ''TaskUpdate'')
     (lit ''Append a message to a task.'')
     (typed ''object'' [(''properties'', json_object [(''task_id'', typed ''string'' []),
          (''message'', typed ''string'' [])]),
        (''required'', strings [''task_id'', ''message'']),
        (''additionalProperties'', VBool False)]) DangerFullAccess"

definition spec_TaskOutput :: ToolSpec where
  "spec_TaskOutput = tool_spec (lit ''TaskOutput'')
     (lit ''Fetch task output.'')
     (typed ''object'' [(''properties'', json_object [(''task_id'', typed ''string'' [])]),
        (''required'', strings [''task_id'']),
        (''additionalProperties'', VBool False)]) ReadOnly"

definition spec_TaskWait :: ToolSpec where
  "spec_TaskWait = tool_spec (lit ''TaskWait'')
     (lit ''Poll a task until it reaches a terminal state or a timeout elapses.'')
     (typed ''object'' [(''properties'', json_object [(''task_id'', typed ''string'' []),
          (''timeout_ms'', typed ''integer'' [(''minimum'', VInt 0)]),
          (''poll_interval_ms'', typed ''integer'' [(''minimum'', VInt 1)])]),
        (''required'', strings [''task_id'']),
        (''additionalProperties'', VBool False)]) ReadOnly"

definition spec_TeamCreate :: ToolSpec where
  "spec_TeamCreate = tool_spec (lit ''TeamCreate'')
     (lit ''Create a team record for grouped tasks.'')
     (typed ''object'' [(''properties'', json_object [(''name'', typed ''string'' []),
          (''tasks'', typed ''array'' [(''items'', typed ''object'' [(''properties'',
            json_object [(''task_id'', typed ''string'' [])]),
              (''required'', strings [''task_id'']),
              (''additionalProperties'', VBool False)])])]),
        (''required'', strings [''name'', ''tasks'']),
        (''additionalProperties'', VBool False)]) DangerFullAccess"

definition spec_TeamGet :: ToolSpec where
  "spec_TeamGet = tool_spec (lit ''TeamGet'')
     (lit ''Get a team by id.'')
     (typed ''object'' [(''properties'', json_object [(''team_id'', typed ''string'' [])]),
        (''required'', strings [''team_id'']),
        (''additionalProperties'', VBool False)]) ReadOnly"

definition spec_TeamList :: ToolSpec where
  "spec_TeamList = tool_spec (lit ''TeamList'')
     (lit ''List known teams.'')
     (typed ''object'' [(''properties'', json_object []),
        (''additionalProperties'', VBool False)]) ReadOnly"

definition spec_TeamDelete :: ToolSpec where
  "spec_TeamDelete = tool_spec (lit ''TeamDelete'')
     (lit ''Delete a team by id.'')
     (typed ''object'' [(''properties'', json_object [(''team_id'', typed ''string'' [])]),
        (''required'', strings [''team_id'']),
        (''additionalProperties'', VBool False)]) DangerFullAccess"

definition spec_CronCreate :: ToolSpec where
  "spec_CronCreate = tool_spec (lit ''CronCreate'')
     (lit ''Create a cron entry record.'')
     (typed ''object'' [(''properties'', json_object [(''schedule'', typed ''string'' []),
          (''prompt'', typed ''string'' []),
          (''description'', typed ''string'' [])]),
        (''required'', strings [''schedule'', ''prompt'']),
        (''additionalProperties'', VBool False)]) DangerFullAccess"

definition spec_CronGet :: ToolSpec where
  "spec_CronGet = tool_spec (lit ''CronGet'')
     (lit ''Get a cron entry by id.'')
     (typed ''object'' [(''properties'', json_object [(''cron_id'', typed ''string'' [])]),
        (''required'', strings [''cron_id'']),
        (''additionalProperties'', VBool False)]) ReadOnly"

definition spec_CronDisable :: ToolSpec where
  "spec_CronDisable = tool_spec (lit ''CronDisable'')
     (lit ''Disable a cron entry without deleting it.'')
     (typed ''object'' [(''properties'', json_object [(''cron_id'', typed ''string'' [])]),
        (''required'', strings [''cron_id'']),
        (''additionalProperties'', VBool False)]) DangerFullAccess"

definition spec_CronEnable :: ToolSpec where
  "spec_CronEnable = tool_spec (lit ''CronEnable'')
     (lit ''Re-enable a disabled cron entry.'')
     (typed ''object'' [(''properties'', json_object [(''cron_id'', typed ''string'' [])]),
        (''required'', strings [''cron_id'']),
        (''additionalProperties'', VBool False)]) DangerFullAccess"

definition spec_CronDelete :: ToolSpec where
  "spec_CronDelete = tool_spec (lit ''CronDelete'')
     (lit ''Delete a cron entry by id.'')
     (typed ''object'' [(''properties'', json_object [(''cron_id'', typed ''string'' [])]),
        (''required'', strings [''cron_id'']),
        (''additionalProperties'', VBool False)]) DangerFullAccess"

definition spec_CronList :: ToolSpec where
  "spec_CronList = tool_spec (lit ''CronList'')
     (lit ''List cron entries.'')
     (typed ''object'' [(''properties'', json_object []),
        (''additionalProperties'', VBool False)]) ReadOnly"

definition spec_SessionList :: ToolSpec where
  "spec_SessionList = tool_spec (lit ''SessionList'')
     (lit ''List local session-like resources across thread, managed_session, and agent_run ''
      @ lit ''kinds.'')
     (typed ''object'' [(''properties'', json_object [(''kind'', typed ''string'' [(''enum'',
       strings [''thread'', ''managed_session'', ''agent_run''])])]),
        (''additionalProperties'', VBool False)]) ReadOnly"

definition spec_SessionGet :: ToolSpec where
  "spec_SessionGet = tool_spec (lit ''SessionGet'')
     (lit ''Inspect a local session-like resource by kind and id.'')
     (typed ''object'' [(''properties'', json_object [(''kind'', typed ''string'' [(''enum'',
       strings [''thread'', ''managed_session'', ''agent_run''])]),
          (''id'', typed ''string'' [])]),
        (''required'', strings [''kind'', ''id'']),
        (''additionalProperties'', VBool False)]) ReadOnly"

definition spec_SessionCreate :: ToolSpec where
  "spec_SessionCreate = tool_spec (lit ''SessionCreate'')
     (lit ''Create a thread-backed session through the current local openyak server.'')
     (typed ''object'' [(''properties'', json_object [(''kind'', typed ''string'' [(''enum'',
       strings [''thread''])]),
          (''cwd'', typed ''string'' []),
          (''model'', typed ''string'' []),
          (''permission_mode'', typed ''string'' []),
          (''allowed_tools'', typed ''array'' [(''items'', typed ''string'' [])])]),
        (''required'', strings [''kind'']),
        (''additionalProperties'', VBool False)]) DangerFullAccess"

definition spec_SessionSend :: ToolSpec where
  "spec_SessionSend = tool_spec (lit ''SessionSend'')
     (lit ''Send a message to a thread-backed session through the current local openyak server.'')
     (typed ''object'' [(''properties'', json_object [(''kind'', typed ''string'' [(''enum'',
       strings [''thread'', ''managed_session'', ''agent_run''])]),
          (''id'', typed ''string'' []),
          (''message'', typed ''string'' [])]),
        (''required'', strings [''kind'', ''id'', ''message'']),
        (''additionalProperties'', VBool False)]) DangerFullAccess"

definition spec_SessionResume :: ToolSpec where
  "spec_SessionResume = tool_spec (lit ''SessionResume'')
     (lit ''Submit pending user input to a thread-backed session through the current local ''
      @ lit ''openyak server.'')
     (typed ''object'' [(''properties'', json_object [(''kind'', typed ''string'' [(''enum'',
       strings [''thread'', ''managed_session'', ''agent_run''])]),
          (''id'', typed ''string'' []),
          (''request_id'', typed ''string'' []),
          (''content'', typed ''string'' []),
          (''selected_option'', typed ''string'' [])]),
        (''required'', strings [''kind'', ''id'', ''request_id'', ''content'']),
        (''additionalProperties'', VBool False)]) DangerFullAccess"

definition spec_SessionWait :: ToolSpec where
  "spec_SessionWait = tool_spec (lit ''SessionWait'')
     (lit ''Wait for a thread or agent_run session to reach a stable state or timeout.'')
     (typed ''object'' [(''properties'', json_object [(''kind'', typed ''string'' [(''enum'',
       strings [''thread'', ''managed_session'', ''agent_run''])]),
          (''id'', typed ''string'' []),
          (''timeout_ms'', typed ''integer'' [(''minimum'', VInt 0)]),
          (''poll_interval_ms'', typed ''integer'' [(''minimum'', VInt 1)])]),
        (''required'', strings [''kind'', ''id'']),
        (''additionalProperties'', VBool False)]) ReadOnly"

definition spec_LSP :: ToolSpec where
  "spec_LSP = tool_spec (lit ''LSP'')
     (lit ''Query registry-backed LSP information.'')
     (typed ''object'' [(''properties'', json_object [(''action'', typed ''string'' [(''enum'',
       strings [''symbols'', ''references'', ''diagnostics'', ''definition'', ''hover'', ''servers'',
         ''status''])]),
          (''path'', typed ''string'' []),
          (''language'', typed ''string'' []),
          (''line'', typed ''integer'' [(''minimum'', VInt 0)]),
          (''character'', typed ''integer'' [(''minimum'', VInt 0)]),
          (''query'', typed ''string'' [])]),
        (''required'', strings [''action'']),
        (''additionalProperties'', VBool False)]) ReadOnly"

definition spec_ListMcpServers :: ToolSpec where
  "spec_ListMcpServers = tool_spec (lit ''ListMcpServers'')
     (lit ''List connected MCP server registry entries.'')
     (typed ''object'' [(''properties'', json_object []),
        (''additionalProperties'', VBool False)]) ReadOnly"

definition spec_ListMcpTools :: ToolSpec where
  "spec_ListMcpTools = tool_spec (lit ''ListMcpTools'')
     (lit ''List tools from a connected MCP server registry entry.'')
     (typed ''object'' [(''properties'', json_object [(''server'', typed ''string'' [])]),
        (''required'', strings [''server'']),
        (''additionalProperties'', VBool False)]) ReadOnly"

definition spec_ListMcpResources :: ToolSpec where
  "spec_ListMcpResources = tool_spec (lit ''ListMcpResources'')
     (lit ''List resources from a connected MCP server registry.'')
     (typed ''object'' [(''properties'', json_object [(''server'', typed ''string'' [])]),
        (''additionalProperties'', VBool False)]) ReadOnly"

definition spec_ReadMcpResource :: ToolSpec where
  "spec_ReadMcpResource = tool_spec (lit ''ReadMcpResource'')
     (lit ''Read a resource by URI from an MCP server registry.'')
     (typed ''object'' [(''properties'', json_object [(''server'', typed ''string'' []),
          (''uri'', typed ''string'' [])]),
        (''required'', strings [''uri'']),
        (''additionalProperties'', VBool False)]) ReadOnly"

definition spec_McpAuth :: ToolSpec where
  "spec_McpAuth = tool_spec (lit ''McpAuth'')
     (lit ''Inspect/authenticate an MCP server registry entry.'')
     (typed ''object'' [(''properties'', json_object [(''server'', typed ''string'' [])]),
        (''required'', strings [''server'']),
        (''additionalProperties'', VBool False)]) DangerFullAccess"

definition spec_MCP :: ToolSpec where
  "spec_MCP = tool_spec (lit ''MCP'')
     (lit ''Execute a tool on a connected MCP server registry entry.'')
     (typed ''object'' [(''properties'', json_object [(''server'', typed ''string'' []),
          (''tool'', typed ''string'' []),
          (''arguments'', typed ''object'' [])]),
        (''required'', strings [''server'', ''tool'']),
        (''additionalProperties'', VBool False)]) DangerFullAccess"

definition spec_TestingPermission :: ToolSpec where
  "spec_TestingPermission = tool_spec (lit ''TestingPermission'')
     (lit ''Exercise the permission-enforcement layer for tests.'')
     (typed ''object'' [(''properties'', json_object [(''action'', typed ''string'' [])]),
        (''required'', strings [''action'']),
        (''additionalProperties'', VBool False)]) DangerFullAccess"

definition mvp_tool_specs :: "ToolSpec list" where
  "mvp_tool_specs = [
     spec_bash, spec_read_file, spec_write_file, spec_edit_file, spec_glob_search,
     spec_grep_search, spec_WebFetch, spec_WebSearch, spec_TodoWrite, spec_Skill,
     spec_Agent, spec_ToolSearch, spec_NotebookEdit, spec_Sleep, spec_SendUserMessage,
     spec_Config, spec_StructuredOutput, spec_REPL, spec_PowerShell, spec_TaskCreate,
     spec_TaskGet, spec_TaskList, spec_TaskStop, spec_TaskUpdate, spec_TaskOutput,
     spec_TaskWait, spec_TeamCreate, spec_TeamGet, spec_TeamList, spec_TeamDelete,
     spec_CronCreate, spec_CronGet, spec_CronDisable, spec_CronEnable, spec_CronDelete,
     spec_CronList, spec_SessionList, spec_SessionGet, spec_SessionCreate, spec_SessionSend,
     spec_SessionResume, spec_SessionWait, spec_LSP, spec_ListMcpServers, spec_ListMcpTools,
     spec_ListMcpResources, spec_ReadMcpResource, spec_McpAuth, spec_MCP, spec_TestingPermission]"

lemmas spec_defs = spec_BrowserObserve_def spec_BrowserInteract_def spec_bash_def spec_read_file_def
  spec_write_file_def spec_edit_file_def spec_glob_search_def spec_grep_search_def spec_WebFetch_def
  spec_WebSearch_def spec_TodoWrite_def spec_Skill_def spec_Agent_def spec_ToolSearch_def
  spec_NotebookEdit_def spec_Sleep_def spec_SendUserMessage_def spec_Config_def
  spec_StructuredOutput_def spec_REPL_def spec_PowerShell_def spec_TaskCreate_def spec_TaskGet_def
  spec_TaskList_def spec_TaskStop_def spec_TaskUpdate_def spec_TaskOutput_def spec_TaskWait_def
  spec_TeamCreate_def spec_TeamGet_def spec_TeamList_def spec_TeamDelete_def spec_CronCreate_def
  spec_CronGet_def spec_CronDisable_def spec_CronEnable_def spec_CronDelete_def spec_CronList_def
  spec_SessionList_def spec_SessionGet_def spec_SessionCreate_def spec_SessionSend_def
  spec_SessionResume_def spec_SessionWait_def spec_LSP_def spec_ListMcpServers_def
  spec_ListMcpTools_def spec_ListMcpResources_def spec_ReadMcpResource_def spec_McpAuth_def
  spec_MCP_def spec_TestingPermission_def

lemma spec_names [simp]:
  "ts_name spec_BrowserObserve = lit ''BrowserObserve''"
  "ts_name spec_BrowserInteract = lit ''BrowserInteract''"
  "ts_name spec_bash = lit ''bash''"
  "ts_name spec_read_file = lit ''read_file''"
  "ts_name spec_write_file = lit ''write_file''"
  "ts_name spec_edit_file = lit ''edit_file''"
  "ts_name spec_glob_search = lit ''glob_search''"
  "ts_name spec_grep_search = lit ''grep_search''"
  "ts_name spec_WebFetch = lit ''WebFetch''"
  "ts_name spec_WebSearch = lit ''WebSearch''"
  "ts_name spec_TodoWrite = lit ''TodoWrite''"
  "ts_name spec_Skill = lit ''Skill''"
  "ts_name spec_Agent = lit ''Agent''"
  "ts_name spec_ToolSearch = lit ''ToolSearch''"
  "ts_name spec_NotebookEdit = lit ''NotebookEdit''"
  "ts_name spec_Sleep = lit ''Sleep''"
  "ts_name spec_SendUserMessage = lit ''SendUserMessage''"
  "ts_name spec_Config = lit ''Config''"
  "ts_name spec_StructuredOutput = lit ''StructuredOutput''"
  "ts_name spec_REPL = lit ''REPL''"
  "ts_name spec_PowerShell = lit ''PowerShell''"
  "ts_name spec_TaskCreate = lit ''TaskCreate''"
  "ts_name spec_TaskGet = lit ''TaskGet''"
  "ts_name spec_TaskList = lit ''TaskList''"
  "ts_name spec_TaskStop = lit ''TaskStop''"
  "ts_name spec_TaskUpdate = lit ''TaskUpdate''"
  "ts_name spec_TaskOutput = lit ''TaskOutput''"
  "ts_name spec_TaskWait = lit ''TaskWait''"
  "ts_name spec_TeamCreate = lit ''TeamCreate''"
  "ts_name spec_TeamGet = lit ''TeamGet''"
  "ts_name spec_TeamList = lit ''TeamList''"
  "ts_name spec_TeamDelete = lit ''TeamDelete''"
  "ts_name spec_CronCreate = lit ''CronCreate''"
  "ts_name spec_CronGet = lit ''CronGet''"
  "ts_name spec_CronDisable = lit ''CronDisable''"
  "ts_name spec_CronEnable = lit ''CronEnable''"
  "ts_name spec_CronDelete = lit ''CronDelete''"
  "ts_name spec_CronList = lit ''CronList''"
  "ts_name spec_SessionList = lit ''SessionList''"
  "ts_name spec_SessionGet = lit ''SessionGet''"
  "ts_name spec_SessionCreate = lit ''SessionCreate''"
  "ts_name spec_SessionSend = lit ''SessionSend''"
  "ts_name spec_SessionResume = lit ''SessionResume''"
  "ts_name spec_SessionWait = lit ''SessionWait''"
  "ts_name spec_LSP = lit ''LSP''"
  "ts_name spec_ListMcpServers = lit ''ListMcpServers''"
  "ts_name spec_ListMcpTools = lit ''ListMcpTools''"
  "ts_name spec_ListMcpResources = lit ''ListMcpResources''"
  "ts_name spec_ReadMcpResource = lit ''ReadMcpResource''"
  "ts_name spec_McpAuth = lit ''McpAuth''"
  "ts_name spec_MCP = lit ''MCP''"
  "ts_name spec_TestingPermission = lit ''TestingPermission''"
  by (simp_all only: spec_defs tool_spec_def ToolSpec.select_convs)

lemma spec_permissions [simp]:
  "ts_permission spec_BrowserObserve = DangerFullAccess"
  "ts_permission spec_BrowserInteract = DangerFullAccess"
  "ts_permission spec_bash = DangerFullAccess"
  "ts_permission spec_read_file = ReadOnly"
  "ts_permission spec_write_file = WorkspaceWrite"
  "ts_permission spec_edit_file = WorkspaceWrite"
  "ts_permission spec_glob_search = ReadOnly"
  "ts_permission spec_grep_search = ReadOnly"
  "ts_permission spec_WebFetch = ReadOnly"
  "ts_permission spec_WebSearch = ReadOnly"
  "ts_permission spec_TodoWrite = WorkspaceWrite"
  "ts_permission spec_Skill = ReadOnly"
  "ts_permission spec_Agent = DangerFullAccess"
  "ts_permission spec_ToolSearch = ReadOnly"
  "ts_permission spec_NotebookEdit = WorkspaceWrite"
  "ts_permission spec_Sleep = ReadOnly"
  "ts_permission spec_SendUserMessage = ReadOnly"
  "ts_permission spec_Config = WorkspaceWrite"
  "ts_permission spec_StructuredOutput = ReadOnly"
  "ts_permission spec_REPL = DangerFullAccess"
  "ts_permission spec_PowerShell = DangerFullAccess"
  "ts_permission spec_TaskCreate = DangerFullAccess"
  "ts_permission spec_TaskGet = ReadOnly"
  "ts_permission spec_TaskList = ReadOnly"
  "ts_permission spec_TaskStop = DangerFullAccess"
  "ts_permission spec_TaskUpdate = DangerFullAccess"
  "ts_permission spec_TaskOutput = ReadOnly"
  "ts_permission spec_TaskWait = ReadOnly"
  "ts_permission spec_TeamCreate = DangerFullAccess"
  "ts_permission spec_TeamGet = ReadOnly"
  "ts_permission spec_TeamList = ReadOnly"
  "ts_permission spec_TeamDelete = DangerFullAccess"
  "ts_permission spec_CronCreate = DangerFullAccess"
  "ts_permission spec_CronGet = ReadOnly"
  "ts_permission spec_CronDisable = DangerFullAccess"
  "ts_permission spec_CronEnable = DangerFullAccess"
  "ts_permission spec_CronDelete = DangerFullAccess"
  "ts_permission spec_CronList = ReadOnly"
  "ts_permission spec_SessionList = ReadOnly"
  "ts_permission spec_SessionGet = ReadOnly"
  "ts_permission spec_SessionCreate = DangerFullAccess"
  "ts_permission spec_SessionSend = DangerFullAccess"
  "ts_permission spec_SessionResume = DangerFullAccess"
  "ts_permission spec_SessionWait = ReadOnly"
  "ts_permission spec_LSP = ReadOnly"
  "ts_permission spec_ListMcpServers = ReadOnly"
  "ts_permission spec_ListMcpTools = ReadOnly"
  "ts_permission spec_ListMcpResources = ReadOnly"
  "ts_permission spec_ReadMcpResource = ReadOnly"
  "ts_permission spec_McpAuth = DangerFullAccess"
  "ts_permission spec_MCP = DangerFullAccess"
  "ts_permission spec_TestingPermission = DangerFullAccess"
  by (simp_all only: spec_defs tool_spec_def ToolSpec.select_convs)

end
