(* ===== verification/Tool_Registry.thy ===== *)
theory Tool_Registry
  imports Tool_Specs Config_Values Enforcer "HOL-Library.Product_Lexorder"
begin

text \<open>
  The tool registry of \<open>tools/src/lib.rs\<close>: the built-in, optional and plugin tools, the names a user may
  allow, the definitions and permissions they stand for, the dispatch of a call behind the enforcer, the
  search over the tools, and the tools of a sub-agent.

  The tools themselves, the working directory, the file system's \<open>canonicalize\<close> and the two forms of
  \<open>serde_json\<close> the dispatch uses are fields of a host over a world \<open>'w\<close>.
\<close>

section \<open>Tools\<close>

record ToolDefinition =
  td_name :: rstr
  td_description :: "rstr option"
  td_schema :: Value

datatype PluginToolPermission = PluginReadOnly | PluginWorkspaceWrite | PluginDangerFullAccess

fun plugin_permission_str :: "PluginToolPermission \<Rightarrow> rstr" where
  "plugin_permission_str PluginReadOnly = lit ''read-only''"
| "plugin_permission_str PluginWorkspaceWrite = lit ''workspace-write''"
| "plugin_permission_str PluginDangerFullAccess = lit ''danger-full-access''"

definition plugin_permission_parse :: "rstr \<Rightarrow> PluginToolPermission option" where
  "plugin_permission_parse v =
     (if v = lit ''read-only'' then Some PluginReadOnly
      else if v = lit ''workspace-write'' then Some PluginWorkspaceWrite
      else if v = lit ''danger-full-access'' then Some PluginDangerFullAccess
      else None)"

record PluginTool =
  pt_plugin_id :: rstr
  pt_plugin_name :: rstr
  pt_definition :: ToolDefinition
  pt_command :: rstr
  pt_args :: "rstr list"
  pt_permission :: PluginToolPermission
  pt_root :: "path option"

text \<open>\<open>permission_mode_from_plugin\<close>; \<open>None\<close> is its panic.\<close>

definition permission_mode_from_plugin :: "rstr \<Rightarrow> PermissionMode option" where
  "permission_mode_from_plugin v =
     (if v = lit ''read-only'' then Some ReadOnly
      else if v = lit ''workspace-write'' then Some WorkspaceWrite
      else if v = lit ''danger-full-access'' then Some DangerFullAccess
      else None)"

definition BROWSER_OBSERVE_TOOL_NAME :: rstr where
  "BROWSER_OBSERVE_TOOL_NAME = lit ''BrowserObserve''"

definition BROWSER_INTERACT_TOOL_NAME :: rstr where
  "BROWSER_INTERACT_TOOL_NAME = lit ''BrowserInteract''"

definition browser_tool_disabled_error :: "rstr \<Rightarrow> rstr" where
  "browser_tool_disabled_error n =
     n @ lit '' is disabled; set browserControl.enabled=true before using --allowedTools '' @ n"

definition is_browser_optional_tool_name :: "rstr \<Rightarrow> bool" where
  "is_browser_optional_tool_name n \<longleftrightarrow> n = BROWSER_OBSERVE_TOOL_NAME \<or> n = BROWSER_INTERACT_TOOL_NAME"

definition enabled_optional_builtin_specs :: "RuntimeBrowserControlConfig \<Rightarrow> ToolSpec list" where
  "enabled_optional_builtin_specs b =
     (if browser_enabled b then [spec_BrowserObserve, spec_BrowserInteract] else [])"

section \<open>The registry\<close>

record GlobalToolRegistry =
  gr_plugin_tools :: "PluginTool list"
  gr_enforcer :: "PermissionEnforcer option"
  gr_bash_policy :: "ToolProfileBashPolicy option"
  gr_browser_control :: RuntimeBrowserControlConfig

definition default_browser_control :: RuntimeBrowserControlConfig where
  "default_browser_control =
     \<lparr>browser_enabled = False, artifacts_dir = path_components (lit ''.openyak/artifacts/browser'')\<rparr>"

definition GlobalToolRegistry_builtin :: GlobalToolRegistry where
  "GlobalToolRegistry_builtin =
     \<lparr>gr_plugin_tools = [], gr_enforcer = None, gr_bash_policy = None,
      gr_browser_control = default_browser_control\<rparr>"

definition plugin_tool_name :: "PluginTool \<Rightarrow> rstr" where
  "plugin_tool_name t = td_name (pt_definition t)"

fun check_plugin_names :: "rstr list \<Rightarrow> rstr list \<Rightarrow> PluginTool list \<Rightarrow> rstr + unit" where
  "check_plugin_names builtin seen [] = Inr ()"
| "check_plugin_names builtin seen (t # ts) =
     (let n = plugin_tool_name t in
      if n \<in> set builtin then
        Inl (lit ''plugin tool `'' @ n @ lit ''` conflicts with a built-in tool name'')
      else if n \<in> set seen then Inl (lit ''duplicate plugin tool name `'' @ n @ lit ''`'')
      else check_plugin_names builtin (n # seen) ts)"

definition with_plugin_tools :: "PluginTool list \<Rightarrow> rstr + GlobalToolRegistry" where
  "with_plugin_tools ts =
     res_bind (check_plugin_names (map ts_name mvp_tool_specs) [] ts) (\<lambda>_.
       Inr \<lparr>gr_plugin_tools = ts, gr_enforcer = None, gr_bash_policy = None,
            gr_browser_control = default_browser_control\<rparr>)"

definition with_enforcer :: "GlobalToolRegistry \<Rightarrow> PermissionEnforcer \<Rightarrow> GlobalToolRegistry" where
  "with_enforcer r e = r\<lparr>gr_enforcer := Some e\<rparr>"

definition with_bash_policy :: "GlobalToolRegistry \<Rightarrow> ToolProfileBashPolicy \<Rightarrow> GlobalToolRegistry" where
  "with_bash_policy r p = r\<lparr>gr_bash_policy := Some p\<rparr>"

definition with_browser_control ::
  "GlobalToolRegistry \<Rightarrow> RuntimeBrowserControlConfig \<Rightarrow> rstr + GlobalToolRegistry" where
  "with_browser_control r b =
     (let optional = map ts_name (enabled_optional_builtin_specs b) in
      case (if browser_enabled b then
              find (\<lambda>n. n \<in> set optional) (map plugin_tool_name (gr_plugin_tools r))
            else None) of
        Some n \<Rightarrow> Inl (lit ''plugin tool `'' @ n @ lit ''` conflicts with an optional built-in tool name'')
      | None \<Rightarrow> Inr (r\<lparr>gr_browser_control := b\<rparr>))"

section \<open>The names a user may allow\<close>

definition normalize_tool_name :: "rstr \<Rightarrow> rstr" where
  "normalize_tool_name v = to_ascii_lowercase (replace_str [45] [95] (trim v))"

definition canonical_names :: "GlobalToolRegistry \<Rightarrow> rstr list" where
  "canonical_names r =
     map ts_name mvp_tool_specs @ map ts_name (enabled_optional_builtin_specs (gr_browser_control r))
       @ map plugin_tool_name (gr_plugin_tools r)"

definition tool_aliases :: "(rstr \<times> rstr) list" where
  "tool_aliases =
     [(lit ''read'', lit ''read_file''), (lit ''write'', lit ''write_file''), (lit ''edit'', lit ''edit_file''),
      (lit ''glob'', lit ''glob_search''), (lit ''grep'', lit ''grep_search'')]"

definition tool_name_map :: "GlobalToolRegistry \<Rightarrow> (rstr \<times> rstr) list" where
  "tool_name_map r =
     fold (\<lambda>(a, c). bt_insert a c) tool_aliases
       (fold (\<lambda>n. bt_insert (normalize_tool_name n) n) (canonical_names r) [])"

text \<open>\<open>str::split\<close> with a predicate on the characters.\<close>

fun split_by_acc :: "(rchar \<Rightarrow> bool) \<Rightarrow> rstr \<Rightarrow> rstr \<Rightarrow> rstr list" where
  "split_by_acc P acc [] = [acc]"
| "split_by_acc P acc (c # cs) = (if P c then acc # split_by_acc P [] cs else split_by_acc P (acc @ [c]) cs)"

definition split_by :: "(rchar \<Rightarrow> bool) \<Rightarrow> rstr \<Rightarrow> rstr list" where
  "split_by P s = split_by_acc P [] s"

definition allowed_tool_tokens :: "rstr list \<Rightarrow> rstr list" where
  "allowed_tool_tokens vs = concat (map (\<lambda>v. filter (\<lambda>t. t \<noteq> []) (split_by (\<lambda>c. c = 44 \<or> is_ws c) v)) vs)"

definition resolve_allowed_tool :: "GlobalToolRegistry \<Rightarrow> rstr \<Rightarrow> rstr + rstr" where
  "resolve_allowed_tool r token =
     (let normalized = normalize_tool_name token in
      if \<not> browser_enabled (gr_browser_control r)
         \<and> normalized = normalize_tool_name BROWSER_OBSERVE_TOOL_NAME then
        Inl (browser_tool_disabled_error BROWSER_OBSERVE_TOOL_NAME)
      else if \<not> browser_enabled (gr_browser_control r)
         \<and> normalized = normalize_tool_name BROWSER_INTERACT_TOOL_NAME then
        Inl (browser_tool_disabled_error BROWSER_INTERACT_TOOL_NAME)
      else
        ok_or (lit ''unsupported tool in --allowedTools: '' @ token @ lit '' (expected one of: ''
                 @ join (lit '', '') (canonical_names r) @ lit '')'')
          (bt_get (tool_name_map r) normalized))"

definition normalize_allowed_tools :: "GlobalToolRegistry \<Rightarrow> rstr list \<Rightarrow> rstr + rstr list option" where
  "normalize_allowed_tools r vs =
     (if vs = [] then Inr None
      else map_sum id (\<lambda>ns. Some (btree_set ns)) (collect (resolve_allowed_tool r) (allowed_tool_tokens vs)))"

section \<open>Definitions and permissions\<close>

text \<open>\<open>Option::is_none_or\<close> and \<open>Option::is_some_and\<close> on the set of allowed tools.\<close>

definition allowed_or_all :: "rstr list option \<Rightarrow> rstr \<Rightarrow> bool" where
  "allowed_or_all allowed n = (case allowed of None \<Rightarrow> True | Some ns \<Rightarrow> n \<in> set ns)"

definition allowed_by_name :: "rstr list option \<Rightarrow> rstr \<Rightarrow> bool" where
  "allowed_by_name allowed n = (case allowed of None \<Rightarrow> False | Some ns \<Rightarrow> n \<in> set ns)"

definition definition_of_spec :: "ToolSpec \<Rightarrow> ToolDefinition" where
  "definition_of_spec s =
     \<lparr>td_name = ts_name s, td_description = Some (ts_description s), td_schema = ts_schema s\<rparr>"

definition tool_definitions :: "GlobalToolRegistry \<Rightarrow> rstr list option \<Rightarrow> ToolDefinition list" where
  "tool_definitions r allowed =
     map definition_of_spec (filter (\<lambda>s. allowed_or_all allowed (ts_name s)) mvp_tool_specs)
     @ map definition_of_spec
         (filter (\<lambda>s. allowed_by_name allowed (ts_name s)) (enabled_optional_builtin_specs (gr_browser_control r)))
     @ map pt_definition (filter (\<lambda>t. allowed_or_all allowed (plugin_tool_name t)) (gr_plugin_tools r))"

definition plugin_required_mode :: "PluginTool \<Rightarrow> PermissionMode" where
  "plugin_required_mode t = the (permission_mode_from_plugin (plugin_permission_str (pt_permission t)))"

definition permission_specs :: "GlobalToolRegistry \<Rightarrow> rstr list option \<Rightarrow> (rstr \<times> PermissionMode) list" where
  "permission_specs r allowed =
     map (\<lambda>s. (ts_name s, ts_permission s)) (filter (\<lambda>s. allowed_or_all allowed (ts_name s)) mvp_tool_specs)
     @ map (\<lambda>s. (ts_name s, ts_permission s))
         (filter (\<lambda>s. allowed_by_name allowed (ts_name s)) (enabled_optional_builtin_specs (gr_browser_control r)))
     @ map (\<lambda>t. (plugin_tool_name t, plugin_required_mode t))
         (filter (\<lambda>t. allowed_or_all allowed (plugin_tool_name t)) (gr_plugin_tools r))"

section \<open>Dispatch\<close>

record 'w ToolHost =
  th_bash_input :: "Value \<Rightarrow> rstr + BashCommandInput"
  th_run_bash :: "BashCommandInput \<Rightarrow> ToolProfileBashPolicy option \<Rightarrow> 'w \<Rightarrow> (rstr + rstr) \<times> 'w"
  th_run_browser :: "rstr \<Rightarrow> Value \<Rightarrow> RuntimeBrowserControlConfig \<Rightarrow> 'w \<Rightarrow> (rstr + rstr) \<times> 'w"
  th_run :: "rstr \<Rightarrow> Value \<Rightarrow> 'w \<Rightarrow> (rstr + rstr) \<times> 'w"
  th_plugin :: "PluginTool \<Rightarrow> Value \<Rightarrow> 'w \<Rightarrow> (rstr + rstr) \<times> 'w"
  th_cwd :: "rstr + rstr"
  th_canon :: canonicalizer
  th_json :: "Value \<Rightarrow> rstr"

definition denied_to_err :: "EnforcementResult \<Rightarrow> rstr + unit" where
  "denied_to_err e = (case e of Allowed \<Rightarrow> Inr () | Denied _ _ _ reason \<Rightarrow> Inl reason)"

definition value_str_or_empty :: "Value \<Rightarrow> rstr \<Rightarrow> rstr" where
  "value_str_or_empty v k = unwrap_or [] (Option.bind (value_get v k) value_as_str)"

definition maybe_enforce_permission_check ::
  "'w ToolHost \<Rightarrow> PermissionEnforcer option \<Rightarrow> ToolProfileBashPolicy option \<Rightarrow> rstr
     \<Rightarrow> BashCommandInput option \<Rightarrow> Value \<Rightarrow> rstr + unit" where
  "maybe_enforce_permission_check h e p tool_name bash inp =
     (case e of
        None \<Rightarrow> Inr ()
      | Some enf \<Rightarrow>
          if tool_name = lit ''write_file'' \<or> tool_name = lit ''edit_file'' then
            res_bind (th_cwd h) (\<lambda>root.
              denied_to_err (check_file_write (th_canon h) enf (value_str_or_empty inp (lit ''path'')) root))
          else if tool_name = lit ''bash'' then
            res_bind (denied_to_err (check_bash enf
                (case bash of Some b \<Rightarrow> command b | None \<Rightarrow> value_str_or_empty inp (lit ''command'')))) (\<lambda>_.
              case (p, bash) of
                (Some pol, Some b) \<Rightarrow> validate_override pol b
              | _ \<Rightarrow> Inr ())
          else denied_to_err (enforcer_check enf tool_name (th_json h inp)))"

text \<open>The arms of the dispatch that ask the enforcer before they run, and the arms that do not.\<close>

definition checked_tools :: "rstr list" where
  "checked_tools = map lit
     [''read_file'', ''write_file'', ''edit_file'', ''glob_search'', ''grep_search'', ''TaskCreate'', ''TaskStop'',
      ''TaskUpdate'', ''TeamCreate'', ''TeamDelete'', ''CronCreate'', ''CronDisable'', ''CronEnable'', ''CronDelete'',
      ''SessionCreate'', ''SessionSend'', ''SessionResume'', ''McpAuth'', ''MCP'']"

definition unchecked_tools :: "rstr list" where
  "unchecked_tools = map lit
     [''WebFetch'', ''WebSearch'', ''TodoWrite'', ''Skill'', ''Agent'', ''ToolSearch'', ''NotebookEdit'', ''Sleep'',
      ''SendUserMessage'', ''Brief'', ''Config'', ''StructuredOutput'', ''REPL'', ''PowerShell'', ''TaskGet'',
      ''TaskList'', ''TaskOutput'', ''TaskWait'', ''TeamGet'', ''TeamList'', ''CronGet'', ''CronList'',
      ''SessionList'', ''SessionGet'', ''SessionWait'', ''LSP'', ''ListMcpServers'', ''ListMcpTools'',
      ''ListMcpResources'', ''ReadMcpResource'', ''TestingPermission'']"

definition execute_tool_with_enforcer ::
  "'w ToolHost \<Rightarrow> PermissionEnforcer option \<Rightarrow> ToolProfileBashPolicy option \<Rightarrow> RuntimeBrowserControlConfig option
     \<Rightarrow> rstr \<Rightarrow> Value \<Rightarrow> 'w \<Rightarrow> (rstr + rstr) \<times> 'w" where
  "execute_tool_with_enforcer h e p browser tool inp w =
     (if tool = lit ''bash'' then
        (case res_bind (th_bash_input h inp) (\<lambda>b.
                res_bind (maybe_enforce_permission_check h e p tool (Some b) inp) (\<lambda>_. Inr b)) of
           Inl err \<Rightarrow> (Inl err, w)
         | Inr b \<Rightarrow> th_run_bash h b p w)
      else if is_browser_optional_tool_name tool then
        (case maybe_enforce_permission_check h e p tool None inp of
           Inl err \<Rightarrow> (Inl err, w)
         | Inr _ \<Rightarrow>
             (case browser of
                None \<Rightarrow> (Inl (browser_tool_disabled_error tool), w)
              | Some c \<Rightarrow>
                  if browser_enabled c then th_run_browser h tool inp c w
                  else (Inl (browser_tool_disabled_error tool), w)))
      else if tool \<in> set checked_tools then
        (case maybe_enforce_permission_check h e p tool None inp of
           Inl err \<Rightarrow> (Inl err, w)
         | Inr _ \<Rightarrow> th_run h tool inp w)
      else if tool \<in> set unchecked_tools then th_run h tool inp w
      else (Inl (lit ''unsupported tool: '' @ tool), w))"

definition execute_builtin_tool :: "'w ToolHost \<Rightarrow> rstr \<Rightarrow> Value \<Rightarrow> 'w \<Rightarrow> (rstr + rstr) \<times> 'w" where
  "execute_builtin_tool h tool inp w = execute_tool_with_enforcer h None None None tool inp w"

definition registry_execute ::
  "'w ToolHost \<Rightarrow> GlobalToolRegistry \<Rightarrow> rstr \<Rightarrow> Value \<Rightarrow> 'w \<Rightarrow> (rstr + rstr) \<times> 'w" where
  "registry_execute h r tool inp w =
     (if is_browser_optional_tool_name tool \<and> \<not> browser_enabled (gr_browser_control r) then
        (Inl (browser_tool_disabled_error tool), w)
      else if tool \<in> set (map ts_name mvp_tool_specs)
         \<or> tool \<in> set (map ts_name (enabled_optional_builtin_specs (gr_browser_control r))) then
        execute_tool_with_enforcer h (gr_enforcer r) (gr_bash_policy r) (Some (gr_browser_control r)) tool inp w
      else
        (case find (\<lambda>t. plugin_tool_name t = tool) (gr_plugin_tools r) of
           None \<Rightarrow> (Inl (lit ''unsupported tool: '' @ tool), w)
         | Some t \<Rightarrow> th_plugin h t inp w))"

section \<open>Searching the tools\<close>

text \<open>
  \<open>str::to_lowercase\<close> of a query folds the case of every script; it is the argument \<open>lower\<close>. The names and the
  descriptions of the table are ASCII.
\<close>

definition is_ascii_alnum :: "rchar \<Rightarrow> bool" where
  "is_ascii_alnum c \<longleftrightarrow> 48 \<le> c \<and> c \<le> 57 \<or> 65 \<le> c \<and> c \<le> 90 \<or> 97 \<le> c \<and> c \<le> 122"

definition strip_suffix :: "rstr \<Rightarrow> rstr \<Rightarrow> rstr option" where
  "strip_suffix p s = map_option rev (strip_prefix (rev p) (rev s))"

definition canonical_tool_token :: "rstr \<Rightarrow> rstr" where
  "canonical_tool_token v =
     (let canonical = map ascii_lower_char (filter is_ascii_alnum v) in
      unwrap_or canonical (strip_suffix (lit ''tool'') canonical))"

definition normalize_tool_search_query :: "rstr \<Rightarrow> rstr" where
  "normalize_tool_search_query q =
     join [32] (map canonical_tool_token (filter (\<lambda>t. t \<noteq> []) (split_by (\<lambda>c. is_ws c \<or> c = 44) (trim q))))"

definition deferred_tool_specs :: "ToolSpec list" where
  "deferred_tool_specs =
     filter (\<lambda>s. ts_name s \<notin> set (map lit [''bash'', ''read_file'', ''write_file'', ''edit_file'', ''glob_search'',
       ''grep_search''])) mvp_tool_specs"

definition select_tools :: "rstr \<Rightarrow> ToolSpec list \<Rightarrow> rstr list" where
  "select_tools selection specs =
     List.map_filter
       (\<lambda>wanted. map_option ts_name (find (\<lambda>s. canonical_tool_token (ts_name s) = canonical_tool_token wanted) specs))
       (filter (\<lambda>t. t \<noteq> []) (map trim (split_char 44 selection)))"

definition required_terms :: "rstr \<Rightarrow> rstr list" where
  "required_terms lowered =
     filter (\<lambda>t. t \<noteq> []) (List.map_filter (strip_prefix [43]) (split_whitespace lowered))"

definition optional_terms :: "rstr \<Rightarrow> rstr list" where
  "optional_terms lowered = filter (\<lambda>t. \<not> starts_with [43] t) (split_whitespace lowered)"

definition term_score :: "rstr \<Rightarrow> rstr \<Rightarrow> rstr \<Rightarrow> rstr \<Rightarrow> rstr \<Rightarrow> int" where
  "term_score name canonical_name haystack normalized_haystack t =
     (let canonical_term = canonical_tool_token t in
      (if contains t haystack then 2 else 0) + (if name = t then 8 else 0) + (if contains t name then 4 else 0)
      + (if canonical_name = canonical_term then 12 else 0)
      + (if contains canonical_term normalized_haystack then 3 else 0))"

definition tool_score :: "rstr \<Rightarrow> ToolSpec \<Rightarrow> (int \<times> rstr) option" where
  "tool_score lowered s =
     (let required = required_terms lowered;
          terms = required @ optional_terms lowered;
          name = to_ascii_lowercase (ts_name s);
          canonical_name = canonical_tool_token (ts_name s);
          haystack = name @ [32] @ to_ascii_lowercase (ts_description s) @ [32] @ canonical_name;
          normalized_haystack = canonical_name @ [32] @ normalize_tool_search_query (ts_description s) in
      if list_ex (\<lambda>t. \<not> contains t haystack) required then None
      else
        let score = sum_list (map (term_score name canonical_name haystack normalized_haystack) terms) in
        if score = 0 \<and> lowered \<noteq> [] then None else Some (score, ts_name s))"

definition search_tool_specs :: "(rstr \<Rightarrow> rstr) \<Rightarrow> rstr \<Rightarrow> nat \<Rightarrow> ToolSpec list \<Rightarrow> rstr list" where
  "search_tool_specs lower query max_results specs =
     (let lowered = lower query in
      case strip_prefix (lit ''select:'') lowered of
        Some selection \<Rightarrow> take max_results (select_tools selection specs)
      | None \<Rightarrow>
          take max_results
            (map snd (sort_key (\<lambda>(score, name). (- score, name)) (List.map_filter (tool_score lowered) specs))))"

record ToolSearchOutput =
  tso_matches :: "rstr list"
  tso_query :: rstr
  tso_normalized_query :: rstr
  tso_total_deferred_tools :: nat

definition execute_tool_search :: "(rstr \<Rightarrow> rstr) \<Rightarrow> rstr \<Rightarrow> nat option \<Rightarrow> ToolSearchOutput" where
  "execute_tool_search lower query max_results =
     (let q = trim query in
      \<lparr>tso_matches = search_tool_specs lower q (max (unwrap_or 5 max_results) 1) deferred_tool_specs,
       tso_query = q, tso_normalized_query = normalize_tool_search_query q,
       tso_total_deferred_tools = length deferred_tool_specs\<rparr>)"

section \<open>Sub-agents\<close>

definition allowed_tools_for_subagent :: "rstr \<Rightarrow> rstr list" where
  "allowed_tools_for_subagent t = btree_set (map lit
     (if t = lit ''Explore'' then
        [''read_file'', ''glob_search'', ''grep_search'', ''WebFetch'', ''WebSearch'', ''ToolSearch'', ''Skill'',
         ''StructuredOutput'']
      else if t = lit ''Plan'' then
        [''read_file'', ''glob_search'', ''grep_search'', ''WebFetch'', ''WebSearch'', ''ToolSearch'', ''Skill'',
         ''TodoWrite'', ''StructuredOutput'', ''SendUserMessage'']
      else if t = lit ''Verification'' then
        [''bash'', ''read_file'', ''glob_search'', ''grep_search'', ''WebFetch'', ''WebSearch'', ''ToolSearch'',
         ''TodoWrite'', ''StructuredOutput'', ''SendUserMessage'', ''PowerShell'']
      else if t = lit ''openyak-guide'' then
        [''read_file'', ''glob_search'', ''grep_search'', ''WebFetch'', ''WebSearch'', ''ToolSearch'', ''Skill'',
         ''StructuredOutput'', ''SendUserMessage'']
      else if t = lit ''statusline-setup'' then
        [''bash'', ''read_file'', ''write_file'', ''edit_file'', ''glob_search'', ''grep_search'', ''ToolSearch'']
      else
        [''bash'', ''read_file'', ''write_file'', ''edit_file'', ''glob_search'', ''grep_search'', ''WebFetch'',
         ''WebSearch'', ''TodoWrite'', ''Skill'', ''ToolSearch'', ''NotebookEdit'', ''Sleep'', ''SendUserMessage'',
         ''Config'', ''StructuredOutput'', ''REPL'', ''PowerShell'']))"

definition normalize_subagent_type :: "rstr option \<Rightarrow> rstr" where
  "normalize_subagent_type t =
     (let trimmed = unwrap_or [] (map_option trim t);
          token = canonical_tool_token trimmed in
      if trimmed = [] then lit ''general-purpose''
      else if token \<in> set (map lit [''general'', ''generalpurpose'', ''generalpurposeagent'']) then
        lit ''general-purpose''
      else if token \<in> set (map lit [''explore'', ''explorer'', ''exploreagent'']) then lit ''Explore''
      else if token \<in> set (map lit [''plan'', ''planagent'']) then lit ''Plan''
      else if token \<in> set (map lit [''verification'', ''verificationagent'', ''verify'', ''verifier'']) then
        lit ''Verification''
      else if token \<in> set (map lit [''openyakguide'', ''openyakguideagent'', ''guide'']) then lit ''openyak-guide''
      else if token \<in> set (map lit [''statusline'', ''statuslinesetup'']) then lit ''statusline-setup''
      else trimmed)"

definition agent_permission_policy :: PermissionPolicy where
  "agent_permission_policy =
     foldl (\<lambda>p s. with_tool_requirement p (ts_name s) (ts_permission s)) (PermissionPolicy_new DangerFullAccess)
       mvp_tool_specs"

definition subagent_execute ::
  "'w ToolHost \<Rightarrow> (rstr \<Rightarrow> rstr + Value) \<Rightarrow> rstr list \<Rightarrow> rstr \<Rightarrow> rstr \<Rightarrow> 'w \<Rightarrow> (rstr + rstr) \<times> 'w" where
  "subagent_execute h parse_json allowed tool inp w =
     (if tool \<notin> set allowed then
        (Inl (lit ''tool `'' @ tool @ lit ''` is not enabled for this sub-agent''), w)
      else
        (case parse_json inp of
           Inl e \<Rightarrow> (Inl (lit ''invalid tool input JSON: '' @ e), w)
         | Inr v \<Rightarrow> execute_builtin_tool h tool v w))"

definition resolve_agent_model :: "rstr option \<Rightarrow> rstr" where
  "resolve_agent_model m =
     (case Option.bind (map_option trim m) (\<lambda>s. if s = [] then None else Some s) of
        Some s \<Rightarrow> s
      | None \<Rightarrow> lit ''claude-opus-4-6'')"

text \<open>The loop that collapses dashes; each pass shortens the text.\<close>

lemma replace_dashes_le: "length (replace_from [45, 45] [45] k s) \<le> length s - k"
proof (induction s arbitrary: k)
  case (Cons c s)
  show ?case
  proof (cases k)
    case 0
    have "starts_with [45, 45] (c # s) \<Longrightarrow> s \<noteq> []" by (auto simp: starts_with_iff)
    with Cons.IH[of 0] Cons.IH[of 1] 0 show ?thesis by (cases s) auto
  next
    case (Suc j)
    with Cons.IH[of j] show ?thesis by simp
  qed
qed simp

lemma contains_Cons: "contains p (c # cs) \<longleftrightarrow> starts_with p (c # cs) \<or> contains p cs"
  by (auto simp: contains_def starts_with_def split: option.splits)

lemma replace_dashes_less: "contains [45, 45] s \<Longrightarrow> length (replace_str [45, 45] [45] s) < length s"
  unfolding replace_str_def
proof (induction s)
  case Nil
  then show ?case by (simp add: contains_iff)
next
  case (Cons c s)
  show ?case
  proof (cases "starts_with [45, 45] (c # s)")
    case True
    then have "s \<noteq> []" by (auto simp: starts_with_iff)
    with True replace_dashes_le[of 1 s] show ?thesis by (cases s) auto
  next
    case False
    with Cons show ?thesis by (auto simp: contains_Cons)
  qed
qed

function collapse_dashes :: "rstr \<Rightarrow> rstr" where
  "collapse_dashes s =
     (if contains [45, 45] s then collapse_dashes (replace_str [45, 45] [45] s) else s)"
  by auto

termination collapse_dashes
  by (relation "measure length") (auto simp: replace_dashes_less)

declare collapse_dashes.simps [simp del]

definition slugify_agent_name :: "rstr \<Rightarrow> rstr" where
  "slugify_agent_name d =
     take 32 (trim_by (\<lambda>c. c = 45)
       (collapse_dashes (map (\<lambda>c. if is_ascii_alnum c then ascii_lower_char c else 45) d)))"

end
