(* ===== verification/Tool_Registry_Props.thy ===== *)
theory Tool_Registry_Props
  imports Tool_Registry
begin
text \<open>
  What the theorems on the tool registry show: the schemas of the table are well formed, the enforcer stops the
  calls it denies and which tools it is never asked about, what a plugin's tool name can shadow, and what a
  sub-agent can be given.
\<close>

section \<open>The table\<close>

text \<open>An object schema names each of its required members among its properties, requires none where it has none, and
  so do the schemas in it.\<close>

fun schema_ok :: "nat \<Rightarrow> Value \<Rightarrow> bool" where
  "schema_ok 0 v = False"
| "schema_ok (Suc n) v =
     (case v of
        VObject m \<Rightarrow>
          (case bt_get m (lit ''properties'') of
             None \<Rightarrow> bt_get m (lit ''required'') = None
           | Some (VObject ps) \<Rightarrow>
               list_all (\<lambda>(k, s). schema_ok n s) ps
               \<and> list_all (\<lambda>r. case r of VString k \<Rightarrow> bt_get ps k \<noteq> None | _ \<Rightarrow> False)
                   (unwrap_or [] (Option.bind (bt_get m (lit ''required'')) value_as_array))
           | Some _ \<Rightarrow> False)
          \<and> (case bt_get m (lit ''items'') of None \<Rightarrow> True | Some s \<Rightarrow> schema_ok n s)
      | _ \<Rightarrow> False)"

definition object_schema :: "Value \<Rightarrow> bool" where
  "object_schema v \<longleftrightarrow>
     value_get v (lit ''type'') = Some (VString (lit ''object'')) \<and> schema_ok (Suc (Suc (Suc (Suc (Suc (Suc 0)))))) v"

lemmas schema_evals = object_schema_def tool_spec_def typed_def json_object_def strings_def unwrap_or_def less_char_def

lemma object_schemas_1:
  "object_schema (ts_schema spec_BrowserObserve)"
  "object_schema (ts_schema spec_BrowserInteract)"
  "object_schema (ts_schema spec_bash)"
  "object_schema (ts_schema spec_read_file)"
  "object_schema (ts_schema spec_write_file)"
  "object_schema (ts_schema spec_edit_file)"
  "object_schema (ts_schema spec_glob_search)"
  "object_schema (ts_schema spec_grep_search)"
  "object_schema (ts_schema spec_WebFetch)"
  "object_schema (ts_schema spec_WebSearch)"
  "object_schema (ts_schema spec_TodoWrite)"
  "object_schema (ts_schema spec_Skill)"
  "object_schema (ts_schema spec_Agent)"
  by (simp_all add: spec_BrowserObserve_def spec_BrowserInteract_def spec_bash_def spec_read_file_def spec_write_file_def
      spec_edit_file_def spec_glob_search_def spec_grep_search_def spec_WebFetch_def spec_WebSearch_def spec_TodoWrite_def spec_Skill_def spec_Agent_def schema_evals)

lemma object_schemas_2:
  "object_schema (ts_schema spec_ToolSearch)"
  "object_schema (ts_schema spec_NotebookEdit)"
  "object_schema (ts_schema spec_Sleep)"
  "object_schema (ts_schema spec_SendUserMessage)"
  "object_schema (ts_schema spec_Config)"
  "object_schema (ts_schema spec_StructuredOutput)"
  "object_schema (ts_schema spec_REPL)"
  "object_schema (ts_schema spec_PowerShell)"
  "object_schema (ts_schema spec_TaskCreate)"
  "object_schema (ts_schema spec_TaskGet)"
  "object_schema (ts_schema spec_TaskList)"
  "object_schema (ts_schema spec_TaskStop)"
  "object_schema (ts_schema spec_TaskUpdate)"
  by (simp_all add: spec_ToolSearch_def spec_NotebookEdit_def spec_Sleep_def spec_SendUserMessage_def spec_Config_def
      spec_StructuredOutput_def spec_REPL_def spec_PowerShell_def spec_TaskCreate_def spec_TaskGet_def spec_TaskList_def spec_TaskStop_def spec_TaskUpdate_def schema_evals)

lemma object_schemas_3:
  "object_schema (ts_schema spec_TaskOutput)"
  "object_schema (ts_schema spec_TaskWait)"
  "object_schema (ts_schema spec_TeamCreate)"
  "object_schema (ts_schema spec_TeamGet)"
  "object_schema (ts_schema spec_TeamList)"
  "object_schema (ts_schema spec_TeamDelete)"
  "object_schema (ts_schema spec_CronCreate)"
  "object_schema (ts_schema spec_CronGet)"
  "object_schema (ts_schema spec_CronDisable)"
  "object_schema (ts_schema spec_CronEnable)"
  "object_schema (ts_schema spec_CronDelete)"
  "object_schema (ts_schema spec_CronList)"
  "object_schema (ts_schema spec_SessionList)"
  by (simp_all add: spec_TaskOutput_def spec_TaskWait_def spec_TeamCreate_def spec_TeamGet_def spec_TeamList_def
      spec_TeamDelete_def spec_CronCreate_def spec_CronGet_def spec_CronDisable_def spec_CronEnable_def spec_CronDelete_def spec_CronList_def spec_SessionList_def schema_evals)

lemma object_schemas_4:
  "object_schema (ts_schema spec_SessionGet)"
  "object_schema (ts_schema spec_SessionCreate)"
  "object_schema (ts_schema spec_SessionSend)"
  "object_schema (ts_schema spec_SessionResume)"
  "object_schema (ts_schema spec_SessionWait)"
  "object_schema (ts_schema spec_LSP)"
  "object_schema (ts_schema spec_ListMcpServers)"
  "object_schema (ts_schema spec_ListMcpTools)"
  "object_schema (ts_schema spec_ListMcpResources)"
  "object_schema (ts_schema spec_ReadMcpResource)"
  "object_schema (ts_schema spec_McpAuth)"
  "object_schema (ts_schema spec_MCP)"
  "object_schema (ts_schema spec_TestingPermission)"
  by (simp_all add: spec_SessionGet_def spec_SessionCreate_def spec_SessionSend_def spec_SessionResume_def spec_SessionWait_def
      spec_LSP_def spec_ListMcpServers_def spec_ListMcpTools_def spec_ListMcpResources_def spec_ReadMcpResource_def spec_McpAuth_def spec_MCP_def spec_TestingPermission_def schema_evals)

text \<open>
  Every schema of the tool table, the two browser tools included, is an object schema all the way down, and the
  members it requires are members it declares.
\<close>

theorem tool_schemas_well_formed:
  "list_all (\<lambda>s. object_schema (ts_schema s)) (mvp_tool_specs @ [spec_BrowserObserve, spec_BrowserInteract])"
  unfolding mvp_tool_specs_def
  by (simp only: append.simps list.pred_inject object_schemas_1 object_schemas_2 object_schemas_3 object_schemas_4
      simp_thms)

lemma tool_names:
  "map ts_name mvp_tool_specs = map lit
     [''bash'', ''read_file'', ''write_file'', ''edit_file'', ''glob_search'', ''grep_search'', ''WebFetch'', ''WebSearch'',
      ''TodoWrite'', ''Skill'', ''Agent'', ''ToolSearch'', ''NotebookEdit'', ''Sleep'', ''SendUserMessage'', ''Config'',
      ''StructuredOutput'', ''REPL'', ''PowerShell'', ''TaskCreate'', ''TaskGet'', ''TaskList'', ''TaskStop'', ''TaskUpdate'',
      ''TaskOutput'', ''TaskWait'', ''TeamCreate'', ''TeamGet'', ''TeamList'', ''TeamDelete'', ''CronCreate'', ''CronGet'',
      ''CronDisable'', ''CronEnable'', ''CronDelete'', ''CronList'', ''SessionList'', ''SessionGet'', ''SessionCreate'',
      ''SessionSend'', ''SessionResume'', ''SessionWait'', ''LSP'', ''ListMcpServers'', ''ListMcpTools'',
      ''ListMcpResources'', ''ReadMcpResource'', ''McpAuth'', ''MCP'', ''TestingPermission'']"
  by (simp add: mvp_tool_specs_def)

lemma distinct_tool_names: "distinct (map ts_name mvp_tool_specs)"
  unfolding tool_names by simp

section \<open>The enforcer\<close>

definition privileged_unchecked :: "rstr list" where
  "privileged_unchecked =
     map lit [''TodoWrite'', ''Agent'', ''NotebookEdit'', ''Config'', ''REPL'', ''PowerShell'', ''TestingPermission'']"

lemma unchecked_runs:
  assumes "tool \<in> set unchecked_tools" and "tool \<in> set (map ts_name mvp_tool_specs)"
    and "tool \<notin> set checked_tools" and "tool \<noteq> lit ''bash''" and "\<not> is_browser_optional_tool_name tool"
  shows "registry_execute h (with_enforcer r e) tool inp w = th_run h tool inp w"
  using assms by (simp add: registry_execute_def execute_tool_with_enforcer_def with_enforcer_def)

text \<open>
  Whatever the enforcer of the registry denies, the built-in tools \<open>TodoWrite\<close>, \<open>Agent\<close>, \<open>NotebookEdit\<close>,
  \<open>Config\<close>, \<open>REPL\<close>, \<open>PowerShell\<close> and \<open>TestingPermission\<close> - all of which the table says need more than the
  read-only mode - run without asking it.
\<close>

theorem enforcer_not_asked:
  "map (\<lambda>tool. registry_execute h (with_enforcer GlobalToolRegistry_builtin e) tool inp w) privileged_unchecked =
     map (\<lambda>tool. th_run h tool inp w) privileged_unchecked
   \<and> map ts_permission (filter (\<lambda>s. ts_name s \<in> set privileged_unchecked) mvp_tool_specs) =
     [WorkspaceWrite, DangerFullAccess, WorkspaceWrite, WorkspaceWrite, DangerFullAccess, DangerFullAccess,
      DangerFullAccess]"
proof
  have "list_all (\<lambda>t. t \<in> set unchecked_tools \<and> t \<in> set (map ts_name mvp_tool_specs) \<and> t \<notin> set checked_tools
      \<and> t \<noteq> lit ''bash'' \<and> \<not> is_browser_optional_tool_name t) privileged_unchecked"
    by (simp add: tool_names privileged_unchecked_def unchecked_tools_def checked_tools_def
        is_browser_optional_tool_name_def BROWSER_OBSERVE_TOOL_NAME_def BROWSER_INTERACT_TOOL_NAME_def)
  then show "map (\<lambda>tool. registry_execute h (with_enforcer GlobalToolRegistry_builtin e) tool inp w) privileged_unchecked =
     map (\<lambda>tool. th_run h tool inp w) privileged_unchecked"
    by (simp add: list_all_iff unchecked_runs)
  show "map ts_permission (filter (\<lambda>s. ts_name s \<in> set privileged_unchecked) mvp_tool_specs) =
     [WorkspaceWrite, DangerFullAccess, WorkspaceWrite, WorkspaceWrite, DangerFullAccess, DangerFullAccess,
      DangerFullAccess]"
    by (simp add: mvp_tool_specs_def privileged_unchecked_def)
qed

lemma checked_tools_facts:
  assumes "tool \<in> set checked_tools"
  shows "tool \<in> set (map ts_name mvp_tool_specs)" and "tool \<noteq> lit ''bash''" and "\<not> is_browser_optional_tool_name tool"
proof -
  have "list_all (\<lambda>t. t \<in> set (map ts_name mvp_tool_specs) \<and> t \<noteq> lit ''bash'' \<and> \<not> is_browser_optional_tool_name t)
      checked_tools"
    by (simp add: tool_names checked_tools_def is_browser_optional_tool_name_def BROWSER_OBSERVE_TOOL_NAME_def
        BROWSER_INTERACT_TOOL_NAME_def)
  with assms show "tool \<in> set (map ts_name mvp_tool_specs)" "tool \<noteq> lit ''bash''" "\<not> is_browser_optional_tool_name tool"
    by (auto simp: list_all_iff)
qed

text \<open>A tool of the table needs no more than the read-only mode, is one of those the enforcer is never asked about, is
  \<open>bash\<close>, or is stopped by the dispatch.\<close>

lemma table_tools:
  assumes "s \<in> set (mvp_tool_specs @ [spec_BrowserObserve, spec_BrowserInteract])"
  shows "ts_permission s = ReadOnly \<or> ts_name s \<in> set privileged_unchecked \<or> ts_name s = lit ''bash''
    \<or> ts_name s \<in> set checked_tools \<or> is_browser_optional_tool_name (ts_name s)"
proof -
  have "list_all (\<lambda>s. ts_permission s = ReadOnly \<or> ts_name s \<in> set privileged_unchecked \<or> ts_name s = lit ''bash''
      \<or> ts_name s \<in> set checked_tools \<or> is_browser_optional_tool_name (ts_name s))
      (mvp_tool_specs @ [spec_BrowserObserve, spec_BrowserInteract])"
    by (simp add: mvp_tool_specs_def checked_tools_def privileged_unchecked_def is_browser_optional_tool_name_def
        BROWSER_OBSERVE_TOOL_NAME_def BROWSER_INTERACT_TOOL_NAME_def)
  with assms show ?thesis unfolding list_all_iff by blast
qed

lemma check_stops:
  assumes "active_mode (policy e) \<noteq> Prompt" "\<not> mode_covers (active_mode (policy e)) need" "need \<noteq> ReadOnly"
    and "required_mode_for (policy e) tool = need" "tool \<noteq> lit ''bash''"
    and "tool \<in> {lit ''write_file'', lit ''edit_file''} \<longrightarrow> need = WorkspaceWrite"
  shows "isl (maybe_enforce_permission_check h (Some e) p tool None inp)"
proof (cases "tool = lit ''write_file'' \<or> tool = lit ''edit_file''")
  case True
  then have "need = WorkspaceWrite" using assms(6) by blast
  then have "active_mode (policy e) = ReadOnly" using assms(1,2) by (cases "active_mode (policy e)") (simp_all add: mode_covers_def)
  then show ?thesis using True
    by (cases "th_cwd h") (auto simp: maybe_enforce_permission_check_def check_file_write_def denied_to_err_def)
next
  case False
  have "enforcer_check e tool (th_json h inp) \<noteq> Allowed"
    using assms by (simp add: enforcer_check_iff auto_allows_covers)
  then show ?thesis using False assms(5)
    by (cases "enforcer_check e tool (th_json h inp)") (auto simp: maybe_enforce_permission_check_def denied_to_err_def)
qed


definition demo_host :: "nat ToolHost" where
  "demo_host =
     \<lparr>th_bash_input = (\<lambda>_. Inl []), th_run_bash = (\<lambda>_ _ w. (Inr [], w + 1)), th_run_browser = (\<lambda>_ _ _ w. (Inr [], w + 1)),
      th_run = (\<lambda>_ _ w. (Inr [], w + 1)), th_plugin = (\<lambda>_ _ w. (Inr [], w + 1)), th_cwd = Inr (lit ''/w''),
      th_canon = (\<lambda>p. Some p), th_json = (\<lambda>_. [])\<rparr>"

definition read_only_registry :: GlobalToolRegistry where
  "read_only_registry = with_enforcer GlobalToolRegistry_builtin \<lparr>policy = PermissionPolicy_new ReadOnly\<rparr>"


section \<open>Plugin tools\<close>

definition plugin_tool :: "string \<Rightarrow> PluginTool" where
  "plugin_tool n =
     \<lparr>pt_plugin_id = lit ''p'', pt_plugin_name = lit ''p'',
      pt_definition = \<lparr>td_name = lit n, td_description = None, td_schema = VNull\<rparr>, pt_command = lit ''c'', pt_args = [],
      pt_permission = PluginDangerFullAccess, pt_root = None\<rparr>"

lemmas name_evals = normalize_tool_name_def lit_def trim_def trim_by_def trim_start_by_def trim_end_by_def is_ws_def
  replace_str_def starts_with_def to_ascii_lowercase_def ascii_lower_char_def

text \<open>
  A plugin may offer a tool named \<open>read-file\<close>: its name is no built-in name, so the registry takes it, but it
  normalises to one, and a user who allows \<open>read_file\<close> is given the plugin's tool in its place.
\<close>

theorem plugin_tool_shadows_builtin:
  "\<exists>r. with_plugin_tools [plugin_tool ''read-file''] = Inr r
     \<and> normalize_allowed_tools r [lit ''read_file''] = Inr (Some [lit ''read-file''])"
proof -
  let ?r = "\<lparr>gr_plugin_tools = [plugin_tool ''read-file''], gr_enforcer = None, gr_bash_policy = None,
            gr_browser_control = default_browser_control\<rparr>"
  have n: "plugin_tool_name (plugin_tool ''read-file'') = lit ''read-file''"
    by (simp add: plugin_tool_name_def plugin_tool_def)
  have reg: "with_plugin_tools [plugin_tool ''read-file''] = Inr ?r"
    unfolding with_plugin_tools_def tool_names by (simp add: n)
  have norm: "normalize_tool_name (lit ''read-file'') = lit ''read_file''"
    and norm2: "normalize_tool_name (lit ''read_file'') = lit ''read_file''"
    by (simp_all add: name_evals)
  have tokens: "allowed_tool_tokens [lit ''read_file''] = [lit ''read_file'']"
    by (simp add: allowed_tool_tokens_def split_by_def lit_def is_ws_def)
  have names: "canonical_names ?r = map ts_name mvp_tool_specs @ [lit ''read-file'']"
    by (simp add: canonical_names_def n enabled_optional_builtin_specs_def default_browser_control_def)
  have "bt_get (tool_name_map ?r) (lit ''read_file'') = Some (lit ''read-file'')"
    by (simp add: tool_name_map_def names tool_aliases_def bt_get_insert norm)
  moreover have "normalize_tool_name BROWSER_OBSERVE_TOOL_NAME \<noteq> lit ''read_file''"
    "normalize_tool_name BROWSER_INTERACT_TOOL_NAME \<noteq> lit ''read_file''"
    by (simp_all add: name_evals BROWSER_OBSERVE_TOOL_NAME_def BROWSER_INTERACT_TOOL_NAME_def)
  ultimately have "resolve_allowed_tool ?r (lit ''read_file'') = Inr (lit ''read-file'')"
    by (simp add: resolve_allowed_tool_def norm2)
  then have "normalize_allowed_tools ?r [lit ''read_file''] = Inr (Some [lit ''read-file''])"
    by (simp add: normalize_allowed_tools_def tokens btree_set_def)
  with reg show ?thesis by blast
qed

section \<open>Sub-agents\<close>

lemma foldl_requirement:
  "required_mode_for (foldl (\<lambda>p s. with_tool_requirement p (ts_name s) (ts_permission s)) p specs) n =
     (case map_of (rev (map (\<lambda>s. (ts_name s, ts_permission s)) specs)) n of Some m \<Rightarrow> m | None \<Rightarrow> required_mode_for p n)"
proof (induction specs arbitrary: p)
  case (Cons s specs)
  then show ?case by (simp add: map_add_def split: option.splits)
qed simp

lemma agent_policy_table:
  assumes "s \<in> set mvp_tool_specs"
  shows "required_mode_for agent_permission_policy (ts_name s) = ts_permission s"
proof -
  let ?ps = "map (\<lambda>s. (ts_name s, ts_permission s)) mvp_tool_specs"
  have "distinct (map fst ?ps)" using distinct_tool_names by (simp add: comp_def)
  moreover have "(ts_name s, ts_permission s) \<in> set ?ps" using assms by auto
  ultimately have "map_of (rev ?ps) (ts_name s) = Some (ts_permission s)"
    by (simp only: map_of_rev_distinct map_of_eq_Some_iff)
  then show ?thesis by (simp only: agent_permission_policy_def foldl_requirement option.simps)
qed

lemma list_all_btree_set [simp]: "list_all P (btree_set xs) \<longleftrightarrow> list_all P xs"
  by (simp add: list_all_iff)

definition subagent_kinds :: "rstr list" where
  "subagent_kinds = map lit [''Explore'', ''Plan'', ''Verification'', ''openyak-guide'', ''statusline-setup'', ''general-purpose'']"

lemma subagent_kind_cases:
  "\<exists>k \<in> set subagent_kinds. allowed_tools_for_subagent t = allowed_tools_for_subagent k"
  by (cases "t \<in> set (butlast subagent_kinds)") (auto simp: subagent_kinds_def allowed_tools_for_subagent_def)

text \<open>
  Whatever type a sub-agent is given, its tools are tools of the table and none of them starts an agent, a task,
  a team, a schedule or a session or reaches an MCP server; the tools of \<open>Explore\<close> and \<open>openyak-guide\<close> need only the
  read-only mode.
\<close>

theorem subagents_cannot_delegate:
  "set (allowed_tools_for_subagent t) \<subseteq> set (map ts_name mvp_tool_specs)
       - set (map lit [''Agent'', ''TaskCreate'', ''TeamCreate'', ''CronCreate'', ''SessionCreate'', ''SessionSend'', ''MCP''])
   \<and> set (map (required_mode_for agent_permission_policy)
        (allowed_tools_for_subagent (lit ''Explore'') @ allowed_tools_for_subagent (lit ''openyak-guide''))) = {ReadOnly}"
proof
  obtain k where k: "k \<in> set subagent_kinds" "allowed_tools_for_subagent t = allowed_tools_for_subagent k"
    using subagent_kind_cases by blast
  have all: "list_all (\<lambda>k. list_all (\<lambda>n. n \<in> set (map ts_name mvp_tool_specs) - set (map lit [''Agent'', ''TaskCreate'',
      ''TeamCreate'', ''CronCreate'', ''SessionCreate'', ''SessionSend'', ''MCP''])) (allowed_tools_for_subagent k)) subagent_kinds"
    unfolding tool_names by (simp add: subagent_kinds_def allowed_tools_for_subagent_def)
  show "set (allowed_tools_for_subagent t) \<subseteq> set (map ts_name mvp_tool_specs)
       - set (map lit [''Agent'', ''TaskCreate'', ''TeamCreate'', ''CronCreate'', ''SessionCreate'', ''SessionSend'', ''MCP''])"
    using all[unfolded list_all_iff, rule_format, OF k(1)] unfolding k(2) by (rule subsetI)
  have "list_all (\<lambda>s. s \<in> set mvp_tool_specs \<and> ts_permission s = ReadOnly) [spec_read_file, spec_glob_search,
      spec_grep_search, spec_WebFetch, spec_WebSearch, spec_ToolSearch, spec_Skill, spec_StructuredOutput, spec_SendUserMessage]"
    by (simp add: mvp_tool_specs_def)
  then have "list_all (\<lambda>s. required_mode_for agent_permission_policy (ts_name s) = ReadOnly) [spec_read_file, spec_glob_search,
      spec_grep_search, spec_WebFetch, spec_WebSearch, spec_ToolSearch, spec_Skill, spec_StructuredOutput, spec_SendUserMessage]"
    by (simp only: list.pred_inject agent_policy_table)
  then show "set (map (required_mode_for agent_permission_policy)
        (allowed_tools_for_subagent (lit ''Explore'') @ allowed_tools_for_subagent (lit ''openyak-guide''))) = {ReadOnly}"
    by (simp add: allowed_tools_for_subagent_def)
qed

end
