(* ===== verification/Provider_Client.thy ===== *)
theory Provider_Client
  imports Tool_Registry Conversation
begin

text \<open>
  The model client behind a conversation (\<open>ProviderRuntimeClient\<close> of \<open>tools/src/lib.rs\<close>) with the messages of
  \<open>api/src/types.rs\<close>: the request made from a conversation, the events of a stream turned into the events of the
  runtime, and the answer asked for again when the stream brought none.

  The service is a pair of calls over a world \<open>'w\<close>; a stream is the list of its events and the error that ended
  it, if one did. \<open>serde_json\<close> reads and writes the inputs of tools.
\<close>

section \<open>The messages of the API\<close>

datatype ToolResultContentBlock = ResultText rstr | ResultJson Value

datatype InputContentBlock =
    InText rstr
  | InToolUse rstr rstr Value
  | InToolResult rstr "ToolResultContentBlock list" bool

record InputMessage =
  im_role :: rstr
  im_content :: "InputContentBlock list"

definition InputMessage_user_text :: "rstr \<Rightarrow> InputMessage" where
  "InputMessage_user_text t = \<lparr>im_role = lit ''user'', im_content = [InText t]\<rparr>"

definition InputMessage_user_tool_result :: "rstr \<Rightarrow> rstr \<Rightarrow> bool \<Rightarrow> InputMessage" where
  "InputMessage_user_tool_result i c err =
     \<lparr>im_role = lit ''user'', im_content = [InToolResult i [ResultText c] err]\<rparr>"

datatype ToolChoice = ChoiceAuto | ChoiceAny | ChoiceTool rstr

record MessageRequest =
  mr_model :: rstr
  mr_max_tokens :: u32
  mr_messages :: "InputMessage list"
  mr_system :: "rstr option"
  mr_tools :: "ToolDefinition list option"
  mr_tool_choice :: "ToolChoice option"
  mr_stream :: bool

definition with_streaming :: "MessageRequest \<Rightarrow> MessageRequest" where
  "with_streaming r = r\<lparr>mr_stream := True\<rparr>"

datatype OutputContentBlock =
    OutText rstr
  | OutToolUse rstr rstr Value
  | OutThinking rstr "rstr option"
  | OutRedactedThinking Value

record ApiUsage =
  au_input_tokens :: u32
  au_cache_creation_input_tokens :: u32
  au_cache_read_input_tokens :: u32
  au_output_tokens :: u32

record MessageResponse =
  resp_id :: rstr
  resp_kind :: rstr
  resp_role :: rstr
  resp_content :: "OutputContentBlock list"
  resp_model :: rstr
  resp_stop_reason :: "rstr option"
  resp_stop_sequence :: "rstr option"
  resp_usage :: ApiUsage
  resp_request_id :: "rstr option"

record MessageDelta =
  md_stop_reason :: "rstr option"
  md_stop_sequence :: "rstr option"

datatype ContentBlockDelta =
    DeltaText rstr
  | DeltaInputJson rstr
  | DeltaThinking rstr
  | DeltaSignature rstr

datatype StreamEvent =
    StreamMessageStart MessageResponse
  | StreamMessageDelta MessageDelta ApiUsage
  | StreamBlockStart u32 OutputContentBlock
  | StreamBlockDelta u32 ContentBlockDelta
  | StreamBlockStop u32
  | StreamMessageStop

section \<open>The request\<close>

record RequestUserInputToolPayload =
  rp_request_id :: "rstr option"
  rp_prompt :: rstr
  rp_options :: "rstr list"
  rp_allow_freeform :: bool

record SerdeText =
  sd_parse :: "rstr \<Rightarrow> rstr + Value"
  sd_show :: "Value \<Rightarrow> rstr"
  sd_payload :: "rstr \<Rightarrow> rstr + RequestUserInputToolPayload"

definition REQUEST_USER_INPUT_TOOL_NAME :: rstr where
  "REQUEST_USER_INPUT_TOOL_NAME = lit ''openyak_request_user_input''"

definition request_user_input_tool_definition :: ToolDefinition where
  "request_user_input_tool_definition =
     \<lparr>td_name = REQUEST_USER_INPUT_TOOL_NAME,
      td_description = Some (lit ''Pause the current turn and ask the local human for structured input before ''
        @ lit ''continuing.''),
      td_schema = typed ''object''
        [(''properties'', json_object
           [(''request_id'', typed ''string'' []), (''prompt'', typed ''string'' []),
            (''options'', typed ''array'' [(''items'', typed ''string'' [])]),
            (''allow_freeform'', typed ''boolean'' [])]),
         (''required'', strings [''request_id'', ''prompt'', ''allow_freeform'']),
         (''additionalProperties'', VBool False)]\<rparr>"

definition parse_request_user_input_request :: "SerdeText \<Rightarrow> rstr \<Rightarrow> rstr \<Rightarrow> RuntimeError + UserInputRequest" where
  "parse_request_user_input_request sd i inp =
     (case sd_payload sd inp of
        Inl e \<Rightarrow> Inl (RuntimeError_new (lit ''invalid request-user-input payload: '' @ e))
      | Inr p \<Rightarrow>
          if trim (rp_prompt p) = [] then
            Inl (RuntimeError_new (lit ''request-user-input payload must include a non-empty prompt''))
          else
            Inr \<lparr>request_id = unwrap_or i (rp_request_id p), req_text = rp_prompt p, options = rp_options p,
                 allow_freeform = rp_allow_freeform p\<rparr>)"

fun convert_block :: "SerdeText \<Rightarrow> ContentBlock \<Rightarrow> InputContentBlock" where
  "convert_block sd (Text t) = InText t"
| "convert_block sd (ToolUse i n inp) =
     InToolUse i n (case sd_parse sd inp of Inr v \<Rightarrow> v | Inl _ \<Rightarrow> json_object [(''raw'', VString inp)])"
| "convert_block sd (ToolResult i n out err) = InToolResult i [ResultText out] err"
| "convert_block sd (UserInputRequest i p opts free) =
     InToolUse i REQUEST_USER_INPUT_TOOL_NAME
       (json_object [(''request_id'', VString i), (''prompt'', VString p), (''options'', json_strings opts),
                     (''allow_freeform'', VBool free)])"
| "convert_block sd (UserInputResponse i c sel) =
     InToolResult i
       [ResultJson (json_object [(''request_id'', VString i), (''content'', VString c),
                                 (''selected_option'', json_opt VString sel)])] False"

definition convert_message :: "SerdeText \<Rightarrow> ConversationMessage \<Rightarrow> InputMessage option" where
  "convert_message sd m =
     (let content = map (convert_block sd) (blocks m) in
      if content = [] then None
      else Some \<lparr>im_role = (if role m = Assistant then lit ''assistant'' else lit ''user''), im_content = content\<rparr>)"

definition convert_messages :: "SerdeText \<Rightarrow> ConversationMessage list \<Rightarrow> InputMessage list" where
  "convert_messages sd ms = List.map_filter (convert_message sd) ms"

definition tool_specs_for_allowed_tools :: "rstr list option \<Rightarrow> ToolSpec list" where
  "tool_specs_for_allowed_tools allowed = filter (\<lambda>s. allowed_or_all allowed (ts_name s)) mvp_tool_specs"

section \<open>The answer\<close>

type_synonym pending_tools = "(u32 \<times> rstr \<times> rstr \<times> rstr) list"

definition push_output_block ::
  "SerdeText \<Rightarrow> OutputContentBlock \<Rightarrow> u32 \<Rightarrow> bool \<Rightarrow> AssistantEvent list \<times> pending_tools
     \<Rightarrow> AssistantEvent list \<times> pending_tools" where
  "push_output_block sd b i streaming st =
     (case st of (events, pending) \<Rightarrow>
      case b of
        OutText t \<Rightarrow> (if t \<noteq> [] then events @ [TextDelta t] else events, pending)
      | OutToolUse tid n inp \<Rightarrow>
          (events, bt_insert i (tid, n, if streaming \<and> inp = VObject [] then [] else sd_show sd inp) pending)
      | OutThinking _ _ \<Rightarrow> st
      | OutRedactedThinking _ \<Rightarrow> st)"

definition parse_pending_output_block :: "SerdeText \<Rightarrow> rstr \<Rightarrow> rstr \<Rightarrow> rstr \<Rightarrow> RuntimeError + AssistantEvent" where
  "parse_pending_output_block sd i n inp =
     (if n = REQUEST_USER_INPUT_TOOL_NAME then
        map_sum id RequestUserInput (parse_request_user_input_request sd i inp)
      else Inr (ToolUseEvent i n inp))"

definition remove_pending :: "u32 \<Rightarrow> pending_tools \<Rightarrow> pending_tools" where
  "remove_pending i pending = filter (\<lambda>(j, _). j \<noteq> i) pending"

definition usage_of_api :: "ApiUsage \<Rightarrow> TokenUsage" where
  "usage_of_api u =
     \<lparr>input_tokens = au_input_tokens u, output_tokens = au_output_tokens u,
      cache_creation_input_tokens = au_cache_creation_input_tokens u,
      cache_read_input_tokens = au_cache_read_input_tokens u\<rparr>"

text \<open>\<open>response_to_events\<close>: a block that is a tool call is emitted at once. A response has fewer than \<open>2^32\<close> blocks.\<close>

fun response_blocks ::
  "SerdeText \<Rightarrow> nat \<Rightarrow> OutputContentBlock list \<Rightarrow> AssistantEvent list \<times> pending_tools
     \<Rightarrow> RuntimeError + AssistantEvent list" where
  "response_blocks sd i [] st = Inr (fst st)"
| "response_blocks sd i (b # bs) st =
     (case push_output_block sd b (of_nat i) False st of (events, pending) \<Rightarrow>
      case bt_get pending (of_nat i) of
        None \<Rightarrow> response_blocks sd (i + 1) bs (events, pending)
      | Some (tid, n, inp) \<Rightarrow>
          res_bind (parse_pending_output_block sd tid n inp) (\<lambda>e.
            response_blocks sd (i + 1) bs (events @ [e], remove_pending (of_nat i) pending)))"

definition response_to_events :: "SerdeText \<Rightarrow> MessageResponse \<Rightarrow> RuntimeError + AssistantEvent list" where
  "response_to_events sd r =
     map_sum id (\<lambda>events. events @ [UsageEvent (usage_of_api (resp_usage r)), MessageStop])
       (response_blocks sd 0 (resp_content r) ([], []))"

record StreamState =
  ss_events :: "AssistantEvent list"
  ss_pending :: pending_tools
  ss_saw_stop :: bool

definition StreamState_new :: StreamState where
  "StreamState_new = \<lparr>ss_events = [], ss_pending = [], ss_saw_stop = False\<rparr>"

definition push_streamed :: "SerdeText \<Rightarrow> OutputContentBlock \<Rightarrow> u32 \<Rightarrow> StreamState \<Rightarrow> StreamState" where
  "push_streamed sd b i st =
     (case push_output_block sd b i True (ss_events st, ss_pending st) of (events, pending) \<Rightarrow>
        st\<lparr>ss_events := events, ss_pending := pending\<rparr>)"

definition emit :: "AssistantEvent \<Rightarrow> StreamState \<Rightarrow> StreamState" where
  "emit e st = st\<lparr>ss_events := ss_events st @ [e]\<rparr>"

fun stream_event :: "SerdeText \<Rightarrow> StreamEvent \<Rightarrow> StreamState \<Rightarrow> RuntimeError + StreamState" where
  "stream_event sd (StreamMessageStart m) st = Inr (fold (\<lambda>b. push_streamed sd b 0) (resp_content m) st)"
| "stream_event sd (StreamBlockStart i b) st = Inr (push_streamed sd b i st)"
| "stream_event sd (StreamBlockDelta i (DeltaText t)) st = Inr (if t \<noteq> [] then emit (TextDelta t) st else st)"
| "stream_event sd (StreamBlockDelta i (DeltaInputJson j)) st =
     Inr (case bt_get (ss_pending st) i of
            None \<Rightarrow> st
          | Some (tid, n, inp) \<Rightarrow> st\<lparr>ss_pending := bt_insert i (tid, n, inp @ j) (ss_pending st)\<rparr>)"
| "stream_event sd (StreamBlockDelta i (DeltaThinking t)) st = Inr st"
| "stream_event sd (StreamBlockDelta i (DeltaSignature t)) st = Inr st"
| "stream_event sd (StreamBlockStop i) st =
     (case bt_get (ss_pending st) i of
        None \<Rightarrow> Inr st
      | Some (tid, n, inp) \<Rightarrow>
          map_sum id (\<lambda>e. emit e (st\<lparr>ss_pending := remove_pending i (ss_pending st)\<rparr>))
            (parse_pending_output_block sd tid n inp))"
| "stream_event sd (StreamMessageDelta d u) st =
     Inr (emit (UsageEvent \<lparr>input_tokens = au_input_tokens u, output_tokens = au_output_tokens u,
                            cache_creation_input_tokens = 0, cache_read_input_tokens = 0\<rparr>) st)"
| "stream_event sd StreamMessageStop st = Inr (emit MessageStop (st\<lparr>ss_saw_stop := True\<rparr>))"

fun stream_events :: "SerdeText \<Rightarrow> StreamEvent list \<Rightarrow> StreamState \<Rightarrow> RuntimeError + StreamState" where
  "stream_events sd [] st = Inr st"
| "stream_events sd (e # es) st = res_bind (stream_event sd e st) (stream_events sd es)"

fun carries_content :: "AssistantEvent \<Rightarrow> bool" where
  "carries_content (TextDelta t) = (t \<noteq> [])"
| "carries_content (ToolUseEvent i n inp) = True"
| "carries_content (RequestUserInput r) = True"
| "carries_content _ = False"

definition close_stream :: "StreamState \<Rightarrow> AssistantEvent list" where
  "close_stream st =
     (if \<not> ss_saw_stop st \<and> list_ex carries_content (ss_events st) then ss_events st @ [MessageStop]
      else ss_events st)"

record 'w ApiService =
  as_stream :: "MessageRequest \<Rightarrow> 'w \<Rightarrow> (rstr + StreamEvent list \<times> rstr option) \<times> 'w"
  as_send :: "MessageRequest \<Rightarrow> 'w \<Rightarrow> (rstr + MessageResponse) \<times> 'w"

record ProviderRuntimeClient =
  pc_model :: rstr
  pc_allowed_tools :: "rstr list"

definition provider_request :: "SerdeText \<Rightarrow> (rstr \<Rightarrow> u32) \<Rightarrow> ProviderRuntimeClient \<Rightarrow> ApiRequest \<Rightarrow> MessageRequest" where
  "provider_request sd max_tokens c r =
     \<lparr>mr_model = pc_model c, mr_max_tokens = max_tokens (pc_model c),
      mr_messages = convert_messages sd (api_messages r),
      mr_system = (if api_system_prompt r = [] then None else Some (join [10, 10] (api_system_prompt r))),
      mr_tools = Some (map definition_of_spec (tool_specs_for_allowed_tools (Some (pc_allowed_tools c)))
                       @ [request_user_input_tool_definition]),
      mr_tool_choice = Some ChoiceAuto, mr_stream = True\<rparr>"

definition provider_stream ::
  "SerdeText \<Rightarrow> (rstr \<Rightarrow> u32) \<Rightarrow> 'w ApiService \<Rightarrow> ProviderRuntimeClient \<Rightarrow> ApiRequest \<Rightarrow> 'w
     \<Rightarrow> (RuntimeError + AssistantEvent list) \<times> 'w" where
  "provider_stream sd max_tokens api c r w =
     (let request = provider_request sd max_tokens c r in
      case as_stream api request w of
        (Inl e, w1) \<Rightarrow> (Inl (RuntimeError_new e), w1)
      | (Inr (es, failed), w1) \<Rightarrow>
          (case stream_events sd es StreamState_new of
             Inl e \<Rightarrow> (Inl e, w1)
           | Inr st \<Rightarrow>
               (case failed of
                  Some e \<Rightarrow> (Inl (RuntimeError_new e), w1)
                | None \<Rightarrow>
                    let events = close_stream st in
                    if MessageStop \<in> set events then (Inr events, w1)
                    else
                      (case as_send api (request\<lparr>mr_stream := False\<rparr>) w1 of
                         (Inl e, w2) \<Rightarrow> (Inl (RuntimeError_new e), w2)
                       | (Inr resp, w2) \<Rightarrow> (response_to_events sd resp, w2)))))"

fun block_text :: "ContentBlock \<Rightarrow> rstr" where
  "block_text (Text t) = t"
| "block_text _ = []"

definition final_assistant_text :: "TurnSummary \<Rightarrow> rstr" where
  "final_assistant_text s =
     (if assistant_messages s = [] then [] else concat (map block_text (blocks (last (assistant_messages s)))))"

definition format_agent_terminal_output :: "rstr \<Rightarrow> rstr option \<Rightarrow> rstr option \<Rightarrow> rstr" where
  "format_agent_terminal_output status result err =
     (let shown = (\<lambda>title v. case v of
            Some s \<Rightarrow> (if trim s = [] then [] else [10] @ title @ [10, 10] @ trim s @ [10])
          | None \<Rightarrow> []) in
      [10] @ lit ''## Result'' @ [10, 10] @ lit ''- status: '' @ status @ [10]
      @ shown (lit ''### Final response'') result @ shown (lit ''### Error'') err)"

end
