(* ===== verification/Provider_Client_Props.thy ===== *)
theory Provider_Client_Props
  imports Provider_Client Tool_Registry_Props
begin
text \<open>
  What the theorems on the model client show: an answer that is streamed block by block becomes the same
  assistant message as the answer sent at once, and a tool call without arguments is the exception.
\<close>

section \<open>Streaming a response\<close>

text \<open>
  How a service delivers one block: a start that carries the first part, the parts that follow, and a stop. The
  input of a tool starts as the empty object and follows as text: any text that \<open>serde_json\<close> reads as the value,
  with the members in any order and blanks anywhere. The payload of a request for user input is read from the text
  as it is from the value written out again.
\<close>

inductive delivers :: "SerdeText \<Rightarrow> u32 \<Rightarrow> OutputContentBlock \<Rightarrow> StreamEvent list \<Rightarrow> bool" for sd i where
  delivers_text: "delivers sd i (OutText (t @ concat ts))
     (StreamBlockStart i (OutText t) # map (\<lambda>d. StreamBlockDelta i (DeltaText d)) ts @ [StreamBlockStop i])"
| delivers_tool: "sd_parse sd (concat js) = Inr v \<Longrightarrow>
     (n = REQUEST_USER_INPUT_TOOL_NAME \<longrightarrow> sd_payload sd (concat js) = sd_payload sd (sd_show sd v)) \<Longrightarrow>
     delivers sd i (OutToolUse tid n v)
     (StreamBlockStart i (OutToolUse tid n (VObject [])) # map (\<lambda>j. StreamBlockDelta i (DeltaInputJson j)) js
       @ [StreamBlockStop i])"
| delivers_thinking: "delivers sd i (OutThinking t s)
     (StreamBlockStart i (OutThinking t0 s0) # map (\<lambda>d. StreamBlockDelta i (DeltaThinking d)) ts
       @ map (\<lambda>d. StreamBlockDelta i (DeltaSignature d)) ss @ [StreamBlockStop i])"

inductive delivers_all :: "SerdeText \<Rightarrow> nat \<Rightarrow> OutputContentBlock list \<Rightarrow> StreamEvent list \<Rightarrow> bool" for sd where
  no_block: "delivers_all sd i [] []"
| next_block: "delivers sd (of_nat i) b es \<Longrightarrow> delivers_all sd (i + 1) bs fs \<Longrightarrow> delivers_all sd i (b # bs) (es @ fs)"

text \<open>Two lists of events read the same when every message is assembled alike from them.\<close>

definition read_alike :: "AssistantEvent list \<Rightarrow> AssistantEvent list \<Rightarrow> bool" where
  "read_alike es fs \<longleftrightarrow> (\<forall>t bs fin u. assemble t bs fin u es = assemble t bs fin u fs)"

lemma assemble_app:
  "assemble t bs fin u (es @ fs) = (case assemble t bs fin u es of (t', bs', fin', u') \<Rightarrow> assemble t' bs' fin' u' fs)"
  by (induction t bs fin u es rule: assemble.induct) simp_all

lemma read_alike_refl [simp]: "read_alike es es"
  by (simp add: read_alike_def)

lemma read_alike_append: "read_alike a b \<Longrightarrow> read_alike c d \<Longrightarrow> read_alike (a @ c) (b @ d)"
  by (simp add: read_alike_def assemble_app)

lemma assemble_texts:
  "assemble t bs fin u (map TextDelta (filter (\<lambda>x. x \<noteq> []) ts)) = (t @ concat ts, bs, fin, u)"
  by (induction ts arbitrary: t) auto

lemma read_alike_texts:
  "read_alike (map TextDelta (filter (\<lambda>x. x \<noteq> []) ts)) (if concat ts = [] then [] else [TextDelta (concat ts)])"
  by (simp add: read_alike_def assemble_texts)

lemma read_alike_message: "read_alike es fs \<Longrightarrow> build_assistant_message es = build_assistant_message fs"
  by (simp add: read_alike_def build_assistant_message_def)

text \<open>
  A stream keeps the input of a call as the text it came in; a response gives the value, which is written out. The
  text of a call read and written again: what is no JSON is wrapped as \<open>raw\<close>, as in the next request.
\<close>

definition reread_input :: "SerdeText \<Rightarrow> rstr \<Rightarrow> rstr" where
  "reread_input sd inp =
     sd_show sd (case sd_parse sd inp of Inr v \<Rightarrow> v | Inl _ \<Rightarrow> json_object [(''raw'', VString inp)])"

fun reread_block :: "SerdeText \<Rightarrow> ContentBlock \<Rightarrow> ContentBlock" where
  "reread_block sd (ToolUse i n inp) = ToolUse i n (reread_input sd inp)"
| "reread_block sd b = b"

definition reread_answer ::
  "SerdeText \<Rightarrow> ConversationMessage \<times> TokenUsage option \<Rightarrow> ConversationMessage \<times> TokenUsage option" where
  "reread_answer sd a = (case a of (m, u) \<Rightarrow> (m\<lparr>blocks := map (reread_block sd) (blocks m)\<rparr>, u))"

fun reread_event :: "SerdeText \<Rightarrow> AssistantEvent \<Rightarrow> AssistantEvent" where
  "reread_event sd (ToolUseEvent i n inp) = ToolUseEvent i n (reread_input sd inp)"
| "reread_event sd e = e"

lemma flush_reread: "map (reread_block sd) (flush_text_block t bs) = flush_text_block t (map (reread_block sd) bs)"
  by (simp add: flush_text_block_def)

lemma assemble_reread:
  "assemble t (map (reread_block sd) bs) fin u (map (reread_event sd) es) =
     (case assemble t bs fin u es of (t', bs', fin', u') \<Rightarrow> (t', map (reread_block sd) bs', fin', u'))"
proof (induction t bs fin u es rule: assemble.induct)
  case (3 t bs fin u i n inp es)
  then show ?case by (simp add: flush_reread[symmetric])
next
  case (4 t bs fin u r es)
  then show ?case by (simp add: flush_reread[symmetric])
qed simp_all

lemma build_reread:
  "build_assistant_message (map (reread_event sd) es) = map_sum id (reread_answer sd) (build_assistant_message es)"
proof -
  obtain t bs fin u where a: "assemble [] [] False None es = (t, bs, fin, u)" by (cases "assemble [] [] False None es")
  then have "assemble [] [] False None (map (reread_event sd) es) = (t, map (reread_block sd) bs, fin, u)"
    using assemble_reread[of "[]" sd "[]" False None es] by simp
  then show ?thesis using a
    by (simp add: build_assistant_message_def Let_def flush_reread[symmetric] reread_answer_def assistant_with_usage_def)
qed

text \<open>The event of a call read from its text, and from the value written out.\<close>

lemma pending_reread:
  assumes "n = REQUEST_USER_INPUT_TOOL_NAME \<longrightarrow> sd_payload sd inp = sd_payload sd (reread_input sd inp)"
  shows "parse_pending_output_block sd i n (reread_input sd inp) =
    map_sum id (reread_event sd) (parse_pending_output_block sd i n inp)"
  using assms
  by (auto simp: parse_pending_output_block_def parse_request_user_input_request_def split: sum.split)

lemma reread_texts [simp]: "map (reread_event sd) (map TextDelta ts) = map TextDelta ts"
  by simp

section \<open>One block\<close>

lemma stream_events_append:
  "stream_events sd (es @ fs) st = res_bind (stream_events sd es st) (stream_events sd fs)"
proof (induction es arbitrary: st)
  case (Cons e es)
  then show ?case by (cases "stream_event sd e st") auto
qed simp

lemma stream_texts:
  "stream_events sd (map (\<lambda>d. StreamBlockDelta i (DeltaText d)) ts) st =
     Inr (st\<lparr>ss_events := ss_events st @ map TextDelta (filter (\<lambda>x. x \<noteq> []) ts)\<rparr>)"
  by (induction ts arbitrary: st) (auto simp: emit_def)

lemma stream_inputs:
  "stream_events sd (map (\<lambda>j. StreamBlockDelta i (DeltaInputJson j)) js) (st\<lparr>ss_pending := [(i, tid, n, inp)]\<rparr>) =
     Inr (st\<lparr>ss_pending := [(i, tid, n, inp @ concat js)]\<rparr>)"
  by (induction js arbitrary: inp) auto

lemma stream_thoughts:
  "stream_events sd (map (\<lambda>d. StreamBlockDelta i (DeltaThinking d)) ts) st = Inr st"
  "stream_events sd (map (\<lambda>d. StreamBlockDelta i (DeltaSignature d)) ss) st = Inr st"
  by (induction ts; simp) (induction ss; simp)

text \<open>The events a block stands for, or the error of its input.\<close>

fun block_events :: "SerdeText \<Rightarrow> OutputContentBlock \<Rightarrow> RuntimeError + AssistantEvent list" where
  "block_events sd (OutText t) = Inr (if t = [] then [] else [TextDelta t])"
| "block_events sd (OutToolUse i n v) = map_sum id (\<lambda>e. [e]) (parse_pending_output_block sd i n (sd_show sd v))"
| "block_events sd (OutThinking t s) = Inr []"
| "block_events sd (OutRedactedThinking v) = Inr []"

lemma response_blocks_step:
  "response_blocks sd i (b # bs) (events, []) =
     res_bind (block_events sd b) (\<lambda>es. response_blocks sd (i + 1) bs (events @ es, []))"
proof (cases b)
  case (OutToolUse tid n v)
  then show ?thesis
    by (cases "parse_pending_output_block sd tid n (sd_show sd v)") (simp_all add: push_output_block_def remove_pending_def)
qed (simp_all add: push_output_block_def)

lemma delivers_step:
  assumes "delivers sd i b es" and p: "ss_pending st = []"
  shows "(\<exists>e. block_events sd b = Inl e \<and> stream_events sd es st = Inl e)
    \<or> (\<exists>fs gs. block_events sd b = Inr fs \<and> read_alike (map (reread_event sd) gs) fs
         \<and> stream_events sd es st = Inr (st\<lparr>ss_events := ss_events st @ gs\<rparr>))"
  using assms(1)
proof cases
  case (delivers_text t ts)
  have st: "st\<lparr>ss_pending := []\<rparr> = st" using p by simp
  have "stream_events sd es st = Inr (st\<lparr>ss_events := ss_events st @ map TextDelta (filter (\<lambda>x. x \<noteq> []) (t # ts))\<rparr>)"
    using st p by (cases st) (auto simp: delivers_text(2) stream_events_append stream_texts push_streamed_def push_output_block_def)
  moreover have "block_events sd b = Inr (if concat (t # ts) = [] then [] else [TextDelta (concat (t # ts))])"
    by (simp add: delivers_text(1))
  moreover have "read_alike (map (reread_event sd) (map TextDelta (filter (\<lambda>x. x \<noteq> []) (t # ts))))
      (if concat (t # ts) = [] then [] else [TextDelta (concat (t # ts))])"
    unfolding reread_texts by (rule read_alike_texts)
  ultimately show ?thesis by blast
next
  case (delivers_tool js v n tid)
  let ?st = "st\<lparr>ss_pending := [(i, tid, n, [])]\<rparr>" and ?inp = "concat js"
  have start: "push_streamed sd (OutToolUse tid n (VObject [])) i st = ?st"
    using p by (simp add: push_streamed_def push_output_block_def)
  have same: "st\<lparr>ss_pending := []\<rparr> = st" using p by simp
  have re: "reread_input sd ?inp = sd_show sd v" using delivers_tool(3) by (simp add: reread_input_def)
  have read: "parse_pending_output_block sd tid n (sd_show sd v) =
      map_sum id (reread_event sd) (parse_pending_output_block sd tid n ?inp)"
    using pending_reread[of n sd ?inp tid] delivers_tool(4) re by simp
  have "stream_events sd es st = map_sum id (\<lambda>e. emit e st) (parse_pending_output_block sd tid n ?inp)"
    using same by (cases "parse_pending_output_block sd tid n ?inp")
      (simp_all add: delivers_tool(2) start stream_events_append stream_inputs remove_pending_def)
  then have run: "stream_events sd es st = map_sum id (\<lambda>e. st\<lparr>ss_events := ss_events st @ [e]\<rparr>)
      (parse_pending_output_block sd tid n ?inp)" by (simp add: emit_def)
  show ?thesis
  proof (cases "parse_pending_output_block sd tid n ?inp")
    case (Inl e)
    then show ?thesis by (simp add: run delivers_tool(1) read)
  next
    case (Inr e)
    have "block_events sd b = Inr (map (reread_event sd) [e])" by (simp add: delivers_tool(1) read Inr)
    moreover have "stream_events sd es st = Inr (st\<lparr>ss_events := ss_events st @ [e]\<rparr>)" by (simp add: run Inr)
    ultimately show ?thesis using read_alike_refl by blast
  qed
next
  case (delivers_thinking t s t0 s0 ts ss)
  have "stream_events sd es st = Inr st"
    using p by (cases st) (simp add: delivers_thinking(2) stream_events_append stream_thoughts push_streamed_def push_output_block_def)
  then show ?thesis by (cases st) (auto simp: delivers_thinking(1))
qed

lemma delivers_all_blocks:
  assumes "delivers_all sd i bs es" and "ss_pending st = []"
    and "read_alike (map (reread_event sd) (ss_events st)) events"
  shows "(\<exists>e. response_blocks sd i bs (events, []) = Inl e \<and> stream_events sd es st = Inl e)
    \<or> (\<exists>fs gs. response_blocks sd i bs (events, []) = Inr fs \<and> read_alike (map (reread_event sd) gs) fs
         \<and> stream_events sd es st = Inr (st\<lparr>ss_events := gs\<rparr>))"
  using assms
proof (induction arbitrary: st events rule: delivers_all.induct)
  case (no_block i)
  have "st\<lparr>ss_events := ss_events st\<rparr> = st" by simp
  with no_block show ?case by fastforce
next
  case (next_block i b es bs fs)
  from delivers_step[OF next_block.hyps(1) next_block.prems(1)] show ?case
  proof (elim disjE exE conjE)
    fix e
    assume "block_events sd b = Inl e" and "stream_events sd es st = Inl e"
    then show ?thesis by (simp add: response_blocks_step stream_events_append del: response_blocks.simps(2))
  next
    fix f g
    assume f: "block_events sd b = Inr f" and g: "read_alike (map (reread_event sd) g) f"
      and s: "stream_events sd es st = Inr (st\<lparr>ss_events := ss_events st @ g\<rparr>)"
    let ?st = "st\<lparr>ss_events := ss_events st @ g\<rparr>"
    have "read_alike (map (reread_event sd) (ss_events ?st)) (events @ f)" using read_alike_append[OF next_block.prems(2) g] by simp
    from next_block.IH[OF _ this] next_block.prems(1) show ?thesis
      by (simp add: response_blocks_step stream_events_append f s del: response_blocks.simps(2))
  qed
qed

section \<open>The whole answer\<close>

lemma read_alike_stop: "read_alike gs fs \<Longrightarrow> read_alike (gs @ xs) (fs @ xs)"
  by (rule read_alike_append) simp_all

definition without_cached_counts :: "MessageResponse \<Rightarrow> MessageResponse" where
  "without_cached_counts r =
     r\<lparr>resp_usage := (resp_usage r)\<lparr>au_cache_creation_input_tokens := 0, au_cache_read_input_tokens := 0\<rparr>\<rparr>"

text \<open>
  C13: Streaming does not change what the model said: when the service delivers the blocks of a response one after
  the other, cuts their texts and inputs anywhere, and sends for the input of every tool some JSON text of its value,
  then the assistant message built from the stream - with the inputs of its calls read and written again - or the
  error of a malformed request for user input, is the one built from the response sent at once. The counts of
  cached tokens are lost in a stream: it reports them as zero.
\<close>

theorem streamed_answer_is_response:
  assumes stream: "as_stream api (provider_request sd mt c req) w =
      (Inr (StreamMessageStart (r\<lparr>resp_content := []\<rparr>) # es @ [StreamMessageDelta d (resp_usage r), StreamMessageStop], None), w1)"
    and blocks: "delivers_all sd 0 (resp_content r) es"
  shows "map_sum id (reread_answer sd) (res_bind (fst (provider_stream sd mt api c req w)) build_assistant_message) =
      res_bind (response_to_events sd (without_cached_counts r)) build_assistant_message"
proof -
  let ?closing = "[UsageEvent (usage_of_api (resp_usage (without_cached_counts r))), MessageStop]"
  have usage: "\<lparr>input_tokens = au_input_tokens (resp_usage r), output_tokens = au_output_tokens (resp_usage r),
      cache_creation_input_tokens = 0, cache_read_input_tokens = 0\<rparr> = usage_of_api (resp_usage (without_cached_counts r))"
    by (simp add: usage_of_api_def without_cached_counts_def)
  have content: "resp_content (without_cached_counts r) = resp_content r" by (simp add: without_cached_counts_def)
  have p: "ss_pending StreamState_new = []" and e: "read_alike (map (reread_event sd) (ss_events StreamState_new)) []"
    by (simp_all add: StreamState_new_def)
  from delivers_all_blocks[OF blocks p e] show ?thesis
  proof (elim disjE exE conjE)
    fix err
    assume "response_blocks sd 0 (resp_content r) ([], []) = Inl err" and "stream_events sd es StreamState_new = Inl err"
    then show ?thesis by (simp add: provider_stream_def stream response_to_events_def stream_events_append content)
  next
    fix fs gs
    assume fs: "response_blocks sd 0 (resp_content r) ([], []) = Inr fs" and gs: "read_alike (map (reread_event sd) gs) fs"
      and s: "stream_events sd es StreamState_new = Inr (StreamState_new\<lparr>ss_events := gs\<rparr>)"
    have "fst (provider_stream sd mt api c req w) = Inr (gs @ ?closing)"
      by (simp add: provider_stream_def stream stream_events_append s emit_def close_stream_def usage)
    moreover have "response_to_events sd (without_cached_counts r) = Inr (fs @ ?closing)"
      by (simp add: response_to_events_def fs content)
    moreover have "read_alike (map (reread_event sd) (gs @ ?closing)) (fs @ ?closing)"
      using read_alike_stop[OF gs, of ?closing] by simp
    ultimately show ?thesis using read_alike_message by (simp add: build_reread[symmetric])
  qed
qed

definition demo_serde :: SerdeText where
  "demo_serde =
     \<lparr>sd_parse = (\<lambda>s. if s = [] then Inl (lit ''EOF while parsing a value at line 1 column 0'') else Inr (VArray [])),
      sd_show = (\<lambda>v. lit ''[]''), sd_payload = (\<lambda>s. Inl (lit ''missing field''))\<rparr>"

definition demo_response :: MessageResponse where
  "demo_response =
     \<lparr>resp_id = [], resp_kind = [], resp_role = [], resp_content = [OutText (lit ''hello''), OutToolUse (lit ''t'') (lit ''bash'') (VArray [])],
      resp_model = [], resp_stop_reason = None, resp_stop_sequence = None,
      resp_usage = \<lparr>au_input_tokens = 3, au_cache_creation_input_tokens = 5, au_cache_read_input_tokens = 0, au_output_tokens = 4\<rparr>,
      resp_request_id = None\<rparr>"

definition demo_delivery :: "StreamEvent list" where
  "demo_delivery =
     [StreamBlockStart 0 (OutText []), StreamBlockDelta 0 (DeltaText (lit ''hel'')), StreamBlockDelta 0 (DeltaText (lit ''lo'')),
      StreamBlockStop 0, StreamBlockStart 1 (OutToolUse (lit ''t'') (lit ''bash'') (VObject [])),
      StreamBlockDelta 1 (DeltaInputJson (lit ''['')), StreamBlockDelta 1 (DeltaInputJson (lit '' ]'')), StreamBlockStop 1]"

lemma demo_delivers: "delivers_all demo_serde 0 (resp_content demo_response) demo_delivery"
proof -
  have "delivers demo_serde 0 (OutText ([] @ concat [lit ''hel'', lit ''lo'']))
     (StreamBlockStart 0 (OutText []) # map (\<lambda>d. StreamBlockDelta 0 (DeltaText d)) [lit ''hel'', lit ''lo''] @ [StreamBlockStop 0])"
    by (rule delivers_text)
  moreover have "delivers demo_serde 1 (OutToolUse (lit ''t'') (lit ''bash'') (VArray []))
     (StreamBlockStart 1 (OutToolUse (lit ''t'') (lit ''bash'') (VObject []))
       # map (\<lambda>j. StreamBlockDelta 1 (DeltaInputJson j)) [lit ''['', lit '' ]''] @ [StreamBlockStop 1])"
    by (rule delivers_tool) (simp_all add: demo_serde_def REQUEST_USER_INPUT_TOOL_NAME_def lit_def)
  ultimately have "delivers_all demo_serde 0 [OutText ([] @ concat [lit ''hel'', lit ''lo'']), OutToolUse (lit ''t'') (lit ''bash'') (VArray [])]
     ((StreamBlockStart 0 (OutText []) # map (\<lambda>d. StreamBlockDelta 0 (DeltaText d)) [lit ''hel'', lit ''lo''] @ [StreamBlockStop 0])
      @ (StreamBlockStart 1 (OutToolUse (lit ''t'') (lit ''bash'') (VObject []))
       # map (\<lambda>j. StreamBlockDelta 1 (DeltaInputJson j)) [lit ''['', lit '' ]''] @ [StreamBlockStop 1]) @ [])"
    by (intro next_block no_block) simp_all
  then show ?thesis by (simp add: demo_response_def demo_delivery_def lit_def)
qed

definition demo_service :: "nat ApiService" where
  "demo_service =
     \<lparr>as_stream = (\<lambda>_ w. (Inr (StreamMessageStart (demo_response\<lparr>resp_content := []\<rparr>) # demo_delivery
        @ [StreamMessageDelta \<lparr>md_stop_reason = None, md_stop_sequence = None\<rparr> (resp_usage demo_response),
           StreamMessageStop], None), w)),
      as_send = (\<lambda>_ w. (Inl [], w))\<rparr>"

theorem streamed_answer_is_response_witness:
  "map_sum id (reread_answer demo_serde)
     (res_bind (fst (provider_stream demo_serde (\<lambda>_. 1) demo_service \<lparr>pc_model = [], pc_allowed_tools = []\<rparr>
       \<lparr>api_system_prompt = [], api_messages = []\<rparr> 0)) build_assistant_message) =
   res_bind (response_to_events demo_serde (without_cached_counts demo_response)) build_assistant_message"
  by (rule streamed_answer_is_response[OF _ demo_delivers]) (simp add: demo_service_def)

text \<open>
  C35: A tool the model calls without arguments cannot be run from a stream: the call starts as an empty object that
  no text follows, its input is recorded as the empty text, which is no JSON, and the tool answers with a parse
  error; the same call in a response sent at once keeps its empty object. The next request sends the empty text
  wrapped as \<open>raw\<close>.
\<close>

theorem streamed_call_without_arguments_fails:
  assumes tool: "n \<noteq> REQUEST_USER_INPUT_TOOL_NAME" and eof: "sd_parse sd [] = Inl e" and allowed: "n \<in> set allowed"
  shows "map_sum id close_stream
      (stream_events sd [StreamBlockStart i (OutToolUse tid n (VObject [])), StreamBlockStop i, StreamMessageStop] StreamState_new) =
      Inr [ToolUseEvent tid n [], MessageStop]
    \<and> subagent_execute h (sd_parse sd) allowed n [] w = (Inl (lit ''invalid tool input JSON: '' @ e), w)
    \<and> convert_block sd (ToolUse tid n []) = InToolUse tid n (json_object [(''raw'', VString [])])
    \<and> map_sum id hd (response_blocks sd 0 [OutToolUse tid n (VObject [])] ([], [])) =
        Inr (ToolUseEvent tid n (sd_show sd (VObject [])))"
  using assms
  by (simp add: StreamState_new_def push_streamed_def push_output_block_def parse_pending_output_block_def emit_def
      close_stream_def remove_pending_def subagent_execute_def)

theorem streamed_call_without_arguments_fails_witness:
  "subagent_execute demo_host (sd_parse demo_serde) [lit ''TaskList''] (lit ''TaskList'') [] 7 =
     (Inl (lit ''invalid tool input JSON: '' @ lit ''EOF while parsing a value at line 1 column 0''), 7)"
  using streamed_call_without_arguments_fails[of "lit ''TaskList''" demo_serde _ "[lit ''TaskList'']" 0 "lit ''t''" demo_host 7]
  by (simp add: demo_serde_def REQUEST_USER_INPUT_TOOL_NAME_def)

end
