(* ===== verification/Thread_Store.thy ===== *)
theory Thread_Store
  imports Config
begin

text \<open>
  The durable store of the thread server (\<open>server/src/state_store.rs\<close>): where the state directory of a workspace
  may be, the version of the database's schema, and the table of threads. The file system is a record of the
  calls the code makes over a world; the database is SQLite, whose answer to a statement - a success or an
  error - is an argument, and whose table is the map from thread ids to rows.
\<close>

section \<open>The state directory\<close>

record 'w StateFs =
  sfs_canonicalize :: "'w \<Rightarrow> path \<Rightarrow> rstr + path"
  sfs_exists :: "'w \<Rightarrow> path \<Rightarrow> bool"
  sfs_is_symlink :: "'w \<Rightarrow> path \<Rightarrow> rstr + bool"
  sfs_is_file :: "'w \<Rightarrow> path \<Rightarrow> bool"
  sfs_create_dir_all :: "path \<Rightarrow> 'w \<Rightarrow> (rstr + unit) \<times> 'w"

definition state_path_error :: "rstr \<Rightarrow> path \<Rightarrow> rstr \<Rightarrow> rstr" where
  "state_path_error what p e = what @ lit '' `'' @ path_display p @ lit ''`: '' @ e"

definition state_root_of :: "path \<Rightarrow> path" where
  "state_root_of workspace = path_join workspace [Normal (lit ''.openyak'')]"

definition STATE_DB_FILENAME :: rstr where
  "STATE_DB_FILENAME = lit ''state.sqlite3''"

text \<open>The directory exists and is no link, or it is made.\<close>

definition prepare_state_root :: "'w StateFs \<Rightarrow> path \<Rightarrow> 'w \<Rightarrow> (rstr + unit) \<times> 'w" where
  "prepare_state_root fs root w =
     (if sfs_exists fs w root then
        (case sfs_is_symlink fs w root of
           Inl e \<Rightarrow> (Inl (state_path_error (lit ''failed to inspect durable state directory'') root e), w)
         | Inr True \<Rightarrow>
             (Inl (lit ''durable state directory `'' @ path_display root @ lit ''` must not be a symlink''), w)
         | Inr False \<Rightarrow> (Inr (), w))
      else
        (case sfs_create_dir_all fs root w of
           (Inl e, w1) \<Rightarrow> (Inl (state_path_error (lit ''failed to create durable state directory'') root e), w1)
         | (Inr _, w1) \<Rightarrow> (Inr (), w1)))"

definition resolve_workspace_state_root :: "'w StateFs \<Rightarrow> path \<Rightarrow> 'w \<Rightarrow> (rstr + path) \<times> 'w" where
  "resolve_workspace_state_root fs workspace w =
     (case sfs_canonicalize fs w workspace of
        Inl e \<Rightarrow> (Inl (state_path_error (lit ''failed to resolve server workspace'') workspace e), w)
      | Inr canonical \<Rightarrow>
          let root = state_root_of canonical in
          (case prepare_state_root fs root w of
             (Inl e, w1) \<Rightarrow> (Inl e, w1)
           | (Inr _, w1) \<Rightarrow>
               (case sfs_canonicalize fs w1 root of
                  Inl e \<Rightarrow> (Inl (state_path_error (lit ''failed to resolve durable state directory'') root e), w1)
                | Inr canonical_root \<Rightarrow>
                    if path_starts_with canonical_root canonical then (Inr canonical_root, w1)
                    else
                      (Inl (lit ''durable state directory `'' @ path_display canonical_root @ lit ''` escapes workspace `''
                         @ path_display canonical @ lit ''`''), w1))))"

section \<open>The table\<close>

record PersistedThreadRecord =
  pr_thread_id :: rstr
  pr_created_at_ms :: u64
  pr_updated_at_ms :: u64
  pr_cwd :: rstr
  pr_model :: rstr
  pr_permission_mode :: rstr
  pr_allowed_tools_json :: rstr
  pr_status :: rstr
  pr_last_run_id :: "rstr option"
  pr_last_sequence :: u64
  pr_session_json :: rstr
  pr_pending_request_json :: "rstr option"
  pr_recovery_note :: "rstr option"

text \<open>
  The rows by thread id, and the schema version. \<open>fault\<close> is the error SQLite answers a statement with, if it
  fails; opening the store asks three things of it.
\<close>

text \<open>Reading the rows can fail while the query is prepared, while it is run, and at a row.\<close>

datatype LoadStage = LoadPrepare | LoadQuery | LoadRows

record StoreFaults =
  sf_version :: "rstr option"
  sf_schema :: "rstr option"
  sf_query :: "(LoadStage \<times> rstr) option"

record ThreadStore =
  st_rows :: "(rstr \<times> PersistedThreadRecord) list"
  st_version :: int

fun load_stage_text :: "LoadStage \<Rightarrow> rstr" where
  "load_stage_text LoadPrepare = lit ''failed to prepare thread load query''"
| "load_stage_text LoadQuery = lit ''failed to query threads''"
| "load_stage_text LoadRows = lit ''failed to decode persisted thread rows''"

definition load_threads :: "(LoadStage \<times> rstr) option \<Rightarrow> ThreadStore \<Rightarrow> rstr + PersistedThreadRecord list" where
  "load_threads fault st =
     (case fault of
        Some (stage, e) \<Rightarrow> Inl (load_stage_text stage @ lit '': '' @ e)
      | None \<Rightarrow> Inr (map snd (st_rows st)))"

definition upsert_thread :: "rstr option \<Rightarrow> PersistedThreadRecord \<Rightarrow> ThreadStore \<Rightarrow> rstr + ThreadStore" where
  "upsert_thread fault r st =
     (case fault of
        Some e \<Rightarrow> Inl (lit ''failed to persist thread `'' @ pr_thread_id r @ lit ''`: '' @ e)
      | None \<Rightarrow> Inr (st\<lparr>st_rows := bt_insert (pr_thread_id r) r (st_rows st)\<rparr>))"

definition SCHEMA_VERSION :: int where
  "SCHEMA_VERSION = 1"

definition initialize_schema :: "StoreFaults \<Rightarrow> path \<Rightarrow> ThreadStore \<Rightarrow> rstr + ThreadStore" where
  "initialize_schema faults p st =
     (case sf_version faults of
        Some e \<Rightarrow> Inl (state_path_error (lit ''failed to read SQLite schema version from'') p e)
      | None \<Rightarrow>
          if st_version st = 0 then
            (case sf_schema faults of
               Some e \<Rightarrow> Inl (state_path_error (lit ''failed to initialize SQLite durable state schema at'') p e)
             | None \<Rightarrow> Inr (st\<lparr>st_version := SCHEMA_VERSION\<rparr>))
          else if st_version st = SCHEMA_VERSION then Inr st
          else
            Inl (lit ''unsupported SQLite durable state schema version '' @ show_int (st_version st) @ lit '' in `''
              @ path_display p @ lit ''`; expected '' @ show_int SCHEMA_VERSION))"

text \<open>\<open>SqliteThreadStore::open\<close>: \<open>opened\<close> is what SQLite answers for the file, the empty database if it is new.\<close>

definition open_store ::
  "'w StateFs \<Rightarrow> (path \<Rightarrow> rstr + ThreadStore) \<Rightarrow> StoreFaults \<Rightarrow> path \<Rightarrow> 'w \<Rightarrow> (rstr + ThreadStore) \<times> 'w" where
  "open_store fs opened faults workspace w =
     (case resolve_workspace_state_root fs workspace w of
        (Inl e, w1) \<Rightarrow> (Inl e, w1)
      | (Inr root, w1) \<Rightarrow>
          let p = path_join root [Normal STATE_DB_FILENAME] in
          (case opened p of
             Inl e \<Rightarrow> (Inl (state_path_error (lit ''failed to open durable state database'') p e), w1)
           | Inr st \<Rightarrow> (initialize_schema faults p st, w1)))"

definition has_persisted_threads ::
  "'w StateFs \<Rightarrow> (path \<Rightarrow> rstr + ThreadStore) \<Rightarrow> StoreFaults \<Rightarrow> path \<Rightarrow> 'w \<Rightarrow> (rstr + bool) \<times> 'w" where
  "has_persisted_threads fs opened faults workspace w =
     (case sfs_canonicalize fs w workspace of
        Inl e \<Rightarrow> (Inl (state_path_error (lit ''failed to resolve server workspace'') workspace e), w)
      | Inr canonical \<Rightarrow>
          if \<not> sfs_is_file fs w (path_join (state_root_of canonical) [Normal STATE_DB_FILENAME]) then (Inr False, w)
          else
            (case open_store fs opened faults canonical w of
               (Inl e, w1) \<Rightarrow> (Inl e, w1)
             | (Inr st, w1) \<Rightarrow> (map_sum id (\<lambda>rs. rs \<noteq> []) (load_threads (sf_query faults) st), w1)))"

section \<open>Lemmas\<close>

lemma upsert_thread_rows:
  "upsert_thread fault r st = Inr st' \<longleftrightarrow>
     fault = None \<and> st' = st\<lparr>st_rows := bt_insert (pr_thread_id r) r (st_rows st)\<rparr>"
  by (auto simp: upsert_thread_def split: option.splits)

lemma prepare_state_root_ok:
  "prepare_state_root fs root w = (Inr (), w') \<Longrightarrow> sfs_exists fs w root \<Longrightarrow> sfs_is_symlink fs w root = Inr False"
  by (auto simp: prepare_state_root_def split: sum.splits bool.splits)

end
