(* ===== verification/Thread_Server.thy ===== *)
theory Thread_Server
  imports Thread_Store Provider_Client Lifecycle
begin
text \<open>
  The thread server (\<open>server/src/lib.rs\<close>): conversations as threads over HTTP. A thread is a session with a
  status; a turn or a reply starts a run in a worker, and every change is written to the store and announced to
  the subscribers of the thread.

  A request is handled under the lock of its thread, so a handler is a function of the thread and the store. The
  clock, the answers of the database (\<open>fault\<close>), the loaded configuration, the model service and the tools are
  arguments; a handler reads the clock once. Events keep their payload as the value that is serialised.
\<close>

section \<open>Status\<close>

datatype ThreadStatus =
    ThreadIdle
  | ThreadRunning rstr
  | ThreadAwaiting rstr PendingUserInputRequest
  | ThreadInterrupted "rstr option" rstr

fun status_run_id :: "ThreadStatus \<Rightarrow> rstr option" where
  "status_run_id ThreadIdle = None"
| "status_run_id (ThreadRunning r) = Some r"
| "status_run_id (ThreadAwaiting r q) = Some r"
| "status_run_id (ThreadInterrupted r note) = r"

record UserInputRequestPayload =
  up_request_id :: rstr
  up_prompt :: rstr
  up_options :: "rstr list"
  up_allow_freeform :: bool

definition payload_from_request :: "PendingUserInputRequest \<Rightarrow> UserInputRequestPayload" where
  "payload_from_request r =
     \<lparr>up_request_id = pending_id r, up_prompt = pending_prompt r, up_options = pending_options r,
      up_allow_freeform = pending_freeform r\<rparr>"

definition guidance :: "string \<Rightarrow> string \<Rightarrow> string list \<Rightarrow> RecoveryGuidanceSnapshot" where
  "guidance f k as =
     \<lparr>recovery_failure_kind = lit f, recovery_kind = lit k, recommended_actions = map lit as\<rparr>"

definition recovery_guidance_for_note :: "rstr \<Rightarrow> RecoveryGuidanceSnapshot" where
  "recovery_guidance_for_note note =
     (if contains (lit ''restart or shutdown'') note then
        guidance ''daemon_restart_interrupted_run'' ''reattach_or_retry''
          [''reattach to the thread and inspect the latest snapshot'',
           ''retry the interrupted work from the operator plane when safe'']
      else if contains (lit ''pending user input'') note then
        guidance ''pending_user_input_state_mismatch'' ''refresh_and_resubmit_user_input''
          [''refresh the thread snapshot before resubmitting user input'',
           ''resume only after confirming the pending request matches the latest durable state'']
      else
        guidance ''interrupted_requires_recovery'' ''manual_operator_recovery''
          [''inspect the recovery note and latest thread snapshot'',
           ''choose retry, resume, or abandon from the operator plane''])"

record ThreadStateSnapshot =
  tss_status :: rstr
  tss_lifecycle :: LifecycleStateSnapshot
  tss_run_id :: "rstr option"
  tss_pending_user_input :: "UserInputRequestPayload option"
  tss_recovery_note :: "rstr option"
  tss_recovery :: "RecoveryGuidanceSnapshot option"

fun status_snapshot :: "ThreadStatus \<Rightarrow> ThreadStateSnapshot" where
  "status_snapshot ThreadIdle =
     \<lparr>tss_status = lit ''idle'', tss_lifecycle = daemon_thread (lit ''idle'') None, tss_run_id = None,
      tss_pending_user_input = None, tss_recovery_note = None, tss_recovery = None\<rparr>"
| "status_snapshot (ThreadRunning r) =
     \<lparr>tss_status = lit ''running'', tss_lifecycle = daemon_thread (lit ''running'') None, tss_run_id = Some r,
      tss_pending_user_input = None, tss_recovery_note = None, tss_recovery = None\<rparr>"
| "status_snapshot (ThreadAwaiting r q) =
     \<lparr>tss_status = lit ''awaiting_user_input'', tss_lifecycle = daemon_thread (lit ''awaiting_user_input'') None,
      tss_run_id = Some r, tss_pending_user_input = Some (payload_from_request q), tss_recovery_note = None,
      tss_recovery = None\<rparr>"
| "status_snapshot (ThreadInterrupted r note) =
     \<lparr>tss_status = lit ''interrupted'',
      tss_lifecycle = daemon_thread (lit ''interrupted'') (Some (recovery_guidance_for_note note)), tss_run_id = r,
      tss_pending_user_input = None, tss_recovery_note = Some note,
      tss_recovery = Some (recovery_guidance_for_note note)\<rparr>"

section \<open>Threads\<close>

record ThreadExecutionConfig =
  tc_cwd :: path
  tc_model :: rstr
  tc_permission_mode :: PermissionMode
  tc_allowed_tools :: "rstr list"

record ThreadConfigSnapshot =
  tcs_cwd :: rstr
  tcs_model :: rstr
  tcs_permission_mode :: rstr
  tcs_allowed_tools :: "rstr list"

definition config_snapshot :: "ThreadExecutionConfig \<Rightarrow> ThreadConfigSnapshot" where
  "config_snapshot c =
     \<lparr>tcs_cwd = path_display (tc_cwd c), tcs_model = tc_model c,
      tcs_permission_mode = mode_as_str (tc_permission_mode c), tcs_allowed_tools = tc_allowed_tools c\<rparr>"

record ThreadInner =
  ti_id :: rstr
  ti_created_at :: u64
  ti_updated_at :: u64
  ti_session :: Session
  ti_config :: ThreadExecutionConfig
  ti_status :: ThreadStatus
  ti_last_sequence :: u64

definition PROTOCOL_VERSION :: rstr where
  "PROTOCOL_VERSION = lit ''v1''"

record ThreadSnapshot =
  snap_protocol_version :: rstr
  snap_contract :: ThreadContractSnapshot
  snap_thread_id :: rstr
  snap_created_at :: u64
  snap_updated_at :: u64
  snap_state :: ThreadStateSnapshot
  snap_config :: ThreadConfigSnapshot
  snap_session :: Session

definition snapshot_from_inner :: "ThreadInner \<Rightarrow> ThreadSnapshot" where
  "snapshot_from_inner i =
     \<lparr>snap_protocol_version = PROTOCOL_VERSION, snap_contract = ThreadContractSnapshot_current,
      snap_thread_id = ti_id i, snap_created_at = ti_created_at i, snap_updated_at = ti_updated_at i,
      snap_state = status_snapshot (ti_status i), snap_config = config_snapshot (ti_config i),
      snap_session = ti_session i\<rparr>"

section \<open>Events\<close>

record RunStartedPayload =
  rsp_kind :: rstr
  rsp_message :: rstr
  rsp_status :: rstr
  rsp_lifecycle :: LifecycleStateSnapshot

definition RunStartedPayload_turn :: "rstr \<Rightarrow> RunStartedPayload" where
  "RunStartedPayload_turn m =
     \<lparr>rsp_kind = lit ''turn'', rsp_message = m, rsp_status = lit ''running'',
      rsp_lifecycle = lifecycle_status (lit ''running'')\<rparr>"

record RunCompletedPayload =
  rcp_iterations :: u64
  rcp_assistant_message_count :: nat
  rcp_tool_result_count :: nat
  rcp_cumulative_usage :: TokenUsage
  rcp_status :: rstr
  rcp_lifecycle :: LifecycleStateSnapshot

definition RunCompletedPayload_from_summary :: "TurnSummary \<Rightarrow> RunCompletedPayload" where
  "RunCompletedPayload_from_summary s =
     \<lparr>rcp_iterations = iterations s, rcp_assistant_message_count = length (assistant_messages s),
      rcp_tool_result_count = length (tool_results s), rcp_cumulative_usage = turn_usage s,
      rcp_status = lit ''completed'', rcp_lifecycle = lifecycle_status (lit ''completed'')\<rparr>"

record RunWaitingUserInputPayload =
  rwp_request_id :: rstr
  rwp_prompt :: rstr
  rwp_options :: "rstr list"
  rwp_allow_freeform :: bool
  rwp_status :: rstr
  rwp_lifecycle :: LifecycleStateSnapshot

definition RunWaitingUserInputPayload_from_request :: "PendingUserInputRequest \<Rightarrow> RunWaitingUserInputPayload" where
  "RunWaitingUserInputPayload_from_request r =
     \<lparr>rwp_request_id = pending_id r, rwp_prompt = pending_prompt r, rwp_options = pending_options r,
      rwp_allow_freeform = pending_freeform r, rwp_status = lit ''awaiting_user_input'',
      rwp_lifecycle = lifecycle_status (lit ''awaiting_user_input'')\<rparr>"

record RunFailedPayload =
  rfp_code :: rstr
  rfp_message :: rstr
  rfp_status :: rstr
  rfp_lifecycle :: LifecycleStateSnapshot

definition RunFailedPayload_from_error :: "rstr \<Rightarrow> rstr \<Rightarrow> RunFailedPayload" where
  "RunFailedPayload_from_error code m =
     (let recovery =
        (if code = lit ''storage_error'' then
           guidance ''daemon_thread_storage_error'' ''read_latest_snapshot_and_retry''
             [''read the latest /v1/threads snapshot before retrying'',
              ''retry the same attach-first action only after the local store issue is resolved'']
         else
           guidance ''daemon_thread_runtime_error'' ''inspect_error_and_retry''
             [''inspect the error message and latest /v1/threads snapshot'',
              ''retry the same attach-first action only after the underlying runtime issue is understood'']) in
      \<lparr>rfp_code = code, rfp_message = m, rfp_status = lit ''failed'',
       rfp_lifecycle = with_recovery (lit ''failed'') recovery\<rparr>)"

datatype EventPayload =
    PayloadSnapshot ThreadSnapshot
  | PayloadResync u64 ThreadSnapshot
  | PayloadRunStarted RunStartedPayload
  | PayloadRunCompleted RunCompletedPayload
  | PayloadRunWaiting RunWaitingUserInputPayload
  | PayloadRunFailed RunFailedPayload
  | PayloadStatus ThreadStateSnapshot
  | PayloadJson Value

record ThreadEventEnvelope =
  ev_protocol_version :: rstr
  ev_thread_id :: rstr
  ev_run_id :: "rstr option"
  ev_sequence :: u64
  ev_timestamp_ms :: u64
  ev_type :: rstr
  ev_payload :: EventPayload

datatype SessionEvent =
    SessionSnapshot rstr Session
  | SessionMessage rstr ConversationMessage

fun event_name :: "SessionEvent \<Rightarrow> rstr" where
  "event_name (SessionSnapshot i s) = lit ''snapshot''"
| "event_name (SessionMessage i m) = lit ''message''"

text \<open>A thread and its two broadcast channels: everything that was sent on them, in order.\<close>

record ThreadRecord =
  tr_inner :: ThreadInner
  tr_protocol_events :: "ThreadEventEnvelope list"
  tr_legacy_events :: "SessionEvent list"

definition from_inner :: "ThreadInner \<Rightarrow> ThreadRecord" where
  "from_inner i = \<lparr>tr_inner = i, tr_protocol_events = [], tr_legacy_events = []\<rparr>"

definition snapshot_event :: "u64 \<Rightarrow> ThreadRecord \<Rightarrow> ThreadEventEnvelope" where
  "snapshot_event now t =
     (let i = tr_inner t in
      \<lparr>ev_protocol_version = PROTOCOL_VERSION, ev_thread_id = ti_id i, ev_run_id = status_run_id (ti_status i),
       ev_sequence = ti_last_sequence i, ev_timestamp_ms = now, ev_type = lit ''thread.snapshot'',
       ev_payload = PayloadSnapshot (snapshot_from_inner i)\<rparr>)"

definition current_session_snapshot :: "ThreadRecord \<Rightarrow> SessionEvent" where
  "current_session_snapshot t = SessionSnapshot (ti_id (tr_inner t)) (ti_session (tr_inner t))"

text \<open>
  \<open>emit_protocol_event\<close> takes the next number under the lock of the thread and sends the event after it is
  released.
\<close>

definition saturating_inc :: "u64 \<Rightarrow> u64" where
  "saturating_inc n = (if n = - 1 then - 1 else n + 1)"

definition allocate_event ::
  "u64 \<Rightarrow> rstr \<Rightarrow> rstr option \<Rightarrow> EventPayload \<Rightarrow> ThreadRecord \<Rightarrow> ThreadEventEnvelope \<times> ThreadRecord" where
  "allocate_event now event_type run p t =
     (let i = tr_inner t; n = saturating_inc (ti_last_sequence i) in
      (\<lparr>ev_protocol_version = PROTOCOL_VERSION, ev_thread_id = ti_id i, ev_run_id = run, ev_sequence = n,
        ev_timestamp_ms = now, ev_type = event_type, ev_payload = p\<rparr>,
       t\<lparr>tr_inner := i\<lparr>ti_last_sequence := n\<rparr>\<rparr>))"

definition send_event :: "ThreadEventEnvelope \<Rightarrow> ThreadRecord \<Rightarrow> ThreadRecord" where
  "send_event e t = t\<lparr>tr_protocol_events := tr_protocol_events t @ [e]\<rparr>"

definition emit_protocol_event ::
  "u64 \<Rightarrow> rstr \<Rightarrow> rstr option \<Rightarrow> EventPayload \<Rightarrow> ThreadRecord \<Rightarrow> ThreadRecord" where
  "emit_protocol_event now event_type run p t =
     (case allocate_event now event_type run p t of (e, t') \<Rightarrow> send_event e t')"

definition broadcast_legacy_message :: "ConversationMessage \<Rightarrow> ThreadRecord \<Rightarrow> ThreadRecord" where
  "broadcast_legacy_message m t =
     t\<lparr>tr_legacy_events := tr_legacy_events t @ [SessionMessage (ti_id (tr_inner t)) m]\<rparr>"

section \<open>Errors\<close>

record ApiError =
  ae_status :: nat
  ae_code :: rstr
  ae_message :: rstr
  ae_details :: "EventPayload option"

definition api_error :: "nat \<Rightarrow> string \<Rightarrow> rstr \<Rightarrow> EventPayload option \<Rightarrow> ApiError" where
  "api_error s c m d = \<lparr>ae_status = s, ae_code = lit c, ae_message = m, ae_details = d\<rparr>"

definition bad_request :: "rstr \<Rightarrow> EventPayload option \<Rightarrow> ApiError" where
  "bad_request m d = api_error 400 ''invalid_request'' m d"

definition unauthorized :: "rstr \<Rightarrow> ApiError" where
  "unauthorized m = api_error 401 ''unauthorized'' m None"

definition conflict :: "rstr \<Rightarrow> EventPayload option \<Rightarrow> ApiError" where
  "conflict m d = api_error 409 ''conflict'' m d"

definition not_found :: "rstr \<Rightarrow> ApiError" where
  "not_found m = api_error 404 ''not_found'' m None"

definition internal_error :: "rstr \<Rightarrow> ApiError" where
  "internal_error m = api_error 500 ''internal_error'' m None"

section \<open>Writing a thread to the store\<close>

text \<open>The forms of \<open>serde_json\<close> a row is made of, and how they are read back.\<close>

record ThreadSerde =
  sj_tools :: "rstr list \<Rightarrow> rstr"
  sj_session :: "Session \<Rightarrow> rstr"
  sj_request :: "UserInputRequestPayload \<Rightarrow> rstr"
  sj_read_tools :: "rstr \<Rightarrow> rstr + rstr list"
  sj_read_session :: "rstr \<Rightarrow> rstr + Session"
  sj_read_request :: "rstr \<Rightarrow> rstr + UserInputRequestPayload"

definition persisted_thread_from_inner :: "ThreadSerde \<Rightarrow> ThreadInner \<Rightarrow> PersistedThreadRecord" where
  "persisted_thread_from_inner sj i =
     \<lparr>pr_thread_id = ti_id i, pr_created_at_ms = ti_created_at i, pr_updated_at_ms = ti_updated_at i,
      pr_cwd = path_display (tc_cwd (ti_config i)), pr_model = tc_model (ti_config i),
      pr_permission_mode = mode_as_str (tc_permission_mode (ti_config i)),
      pr_allowed_tools_json = sj_tools sj (tc_allowed_tools (ti_config i)),
      pr_status = tss_status (status_snapshot (ti_status i)), pr_last_run_id = status_run_id (ti_status i),
      pr_last_sequence = ti_last_sequence i, pr_session_json = sj_session sj (ti_session i),
      pr_pending_request_json =
        (case ti_status i of ThreadAwaiting r q \<Rightarrow> Some (sj_request sj (payload_from_request q)) | _ \<Rightarrow> None),
      pr_recovery_note = (case ti_status i of ThreadInterrupted r note \<Rightarrow> Some note | _ \<Rightarrow> None)\<rparr>"

definition persist_inner :: "ThreadSerde \<Rightarrow> rstr option \<Rightarrow> ThreadInner \<Rightarrow> ThreadStore \<Rightarrow> rstr + ThreadStore" where
  "persist_inner sj fault i st = upsert_thread fault (persisted_thread_from_inner sj i) st"

definition ThreadRecord_new ::
  "ThreadSerde \<Rightarrow> rstr option \<Rightarrow> u64 \<Rightarrow> rstr \<Rightarrow> ThreadExecutionConfig \<Rightarrow> ThreadStore \<Rightarrow> rstr + ThreadRecord \<times> ThreadStore" where
  "ThreadRecord_new sj fault now i c st =
     (let inner = \<lparr>ti_id = i, ti_created_at = now, ti_updated_at = now, ti_session = Session_new, ti_config = c,
                   ti_status = ThreadIdle, ti_last_sequence = 0\<rparr> in
      map_sum id (\<lambda>st'. (from_inner inner, st')) (persist_inner sj fault inner st))"

section \<open>Changing a thread\<close>

text \<open>The session with one more message, under a new status: what is persisted, or undone if that fails.\<close>

definition push_session_message :: "ConversationMessage \<Rightarrow> u64 \<Rightarrow> ThreadInner \<Rightarrow> ThreadInner" where
  "push_session_message m now i =
     i\<lparr>ti_session := (ti_session i)\<lparr>messages := messages (ti_session i) @ [m]\<rparr>, ti_updated_at := now\<rparr>"

definition status_details :: "ThreadInner \<Rightarrow> EventPayload" where
  "status_details i = PayloadStatus (status_snapshot (ti_status i))"

definition start_turn ::
  "ThreadSerde \<Rightarrow> rstr option \<Rightarrow> u64 \<Rightarrow> rstr \<Rightarrow> rstr \<Rightarrow> ThreadRecord \<Rightarrow> ThreadStore
     \<Rightarrow> (ApiError + nat) \<times> ThreadRecord \<times> ThreadStore" where
  "start_turn sj fault now run m t st =
     (let i = tr_inner t;
          begin_run = (\<lambda>_::unit.
            let i' = (push_session_message (user_text m) now i)\<lparr>ti_status := ThreadRunning run\<rparr> in
            case persist_inner sj fault i' st of
              Inl e \<Rightarrow> (Inl (internal_error e), t, st)
            | Inr st' \<Rightarrow>
                let t1 = broadcast_legacy_message (user_text m) (t\<lparr>tr_inner := i'\<rparr>);
                    t2 = emit_protocol_event now (lit ''run.started'') (Some run)
                           (PayloadRunStarted (RunStartedPayload_turn m)) t1 in
                (Inr (length (messages (ti_session i'))), t2, st')) in
      case ti_status i of
        ThreadIdle \<Rightarrow> begin_run ()
      | ThreadInterrupted r note \<Rightarrow> begin_run ()
      | _ \<Rightarrow> (Inl (conflict (lit ''thread already has an active or blocked run'') (Some (status_details i))), t, st))"

definition submitted_payload :: "UserInputResponse \<Rightarrow> EventPayload" where
  "submitted_payload r =
     PayloadJson (json_object [(''request_id'', VString (response_id r)), (''content'', VString (content r)),
                               (''selected_option'', json_opt VString (selected_option r))])"

definition submit_user_input ::
  "ThreadSerde \<Rightarrow> rstr option \<Rightarrow> u64 \<Rightarrow> UserInputResponse \<Rightarrow> ThreadRecord \<Rightarrow> ThreadStore
     \<Rightarrow> (ApiError + rstr \<times> nat) \<times> ThreadRecord \<times> ThreadStore" where
  "submit_user_input sj fault now resp t st =
     (let i = tr_inner t; m = user_input_response (response_id resp) (content resp) (selected_option resp) in
      case ti_status i of
        ThreadAwaiting run q \<Rightarrow>
          if pending_id q \<noteq> response_id resp then
            (Inl (conflict (lit ''submitted request_id `'' @ response_id resp @ lit ''` does not match pending request `''
                   @ pending_id q @ lit ''`'')
               (Some (PayloadJson (json_object [(''expected_request_id'', VString (pending_id q)),
                                                (''submitted_request_id'', VString (response_id resp))])))), t, st)
          else
            let i' = (push_session_message m now i)\<lparr>ti_status := ThreadRunning run\<rparr> in
            (case persist_inner sj fault i' st of
               Inl e \<Rightarrow> (Inl (internal_error e), t, st)
             | Inr st' \<Rightarrow>
                 let t1 = broadcast_legacy_message m (t\<lparr>tr_inner := i'\<rparr>);
                     t2 = emit_protocol_event now (lit ''user_input.submitted'') (Some run) (submitted_payload resp) t1 in
                 (Inr (run, length (messages (ti_session i'))), t2, st'))
      | _ \<Rightarrow> (Inl (conflict (lit ''thread has no pending request-user-input item'') (Some (status_details i))), t, st))"

definition append_session_message ::
  "ThreadSerde \<Rightarrow> rstr option \<Rightarrow> u64 \<Rightarrow> ConversationMessage \<Rightarrow> ThreadRecord \<Rightarrow> ThreadStore
     \<Rightarrow> (ApiError + unit) \<times> ThreadRecord \<times> ThreadStore" where
  "append_session_message sj fault now m t st =
     (let i = tr_inner t;
          append_it = (\<lambda>_::unit.
            let i' = push_session_message m now i in
            case persist_inner sj fault i' st of
              Inl e \<Rightarrow> (Inl (internal_error e), t, st)
            | Inr st' \<Rightarrow> (Inr (), broadcast_legacy_message m (t\<lparr>tr_inner := i'\<rparr>), st')) in
      case ti_status i of
        ThreadIdle \<Rightarrow> append_it ()
      | ThreadInterrupted r note \<Rightarrow> append_it ()
      | _ \<Rightarrow>
          (Inl (conflict (lit ''legacy /sessions message append is unavailable while a thread run is active'')
             (Some (status_details i))), t, st))"

section \<open>The end of a run\<close>

definition usage_json :: "TokenUsage \<Rightarrow> Value" where
  "usage_json u =
     json_object [(''input_tokens'', VInt (uint (input_tokens u))), (''output_tokens'', VInt (uint (output_tokens u))),
                  (''cache_creation_input_tokens'', VInt (uint (cache_creation_input_tokens u))),
                  (''cache_read_input_tokens'', VInt (uint (cache_read_input_tokens u)))]"

definition parse_tool_input :: "SerdeText \<Rightarrow> rstr \<Rightarrow> Value" where
  "parse_tool_input sd inp =
     (case sd_parse sd inp of Inr v \<Rightarrow> v | Inl _ \<Rightarrow> json_object [(''raw_input'', VString inp)])"

fun replay_event :: "SerdeText \<Rightarrow> AssistantEvent \<Rightarrow> rstr \<times> EventPayload" where
  "replay_event sd (TextDelta t) =
     (lit ''assistant.text.delta'', PayloadJson (json_object [(''text'', VString t)]))"
| "replay_event sd (ToolUseEvent i n inp) =
     (lit ''assistant.tool_use'',
      PayloadJson (json_object [(''id'', VString i), (''name'', VString n), (''input'', parse_tool_input sd inp)]))"
| "replay_event sd (RequestUserInput r) =
     (lit ''assistant.request_user_input'',
      PayloadJson (json_object [(''request_id'', VString (request_id r)), (''prompt'', VString (req_text r)),
                                (''options'', json_strings (options r)), (''allow_freeform'', VBool (allow_freeform r))]))"
| "replay_event sd (UsageEvent u) = (lit ''assistant.usage'', PayloadJson (usage_json u))"
| "replay_event sd MessageStop = (lit ''assistant.message_stop'', PayloadJson (json_object []))"

fun replay_block :: "ContentBlock \<Rightarrow> (rstr \<times> EventPayload) list" where
  "replay_block (ToolResult i n out err) =
     [(lit ''assistant.tool_result'',
       PayloadJson (json_object [(''tool_use_id'', VString i), (''tool_name'', VString n), (''output'', VString out),
                                 (''is_error'', VBool err)]))]"
| "replay_block (UserInputResponse i c sel) =
     [(lit ''user_input.submitted'',
       PayloadJson (json_object [(''request_id'', VString i), (''content'', VString c),
                                 (''selected_option'', json_opt VString sel)]))]"
| "replay_block (Text t) = []"
| "replay_block (ToolUse i n inp) = []"
| "replay_block (UserInputRequest i p opts free) = []"

definition replay_message :: "ConversationMessage \<Rightarrow> (rstr \<times> EventPayload) list" where
  "replay_message m = concat (map replay_block (blocks m))"

text \<open>After a batch: the answer it became is passed over, and the messages up to the next answer are emitted.\<close>

definition skip_answer :: "ConversationMessage list \<Rightarrow> ConversationMessage list" where
  "skip_answer ms = (case ms of m # rest \<Rightarrow> (if role m = Assistant then rest else ms) | [] \<Rightarrow> [])"

fun replay_batches ::
  "SerdeText \<Rightarrow> AssistantEvent list list \<Rightarrow> ConversationMessage list \<Rightarrow> (rstr \<times> EventPayload) list" where
  "replay_batches sd [] ms = concat (map replay_message ms)"
| "replay_batches sd (b # bs) ms =
     (let ms1 = skip_answer ms in
      map (replay_event sd) b
      @ concat (map replay_message (takeWhile (\<lambda>m. role m \<noteq> Assistant) ms1))
      @ replay_batches sd bs (dropWhile (\<lambda>m. role m \<noteq> Assistant) ms1))"

definition emit_all :: "u64 \<Rightarrow> rstr \<Rightarrow> (rstr \<times> EventPayload) list \<Rightarrow> ThreadRecord \<Rightarrow> ThreadRecord" where
  "emit_all now run es t = fold (\<lambda>(ty, p). emit_protocol_event now ty (Some run) p) es t"

definition emit_protocol_replay ::
  "SerdeText \<Rightarrow> u64 \<Rightarrow> rstr \<Rightarrow> AssistantEvent list list \<Rightarrow> ConversationMessage list \<Rightarrow> ThreadRecord \<Rightarrow> ThreadRecord" where
  "emit_protocol_replay sd now run batches new_messages t =
     emit_all now run (replay_batches sd batches new_messages) t"

definition complete_run ::
  "ThreadSerde \<Rightarrow> SerdeText \<Rightarrow> rstr option \<Rightarrow> u64 \<Rightarrow> rstr \<Rightarrow> Session \<Rightarrow> nat \<Rightarrow> AssistantEvent list list
     \<Rightarrow> RuntimeError + TurnSummary \<Rightarrow> ThreadRecord \<Rightarrow> ThreadStore \<Rightarrow> ThreadRecord \<times> ThreadStore" where
  "complete_run sj sd fault now run final optimistic_len batches result t st =
     (let pending = pending_user_input_request final;
          i' = (tr_inner t)\<lparr>ti_session := final, ti_updated_at := now,
                 ti_status := (case pending of Some q \<Rightarrow> ThreadAwaiting run q | None \<Rightarrow> ThreadIdle)\<rparr>;
          t1 = t\<lparr>tr_inner := i'\<rparr> in
      case persist_inner sj fault i' st of
        Inl e \<Rightarrow>
          (emit_protocol_event now (lit ''run.failed'') (Some run)
             (PayloadRunFailed (RunFailedPayload_from_error (lit ''storage_error'') e)) t1, st)
      | Inr st' \<Rightarrow>
          let new = drop optimistic_len (messages final);
              t2 = fold broadcast_legacy_message new t1;
              t3 = emit_protocol_replay sd now run batches new t2 in
          ((case result of
              Inr s \<Rightarrow>
                emit_protocol_event now (lit ''run.completed'') (Some run)
                  (PayloadRunCompleted (RunCompletedPayload_from_summary s)) t3
            | Inl e \<Rightarrow>
                (case pending of
                   Some q \<Rightarrow>
                     emit_protocol_event now (lit ''run.waiting_user_input'') (Some run)
                       (PayloadRunWaiting (RunWaitingUserInputPayload_from_request q)) t3
                 | None \<Rightarrow>
                     emit_protocol_event now (lit ''run.failed'') (Some run)
                       (PayloadRunFailed (RunFailedPayload_from_error (lit ''runtime_error'') (error_message e))) t3)), st'))"

section \<open>Streams\<close>

text \<open>
  A receiver of a broadcast channel is its position in what was sent. The channel keeps the last \<open>capacity\<close> events:
  a receiver that is further behind is told how many it missed and goes on with the oldest that is kept. A
  receiver that has read everything waits.
\<close>

datatype 'e Received = Got 'e | Lagged nat | Waiting

definition BROADCAST_CAPACITY :: nat where
  "BROADCAST_CAPACITY = 128"

definition recv :: "nat \<Rightarrow> 'e list \<Rightarrow> nat \<Rightarrow> 'e Received \<times> nat" where
  "recv capacity sent pos =
     (if length sent - pos > capacity then
        (Lagged (length sent - capacity - pos), length sent - capacity)
      else if pos < length sent then (Got (sent ! pos), pos + 1)
      else (Waiting, pos))"

definition thread_resync_required_event :: "u64 \<Rightarrow> ThreadRecord \<Rightarrow> nat \<Rightarrow> ThreadEventEnvelope" where
  "thread_resync_required_event now t skipped =
     (let snapshot = snapshot_from_inner (tr_inner t) in
      \<lparr>ev_protocol_version = PROTOCOL_VERSION, ev_thread_id = snap_thread_id snapshot,
       ev_run_id = tss_run_id (snap_state snapshot), ev_sequence = ev_sequence (snapshot_event now t),
       ev_timestamp_ms = now, ev_type = lit ''thread.resync_required'',
       ev_payload = PayloadResync (of_nat skipped) snapshot\<rparr>)"

text \<open>
  \<open>recv_thread_stream_event\<close>: an event that is not newer than the last one the stream showed is passed over.
  The state is the position and that number; \<open>None\<close> is a stream that waits.
\<close>

function recv_thread_stream_event ::
  "u64 \<Rightarrow> nat \<Rightarrow> ThreadRecord \<Rightarrow> nat \<Rightarrow> u64 \<Rightarrow> ThreadEventEnvelope option \<times> nat \<times> u64" where
  "recv_thread_stream_event now capacity t pos seen =
     (case recv capacity (tr_protocol_events t) pos of
        (Waiting, pos') \<Rightarrow> (None, pos', seen)
      | (Lagged skipped, pos') \<Rightarrow> (Some (thread_resync_required_event now t skipped), pos', seen)
      | (Got e, pos') \<Rightarrow>
          if ev_sequence e \<le> seen then recv_thread_stream_event now capacity t pos' seen
          else (Some e, pos', ev_sequence e))"
  by pat_completeness auto

termination recv_thread_stream_event
  by (relation "measure (\<lambda>(now, capacity, t, pos, seen). length (tr_protocol_events t) - pos)")
    (auto simp: recv_def split: if_splits)

declare recv_thread_stream_event.simps [simp del]

record ThreadStream =
  str_pos :: nat
  str_seen :: u64
  str_shown :: "ThreadEventEnvelope list"
  str_open :: bool

definition subscribe_thread_stream :: "u64 \<Rightarrow> ThreadRecord \<Rightarrow> ThreadStream" where
  "subscribe_thread_stream now t =
     (let snapshot = snapshot_event now t in
      \<lparr>str_pos = length (tr_protocol_events t), str_seen = ev_sequence snapshot, str_shown = [snapshot], str_open = True\<rparr>)"

text \<open>One turn of the loop of \<open>stream_thread_events\<close>: the next event is shown; a resynchronisation ends the stream.\<close>

definition poll_thread_stream :: "u64 \<Rightarrow> nat \<Rightarrow> ThreadRecord \<Rightarrow> ThreadStream \<Rightarrow> ThreadStream" where
  "poll_thread_stream now capacity t s =
     (if \<not> str_open s then s
      else
        (case recv_thread_stream_event now capacity t (str_pos s) (str_seen s) of
           (None, pos, seen) \<Rightarrow> s\<lparr>str_pos := pos, str_seen := seen\<rparr>
         | (Some e, pos, seen) \<Rightarrow>
             s\<lparr>str_pos := pos, str_seen := seen, str_shown := str_shown s @ [e],
               str_open := (ev_type e \<noteq> lit ''thread.resync_required'')\<rparr>))"

text \<open>The stream of \<open>/sessions\<close>: it starts with the session and ends when a receiver lags.\<close>

record SessionStream =
  sst_pos :: nat
  sst_shown :: "SessionEvent list"
  sst_open :: bool

definition subscribe_session_stream :: "ThreadRecord \<Rightarrow> SessionStream" where
  "subscribe_session_stream t =
     \<lparr>sst_pos = length (tr_legacy_events t), sst_shown = [current_session_snapshot t], sst_open = True\<rparr>"

definition poll_session_stream :: "nat \<Rightarrow> ThreadRecord \<Rightarrow> SessionStream \<Rightarrow> SessionStream" where
  "poll_session_stream capacity t s =
     (if \<not> sst_open s then s
      else
        (case recv capacity (tr_legacy_events t) (sst_pos s) of
           (Waiting, pos) \<Rightarrow> s\<lparr>sst_pos := pos\<rparr>
         | (Lagged n, pos) \<Rightarrow> s\<lparr>sst_pos := pos, sst_open := False\<rparr>
         | (Got e, pos) \<Rightarrow> s\<lparr>sst_pos := pos, sst_shown := sst_shown s @ [e]\<rparr>))"

section \<open>A run\<close>

datatype RunInvocation =
    TurnInvocation rstr
  | ResumeInvocation UserInputResponse

record RunExecution =
  rx_final_session :: Session
  rx_recorded_batches :: "AssistantEvent list list"
  rx_result :: "RuntimeError + TurnSummary"

definition apply_optimistic_invocation :: "Session \<Rightarrow> RunInvocation \<Rightarrow> Session" where
  "apply_optimistic_invocation s iv =
     s\<lparr>messages := messages s @
       [case iv of
          TurnInvocation m \<Rightarrow> user_text m
        | ResumeInvocation r \<Rightarrow> user_input_response (response_id r) (content r) (selected_option r)]\<rparr>"

definition permission_mode_from_resolved :: "ResolvedPermissionMode \<Rightarrow> PermissionMode" where
  "permission_mode_from_resolved m =
     (case m of
        ResolvedReadOnly \<Rightarrow> ReadOnly
      | ResolvedWorkspaceWrite \<Rightarrow> WorkspaceWrite
      | ResolvedDangerFullAccess \<Rightarrow> DangerFullAccess)"

definition server_permission_policy :: "PermissionMode \<Rightarrow> rstr list \<Rightarrow> PermissionPolicy" where
  "server_permission_policy mode allowed =
     foldl (\<lambda>p (n, required). with_tool_requirement p n required) (PermissionPolicy_new mode)
       (permission_specs GlobalToolRegistry_builtin (Some allowed))"

text \<open>
  The world of a run: the caller's, the batches \<open>RecordingApiClient\<close> has recorded, and the reply
  \<open>SubmittedUserInputPrompter\<close> still holds.
\<close>

record 'w RunWorld =
  rw_world :: 'w
  rw_batches :: "AssistantEvent list list"
  rw_response :: "UserInputResponse option"

definition recording_stream ::
  "(ApiRequest \<Rightarrow> 'w \<Rightarrow> (RuntimeError + AssistantEvent list) \<times> 'w) \<Rightarrow> ApiRequest \<Rightarrow> 'w RunWorld
     \<Rightarrow> (RuntimeError + AssistantEvent list) \<times> 'w RunWorld" where
  "recording_stream inner r w =
     (case inner r (rw_world w) of
        (Inl e, w') \<Rightarrow> (Inl e, w\<lparr>rw_world := w'\<rparr>)
      | (Inr events, w') \<Rightarrow> (Inr events, w\<lparr>rw_world := w', rw_batches := rw_batches w @ [events]\<rparr>))"

definition server_tool_execute ::
  "'w ToolHost \<Rightarrow> SerdeText \<Rightarrow> GlobalToolRegistry \<Rightarrow> rstr list \<Rightarrow> rstr \<Rightarrow> rstr \<Rightarrow> 'w \<Rightarrow> (rstr + rstr) \<times> 'w" where
  "server_tool_execute h sd r allowed tool inp w =
     (if tool \<notin> set allowed then
        (Inl (lit ''tool `'' @ tool @ lit ''` is not enabled for this thread''), w)
      else
        (case sd_parse sd inp of
           Inl e \<Rightarrow> (Inl (lit ''invalid tool input JSON: '' @ e), w)
         | Inr v \<Rightarrow> registry_execute h r tool v w))"

definition submitted_prompt :: "UserInputRequest \<Rightarrow> 'w RunWorld \<Rightarrow> UserInputOutcome \<times> 'w RunWorld" where
  "submitted_prompt req w =
     (case rw_response w of
        None \<Rightarrow>
          (Unavailable (lit ''no submitted reply is available for request-user-input `'' @ request_id req @ lit ''`''), w)
      | Some r \<Rightarrow>
          let w' = w\<lparr>rw_response := None\<rparr> in
          if response_id r \<noteq> request_id req then
            (Unavailable (lit ''submitted reply targets `'' @ response_id r
               @ lit ''` but the runtime is waiting for `'' @ request_id req @ lit ''`''), w')
          else (Submitted r, w'))"

record 'w RunHost =
  rh_client :: "ThreadExecutionConfig \<Rightarrow> rstr + ProviderRuntimeClient"
  rh_api :: "'w ApiService"
  rh_max_tokens :: "rstr \<Rightarrow> u32"
  rh_serde :: SerdeText
  rh_tools :: "'w ToolHost"
  rh_hook_process :: "'w RunWorld hook_process"
  rh_payload_json :: payload_json

definition run_env :: "'w RunHost \<Rightarrow> ThreadExecutionConfig \<Rightarrow> ProviderRuntimeClient \<Rightarrow> bool \<Rightarrow> 'w RunWorld Env" where
  "run_env h c client resume =
     (let policy = server_permission_policy (tc_permission_mode c) (tc_allowed_tools c);
          registry = with_enforcer GlobalToolRegistry_builtin \<lparr>policy = policy\<rparr> in
      \<lparr>api_stream = recording_stream (provider_stream (rh_serde h) (rh_max_tokens h) (rh_api h) client),
       tool_execute = (\<lambda>tool inp w.
         (case server_tool_execute (rh_tools h) (rh_serde h) registry (tc_allowed_tools c) tool inp (rw_world w) of
            (res, w') \<Rightarrow> (res, w\<lparr>rw_world := w'\<rparr>))),
       permission_prompter = None,
       user_prompter = (if resume then Some submitted_prompt else None),
       env_hook_process = rh_hook_process h, env_payload_json = rh_payload_json h\<rparr>)"

text \<open>\<open>execute_run\<close>, with the fuel of the turn; \<open>None\<close> is fuel that ran out.\<close>

definition execute_run ::
  "nat \<Rightarrow> 'w RunHost \<Rightarrow> Session \<Rightarrow> ThreadExecutionConfig \<Rightarrow> RunInvocation \<Rightarrow> 'w \<Rightarrow> (RunExecution \<times> 'w) option" where
  "execute_run fuel h s c iv w =
     (case rh_client h c of
        Inl e \<Rightarrow>
          Some (\<lparr>rx_final_session = apply_optimistic_invocation s iv, rx_recorded_batches = [],
                 rx_result = Inl (RuntimeError_new e)\<rparr>, w)
      | Inr client \<Rightarrow>
          let rt = Runtime_new s (server_permission_policy (tc_permission_mode c) (tc_allowed_tools c)) []
                     \<lparr>pre_tool_use = [], post_tool_use = []\<rparr> in
          map_option
            (\<lambda>(result, rt', w').
               (\<lparr>rx_final_session = session rt', rx_recorded_batches = rw_batches w', rx_result = result\<rparr>, rw_world w'))
            (case iv of
               TurnInvocation m \<Rightarrow>
                 run_turn fuel (run_env h c client False) m rt \<lparr>rw_world = w, rw_batches = [], rw_response = None\<rparr>
             | ResumeInvocation r \<Rightarrow>
                 resume_pending_turn fuel (run_env h c client True) rt
                   \<lparr>rw_world = w, rw_batches = [], rw_response = Some r\<rparr>))"

section \<open>Recovery\<close>

definition server_permission_modes :: EventPayload where
  "server_permission_modes =
     PayloadJson (json_object
       [(''supported_permission_modes'', strings [''read-only'', ''workspace-write'', ''danger-full-access''])])"

definition parse_server_permission_mode :: "rstr \<Rightarrow> ApiError + PermissionMode" where
  "parse_server_permission_mode value =
     (let v = trim value in
      if v = lit ''read-only'' then Inr ReadOnly
      else if v = lit ''workspace-write'' then Inr WorkspaceWrite
      else if v = lit ''danger-full-access'' then Inr DangerFullAccess
      else if v = lit ''prompt'' \<or> v = lit ''allow'' then
        Inl (bad_request (lit ''permission mode `'' @ v @ lit ''` is not supported on the server thread protocol surface'')
          (Some server_permission_modes))
      else Inl (bad_request (lit ''unsupported permission mode `'' @ v @ lit ''`'') (Some server_permission_modes)))"

definition decode_error :: "string \<Rightarrow> rstr \<Rightarrow> rstr \<Rightarrow> rstr" where
  "decode_error what i e = lit ''failed to decode '' @ lit what @ lit '' for thread `'' @ i @ lit ''`: '' @ e"

definition decode_allowed_tools :: "ThreadSerde \<Rightarrow> PersistedThreadRecord \<Rightarrow> rstr + rstr list" where
  "decode_allowed_tools sj p =
     map_sum (decode_error ''allowed tools'' (pr_thread_id p)) btree_set (sj_read_tools sj (pr_allowed_tools_json p))"

definition decode_recovered_session :: "ThreadSerde \<Rightarrow> PersistedThreadRecord \<Rightarrow> rstr + Session" where
  "decode_recovered_session sj p =
     map_sum (decode_error ''session snapshot'' (pr_thread_id p)) id (sj_read_session sj (pr_session_json p))"

definition decode_pending_request_payload ::
  "ThreadSerde \<Rightarrow> PersistedThreadRecord \<Rightarrow> rstr + UserInputRequestPayload option" where
  "decode_pending_request_payload sj p =
     map_sum (decode_error ''pending request'' (pr_thread_id p)) id
       (transpose_map (sj_read_request sj) (pr_pending_request_json p))"

definition request_of_payload :: "UserInputRequestPayload \<Rightarrow> PendingUserInputRequest" where
  "request_of_payload p =
     \<lparr>pending_id = up_request_id p, pending_prompt = up_prompt p, pending_options = up_options p,
      pending_freeform = up_allow_freeform p\<rparr>"

text \<open>The status and whether the row has to be written again.\<close>

definition recovered_status_from_persisted ::
  "PersistedThreadRecord \<Rightarrow> UserInputRequestPayload option \<Rightarrow> UserInputRequestPayload option
     \<Rightarrow> rstr + ThreadStatus \<times> bool" where
  "recovered_status_from_persisted p pending session_pending =
     (if pr_status p = lit ''idle'' then
        (if session_pending = None then Inr (ThreadIdle, False)
         else Inr (ThreadInterrupted (pr_last_run_id p)
           (lit ''recovered idle thread snapshot still contained pending user input''), True))
      else if pr_status p = lit ''running'' then
        Inr (ThreadInterrupted (pr_last_run_id p) (lit ''previous run ended during server restart or shutdown''), True)
      else if pr_status p = lit ''awaiting_user_input'' then
        (let mismatch = Inr (ThreadInterrupted (pr_last_run_id p)
               (lit ''recovered pending user input did not match the durable session snapshot''), True) in
         case (pr_last_run_id p, pending, session_pending) of
           (Some run, Some expected, Some actual) \<Rightarrow>
             if expected = actual then Inr (ThreadAwaiting run (request_of_payload expected), False) else mismatch
         | _ \<Rightarrow> mismatch)
      else if pr_status p = lit ''interrupted'' then
        Inr (ThreadInterrupted (pr_last_run_id p)
          (unwrap_or (lit ''thread requires recovery after prior interruption'') (pr_recovery_note p)), False)
      else
        Inl (lit ''unsupported persisted thread status `'' @ pr_status p @ lit ''` for thread `'' @ pr_thread_id p @ lit ''`''))"

definition thread_inner_from_persisted :: "ThreadSerde \<Rightarrow> PersistedThreadRecord \<Rightarrow> rstr + ThreadInner \<times> bool" where
  "thread_inner_from_persisted sj p =
     res_bind (decode_allowed_tools sj p) (\<lambda>allowed.
     res_bind (decode_recovered_session sj p) (\<lambda>s.
     res_bind (decode_pending_request_payload sj p) (\<lambda>pending.
     res_bind (recovered_status_from_persisted p pending
                 (map_option payload_from_request (pending_user_input_request s))) (\<lambda>(status, rewrite).
     res_bind (map_sum (\<lambda>e. lit ''failed to decode permission mode for recovered thread: '' @ ae_message e) id
                 (parse_server_permission_mode (pr_permission_mode p))) (\<lambda>mode.
     Inr (\<lparr>ti_id = pr_thread_id p, ti_created_at = pr_created_at_ms p, ti_updated_at = pr_updated_at_ms p,
           ti_session = s,
           ti_config = \<lparr>tc_cwd = path_components (pr_cwd p), tc_model = pr_model p, tc_permission_mode = mode,
                        tc_allowed_tools = allowed\<rparr>,
           ti_status = status, ti_last_sequence = pr_last_sequence p\<rparr>, rewrite))))))"

definition parse_id_counter :: "rstr \<Rightarrow> rstr \<Rightarrow> u64" where
  "parse_id_counter i prefix = unwrap_or 0 (Option.bind (strip_prefix prefix i) parse_u64)"

section \<open>The server\<close>

record AppState =
  app_cwd :: path
  app_store :: ThreadStore
  app_threads :: "(rstr \<times> ThreadRecord) list"
  app_next_thread_id :: u64
  app_next_run_id :: u64
  app_operator_token :: rstr

text \<open>The loop over the rows: the threads, the store, and the highest thread and run numbers so far.\<close>

definition recover_thread ::
  "ThreadSerde \<Rightarrow> (rstr \<Rightarrow> rstr option) \<Rightarrow> PersistedThreadRecord
     \<Rightarrow> (rstr \<times> ThreadRecord) list \<times> ThreadStore \<times> u64 \<times> u64
     \<Rightarrow> rstr + (rstr \<times> ThreadRecord) list \<times> ThreadStore \<times> u64 \<times> u64" where
  "recover_thread sj fault p acc =
     (case acc of (threads, st, max_thread, max_run) \<Rightarrow>
      let max_thread1 = max max_thread (parse_id_counter (pr_thread_id p) (lit ''thread-''));
          max_run1 = (case pr_last_run_id p of Some r \<Rightarrow> max max_run (parse_id_counter r (lit ''run-'')) | None \<Rightarrow> max_run) in
      res_bind (thread_inner_from_persisted sj p) (\<lambda>(inner, rewrite).
        let max_run2 = (case status_run_id (ti_status inner) of
                          Some r \<Rightarrow> max max_run1 (parse_id_counter r (lit ''run-'')) | None \<Rightarrow> max_run1) in
        res_bind (if rewrite then persist_inner sj (fault (ti_id inner)) inner st else Inr st) (\<lambda>st'.
          Inr (bt_insert (ti_id inner) (from_inner inner) threads, st', max_thread1, max_run2))))"

fun recover_threads ::
  "ThreadSerde \<Rightarrow> (rstr \<Rightarrow> rstr option) \<Rightarrow> PersistedThreadRecord list
     \<Rightarrow> (rstr \<times> ThreadRecord) list \<times> ThreadStore \<times> u64 \<times> u64
     \<Rightarrow> rstr + (rstr \<times> ThreadRecord) list \<times> ThreadStore \<times> u64 \<times> u64" where
  "recover_threads sj fault [] acc = Inr acc"
| "recover_threads sj fault (p # ps) acc = res_bind (recover_thread sj fault p acc) (recover_threads sj fault ps)"

text \<open>
  \<open>load_for_cwd_with_operator_token\<close>, from the store that was opened for the canonical directory.
\<close>

definition load_app ::
  "ThreadSerde \<Rightarrow> (rstr \<Rightarrow> rstr option) \<Rightarrow> path \<Rightarrow> rstr \<Rightarrow> (LoadStage \<times> rstr) option \<Rightarrow> ThreadStore
     \<Rightarrow> rstr + AppState" where
  "load_app sj fault cwd token query_fault st =
     res_bind (load_threads query_fault st) (\<lambda>rows.
     res_bind (recover_threads sj fault rows ([], st, 0, 0)) (\<lambda>(threads, st', max_thread, max_run).
     Inr \<lparr>app_cwd = cwd, app_store = st', app_threads = threads, app_next_thread_id = saturating_inc max_thread,
          app_next_run_id = saturating_inc max_run, app_operator_token = token\<rparr>))"

definition allocate_thread_id :: "AppState \<Rightarrow> rstr \<times> AppState" where
  "allocate_thread_id a =
     (lit ''thread-'' @ show_nat (unat (app_next_thread_id a)), a\<lparr>app_next_thread_id := app_next_thread_id a + 1\<rparr>)"

definition allocate_run_id :: "AppState \<Rightarrow> rstr \<times> AppState" where
  "allocate_run_id a =
     (lit ''run-'' @ show_nat (unat (app_next_run_id a)), a\<lparr>app_next_run_id := app_next_run_id a + 1\<rparr>)"

definition insert_thread :: "ThreadRecord \<Rightarrow> AppState \<Rightarrow> AppState" where
  "insert_thread t a = a\<lparr>app_threads := bt_insert (ti_id (tr_inner t)) t (app_threads a)\<rparr>"

definition lookup_thread :: "AppState \<Rightarrow> rstr \<Rightarrow> ApiError + ThreadRecord" where
  "lookup_thread a i = ok_or (not_found (lit ''thread `'' @ i @ lit ''` not found'')) (bt_get (app_threads a) i)"

section \<open>The configuration of a thread\<close>

record CreateThreadRequest =
  ct_cwd :: "rstr option"
  ct_model :: "rstr option"
  ct_permission_mode :: "rstr option"
  ct_allowed_tools :: "rstr list option"

record ServerHost =
  sh_canonicalize :: "path \<Rightarrow> rstr + path"
  sh_config :: "path \<Rightarrow> rstr + RuntimeFeatureConfig"
  sh_pid :: u32

definition resolve_thread_cwd :: "ServerHost \<Rightarrow> path \<Rightarrow> rstr option \<Rightarrow> ApiError + path" where
  "resolve_thread_cwd h server_cwd value =
     (case Option.bind (map_option trim value) (\<lambda>s. if s = [] then None else Some s) of
        None \<Rightarrow> Inr server_cwd
      | Some requested \<Rightarrow>
          let requested_path = (if is_absolute (path_components requested) then path_components requested
                                else path_join server_cwd (path_components requested)) in
          res_bind (map_sum (\<lambda>e. internal_error (lit ''failed to resolve current directory: '' @ e)) id
                      (sh_canonicalize h server_cwd)) (\<lambda>current.
          res_bind (map_sum (\<lambda>e. bad_request
                      (lit ''thread cwd `'' @ requested @ lit ''` could not be resolved: '' @ e) None) id
                      (sh_canonicalize h requested_path)) (\<lambda>resolved.
          if resolved \<noteq> current then
            Inl (bad_request (lit ''phase-1 server-backed threads only support the server process cwd `''
                   @ path_display server_cwd @ lit ''`'')
              (Some (PayloadJson (json_object [(''requested_cwd'', VString (path_display resolved)),
                                               (''server_cwd'', VString (path_display current))]))))
          else Inr current)))"

definition clamp_permission_mode_to_ceiling :: "PermissionMode \<Rightarrow> PermissionMode \<Rightarrow> PermissionMode" where
  "clamp_permission_mode_to_ceiling requested ceiling =
     (if encompasses ceiling requested then requested else ceiling)"

definition resolve_requested_allowed_tools ::
  "GlobalToolRegistry \<Rightarrow> CreateThreadRequest \<Rightarrow> ApiError + rstr list" where
  "resolve_requested_allowed_tools r payload =
     (case ct_allowed_tools payload of
        None \<Rightarrow> Inr (btree_set (map td_name (tool_definitions r None)))
      | Some [] \<Rightarrow> Inr []
      | Some vs \<Rightarrow>
          res_bind (map_sum (\<lambda>e. bad_request e None) id (normalize_allowed_tools r vs)) (\<lambda>names.
            ok_or (bad_request (lit ''explicit allowed_tools unexpectedly resolved to none'') None) names))"

definition clamp_allowed_tools_to_permission_mode ::
  "GlobalToolRegistry \<Rightarrow> rstr list \<Rightarrow> PermissionMode \<Rightarrow> rstr list" where
  "clamp_allowed_tools_to_permission_mode r allowed mode =
     btree_set (map fst (filter (\<lambda>(n, required). encompasses mode required) (permission_specs r (Some allowed))))"

definition DEFAULT_MODEL_ALIAS :: rstr where
  "DEFAULT_MODEL_ALIAS = lit ''opus''"

definition resolve_thread_config :: "ServerHost \<Rightarrow> AppState \<Rightarrow> CreateThreadRequest \<Rightarrow> ApiError + ThreadExecutionConfig" where
  "resolve_thread_config h a payload =
     res_bind (resolve_thread_cwd h (app_cwd a) (ct_cwd payload)) (\<lambda>cwd.
     res_bind (map_sum internal_error id (sh_config h cwd)) (\<lambda>config.
     let model = (case Option.bind (ct_model payload) (\<lambda>m. if trim m = [] then None else Some m) of
                    Some m \<Rightarrow> m | None \<Rightarrow> unwrap_or DEFAULT_MODEL_ALIAS (fc_model config));
         ceiling = (case fc_permission_mode config of
                      None \<Rightarrow> DangerFullAccess | Some m \<Rightarrow> permission_mode_from_resolved m) in
     res_bind (transpose_map parse_server_permission_mode (ct_permission_mode payload)) (\<lambda>requested.
     let mode = (case requested of None \<Rightarrow> ceiling | Some m \<Rightarrow> clamp_permission_mode_to_ceiling m ceiling) in
     res_bind (resolve_requested_allowed_tools GlobalToolRegistry_builtin payload) (\<lambda>allowed.
     Inr \<lparr>tc_cwd = cwd, tc_model = model, tc_permission_mode = mode,
          tc_allowed_tools = clamp_allowed_tools_to_permission_mode GlobalToolRegistry_builtin allowed mode\<rparr>))))"

section \<open>Requests\<close>

definition parse_bearer_token :: "rstr \<Rightarrow> rstr option" where
  "parse_bearer_token v =
     Option.bind (case strip_prefix (lit ''Bearer '') v of Some t \<Rightarrow> Some t | None \<Rightarrow> strip_prefix (lit ''bearer '') v)
       (\<lambda>t. if t = [] then None else Some t)"

text \<open>The header as \<open>to_str\<close> reads it: absent, not a text, or a text.\<close>

definition require_operator_auth :: "AppState \<Rightarrow> rstr option option \<Rightarrow> ApiError + unit" where
  "require_operator_auth a header =
     (case header of
        None \<Rightarrow> Inl (unauthorized (lit ''missing bearer token''))
      | Some v \<Rightarrow>
          (case Option.bind v parse_bearer_token of
             None \<Rightarrow> Inl (unauthorized (lit ''invalid bearer token''))
           | Some t \<Rightarrow>
               if t \<noteq> app_operator_token a then Inl (unauthorized (lit ''invalid bearer token'')) else Inr ()))"

record ThreadServerOperatorIdentity =
  oi_protocol_version :: rstr
  oi_pid :: u32
  oi_workspace_root :: rstr
  oi_contract :: ThreadContractSnapshot

definition operator_identity :: "ServerHost \<Rightarrow> AppState \<Rightarrow> ThreadServerOperatorIdentity" where
  "operator_identity h a =
     \<lparr>oi_protocol_version = PROTOCOL_VERSION, oi_pid = sh_pid h, oi_workspace_root = path_display (app_cwd a),
      oi_contract = ThreadContractSnapshot_current\<rparr>"

record ThreadSummary =
  ths_contract :: ThreadContractSnapshot
  ths_thread_id :: rstr
  ths_created_at :: u64
  ths_updated_at :: u64
  ths_state :: ThreadStateSnapshot
  ths_message_count :: nat

definition thread_summary :: "ThreadRecord \<Rightarrow> ThreadSummary" where
  "thread_summary t =
     (let s = snapshot_from_inner (tr_inner t) in
      \<lparr>ths_contract = snap_contract s, ths_thread_id = snap_thread_id s, ths_created_at = snap_created_at s,
       ths_updated_at = snap_updated_at s, ths_state = snap_state s,
       ths_message_count = length (messages (snap_session s))\<rparr>)"

record SessionSummary =
  sess_id :: rstr
  sess_created_at :: u64
  sess_message_count :: nat

definition session_summary :: "ThreadRecord \<Rightarrow> SessionSummary" where
  "session_summary t =
     \<lparr>sess_id = ti_id (tr_inner t), sess_created_at = ti_created_at (tr_inner t),
      sess_message_count = length (messages (ti_session (tr_inner t)))\<rparr>"

record SessionDetailsResponse =
  sdr_id :: rstr
  sdr_created_at :: u64
  sdr_session :: Session

definition session_details :: "ThreadRecord \<Rightarrow> SessionDetailsResponse" where
  "session_details t =
     \<lparr>sdr_id = ti_id (tr_inner t), sdr_created_at = ti_created_at (tr_inner t), sdr_session = ti_session (tr_inner t)\<rparr>"

record AcceptedResponse =
  acc_protocol_version :: rstr
  acc_contract :: ThreadContractSnapshot
  acc_thread_id :: rstr
  acc_run_id :: rstr
  acc_request_id :: "rstr option"
  acc_lifecycle :: LifecycleStateSnapshot
  acc_status :: rstr

definition accepted_response :: "rstr \<Rightarrow> rstr \<Rightarrow> rstr option \<Rightarrow> AcceptedResponse" where
  "accepted_response i run request =
     \<lparr>acc_protocol_version = PROTOCOL_VERSION, acc_contract = ThreadContractSnapshot_current, acc_thread_id = i,
      acc_run_id = run, acc_request_id = request, acc_lifecycle = daemon_thread (lit ''accepted'') None,
      acc_status = lit ''accepted''\<rparr>"

datatype ServerRequest =
    GetOperatorIdentity
  | CreateThread CreateThreadRequest
  | ListThreads
  | GetThread rstr
  | StartTurn rstr rstr
  | SubmitUserInput rstr rstr rstr "rstr option"
  | CreateSession
  | ListSessions
  | GetSession rstr
  | SendMessage rstr rstr

datatype ServerResponse =
    IdentityResponse ThreadServerOperatorIdentity
  | ThreadCreated ThreadSnapshot
  | ThreadList "ThreadSummary list"
  | ThreadDetails ThreadSnapshot
  | TurnAccepted AcceptedResponse
  | UserInputAccepted AcceptedResponse
  | SessionCreated rstr
  | SessionList "SessionSummary list"
  | SessionDetails SessionDetailsResponse
  | NoContent

text \<open>A worker that was spawned for a run: what its thread was handed.\<close>

record Worker =
  wk_thread :: rstr
  wk_run :: rstr
  wk_base :: Session
  wk_optimistic_len :: nat
  wk_invocation :: RunInvocation

definition create_thread_record ::
  "ServerHost \<Rightarrow> ThreadSerde \<Rightarrow> rstr option \<Rightarrow> u64 \<Rightarrow> CreateThreadRequest \<Rightarrow> AppState
     \<Rightarrow> (ApiError + ThreadRecord) \<times> AppState" where
  "create_thread_record h sj fault now payload a =
     (case allocate_thread_id a of (i, a1) \<Rightarrow>
      case resolve_thread_config h a1 payload of
        Inl e \<Rightarrow> (Inl e, a1)
      | Inr c \<Rightarrow>
          (case ThreadRecord_new sj fault now i c (app_store a1) of
             Inl e \<Rightarrow> (Inl (internal_error e), a1)
           | Inr (t, st) \<Rightarrow> (Inr t, insert_thread t (a1\<lparr>app_store := st\<rparr>))))"

definition CreateThreadRequest_default :: CreateThreadRequest where
  "CreateThreadRequest_default =
     \<lparr>ct_cwd = None, ct_model = None, ct_permission_mode = None, ct_allowed_tools = None\<rparr>"

definition put_thread :: "ThreadRecord \<Rightarrow> ThreadStore \<Rightarrow> AppState \<Rightarrow> AppState" where
  "put_thread t st a = insert_thread t (a\<lparr>app_store := st\<rparr>)"

text \<open>
  \<open>start_thread_turn\<close> and \<open>submit_thread_user_input\<close> read the session of the worker before they take the lock for
  the change.
\<close>

definition start_thread_turn ::
  "ThreadSerde \<Rightarrow> rstr option \<Rightarrow> u64 \<Rightarrow> rstr \<Rightarrow> rstr \<Rightarrow> AppState
     \<Rightarrow> (ApiError + ServerResponse) \<times> AppState \<times> Worker option" where
  "start_thread_turn sj fault now i m a =
     (if trim m = [] then (Inl (bad_request (lit ''turn message must not be empty'') None), a, None)
      else
        (case lookup_thread a i of
           Inl e \<Rightarrow> (Inl e, a, None)
         | Inr t \<Rightarrow>
             let base = ti_session (tr_inner t) in
             (case allocate_run_id a of (run, a1) \<Rightarrow>
              case start_turn sj fault now run m t (app_store a1) of
                (Inl e, t', st) \<Rightarrow> (Inl e, put_thread t' st a1, None)
              | (Inr len, t', st) \<Rightarrow>
                  (Inr (TurnAccepted (accepted_response i run None)), put_thread t' st a1,
                   Some \<lparr>wk_thread = i, wk_run = run, wk_base = base, wk_optimistic_len = len,
                         wk_invocation = TurnInvocation m\<rparr>))))"

definition submit_thread_user_input ::
  "ThreadSerde \<Rightarrow> rstr option \<Rightarrow> u64 \<Rightarrow> rstr \<Rightarrow> UserInputResponse \<Rightarrow> AppState
     \<Rightarrow> (ApiError + ServerResponse) \<times> AppState \<times> Worker option" where
  "submit_thread_user_input sj fault now i resp a =
     (if trim (content resp) = [] then
        (Inl (bad_request (lit ''user-input content must not be empty'') None), a, None)
      else
        (case lookup_thread a i of
           Inl e \<Rightarrow> (Inl e, a, None)
         | Inr t \<Rightarrow>
             let base = ti_session (tr_inner t) in
             (case submit_user_input sj fault now resp t (app_store a) of
                (Inl e, t', st) \<Rightarrow> (Inl e, put_thread t' st a, None)
              | (Inr (run, len), t', st) \<Rightarrow>
                  (Inr (UserInputAccepted (accepted_response i run (Some (response_id resp)))), put_thread t' st a,
                   Some \<lparr>wk_thread = i, wk_run = run, wk_base = base, wk_optimistic_len = len,
                         wk_invocation = ResumeInvocation resp\<rparr>))))"

definition send_message ::
  "ThreadSerde \<Rightarrow> rstr option \<Rightarrow> u64 \<Rightarrow> rstr \<Rightarrow> rstr \<Rightarrow> AppState \<Rightarrow> (ApiError + ServerResponse) \<times> AppState" where
  "send_message sj fault now i m a =
     (if trim m = [] then (Inl (bad_request (lit ''message must not be empty'') None), a)
      else
        (case lookup_thread a i of
           Inl e \<Rightarrow> (Inl e, a)
         | Inr t \<Rightarrow>
             (case append_session_message sj fault now (user_text m) t (app_store a) of
                (Inl e, t', st) \<Rightarrow> (Inl e, put_thread t' st a)
              | (Inr _, t', st) \<Rightarrow> (Inr NoContent, put_thread t' st a))))"

definition list_threads :: "AppState \<Rightarrow> ServerResponse" where
  "list_threads a = ThreadList (map (\<lambda>(_, t). thread_summary t) (app_threads a))"

definition get_thread :: "AppState \<Rightarrow> rstr \<Rightarrow> ApiError + ServerResponse" where
  "get_thread a i = map_sum id (\<lambda>t. ThreadDetails (snapshot_from_inner (tr_inner t))) (lookup_thread a i)"

definition create_thread ::
  "ServerHost \<Rightarrow> ThreadSerde \<Rightarrow> rstr option \<Rightarrow> u64 \<Rightarrow> CreateThreadRequest \<Rightarrow> AppState
     \<Rightarrow> (ApiError + ServerResponse) \<times> AppState" where
  "create_thread h sj fault now payload a =
     map_prod (map_sum id (\<lambda>t. ThreadCreated (snapshot_from_inner (tr_inner t)))) id
       (create_thread_record h sj fault now payload a)"

definition create_session ::
  "ServerHost \<Rightarrow> ThreadSerde \<Rightarrow> rstr option \<Rightarrow> u64 \<Rightarrow> AppState \<Rightarrow> (ApiError + ServerResponse) \<times> AppState" where
  "create_session h sj fault now a =
     map_prod (map_sum id (\<lambda>t. SessionCreated (ti_id (tr_inner t)))) id
       (create_thread_record h sj fault now CreateThreadRequest_default a)"

definition list_sessions :: "AppState \<Rightarrow> ServerResponse" where
  "list_sessions a = SessionList (map (\<lambda>(_, t). session_summary t) (app_threads a))"

definition get_session :: "AppState \<Rightarrow> rstr \<Rightarrow> ApiError + ServerResponse" where
  "get_session a i = map_sum id (\<lambda>t. SessionDetails (session_details t)) (lookup_thread a i)"

definition without_worker :: "'e \<times> AppState \<Rightarrow> 'e \<times> AppState \<times> Worker option" where
  "without_worker r = (fst r, snd r, None)"

definition handle_request ::
  "ServerHost \<Rightarrow> ThreadSerde \<Rightarrow> rstr option \<Rightarrow> u64 \<Rightarrow> ServerRequest \<Rightarrow> AppState
     \<Rightarrow> (ApiError + ServerResponse) \<times> AppState \<times> Worker option" where
  "handle_request h sj fault now r a =
     (case r of
        GetOperatorIdentity \<Rightarrow> (Inr (IdentityResponse (operator_identity h a)), a, None)
      | CreateThread payload \<Rightarrow> without_worker (create_thread h sj fault now payload a)
      | ListThreads \<Rightarrow> (Inr (list_threads a), a, None)
      | GetThread i \<Rightarrow> (get_thread a i, a, None)
      | StartTurn i m \<Rightarrow> start_thread_turn sj fault now i m a
      | SubmitUserInput i request c sel \<Rightarrow>
          submit_thread_user_input sj fault now i \<lparr>response_id = request, content = c, selected_option = sel\<rparr> a
      | CreateSession \<Rightarrow> without_worker (create_session h sj fault now a)
      | ListSessions \<Rightarrow> (Inr (list_sessions a), a, None)
      | GetSession i \<Rightarrow> (get_session a i, a, None)
      | SendMessage i m \<Rightarrow> without_worker (send_message sj fault now i m a))"

definition serve_request ::
  "ServerHost \<Rightarrow> ThreadSerde \<Rightarrow> rstr option \<Rightarrow> u64 \<Rightarrow> rstr option option \<Rightarrow> ServerRequest \<Rightarrow> AppState
     \<Rightarrow> (ApiError + ServerResponse) \<times> AppState \<times> Worker option" where
  "serve_request h sj fault now header r a =
     (case require_operator_auth a header of
        Inl e \<Rightarrow> (Inl e, a, None)
      | Inr _ \<Rightarrow> handle_request h sj fault now r a)"

text \<open>The body of \<open>spawn_thread_run\<close>: the run, and its end under the lock of the thread.\<close>

definition finish_worker ::
  "nat \<Rightarrow> 'w RunHost \<Rightarrow> ThreadSerde \<Rightarrow> rstr option \<Rightarrow> u64 \<Rightarrow> Worker \<Rightarrow> ThreadRecord \<Rightarrow> ThreadStore \<Rightarrow> 'w
     \<Rightarrow> (ThreadRecord \<times> ThreadStore \<times> 'w) option" where
  "finish_worker fuel h sj fault now wk t st w =
     map_option
       (\<lambda>(x, w'). case complete_run sj (rh_serde h) fault now (wk_run wk) (rx_final_session x) (wk_optimistic_len wk)
                       (rx_recorded_batches x) (rx_result x) t st of (t', st') \<Rightarrow> (t', st', w'))
       (execute_run fuel h (wk_base wk) (ti_config (tr_inner t)) (wk_invocation wk) w)"


end
