(* ===== verification/Thread_Server_Props.thy ===== *)
theory Thread_Server_Props
  imports Thread_Server Turns Provider_Client_Props
begin
text \<open>
  What the theorems on the thread server show: a thread has at most one run and can always leave it, a request
  that is refused changes nothing, what subscribers are told, that the rows of the store bring a thread back after a
  restart, that a thread never exceeds the configured permissions, and where interleaved requests lose messages.
\<close>

section \<open>What emitting an event changes\<close>

lemma emit_simps [simp]:
  "ti_status (tr_inner (emit_protocol_event now ty run p t)) = ti_status (tr_inner t)"
  "ti_session (tr_inner (emit_protocol_event now ty run p t)) = ti_session (tr_inner t)"
  "ti_config (tr_inner (emit_protocol_event now ty run p t)) = ti_config (tr_inner t)"
  "ti_id (tr_inner (emit_protocol_event now ty run p t)) = ti_id (tr_inner t)"
  "tr_legacy_events (emit_protocol_event now ty run p t) = tr_legacy_events t"
  by (simp_all add: emit_protocol_event_def allocate_event_def send_event_def Let_def)

lemma broadcast_simps [simp]:
  "tr_inner (broadcast_legacy_message m t) = tr_inner t"
  "tr_protocol_events (broadcast_legacy_message m t) = tr_protocol_events t"
  "tr_legacy_events (broadcast_legacy_message m t) = tr_legacy_events t @ [SessionMessage (ti_id (tr_inner t)) m]"
  by (simp_all add: broadcast_legacy_message_def)

lemma broadcast_all_simps [simp]:
  "tr_inner (fold broadcast_legacy_message ms t) = tr_inner t"
  "tr_protocol_events (fold broadcast_legacy_message ms t) = tr_protocol_events t"
  "tr_legacy_events (fold broadcast_legacy_message ms t) =
     tr_legacy_events t @ map (SessionMessage (ti_id (tr_inner t))) ms"
  by (induction ms arbitrary: t) simp_all

lemma emit_all_Cons: "emit_all now run ((ty, p) # es) t = emit_all now run es (emit_protocol_event now ty (Some run) p t)"
  by (simp add: emit_all_def)

lemma emit_all_simps [simp]:
  "ti_status (tr_inner (emit_all now run es t)) = ti_status (tr_inner t)"
  "ti_session (tr_inner (emit_all now run es t)) = ti_session (tr_inner t)"
  "ti_config (tr_inner (emit_all now run es t)) = ti_config (tr_inner t)"
  "ti_id (tr_inner (emit_all now run es t)) = ti_id (tr_inner t)"
  "tr_legacy_events (emit_all now run es t) = tr_legacy_events t"
  by (induction es arbitrary: t) (auto simp: emit_all_Cons, simp_all add: emit_all_def)

section \<open>The handlers\<close>

fun is_running :: "ThreadStatus \<Rightarrow> bool" where
  "is_running (ThreadRunning r) = True"
| "is_running _ = False"

fun may_start :: "ThreadStatus \<Rightarrow> bool" where
  "may_start ThreadIdle = True"
| "may_start (ThreadInterrupted r note) = True"
| "may_start _ = False"

lemma start_turn_outcome:
  assumes "start_turn sj fault now run m t st = (res, t', st')"
  shows "(may_start (ti_status (tr_inner t)) \<and> res = Inr (Suc (length (messages (ti_session (tr_inner t)))))
      \<and> ti_status (tr_inner t') = ThreadRunning run
      \<and> messages (ti_session (tr_inner t')) = messages (ti_session (tr_inner t)) @ [user_text m]
      \<and> ti_config (tr_inner t') = ti_config (tr_inner t) \<and> ti_id (tr_inner t') = ti_id (tr_inner t)
      \<and> tr_legacy_events t' = tr_legacy_events t @ [SessionMessage (ti_id (tr_inner t)) (user_text m)])
    \<or> (isl res \<and> t' = t \<and> st' = st)"
proof (cases "may_start (ti_status (tr_inner t))")
  case True
  let ?i = "(push_session_message (user_text m) now (tr_inner t))\<lparr>ti_status := ThreadRunning run\<rparr>"
  have eq: "start_turn sj fault now run m t st = (case persist_inner sj fault ?i st of
      Inl e \<Rightarrow> (Inl (internal_error e), t, st)
    | Inr st' \<Rightarrow> (Inr (length (messages (ti_session ?i))),
        emit_protocol_event now (lit ''run.started'') (Some run) (PayloadRunStarted (RunStartedPayload_turn m))
          (broadcast_legacy_message (user_text m) (t\<lparr>tr_inner := ?i\<rparr>)), st'))"
    using True by (cases "ti_status (tr_inner t)") (simp_all add: start_turn_def Let_def split: sum.split)
  show ?thesis
  proof (cases "persist_inner sj fault ?i st")
    case (Inl e)
    with assms eq show ?thesis by auto
  next
    case (Inr s)
    with assms eq True show ?thesis by (auto simp: push_session_message_def)
  qed
next
  case False
  then show ?thesis using assms by (cases "ti_status (tr_inner t)") (auto simp: start_turn_def Let_def)
qed

lemma submit_user_input_outcome:
  assumes "submit_user_input sj fault now resp t st = (res, t', st')"
  shows "(\<exists>run q. ti_status (tr_inner t) = ThreadAwaiting run q \<and> pending_id q = response_id resp
      \<and> res = Inr (run, Suc (length (messages (ti_session (tr_inner t)))))
      \<and> ti_status (tr_inner t') = ThreadRunning run
      \<and> messages (ti_session (tr_inner t')) = messages (ti_session (tr_inner t))
         @ [user_input_response (response_id resp) (content resp) (selected_option resp)]
      \<and> ti_config (tr_inner t') = ti_config (tr_inner t) \<and> ti_id (tr_inner t') = ti_id (tr_inner t))
    \<or> (isl res \<and> t' = t \<and> st' = st)"
proof (cases "ti_status (tr_inner t)")
  case (ThreadAwaiting run q)
  show ?thesis
  proof (cases "pending_id q = response_id resp")
    case True
    let ?i = "(push_session_message (user_input_response (response_id resp) (content resp) (selected_option resp)) now
        (tr_inner t))\<lparr>ti_status := ThreadRunning run\<rparr>"
    show ?thesis
    proof (cases "persist_inner sj fault ?i st")
      case (Inl e)
      with assms ThreadAwaiting True show ?thesis by (auto simp: submit_user_input_def Let_def)
    next
      case (Inr s)
      have "submit_user_input sj fault now resp t st = (Inr (run, length (messages (ti_session ?i))),
          emit_protocol_event now (lit ''user_input.submitted'') (Some run) (submitted_payload resp)
            (broadcast_legacy_message (user_input_response (response_id resp) (content resp) (selected_option resp))
              (t\<lparr>tr_inner := ?i\<rparr>)), s)"
        using ThreadAwaiting True Inr by (simp add: submit_user_input_def Let_def)
      with assms ThreadAwaiting True show ?thesis by (auto simp: push_session_message_def)
    qed
  next
    case False
    with assms ThreadAwaiting show ?thesis by (auto simp: submit_user_input_def Let_def)
  qed
qed (use assms in \<open>auto simp: submit_user_input_def Let_def\<close>)

lemma append_session_message_outcome:
  assumes "append_session_message sj fault now m t st = (res, t', st')"
  shows "(may_start (ti_status (tr_inner t)) \<and> res = Inr () \<and> ti_status (tr_inner t') = ti_status (tr_inner t)
      \<and> messages (ti_session (tr_inner t')) = messages (ti_session (tr_inner t)) @ [m]
      \<and> ti_config (tr_inner t') = ti_config (tr_inner t) \<and> ti_id (tr_inner t') = ti_id (tr_inner t)
      \<and> tr_legacy_events t' = tr_legacy_events t @ [SessionMessage (ti_id (tr_inner t)) m])
    \<or> (isl res \<and> t' = t \<and> st' = st)"
proof (cases "may_start (ti_status (tr_inner t))")
  case True
  let ?i = "push_session_message m now (tr_inner t)"
  have eq: "append_session_message sj fault now m t st = (case persist_inner sj fault ?i st of
      Inl e \<Rightarrow> (Inl (internal_error e), t, st)
    | Inr st' \<Rightarrow> (Inr (), broadcast_legacy_message m (t\<lparr>tr_inner := ?i\<rparr>), st'))"
    using True by (cases "ti_status (tr_inner t)") (simp_all add: append_session_message_def Let_def split: sum.split)
  show ?thesis
  proof (cases "persist_inner sj fault ?i st")
    case (Inl e)
    with assms eq show ?thesis by auto
  next
    case (Inr s)
    with assms eq True show ?thesis by (auto simp: push_session_message_def)
  qed
next
  case False
  then show ?thesis using assms by (cases "ti_status (tr_inner t)") (auto simp: append_session_message_def Let_def)
qed

lemmas handler_outcomes = start_turn_outcome submit_user_input_outcome append_session_message_outcome

definition status_after :: "rstr \<Rightarrow> Session \<Rightarrow> ThreadStatus" where
  "status_after run s = (case pending_user_input_request s of Some q \<Rightarrow> ThreadAwaiting run q | None \<Rightarrow> ThreadIdle)"

lemma complete_run_inner:
  assumes "complete_run sj sd fault now run final len batches result t st = (t', st')"
  shows "ti_status (tr_inner t') = status_after run final" and "ti_session (tr_inner t') = final"
    and "ti_config (tr_inner t') = ti_config (tr_inner t)" and "ti_id (tr_inner t') = ti_id (tr_inner t)"
  using assms
  by (auto simp: complete_run_def Let_def emit_protocol_replay_def status_after_def split: sum.splits option.splits)

text \<open>
  C28: A request that is refused changes nothing: whatever the reason - a run that is active, a reply to another
  question, a database that does not take the row - the thread, its subscribers and the store are as before.
\<close>

theorem refused_requests_change_nothing:
  assumes "start_turn sj fault now run m t st = (Inl e, t', st')
    \<or> submit_user_input sj fault now resp t st = (Inl e', t', st')
    \<or> append_session_message sj fault now msg t st = (Inl e'', t', st')"
  shows "t' = t \<and> st' = st"
  using assms
  by (elim disjE) (auto dest!: handler_outcomes)

section \<open>One run at a time\<close>

text \<open>
  The critical sections of a thread, in any order: the handlers of requests, of which an accepted one spawns a
  worker with a session read at some earlier moment, and the end of a worker with whatever its run returned.
\<close>

inductive thread_step ::
  "ThreadSerde \<Rightarrow> SerdeText \<Rightarrow> ThreadRecord \<times> ThreadStore \<times> Worker list
     \<Rightarrow> ThreadRecord \<times> ThreadStore \<times> Worker list \<Rightarrow> bool" for sj sd where
  turn_accepted: "start_turn sj fault now run m t st = (Inr len, t', st') \<Longrightarrow>
     thread_step sj sd (t, st, ws)
       (t', st', \<lparr>wk_thread = ti_id (tr_inner t), wk_run = run, wk_base = base, wk_optimistic_len = len,
                  wk_invocation = TurnInvocation m\<rparr> # ws)"
| turn_refused: "start_turn sj fault now run m t st = (Inl e, t', st') \<Longrightarrow>
     thread_step sj sd (t, st, ws) (t', st', ws)"
| reply_accepted: "submit_user_input sj fault now resp t st = (Inr (run, len), t', st') \<Longrightarrow>
     thread_step sj sd (t, st, ws)
       (t', st', \<lparr>wk_thread = ti_id (tr_inner t), wk_run = run, wk_base = base, wk_optimistic_len = len,
                  wk_invocation = ResumeInvocation resp\<rparr> # ws)"
| reply_refused: "submit_user_input sj fault now resp t st = (Inl e, t', st') \<Longrightarrow>
     thread_step sj sd (t, st, ws) (t', st', ws)"
| message_sent: "append_session_message sj fault now msg t st = (res, t', st') \<Longrightarrow>
     thread_step sj sd (t, st, ws) (t', st', ws)"
| run_finished: "wk \<in> set ws \<Longrightarrow>
     complete_run sj sd fault now (wk_run wk) final (wk_optimistic_len wk) batches result t st = (t', st') \<Longrightarrow>
     thread_step sj sd (t, st, ws) (t', st', remove1 wk ws)"

definition one_run :: "ThreadRecord \<Rightarrow> Worker list \<Rightarrow> bool" where
  "one_run t ws \<longleftrightarrow>
     (case ti_status (tr_inner t) of
        ThreadRunning r \<Rightarrow> (\<exists>wk. ws = [wk] \<and> wk_run wk = r)
      | _ \<Rightarrow> ws = [])"

lemma one_run_start: "may_start (ti_status (tr_inner t)) \<Longrightarrow> one_run t ws \<Longrightarrow> ws = []"
  by (cases "ti_status (tr_inner t)") (auto simp: one_run_def)

lemma one_run_status: "ti_status (tr_inner t') = ti_status (tr_inner t) \<Longrightarrow> one_run t' ws = one_run t ws"
  by (simp add: one_run_def)

lemma status_after_one_run: "ti_status (tr_inner t) = status_after r s \<Longrightarrow> one_run t []"
  by (simp add: one_run_def status_after_def split: option.splits)

lemma one_run_workers: "one_run t ws \<Longrightarrow> wk \<in> set ws \<Longrightarrow> ws = [wk] \<and> ti_status (tr_inner t) = ThreadRunning (wk_run wk)"
  by (cases "ti_status (tr_inner t)") (auto simp: one_run_def)

lemma one_run_step:
  assumes "thread_step sj sd x y" and "one_run (fst x) (snd (snd x))"
  shows "one_run (fst y) (snd (snd y))"
  using assms
proof (cases rule: thread_step.cases)
  case (turn_accepted fault now run m t st len t' st' ws base)
  then show ?thesis using assms(2) one_run_start[of t ws]
    by (auto dest!: start_turn_outcome simp: one_run_def[of t'])
next
  case (turn_refused fault now run m t st e t' st' ws)
  then show ?thesis using assms(2) by (auto dest!: start_turn_outcome)
next
  case (reply_accepted fault now resp t st run len t' st' ws base)
  then show ?thesis using assms(2) by (auto dest!: submit_user_input_outcome simp: one_run_def)
next
  case (reply_refused fault now resp t st e t' st' ws)
  then show ?thesis using assms(2) by (auto dest!: submit_user_input_outcome)
next
  case (message_sent fault now msg t st res t' st' ws)
  then show ?thesis using assms(2) one_run_status[of t' t ws] by (auto dest!: append_session_message_outcome)
next
  case (run_finished wk ws fault now final batches result t st t' st')
  have "ws = [wk]" using one_run_workers[of t ws wk] run_finished(1,3) assms(2) by simp
  then show ?thesis using complete_run_inner(1)[OF run_finished(4)] run_finished(2) status_after_one_run[of t' "wk_run wk" final]
    by simp
qed

lemma one_run_reachable:
  assumes "(thread_step sj sd)\<^sup>*\<^sup>* x y" and "one_run (fst x) (snd (snd x))"
  shows "one_run (fst y) (snd (snd y))"
  using assms by (induction rule: rtranclp_induct) (auto dest: one_run_step)

text \<open>
  C9: A thread never has two runs: however the requests and the ends of runs interleave, and whatever session a
  worker was handed, a thread that is running has exactly the one worker of the run it names, and any other thread
  has none.
\<close>

theorem one_worker_per_thread:
  assumes "(thread_step sj sd)\<^sup>*\<^sup>* (t, st, []) (t', st', ws)" and "\<not> is_running (ti_status (tr_inner t))"
  shows "one_run t' ws"
proof -
  have "one_run t []" using assms(2) by (cases "ti_status (tr_inner t)") (simp_all add: one_run_def)
  then show ?thesis using one_run_reachable[OF assms(1)] by simp
qed

text \<open>
  C10: A running thread is never stuck: in every state it can be in there is the worker of its run, and as soon as
  that run returns, with whatever session and result, the thread is idle or waits for the user - also when the
  database does not take the row.
\<close>

theorem running_thread_can_finish:
  assumes "(thread_step sj sd)\<^sup>*\<^sup>* (t, st, []) (t', st', ws)" and "\<not> is_running (ti_status (tr_inner t))"
    and "ti_status (tr_inner t') = ThreadRunning r"
  shows "\<exists>wk. ws = [wk] \<and> wk_run wk = r
    \<and> (case complete_run sj sd fault now (wk_run wk) final (wk_optimistic_len wk) batches result t' st' of
         (t'', st'') \<Rightarrow> thread_step sj sd (t', st', ws) (t'', st'', []) \<and> \<not> is_running (ti_status (tr_inner t'')))"
proof -
  have "one_run t []" using assms(2) by (cases "ti_status (tr_inner t)") (simp_all add: one_run_def)
  then have "one_run t' ws" using one_run_reachable[OF assms(1)] by simp
  with assms(3) obtain wk where wk: "ws = [wk]" "wk_run wk = r" by (auto simp: one_run_def)
  obtain t'' st'' where c: "complete_run sj sd fault now (wk_run wk) final (wk_optimistic_len wk) batches result t' st' = (t'', st'')"
    by fastforce
  have "thread_step sj sd (t', st', ws) (t'', st'', remove1 wk ws)" using c wk by (intro run_finished) simp_all
  moreover have "\<not> is_running (ti_status (tr_inner t''))"
    unfolding complete_run_inner(1)[OF c] by (simp add: status_after_def split: option.split)
  ultimately show ?thesis using wk c by auto
qed

definition demo_thread_serde :: ThreadSerde where
  "demo_thread_serde =
     \<lparr>sj_tools = (\<lambda>_. lit ''[]''), sj_session = (\<lambda>_. lit ''s''), sj_request = (\<lambda>_. lit ''r''), sj_read_tools = (\<lambda>_. Inr []),
      sj_read_session = (\<lambda>_. Inr Session_new), sj_read_request = (\<lambda>_. Inl [])\<rparr>"

definition demo_config :: ThreadExecutionConfig where
  "demo_config =
     \<lparr>tc_cwd = [RootDir, Normal (lit ''w'')], tc_model = lit ''opus'', tc_permission_mode = ReadOnly, tc_allowed_tools = []\<rparr>"

definition demo_inner :: "ThreadStatus \<Rightarrow> ThreadInner" where
  "demo_inner s =
     \<lparr>ti_id = lit ''thread-1'', ti_created_at = 0, ti_updated_at = 0, ti_session = Session_new, ti_config = demo_config,
      ti_status = s, ti_last_sequence = 4\<rparr>"

definition demo_thread :: ThreadRecord where
  "demo_thread = from_inner (demo_inner ThreadIdle)"

definition demo_store :: ThreadStore where
  "demo_store = \<lparr>st_rows = [], st_version = 1\<rparr>"

lemma demo_start:
  assumes "ti_status (tr_inner t) = ThreadIdle"
  shows "\<exists>len t' st'. start_turn sj None now run m t st = (Inr len, t', st') \<and> ti_status (tr_inner t') = ThreadRunning run"
  using assms by (simp add: start_turn_def Let_def persist_inner_def upsert_thread_def)

lemma demo_running:
  "\<exists>t' st' ws. (thread_step demo_thread_serde demo_serde)\<^sup>*\<^sup>* (demo_thread, demo_store, []) (t', st', ws)
     \<and> ti_status (tr_inner t') = ThreadRunning (lit ''run-1'')"
proof -
  have "ti_status (tr_inner demo_thread) = ThreadIdle" by (simp add: demo_thread_def from_inner_def demo_inner_def)
  from demo_start[OF this] obtain len t' st'
    where s: "start_turn demo_thread_serde None 1 (lit ''run-1'') (lit ''hi'') demo_thread demo_store = (Inr len, t', st')"
      "ti_status (tr_inner t') = ThreadRunning (lit ''run-1'')" by blast
  from turn_accepted[OF s(1)] s(2) show ?thesis by blast
qed

lemma demo_idle: "\<not> is_running (ti_status (tr_inner demo_thread))"
  by (simp add: demo_thread_def from_inner_def demo_inner_def)

theorem one_worker_per_thread_witness:
  "\<exists>t' ws. ti_status (tr_inner t') = ThreadRunning (lit ''run-1'') \<and> one_run t' ws"
  using demo_running one_worker_per_thread[OF _ demo_idle] by blast

theorem running_thread_can_finish_witness:
  "\<exists>t' st'. \<exists>wk :: Worker. ti_status (tr_inner t') = ThreadRunning (lit ''run-1'')
     \<and> (case complete_run demo_thread_serde demo_serde None 2 (wk_run wk) Session_new (wk_optimistic_len wk) []
               (Inl (RuntimeError_new [])) t' st' of
          (t'', st'') \<Rightarrow> \<not> is_running (ti_status (tr_inner t'')))"
proof -
  obtain t' st' ws where r: "(thread_step demo_thread_serde demo_serde)\<^sup>*\<^sup>* (demo_thread, demo_store, []) (t', st', ws)"
    "ti_status (tr_inner t') = ThreadRunning (lit ''run-1'')" using demo_running by blast
  from running_thread_can_finish[OF r(1) demo_idle r(2), where fault = None and now = 2 and final = Session_new
      and batches = "[]" and result = "Inl (RuntimeError_new [])"]
  obtain wk :: Worker where wk: "case complete_run demo_thread_serde demo_serde None 2 (wk_run wk) Session_new (wk_optimistic_len wk) []
        (Inl (RuntimeError_new [])) t' st' of
      (t'', st'') \<Rightarrow> thread_step demo_thread_serde demo_serde (t', st', ws) (t'', st'', []) \<and> \<not> is_running (ti_status (tr_inner t''))"
    by (elim exE conjE) (rule that)
  have "case complete_run demo_thread_serde demo_serde None 2 (wk_run wk) Session_new (wk_optimistic_len wk) []
        (Inl (RuntimeError_new [])) t' st' of (t'', st'') \<Rightarrow> \<not> is_running (ti_status (tr_inner t''))"
    using wk by (auto simp: split_beta)
  with r(2) show ?thesis by (intro exI[of _ t'] exI[of _ st'] exI[of _ wk] conjI)
qed

theorem refused_requests_change_nothing_witness:
  "\<exists>e. start_turn demo_thread_serde (Some (lit ''disk full'')) 1 (lit ''run-1'') (lit ''hi'') demo_thread demo_store =
     (Inl e, demo_thread, demo_store)"
proof -
  obtain e t' st' where s: "start_turn demo_thread_serde (Some (lit ''disk full'')) 1 (lit ''run-1'') (lit ''hi'')
      demo_thread demo_store = (Inl e, t', st')"
    by (simp add: start_turn_def Let_def persist_inner_def upsert_thread_def demo_thread_def from_inner_def demo_inner_def)
  from refused_requests_change_nothing[OF disjI1[OF s]] s show ?thesis by auto
qed

section \<open>A turn from its start to its end\<close>

lemma turn_loop_history:
  assumes "turn_loop fuel env rt w as rs n = Some (res, rt', w')"
  shows "\<exists>new. messages (session rt') = messages (session rt) @ new"
proof -
  have "extends_session (session rt) rt" by (simp add: extends_session_def)
  from history.turn_loop_inv[OF assms this] show ?thesis by (auto simp: extends_session_def)
qed

lemma execute_turn_history:
  assumes "execute_run fuel h s c (TurnInvocation m) w = Some (x, w')"
  shows "\<exists>new. messages (rx_final_session x) = messages s @ user_text m # new"
proof (cases "rh_client h c")
  case (Inl e)
  with assms show ?thesis by (auto simp: execute_run_def apply_optimistic_invocation_def)
next
  case (Inr client)
  with assms obtain res rt' w1 where r: "run_turn fuel (run_env h c client False) m
      (Runtime_new s (server_permission_policy (tc_permission_mode c) (tc_allowed_tools c)) [] \<lparr>pre_tool_use = [], post_tool_use = []\<rparr>)
      \<lparr>rw_world = w, rw_batches = [], rw_response = None\<rparr> = Some (res, rt', w1)"
    and x: "rx_final_session x = session rt'"
    by (auto simp: execute_run_def Let_def)
  from turn_loop_history[OF r[unfolded run_turn_def]] x show ?thesis by (auto simp: Runtime_new_def)
qed

fun legacy_message :: "SessionEvent \<Rightarrow> ConversationMessage list" where
  "legacy_message (SessionMessage i m) = [m]"
| "legacy_message (SessionSnapshot i s) = []"

text \<open>The messages that were announced to the subscribers of a session since an earlier state of the thread.\<close>

definition announced :: "ThreadRecord \<Rightarrow> ThreadRecord \<Rightarrow> ConversationMessage list" where
  "announced t t' = concat (map legacy_message (drop (length (tr_legacy_events t)) (tr_legacy_events t')))"

lemma concat_legacy_messages [simp]: "concat (map legacy_message (map (SessionMessage i) ms)) = ms"
  by (induction ms) simp_all

lemma concat_legacy_messages' [simp]: "concat (map (legacy_message \<circ> SessionMessage i) ms) = ms"
  by (induction ms) simp_all

lemma complete_run_announced:
  assumes "complete_run sj sd None now run final len batches result t st = (t', st')"
  shows "tr_legacy_events t' = tr_legacy_events t @ map (SessionMessage (ti_id (tr_inner t))) (drop len (messages final))"
  using assms
  by (auto simp: complete_run_def Let_def persist_inner_def upsert_thread_def emit_protocol_replay_def
      split: sum.splits option.splits)


text \<open>
  C34: A message can be lost between two requests. A turn reads the session for its worker before it takes the lock
  to start; when another request appends a message in between, that message is acknowledged and announced, but the
  end of the run replaces the session by the one that never had it, and the first message of the run is not
  announced in its stead.
\<close>

theorem interleaved_message_lost:
  assumes sent: "append_session_message sj fault now lost t st = (Inr (), t1, st1)"
    and start: "start_turn sj fault' now' run m t1 st1 = (Inr len, t2, st2)"
    and ran: "execute_run fuel h (ti_session (tr_inner t)) c (TurnInvocation m) w = Some (x, w')"
    and ended: "complete_run sj sd None now'' run (rx_final_session x) len (rx_recorded_batches x) (rx_result x) t2 st2 = (t3, st3)"
  shows "\<exists>new. messages (ti_session (tr_inner t3)) = messages (ti_session (tr_inner t)) @ user_text m # new
    \<and> announced t t3 = lost # user_text m # tl new"
proof -
  obtain new where new: "messages (rx_final_session x) = messages (ti_session (tr_inner t)) @ user_text m # new"
    using execute_turn_history[OF ran] by blast
  have t1: "messages (ti_session (tr_inner t1)) = messages (ti_session (tr_inner t)) @ [lost]"
    "ti_id (tr_inner t1) = ti_id (tr_inner t)" "tr_legacy_events t1 = tr_legacy_events t @ [SessionMessage (ti_id (tr_inner t)) lost]"
    using append_session_message_outcome[OF sent] by auto
  have t2: "len = Suc (Suc (length (messages (ti_session (tr_inner t)))))" "ti_id (tr_inner t2) = ti_id (tr_inner t)"
    "tr_legacy_events t2 = tr_legacy_events t1 @ [SessionMessage (ti_id (tr_inner t)) (user_text m)]"
    using start_turn_outcome[OF start] t1 by auto
  have "announced t t3 = lost # user_text m # tl new"
    unfolding announced_def complete_run_announced[OF ended] by (simp add: t1 t2 new drop_Suc)
  then show ?thesis using complete_run_inner(2)[OF ended] new by auto
qed

definition demo_host_without_client :: "nat RunHost" where
  "demo_host_without_client =
     \<lparr>rh_client = (\<lambda>_. Inl (lit ''missing API key'')), rh_api = demo_service, rh_max_tokens = (\<lambda>_. 1), rh_serde = demo_serde,
      rh_tools = demo_host, rh_hook_process = (\<lambda>_ _ w. (Inl [], w)),
      rh_payload_json = (\<lambda>_ _ _ _ _. [])\<rparr>"

definition demo_final :: "Session \<Rightarrow> Session" where
  "demo_final s = apply_optimistic_invocation s (TurnInvocation (lit ''hi''))"

lemma demo_execute:
  "execute_run 1 demo_host_without_client s c (TurnInvocation (lit ''hi'')) 0 =
     Some (\<lparr>rx_final_session = demo_final s, rx_recorded_batches = [],
            rx_result = Inl (RuntimeError_new (lit ''missing API key''))\<rparr>, 0)"
  by (simp add: execute_run_def demo_host_without_client_def demo_final_def)

definition demo_end :: "Session \<Rightarrow> nat \<Rightarrow> ThreadRecord \<Rightarrow> ThreadStore \<Rightarrow> ThreadRecord \<times> ThreadStore" where
  "demo_end s len t st =
     complete_run demo_thread_serde demo_serde None 3 (lit ''run-1'') (demo_final s) len []
       (Inl (RuntimeError_new (lit ''missing API key''))) t st"


theorem interleaved_message_lost_witness:
  "case append_session_message demo_thread_serde None 1 (user_text (lit ''note'')) demo_thread demo_store of
     (Inr _, t1, st1) \<Rightarrow>
       (case start_turn demo_thread_serde None 2 (lit ''run-1'') (lit ''hi'') t1 st1 of
          (Inr len, t2, st2) \<Rightarrow>
            user_text (lit ''note'') \<in> set (announced demo_thread (fst (demo_end (ti_session (tr_inner demo_thread)) len t2 st2)))
            \<and> hd (messages (ti_session (tr_inner (fst (demo_end (ti_session (tr_inner demo_thread)) len t2 st2))))) =
                user_text (lit ''hi'')
        | _ \<Rightarrow> False)
   | _ \<Rightarrow> False"
proof -
  have idle: "ti_status (tr_inner demo_thread) = ThreadIdle" by (simp add: demo_thread_def from_inner_def demo_inner_def)
  then obtain t1 st1
    where s: "append_session_message demo_thread_serde None 1 (user_text (lit ''note'')) demo_thread demo_store = (Inr (), t1, st1)"
      "ti_status (tr_inner t1) = ThreadIdle"
    by (simp add: append_session_message_def Let_def persist_inner_def upsert_thread_def push_session_message_def)
  from demo_start[OF s(2)] obtain len t2 st2
    where r: "start_turn demo_thread_serde None 2 (lit ''run-1'') (lit ''hi'') t1 st1 = (Inr len, t2, st2)" by blast
  obtain t3 st3 where e: "demo_end (ti_session (tr_inner demo_thread)) len t2 st2 = (t3, st3)" by fastforce
  have "messages (ti_session (tr_inner demo_thread)) = []"
    by (simp add: demo_thread_def from_inner_def demo_inner_def Session_new_def)
  with interleaved_message_lost[OF s(1) r demo_execute, where sd = demo_serde and now'' = 3 and ?t3.0 = t3
      and ?st3.0 = st3] e s r show ?thesis
    by (auto simp: demo_end_def)
qed

section \<open>The order of the events\<close>

definition shown_in_order :: "ThreadStream \<Rightarrow> bool" where
  "shown_in_order s \<longleftrightarrow>
     (\<exists>es ends. str_shown s = es @ ends \<and> sorted_wrt (<) (map ev_sequence es) \<and> (\<forall>e \<in> set es. ev_sequence e \<le> str_seen s)
        \<and> (ends = [] \<or> (\<exists>e. ends = [e] \<and> ev_type e = lit ''thread.resync_required'' \<and> str_open s = False)))"

lemma recv_event_newer:
  "recv_thread_stream_event now capacity t pos seen = (res, pos', seen') \<Longrightarrow>
     (case res of None \<Rightarrow> seen' = seen
      | Some e \<Rightarrow> ev_type e = lit ''thread.resync_required'' \<and> seen' = seen \<or> seen < ev_sequence e \<and> seen' = ev_sequence e)"
proof (induction now capacity t pos seen arbitrary: res pos' seen' rule: recv_thread_stream_event.induct)
  case (1 now capacity t pos seen)
  obtain r p where r: "recv capacity (tr_protocol_events t) pos = (r, p)" by fastforce
  show ?case
  proof (cases r)
    case (Got e)
    show ?thesis
    proof (cases "ev_sequence e \<le> seen")
      case True
      then have "recv_thread_stream_event now capacity t p seen = (res, pos', seen')"
        using "1.prems" r Got by (subst (asm) recv_thread_stream_event.simps) simp
      then show ?thesis by (rule "1.IH"[OF r[symmetric] Got True])
    next
      case False
      then have "recv_thread_stream_event now capacity t pos seen = (Some e, p, ev_sequence e)"
        by (subst recv_thread_stream_event.simps) (simp add: r Got)
      then show ?thesis using "1.prems" False by (auto simp: not_le)
    qed
  next
    case (Lagged n)
    then show ?thesis using "1.prems" r
      by (subst (asm) recv_thread_stream_event.simps) (auto simp: thread_resync_required_event_def Let_def)
  next
    case Waiting
    then show ?thesis using "1.prems" r by (subst (asm) recv_thread_stream_event.simps) auto
  qed
qed

lemma poll_in_order: "shown_in_order s \<Longrightarrow> shown_in_order (poll_thread_stream now capacity t s)"
proof (cases "str_open s")
  case True
  assume "shown_in_order s"
  with True have ok: "sorted_wrt (<) (map ev_sequence (str_shown s))" "\<forall>e \<in> set (str_shown s). ev_sequence e \<le> str_seen s"
    by (auto simp: shown_in_order_def)
  obtain res pos seen where r: "recv_thread_stream_event now capacity t (str_pos s) (str_seen s) = (res, pos, seen)"
    by (metis prod_cases3)
  note new = recv_event_newer[OF r]
  show ?thesis
  proof (cases res)
    case None
    then show ?thesis using r True ok new by (auto simp: poll_thread_stream_def shown_in_order_def)
  next
    case (Some e)
    then consider "ev_type e = lit ''thread.resync_required''" "seen = str_seen s" | "str_seen s < ev_sequence e" "seen = ev_sequence e"
      using new by auto
    then show ?thesis
    proof cases
      case 1
      then have "poll_thread_stream now capacity t s =
          s\<lparr>str_pos := pos, str_seen := str_seen s, str_shown := str_shown s @ [e], str_open := False\<rparr>"
        using r True Some by (simp add: poll_thread_stream_def)
      then show ?thesis using ok 1(1) unfolding shown_in_order_def
        by (intro exI[of _ "str_shown s"] exI[of _ "[e]"]) simp
    next
      case 2
      have "str_shown (poll_thread_stream now capacity t s) = (str_shown s @ [e]) @ []"
        and "str_seen (poll_thread_stream now capacity t s) = ev_sequence e"
        using r True Some 2 by (simp_all add: poll_thread_stream_def)
      moreover have "sorted_wrt (<) (map ev_sequence (str_shown s @ [e]))"
        using ok 2(1) by (auto simp: sorted_wrt_append intro: le_less_trans)
      moreover have "\<forall>x \<in> set (str_shown s @ [e]). ev_sequence x \<le> ev_sequence e"
        using ok 2(1) by (auto intro: less_imp_le le_less_trans)
      ultimately show ?thesis unfolding shown_in_order_def by metis
    qed
  qed
qed (simp add: poll_thread_stream_def)

text \<open>A subscriber that polls a thread in the states it finds it in.\<close>

definition stream_after :: "u64 \<Rightarrow> ThreadRecord \<Rightarrow> (u64 \<times> nat \<times> ThreadRecord) list \<Rightarrow> ThreadStream" where
  "stream_after now t polls = foldl (\<lambda>s (n, c, t'). poll_thread_stream n c t' s) (subscribe_thread_stream now t) polls"

text \<open>
  C30: A subscriber never sees events out of order or twice: whatever was sent on the channel, in whatever order and
  however far the subscriber fell behind, the sequence numbers a stream shows from its snapshot on strictly increase.
  The one exception is the notice that it has to synchronise again, which a subscriber gets when it fell behind the
  channel: it carries the number of the newest snapshot, and it is the last thing the stream shows.
\<close>

theorem stream_in_order:
  "\<exists>es ends. str_shown (stream_after now t polls) = es @ ends \<and> sorted_wrt (<) (map ev_sequence es)
     \<and> (ends = [] \<or> (\<exists>e. ends = [e] \<and> ev_type e = lit ''thread.resync_required''
                          \<and> str_open (stream_after now t polls) = False))"
proof -
  have "shown_in_order (subscribe_thread_stream now t)"
    by (auto simp: shown_in_order_def subscribe_thread_stream_def Let_def intro!: exI[of _ "[snapshot_event now t]"])
  then have "shown_in_order (stream_after now t polls)"
    unfolding stream_after_def by (induction polls rule: rev_induct) (auto simp: poll_in_order split_def)
  then show ?thesis unfolding shown_in_order_def by blast
qed

lemma unat_saturating_inc: "unat n + 1 < 2 ^ 64 \<Longrightarrow> unat (saturating_inc n) = unat n + 1"
proof -
  assume n: "unat n + 1 < 2 ^ 64"
  then have "n \<noteq> - 1" by (auto simp: unsigned_minus_1_eq_mask mask_eq_exp_minus_1)
  moreover from this have "unat (1 + n) = Suc (unat n)" by (intro unatSuc) (simp add: add_eq_0_iff)
  ultimately show ?thesis by (simp add: saturating_inc_def add.commute)
qed

text \<open>
  An event can be lost on the way. Its number is taken under the lock of the thread and the event is sent after
  the lock is released, so two emitters can send in the other order; a subscriber then shows the later event and
  passes over the earlier one for good.
\<close>

theorem event_sent_late_is_lost:
  assumes fresh: "unat (ti_last_sequence (tr_inner t)) + 2 < 2 ^ 64" and first: "ty2 \<noteq> lit ''thread.resync_required''"
    and a: "allocate_event n1 ty1 run1 p1 t = (a, t1)" and b: "allocate_event n2 ty2 run2 p2 t1 = (b, t2)"
    and t': "t' = send_event a (send_event b t2)"
  shows "ev_sequence a < ev_sequence b
    \<and> str_shown (stream_after now t (replicate (Suc k) (now', 128, t'))) = [snapshot_event now t, b]"
proof -
  let ?n = "ti_last_sequence (tr_inner t)" and ?len = "length (tr_protocol_events t)"
  let ?snap = "snapshot_event now t"
  have sa: "unat (ev_sequence a) = unat ?n + 1"
    using a fresh by (auto simp: allocate_event_def Let_def unat_saturating_inc)
  have sb: "unat (ev_sequence b) = unat ?n + 2"
    using a b fresh by (auto simp: allocate_event_def Let_def unat_saturating_inc)
  have log: "tr_protocol_events t' = tr_protocol_events t @ [b, a]"
    using a b t' by (auto simp: allocate_event_def Let_def send_event_def)
  have ty: "ev_type b = ty2" using b by (auto simp: allocate_event_def Let_def)
  have ab: "ev_sequence a < ev_sequence b" "?n < ev_sequence b" using sa sb by (simp_all add: word_less_nat_alt)
  have nb: "\<not> ev_sequence b \<le> ?n" using ab(2) by (simp add: not_le)
  have b1: "recv 128 (tr_protocol_events t') ?len = (Got b, Suc ?len)"
    and b2: "recv 128 (tr_protocol_events t') (Suc ?len) = (Got a, Suc (Suc ?len))"
    and b3: "recv 128 (tr_protocol_events t') (Suc (Suc ?len)) = (Waiting, Suc (Suc ?len))"
    by (simp_all add: recv_def log nth_append)
  have r3: "recv_thread_stream_event now' 128 t' (Suc (Suc ?len)) (ev_sequence b) = (None, Suc (Suc ?len), ev_sequence b)"
    by (subst recv_thread_stream_event.simps) (simp add: b3)
  have r2: "recv_thread_stream_event now' 128 t' (Suc ?len) (ev_sequence b) = (None, Suc (Suc ?len), ev_sequence b)"
    by (subst recv_thread_stream_event.simps) (use ab in \<open>simp add: b2 r3\<close>)
  have r1: "recv_thread_stream_event now' 128 t' ?len ?n = (Some b, Suc ?len, ev_sequence b)"
    by (subst recv_thread_stream_event.simps) (simp add: b1 nb)
  have "stream_after now t (replicate (Suc k) (now', 128, t')) =
      \<lparr>str_pos = (if k = 0 then Suc ?len else Suc (Suc ?len)), str_seen = ev_sequence b, str_shown = [?snap, b], str_open = True\<rparr>"
  proof (induction k)
    case 0
    show ?case using first ty r1
      by (simp add: stream_after_def subscribe_thread_stream_def Let_def poll_thread_stream_def snapshot_event_def)
  next
    case (Suc k)
    have "stream_after now t (replicate (Suc (Suc k)) (now', 128, t')) =
        poll_thread_stream now' 128 t' (stream_after now t (replicate (Suc k) (now', 128, t')))"
      unfolding stream_after_def by (subst replicate_Suc, subst replicate_append_same[symmetric]) simp
    then show ?case using r2 r3 by (simp add: Suc.IH poll_thread_stream_def del: replicate_Suc)
  qed
  then show ?thesis using ab by simp
qed

definition demo_text :: "string \<Rightarrow> EventPayload" where
  "demo_text s = PayloadJson (VString (lit s))"

theorem event_sent_late_is_lost_witness:
  "case allocate_event 1 (lit ''a'') None (demo_text ''a'') demo_thread of (a, t1) \<Rightarrow>
     case allocate_event 1 (lit ''b'') None (demo_text ''b'') t1 of (b, t2) \<Rightarrow>
       map ev_type (str_shown (stream_after 1 demo_thread (replicate (Suc 6) (2, 128, send_event a (send_event b t2))))) =
         [lit ''thread.snapshot'', lit ''b'']"
proof -
  obtain a t1 where a: "allocate_event 1 (lit ''a'') None (demo_text ''a'') demo_thread = (a, t1)" by fastforce
  obtain b t2 where b: "allocate_event 1 (lit ''b'') None (demo_text ''b'') t1 = (b, t2)" by fastforce
  have "ev_type b = lit ''b''" using b by (auto simp: allocate_event_def Let_def)
  moreover have "unat (ti_last_sequence (tr_inner demo_thread)) + 2 < 2 ^ 64"
    by (simp add: demo_thread_def from_inner_def demo_inner_def)
  from event_sent_late_is_lost[OF this _ a b refl, of 1 6 2]
  have "str_shown (stream_after 1 demo_thread (replicate (Suc 6) (2, 128, send_event a (send_event b t2)))) =
      [snapshot_event 1 demo_thread, b]" by simp
  ultimately show ?thesis using a b by (simp add: snapshot_event_def Let_def del: replicate_Suc)
qed
section \<open>Restart\<close>

lemma mode_text_round_trip:
  assumes "m = ReadOnly \<or> m = WorkspaceWrite \<or> m = DangerFullAccess"
  shows "parse_server_permission_mode (mode_as_str m) = Inr m"
proof -
  have "trim (mode_as_str m) = mode_as_str m"
    using assms by (auto intro!: trim_id simp: lit_def is_ws_def)
  then show ?thesis using assms by (auto simp: parse_server_permission_mode_def lit_def)
qed

lemma request_payload_round_trip [simp]: "request_of_payload (payload_from_request q) = q"
  by (simp add: request_of_payload_def payload_from_request_def)

text \<open>What a restart makes of a status: a run that was under way is over.\<close>

fun restarted_status :: "ThreadStatus \<Rightarrow> ThreadStatus" where
  "restarted_status (ThreadRunning r) =
     ThreadInterrupted (Some r) (lit ''previous run ended during server restart or shutdown'')"
| "restarted_status s = s"

text \<open>
  A thread as the handlers leave it: its status says whether its session waits for an answer, and its configuration
  is one \<open>resolve_thread_config\<close> makes.
\<close>

fun status_matches_session :: "ThreadStatus \<Rightarrow> Session \<Rightarrow> bool" where
  "status_matches_session ThreadIdle s = (pending_user_input_request s = None)"
| "status_matches_session (ThreadAwaiting r q) s = (pending_user_input_request s = Some q)"
| "status_matches_session _ s = True"

definition config_restorable :: "ThreadExecutionConfig \<Rightarrow> bool" where
  "config_restorable c \<longleftrightarrow> tc_permission_mode c \<in> {ReadOnly, WorkspaceWrite, DangerFullAccess}
     \<and> sorted (tc_allowed_tools c) \<and> distinct (tc_allowed_tools c)
     \<and> path_components (path_display (tc_cwd c)) = tc_cwd c"

definition row_readable :: "ThreadSerde \<Rightarrow> ThreadInner \<Rightarrow> bool" where
  "row_readable sj i \<longleftrightarrow>
     sj_read_tools sj (sj_tools sj (tc_allowed_tools (ti_config i))) = Inr (tc_allowed_tools (ti_config i))
   \<and> sj_read_session sj (sj_session sj (ti_session i)) = Inr (ti_session i)
   \<and> (\<forall>r q. ti_status i = ThreadAwaiting r q \<longrightarrow>
        sj_read_request sj (sj_request sj (payload_from_request q)) = Inr (payload_from_request q))"

lemma status_text:
  "lit ''running'' \<noteq> lit ''idle''" "lit ''awaiting_user_input'' \<noteq> lit ''idle''" "lit ''interrupted'' \<noteq> lit ''idle''"
  "lit ''awaiting_user_input'' \<noteq> lit ''running''" "lit ''interrupted'' \<noteq> lit ''running''"
  "lit ''interrupted'' \<noteq> lit ''awaiting_user_input''"
  by (simp_all add: lit_def)

text \<open>
  C16: The row of a thread brings the thread back after a restart: identity, times, session, configuration, event
  sequence and status are what they were, except that a run that was under way is now interrupted, and exactly then
  the row is written again.
\<close>

theorem restart_restores_thread:
  assumes "row_readable sj i" and "config_restorable (ti_config i)" and "status_matches_session (ti_status i) (ti_session i)"
  shows "thread_inner_from_persisted sj (persisted_thread_from_inner sj i) =
     Inr (i\<lparr>ti_status := restarted_status (ti_status i)\<rparr>, is_running (ti_status i))"
proof -
  have mode: "parse_server_permission_mode (mode_as_str (tc_permission_mode (ti_config i))) = Inr (tc_permission_mode (ti_config i))"
    using assms(2) by (intro mode_text_round_trip) (auto simp: config_restorable_def)
  have config: "\<lparr>tc_cwd = path_components (path_display (tc_cwd (ti_config i))), tc_model = tc_model (ti_config i),
      tc_permission_mode = tc_permission_mode (ti_config i), tc_allowed_tools = btree_set (tc_allowed_tools (ti_config i))\<rparr> = ti_config i"
    using assms(2) by (simp add: config_restorable_def btree_set_id)
  show ?thesis
    using assms mode config
    by (cases "ti_status i")
      (auto simp: thread_inner_from_persisted_def persisted_thread_from_inner_def decode_allowed_tools_def
        decode_recovered_session_def decode_pending_request_payload_def row_readable_def recovered_status_from_persisted_def
        unwrap_or_def Let_def status_text status_text[symmetric])
qed

text \<open>The threads recovered so far: none is running, and the counters are no smaller than their ids.\<close>

definition recovered_ok :: "(rstr \<times> ThreadRecord) list \<times> ThreadStore \<times> u64 \<times> u64 \<Rightarrow> bool" where
  "recovered_ok acc = (case acc of (threads, st, max_thread, max_run) \<Rightarrow>
     (\<forall>e \<in> set threads. fst e = ti_id (tr_inner (snd e)) \<and> \<not> is_running (ti_status (tr_inner (snd e)))
        \<and> parse_id_counter (fst e) (lit ''thread-'') \<le> max_thread
        \<and> (\<forall>r. status_run_id (ti_status (tr_inner (snd e))) = Some r \<longrightarrow> parse_id_counter r (lit ''run-'') \<le> max_run)))"

lemma recovered_status_not_running:
  "recovered_status_from_persisted p pending sp = Inr (s, rewrite) \<Longrightarrow> \<not> is_running s"
  by (auto simp: recovered_status_from_persisted_def Let_def split: if_splits option.splits)

lemma thread_inner_from_persisted_ok:
  assumes "thread_inner_from_persisted sj p = Inr (i, rewrite)"
  shows "ti_id i = pr_thread_id p" and "\<not> is_running (ti_status i)"
  using assms by (auto simp: thread_inner_from_persisted_def result_simps dest: recovered_status_not_running)

lemma set_bt_insert: "e \<in> set (bt_insert k v m) \<Longrightarrow> e = (k, v) \<or> e \<in> set m"
  by (induction k v m rule: bt_insert.induct) (auto split: if_splits)

lemma recover_thread_ok:
  assumes "recover_thread sj fault p acc = Inr acc'" and "recovered_ok acc"
  shows "recovered_ok acc'"
proof -
  obtain threads st mt mr where acc: "acc = (threads, st, mt, mr)" by (cases acc)
  define mr1 where "mr1 = (case pr_last_run_id p of Some r \<Rightarrow> max mr (parse_id_counter r (lit ''run-'')) | None \<Rightarrow> mr)"
  from assms(1) obtain i rewrite st' where i: "thread_inner_from_persisted sj p = Inr (i, rewrite)"
    and acc': "acc' = (bt_insert (ti_id i) (from_inner i) threads, st', max mt (parse_id_counter (pr_thread_id p) (lit ''thread-'')),
       case status_run_id (ti_status i) of Some r \<Rightarrow> max mr1 (parse_id_counter r (lit ''run-'')) | None \<Rightarrow> mr1)"
    unfolding mr1_def by (auto simp: recover_thread_def acc Let_def result_simps)
  have grow: "mr \<le> mr1" by (simp add: mr1_def split: option.split)
  note ok = thread_inner_from_persisted_ok[OF i]
  show ?thesis
    using assms(2) ok grow unfolding acc acc' recovered_ok_def
    by (fastforce dest!: set_bt_insert simp: from_inner_def le_max_iff_disj split: option.splits)
qed

lemma recover_threads_ok:
  "recover_threads sj fault ps acc = Inr acc' \<Longrightarrow> recovered_ok acc \<Longrightarrow> recovered_ok acc'"
proof (induction ps arbitrary: acc)
  case (Cons p ps)
  then obtain acc1 where "recover_thread sj fault p acc = Inr acc1" "recover_threads sj fault ps acc1 = Inr acc'"
    by (auto simp: result_simps)
  with Cons.IH Cons.prems(2) recover_thread_ok show ?case by blast
qed simp

lemma parse_id_counter_allocated [simp]: "parse_id_counter (prefix @ show_nat (unat n)) prefix = n"
  by (simp add: parse_id_counter_def parse_u64_show unwrap_or_def)

lemma saturating_inc_greater: "unat (saturating_inc n) < 2 ^ 64 - 1 \<Longrightarrow> n < saturating_inc n"
proof -
  assume small: "unat (saturating_inc n) < 2 ^ 64 - 1"
  have "n \<noteq> - 1" using small by (auto simp: saturating_inc_def unsigned_minus_1_eq_mask mask_eq_exp_minus_1)
  then have "1 + n \<noteq> 0" by (metis add.commute eq_neg_iff_add_eq_0)
  then have "unat (1 + n) = Suc (unat n)" by (rule unatSuc)
  moreover have "saturating_inc n = 1 + n" using \<open>n \<noteq> - 1\<close> by (simp add: saturating_inc_def)
  ultimately
  show "n < saturating_inc n" by (simp add: word_less_nat_alt)
qed

text \<open>
  C31: After a restart no recovered thread is running, so each can be started again, each is filed under its id, and
  the ids handed out next - while the counters are below their maximum - are neither the id of a recovered thread nor
  the run its status names. The runs of idle threads are not stored: their ids can come back.
\<close>

theorem restart_starts_clean:
  assumes "load_app sj fault cwd token query_fault st = Inr a"
    and "unat (app_next_thread_id a) < 2 ^ 64 - 1" and "unat (app_next_run_id a) < 2 ^ 64 - 1"
    and "(i, t) \<in> set (app_threads a)"
  shows "i = ti_id (tr_inner t) \<and> \<not> is_running (ti_status (tr_inner t)) \<and> fst (allocate_thread_id a) \<noteq> i
    \<and> status_run_id (ti_status (tr_inner t)) \<noteq> Some (fst (allocate_run_id a))"
proof -
  obtain st' mt mr where r: "recovered_ok (app_threads a, st', mt, mr)"
    and next_thread: "app_next_thread_id a = saturating_inc mt" and next_run: "app_next_run_id a = saturating_inc mr"
    using assms(1) recover_threads_ok[of sj fault _ "([], st, 0, 0)"]
    by (fastforce simp: load_app_def result_simps recovered_ok_def)
  note grow = saturating_inc_greater[OF assms(2)[unfolded next_thread]] saturating_inc_greater[OF assms(3)[unfolded next_run]]
  have thread: "i = ti_id (tr_inner t)" "\<not> is_running (ti_status (tr_inner t))" "parse_id_counter i (lit ''thread-'') \<le> mt"
    and run: "status_run_id (ti_status (tr_inner t)) = Some r \<Longrightarrow> parse_id_counter r (lit ''run-'') \<le> mr" for r
    using r assms(4) by (fastforce simp: recovered_ok_def)+
  have "fst (allocate_thread_id a) \<noteq> i"
    using thread(3) grow(1) by (auto simp: allocate_thread_id_def next_thread)
  moreover have "status_run_id (ti_status (tr_inner t)) \<noteq> Some (fst (allocate_run_id a))"
    using run grow(2) by (force simp: allocate_run_id_def next_run)
  ultimately show ?thesis using thread by simp
qed

lemma demo_cwd: "path_components (path_display [RootDir, Normal (lit ''w'')]) = [RootDir, Normal (lit ''w'')]"
  by code_simp

theorem restart_restores_thread_witness:
  "thread_inner_from_persisted demo_thread_serde
     (persisted_thread_from_inner demo_thread_serde (demo_inner (ThreadRunning (lit ''run-1'')))) =
   Inr (demo_inner (ThreadInterrupted (Some (lit ''run-1'')) (lit ''previous run ended during server restart or shutdown'')), True)"
proof -
  have "row_readable demo_thread_serde (demo_inner (ThreadRunning (lit ''run-1'')))"
    by (simp add: row_readable_def demo_inner_def demo_thread_serde_def demo_config_def)
  moreover have "config_restorable (ti_config (demo_inner (ThreadRunning (lit ''run-1''))))"
    by (simp add: config_restorable_def demo_inner_def demo_config_def demo_cwd)
  ultimately show ?thesis
    using restart_restores_thread[of demo_thread_serde "demo_inner (ThreadRunning (lit ''run-1''))"]
    by (simp add: demo_inner_def)
qed

abbreviation demo_interrupted :: ThreadInner where
  "demo_interrupted \<equiv> demo_inner (ThreadInterrupted None [])"

lemma demo_row_read:
  "thread_inner_from_persisted demo_thread_serde (persisted_thread_from_inner demo_thread_serde demo_interrupted) =
     Inr (demo_interrupted, False)"
proof -
  have mode: "parse_server_permission_mode (lit ''read-only'') = Inr ReadOnly"
    using mode_text_round_trip[of ReadOnly] by simp
  have "btree_set ([] :: rstr list) = []" by (simp add: btree_set_id)
  then show ?thesis
    by (simp add: thread_inner_from_persisted_def demo_thread_serde_def persisted_thread_from_inner_def demo_inner_def
        demo_config_def demo_cwd decode_allowed_tools_def decode_recovered_session_def decode_pending_request_payload_def
        recovered_status_from_persisted_def status_text unwrap_or_def mode)
qed

lemma demo_row_recovered:
  "load_app demo_thread_serde (\<lambda>_. None) [RootDir] [] None
     \<lparr>st_rows = [(lit ''thread-1'', persisted_thread_from_inner demo_thread_serde demo_interrupted)], st_version = 1\<rparr>
   = Inr \<lparr>app_cwd = [RootDir],
       app_store = \<lparr>st_rows = [(lit ''thread-1'', persisted_thread_from_inner demo_thread_serde demo_interrupted)],
         st_version = 1\<rparr>,
       app_threads = [(lit ''thread-1'', from_inner demo_interrupted)],
       app_next_thread_id = 2, app_next_run_id = 1, app_operator_token = []\<rparr>"
proof -
  have "lit ''thread-1'' = lit ''thread-'' @ show_nat (unat (1 :: u64))" by (simp add: lit_def show_nat.simps)
  then have "parse_id_counter (lit ''thread-1'') (lit ''thread-'') = 1" by (simp only: parse_id_counter_allocated)
  moreover have "pr_thread_id (persisted_thread_from_inner demo_thread_serde demo_interrupted) = lit ''thread-1''"
    "pr_last_run_id (persisted_thread_from_inner demo_thread_serde demo_interrupted) = None"
    "ti_id demo_interrupted = lit ''thread-1''" "ti_status demo_interrupted = ThreadInterrupted None []"
    by (simp_all add: persisted_thread_from_inner_def demo_inner_def)
  ultimately have row: "recover_thread demo_thread_serde (\<lambda>_. None) (persisted_thread_from_inner demo_thread_serde demo_interrupted)
      ([], st, 0, 0) = Inr ([(lit ''thread-1'', from_inner demo_interrupted)], st, 1, 0)" for st
    by (simp add: recover_thread_def demo_row_read)
  have next_ids: "saturating_inc 1 = 2" "saturating_inc 0 = 1" by code_simp+
  show ?thesis by (simp only: load_app_def load_threads_def option.case ThreadStore.simps list.map snd_conv res_bind.simps
      recover_threads.simps row split next_ids)
qed

theorem restart_starts_clean_witness:
  "\<not> is_running (ti_status (tr_inner (from_inner demo_interrupted))) \<and> lit ''thread-2'' \<noteq> lit ''thread-1''"
  using restart_starts_clean[OF demo_row_recovered, of "lit ''thread-1''" "from_inner demo_interrupted"]
  by (simp add: lit_def demo_inner_def from_inner_def)

section \<open>Permissions of a thread\<close>

definition config_ceiling :: "RuntimeFeatureConfig \<Rightarrow> PermissionMode" where
  "config_ceiling config =
     (case fc_permission_mode config of None \<Rightarrow> DangerFullAccess | Some m \<Rightarrow> permission_mode_from_resolved m)"

lemma permission_mode_from_resolved_cases:
  "permission_mode_from_resolved m \<in> {ReadOnly, WorkspaceWrite, DangerFullAccess}"
  by (cases m) (simp_all add: permission_mode_from_resolved_def)

lemma ceiling_cases: "config_ceiling config \<in> {ReadOnly, WorkspaceWrite, DangerFullAccess}"
  using permission_mode_from_resolved_cases by (simp add: config_ceiling_def split: option.split)

lemma encompasses_refl: "m \<in> {ReadOnly, WorkspaceWrite, DangerFullAccess} \<Longrightarrow> encompasses m m"
  by (auto simp: encompasses_def)

lemma clamp_below_ceiling: "encompasses (config_ceiling config) (clamp_permission_mode_to_ceiling m (config_ceiling config))"
  using ceiling_cases[of config] by (simp add: clamp_permission_mode_to_ceiling_def encompasses_refl)

lemma permission_specs_allowed:
  assumes "(n, m) \<in> set (permission_specs GlobalToolRegistry_builtin (Some allowed))"
  shows "n \<in> set allowed"
  using assms
  by (auto simp: permission_specs_def GlobalToolRegistry_builtin_def enabled_optional_builtin_specs_def allowed_or_all_def
      allowed_by_name_def)

text \<open>
  C12: A thread never gets more than the configuration grants: whatever mode and tools a request asks for, the mode of
  the thread is within the configured one, every tool the thread may use is one the registry knows and needs no more
  than the mode of the thread, and a request that lists its tools gets no others.
\<close>

theorem thread_within_ceiling:
  assumes "resolve_thread_config h a payload = Inr c"
  shows "\<exists>config requested. sh_config h (tc_cwd c) = Inr config
     \<and> resolve_requested_allowed_tools GlobalToolRegistry_builtin payload = Inr requested
     \<and> encompasses (config_ceiling config) (tc_permission_mode c)
     \<and> set (tc_allowed_tools c) \<subseteq> set requested
     \<and> (\<forall>n. n \<in> set (tc_allowed_tools c) \<longrightarrow> (\<exists>m. (n, m) \<in> set (permission_specs GlobalToolRegistry_builtin (Some requested))
          \<and> encompasses (tc_permission_mode c) m))"
proof -
  from assms obtain cwd config requested allowed
    where cfg: "sh_config h cwd = Inr config"
      and asked: "transpose_map parse_server_permission_mode (ct_permission_mode payload) = Inr requested"
      and allowed: "resolve_requested_allowed_tools GlobalToolRegistry_builtin payload = Inr allowed"
      and c: "tc_cwd c = cwd" "tc_permission_mode c =
          (case requested of None \<Rightarrow> config_ceiling config | Some m \<Rightarrow> clamp_permission_mode_to_ceiling m (config_ceiling config))"
        "tc_allowed_tools c = clamp_allowed_tools_to_permission_mode GlobalToolRegistry_builtin allowed (tc_permission_mode c)"
    unfolding config_ceiling_def by (auto simp: resolve_thread_config_def result_simps Let_def)
  have "encompasses (config_ceiling config) (tc_permission_mode c)"
    unfolding c(2) using clamp_below_ceiling encompasses_refl[OF ceiling_cases] by (simp split: option.split)
  moreover have "set (tc_allowed_tools c) \<subseteq> set allowed"
    unfolding c(3) clamp_allowed_tools_to_permission_mode_def by (auto dest: permission_specs_allowed)
  moreover have "\<exists>m. (n, m) \<in> set (permission_specs GlobalToolRegistry_builtin (Some allowed)) \<and> encompasses (tc_permission_mode c) m"
    if "n \<in> set (tc_allowed_tools c)" for n
    using that unfolding c(3) clamp_allowed_tools_to_permission_mode_def
    by auto
  ultimately show ?thesis using cfg c(1) allowed by blast
qed

definition demo_app :: AppState where
  "demo_app = \<lparr>app_cwd = [RootDir], app_store = demo_store, app_threads = [], app_next_thread_id = 1, app_next_run_id = 1,
     app_operator_token = []\<rparr>"

theorem thread_within_ceiling_witness:
  "\<forall>config. \<exists>c. resolve_thread_config \<lparr>sh_canonicalize = Inr, sh_config = (\<lambda>_. Inr config), sh_pid = 1\<rparr> demo_app
       CreateThreadRequest_default = Inr c
     \<and> encompasses (config_ceiling config) (tc_permission_mode c)"
proof
  fix config
  let ?h = "\<lparr>sh_canonicalize = Inr, sh_config = (\<lambda>_. Inr config), sh_pid = 1\<rparr>"
  obtain c where c: "resolve_thread_config ?h demo_app CreateThreadRequest_default = Inr c"
    by (simp add: resolve_thread_config_def resolve_thread_cwd_def CreateThreadRequest_default_def
        resolve_requested_allowed_tools_def Let_def)
  then show "\<exists>c. resolve_thread_config ?h demo_app CreateThreadRequest_default = Inr c
      \<and> encompasses (config_ceiling config) (tc_permission_mode c)"
    using thread_within_ceiling[OF c] by auto
qed

end
