(* ===== verification/Provider_Errors.thy ===== *)
theory Provider_Errors
  imports OAuth_Store
begin

text \<open>
  How the providers of \<open>api/src\<close> fail and try again: the errors of \<open>error.rs\<close>, what a response that is no success
  becomes, and the loop that sends a request again (\<open>send_with_retry\<close> of \<open>openai_compat.rs\<close> and of
  \<open>openyak_provider.rs\<close>, two loops of their own).

  The transport is a call over a world \<open>'w\<close>. A \<open>Duration\<close> is its number of nanoseconds; the arithmetic of \<open>u32\<close>
  wraps, as in the release build.
\<close>

section \<open>Errors\<close>

type_synonym duration = nat

text \<open>What the code asks of a \<open>reqwest::Error\<close>: its three kinds and its text.\<close>

record HttpFailure =
  hf_connect :: bool
  hf_timeout :: bool
  hf_request :: bool
  hf_text :: rstr

datatype ProviderError =
    MissingCredentials rstr "rstr list"
  | ExpiredOAuthToken
  | AuthError rstr
  | InvalidApiKeyEnv rstr
  | HttpError HttpFailure
  | IoFailed IoError
  | JsonError rstr
  | ApiStatus nat "rstr option" "rstr option" rstr bool
  | RetriesExhausted u32 ProviderError
  | InvalidSseFrame rstr
  | BackoffOverflow u32 duration

fun is_retryable :: "ProviderError \<Rightarrow> bool" where
  "is_retryable (HttpError e) \<longleftrightarrow> hf_connect e \<or> hf_timeout e \<or> hf_request e"
| "is_retryable (ApiStatus status ty msg body retryable) \<longleftrightarrow> retryable"
| "is_retryable (RetriesExhausted attempts e) \<longleftrightarrow> is_retryable e"
| "is_retryable (MissingCredentials provider vars) \<longleftrightarrow> False"
| "is_retryable ExpiredOAuthToken \<longleftrightarrow> False"
| "is_retryable (AuthError msg) \<longleftrightarrow> False"
| "is_retryable (InvalidApiKeyEnv e) \<longleftrightarrow> False"
| "is_retryable (IoFailed e) \<longleftrightarrow> False"
| "is_retryable (JsonError e) \<longleftrightarrow> False"
| "is_retryable (InvalidSseFrame msg) \<longleftrightarrow> False"
| "is_retryable (BackoffOverflow attempt d) \<longleftrightarrow> False"

text \<open>
  The texts of the library's own values: an I/O error, a status line (\<open>404 Not Found\<close>), a duration printed with
  \<open>{:?}\<close>.
\<close>

record Shows =
  shown_io :: "IoError \<Rightarrow> rstr"
  shown_status :: "nat \<Rightarrow> rstr"
  shown_duration :: "duration \<Rightarrow> rstr"

fun display_error :: "Shows \<Rightarrow> ProviderError \<Rightarrow> rstr" where
  "display_error sh (MissingCredentials provider vars) =
     lit ''missing '' @ provider @ lit '' credentials; export '' @ join (lit '' or '') vars
     @ lit '' before calling the '' @ provider @ lit '' API''"
| "display_error sh ExpiredOAuthToken = lit ''saved OAuth token is expired and no refresh token is available''"
| "display_error sh (AuthError msg) = lit ''auth error: '' @ msg"
| "display_error sh (InvalidApiKeyEnv e) = lit ''failed to read credential environment variable: '' @ e"
| "display_error sh (HttpError e) = lit ''http error: '' @ hf_text e"
| "display_error sh (IoFailed e) = lit ''io error: '' @ shown_io sh e"
| "display_error sh (JsonError e) = lit ''json error: '' @ e"
| "display_error sh (ApiStatus status ty msg body retryable) =
     (case (ty, msg) of
        (Some t, Some m) \<Rightarrow> lit ''api returned '' @ shown_status sh status @ lit '' ('' @ t @ lit ''): '' @ m
      | _ \<Rightarrow> lit ''api returned '' @ shown_status sh status @ lit '': '' @ body)"
| "display_error sh (RetriesExhausted attempts e) =
     lit ''api failed after '' @ show_nat (unat attempts) @ lit '' attempts: '' @ display_error sh e"
| "display_error sh (InvalidSseFrame msg) = lit ''invalid sse frame: '' @ msg"
| "display_error sh (BackoffOverflow attempt d) =
     lit ''retry backoff overflowed on attempt '' @ show_nat (unat attempt) @ lit '' with base delay ''
     @ shown_duration sh d"

section \<open>Responses\<close>

text \<open>
  A response: its status, its headers in order (a value that is not visible text is \<open>None\<close>) and its body, read at
  once (\<open>None\<close> when that fails) or chunk by chunk.
\<close>

record HttpResponse =
  hr_status :: nat
  hr_headers :: "(rstr \<times> rstr option) list"
  hr_body :: "rstr option"
  hr_chunks :: "(HttpFailure + u8 list) list"

definition REQUEST_ID_HEADER :: rstr where
  "REQUEST_ID_HEADER = lit ''request-id''"

definition ALT_REQUEST_ID_HEADER :: rstr where
  "ALT_REQUEST_ID_HEADER = lit ''x-request-id''"

definition request_id_from_headers :: "(rstr \<times> rstr option) list \<Rightarrow> rstr option" where
  "request_id_from_headers headers =
     (case (case map_of headers REQUEST_ID_HEADER of
              Some v \<Rightarrow> Some v
            | None \<Rightarrow> map_of headers ALT_REQUEST_ID_HEADER) of
        Some v \<Rightarrow> v
      | None \<Rightarrow> None)"

record ErrorBody =
  eb_error_type :: "rstr option"
  eb_message :: "rstr option"

record ErrorEnvelope =
  ee_error :: "ErrorBody option"
  ee_detail :: "rstr option"
  ee_message :: "rstr option"

definition is_retryable_status :: "nat \<Rightarrow> bool" where
  "is_retryable_status s = (s \<in> {408, 409, 429, 500, 502, 503, 504})"

definition some_or :: "'a option \<Rightarrow> 'a option \<Rightarrow> 'a option" where
  "some_or a b = (case a of Some x \<Rightarrow> Some x | None \<Rightarrow> b)"

definition envelope_type :: "ErrorEnvelope \<Rightarrow> rstr option" where
  "envelope_type e = Option.bind (ee_error e) eb_error_type"

definition envelope_message :: "ErrorEnvelope \<Rightarrow> rstr option" where
  "envelope_message e =
     some_or (Option.bind (ee_error e) eb_message) (some_or (ee_message e) (ee_detail e))"

text \<open>The reader of the envelope is the derived one of \<open>serde_json\<close>; \<open>None\<close> is \<open>.ok()\<close> of its error.\<close>

definition expect_success :: "(rstr \<Rightarrow> ErrorEnvelope option) \<Rightarrow> HttpResponse \<Rightarrow> ProviderError + HttpResponse" where
  "expect_success envelope r =
     (if 200 \<le> hr_status r \<and> hr_status r < 300 then Inr r
      else
        let body = unwrap_or [] (hr_body r); parsed = envelope body in
        Inl (ApiStatus (hr_status r) (Option.bind parsed envelope_type) (Option.bind parsed envelope_message)
               body (is_retryable_status (hr_status r))))"

text \<open>The provider of \<open>openyak_provider.rs\<close> reads another envelope, whose error, type and message are required.\<close>

record ApiErrorBody =
  ab_error_type :: rstr
  ab_message :: rstr

definition openyak_expect_success :: "(rstr \<Rightarrow> ApiErrorBody option) \<Rightarrow> HttpResponse \<Rightarrow> ProviderError + HttpResponse" where
  "openyak_expect_success envelope r =
     (if 200 \<le> hr_status r \<and> hr_status r < 300 then Inr r
      else
        let body = unwrap_or [] (hr_body r); parsed = envelope body in
        Inl (ApiStatus (hr_status r) (map_option ab_error_type parsed) (map_option ab_message parsed)
               body (is_retryable_status (hr_status r))))"

section \<open>Trying again\<close>

record RetryPolicy =
  rp_max_retries :: u32
  rp_initial_backoff :: duration
  rp_max_backoff :: duration

definition default_retry_policy :: RetryPolicy where
  "default_retry_policy =
     \<lparr>rp_max_retries = 2, rp_initial_backoff = 200000000, rp_max_backoff = 2000000000\<rparr>"

text \<open>\<open>Duration::checked_mul\<close>: a duration holds fewer than 2 to the 64 seconds.\<close>

definition duration_checked_mul :: "duration \<Rightarrow> u32 \<Rightarrow> duration option" where
  "duration_checked_mul d m = (if d * unat m < 2 ^ 64 * 1000000000 then Some (d * unat m) else None)"

definition checked_shl_one :: "u32 \<Rightarrow> u32 option" where
  "checked_shl_one n = (if unat n < 32 then Some (push_bit (unat n) 1) else None)"

definition backoff_for_attempt :: "RetryPolicy \<Rightarrow> u32 \<Rightarrow> ProviderError + duration" where
  "backoff_for_attempt p attempt =
     (case checked_shl_one (if attempt = 0 then 0 else attempt - 1) of
        None \<Rightarrow> Inl (BackoffOverflow attempt (rp_initial_backoff p))
      | Some multiplier \<Rightarrow>
          Inr (case duration_checked_mul (rp_initial_backoff p) multiplier of
                 None \<Rightarrow> rp_max_backoff p
               | Some delay \<Rightarrow> min delay (rp_max_backoff p)))"

text \<open>
  The loop of \<open>openai_compat.rs\<close>. A try sends the request and reads what came back with \<open>expect_success\<close>; \<open>sleep\<close>
  lets time pass.
\<close>

lemma backoff_Inr_attempt: "backoff_for_attempt p k = Inr d \<Longrightarrow> unat k \<le> 32"
proof (cases "k = 0")
  case False
  assume "backoff_for_attempt p k = Inr d"
  then have "unat (k - 1) < 32"
    using False by (simp add: backoff_for_attempt_def checked_shl_one_def split: if_splits)
  then show ?thesis using False by (simp add: unat_minus_one)
qed simp

definition retry_rank :: "u32 \<Rightarrow> nat" where
  "retry_rank n = (if n = - 1 then 40 else 33 - unat n)"

lemma unat_plus_one: "(n :: u32) \<noteq> - 1 \<Longrightarrow> unat (n + 1) = unat n + 1"
proof -
  assume n: "n \<noteq> - 1"
  have "1 + n \<noteq> 0"
  proof
    assume "1 + n = 0"
    then have "n + 1 = 0" by (simp only: add.commute)
    then show False using n by (simp only: eq_neg_iff_add_eq_0[symmetric])
  qed
  then show ?thesis using unatSuc[of n] by (simp add: add.commute)
qed

lemma small_not_max: "unat (n :: u32) \<le> 32 \<Longrightarrow> n \<noteq> - 1"
proof
  assume s: "unat n \<le> 32" and "n = - 1"
  then have "unat n = 4294967295" by (simp only: unsigned_minus_1_eq_mask mask_eq_exp_minus_1) simp
  with s show False by simp
qed

lemma retry_rank_less:
  assumes "backoff_for_attempt p (n + 1) = Inr d"
  shows "retry_rank (n + 1) < retry_rank n"
proof (cases "n = - 1")
  case True
  then show ?thesis by (simp add: retry_rank_def)
next
  case False
  have small: "unat (n + 1) \<le> 32" by (rule backoff_Inr_attempt[OF assms])
  from small_not_max[OF small] small unat_plus_one[OF False] False show ?thesis by (simp add: retry_rank_def)
qed

function send_with_retry ::
  "RetryPolicy \<Rightarrow> ('w \<Rightarrow> (ProviderError + 'r) \<times> 'w) \<Rightarrow> (duration \<Rightarrow> 'w \<Rightarrow> 'w) \<Rightarrow> u32 \<Rightarrow> 'w \<Rightarrow> (ProviderError + 'r) \<times> 'w"
where
  "send_with_retry p send sleep attempts w =
     (case send w of
        (Inr r, w1) \<Rightarrow> (Inr r, w1)
      | (Inl e, w1) \<Rightarrow>
          if is_retryable e \<and> attempts + 1 \<le> rp_max_retries p + 1 then
            if attempts + 1 > rp_max_retries p then (Inl (RetriesExhausted (attempts + 1) e), w1)
            else
              (case backoff_for_attempt p (attempts + 1) of
                 Inl err \<Rightarrow> (Inl err, w1)
               | Inr d \<Rightarrow> send_with_retry p send sleep (attempts + 1) (sleep d w1))
          else (Inl e, w1))"
  by pat_completeness auto

termination send_with_retry
  by (relation "measure (\<lambda>(_, _, _, n, _). retry_rank n)") (simp_all add: retry_rank_less)

text \<open>
  The loop of \<open>openyak_provider.rs\<close>, which keeps the last error in a variable that is empty at first and expects it
  to be set after the loop: the outer \<open>None\<close> is the panic of \<open>expect\<close>.
\<close>

function openyak_send_with_retry ::
  "RetryPolicy \<Rightarrow> ('w \<Rightarrow> (ProviderError + 'r) \<times> 'w) \<Rightarrow> (duration \<Rightarrow> 'w \<Rightarrow> 'w) \<Rightarrow> u32 \<Rightarrow> ProviderError option \<Rightarrow> 'w
     \<Rightarrow> ((ProviderError + 'r) \<times> 'w) option"
where
  "openyak_send_with_retry p send sleep attempts last_error w =
     (case (case send w of
              (Inr r, w1) \<Rightarrow> (Some (Inr r), last_error, w1)
            | (Inl e, w1) \<Rightarrow>
                if is_retryable e \<and> attempts + 1 \<le> rp_max_retries p + 1 then (None, Some e, w1)
                else (Some (Inl e), last_error, w1)) of
        (Some result, _, w1) \<Rightarrow> Some (result, w1)
      | (None, last_error', w1) \<Rightarrow>
          if attempts + 1 > rp_max_retries p then
            map_option (\<lambda>e. (Inl (RetriesExhausted (attempts + 1) e), w1)) last_error'
          else
            (case backoff_for_attempt p (attempts + 1) of
               Inl err \<Rightarrow> Some (Inl err, w1)
             | Inr d \<Rightarrow> openyak_send_with_retry p send sleep (attempts + 1) last_error' (sleep d w1)))"
  by pat_completeness auto

termination openyak_send_with_retry
  by (relation "measure (\<lambda>(_, _, _, n, _, _). retry_rank n)") (simp_all add: retry_rank_less)

declare send_with_retry.simps [simp del] openyak_send_with_retry.simps [simp del]

end
