(* ===== verification/Sse_Frames.thy ===== *)
theory Sse_Frames
  imports Provider_Errors Provider_Client Utf8 Str_Slice
begin

text \<open>
  The byte parsers of the providers: \<open>SseParser\<close> of \<open>api/src/sse.rs\<close> and \<open>OpenAiSseParser\<close> of
  \<open>api/src/providers/openai_compat.rs\<close>. Both cut the bytes of a response into frames at the first empty line, decode
  a frame and read the event of its data lines; they differ in how a frame is read. A parser is its buffer.
\<close>

section \<open>Frames\<close>

text \<open>\<open>buffer.windows(n).position(|window| window == pattern)\<close> for a pattern of \<open>n\<close> bytes.\<close>

fun find_window :: "'a list \<Rightarrow> 'a list \<Rightarrow> nat option" where
  "find_window p [] = None"
| "find_window p (b # bs) = (if take (length p) (b # bs) = p then Some 0 else map_option Suc (find_window p bs))"

definition LF_LF :: "u8 list" where
  "LF_LF = [10, 10]"

definition CRLF_CRLF :: "u8 list" where
  "CRLF_CRLF = [13, 10, 13, 10]"

definition frame_separator :: "u8 list \<Rightarrow> (nat \<times> nat) option" where
  "frame_separator buf =
     (case find_window LF_LF buf of
        Some position \<Rightarrow> Some (position, 2)
      | None \<Rightarrow> map_option (\<lambda>position. (position, 4)) (find_window CRLF_CRLF buf))"

definition next_sse_frame :: "u8 list \<Rightarrow> (rstr \<times> u8 list) option" where
  "next_sse_frame buf =
     map_option (\<lambda>(position, separator_len).
         (from_utf8_lossy (take position buf), drop (position + separator_len) buf))
       (frame_separator buf)"

lemma find_window_bound: "find_window p bs = Some i \<Longrightarrow> i < length bs"
  by (induction p bs arbitrary: i rule: find_window.induct) (auto split: if_splits)

lemma next_sse_frame_shorter: "next_sse_frame buf = Some (f, rest) \<Longrightarrow> length rest < length buf"
  by (auto simp: next_sse_frame_def frame_separator_def dest!: find_window_bound split: option.splits)

text \<open>
  The loop of \<open>push\<close>: an event of every frame the buffer holds. An error ends it; the events before it are dropped
  and the frames after it stay.
\<close>

definition option_list :: "'a option \<Rightarrow> 'a list" where
  "option_list x = (case x of None \<Rightarrow> [] | Some y \<Rightarrow> [y])"

lemma option_list_simps [simp]: "option_list None = []" "option_list (Some x) = [x]"
  by (simp_all add: option_list_def)

function push_frames ::
  "(rstr \<Rightarrow> ProviderError + 'e option) \<Rightarrow> 'e list \<Rightarrow> u8 list \<Rightarrow> (ProviderError + 'e list) \<times> u8 list"
where
  "push_frames read events buf =
     (case next_sse_frame buf of
        None \<Rightarrow> (Inr events, buf)
      | Some (frame, rest) \<Rightarrow>
          (case read frame of
             Inl e \<Rightarrow> (Inl e, rest)
           | Inr event \<Rightarrow> push_frames read (events @ option_list event) rest))"
  by pat_completeness auto

termination push_frames
  by (relation "measure (\<lambda>(_, _, buf). length buf)") (auto simp: next_sse_frame_shorter)

declare push_frames.simps [simp del]

definition sse_push ::
  "(rstr \<Rightarrow> ProviderError + 'e option) \<Rightarrow> u8 list \<Rightarrow> u8 list \<Rightarrow> (ProviderError + 'e list) \<times> u8 list" where
  "sse_push read buf chunk = push_frames read [] (buf @ chunk)"

text \<open>\<open>finish\<close>: what is left in the buffer is the last frame.\<close>

definition sse_finish_frames ::
  "(rstr \<Rightarrow> ProviderError + 'e option) \<Rightarrow> u8 list \<Rightarrow> (ProviderError + 'e list) \<times> u8 list" where
  "sse_finish_frames read buf =
     (if buf = [] then (Inr [], []) else (map_sum id option_list (read (from_utf8_lossy buf)), []))"

section \<open>A frame of the provider's own protocol\<close>

fun event_lines :: "rstr option \<times> rstr list \<Rightarrow> rstr list \<Rightarrow> rstr option \<times> rstr list" where
  "event_lines (name, data) [] = (name, data)"
| "event_lines (name, data) (line # ls) =
     (if starts_with (lit '':'') line then event_lines (name, data) ls
      else
        (case strip_prefix (lit ''event:'') line of
           Some n \<Rightarrow> event_lines (Some (trim n), data) ls
         | None \<Rightarrow>
             (case strip_prefix (lit ''data:'') line of
                Some d \<Rightarrow> event_lines (name, data @ [trim_start d]) ls
              | None \<Rightarrow> event_lines (name, data) ls)))"

definition DONE :: rstr where
  "DONE = lit ''[DONE]''"

definition parse_frame :: "(rstr \<Rightarrow> rstr + StreamEvent) \<Rightarrow> rstr \<Rightarrow> ProviderError + StreamEvent option" where
  "parse_frame event frame =
     (let trimmed = trim frame in
      if trimmed = [] then Inr None
      else
        (case event_lines (None, []) (str_lines trimmed) of
           (name, data) \<Rightarrow>
             if name = Some (lit ''ping'') then Inr None
             else if data = [] then Inr None
             else
               let payload = join [10] data in
               if payload = DONE then Inr None
               else map_sum JsonError Some (event payload)))"

section \<open>A frame of a chat completion\<close>

record OpenAiUsage =
  ou_prompt_tokens :: u32
  ou_completion_tokens :: u32

record DeltaFunction =
  df_name :: "rstr option"
  df_arguments :: "rstr option"

record DeltaToolCall =
  dt_index :: u32
  dt_id :: "rstr option"
  dt_function :: DeltaFunction

record ChunkDelta =
  cd_content :: "rstr option"
  cd_tool_calls :: "DeltaToolCall list"

record ChunkChoice =
  cc_delta :: ChunkDelta
  cc_finish_reason :: "rstr option"

record ChatCompletionChunk =
  chunk_id :: rstr
  chunk_model :: "rstr option"
  chunk_choices :: "ChunkChoice list"
  chunk_usage :: "OpenAiUsage option"

text \<open>The readers \<open>serde_json\<close> derives for these types; \<open>None\<close> of the envelope is \<open>.ok()\<close> of its error.\<close>

record ChatSerde =
  cj_envelope :: "rstr \<Rightarrow> ErrorEnvelope option"
  cj_chunk :: "rstr \<Rightarrow> rstr + ChatCompletionChunk"

fun chat_data_lines :: "rstr list \<Rightarrow> rstr list \<Rightarrow> rstr list" where
  "chat_data_lines data [] = data"
| "chat_data_lines data (line # ls) =
     (if starts_with (lit '':'') line then chat_data_lines data ls
      else
        (case strip_prefix (lit ''data:'') line of
           Some d \<Rightarrow> chat_data_lines (data @ [trim_start d]) ls
         | None \<Rightarrow> chat_data_lines (if data \<noteq> [] then data @ [line] else data) ls))"

definition parse_sse_error :: "ChatSerde \<Rightarrow> rstr \<Rightarrow> ProviderError option" where
  "parse_sse_error cj payload =
     (case cj_envelope cj payload of
        None \<Rightarrow> None
      | Some e \<Rightarrow>
          if ee_error e = None \<and> ee_detail e = None \<and> ee_message e = None then None
          else Some (ApiStatus 400 (envelope_type e) (envelope_message e) payload False))"

definition parse_sse_frame :: "ChatSerde \<Rightarrow> rstr \<Rightarrow> ProviderError + ChatCompletionChunk option" where
  "parse_sse_frame cj frame =
     (let trimmed = trim frame in
      if trimmed = [] then Inr None
      else
        let data = chat_data_lines [] (str_lines trimmed) in
        if data = [] then Inr None
        else
          let payload = trim (join [10] data) in
          if payload = [] then Inr None
          else if payload = DONE then Inr None
          else
            (case parse_sse_error cj payload of
               Some e \<Rightarrow> Inl e
             | None \<Rightarrow> map_sum JsonError Some (cj_chunk cj payload)))"

section \<open>The stream of the provider's own protocol\<close>

text \<open>
  \<open>MessageStream\<close> of \<open>openyak_provider.rs\<close>: what the network still delivers, a chunk or the failure of reading it,
  the buffer of the parser and the events not yet handed out.
\<close>

record MessageStream =
  ms_net :: "(HttpFailure + u8 list) list"
  ms_buffer :: "u8 list"
  ms_pending :: "StreamEvent list"
  ms_done :: bool

function next_event :: "(rstr \<Rightarrow> rstr + StreamEvent) \<Rightarrow> MessageStream \<Rightarrow> (ProviderError + StreamEvent option) \<times> MessageStream"
where
  "next_event event s =
     (case ms_pending s of
        e # es \<Rightarrow> (Inr (Some e), s\<lparr>ms_pending := es\<rparr>)
      | [] \<Rightarrow>
          if ms_done s then
            (case sse_finish_frames (parse_frame event) (ms_buffer s) of
               (Inl e, buf) \<Rightarrow> (Inl e, s\<lparr>ms_buffer := buf\<rparr>)
             | (Inr [], buf) \<Rightarrow> (Inr None, s\<lparr>ms_buffer := buf\<rparr>)
             | (Inr (e # es), buf) \<Rightarrow> (Inr (Some e), s\<lparr>ms_buffer := buf, ms_pending := es\<rparr>))
          else
            (case ms_net s of
               [] \<Rightarrow> next_event event (s\<lparr>ms_done := True\<rparr>)
             | Inl e # net \<Rightarrow> (Inl (HttpError e), s\<lparr>ms_net := net\<rparr>)
             | Inr chunk # net \<Rightarrow>
                 (case sse_push (parse_frame event) (ms_buffer s) chunk of
                    (Inl e, buf) \<Rightarrow> (Inl e, s\<lparr>ms_net := net, ms_buffer := buf\<rparr>)
                  | (Inr es, buf) \<Rightarrow> next_event event (s\<lparr>ms_net := net, ms_buffer := buf, ms_pending := es\<rparr>))))"
  by pat_completeness auto

termination next_event
  by (relation "measure (\<lambda>(_, s). length (ms_net s) + (if ms_done s then 0 else 1))") auto

declare next_event.simps [simp del]

end
