(* ===== verification/Sse_Frames_Props.thy ===== *)
theory Sse_Frames_Props
  imports Sse_Frames
begin

text \<open>
  How the network cuts the bytes of an answer does not matter to the parsers of \<open>Sse_Frames\<close>, as long as the answer
  ends its frames in one way: with empty lines of line feeds only, or of carriage returns and line feeds only.
\<close>

section \<open>Windows\<close>

lemma find_window_Some:
  "find_window p bs = Some i \<Longrightarrow> take (length p) (drop i bs) = p \<and> i + length p \<le> length bs"
proof (induction p bs arbitrary: i rule: find_window.induct)
  case (2 p b bs)
  show ?case
  proof (cases "take (length p) (b # bs) = p")
    case True
    then have "length (take (length p) (b # bs)) = length p" by simp
    then have "length p \<le> length (b # bs)" by simp
    with True 2(2) show ?thesis by simp
  next
    case False
    with 2 show ?thesis by auto
  qed
qed simp

lemma find_window_append: "find_window p a = Some i \<Longrightarrow> find_window p (a @ b) = Some i"
proof (induction p a arbitrary: i rule: find_window.induct)
  case (2 p x xs)
  show ?case
  proof (cases "take (length p) (x # xs) = p")
    case True
    then have "length (take (length p) (x # xs)) = length p" by simp
    then have l: "length p \<le> length (x # xs)" by simp
    have "take (length p) ((x # xs) @ b) = p" using l True by (simp only: take_append) simp
    with 2(2) True show ?thesis by simp
  next
    case False
    with 2(2) obtain j where j: "find_window p xs = Some j" "i = Suc j" by auto
    then have "j + length p \<le> length xs" by (blast dest: find_window_Some)
    then have "length p \<le> length (x # xs)" by simp
    then have "take (length p) ((x # xs) @ b) = take (length p) (x # xs)" by (simp only: take_append) simp
    moreover have "find_window p (xs @ b) = Some j" by (rule 2(1)[OF False j(1)])
    ultimately show ?thesis using False j(2) by simp
  qed
qed simp

lemma find_window_prepend: "find_window p b \<noteq> None \<Longrightarrow> find_window p (a @ b) \<noteq> None"
  by (induction a) auto

definition has_window :: "'a list \<Rightarrow> 'a list \<Rightarrow> bool" where
  "has_window p bs \<longleftrightarrow> find_window p bs \<noteq> None"

lemma has_window_part: "has_window p b \<Longrightarrow> has_window p (a @ b @ c)"
  unfolding has_window_def
  by (metis find_window_append find_window_prepend not_None_eq)

lemma has_window_iff: "p \<noteq> [] \<Longrightarrow> has_window p bs \<longleftrightarrow> (\<exists>a c. bs = a @ p @ c)"
proof
  assume "has_window p bs"
  then obtain i where "find_window p bs = Some i" by (auto simp: has_window_def)
  from find_window_Some[OF this] have "bs = take i bs @ p @ drop (length p) (drop i bs)"
    by (metis append_take_drop_id)
  then show "\<exists>a c. bs = a @ p @ c" by blast
next
  assume p: "p \<noteq> []" "\<exists>a c. bs = a @ p @ c"
  have "has_window p p" using p(1) by (cases p) (simp_all add: has_window_def)
  then show "has_window p bs" using p(2) has_window_part by blast
qed

section \<open>Cutting at one separator\<close>

function cut_frames :: "u8 list \<Rightarrow> u8 list \<Rightarrow> u8 list list \<times> u8 list" where
  "cut_frames sep buf =
     (if sep = [] then ([], buf)
      else
        (case find_window sep buf of
           None \<Rightarrow> ([], buf)
         | Some i \<Rightarrow> (case cut_frames sep (drop (i + length sep) buf) of (fs, rest) \<Rightarrow> (take i buf # fs, rest))))"
  by pat_completeness auto

termination cut_frames
proof (relation "measure (\<lambda>(sep, buf). length buf)")
  fix sep buf :: "u8 list" and i
  assume s: "sep \<noteq> []" and "find_window sep buf = Some i"
  then have "i < length buf" "0 < length sep" using find_window_bound[of sep buf i] by auto
  then have "length buf - (i + length sep) < length buf" by linarith
  then show "((sep, drop (i + length sep) buf), (sep, buf)) \<in> measure (\<lambda>(sep, buf). length buf)" by simp
qed simp

declare cut_frames.simps [simp del]

lemma cut_frames_None: "find_window sep buf = None \<Longrightarrow> cut_frames sep buf = ([], buf)"
  by (simp add: cut_frames.simps)

lemma cut_frames_rest: "sep \<noteq> [] \<Longrightarrow> find_window sep (snd (cut_frames sep buf)) = None"
proof (induction sep buf rule: cut_frames.induct)
  case (1 sep buf)
  show ?case
  proof (cases "find_window sep buf")
    case None
    then show ?thesis by (simp add: cut_frames_None)
  next
    case (Some i)
    from 1(1)[OF 1(2) Some 1(2)] show ?thesis
      by (subst cut_frames.simps) (simp add: Some 1(2) prod.case_eq_if)
  qed
qed

lemma cut_frames_append:
  "sep \<noteq> [] \<Longrightarrow> cut_frames sep (a @ b) =
     (let (f1, r1) = cut_frames sep a; (f2, r2) = cut_frames sep (r1 @ b) in (f1 @ f2, r2))"
proof (induction sep a rule: cut_frames.induct)
  case (1 sep a)
  show ?case
  proof (cases "find_window sep a")
    case None
    then show ?thesis by (simp add: cut_frames_None)
  next
    case (Some i)
    have l: "i + length sep \<le> length a" using find_window_Some[OF Some] by simp
    have "cut_frames sep (a @ b) =
        (case cut_frames sep (drop (i + length sep) a @ b) of (fs, rest) \<Rightarrow> (take i a # fs, rest))"
      using l by (subst cut_frames.simps) (simp add: 1(2) find_window_append[OF Some])
    moreover have "cut_frames sep a = (case cut_frames sep (drop (i + length sep) a) of (fs, rest) \<Rightarrow> (take i a # fs, rest))"
      by (subst cut_frames.simps) (simp add: 1(2) Some)
    ultimately show ?thesis using 1(1)[OF 1(2) Some 1(2)] by (simp split: prod.split prod.split_asm)
  qed
qed

lemma cut_frames_part: "cut_frames sep buf = (fs, rest) \<Longrightarrow> \<exists>a. buf = a @ rest"
proof (induction sep buf arbitrary: fs rule: cut_frames.induct)
  case (1 sep buf)
  show ?case
  proof (cases "sep = [] \<or> find_window sep buf = None")
    case True
    then have "rest = buf" using 1(2) by (subst (asm) cut_frames.simps) (auto split: if_splits)
    then show ?thesis by simp
  next
    case False
    then obtain i where i: "sep \<noteq> []" "find_window sep buf = Some i" by auto
    then obtain gs where "cut_frames sep (drop (i + length sep) buf) = (gs, rest)"
      using 1(2) by (subst (asm) cut_frames.simps) (auto split: prod.splits)
    from 1(1)[OF i this] obtain a where "drop (i + length sep) buf = a @ rest" by blast
    then have "buf = (take (i + length sep) buf @ a) @ rest" by (metis append.assoc append_take_drop_id)
    then show ?thesis by blast
  qed
qed

section \<open>One separator at a time\<close>

text \<open>Bytes whose every part the parsers cut at the separator \<open>sep\<close> alone.\<close>

definition cuts_at :: "u8 list \<Rightarrow> u8 list \<Rightarrow> bool" where
  "cuts_at sep bs \<longleftrightarrow>
     (\<forall>a b c. bs = a @ b @ c \<longrightarrow> frame_separator b = map_option (\<lambda>i. (i, length sep)) (find_window sep b))"

lemma separators [simp]: "LF_LF \<noteq> []" "CRLF_CRLF \<noteq> []" "length LF_LF = 2" "length CRLF_CRLF = 4"
  by (simp_all add: LF_LF_def CRLF_CRLF_def)

lemma cuts_at_LF: "\<not> has_window CRLF_CRLF bs \<Longrightarrow> cuts_at LF_LF bs"
proof (unfold cuts_at_def, intro allI impI)
  fix a b c
  assume "\<not> has_window CRLF_CRLF bs" "bs = a @ b @ c"
  then have "find_window CRLF_CRLF b = None" using has_window_part[of CRLF_CRLF b a c] by (cases "find_window CRLF_CRLF b") (auto simp: has_window_def)
  then show "frame_separator b = map_option (\<lambda>i. (i, length LF_LF)) (find_window LF_LF b)"
    by (simp add: frame_separator_def split: option.split)
qed

lemma cuts_at_CRLF: "\<not> has_window LF_LF bs \<Longrightarrow> cuts_at CRLF_CRLF bs"
proof (unfold cuts_at_def, intro allI impI)
  fix a b c
  assume "\<not> has_window LF_LF bs" "bs = a @ b @ c"
  then have "find_window LF_LF b = None" using has_window_part[of LF_LF b a c] by (cases "find_window LF_LF b") (auto simp: has_window_def)
  then show "frame_separator b = map_option (\<lambda>i. (i, length CRLF_CRLF)) (find_window CRLF_CRLF b)"
    by (simp add: frame_separator_def split: option.split)
qed

lemma cuts_at_part: "cuts_at sep (a @ b @ c) \<Longrightarrow> cuts_at sep b"
  unfolding cuts_at_def by (metis append.assoc)

lemma cuts_at_next:
  "cuts_at sep buf \<Longrightarrow> next_sse_frame buf =
     map_option (\<lambda>i. (from_utf8_lossy (take i buf), drop (i + length sep) buf)) (find_window sep buf)"
proof -
  assume "cuts_at sep buf"
  then have "frame_separator buf = map_option (\<lambda>i. (i, length sep)) (find_window sep buf)"
    unfolding cuts_at_def by (metis append_Nil append_Nil2)
  then show ?thesis by (cases "find_window sep buf") (simp_all add: next_sse_frame_def)
qed

text \<open>The events of frames, or the error of the first one that cannot be read.\<close>

definition read_frames :: "(rstr \<Rightarrow> ProviderError + 'e option) \<Rightarrow> u8 list list \<Rightarrow> ProviderError + 'e list" where
  "read_frames read fs = map_sum id (\<lambda>es. concat (map option_list es)) (collect (\<lambda>f. read (from_utf8_lossy f)) fs)"

lemma read_frames_simps [simp]:
  "read_frames read [] = Inr []"
  "read_frames read (f # fs) =
     res_bind (read (from_utf8_lossy f)) (\<lambda>e. map_sum id (\<lambda>es. option_list e @ es) (read_frames read fs))"
  by (simp add: read_frames_def)
    (cases "read (from_utf8_lossy f)"; cases "collect (\<lambda>f. read (from_utf8_lossy f)) fs"; simp add: read_frames_def)

lemma read_frames_append:
  "read_frames read (fs @ gs) = res_bind (read_frames read fs) (\<lambda>es. map_sum id (\<lambda>hs. es @ hs) (read_frames read gs))"
proof (induction fs)
  case Nil
  then show ?case by (cases "read_frames read gs") simp_all
next
  case (Cons f fs)
  then show ?case
    by (cases "read (from_utf8_lossy f)"; cases "read_frames read fs"; cases "read_frames read gs") simp_all
qed

lemma push_frames_cut:
  assumes "sep \<noteq> []" and "cuts_at sep buf" and "cut_frames sep buf = (fs, rest)"
  shows "(case read_frames read fs of
            Inl e \<Rightarrow> fst (push_frames read events buf) = Inl e
          | Inr es \<Rightarrow> push_frames read events buf = (Inr (events @ es), rest))"
  using assms
proof (induction sep buf arbitrary: fs events rule: cut_frames.induct)
  case (1 sep buf)
  note next_frame = cuts_at_next[OF 1(3)]
  show ?case
  proof (cases "find_window sep buf")
    case None
    then show ?thesis using 1(4) next_frame by (simp add: cut_frames_None push_frames.simps)
  next
    case (Some i)
    obtain gs where gs: "cut_frames sep (drop (i + length sep) buf) = (gs, rest)" "fs = take i buf # gs"
      using 1(2,4) Some by (subst (asm) cut_frames.simps) (auto split: prod.splits)
    have c: "cuts_at sep (drop (i + length sep) buf)"
      using 1(3) cuts_at_part[of sep "take (i + length sep) buf" _ "[]"] by simp
    show ?thesis
    proof (cases "read (from_utf8_lossy (take i buf))")
      case (Inl e)
      then show ?thesis using next_frame Some by (simp add: gs(2) push_frames.simps[of read events buf])
    next
      case (Inr event)
      have "push_frames read events buf = push_frames read (events @ option_list event) (drop (i + length sep) buf)"
        using next_frame Some Inr by (simp add: push_frames.simps[of read events buf])
      moreover note 1(1)[OF 1(2) Some 1(2) c gs(1), of "events @ option_list event"]
      ultimately show ?thesis by (cases "read_frames read gs") (simp_all add: gs(2) Inr)
    qed
  qed
qed

text \<open>
  What comes out of a stream read chunk by chunk until its end or its first error: the events and the error. The
  events that \<open>push\<close> had read before the error are not among them.
\<close>

fun read_stream ::
  "(rstr \<Rightarrow> ProviderError + 'e option) \<Rightarrow> u8 list \<Rightarrow> u8 list list \<Rightarrow> 'e list \<times> ProviderError option" where
  "read_stream read buf [] =
     (case fst (sse_finish_frames read buf) of Inl e \<Rightarrow> ([], Some e) | Inr es \<Rightarrow> (es, None))"
| "read_stream read buf (c # cs) =
     (case sse_push read buf c of
        (Inl e, _) \<Rightarrow> ([], Some e)
      | (Inr es, buf1) \<Rightarrow> apfst (\<lambda>fs. es @ fs) (read_stream read buf1 cs))"

definition stream_result ::
  "(rstr \<Rightarrow> ProviderError + 'e option) \<Rightarrow> u8 list list \<Rightarrow> u8 list \<Rightarrow> 'e list \<times> ProviderError option" where
  "stream_result read fs rest =
     (case read_frames read fs of
        Inl e \<Rightarrow> ([], Some e)
      | Inr es \<Rightarrow> apfst (\<lambda>gs. es @ gs) (read_stream read rest []))"

lemma read_stream_cut:
  assumes "sep \<noteq> []" and "find_window sep buf = None" and "cuts_at sep (buf @ concat cs)"
    and "cut_frames sep (buf @ concat cs) = (fs, rest)"
  shows "snd (read_stream read buf cs) = snd (stream_result read fs rest)
    \<and> (case snd (stream_result read fs rest) of None \<Rightarrow> read_stream read buf cs = stream_result read fs rest | Some e \<Rightarrow> True)"
  using assms(2-4)
proof (induction cs arbitrary: buf fs)
  case Nil
  then have "fs = [] \<and> rest = buf" by (simp add: cut_frames_None)
  then show ?case by (cases "read_stream read buf []") (simp add: stream_result_def split: option.split)
next
  case (Cons c cs)
  obtain f1 r1 where c1: "cut_frames sep (buf @ c) = (f1, r1)" by (cases "cut_frames sep (buf @ c)")
  obtain f2 where c2: "cut_frames sep (r1 @ concat cs) = (f2, rest)" "fs = f1 @ f2"
    using Cons.prems(3) cut_frames_append[OF assms(1), of "buf @ c" "concat cs"] by (auto simp: c1 split: prod.splits)
  obtain a where a: "buf @ c = a @ r1" using cut_frames_part[OF c1] by blast
  have p1: "cuts_at sep (buf @ c)" using Cons.prems(2) cuts_at_part[of sep "[]" "buf @ c"] by simp
  have p2: "cuts_at sep (r1 @ concat cs)"
    using Cons.prems(2) cuts_at_part[of sep a "r1 @ concat cs" "[]"] a by (metis append.assoc append_Nil2 concat.simps(2))
  have n: "find_window sep r1 = None" using cut_frames_rest[OF assms(1), of "buf @ c"] c1 by simp
  note push = push_frames_cut[OF assms(1) p1 c1, of read "[]"]
  note IH = Cons.IH[OF n p2 c2(1)]
  show ?case
  proof (cases "read_frames read f1")
    case (Inl e)
    then show ?thesis using push
      by (cases "push_frames read [] (buf @ c)") (simp add: stream_result_def read_frames_append c2(2) sse_push_def)
  next
    case (Inr es)
    then have s: "sse_push read buf c = (Inr es, r1)" using push by (simp add: sse_push_def)
    show ?thesis using IH
      by (cases "read_frames read f2"; cases "read_stream read rest []")
        (auto simp: s Inr stream_result_def read_frames_append c2(2) split: option.splits)
  qed
qed

text \<open>The events of the frames before the first that is an error, and with them, if there is none, the events of
  what is left at the end.\<close>

fun good_events :: "(rstr \<Rightarrow> ProviderError + 'e option) \<Rightarrow> u8 list list \<Rightarrow> 'e list" where
  "good_events read [] = []"
| "good_events read (f # fs) =
     (case read (from_utf8_lossy f) of Inl e \<Rightarrow> [] | Inr event \<Rightarrow> option_list event @ good_events read fs)"

definition all_events :: "(rstr \<Rightarrow> ProviderError + 'e option) \<Rightarrow> u8 list list \<Rightarrow> u8 list \<Rightarrow> 'e list" where
  "all_events read fs rest = good_events read fs @ (if isl (read_frames read fs) then [] else fst (read_stream read rest []))"

lemma good_events_frames: "read_frames read fs = Inr es \<Longrightarrow> good_events read (fs @ gs) = es @ good_events read gs"
proof (induction fs arbitrary: es)
  case (Cons f fs)
  then show ?case by (cases "read (from_utf8_lossy f)"; cases "read_frames read fs") auto
qed simp

lemma all_events_frames: "read_frames read fs = Inr es \<Longrightarrow> all_events read (fs @ gs) rest = es @ all_events read gs rest"
  by (cases "read_frames read gs") (simp_all add: all_events_def good_events_frames read_frames_append)

lemma read_stream_prefix:
  assumes "sep \<noteq> []" and "find_window sep buf = None" and "cuts_at sep (buf @ concat cs)"
    and "cut_frames sep (buf @ concat cs) = (fs, rest)"
  shows "\<exists>es. all_events read fs rest = fst (read_stream read buf cs) @ es"
  using assms(2-4)
proof (induction cs arbitrary: buf fs)
  case Nil
  then have "fs = [] \<and> rest = buf" by (simp add: cut_frames_None)
  then show ?case by (simp add: all_events_def)
next
  case (Cons c cs)
  obtain f1 r1 where c1: "cut_frames sep (buf @ c) = (f1, r1)" by (cases "cut_frames sep (buf @ c)")
  obtain f2 where c2: "cut_frames sep (r1 @ concat cs) = (f2, rest)" "fs = f1 @ f2"
    using Cons.prems(3) cut_frames_append[OF assms(1), of "buf @ c" "concat cs"] by (auto simp: c1 split: prod.splits)
  obtain a where a: "buf @ c = a @ r1" using cut_frames_part[OF c1] by blast
  have p1: "cuts_at sep (buf @ c)" using Cons.prems(2) cuts_at_part[of sep "[]" "buf @ c"] by simp
  have p2: "cuts_at sep (r1 @ concat cs)"
    using Cons.prems(2) cuts_at_part[of sep a "r1 @ concat cs" "[]"] a by (metis append.assoc append_Nil2 concat.simps(2))
  have n: "find_window sep r1 = None" using cut_frames_rest[OF assms(1), of "buf @ c"] c1 by simp
  note push = push_frames_cut[OF assms(1) p1 c1, of read "[]"]
  show ?case
  proof (cases "read_frames read f1")
    case (Inl e)
    then show ?thesis using push by (cases "push_frames read [] (buf @ c)") (simp add: sse_push_def)
  next
    case (Inr es)
    then have s: "sse_push read buf c = (Inr es, r1)" using push by (simp add: sse_push_def)
    then show ?thesis using Cons.IH[OF n p2 c2(1)] by (auto simp: c2(2) all_events_frames[OF Inr])
  qed
qed

text \<open>
  C20: The parsers of the providers do not depend on how the network cuts an answer: for bytes that end their frames
  in one way, all chunks with the same bytes give the same error, if any, and without one the same events, even when a
  cut falls inside a separator or inside the bytes of a character. With an error, the events that came out before it
  depend on the cuts - those read in the chunk of the error are lost - but of any two cuttings one gives the first
  events of the other.
\<close>

theorem provider_chunking_irrelevant:
  assumes one: "\<not> has_window LF_LF (concat cs) \<or> \<not> has_window CRLF_CRLF (concat cs)"
    and same: "concat cs = concat cs'"
  shows "snd (read_stream read [] cs) = snd (read_stream read [] cs')
    \<and> (snd (read_stream read [] cs) = None \<longrightarrow> read_stream read [] cs = read_stream read [] cs')
    \<and> (\<exists>es. fst (read_stream read [] cs) = fst (read_stream read [] cs') @ es
            \<or> fst (read_stream read [] cs') = fst (read_stream read [] cs) @ es)"
proof -
  obtain sep where sep: "sep \<noteq> []" "cuts_at sep (concat cs)"
    using one cuts_at_LF cuts_at_CRLF separators(1,2) by metis
  obtain fs rest where c: "cut_frames sep (concat cs) = (fs, rest)" by (cases "cut_frames sep (concat cs)")
  note l = read_stream_cut[OF sep(1), of "[]" _ fs rest read]
  note p = read_stream_prefix[OF sep(1), of "[]" _ fs rest read]
  have "snd (read_stream read [] ds) = snd (stream_result read fs rest)
      \<and> (snd (stream_result read fs rest) = None \<longrightarrow> read_stream read [] ds = stream_result read fs rest)
      \<and> (\<exists>es. all_events read fs rest = fst (read_stream read [] ds) @ es)"
    if "concat ds = concat cs" for ds
    using l[of ds] p[of ds] sep(2) c that by (cases "snd (stream_result read fs rest)") simp_all
  note d = this[of cs] this[of cs']
  then obtain es es' where "fst (read_stream read [] cs) @ es = fst (read_stream read [] cs') @ es'" using same by metis
  then have "\<exists>es. fst (read_stream read [] cs) = fst (read_stream read [] cs') @ es
      \<or> fst (read_stream read [] cs') = fst (read_stream read [] cs) @ es"
    by (metis append_eq_append_conv2)
  with d same show ?thesis by auto
qed

theorem provider_chunking_irrelevant_witness:
  "read_stream (\<lambda>f. Inr (Some f)) [] [[100, 10], [10, 195], [169]] =
   read_stream (\<lambda>f. Inr (Some f)) [] [[100, 10, 10, 195, 169]]"
proof -
  have w: "\<not> has_window CRLF_CRLF (concat [[100, 10], [10, 195], [169]])"
    by (simp add: has_window_def CRLF_CRLF_def)
  have e: "snd (read_stream (\<lambda>f. Inr (Some f)) [] [[100, 10], [10, 195], [169]]) = None"
    by (simp add: sse_push_def sse_finish_frames_def push_frames.simps next_sse_frame_def frame_separator_def LF_LF_def CRLF_CRLF_def)
  show ?thesis
    using provider_chunking_irrelevant[OF disjI2[OF w], of "[[100, 10, 10, 195, 169]]" "\<lambda>f. Inr (Some f)"] e by simp
qed

end
