(* ===== verification/Chat_Stream.thy ===== *)
theory Chat_Stream
  imports Sse_Frames Tool_Registry
begin

text \<open>
  The client of chat completion services (\<open>api/src/providers/openai_compat.rs\<close>): the chunks of a streamed answer
  turned into the events of \<open>api/src/types.rs\<close> (\<open>StreamState\<close>, \<open>ToolCallState\<close>), the answer sent at once, the request,
  and the client that sends it. A slice of a text that does not start at a character is the panic \<open>None\<close>; an index is
  an \<open>u32\<close> that wraps, as in the release build.
\<close>

section \<open>The state of a streamed tool call\<close>

record ToolCallState =
  tc_openai_index :: u32
  tc_id :: "rstr option"
  tc_name :: "rstr option"
  tc_arguments :: rstr
  tc_emitted_len :: nat
  tc_started :: bool
  tc_stopped :: bool

definition ToolCallState_default :: ToolCallState where
  "ToolCallState_default =
     \<lparr>tc_openai_index = 0, tc_id = None, tc_name = None, tc_arguments = [], tc_emitted_len = 0,
      tc_started = False, tc_stopped = False\<rparr>"

definition apply_tool_call :: "DeltaToolCall \<Rightarrow> ToolCallState \<Rightarrow> ToolCallState" where
  "apply_tool_call d t =
     t\<lparr>tc_openai_index := dt_index d,
       tc_id := some_or (dt_id d) (tc_id t),
       tc_name := some_or (df_name (dt_function d)) (tc_name t),
       tc_arguments := tc_arguments t @ unwrap_or [] (df_arguments (dt_function d))\<rparr>"

definition block_index :: "ToolCallState \<Rightarrow> u32" where
  "block_index t = tc_openai_index t + 1"

definition start_event :: "ToolCallState \<Rightarrow> StreamEvent option" where
  "start_event t =
     map_option (\<lambda>name. StreamBlockStart (block_index t)
         (OutToolUse (unwrap_or (lit ''tool_call_'' @ show_nat (unat (tc_openai_index t))) (tc_id t)) name (VObject [])))
       (tc_name t)"

definition delta_event :: "ToolCallState \<Rightarrow> (StreamEvent option \<times> ToolCallState) option" where
  "delta_event t =
     (if utf8_len (tc_arguments t) \<le> tc_emitted_len t then Some (None, t)
      else
        map_option (\<lambda>delta. (Some (StreamBlockDelta (block_index t) (DeltaInputJson delta)),
                             t\<lparr>tc_emitted_len := utf8_len (tc_arguments t)\<rparr>))
          (slice_from (tc_arguments t) (tc_emitted_len t)))"

section \<open>The state of a stream\<close>

type_synonym tool_calls = "(u32 \<times> ToolCallState) list"

record ChatStreamState =
  cs_model :: rstr
  cs_message_started :: bool
  cs_text_started :: bool
  cs_text_finished :: bool
  cs_finished :: bool
  cs_stop_reason :: "rstr option"
  cs_usage :: "ApiUsage option"
  cs_tool_calls :: tool_calls

definition ChatStreamState_new :: "rstr \<Rightarrow> ChatStreamState" where
  "ChatStreamState_new model =
     \<lparr>cs_model = model, cs_message_started = False, cs_text_started = False, cs_text_finished = False,
      cs_finished = False, cs_stop_reason = None, cs_usage = None, cs_tool_calls = []\<rparr>"

definition no_usage :: ApiUsage where
  "no_usage =
     \<lparr>au_input_tokens = 0, au_cache_creation_input_tokens = 0, au_cache_read_input_tokens = 0, au_output_tokens = 0\<rparr>"

definition usage_of_openai :: "OpenAiUsage \<Rightarrow> ApiUsage" where
  "usage_of_openai u =
     \<lparr>au_input_tokens = ou_prompt_tokens u, au_cache_creation_input_tokens = 0, au_cache_read_input_tokens = 0,
      au_output_tokens = ou_completion_tokens u\<rparr>"

definition normalize_model_name :: "rstr option \<Rightarrow> rstr \<Rightarrow> rstr" where
  "normalize_model_name model fallback =
     (case map_option trim model of
        None \<Rightarrow> fallback
      | Some m \<Rightarrow> if m = [] \<or> m = lit ''model'' then fallback else m)"

definition TOOL_CALLS :: rstr where
  "TOOL_CALLS = lit ''tool_calls''"

definition normalize_finish_reason :: "rstr \<Rightarrow> rstr" where
  "normalize_finish_reason v =
     (if v = lit ''stop'' then lit ''end_turn'' else if v = TOOL_CALLS then lit ''tool_use'' else v)"

text \<open>One call of a choice: the body of the inner loop of \<open>ingest_chunk\<close>, once the delta is applied.\<close>

definition emit_tool_call :: "bool \<Rightarrow> ToolCallState \<Rightarrow> (StreamEvent list \<times> ToolCallState) option" where
  "emit_tool_call closes t =
     (case (if tc_started t then Some ([], t)
            else map_option (\<lambda>e. ([e], t\<lparr>tc_started := True\<rparr>)) (start_event t)) of
        None \<Rightarrow> Some ([], t)
      | Some (starts, t1) \<Rightarrow>
          (case delta_event t1 of
             None \<Rightarrow> None
           | Some (delta, t2) \<Rightarrow>
               Some (if closes \<and> \<not> tc_stopped t2
                     then (starts @ option_list delta @ [StreamBlockStop (block_index t)], t2\<lparr>tc_stopped := True\<rparr>)
                     else (starts @ option_list delta, t2))))"

fun ingest_tool_calls :: "bool \<Rightarrow> DeltaToolCall list \<Rightarrow> tool_calls \<Rightarrow> (StreamEvent list \<times> tool_calls) option" where
  "ingest_tool_calls closes [] tools = Some ([], tools)"
| "ingest_tool_calls closes (d # ds) tools =
     (case emit_tool_call closes (apply_tool_call d (unwrap_or ToolCallState_default (bt_get tools (dt_index d)))) of
        None \<Rightarrow> None
      | Some (es, t) \<Rightarrow>
          map_option (apfst (\<lambda>fs. es @ fs)) (ingest_tool_calls closes ds (bt_insert (dt_index d) t tools)))"

definition stop_tool_call :: "ToolCallState \<Rightarrow> StreamEvent list \<times> ToolCallState" where
  "stop_tool_call t =
     (if tc_started t \<and> \<not> tc_stopped t then ([StreamBlockStop (block_index t)], t\<lparr>tc_stopped := True\<rparr>)
      else ([], t))"

fun stop_tool_calls :: "tool_calls \<Rightarrow> StreamEvent list \<times> tool_calls" where
  "stop_tool_calls [] = ([], [])"
| "stop_tool_calls ((i, t) # tools) =
     (case (stop_tool_call t, stop_tool_calls tools) of
        ((es, t'), (fs, tools')) \<Rightarrow> (es @ fs, (i, t') # tools'))"

definition ingest_content :: "rstr option \<Rightarrow> ChatStreamState \<Rightarrow> StreamEvent list \<times> ChatStreamState" where
  "ingest_content delta s =
     (case delta of
        None \<Rightarrow> ([], s)
      | Some text \<Rightarrow>
          if text = [] then ([], s)
          else
            ((if cs_text_started s then [] else [StreamBlockStart 0 (OutText [])]) @ [StreamBlockDelta 0 (DeltaText text)],
             s\<lparr>cs_text_started := True\<rparr>))"

definition ingest_finish_reason :: "rstr option \<Rightarrow> ChatStreamState \<Rightarrow> StreamEvent list \<times> ChatStreamState" where
  "ingest_finish_reason reason s =
     (case reason of
        None \<Rightarrow> ([], s)
      | Some r \<Rightarrow>
          let s1 = s\<lparr>cs_stop_reason := Some (normalize_finish_reason r)\<rparr> in
          if r = TOOL_CALLS then
            (case stop_tool_calls (cs_tool_calls s1) of (es, tools) \<Rightarrow> (es, s1\<lparr>cs_tool_calls := tools\<rparr>))
          else ([], s1))"

definition ingest_choice :: "ChunkChoice \<Rightarrow> ChatStreamState \<Rightarrow> (StreamEvent list \<times> ChatStreamState) option" where
  "ingest_choice c s =
     (case ingest_content (cd_content (cc_delta c)) s of
        (texts, s1) \<Rightarrow>
          (case ingest_tool_calls (cc_finish_reason c = Some TOOL_CALLS) (cd_tool_calls (cc_delta c)) (cs_tool_calls s1) of
             None \<Rightarrow> None
           | Some (calls, tools) \<Rightarrow>
               (case ingest_finish_reason (cc_finish_reason c) (s1\<lparr>cs_tool_calls := tools\<rparr>) of
                  (stops, s2) \<Rightarrow> Some (texts @ calls @ stops, s2))))"

fun ingest_choices :: "ChunkChoice list \<Rightarrow> ChatStreamState \<Rightarrow> (StreamEvent list \<times> ChatStreamState) option" where
  "ingest_choices [] s = Some ([], s)"
| "ingest_choices (c # cs) s =
     (case ingest_choice c s of
        None \<Rightarrow> None
      | Some (es, s1) \<Rightarrow> map_option (apfst (\<lambda>fs. es @ fs)) (ingest_choices cs s1))"

definition started_message :: "rstr \<Rightarrow> ChatCompletionChunk \<Rightarrow> MessageResponse" where
  "started_message model chunk =
     \<lparr>resp_id = chunk_id chunk, resp_kind = lit ''message'', resp_role = lit ''assistant'', resp_content = [],
      resp_model = normalize_model_name (chunk_model chunk) model, resp_stop_reason = None,
      resp_stop_sequence = None, resp_usage = no_usage, resp_request_id = None\<rparr>"

definition ingest_chunk :: "ChatCompletionChunk \<Rightarrow> ChatStreamState \<Rightarrow> (StreamEvent list \<times> ChatStreamState) option" where
  "ingest_chunk chunk s =
     (let starts = (if cs_message_started s then [] else [StreamMessageStart (started_message (cs_model s) chunk)]);
          s1 = s\<lparr>cs_message_started := True,
                 cs_usage := some_or (map_option usage_of_openai (chunk_usage chunk)) (cs_usage s)\<rparr> in
      map_option (apfst (\<lambda>es. starts @ es)) (ingest_choices (chunk_choices chunk) s1))"

text \<open>The end of a stream: the calls not yet started, the blocks not yet stopped, the reason and the counts.\<close>

definition finish_tool_call :: "ToolCallState \<Rightarrow> (StreamEvent list \<times> ToolCallState) option" where
  "finish_tool_call t =
     map_option (\<lambda>(es, t1). case stop_tool_call t1 of (stops, t2) \<Rightarrow> (es @ stops, t2))
       (if tc_started t then Some ([], t)
        else
          (case start_event t of
             None \<Rightarrow> Some ([], t)
           | Some e \<Rightarrow> map_option (\<lambda>(d, t1). (e # option_list d, t1)) (delta_event (t\<lparr>tc_started := True\<rparr>))))"

fun finish_tool_calls :: "tool_calls \<Rightarrow> (StreamEvent list \<times> tool_calls) option" where
  "finish_tool_calls [] = Some ([], [])"
| "finish_tool_calls ((i, t) # tools) =
     (case finish_tool_call t of
        None \<Rightarrow> None
      | Some (es, t') \<Rightarrow> map_option (\<lambda>(fs, tools'). (es @ fs, (i, t') # tools')) (finish_tool_calls tools))"

definition stream_finish :: "ChatStreamState \<Rightarrow> (StreamEvent list \<times> ChatStreamState) option" where
  "stream_finish s =
     (if cs_finished s then Some ([], s)
      else
        let stops_text = cs_text_started s \<and> \<not> cs_text_finished s;
            s1 = s\<lparr>cs_finished := True, cs_text_finished := cs_text_finished s \<or> stops_text\<rparr> in
        map_option (\<lambda>(es, tools).
            ((if stops_text then [StreamBlockStop 0] else []) @ es
             @ (if cs_message_started s then
                  [StreamMessageDelta
                     \<lparr>md_stop_reason = Some (unwrap_or (lit ''end_turn'') (cs_stop_reason s)), md_stop_sequence = None\<rparr>
                     (unwrap_or no_usage (cs_usage s)),
                   StreamMessageStop]
                else []),
             s1\<lparr>cs_tool_calls := tools\<rparr>))
          (finish_tool_calls (cs_tool_calls s1)))"

text \<open>A whole stream of chunks.\<close>

fun ingest_chunks :: "ChatCompletionChunk list \<Rightarrow> ChatStreamState \<Rightarrow> (StreamEvent list \<times> ChatStreamState) option" where
  "ingest_chunks [] s = Some ([], s)"
| "ingest_chunks (c # cs) s =
     (case ingest_chunk c s of
        None \<Rightarrow> None
      | Some (es, s1) \<Rightarrow> map_option (apfst (\<lambda>fs. es @ fs)) (ingest_chunks cs s1))"

definition chat_events :: "rstr \<Rightarrow> ChatCompletionChunk list \<Rightarrow> StreamEvent list option" where
  "chat_events model chunks =
     (case ingest_chunks chunks (ChatStreamState_new model) of
        None \<Rightarrow> None
      | Some (es, s) \<Rightarrow> map_option (\<lambda>(fs, _). es @ fs) (stream_finish s))"

section \<open>The stream\<close>

record ChatMessageStream =
  cms_net :: "(HttpFailure + u8 list) list"
  cms_buffer :: "u8 list"
  cms_pending :: "StreamEvent list"
  cms_done :: bool
  cms_state :: ChatStreamState

definition chat_stream_of :: "rstr \<Rightarrow> HttpResponse \<Rightarrow> ChatMessageStream" where
  "chat_stream_of model r =
     \<lparr>cms_net = hr_chunks r, cms_buffer = [], cms_pending = [], cms_done = False, cms_state = ChatStreamState_new model\<rparr>"

function chat_next_event ::
  "ChatSerde \<Rightarrow> ChatMessageStream \<Rightarrow> ((ProviderError + StreamEvent option) \<times> ChatMessageStream) option"
where
  "chat_next_event cj s =
     (case cms_pending s of
        e # es \<Rightarrow> Some (Inr (Some e), s\<lparr>cms_pending := es\<rparr>)
      | [] \<Rightarrow>
          if cms_done s then
            map_option (\<lambda>(es, state). (Inr (case es of [] \<Rightarrow> None | e # _ \<Rightarrow> Some e),
                                       s\<lparr>cms_state := state, cms_pending := tl es\<rparr>))
              (stream_finish (cms_state s))
          else
            (case cms_net s of
               Inl e # net \<Rightarrow> Some (Inl (HttpError e), s\<lparr>cms_net := net\<rparr>)
             | Inr chunk # net \<Rightarrow>
                 (case sse_push (parse_sse_frame cj) (cms_buffer s) chunk of
                    (Inl e, buf) \<Rightarrow> Some (Inl e, s\<lparr>cms_net := net, cms_buffer := buf\<rparr>)
                  | (Inr chunks, buf) \<Rightarrow>
                      (case ingest_chunks chunks (cms_state s) of
                         None \<Rightarrow> None
                       | Some (es, state) \<Rightarrow>
                           chat_next_event cj (s\<lparr>cms_net := net, cms_buffer := buf, cms_pending := es, cms_state := state\<rparr>)))
             | [] \<Rightarrow>
                 (case sse_finish_frames (parse_sse_frame cj) (cms_buffer s) of
                    (Inl e, buf) \<Rightarrow> Some (Inl e, s\<lparr>cms_buffer := buf\<rparr>)
                  | (Inr chunks, buf) \<Rightarrow>
                      (case ingest_chunks chunks (cms_state s) of
                         None \<Rightarrow> None
                       | Some (es, state) \<Rightarrow>
                           chat_next_event cj (s\<lparr>cms_done := True, cms_buffer := buf, cms_pending := es, cms_state := state\<rparr>)))))"
  by pat_completeness auto

termination chat_next_event
  by (relation "measure (\<lambda>(_, s). length (cms_net s) + (if cms_done s then 0 else 1))") auto

declare chat_next_event.simps [simp del]

section \<open>The answer sent at once\<close>

record ResponseToolFunction =
  rf_name :: rstr
  rf_arguments :: rstr

record ResponseToolCall =
  rt_id :: rstr
  rt_function :: ResponseToolFunction

record ChatMessage =
  cm_role :: rstr
  cm_content :: "rstr option"
  cm_tool_calls :: "ResponseToolCall list"

record ChatChoice =
  co_message :: ChatMessage
  co_finish_reason :: "rstr option"

record ChatCompletionResponse =
  cr_id :: rstr
  cr_model :: rstr
  cr_choices :: "ChatChoice list"
  cr_usage :: "OpenAiUsage option"

definition parse_tool_arguments :: "SerdeText \<Rightarrow> rstr \<Rightarrow> Value" where
  "parse_tool_arguments sd arguments =
     (case sd_parse sd arguments of Inr v \<Rightarrow> v | Inl _ \<Rightarrow> json_object [(''raw'', VString arguments)])"

definition tool_use_of_call :: "SerdeText \<Rightarrow> ResponseToolCall \<Rightarrow> OutputContentBlock" where
  "tool_use_of_call sd c =
     OutToolUse (rt_id c) (rf_name (rt_function c)) (parse_tool_arguments sd (rf_arguments (rt_function c)))"

definition normalize_response :: "SerdeText \<Rightarrow> rstr \<Rightarrow> ChatCompletionResponse \<Rightarrow> ProviderError + MessageResponse" where
  "normalize_response sd model r =
     (case cr_choices r of
        [] \<Rightarrow> Inl (InvalidSseFrame (lit ''chat completion response missing choices''))
      | choice # _ \<Rightarrow>
          Inr \<lparr>resp_id = cr_id r, resp_kind = lit ''message'', resp_role = cm_role (co_message choice),
               resp_content =
                 (case cm_content (co_message choice) of
                    None \<Rightarrow> []
                  | Some text \<Rightarrow> if text = [] then [] else [OutText text])
                 @ map (tool_use_of_call sd) (cm_tool_calls (co_message choice)),
               resp_model = normalize_model_name (Some (cr_model r)) model,
               resp_stop_reason = map_option normalize_finish_reason (co_finish_reason choice),
               resp_stop_sequence = None,
               resp_usage =
                 \<lparr>au_input_tokens = (case cr_usage r of None \<Rightarrow> 0 | Some u \<Rightarrow> ou_prompt_tokens u),
                  au_cache_creation_input_tokens = 0, au_cache_read_input_tokens = 0,
                  au_output_tokens = (case cr_usage r of None \<Rightarrow> 0 | Some u \<Rightarrow> ou_completion_tokens u)\<rparr>,
               resp_request_id = None\<rparr>)"

section \<open>The request\<close>

fun assistant_parts :: "SerdeText \<Rightarrow> rstr \<times> Value list \<Rightarrow> InputContentBlock list \<Rightarrow> rstr \<times> Value list" where
  "assistant_parts sd acc [] = acc"
| "assistant_parts sd (text, calls) (InText t # bs) = assistant_parts sd (text @ t, calls) bs"
| "assistant_parts sd (text, calls) (InToolUse i n inp # bs) =
     assistant_parts sd
       (text, calls @ [json_object
          [(''id'', VString i), (''type'', VString (lit ''function'')),
           (''function'', json_object [(''name'', VString n), (''arguments'', VString (sd_show sd inp))])]]) bs"
| "assistant_parts sd (text, calls) (InToolResult i parts err # bs) = assistant_parts sd (text, calls) bs"

definition flatten_tool_result_content :: "SerdeText \<Rightarrow> ToolResultContentBlock list \<Rightarrow> rstr" where
  "flatten_tool_result_content sd parts =
     join [10] (map (\<lambda>b. case b of ResultText t \<Rightarrow> t | ResultJson v \<Rightarrow> sd_show sd v) parts)"

fun user_message :: "SerdeText \<Rightarrow> InputContentBlock \<Rightarrow> Value option" where
  "user_message sd (InText t) = Some (json_object [(''role'', VString (lit ''user'')), (''content'', VString t)])"
| "user_message sd (InToolResult i parts err) =
     Some (json_object
       [(''role'', VString (lit ''tool'')), (''tool_call_id'', VString i),
        (''content'', VString (flatten_tool_result_content sd parts)), (''is_error'', VBool err)])"
| "user_message sd (InToolUse i n inp) = None"

definition translate_message :: "SerdeText \<Rightarrow> InputMessage \<Rightarrow> Value list" where
  "translate_message sd m =
     (if im_role m = lit ''assistant'' then
        (case assistant_parts sd ([], []) (im_content m) of
           (text, calls) \<Rightarrow>
             if text = [] \<and> calls = [] then []
             else
               [json_object
                  [(''role'', VString (lit ''assistant'')),
                   (''content'', if text = [] then VNull else VString text),
                   (''tool_calls'', VArray calls)]])
      else List.map_filter (user_message sd) (im_content m))"

definition normalize_tool_schema :: "Value \<Rightarrow> Value" where
  "normalize_tool_schema schema =
     (case schema of
        VObject m \<Rightarrow>
          if bt_get m (lit ''type'') = Some (VString (lit ''object'')) \<and> bt_get m (lit ''properties'') = None
          then VObject (bt_insert (lit ''properties'') (VObject []) m)
          else schema
      | _ \<Rightarrow> schema)"

definition openai_tool_definition :: "ToolDefinition \<Rightarrow> Value" where
  "openai_tool_definition tool =
     json_object
       [(''type'', VString (lit ''function'')),
        (''function'', json_object
           [(''name'', VString (td_name tool)), (''description'', json_opt VString (td_description tool)),
            (''parameters'', normalize_tool_schema (td_schema tool))])]"

fun openai_tool_choice :: "ToolChoice \<Rightarrow> Value" where
  "openai_tool_choice ChoiceAuto = VString (lit ''auto'')"
| "openai_tool_choice ChoiceAny = VString (lit ''required'')"
| "openai_tool_choice (ChoiceTool name) =
     json_object [(''type'', VString (lit ''function'')), (''function'', json_object [(''name'', VString name)])]"

definition system_message :: "rstr option \<Rightarrow> Value list" where
  "system_message system =
     (case system of
        None \<Rightarrow> []
      | Some text \<Rightarrow>
          if text = [] then []
          else [json_object [(''role'', VString (lit ''system'')), (''content'', VString text)]])"

definition build_chat_completion_request :: "SerdeText \<Rightarrow> MessageRequest \<Rightarrow> Value" where
  "build_chat_completion_request sd r =
     json_object
       ([(''model'', VString (mr_model r)), (''max_tokens'', VInt (uint (mr_max_tokens r))),
         (''messages'', VArray (system_message (mr_system r) @ concat (map (translate_message sd) (mr_messages r)))),
         (''stream'', VBool (mr_stream r))]
        @ (case mr_tools r of
             None \<Rightarrow> []
           | Some tools \<Rightarrow> [(''tools'', VArray (map openai_tool_definition tools))])
        @ (case mr_tool_choice r of
             None \<Rightarrow> []
           | Some choice \<Rightarrow> [(''tool_choice'', openai_tool_choice choice)]))"

section \<open>The client\<close>

record OpenAiCompatConfig =
  cfg_provider_name :: rstr
  cfg_api_key_env :: rstr
  cfg_base_url_env :: rstr
  cfg_default_base_url :: rstr

definition DEFAULT_XAI_BASE_URL :: rstr where
  "DEFAULT_XAI_BASE_URL = lit ''https://api.x.ai/v1''"

definition DEFAULT_OPENAI_BASE_URL :: rstr where
  "DEFAULT_OPENAI_BASE_URL = lit ''https://api.openai.com/v1''"

definition xai_config :: OpenAiCompatConfig where
  "xai_config =
     \<lparr>cfg_provider_name = lit ''xAI'', cfg_api_key_env = lit ''XAI_API_KEY'', cfg_base_url_env = lit ''XAI_BASE_URL'',
      cfg_default_base_url = DEFAULT_XAI_BASE_URL\<rparr>"

definition openai_config :: OpenAiCompatConfig where
  "openai_config =
     \<lparr>cfg_provider_name = lit ''OpenAI'', cfg_api_key_env = lit ''OPENAI_API_KEY'',
      cfg_base_url_env = lit ''OPENAI_BASE_URL'', cfg_default_base_url = DEFAULT_OPENAI_BASE_URL\<rparr>"

definition credential_env_vars :: "OpenAiCompatConfig \<Rightarrow> rstr list" where
  "credential_env_vars c =
     (if cfg_provider_name c = lit ''xAI'' then [lit ''XAI_API_KEY'']
      else if cfg_provider_name c = lit ''OpenAI'' then [lit ''OPENAI_API_KEY'']
      else [])"

text \<open>\<open>std::env::var\<close>: absent, not Unicode (its error's text), or a text.\<close>

datatype EnvVar = VarNotPresent | VarNotUnicode rstr | VarText rstr

type_synonym env_vars = "rstr \<Rightarrow> EnvVar"

definition read_env_non_empty :: "env_vars \<Rightarrow> rstr \<Rightarrow> ProviderError + rstr option" where
  "read_env_non_empty env key =
     (case env key of
        VarText v \<Rightarrow> Inr (if v = [] then None else Some v)
      | VarNotPresent \<Rightarrow> Inr None
      | VarNotUnicode e \<Rightarrow> Inl (InvalidApiKeyEnv e))"

definition has_api_key :: "env_vars \<Rightarrow> rstr \<Rightarrow> bool" where
  "has_api_key env key = (case read_env_non_empty env key of Inr (Some _) \<Rightarrow> True | _ \<Rightarrow> False)"

definition var_or :: "env_vars \<Rightarrow> rstr \<Rightarrow> rstr \<Rightarrow> rstr" where
  "var_or env key fallback = (case env key of VarText v \<Rightarrow> v | _ \<Rightarrow> fallback)"

definition read_base_url :: "env_vars \<Rightarrow> OpenAiCompatConfig \<Rightarrow> rstr" where
  "read_base_url env c = var_or env (cfg_base_url_env c) (cfg_default_base_url c)"

record OpenAiCompatClient =
  cl_api_key :: rstr
  cl_base_url :: rstr
  cl_retry :: RetryPolicy

definition OpenAiCompatClient_new :: "env_vars \<Rightarrow> rstr \<Rightarrow> OpenAiCompatConfig \<Rightarrow> OpenAiCompatClient" where
  "OpenAiCompatClient_new env api_key config =
     \<lparr>cl_api_key = api_key, cl_base_url = read_base_url env config, cl_retry = default_retry_policy\<rparr>"

definition OpenAiCompatClient_from_env :: "env_vars \<Rightarrow> OpenAiCompatConfig \<Rightarrow> ProviderError + OpenAiCompatClient" where
  "OpenAiCompatClient_from_env env config =
     res_bind (read_env_non_empty env (cfg_api_key_env config)) (\<lambda>key.
       case key of
         None \<Rightarrow> Inl (MissingCredentials (cfg_provider_name config) (credential_env_vars config))
       | Some api_key \<Rightarrow> Inr (OpenAiCompatClient_new env api_key config))"

definition chat_completions_endpoint :: "rstr \<Rightarrow> rstr" where
  "chat_completions_endpoint base_url =
     (let trimmed = trim_end_by (\<lambda>c. c = 47) base_url in
      if strip_suffix (lit ''/chat/completions'') trimmed \<noteq> None then trimmed
      else trimmed @ lit ''/chat/completions'')"

text \<open>The transport: a POST of a value to an address under a bearer token, and the readers of a body.\<close>

record 'w Transport =
  tr_post :: "rstr \<Rightarrow> rstr \<Rightarrow> Value \<Rightarrow> 'w \<Rightarrow> (HttpFailure + HttpResponse) \<times> 'w"
  tr_sleep :: "duration \<Rightarrow> 'w \<Rightarrow> 'w"
  tr_envelope :: "rstr \<Rightarrow> ErrorEnvelope option"
  tr_response :: "HttpResponse \<Rightarrow> HttpFailure + ChatCompletionResponse"

definition chat_send_raw_request ::
  "SerdeText \<Rightarrow> 'w Transport \<Rightarrow> OpenAiCompatClient \<Rightarrow> MessageRequest \<Rightarrow> 'w \<Rightarrow> (ProviderError + HttpResponse) \<times> 'w" where
  "chat_send_raw_request sd tr c r w =
     apfst (map_sum HttpError id)
       (tr_post tr (chat_completions_endpoint (cl_base_url c)) (cl_api_key c) (build_chat_completion_request sd r) w)"

definition chat_send_with_retry ::
  "SerdeText \<Rightarrow> 'w Transport \<Rightarrow> OpenAiCompatClient \<Rightarrow> MessageRequest \<Rightarrow> 'w \<Rightarrow> (ProviderError + HttpResponse) \<times> 'w" where
  "chat_send_with_retry sd tr c r =
     send_with_retry (cl_retry c)
       (\<lambda>w. apfst (\<lambda>sent. res_bind sent (expect_success (tr_envelope tr))) (chat_send_raw_request sd tr c r w))
       (tr_sleep tr) 0"

definition chat_send_message ::
  "SerdeText \<Rightarrow> 'w Transport \<Rightarrow> OpenAiCompatClient \<Rightarrow> MessageRequest \<Rightarrow> 'w \<Rightarrow> (ProviderError + MessageResponse) \<times> 'w" where
  "chat_send_message sd tr c request w =
     (let r = request\<lparr>mr_stream := False\<rparr> in
      apfst (\<lambda>sent.
        res_bind sent (\<lambda>response.
        res_bind (map_sum HttpError id (tr_response tr response)) (\<lambda>payload.
        map_sum id (\<lambda>m. m\<lparr>resp_request_id := some_or (resp_request_id m) (request_id_from_headers (hr_headers response))\<rparr>)
          (normalize_response sd (mr_model r) payload))))
        (chat_send_with_retry sd tr c r w))"

definition chat_stream_message ::
  "SerdeText \<Rightarrow> 'w Transport \<Rightarrow> OpenAiCompatClient \<Rightarrow> MessageRequest \<Rightarrow> 'w
     \<Rightarrow> (ProviderError + rstr option \<times> ChatMessageStream) \<times> 'w" where
  "chat_stream_message sd tr c r w =
     apfst (map_sum id (\<lambda>response. (request_id_from_headers (hr_headers response), chat_stream_of (mr_model r) response)))
       (chat_send_with_retry sd tr c (with_streaming r) w)"

end
