(* ===== verification/Chat_Stream_Props.thy ===== *)
theory Chat_Stream_Props
  imports Chat_Stream
begin

text \<open>
  What a chat completion stream keeps of what the service sent: every tx and every argument of a named tool call
  reaches the events, each block is opened and closed once, and no slice of the arguments fails. The last section
  joins the stream with the model client: a streamed answer and the answer sent at once give the same message.
\<close>

section \<open>What events and deltas carry\<close>

fun json_part :: "u32 \<Rightarrow> StreamEvent \<Rightarrow> rstr" where
  "json_part j (StreamBlockDelta i (DeltaInputJson d)) = (if i = j then d else [])"
| "json_part j _ = []"

fun text_part :: "StreamEvent \<Rightarrow> rstr" where
  "text_part (StreamBlockDelta i (DeltaText d)) = d"
| "text_part _ = []"

fun opens :: "u32 \<Rightarrow> StreamEvent \<Rightarrow> bool" where
  "opens j (StreamBlockStart i b) \<longleftrightarrow> i = j"
| "opens j _ \<longleftrightarrow> False"

fun closes :: "u32 \<Rightarrow> StreamEvent \<Rightarrow> bool" where
  "closes j (StreamBlockStop i) \<longleftrightarrow> i = j"
| "closes j _ \<longleftrightarrow> False"

definition streamed_json :: "u32 \<Rightarrow> StreamEvent list \<Rightarrow> rstr" where
  "streamed_json j es = concat (map (json_part j) es)"

definition streamed_text :: "StreamEvent list \<Rightarrow> rstr" where
  "streamed_text es = concat (map text_part es)"

definition opened :: "u32 \<Rightarrow> StreamEvent list \<Rightarrow> nat" where
  "opened j es = length (filter (opens j) es)"

definition closed :: "u32 \<Rightarrow> StreamEvent list \<Rightarrow> nat" where
  "closed j es = length (filter (closes j) es)"

lemma carried_simps [simp]:
  "streamed_json j [] = []" "streamed_text [] = []" "opened j [] = 0" "closed j [] = 0"
  "streamed_json j (e # es) = json_part j e @ streamed_json j es" "streamed_text (e # es) = text_part e @ streamed_text es"
  "opened j (e # es) = of_bool (opens j e) + opened j es" "closed j (e # es) = of_bool (closes j e) + closed j es"
  "streamed_json j (es @ fs) = streamed_json j es @ streamed_json j fs"
  "streamed_text (es @ fs) = streamed_text es @ streamed_text fs"
  "opened j (es @ fs) = opened j es + opened j fs" "closed j (es @ fs) = closed j es + closed j fs"
  by (simp_all add: streamed_json_def streamed_text_def opened_def closed_def)

definition delta_arguments :: "DeltaToolCall \<Rightarrow> rstr" where
  "delta_arguments d = unwrap_or [] (df_arguments (dt_function d))"

definition deltas_at :: "u32 \<Rightarrow> DeltaToolCall list \<Rightarrow> DeltaToolCall list" where
  "deltas_at i ds = filter (\<lambda>d. dt_index d = i) ds"

definition sent_arguments :: "u32 \<Rightarrow> DeltaToolCall list \<Rightarrow> rstr" where
  "sent_arguments i ds = concat (map delta_arguments (deltas_at i ds))"

definition named :: "u32 \<Rightarrow> DeltaToolCall list \<Rightarrow> bool" where
  "named i ds \<longleftrightarrow> list_ex (\<lambda>d. df_name (dt_function d) \<noteq> None) (deltas_at i ds)"

definition chunk_deltas :: "ChatCompletionChunk \<Rightarrow> DeltaToolCall list" where
  "chunk_deltas c = concat (map (\<lambda>ch. cd_tool_calls (cc_delta ch)) (chunk_choices c))"

definition chunk_text :: "ChatCompletionChunk \<Rightarrow> rstr" where
  "chunk_text c = concat (map (\<lambda>ch. unwrap_or [] (cd_content (cc_delta ch))) (chunk_choices c))"

lemma unwrap_or_simps [simp]: "unwrap_or x None = x" "unwrap_or x (Some y) = y"
  by (simp_all add: unwrap_or_def)

lemma some_or_simps [simp]: "some_or None y = y" "some_or (Some x) y = Some x" "some_or a None = a"
  by (simp_all add: some_or_def split: option.split)

lemma some_or_None_iff [simp]: "some_or a b = None \<longleftrightarrow> a = None \<and> b = None"
  by (simp add: some_or_def split: option.split)

lemma deltas_at_snoc [simp]: "deltas_at i (ds @ [d]) = deltas_at i ds @ (if dt_index d = i then [d] else [])"
  by (simp add: deltas_at_def)

section \<open>One tool call\<close>

text \<open>How the state of the call with index \<open>i\<close> goes with the events and the deltas so far.\<close>

definition tracks_call :: "u32 \<Rightarrow> ToolCallState \<Rightarrow> StreamEvent list \<Rightarrow> DeltaToolCall list \<Rightarrow> bool" where
  "tracks_call i t es ds \<longleftrightarrow>
     tc_arguments t = sent_arguments i ds \<and> (tc_started t \<longleftrightarrow> named i ds) \<and> (tc_started t \<longleftrightarrow> tc_name t \<noteq> None)
     \<and> (tc_stopped t \<longrightarrow> tc_started t)
     \<and> tc_emitted_len t = (if tc_started t then utf8_len (tc_arguments t) else 0)
     \<and> streamed_json (i + 1) es = (if tc_started t then tc_arguments t else [])
     \<and> opened (i + 1) es = of_bool (tc_started t) \<and> closed (i + 1) es = of_bool (tc_stopped t)"

fun about_call :: "u32 \<Rightarrow> StreamEvent \<Rightarrow> bool" where
  "about_call k (StreamBlockStart i b) \<longleftrightarrow> i = k"
| "about_call k (StreamBlockDelta i (DeltaInputJson d)) \<longleftrightarrow> i = k"
| "about_call k (StreamBlockStop i) \<longleftrightarrow> i = k"
| "about_call k _ \<longleftrightarrow> False"

lemma about_call_only:
  "list_all (about_call k) es \<Longrightarrow> j \<noteq> k \<Longrightarrow> streamed_json j es = [] \<and> opened j es = 0 \<and> closed j es = 0"
  "list_all (about_call k) es \<Longrightarrow> streamed_text es = []"
proof (induction es)
  case (Cons e es)
  { case 1 with Cons.IH(1) show ?case by (cases "(k, e)" rule: about_call.cases) auto }
  { case 2 with Cons.IH(2) show ?case by (cases "(k, e)" rule: about_call.cases) auto }
qed simp_all

text \<open>What a call emits for a delta: nothing before it has a name.\<close>

definition call_events :: "bool \<Rightarrow> DeltaToolCall \<Rightarrow> ToolCallState \<Rightarrow> StreamEvent list" where
  "call_events stop d t =
     (let u = apply_tool_call d t;
          piece = (if tc_started t then delta_arguments d else tc_arguments u) in
      (if tc_started t then [] else option_list (start_event u))
      @ (if piece = [] then [] else [StreamBlockDelta (block_index u) (DeltaInputJson piece)])
      @ (if stop \<and> \<not> tc_stopped t then [StreamBlockStop (block_index u)] else []))"

lemma slice_from_0 [simp]: "slice_from s 0 = Some s"
  using slice_from_append[of "[]" s] by simp

lemma emit_tool_call_cases:
  assumes "tracks_call i t es ds"
  shows "emit_tool_call stop (apply_tool_call d t) =
    Some (if tc_name (apply_tool_call d t) = None then ([], apply_tool_call d t)
          else (call_events stop d t,
                (apply_tool_call d t)\<lparr>tc_started := True, tc_emitted_len := utf8_len (tc_arguments (apply_tool_call d t)),
                                      tc_stopped := tc_stopped t \<or> stop\<rparr>))"
proof -
  let ?u = "apply_tool_call d t"
  have u: "tc_arguments ?u = tc_arguments t @ delta_arguments d" "tc_started ?u = tc_started t"
    "tc_stopped ?u = tc_stopped t" "tc_emitted_len ?u = tc_emitted_len t"
    by (simp_all add: apply_tool_call_def delta_arguments_def)
  have started: "tc_started t \<Longrightarrow> tc_name ?u \<noteq> None"
    using assms by (simp add: tracks_call_def apply_tool_call_def)
  show ?thesis
  proof (cases "tc_name ?u")
    case None
    then show ?thesis using started u(2) by (auto simp: emit_tool_call_def start_event_def)
  next
    case (Some n)
    show ?thesis
    proof (cases "tc_started t")
      case True
      then have len: "tc_emitted_len t = utf8_len (tc_arguments t)" using assms by (simp add: tracks_call_def)
      then show ?thesis using Some True u
        by (cases "delta_arguments d = []")
          (auto simp: emit_tool_call_def delta_event_def call_events_def Let_def block_index_def)
    next
      case False
      then have len: "tc_emitted_len t = 0" using assms by (simp add: tracks_call_def)
      then show ?thesis using Some False u
        by (cases "tc_arguments t @ delta_arguments d = []")
          (auto simp: emit_tool_call_def delta_event_def call_events_def Let_def block_index_def start_event_def)
    qed
  qed
qed

lemma call_events_about: "dt_index d = i \<Longrightarrow> list_all (about_call (i + 1)) (call_events stop d t)"
  by (simp add: call_events_def Let_def start_event_def block_index_def apply_tool_call_def option_list_def
      split: option.split)

lemma tracks_call_delta:
  assumes t: "tracks_call i t es ds" and i: "dt_index d = i"
  obtains fs u where "emit_tool_call stop (apply_tool_call d t) = Some (fs, u)" "list_all (about_call (i + 1)) fs"
    "tc_openai_index u = i" "tracks_call i u (es @ fs) (ds @ [d])"
proof -
  let ?u = "apply_tool_call d t"
  have args: "sent_arguments i (ds @ [d]) = sent_arguments i ds @ delta_arguments d"
    by (simp add: sent_arguments_def i)
  have nm: "named i (ds @ [d]) \<longleftrightarrow> named i ds \<or> df_name (dt_function d) \<noteq> None"
    by (simp add: named_def i)
  show ?thesis
  proof (cases "tc_name ?u")
    case None
    then have "tracks_call i ?u (es @ []) (ds @ [d])"
      using t unfolding tracks_call_def by (auto simp: args nm apply_tool_call_def delta_arguments_def)
    then show ?thesis using that[of "[]" ?u] emit_tool_call_cases[OF t, of stop d] None i
      by (simp add: apply_tool_call_def)
  next
    case (Some n)
    let ?v = "?u\<lparr>tc_started := True, tc_emitted_len := utf8_len (tc_arguments ?u), tc_stopped := tc_stopped t \<or> stop\<rparr>"
    have "tracks_call i ?v (es @ call_events stop d t) (ds @ [d])"
      using t Some i unfolding tracks_call_def
      by (cases "tc_started t")
        (auto simp: args nm apply_tool_call_def delta_arguments_def call_events_def Let_def block_index_def start_event_def)
    moreover have "emit_tool_call stop ?u = Some (call_events stop d t, ?v)"
      using emit_tool_call_cases[OF t, of stop d] Some by simp
    ultimately show ?thesis using that[OF _ call_events_about[OF i], of stop t ?v] i by (simp add: apply_tool_call_def)
  qed
qed

lemma tracks_call_other:
  assumes "tracks_call j t es ds" and "list_all (about_call (i + 1)) fs" and "dt_index d = i" and "j \<noteq> i"
  shows "tracks_call j t (es @ fs) (ds @ [d])"
  using assms about_call_only(1)[OF assms(2), of "j + 1"] unfolding tracks_call_def
  by (auto simp: sent_arguments_def named_def)

section \<open>All tool calls\<close>

definition call_at :: "tool_calls \<Rightarrow> u32 \<Rightarrow> ToolCallState" where
  "call_at tools i = unwrap_or ToolCallState_default (bt_get tools i)"

definition tracks :: "tool_calls \<Rightarrow> StreamEvent list \<Rightarrow> DeltaToolCall list \<Rightarrow> bool" where
  "tracks tools es ds \<longleftrightarrow>
     bt_ok tools \<and> (\<forall>i t. bt_get tools i = Some t \<longrightarrow> tc_openai_index t = i)
     \<and> (\<forall>i. i \<noteq> - 1 \<longrightarrow> tracks_call i (call_at tools i) es ds) \<and> bt_get tools (- 1) = None"

lemma tracks_new: "tracks [] [] []"
  by (simp add: tracks_def call_at_def tracks_call_def ToolCallState_default_def sent_arguments_def deltas_at_def named_def)

lemma call_at_insert [simp]: "call_at (bt_insert i t tools) j = (if j = i then t else call_at tools j)"
  by (simp add: call_at_def bt_get_insert)

lemma ingest_tool_calls_tracks:
  assumes "tracks tools es ds" and "list_all (\<lambda>d. dt_index d \<noteq> - 1) new"
  obtains fs tools' where "ingest_tool_calls stop new tools = Some (fs, tools')" "tracks tools' (es @ fs) (ds @ new)"
    "streamed_text fs = []" "opened 0 fs = 0" "closed 0 fs = 0"
  using assms
proof (induction new arbitrary: tools es ds thesis)
  case Nil
  then show ?case by simp
next
  case (Cons d new)
  let ?i = "dt_index d"
  have i: "?i \<noteq> - 1" "0 \<noteq> ?i + 1" using Cons.prems(3) by (auto simp: eq_neg_iff_add_eq_0)
  have "tracks_call ?i (call_at tools ?i) es ds" using Cons.prems(2) i(1) by (simp add: tracks_def)
  then obtain fs u where u: "emit_tool_call stop (apply_tool_call d (call_at tools ?i)) = Some (fs, u)"
    "list_all (about_call (?i + 1)) fs" "tc_openai_index u = ?i" "tracks_call ?i u (es @ fs) (ds @ [d])"
    by (rule tracks_call_delta) simp
  have "tracks (bt_insert ?i u tools) (es @ fs) (ds @ [d])"
    using Cons.prems(2) u(3,4) tracks_call_other[OF _ u(2) refl] i(1)
    by (auto simp: tracks_def bt_ok_insert bt_get_insert)
  from Cons.IH[OF _ this] Cons.prems(3) obtain gs tools' where gs:
    "ingest_tool_calls stop new (bt_insert ?i u tools) = Some (gs, tools')" "tracks tools' ((es @ fs) @ gs) ((ds @ [d]) @ new)"
    "streamed_text gs = []" "opened 0 gs = 0" "closed 0 gs = 0" by auto
  show ?case
    by (rule Cons.prems(1)[of "fs @ gs" tools'])
      (use u(1) gs about_call_only[OF u(2)] i(2) in \<open>simp_all add: call_at_def\<close>)
qed

lemma stop_tool_calls_spec:
  assumes "stop_tool_calls tools = (fs, tools')" and "distinct (map fst tools)"
    and "\<forall>i t. bt_get tools i = Some t \<longrightarrow> tc_openai_index t = i"
  shows "map fst tools' = map fst tools \<and> (\<forall>i. bt_get tools' i = map_option (\<lambda>t. snd (stop_tool_call t)) (bt_get tools i))
    \<and> (\<forall>i. closed (i + 1) fs = (case bt_get tools i of None \<Rightarrow> 0 | Some t \<Rightarrow> of_bool (tc_started t \<and> \<not> tc_stopped t)))
    \<and> streamed_text fs = [] \<and> (\<forall>j. streamed_json j fs = [] \<and> opened j fs = 0)"
  using assms
proof (induction tools arbitrary: fs tools' rule: stop_tool_calls.induct)
  case (2 i t tools)
  obtain gs tools1 where g: "stop_tool_calls tools = (gs, tools1)" by (cases "stop_tool_calls tools")
  obtain es t1 where e: "stop_tool_call t = (es, t1)" by (cases "stop_tool_call t")
  have r: "fs = es @ gs" "tools' = (i, t1) # tools1" using 2(2) by (simp_all add: g e)
  have k: "bt_get tools i = None" using 2(3) by (simp add: map_of_eq_None_iff)
  have idx: "tc_openai_index t = i" using 2(4) by simp
  have sub: "\<forall>j u. bt_get tools j = Some u \<longrightarrow> tc_openai_index u = j"
    using 2(4) k by (metis map_of_Cons_code(2) option.distinct(1))
  note IH = 2(1)[OF g _ sub] 
  have es: "es = (if tc_started t \<and> \<not> tc_stopped t then [StreamBlockStop (i + 1)] else [])"
    using e by (auto simp: stop_tool_call_def block_index_def idx split: if_splits)
  show ?case using IH 2(3) k e by (auto simp: r es fun_eq_iff)
qed simp

lemma bt_ok_keys: "bt_ok m \<Longrightarrow> map fst m' = map fst m \<Longrightarrow> bt_ok m'"
  by (simp add: bt_ok_def)

lemma tracks_call_stop:
  "tracks_call i t es ds \<Longrightarrow> streamed_json (i + 1) fs = [] \<Longrightarrow> opened (i + 1) fs = 0 \<Longrightarrow>
     closed (i + 1) fs = of_bool (tc_started t \<and> \<not> tc_stopped t) \<Longrightarrow>
     tracks_call i (snd (stop_tool_call t)) (es @ fs) ds"
  by (cases "tc_started t"; cases "tc_stopped t") (auto simp: tracks_call_def stop_tool_call_def)

lemma stop_tool_calls_tracks:
  assumes t: "tracks tools es ds" and s: "stop_tool_calls tools = (fs, tools')"
  shows "tracks tools' (es @ fs) ds \<and> streamed_text fs = [] \<and> opened 0 fs = 0 \<and> closed 0 fs = 0
    \<and> (\<forall>i. tc_started (call_at tools' i) \<longrightarrow> tc_stopped (call_at tools' i))"
proof -
  have ok: "bt_ok tools" "\<forall>i t. bt_get tools i = Some t \<longrightarrow> tc_openai_index t = i" "bt_get tools (- 1) = None"
    using t by (simp_all add: tracks_def)
  note spec = stop_tool_calls_spec[OF s bt_ok_distinct[OF ok(1)] ok(2)]
  have at: "call_at tools' i = snd (stop_tool_call (call_at tools i))" for i
    using spec by (cases "bt_get tools i") (simp_all add: call_at_def stop_tool_call_def ToolCallState_default_def)
  have closed_at: "closed (i + 1) fs = of_bool (tc_started (call_at tools i) \<and> \<not> tc_stopped (call_at tools i))" for i
    using spec by (cases "bt_get tools i") (simp_all add: call_at_def ToolCallState_default_def)
  have stops: "tc_arguments (snd (stop_tool_call u)) = tc_arguments u" "tc_started (snd (stop_tool_call u)) = tc_started u"
    "tc_name (snd (stop_tool_call u)) = tc_name u" "tc_emitted_len (snd (stop_tool_call u)) = tc_emitted_len u"
    "tc_openai_index (snd (stop_tool_call u)) = tc_openai_index u"
    "tc_stopped (snd (stop_tool_call u)) \<longleftrightarrow> tc_started u \<or> tc_stopped u" for u
    by (auto simp: stop_tool_call_def)
  have "tracks_call i (call_at tools' i) (es @ fs) ds" if "i \<noteq> - 1" for i
    unfolding at by (rule tracks_call_stop) (use t that spec closed_at in \<open>simp_all add: tracks_def\<close>)
  then have "tracks tools' (es @ fs) ds"
    using spec ok bt_ok_keys[OF ok(1), of tools'] unfolding tracks_def by (auto simp: stops(5))
  moreover have "closed 0 fs = 0" using closed_at[of "- 1"] ok(3) by (simp add: call_at_def ToolCallState_default_def)
  moreover have "tc_started (call_at tools' i) \<longrightarrow> tc_stopped (call_at tools' i)" for i
    by (simp add: at stops)
  ultimately show ?thesis using spec by simp
qed

lemma finish_tool_calls_stops:
  "\<forall>(i, t) \<in> set tools. tc_started t \<longleftrightarrow> tc_name t \<noteq> None \<Longrightarrow> finish_tool_calls tools = Some (stop_tool_calls tools)"
proof (induction tools)
  case (Cons it tools)
  obtain i t where it: "it = (i, t)" by (cases it)
  have "finish_tool_call t = Some (stop_tool_call t)"
    using Cons.prems by (auto simp: it finish_tool_call_def start_event_def stop_tool_call_def)
  then show ?case using Cons by (simp add: it split: prod.split)
qed simp

section \<open>The whole stream\<close>

text \<open>The state of a stream after the events \<open>es\<close>, the deltas \<open>ds\<close> and the text \<open>tx\<close>.\<close>

definition tracks_stream :: "ChatStreamState \<Rightarrow> StreamEvent list \<Rightarrow> DeltaToolCall list \<Rightarrow> rstr \<Rightarrow> bool" where
  "tracks_stream s es ds tx \<longleftrightarrow>
     tracks (cs_tool_calls s) es ds \<and> streamed_text es = tx \<and> (cs_text_started s \<longleftrightarrow> tx \<noteq> [])
     \<and> opened 0 es = of_bool (tx \<noteq> []) \<and> closed 0 es = 0 \<and> \<not> cs_text_finished s \<and> \<not> cs_finished s"

lemma zero_plus_one: "(0 :: u32) \<noteq> i + 1 \<longleftrightarrow> i \<noteq> - 1" "i + 1 = (0 :: u32) \<longleftrightarrow> i = - 1"
  by (auto simp: eq_neg_iff_add_eq_0)

lemma tracks_call_silent:
  "streamed_json (i + 1) fs = [] \<Longrightarrow> opened (i + 1) fs = 0 \<Longrightarrow> closed (i + 1) fs = 0 \<Longrightarrow>
     tracks_call i t (es @ fs) ds \<longleftrightarrow> tracks_call i t es ds"
  by (simp add: tracks_call_def)

lemma tracks_silent:
  assumes "tracks tools es ds"
    and "\<forall>i. i \<noteq> - 1 \<longrightarrow> streamed_json (i + 1) fs = [] \<and> opened (i + 1) fs = 0 \<and> closed (i + 1) fs = 0"
  shows "tracks tools (es @ fs) ds"
  using assms by (simp add: tracks_def tracks_call_silent)

lemma ingest_content_tracks:
  assumes "tracks_stream s es ds tx" and "ingest_content c s = (fs, s')"
  shows "tracks_stream s' (es @ fs) ds (tx @ unwrap_or [] c)"
proof (cases "unwrap_or [] c = []")
  case True
  then have "fs = [] \<and> s' = s" using assms(2) by (auto simp: ingest_content_def split: option.splits)
  with True assms(1) show ?thesis by simp
next
  case False
  then obtain t where t: "c = Some t" "t \<noteq> []" by (cases c) auto
  have fs: "fs = (if cs_text_started s then [] else [StreamBlockStart 0 (OutText [])]) @ [StreamBlockDelta 0 (DeltaText t)]"
    "s' = s\<lparr>cs_text_started := True\<rparr>" using assms(2) t by (auto simp: ingest_content_def)
  have "tracks (cs_tool_calls s) (es @ fs) ds"
    by (rule tracks_silent) (use assms(1) in \<open>auto simp: tracks_stream_def fs(1) zero_plus_one\<close>)
  then show ?thesis using assms(1) t(2) by (auto simp: tracks_stream_def fs t(1))
qed

lemma ingest_finish_reason_tracks:
  assumes "tracks_stream s es ds tx" and "ingest_finish_reason r s = (fs, s')"
  shows "tracks_stream s' (es @ fs) ds tx"
proof (cases "r = Some TOOL_CALLS")
  case True
  obtain gs tools where g: "stop_tool_calls (cs_tool_calls s) = (gs, tools)" by (cases "stop_tool_calls (cs_tool_calls s)")
  have "tracks (cs_tool_calls s) es ds" using assms(1) by (simp add: tracks_stream_def)
  from stop_tool_calls_tracks[OF this g] show ?thesis
    using assms True g by (auto simp: tracks_stream_def ingest_finish_reason_def Let_def)
next
  case False
  then show ?thesis using assms by (auto simp: tracks_stream_def ingest_finish_reason_def Let_def split: option.splits)
qed

lemma ingest_choice_tracks:
  assumes "tracks_stream s es ds tx" and "list_all (\<lambda>d. dt_index d \<noteq> - 1) (cd_tool_calls (cc_delta ch))"
  obtains fs s' where "ingest_choice ch s = Some (fs, s')"
    "tracks_stream s' (es @ fs) (ds @ cd_tool_calls (cc_delta ch)) (tx @ unwrap_or [] (cd_content (cc_delta ch)))"
proof -
  obtain f1 s1 where c: "ingest_content (cd_content (cc_delta ch)) s = (f1, s1)" by (cases "ingest_content (cd_content (cc_delta ch)) s")
  note s1 = ingest_content_tracks[OF assms(1) c]
  then have "tracks (cs_tool_calls s1) (es @ f1) ds" by (simp add: tracks_stream_def)
  from ingest_tool_calls_tracks[OF this assms(2)] obtain f2 tools where t:
    "ingest_tool_calls (cc_finish_reason ch = Some TOOL_CALLS) (cd_tool_calls (cc_delta ch)) (cs_tool_calls s1) = Some (f2, tools)"
    "tracks tools ((es @ f1) @ f2) (ds @ cd_tool_calls (cc_delta ch))" "streamed_text f2 = []" "opened 0 f2 = 0" "closed 0 f2 = 0"
    by metis
  have s2: "tracks_stream (s1\<lparr>cs_tool_calls := tools\<rparr>) ((es @ f1) @ f2) (ds @ cd_tool_calls (cc_delta ch))
      (tx @ unwrap_or [] (cd_content (cc_delta ch)))"
    using s1 t by (simp add: tracks_stream_def)
  obtain f3 s3 where f: "ingest_finish_reason (cc_finish_reason ch) (s1\<lparr>cs_tool_calls := tools\<rparr>) = (f3, s3)"
    by (cases "ingest_finish_reason (cc_finish_reason ch) (s1\<lparr>cs_tool_calls := tools\<rparr>)")
  from ingest_finish_reason_tracks[OF s2 f] show ?thesis
    using that[of "f1 @ f2 @ f3" s3] by (simp add: ingest_choice_def c t(1) f)
qed

lemma ingest_choices_tracks:
  assumes "tracks_stream s es ds tx" and "list_all (\<lambda>d. dt_index d \<noteq> - 1) (concat (map (\<lambda>ch. cd_tool_calls (cc_delta ch)) chs))"
  obtains fs s' where "ingest_choices chs s = Some (fs, s')"
    "tracks_stream s' (es @ fs) (ds @ concat (map (\<lambda>ch. cd_tool_calls (cc_delta ch)) chs))
       (tx @ concat (map (\<lambda>ch. unwrap_or [] (cd_content (cc_delta ch))) chs))"
  using assms
proof (induction chs arbitrary: s es ds tx thesis)
  case (Cons ch chs)
  from Cons.prems(3) have h: "list_all (\<lambda>d. dt_index d \<noteq> - 1) (cd_tool_calls (cc_delta ch))" by simp
  obtain fs s1 where s1: "ingest_choice ch s = Some (fs, s1)"
    "tracks_stream s1 (es @ fs) (ds @ cd_tool_calls (cc_delta ch)) (tx @ unwrap_or [] (cd_content (cc_delta ch)))"
    by (rule ingest_choice_tracks[OF Cons.prems(2) h])
  from Cons.IH[OF _ s1(2)] Cons.prems(1)[of "fs @ _"] Cons.prems(3) s1(1) show ?case by fastforce
qed simp

lemma ingest_chunks_tracks:
  assumes "tracks_stream s es ds tx" and "list_all (\<lambda>d. dt_index d \<noteq> - 1) (concat (map chunk_deltas chunks))"
  obtains fs s' where "ingest_chunks chunks s = Some (fs, s')"
    "tracks_stream s' (es @ fs) (ds @ concat (map chunk_deltas chunks)) (tx @ concat (map chunk_text chunks))"
  using assms
proof (induction chunks arbitrary: s es ds tx thesis)
  case (Cons c chunks)
  let ?start = "if cs_message_started s then [] else [StreamMessageStart (started_message (cs_model s) c)]"
  let ?s = "s\<lparr>cs_message_started := True, cs_usage := some_or (map_option usage_of_openai (chunk_usage c)) (cs_usage s)\<rparr>"
  from Cons.prems(3) have h: "list_all (\<lambda>d. dt_index d \<noteq> - 1) (concat (map (\<lambda>ch. cd_tool_calls (cc_delta ch)) (chunk_choices c)))"
    by (simp add: chunk_deltas_def)
  have "tracks (cs_tool_calls s) (es @ ?start) ds"
    by (rule tracks_silent) (use Cons.prems(2) in \<open>simp_all add: tracks_stream_def\<close>)
  then have "tracks_stream ?s (es @ ?start) ds tx" using Cons.prems(2) by (simp add: tracks_stream_def)
  then obtain fs s1 where s1: "ingest_choices (chunk_choices c) ?s = Some (fs, s1)"
    "tracks_stream s1 ((es @ ?start) @ fs) (ds @ chunk_deltas c) (tx @ chunk_text c)"
    unfolding chunk_deltas_def chunk_text_def by (rule ingest_choices_tracks[OF _ h])
  have c: "ingest_chunk c s = Some (?start @ fs, s1)" by (simp add: ingest_chunk_def s1(1))
  from Cons.IH[OF _ s1(2)] Cons.prems(3) obtain gs s2 where
    "ingest_chunks chunks s1 = Some (gs, s2)"
    "tracks_stream s2 (((es @ ?start) @ fs) @ gs) ((ds @ chunk_deltas c) @ concat (map chunk_deltas chunks))
       ((tx @ chunk_text c) @ concat (map chunk_text chunks))" by auto
  then show ?case using Cons.prems(1)[of "(?start @ fs) @ gs" s2] c by simp
qed simp

lemma stream_finish_tracks:
  assumes "tracks_stream s es ds tx"
  obtains fs s' where "stream_finish s = Some (fs, s')" "tracks (cs_tool_calls s') (es @ fs) ds"
    "streamed_text (es @ fs) = tx" "opened 0 (es @ fs) = of_bool (tx \<noteq> [])" "closed 0 (es @ fs) = of_bool (tx \<noteq> [])"
    "\<forall>i. tc_started (call_at (cs_tool_calls s') i) \<longrightarrow> tc_stopped (call_at (cs_tool_calls s') i)"
proof -
  let ?tx = "if cs_text_started s \<and> \<not> cs_text_finished s then [StreamBlockStop 0] else []"
  have t: "tracks (cs_tool_calls s) es ds" using assms by (simp add: tracks_stream_def)
  have t1: "tracks (cs_tool_calls s) (es @ ?tx) ds"
    by (rule tracks_silent[OF t]) (auto simp: zero_plus_one)
  obtain gs tools where g: "stop_tool_calls (cs_tool_calls s) = (gs, tools)" by (cases "stop_tool_calls (cs_tool_calls s)")
  have "tc_started u \<longleftrightarrow> tc_name u \<noteq> None" if u: "(i, u) \<in> set (cs_tool_calls s)" for i u
  proof -
    have g: "bt_get (cs_tool_calls s) i = Some u" using t u by (simp add: tracks_def bt_ok_distinct)
    then have "i \<noteq> - 1" using t by (auto simp: tracks_def)
    then have "tracks_call i u es ds" using t g unfolding tracks_def call_at_def by fastforce
    then show ?thesis by (auto simp: tracks_call_def)
  qed
  then have "\<forall>(i, u) \<in> set (cs_tool_calls s). tc_started u \<longleftrightarrow> tc_name u \<noteq> None" by blast
  then have f: "finish_tool_calls (cs_tool_calls s) = Some (gs, tools)" using finish_tool_calls_stops g by simp
  note st = stop_tool_calls_tracks[OF t1 g]
  let ?closing = "if cs_message_started s then
      [StreamMessageDelta \<lparr>md_stop_reason = Some (unwrap_or (lit ''end_turn'') (cs_stop_reason s)), md_stop_sequence = None\<rparr>
         (unwrap_or no_usage (cs_usage s)), StreamMessageStop] else []"
  let ?s = "s\<lparr>cs_finished := True, cs_text_finished := cs_text_finished s \<or> cs_text_started s \<and> \<not> cs_text_finished s,
      cs_tool_calls := tools\<rparr>"
  have "stream_finish s = Some (?tx @ gs @ ?closing, ?s)"
    using assms f by (simp add: stream_finish_def Let_def tracks_stream_def)
  moreover have "tracks tools (((es @ ?tx) @ gs) @ ?closing) ds"
    by (rule tracks_silent) (use st in simp_all)
  ultimately show ?thesis using that[of "?tx @ gs @ ?closing" ?s] st assms by (simp add: tracks_stream_def)
qed

lemma tracks_stream_new: "tracks_stream (ChatStreamState_new model) [] [] []"
  by (simp add: tracks_stream_def ChatStreamState_new_def tracks_new)

text \<open>
  C15: A chat completion stream loses nothing the service sent: for chunks whose tool calls do not use the largest index,
  no slice fails, the texts of the events are the contents of the chunks, and for every tool call that was given a name
  the events carry all of its arguments in order, also those that came before the name, in a block that is opened once
  and closed once; of a call without a name there is no event. The tx, if there is any, is the block 0, opened and
  closed once.
\<close>

theorem chat_stream_complete:
  assumes "list_all (\<lambda>d. dt_index d \<noteq> - 1) (concat (map chunk_deltas chunks))"
  shows "\<exists>es. chat_events model chunks = Some es \<and> streamed_text es = concat (map chunk_text chunks)
    \<and> opened 0 es = of_bool (streamed_text es \<noteq> []) \<and> closed 0 es = of_bool (streamed_text es \<noteq> [])
    \<and> (\<forall>i. i \<noteq> - 1 \<longrightarrow>
         (let ds = concat (map chunk_deltas chunks); sent = named i ds in
          streamed_json (i + 1) es = (if sent then sent_arguments i ds else [])
          \<and> opened (i + 1) es = of_bool sent \<and> closed (i + 1) es = of_bool sent))"
proof -
  obtain fs s where s: "ingest_chunks chunks (ChatStreamState_new model) = Some (fs, s)"
    "tracks_stream s ([] @ fs) ([] @ concat (map chunk_deltas chunks)) ([] @ concat (map chunk_text chunks))"
    by (rule ingest_chunks_tracks[OF tracks_stream_new assms])
  obtain gs s' where g: "stream_finish s = Some (gs, s')"
    "tracks (cs_tool_calls s') (([] @ fs) @ gs) ([] @ concat (map chunk_deltas chunks))"
    "streamed_text (([] @ fs) @ gs) = [] @ concat (map chunk_text chunks)"
    "opened 0 (([] @ fs) @ gs) = of_bool ([] @ concat (map chunk_text chunks) \<noteq> [])"
    "closed 0 (([] @ fs) @ gs) = of_bool ([] @ concat (map chunk_text chunks) \<noteq> [])"
    "\<forall>i. tc_started (call_at (cs_tool_calls s') i) \<longrightarrow> tc_stopped (call_at (cs_tool_calls s') i)"
    by (rule stream_finish_tracks[OF s(2)])
  have "streamed_json (i + 1) (fs @ gs) = (if named i ds then sent_arguments i ds else [])
      \<and> opened (i + 1) (fs @ gs) = of_bool (named i ds) \<and> closed (i + 1) (fs @ gs) = of_bool (named i ds)"
    if "i \<noteq> - 1" "ds = concat (map chunk_deltas chunks)" for i ds
    using g(2,6) that unfolding tracks_def tracks_call_def by auto
  with s(1) g(1,3-5) show ?thesis by (auto simp: chat_events_def Let_def)
qed

definition demo_delta :: "rstr option \<Rightarrow> rstr \<Rightarrow> DeltaToolCall" where
  "demo_delta name args = \<lparr>dt_index = 0, dt_id = map_option (\<lambda>_. lit ''c1'') name, dt_function = \<lparr>df_name = name, df_arguments = Some args\<rparr>\<rparr>"

definition demo_chunk :: "rstr option \<Rightarrow> DeltaToolCall list \<Rightarrow> rstr option \<Rightarrow> ChatCompletionChunk" where
  "demo_chunk con ds reason =
     \<lparr>chunk_id = lit ''x'', chunk_model = None,
      chunk_choices = [\<lparr>cc_delta = \<lparr>cd_content = con, cd_tool_calls = ds\<rparr>, cc_finish_reason = reason\<rparr>], chunk_usage = None\<rparr>"

definition demo_chunks :: "ChatCompletionChunk list" where
  "demo_chunks =
     [demo_chunk (Some (lit ''hi'')) [demo_delta None (lit ''{'')] None, demo_chunk None [demo_delta (Some (lit ''bash'')) (lit ''}'')] None,
      demo_chunk None [] (Some TOOL_CALLS)]"

theorem chat_stream_complete_witness:
  "\<exists>es. chat_events (lit ''m'') demo_chunks = Some es \<and> streamed_text es = lit ''hi'' \<and> streamed_json 1 es = lit ''{}''
     \<and> opened 1 es = 1 \<and> closed 1 es = 1"
proof -
  have ds: "concat (map chunk_deltas demo_chunks) = [demo_delta None (lit ''{''), demo_delta (Some (lit ''bash'')) (lit ''}'')]"
    by (simp add: demo_chunks_def demo_chunk_def chunk_deltas_def)
  have tx: "concat (map chunk_text demo_chunks) = lit ''hi''"
    by (simp add: demo_chunks_def demo_chunk_def chunk_text_def)
  have at: "deltas_at 0 [demo_delta None (lit ''{''), demo_delta (Some (lit ''bash'')) (lit ''}'')] =
      [demo_delta None (lit ''{''), demo_delta (Some (lit ''bash'')) (lit ''}'')]"
    by (simp add: deltas_at_def demo_delta_def)
  have n: "named 0 [demo_delta None (lit ''{''), demo_delta (Some (lit ''bash'')) (lit ''}'')]"
    unfolding named_def at by (simp add: demo_delta_def)
  have sent: "sent_arguments 0 [demo_delta None (lit ''{''), demo_delta (Some (lit ''bash'')) (lit ''}'')] = lit ''{}''"
    unfolding sent_arguments_def at by (simp add: demo_delta_def delta_arguments_def lit_def)
  have h: "list_all (\<lambda>d. dt_index d \<noteq> - 1) (concat (map chunk_deltas demo_chunks))"
    unfolding ds by (simp add: demo_delta_def)
  obtain es where es: "chat_events (lit ''m'') demo_chunks = Some es" "streamed_text es = lit ''hi''"
    and at0: "\<forall>i. i \<noteq> - 1 \<longrightarrow>
      (let ds = [demo_delta None (lit ''{''), demo_delta (Some (lit ''bash'')) (lit ''}'')]; sent = named i ds in
        streamed_json (i + 1) es = (if sent then sent_arguments i ds else [])
        \<and> opened (i + 1) es = of_bool sent \<and> closed (i + 1) es = of_bool sent)"
    using chat_stream_complete[OF h, of "lit ''m''"] unfolding ds tx by blast
  have "(0 :: u32) \<noteq> - 1" by simp
  with at0 n sent have "streamed_json 1 es = lit ''{}''" "opened 1 es = 1" "closed 1 es = 1" by (auto simp: Let_def dest!: spec[of _ 0])
  with es show ?thesis by blast
qed

end
