(* ===== verification/Chat_Agreement.thy ===== *)
theory Chat_Agreement
  imports Chat_Stream_Props Provider_Client_Props
begin

text \<open>
  The chat completion stream (\<open>Chat_Stream\<close>) joined with the model client that reads its events (\<open>Provider_Client\<close>):
  an answer the service streams becomes the message of the same answer sent at once.
\<close>

section \<open>How a service streams an answer\<close>

text \<open>
  The deltas of a tool call: its id and its name come with the first one and only there. \<open>call_of\<close> is what they have
  told of the call with an index.
\<close>

definition first_delta :: "DeltaToolCall \<Rightarrow> bool" where
  "first_delta d \<longleftrightarrow> dt_id d \<noteq> None \<and> df_name (dt_function d) \<noteq> None"

definition later_delta :: "DeltaToolCall \<Rightarrow> bool" where
  "later_delta d \<longleftrightarrow> dt_id d = None \<and> df_name (dt_function d) = None"

definition call_of :: "u32 \<Rightarrow> DeltaToolCall list \<Rightarrow> (rstr \<times> rstr \<times> rstr) option" where
  "call_of i ds =
     (case deltas_at i ds of
        [] \<Rightarrow> None
      | d # _ \<Rightarrow> Some (the (dt_id d), the (df_name (dt_function d)), sent_arguments i ds))"

fun steady :: "DeltaToolCall list \<Rightarrow> DeltaToolCall list \<Rightarrow> bool" where
  "steady seen [] \<longleftrightarrow> True"
| "steady seen (d # ds) \<longleftrightarrow>
     dt_index d \<noteq> - 1 \<and> (if deltas_at (dt_index d) seen = [] then first_delta d else later_delta d)
     \<and> steady (seen @ [d]) ds"

definition spells :: "ResponseToolCall list \<Rightarrow> DeltaToolCall list \<Rightarrow> bool" where
  "spells calls ds \<longleftrightarrow>
     steady [] ds \<and> length calls < 2 ^ 32
     \<and> (\<forall>i. call_of i ds =
          (if unat i < length calls
           then Some (rt_id (calls ! unat i), rf_name (rt_function (calls ! unat i)), rf_arguments (rt_function (calls ! unat i)))
           else None))"

lemma steady_append: "steady seen (a @ b) \<longleftrightarrow> steady seen a \<and> steady (seen @ a) b"
  by (induction a arbitrary: seen) auto

lemma steady_index: "steady seen ds \<Longrightarrow> list_all (\<lambda>d. dt_index d \<noteq> - 1) ds"
  by (induction ds arbitrary: seen) auto

definition heads_named :: "DeltaToolCall list \<Rightarrow> bool" where
  "heads_named ds \<longleftrightarrow> (\<forall>i. named i ds \<longleftrightarrow> deltas_at i ds \<noteq> [])"

lemma heads_named_snoc:
  "heads_named seen \<Longrightarrow> (if deltas_at (dt_index d) seen = [] then first_delta d else later_delta d) \<Longrightarrow> heads_named (seen @ [d])"
  by (auto simp: heads_named_def named_def first_delta_def)

section \<open>The reader of the events\<close>

text \<open>The state of the reader after the deltas \<open>ds\<close> and the text \<open>tx\<close>.\<close>

definition reads :: "StreamState \<Rightarrow> DeltaToolCall list \<Rightarrow> rstr \<Rightarrow> bool" where
  "reads st ds tx \<longleftrightarrow>
     (\<forall>i. i \<noteq> - 1 \<longrightarrow> bt_get (ss_pending st) (i + 1) = call_of i ds) \<and> bt_get (ss_pending st) 0 = None
     \<and> (\<exists>ts. ss_events st = map TextDelta (filter (\<lambda>t. t \<noteq> []) ts) \<and> concat ts = tx) \<and> \<not> ss_saw_stop st"

lemma call_of_other: "dt_index d \<noteq> i \<Longrightarrow> call_of i (ds @ [d]) = call_of i ds"
  by (simp add: call_of_def sent_arguments_def split: list.split)

lemma call_of_first:
  "deltas_at (dt_index d) ds = [] \<Longrightarrow> call_of (dt_index d) (ds @ [d]) =
     Some (the (dt_id d), the (df_name (dt_function d)), delta_arguments d)"
  by (simp add: call_of_def sent_arguments_def)

lemma call_of_later:
  "call_of (dt_index d) ds = Some (i, n, args) \<Longrightarrow> call_of (dt_index d) (ds @ [d]) = Some (i, n, args @ delta_arguments d)"
  by (auto simp: call_of_def sent_arguments_def split: list.splits)

lemma reads_put:
  assumes "reads st ds tx" and "dt_index d = i" and "i \<noteq> - 1" and "call_of i (ds @ [d]) = Some c"
    and "bt_get p = (bt_get (ss_pending st))(i + 1 \<mapsto> c)"
  shows "reads (st\<lparr>ss_pending := p\<rparr>) (ds @ [d]) tx"
  using assms call_of_other[of d] unfolding reads_def by (auto simp: zero_plus_one)

lemma reads_call:
  assumes t: "tracks_call i t es ds" and i: "dt_index d = i" "i \<noteq> - 1" and h: "heads_named ds"
    and d: "if deltas_at i ds = [] then first_delta d else later_delta d" and r: "reads st ds tx"
  obtains st' where "stream_events sd (call_events False d t) st = Inr st'" "reads st' (ds @ [d]) tx"
proof (cases "deltas_at i ds = []")
  case True
  then have "\<not> tc_started t" "tc_arguments t = []"
    using t h by (simp_all add: tracks_call_def heads_named_def sent_arguments_def)
  moreover obtain x n where x: "dt_id d = Some x" "df_name (dt_function d) = Some n"
    using d True by (auto simp: first_delta_def)
  ultimately have es: "call_events False d t =
      StreamBlockStart (i + 1) (OutToolUse x n (VObject []))
      # (if delta_arguments d = [] then [] else [StreamBlockDelta (i + 1) (DeltaInputJson (delta_arguments d))])"
    using i by (simp add: call_events_def Let_def apply_tool_call_def start_event_def block_index_def delta_arguments_def)
  define p where "p = (if delta_arguments d = [] then bt_insert (i + 1) (x, n, []) (ss_pending st)
      else bt_insert (i + 1) (x, n, delta_arguments d) (bt_insert (i + 1) (x, n, []) (ss_pending st)))"
  have c: "call_of i (ds @ [d]) = Some (x, n, delta_arguments d)" using call_of_first[of d ds] True i x by simp
  have "stream_events sd (call_events False d t) st = Inr (st\<lparr>ss_pending := p\<rparr>)"
    by (simp add: es p_def push_streamed_def push_output_block_def bt_get_insert)
  moreover have "reads (st\<lparr>ss_pending := p\<rparr>) (ds @ [d]) tx"
    by (rule reads_put[OF r i c]) (simp add: p_def bt_get_insert)
  ultimately show ?thesis by (rule that)
next
  case False
  then have s: "tc_started t" using t h by (simp add: tracks_call_def heads_named_def)
  have l: "dt_id d = None" "df_name (dt_function d) = None" using d False by (simp_all add: later_delta_def)
  have es: "call_events False d t =
      (if delta_arguments d = [] then [] else [StreamBlockDelta (i + 1) (DeltaInputJson (delta_arguments d))])"
    using i s by (simp add: call_events_def Let_def apply_tool_call_def block_index_def)
  obtain x n args where k: "call_of i ds = Some (x, n, args)"
    using False by (cases "deltas_at i ds") (auto simp: call_of_def)
  then have c: "call_of i (ds @ [d]) = Some (x, n, args @ delta_arguments d)" using call_of_later[of d ds] i(1) by simp
  have g: "bt_get (ss_pending st) (i + 1) = Some (x, n, args)" using r i(2) k by (simp add: reads_def)
  define p where "p = (if delta_arguments d = [] then ss_pending st
      else bt_insert (i + 1) (x, n, args @ delta_arguments d) (ss_pending st))"
  have "stream_events sd (call_events False d t) st = Inr (st\<lparr>ss_pending := p\<rparr>)"
    by (simp add: es p_def g)
  moreover have "reads (st\<lparr>ss_pending := p\<rparr>) (ds @ [d]) tx"
    by (rule reads_put[OF r i c]) (use g in \<open>auto simp: p_def bt_get_insert\<close>)
  ultimately show ?thesis by (rule that)
qed

section \<open>Stream and reader together\<close>

definition agrees :: "tool_calls \<Rightarrow> StreamEvent list \<Rightarrow> StreamState \<Rightarrow> DeltaToolCall list \<Rightarrow> rstr \<Rightarrow> bool" where
  "agrees tools es st ds tx \<longleftrightarrow>
     tracks tools es ds \<and> reads st ds tx \<and> heads_named ds \<and> (\<forall>i. \<not> tc_stopped (call_at tools i))
     \<and> (\<forall>i. bt_get tools i = None \<longleftrightarrow> deltas_at i ds = [])"

lemma ingest_tool_calls_Cons:
  "ingest_tool_calls stop (d # ds) tools =
     (case ingest_tool_calls stop [d] tools of
        None \<Rightarrow> None
      | Some (es, tools1) \<Rightarrow> map_option (apfst (\<lambda>fs. es @ fs)) (ingest_tool_calls stop ds tools1))"
  by (simp split: option.split)

lemma agrees_call:
  assumes a: "agrees tools es st ds tx" and i: "dt_index d \<noteq> - 1"
    and d: "if deltas_at (dt_index d) ds = [] then first_delta d else later_delta d"
  obtains fs tools' st' where "ingest_tool_calls False [d] tools = Some (fs, tools')" "stream_events sd fs st = Inr st'"
    "agrees tools' (es @ fs) st' (ds @ [d]) tx" "streamed_text fs = []" "opened 0 fs = 0" "closed 0 fs = 0"
proof -
  let ?i = "dt_index d" let ?t = "call_at tools ?i"
  have t: "tracks_call ?i ?t es ds" using a i by (simp add: agrees_def tracks_def)
  have n: "tc_name (apply_tool_call d ?t) \<noteq> None"
    using t d a by (auto simp: apply_tool_call_def tracks_call_def agrees_def heads_named_def first_delta_def split: if_splits)
  obtain v where e: "emit_tool_call False (apply_tool_call d ?t) = Some (call_events False d ?t, v)"
    and v: "tc_stopped v = tc_stopped ?t"
    using emit_tool_call_cases[OF t, of False d] n by simp
  have ing: "ingest_tool_calls False [d] tools = Some (call_events False d ?t, bt_insert ?i v tools)"
    using e by (simp add: call_at_def)
  obtain st' where st: "stream_events sd (call_events False d ?t) st = Inr st'" "reads st' (ds @ [d]) tx"
    using reads_call[OF t refl i _ d] a by (metis agrees_def)
  have "tracks tools es ds" and "list_all (\<lambda>d. dt_index d \<noteq> - 1) [d]" using a i by (simp_all add: agrees_def)
  then obtain fs tools' where tr:
    "ingest_tool_calls False [d] tools = Some (fs, tools')" "tracks tools' (es @ fs) (ds @ [d])"
    "streamed_text fs = []" "opened 0 fs = 0" "closed 0 fs = 0" by (rule ingest_tool_calls_tracks)
  with ing have eq: "fs = call_events False d ?t" "tools' = bt_insert ?i v tools" by simp_all
  have "agrees tools' (es @ fs) st' (ds @ [d]) tx"
    using a st(2) tr(2) v heads_named_snoc[OF _ d] unfolding agrees_def by (auto simp: eq(2) bt_get_insert)
  with tr st(1) show ?thesis using that[of fs tools' st'] by (simp add: eq(1))
qed

lemma agrees_calls:
  assumes "agrees tools es st ds tx" and "steady ds new"
  obtains fs tools' st' where "ingest_tool_calls False new tools = Some (fs, tools')" "stream_events sd fs st = Inr st'"
    "agrees tools' (es @ fs) st' (ds @ new) tx" "streamed_text fs = []" "opened 0 fs = 0" "closed 0 fs = 0"
  using assms
proof (induction new arbitrary: tools es st ds thesis)
  case Nil
  then show ?case by simp
next
  case (Cons d new)
  have d: "dt_index d \<noteq> - 1" "if deltas_at (dt_index d) ds = [] then first_delta d else later_delta d" "steady (ds @ [d]) new"
    using Cons.prems(3) by simp_all
  obtain fs tools1 st1 where s: "ingest_tool_calls False [d] tools = Some (fs, tools1)" "stream_events sd fs st = Inr st1"
    "agrees tools1 (es @ fs) st1 (ds @ [d]) tx" "streamed_text fs = []" "opened 0 fs = 0" "closed 0 fs = 0"
    by (rule agrees_call[OF Cons.prems(2) d(1,2)])
  obtain gs tools2 st2 where g: "ingest_tool_calls False new tools1 = Some (gs, tools2)" "stream_events sd gs st1 = Inr st2"
    "agrees tools2 ((es @ fs) @ gs) st2 ((ds @ [d]) @ new) tx" "streamed_text gs = []" "opened 0 gs = 0" "closed 0 gs = 0"
    by (rule Cons.IH[OF _ s(3) d(3)])
  show ?case
    by (rule Cons.prems(1)[of "fs @ gs" tools2 st2])
      (use s g in \<open>simp_all add: ingest_tool_calls_Cons[of False d new] stream_events_append del: ingest_tool_calls.simps(2)\<close>)
qed

definition agrees_stream :: "ChatStreamState \<Rightarrow> StreamEvent list \<Rightarrow> StreamState \<Rightarrow> DeltaToolCall list \<Rightarrow> rstr \<Rightarrow> bool" where
  "agrees_stream s es st ds tx \<longleftrightarrow> tracks_stream s es ds tx \<and> agrees (cs_tool_calls s) es st ds tx"

lemma agrees_content:
  assumes a: "agrees_stream s es st ds tx" and c: "ingest_content con s = (fs, s')"
  obtains st' where "stream_events sd fs st = Inr st'" "agrees_stream s' (es @ fs) st' ds (tx @ unwrap_or [] con)"
proof -
  have tr: "tracks_stream s' (es @ fs) ds (tx @ unwrap_or [] con)"
    using ingest_content_tracks[OF _ c] a by (simp add: agrees_stream_def)
  then have tt: "tracks (cs_tool_calls s') (es @ fs) ds" by (simp add: tracks_stream_def)
  show ?thesis
  proof (cases "unwrap_or [] con = []")
    case True
    then have "fs = [] \<and> s' = s" using c by (auto simp: ingest_content_def split: option.splits)
    then show ?thesis using that[of st] a True by simp
  next
    case False
    then obtain t where t: "con = Some t" "t \<noteq> []" by (cases con) auto
    have fs: "fs = (if cs_text_started s then [] else [StreamBlockStart 0 (OutText [])]) @ [StreamBlockDelta 0 (DeltaText t)]"
      "cs_tool_calls s' = cs_tool_calls s" using c t by (auto simp: ingest_content_def)
    have run: "stream_events sd fs st = Inr (emit (TextDelta t) st)"
      using t(2) by (simp add: fs(1) push_streamed_def push_output_block_def)
    obtain ts where ts: "ss_events st = map TextDelta (filter (\<lambda>t. t \<noteq> []) ts)" "concat ts = tx"
      using a by (auto simp: agrees_stream_def agrees_def reads_def)
    then have e: "ss_events (emit (TextDelta t) st) = map TextDelta (filter (\<lambda>t. t \<noteq> []) (ts @ [t]))" "concat (ts @ [t]) = tx @ t"
      using t(2) by (simp_all add: emit_def)
    have "reads (emit (TextDelta t) st) ds (tx @ t)"
      using a e by (auto simp: agrees_stream_def agrees_def reads_def emit_def intro: exI[of _ "ts @ [t]"])
    then have "agrees_stream s' (es @ fs) (emit (TextDelta t) st) ds (tx @ unwrap_or [] con)"
      using a tr tt by (simp add: agrees_stream_def agrees_def fs(2) t(1))
    with run show ?thesis by (rule that)
  qed
qed

lemma agrees_choice:
  assumes a: "agrees_stream s es st ds tx" and r: "cc_finish_reason ch = None" and d: "steady ds (cd_tool_calls (cc_delta ch))"
  obtains fs s' st' where "ingest_choice ch s = Some (fs, s')" "stream_events sd fs st = Inr st'"
    "agrees_stream s' (es @ fs) st' (ds @ cd_tool_calls (cc_delta ch)) (tx @ unwrap_or [] (cd_content (cc_delta ch)))"
proof -
  let ?tx = "tx @ unwrap_or [] (cd_content (cc_delta ch))" let ?ds = "ds @ cd_tool_calls (cc_delta ch)"
  obtain f1 s1 where c: "ingest_content (cd_content (cc_delta ch)) s = (f1, s1)" by (cases "ingest_content (cd_content (cc_delta ch)) s")
  obtain st1 where s1: "stream_events sd f1 st = Inr st1" "agrees_stream s1 (es @ f1) st1 ds ?tx"
    by (rule agrees_content[OF a c])
  then have "agrees (cs_tool_calls s1) (es @ f1) st1 ds ?tx" by (simp add: agrees_stream_def)
  then obtain f2 tools st2 where t: "ingest_tool_calls False (cd_tool_calls (cc_delta ch)) (cs_tool_calls s1) = Some (f2, tools)"
    "stream_events sd f2 st1 = Inr st2" "agrees tools ((es @ f1) @ f2) st2 ?ds ?tx"
    "streamed_text f2 = []" "opened 0 f2 = 0" "closed 0 f2 = 0"
    by (rule agrees_calls[OF _ d])
  have "tracks_stream (s1\<lparr>cs_tool_calls := tools\<rparr>) ((es @ f1) @ f2) ?ds ?tx"
    using s1(2) t by (simp add: agrees_stream_def tracks_stream_def agrees_def)
  then have "agrees_stream (s1\<lparr>cs_tool_calls := tools\<rparr>) (es @ f1 @ f2) st2 ?ds ?tx"
    using t(3) by (simp add: agrees_stream_def)
  moreover have "ingest_choice ch s = Some (f1 @ f2, s1\<lparr>cs_tool_calls := tools\<rparr>)"
    by (simp add: ingest_choice_def c r t(1) ingest_finish_reason_def)
  moreover have "stream_events sd (f1 @ f2) st = Inr st2" by (simp add: stream_events_append s1(1) t(2))
  ultimately show ?thesis using that by blast
qed

abbreviation choices_deltas :: "ChunkChoice list \<Rightarrow> DeltaToolCall list" where
  "choices_deltas chs \<equiv> concat (map (\<lambda>ch. cd_tool_calls (cc_delta ch)) chs)"

abbreviation choices_text :: "ChunkChoice list \<Rightarrow> rstr" where
  "choices_text chs \<equiv> concat (map (\<lambda>ch. unwrap_or [] (cd_content (cc_delta ch))) chs)"

definition open_chunk :: "ChatCompletionChunk \<Rightarrow> bool" where
  "open_chunk c \<longleftrightarrow> list_all (\<lambda>ch. cc_finish_reason ch = None) (chunk_choices c)"

lemma agrees_choices:
  assumes "agrees_stream s es st ds tx" and "list_all (\<lambda>ch. cc_finish_reason ch = None) chs" and "steady ds (choices_deltas chs)"
  obtains fs s' st' where "ingest_choices chs s = Some (fs, s')" "stream_events sd fs st = Inr st'"
    "agrees_stream s' (es @ fs) st' (ds @ choices_deltas chs) (tx @ choices_text chs)"
  using assms
proof (induction chs arbitrary: s es st ds tx thesis)
  case Nil
  then show ?case by simp
next
  case (Cons ch chs)
  have h: "cc_finish_reason ch = None" "list_all (\<lambda>ch. cc_finish_reason ch = None) chs"
    "steady ds (cd_tool_calls (cc_delta ch))" "steady (ds @ cd_tool_calls (cc_delta ch)) (choices_deltas chs)"
    using Cons.prems(3,4) by (simp_all add: steady_append)
  obtain fs s1 st1 where s1: "ingest_choice ch s = Some (fs, s1)" "stream_events sd fs st = Inr st1"
    "agrees_stream s1 (es @ fs) st1 (ds @ cd_tool_calls (cc_delta ch)) (tx @ unwrap_or [] (cd_content (cc_delta ch)))"
    by (rule agrees_choice[OF Cons.prems(2) h(1,3)])
  obtain gs s2 st2 where s2: "ingest_choices chs s1 = Some (gs, s2)" "stream_events sd gs st1 = Inr st2"
    "agrees_stream s2 ((es @ fs) @ gs) st2 ((ds @ cd_tool_calls (cc_delta ch)) @ choices_deltas chs)
       ((tx @ unwrap_or [] (cd_content (cc_delta ch))) @ choices_text chs)"
    by (rule Cons.IH[OF _ s1(3) h(2,4)])
  show ?case
    by (rule Cons.prems(1)[of "fs @ gs" s2 st2]) (use s1 s2 in \<open>simp_all add: stream_events_append\<close>)
qed

lemma agrees_chunks:
  assumes "agrees_stream s es st ds tx" and "list_all open_chunk chunks" and "steady ds (concat (map chunk_deltas chunks))"
  obtains fs s' st' where "ingest_chunks chunks s = Some (fs, s')" "stream_events sd fs st = Inr st'"
    "agrees_stream s' (es @ fs) st' (ds @ concat (map chunk_deltas chunks)) (tx @ concat (map chunk_text chunks))"
  using assms
proof (induction chunks arbitrary: s es st ds tx thesis)
  case Nil
  then show ?case by simp
next
  case (Cons c chunks)
  let ?start = "if cs_message_started s then [] else [StreamMessageStart (started_message (cs_model s) c)]"
  let ?s = "s\<lparr>cs_message_started := True, cs_usage := some_or (map_option usage_of_openai (chunk_usage c)) (cs_usage s)\<rparr>"
  have o: "open_chunk c" "steady ds (chunk_deltas c)" and h2: "list_all open_chunk chunks"
    and h4: "steady (ds @ chunk_deltas c) (concat (map chunk_deltas chunks))"
    using Cons.prems(3,4) by (simp_all add: steady_append)
  have h1: "list_all (\<lambda>ch. cc_finish_reason ch = None) (chunk_choices c)" and h3: "steady ds (choices_deltas (chunk_choices c))"
    using o by (simp_all only: open_chunk_def chunk_deltas_def)
  have "tracks (cs_tool_calls s) (es @ ?start) ds"
    by (rule tracks_silent) (use Cons.prems(2) in \<open>simp_all add: agrees_stream_def tracks_stream_def\<close>)
  then have a: "agrees_stream ?s (es @ ?start) st ds tx"
    using Cons.prems(2) by (simp add: agrees_stream_def tracks_stream_def agrees_def)
  have start: "stream_events sd ?start st = Inr st" by (simp add: started_message_def)
  obtain fs s1 st1 where s1: "ingest_choices (chunk_choices c) ?s = Some (fs, s1)" "stream_events sd fs st = Inr st1"
    "agrees_stream s1 ((es @ ?start) @ fs) st1 (ds @ choices_deltas (chunk_choices c)) (tx @ choices_text (chunk_choices c))"
    by (rule agrees_choices[OF a h1 h3])
  have s1': "agrees_stream s1 ((es @ ?start) @ fs) st1 (ds @ chunk_deltas c) (tx @ chunk_text c)"
    using s1(3) by (simp only: chunk_deltas_def chunk_text_def)
  have c: "ingest_chunk c s = Some (?start @ fs, s1)" by (simp add: ingest_chunk_def s1(1))
  obtain gs s2 st2 where s2: "ingest_chunks chunks s1 = Some (gs, s2)" "stream_events sd gs st1 = Inr st2"
    "agrees_stream s2 (((es @ ?start) @ fs) @ gs) st2 ((ds @ chunk_deltas c) @ concat (map chunk_deltas chunks))
       ((tx @ chunk_text c) @ concat (map chunk_text chunks))"
    by (rule Cons.IH[OF _ s1' h2 h4])
  have "stream_events sd ((?start @ fs) @ gs) st = Inr st2"
    using start s1(2) s2(2) by (simp only: stream_events_append res_bind.simps)
  moreover have "ingest_chunks (c # chunks) s = Some ((?start @ fs) @ gs, s2)" by (simp add: c s2(1))
  ultimately show ?case using Cons.prems(1)[of "(?start @ fs) @ gs" s2 st2] s2(3) by simp
qed

section \<open>The end of the answer\<close>

lemma collect_map: "collect f (map g xs) = collect (\<lambda>x. f (g x)) xs"
  by (induction xs) simp_all

lemma bt_get_remove: "bt_get (remove_pending i p) j = (if j = i then None else bt_get p j)"
  by (induction p) (auto simp: remove_pending_def)

definition pending_event :: "SerdeText \<Rightarrow> rstr \<times> rstr \<times> rstr \<Rightarrow> RuntimeError + AssistantEvent" where
  "pending_event sd c = (case c of (i, n, args) \<Rightarrow> parse_pending_output_block sd i n args)"

lemma stream_stops:
  assumes "distinct js" and "\<forall>i \<in> set js. bt_get (ss_pending st) (i + 1) = Some (c i)" and "bt_get (ss_pending st) 0 = None"
  shows "case collect (\<lambda>i. pending_event sd (c i)) js of
      Inl e \<Rightarrow> stream_events sd (map (\<lambda>i. StreamBlockStop (i + 1)) js) st = Inl e
    | Inr es \<Rightarrow> (\<exists>p. bt_get p 0 = None \<and> stream_events sd (map (\<lambda>i. StreamBlockStop (i + 1)) js) st =
        Inr (st\<lparr>ss_events := ss_events st @ es, ss_pending := p\<rparr>))"
  using assms
proof (induction js arbitrary: st)
  case Nil
  then show ?case by (auto intro!: exI[of _ "ss_pending st"])
next
  case (Cons i js)
  obtain x n args where k: "c i = (x, n, args)" by (cases "c i")
  then have g: "bt_get (ss_pending st) (i + 1) = Some (x, n, args)" using Cons.prems(2) by simp
  show ?case
  proof (cases "parse_pending_output_block sd x n args")
    case (Inl e)
    then show ?thesis by (simp add: k pending_event_def g)
  next
    case (Inr ev)
    let ?st = "emit ev (st\<lparr>ss_pending := remove_pending (i + 1) (ss_pending st)\<rparr>)"
    have p: "\<forall>j \<in> set js. bt_get (ss_pending ?st) (j + 1) = Some (c j)" "bt_get (ss_pending ?st) 0 = None"
      using Cons.prems by (auto simp: emit_def bt_get_remove)
    have d: "distinct js" using Cons.prems(1) by simp
    from Cons.IH[OF d p] show ?thesis
      by (cases "collect (\<lambda>i. pending_event sd (c i)) js") (auto simp: k pending_event_def g Inr emit_def)
  qed
qed

lemma stop_all_calls:
  "\<forall>(i, t) \<in> set tools. tc_started t \<and> \<not> tc_stopped t \<and> tc_openai_index t = i \<Longrightarrow>
     stop_tool_calls tools =
       (map (\<lambda>i. StreamBlockStop (i + 1)) (map fst tools), map (\<lambda>(i, t). (i, t\<lparr>tc_stopped := True\<rparr>)) tools)"
proof (induction tools)
  case (Cons it tools)
  then show ?case by (cases it) (auto simp: stop_tool_call_def block_index_def split: prod.split)
qed simp

lemma stop_stopped_calls: "\<forall>(i, t) \<in> set tools. tc_stopped t \<Longrightarrow> stop_tool_calls tools = ([], tools)"
proof (induction tools)
  case (Cons it tools)
  then show ?case by (cases it) (auto simp: stop_tool_call_def split: prod.split)
qed simp

text \<open>After the deltas that spell \<open>n\<close> calls the stream holds exactly the indices below \<open>n\<close>, in order.\<close>

lemma unat_of_nat_below: "k < n \<Longrightarrow> n < 2 ^ 32 \<Longrightarrow> unat (of_nat k :: u32) = k"
  by (simp add: unat_of_nat)

lemma spelled_keys:
  assumes a: "agrees tools es st ds tx" and s: "spells calls ds"
  shows "map fst tools = map of_nat [0..<length calls]"
proof (rule sorted_distinct_set_unique)
  have n: "length calls < 2 ^ 32" using s by (simp add: spells_def)
  have ok: "bt_ok tools" using a by (simp add: agrees_def tracks_def)
  then show "sorted (map fst tools)" "distinct (map fst tools)"
    by (simp_all add: bt_ok_def strict_sorted_iff)
  have inj: "inj_on (of_nat :: nat \<Rightarrow> u32) {0..<length calls}"
    using unat_of_nat_below[OF _ n] by (metis atLeastLessThan_iff inj_onI)
  then show "distinct (map of_nat [0..<length calls] :: u32 list)" by (simp add: distinct_map)
  show "sorted (map of_nat [0..<length calls] :: u32 list)"
    by (simp add: sorted_iff_nth_mono word_le_nat_alt unat_of_nat_below[OF _ n])
  have "bt_get tools i \<noteq> None \<longleftrightarrow> unat i < length calls" for i
  proof -
    have "bt_get tools i \<noteq> None \<longleftrightarrow> deltas_at i ds \<noteq> []" using a by (simp add: agrees_def)
    also have "\<dots> \<longleftrightarrow> call_of i ds \<noteq> None" by (auto simp: call_of_def split: list.split)
    also have "\<dots> \<longleftrightarrow> unat i < length calls" using s by (simp add: spells_def)
    finally show ?thesis .
  qed
  then have "i \<in> fst ` set tools \<longleftrightarrow> unat i < length calls" for i by (metis map_of_eq_None_iff)
  moreover have "i \<in> (of_nat :: nat \<Rightarrow> u32) ` {0..<length calls} \<longleftrightarrow> unat i < length calls" for i
  proof
    assume "i \<in> of_nat ` {0..<length calls}"
    then show "unat i < length calls" by (auto simp: unat_of_nat_below[OF _ n])
  next
    assume "unat i < length calls"
    then show "i \<in> of_nat ` {0..<length calls}" by (intro image_eqI[of _ _ "unat i"]) simp_all
  qed
  ultimately show "set (map fst tools) = set (map of_nat [0..<length calls])"
    unfolding set_map set_upt by blast
qed

lemma spelled_calls:
  assumes s: "spells calls ds"
  shows "collect (\<lambda>i. pending_event sd (the (call_of i ds))) (map of_nat [0..<length calls]) =
    collect (\<lambda>c. parse_pending_output_block sd (rt_id c) (rf_name (rt_function c)) (rf_arguments (rt_function c))) calls"
proof -
  have n: "length calls < 2 ^ 32" using s by (simp add: spells_def)
  have "pending_event sd (the (call_of (of_nat k) ds)) =
      parse_pending_output_block sd (rt_id (calls ! k)) (rf_name (rt_function (calls ! k))) (rf_arguments (rt_function (calls ! k)))"
    if "k < length calls" for k
    using s that by (simp add: spells_def pending_event_def unat_of_nat_below[OF that n])
  then have "collect (\<lambda>k. pending_event sd (the (call_of (of_nat k) ds))) ks =
      collect (\<lambda>k. parse_pending_output_block sd (rt_id (calls ! k)) (rf_name (rt_function (calls ! k))) (rf_arguments (rt_function (calls ! k)))) ks"
    if "set ks \<subseteq> {0..<length calls}" for ks
    using that by (induction ks) simp_all
  note same = this[of "[0..<length calls]"]
  have calls: "collect f calls = collect (\<lambda>k. f (calls ! k)) [0..<length calls]" for f :: "_ \<Rightarrow> RuntimeError + AssistantEvent"
    using collect_map[of f "\<lambda>k. calls ! k" "[0..<length calls]"] by (simp add: map_nth)
  show ?thesis unfolding collect_map calls by (rule same) simp
qed

lemma ingest_choices_keep:
  "ingest_choices chs s = Some (es, s') \<Longrightarrow> cs_usage s' = cs_usage s \<and> cs_message_started s' = cs_message_started s"
proof (induction chs arbitrary: s es)
  case (Cons ch chs)
  have "ingest_choice ch s = Some (fs, s1) \<Longrightarrow> cs_usage s1 = cs_usage s \<and> cs_message_started s1 = cs_message_started s" for fs s1
    by (auto simp: ingest_choice_def ingest_content_def ingest_finish_reason_def Let_def
        split: option.splits if_splits prod.splits)
  then show ?case using Cons by (fastforce split: option.splits)
qed simp

definition sent_usage :: "ChatCompletionChunk list \<Rightarrow> OpenAiUsage option \<Rightarrow> OpenAiUsage option" where
  "sent_usage chunks u = fold (\<lambda>c. some_or (chunk_usage c)) chunks u"

lemma ingest_chunks_keep:
  assumes "ingest_chunks chunks s = Some (es, s')" and "cs_usage s = map_option usage_of_openai u"
  shows "cs_usage s' = map_option usage_of_openai (sent_usage chunks u)
    \<and> (cs_message_started s' \<longleftrightarrow> cs_message_started s \<or> chunks \<noteq> [])"
  using assms
proof (induction chunks arbitrary: s es u)
  case (Cons c chunks)
  obtain fs s1 gs where c: "ingest_chunk c s = Some (fs, s1)" "ingest_chunks chunks s1 = Some (gs, s')"
    using Cons.prems(1) by (auto split: option.splits)
  have "cs_usage s1 = map_option usage_of_openai (some_or (chunk_usage c) u) \<and> cs_message_started s1"
    using c(1) Cons.prems(2) by (auto simp: ingest_chunk_def Let_def some_or_def dest!: ingest_choices_keep split: option.splits)
  with Cons.IH[OF c(2)] show ?case by (simp add: sent_usage_def)
qed (simp add: sent_usage_def)

lemma ingest_chunks_append:
  "ingest_chunks (a @ b) s =
     (case ingest_chunks a s of
        None \<Rightarrow> None
      | Some (es, s1) \<Rightarrow> map_option (apfst (\<lambda>fs. es @ fs)) (ingest_chunks b s1))"
proof (induction a arbitrary: s)
  case Nil
  then show ?case by (cases "ingest_chunks b s") auto
next
  case (Cons c a)
  then show ?case
    by (cases "ingest_chunk c s")
      (auto simp: option.map_comp comp_def prod_eq_iff intro!: option.map_cong[OF refl] split: option.split)
qed

lemma ingest_tail:
  "list_all (\<lambda>c. chunk_choices c = []) tail \<Longrightarrow> cs_message_started s \<Longrightarrow>
     \<exists>u. ingest_chunks tail s = Some ([], s\<lparr>cs_usage := u\<rparr>)"
proof (induction tail arbitrary: s)
  case Nil
  then show ?case by (auto intro!: exI[of _ "cs_usage s"])
next
  case (Cons c tail)
  have "ingest_chunk c s = Some ([], s\<lparr>cs_usage := some_or (map_option usage_of_openai (chunk_usage c)) (cs_usage s)\<rparr>)"
    using Cons.prems by (cases s) (simp add: ingest_chunk_def)
  then show ?case
    using Cons.IH[of "s\<lparr>cs_usage := some_or (map_option usage_of_openai (chunk_usage c)) (cs_usage s)\<rparr>"] Cons.prems by auto
qed

section \<open>The whole answer\<close>

text \<open>
  A service streams a message: chunks with its text and the deltas that spell its calls, then a chunk that gives the
  reason of the end, then chunks without a choice, which may carry the counts.
\<close>

definition end_chunk :: "ChatCompletionChunk \<Rightarrow> rstr \<Rightarrow> bool" where
  "end_chunk c reason \<longleftrightarrow>
     chunk_choices c = [\<lparr>cc_delta = \<lparr>cd_content = None, cd_tool_calls = []\<rparr>, cc_finish_reason = Some reason\<rparr>]"

definition streams_message ::
  "ChatMessage \<Rightarrow> OpenAiUsage option \<Rightarrow> ChatCompletionChunk list \<Rightarrow> ChatCompletionChunk \<Rightarrow> ChatCompletionChunk list \<Rightarrow> bool" where
  "streams_message m u body c tail \<longleftrightarrow>
     list_all open_chunk body \<and> (\<exists>reason. end_chunk c reason) \<and> list_all (\<lambda>c. chunk_choices c = []) tail
     \<and> concat (map chunk_text body) = unwrap_or [] (cm_content m)
     \<and> spells (cm_tool_calls m) (concat (map chunk_deltas body)) \<and> sent_usage (body @ c # tail) None = u"

text \<open>What the reader makes of the end of a stream: the calls one after the other, the counts and the stop.\<close>

definition end_events :: "ApiUsage \<Rightarrow> AssistantEvent list" where
  "end_events u =
     [UsageEvent \<lparr>input_tokens = au_input_tokens u, output_tokens = au_output_tokens u,
                   cache_creation_input_tokens = 0, cache_read_input_tokens = 0\<rparr>, MessageStop]"

lemma reads_end:
  assumes r: "reads st ds tx" and s: "spells calls ds"
    and es: "es = map (\<lambda>i. StreamBlockStop (i + 1)) (map of_nat [0..<length calls])"
    and rest: "rest = es @ tx_stop @ [StreamMessageDelta md u, StreamMessageStop] \<or> rest = tx_stop @ es @ [StreamMessageDelta md u, StreamMessageStop]"
    and tx_stop: "tx_stop = [] \<or> tx_stop = [StreamBlockStop 0]"
  shows "map_sum id close_stream (stream_events sd rest st) =
    map_sum id (\<lambda>cs. ss_events st @ cs @ end_events u)
      (collect (\<lambda>c. parse_pending_output_block sd (rt_id c) (rf_name (rt_function c)) (rf_arguments (rt_function c))) calls)"
proof -
  let ?js = "map of_nat [0..<length calls] :: u32 list"
  have n: "length calls < 2 ^ 32" using s by (simp add: spells_def)
  have d: "distinct ?js"
    using unat_of_nat_below[OF _ n] by (auto simp: distinct_map intro!: inj_onI) (metis)
  have p: "\<forall>i \<in> set ?js. bt_get (ss_pending st) (i + 1) = Some (the (call_of i ds))"
  proof
    fix i :: u32
    assume "i \<in> set ?js"
    then obtain k where k: "k < length calls" "i = of_nat k" by auto
    then have u: "unat i = k" by (simp add: unat_of_nat_below[OF _ n])
    have "i \<noteq> - 1"
    proof
      assume "i = - 1"
      then have "unat i = 4294967295" by (simp only: unsigned_minus_1_eq_mask mask_eq_exp_minus_1) simp
      with u k(1) n show False by simp
    qed
    moreover have "call_of i ds \<noteq> None" using s u k(1) by (simp add: spells_def)
    ultimately show "bt_get (ss_pending st) (i + 1) = Some (the (call_of i ds))" using r by (auto simp: reads_def)
  qed
  have z: "bt_get (ss_pending st) 0 = None" and saw: "\<not> ss_saw_stop st" using r by (simp_all add: reads_def)
  have tx: "stream_events sd tx_stop st' = Inr st'" if "bt_get (ss_pending st') 0 = None" for st'
    using tx_stop that by auto
  note stops = stream_stops[OF d p z, of sd, folded es] 
  note calls = spelled_calls[OF s, of sd]
  show ?thesis
  proof (cases "collect (\<lambda>i. pending_event sd (the (call_of i ds))) ?js")
    case (Inl e)
    then have k: "collect (\<lambda>c. parse_pending_output_block sd (rt_id c) (rf_name (rt_function c)) (rf_arguments (rt_function c))) calls = Inl e"
      using calls by simp
    show ?thesis using rest stops Inl tx[OF z] by (auto simp: k stream_events_append)
  next
    case (Inr cs)
    then obtain q where q: "bt_get q 0 = None"
      "stream_events sd es st = Inr (st\<lparr>ss_events := ss_events st @ cs, ss_pending := q\<rparr>)" using stops by auto
    have k: "collect (\<lambda>c. parse_pending_output_block sd (rt_id c) (rf_name (rt_function c)) (rf_arguments (rt_function c))) calls = Inr cs"
      using calls Inr by simp
    show ?thesis using rest q tx[OF z] tx[of "st\<lparr>ss_events := ss_events st @ cs, ss_pending := q\<rparr>"]
      by (auto simp: k stream_events_append emit_def close_stream_def end_events_def)
  qed
qed

text \<open>The answer sent at once, block by block.\<close>

definition payload_alike :: "SerdeText \<Rightarrow> ResponseToolCall \<Rightarrow> bool" where
  "payload_alike sd c \<longleftrightarrow>
     (rf_name (rt_function c) = REQUEST_USER_INPUT_TOOL_NAME \<longrightarrow>
       sd_payload sd (rf_arguments (rt_function c)) = sd_payload sd (reread_input sd (rf_arguments (rt_function c))))"

lemma reread_arguments: "sd_show sd (parse_tool_arguments sd t) = reread_input sd t"
  by (simp add: parse_tool_arguments_def reread_input_def)

lemma response_calls:
  assumes "\<forall>c \<in> set calls. payload_alike sd c"
  shows "response_blocks sd i (map (tool_use_of_call sd) calls) (events, []) =
    map_sum id (\<lambda>cs. events @ map (reread_event sd) cs)
      (collect (\<lambda>c. parse_pending_output_block sd (rt_id c) (rf_name (rt_function c)) (rf_arguments (rt_function c))) calls)"
  using assms
proof (induction calls arbitrary: i events)
  case (Cons c calls)
  let ?p = "parse_pending_output_block sd (rt_id c) (rf_name (rt_function c)) (rf_arguments (rt_function c))"
  have e: "block_events sd (tool_use_of_call sd c) = map_sum id (\<lambda>e. [reread_event sd e]) ?p"
    using Cons.prems
    by (cases ?p) (simp_all add: tool_use_of_call_def reread_arguments payload_alike_def pending_reread)
  have IH: "response_blocks sd (Suc i) (map (tool_use_of_call sd) calls) (events @ [ev], []) =
      map_sum id (\<lambda>cs. (events @ [ev]) @ map (reread_event sd) cs)
        (collect (\<lambda>c. parse_pending_output_block sd (rt_id c) (rf_name (rt_function c)) (rf_arguments (rt_function c))) calls)" for ev
    by (rule Cons.IH) (use Cons.prems in simp)
  show ?case
    by (cases ?p; cases "collect (\<lambda>c. parse_pending_output_block sd (rt_id c) (rf_name (rt_function c)) (rf_arguments (rt_function c))) calls")
      (simp_all add: response_blocks_step e IH del: response_blocks.simps(2))
qed simp

lemma response_message:
  assumes "\<forall>c \<in> set calls. payload_alike sd c"
  shows "response_blocks sd 0 ((if tx = [] then [] else [OutText tx]) @ map (tool_use_of_call sd) calls) ([], []) =
    map_sum id (\<lambda>cs. (if tx = [] then [] else [TextDelta tx]) @ map (reread_event sd) cs)
      (collect (\<lambda>c. parse_pending_output_block sd (rt_id c) (rf_name (rt_function c)) (rf_arguments (rt_function c))) calls)"
proof (cases "tx = []")
  case True
  then show ?thesis using response_calls[OF assms, of 0 "[]"] by simp
next
  case False
  then show ?thesis using response_calls[OF assms, of 1 "[TextDelta tx]"]
    by (simp add: response_blocks_step del: response_blocks.simps(2))
qed

lemma agrees_new: "agrees_stream (ChatStreamState_new model) [] StreamState_new [] []"
proof -
  have "reads StreamState_new [] []"
    by (auto simp: reads_def StreamState_new_def call_of_def deltas_at_def intro!: exI[of _ "[]"])
  then have "agrees [] [] StreamState_new [] []"
    by (simp add: agrees_def tracks_new heads_named_def named_def deltas_at_def call_at_def ToolCallState_default_def)
  then show ?thesis by (simp add: agrees_stream_def tracks_stream_new) (simp add: ChatStreamState_new_def)
qed

text \<open>What the stream ends with, after the chunks of the body.\<close>

lemma stream_end:
  assumes a: "agrees_stream s es st ds tx" and sp: "spells calls ds" and e: "end_chunk c reason"
    and tail: "list_all (\<lambda>c. chunk_choices c = []) tail" and u: "cs_usage s = map_option usage_of_openai u"
  obtains starts rest md fs s1 gs s2 stops tx_stop where
    "ingest_chunks (c # tail) s = Some (fs, s1)" "stream_finish s1 = Some (gs, s2)" "fs @ gs = starts @ rest"
    "starts = [] \<or> (\<exists>m. starts = [StreamMessageStart (started_message m c)])"
    "stops = map (\<lambda>i. StreamBlockStop (i + 1)) (map of_nat [0..<length calls])"
    "rest = stops @ tx_stop @ [StreamMessageDelta md (unwrap_or no_usage (map_option usage_of_openai (sent_usage (c # tail) u))), StreamMessageStop]
     \<or> rest = tx_stop @ stops @ [StreamMessageDelta md (unwrap_or no_usage (map_option usage_of_openai (sent_usage (c # tail) u))), StreamMessageStop]"
    "tx_stop = [] \<or> tx_stop = [StreamBlockStop 0]"
proof -
  let ?tools = "cs_tool_calls s"
  let ?stops = "map (\<lambda>i. StreamBlockStop (i + 1)) (map of_nat [0..<length calls]) :: StreamEvent list"
  let ?stopped = "map (\<lambda>(i, t). (i, t\<lparr>tc_stopped := True\<rparr>)) ?tools"
  have ag: "agrees ?tools es st ds tx" and tr: "tracks_stream s es ds tx" using a by (simp_all add: agrees_stream_def)
  have tools: "tc_started t \<and> \<not> tc_stopped t \<and> tc_openai_index t = i" if m: "(i, t) \<in> set ?tools" for i t
  proof -
    have g: "bt_get ?tools i = Some t" using ag m by (simp add: agrees_def tracks_def bt_ok_distinct)
    then have i: "i \<noteq> - 1" using ag by (auto simp: agrees_def tracks_def)
    have ds: "deltas_at i ds \<noteq> []" using ag g unfolding agrees_def by (metis option.distinct(1))
    have at: "call_at ?tools i = t" using g by (simp add: call_at_def)
    have "tracks_call i t es ds" using ag i at unfolding agrees_def tracks_def by metis
    moreover have "\<not> tc_stopped t" using ag at unfolding agrees_def by metis
    ultimately show ?thesis using ag ds g by (auto simp: agrees_def heads_named_def tracks_call_def tracks_def)
  qed
  have keys: "map fst ?tools = map of_nat [0..<length calls]" by (rule spelled_keys[OF ag sp])
  have "\<forall>(i, t) \<in> set ?tools. tc_started t \<and> \<not> tc_stopped t \<and> tc_openai_index t = i" using tools by blast
  from stop_all_calls[OF this] have all: "stop_tool_calls ?tools = (?stops, ?stopped)" by (simp only: keys)
  have none: "stop_tool_calls ?stopped = ([], ?stopped)" by (rule stop_stopped_calls) auto
  have named1: "\<forall>(i, t) \<in> set ?tools. tc_started t \<longleftrightarrow> tc_name t \<noteq> None"
  proof -
    have "tc_name t \<noteq> None" if m: "(i, t) \<in> set ?tools" for i t
    proof -
      have g: "bt_get ?tools i = Some t" using ag m by (simp add: agrees_def tracks_def bt_ok_distinct)
      then have "i \<noteq> - 1" using ag by (auto simp: agrees_def tracks_def)
      then have "tracks_call i t es ds" using ag g unfolding agrees_def tracks_def call_at_def by (metis unwrap_or_simps(2))
      then show ?thesis using tools[OF m] by (auto simp: tracks_call_def)
    qed
    then show ?thesis using tools by blast
  qed
  then have named2: "\<forall>(i, t) \<in> set ?stopped. tc_started t \<longleftrightarrow> tc_name t \<noteq> None" by auto
  define starts where "starts = (if cs_message_started s then [] else [StreamMessageStart (started_message (cs_model s) c)])"
  define final where "final = (if reason = TOOL_CALLS then ?stops else [])"
  define s0 where "s0 = s\<lparr>cs_message_started := True, cs_usage := some_or (map_option usage_of_openai (chunk_usage c)) (cs_usage s),
      cs_stop_reason := Some (normalize_finish_reason reason), cs_tool_calls := (if reason = TOOL_CALLS then ?stopped else ?tools)\<rparr>"
  have c: "ingest_chunk c s = Some (starts @ final, s0)"
    using e all by (simp add: ingest_chunk_def end_chunk_def ingest_choice_def ingest_content_def ingest_finish_reason_def
        starts_def final_def s0_def)
  have "cs_message_started s0" by (simp add: s0_def)
  then obtain v where v: "ingest_chunks tail s0 = Some ([], s0\<lparr>cs_usage := v\<rparr>)" using ingest_tail[OF tail] by blast
  let ?s1 = "s0\<lparr>cs_usage := v\<rparr>"
  have ing: "ingest_chunks (c # tail) s = Some (starts @ final, ?s1)" by (simp add: c v)
  have use: "v = map_option usage_of_openai (sent_usage (c # tail) u)"
    using ingest_chunks_keep[OF ing u] by simp
  define tx_stop where "tx_stop = (if tx = [] then [] else [StreamBlockStop 0])"
  define md where "md = \<lparr>md_stop_reason = Some (normalize_finish_reason reason), md_stop_sequence = None\<rparr>"
  have fin: "finish_tool_calls (cs_tool_calls ?s1) = Some (if reason = TOOL_CALLS then [] else ?stops, ?stopped)"
    using finish_tool_calls_stops[OF named1] finish_tool_calls_stops[OF named2] all none by (simp add: s0_def)
  have "stream_finish ?s1 = Some (tx_stop @ (if reason = TOOL_CALLS then [] else ?stops)
      @ [StreamMessageDelta md (unwrap_or no_usage v), StreamMessageStop],
      ?s1\<lparr>cs_finished := True, cs_text_finished := cs_text_started s, cs_tool_calls := ?stopped\<rparr>)"
    using tr fin by (auto simp: stream_finish_def Let_def s0_def tracks_stream_def tx_stop_def md_def)
  note fin1 = this
  show ?thesis
    by (rule that[OF ing fin1, of starts "final @ tx_stop @ (if reason = TOOL_CALLS then [] else ?stops)
          @ [StreamMessageDelta md (unwrap_or no_usage v), StreamMessageStop]" ?stops tx_stop md])
      (auto simp: starts_def final_def tx_stop_def use)
qed

text \<open>
  C14: A chat completion that is streamed gives the same message - with the inputs of its calls read and written
  again - or the same error of a malformed request for user input, as the completion sent at once: however the service
  cuts the text and the arguments of the calls into deltas and however it interleaves the calls, as long as a call's id
  and name come with its first delta, the reason comes last, and the payload of a request for user input is read from
  its text as from that text read and written again. The translation never fails on a slice.
\<close>

theorem chat_stream_is_response:
  assumes choice: "cr_choices resp = choice # others" and response: "normalize_response sd model resp = Inr r"
    and streams: "streams_message (co_message choice) (cr_usage resp) body c tail"
    and payloads: "\<forall>call \<in> set (cm_tool_calls (co_message choice)). payload_alike sd call"
    and service: "as_stream api (provider_request sd mt client req) w = (Inr (the (chat_events model (body @ c # tail)), None), w1)"
  shows "chat_events model (body @ c # tail) \<noteq> None
    \<and> map_sum id (reread_answer sd) (res_bind (fst (provider_stream sd mt api client req w)) build_assistant_message) =
        res_bind (response_to_events sd r) build_assistant_message"
proof -
  let ?m = "co_message choice" let ?calls = "cm_tool_calls (co_message choice)"
  let ?ds = "concat (map chunk_deltas body)" let ?tx = "unwrap_or [] (cm_content (co_message choice))"
  let ?events = "collect (\<lambda>c. parse_pending_output_block sd (rt_id c) (rf_name (rt_function c)) (rf_arguments (rt_function c))) ?calls"
  obtain reason where h: "list_all open_chunk body" "end_chunk c reason" "list_all (\<lambda>c. chunk_choices c = []) tail"
    "concat (map chunk_text body) = ?tx" "spells ?calls ?ds" "sent_usage (body @ c # tail) None = cr_usage resp"
    using streams by (auto simp: streams_message_def)
  have steady: "steady [] ?ds" using h(5) by (simp add: spells_def)
  obtain es s st where b: "ingest_chunks body (ChatStreamState_new model) = Some (es, s)" "stream_events sd es StreamState_new = Inr st"
    "agrees_stream s ([] @ es) st ([] @ ?ds) ([] @ concat (map chunk_text body))"
    by (rule agrees_chunks[OF agrees_new h(1) steady])
  have ag: "agrees_stream s es st ?ds ?tx" using b(3) h(4) by simp
  then have rd: "reads st ?ds ?tx" by (simp add: agrees_stream_def agrees_def)
  have "cs_usage (ChatStreamState_new model) = map_option usage_of_openai None" by (simp add: ChatStreamState_new_def)
  from ingest_chunks_keep[OF b(1) this] have u: "cs_usage s = map_option usage_of_openai (sent_usage body None)" by simp
  have total: "sent_usage (c # tail) (sent_usage body None) = cr_usage resp" using h(6) by (simp add: sent_usage_def)
  obtain starts rest md fs s1 gs s2 stops tx_stop where e:
    "ingest_chunks (c # tail) s = Some (fs, s1)" "stream_finish s1 = Some (gs, s2)" "fs @ gs = starts @ rest"
    "starts = [] \<or> (\<exists>m. starts = [StreamMessageStart (started_message m c)])"
    "stops = map (\<lambda>i. StreamBlockStop (i + 1)) (map of_nat [0..<length ?calls])"
    "rest = stops @ tx_stop @ [StreamMessageDelta md (unwrap_or no_usage (map_option usage_of_openai (sent_usage (c # tail) (sent_usage body None)))), StreamMessageStop]
     \<or> rest = tx_stop @ stops @ [StreamMessageDelta md (unwrap_or no_usage (map_option usage_of_openai (sent_usage (c # tail) (sent_usage body None)))), StreamMessageStop]"
    "tx_stop = [] \<or> tx_stop = [StreamBlockStop 0]"
    by (rule stream_end[OF ag h(5) h(2) h(3) u])
  let ?u = "unwrap_or no_usage (map_option usage_of_openai (cr_usage resp))"
  note final = reads_end[OF rd h(5) e(5) e(6) e(7), unfolded total]
  have events: "chat_events model (body @ c # tail) = Some (es @ starts @ rest)"
    using e(1-3) by (simp add: chat_events_def ingest_chunks_append b(1) del: ingest_chunks.simps)
  have "stream_events sd starts st = Inr st" using e(4) by (auto simp: started_message_def)
  then have run: "map_sum id close_stream (stream_events sd (es @ starts @ rest) StreamState_new) =
      map_sum id (\<lambda>cs. ss_events st @ cs @ end_events ?u) ?events"
    using final b(2) by (simp add: stream_events_append)
  obtain ts where ts: "ss_events st = map TextDelta (filter (\<lambda>t. t \<noteq> []) ts)" "concat ts = ?tx" using rd by (auto simp: reads_def)
  have content: "resp_content r = (if ?tx = [] then [] else [OutText ?tx]) @ map (tool_use_of_call sd) ?calls"
    using response choice by (auto simp: normalize_response_def split: option.splits)
  have usage: "[UsageEvent (usage_of_api (resp_usage r)), MessageStop] = end_events ?u"
    using response choice by (auto simp: normalize_response_def end_events_def usage_of_api_def no_usage_def usage_of_openai_def split: option.splits)
  have once: "response_to_events sd r =
      map_sum id (\<lambda>cs. (if ?tx = [] then [] else [TextDelta ?tx]) @ map (reread_event sd) cs @ end_events ?u) ?events"
    unfolding response_to_events_def content response_message[OF payloads] usage by (cases ?events) simp_all
  have "map_sum id (reread_answer sd) (res_bind (fst (provider_stream sd mt api client req w)) build_assistant_message) =
      res_bind (response_to_events sd r) build_assistant_message"
  proof (cases ?events)
    case (Inl err)
    then have "stream_events sd (es @ starts @ rest) StreamState_new = Inl err"
      using run by (cases "stream_events sd (es @ starts @ rest) StreamState_new") simp_all
    then show ?thesis by (simp add: provider_stream_def Let_def service events once Inl)
  next
    case (Inr cs)
    then obtain st' where st': "stream_events sd (es @ starts @ rest) StreamState_new = Inr st'"
      "close_stream st' = ss_events st @ cs @ end_events ?u"
      using run by (cases "stream_events sd (es @ starts @ rest) StreamState_new") simp_all
    then have "fst (provider_stream sd mt api client req w) = Inr (ss_events st @ cs @ end_events ?u)"
      by (simp add: provider_stream_def Let_def service events end_events_def)
    moreover have "read_alike (map (reread_event sd) (ss_events st @ cs @ end_events ?u))
        ((if ?tx = [] then [] else [TextDelta ?tx]) @ map (reread_event sd) cs @ end_events ?u)"
    proof -
      have "map (reread_event sd) (ss_events st @ cs @ end_events ?u) =
          ss_events st @ map (reread_event sd) cs @ end_events ?u"
        unfolding ts(1) map_append reread_texts by (simp add: end_events_def)
      then show ?thesis
        using read_alike_append[OF read_alike_texts[of ts] read_alike_refl[of "map (reread_event sd) cs @ end_events ?u"]]
        by (simp only: ts(1) ts(2)[symmetric])
    qed
    ultimately show ?thesis using read_alike_message by (simp add: once Inr build_reread[symmetric])
  qed
  with events show ?thesis by simp
qed

definition chat_serde :: SerdeText where
  "chat_serde =
     \<lparr>sd_parse = (\<lambda>s. if s = lit ''{ }'' then Inr (VObject []) else Inl (lit ''expected value'')),
      sd_show = (\<lambda>v. lit ''{}''), sd_payload = (\<lambda>s. Inl (lit ''missing field''))\<rparr>"

definition chat_message :: ChatMessage where
  "chat_message =
     \<lparr>cm_role = lit ''assistant'', cm_content = Some (lit ''hi''),
      cm_tool_calls = [\<lparr>rt_id = lit ''c1'', rt_function = \<lparr>rf_name = lit ''bash'', rf_arguments = lit ''{ }''\<rparr>\<rparr>]\<rparr>"

definition chat_response :: ChatCompletionResponse where
  "chat_response =
     \<lparr>cr_id = lit ''x'', cr_model = lit ''m'', cr_choices = [\<lparr>co_message = chat_message, co_finish_reason = Some TOOL_CALLS\<rparr>],
      cr_usage = None\<rparr>"

definition chat_body :: "ChatCompletionChunk list" where
  "chat_body =
     [demo_chunk (Some (lit ''h'')) [demo_delta (Some (lit ''bash'')) (lit ''{'')] None, demo_chunk (Some (lit ''i'')) [] None,
      demo_chunk None [demo_delta None (lit '' }'')] None]"

lemma chat_spells: "spells (cm_tool_calls chat_message) (concat (map chunk_deltas chat_body))"
proof -
  have ds: "concat (map chunk_deltas chat_body) = [demo_delta (Some (lit ''bash'')) (lit ''{''), demo_delta None (lit '' }'')]"
    by (simp add: chat_body_def demo_chunk_def chunk_deltas_def)
  have at: "deltas_at i (concat (map chunk_deltas chat_body)) = (if i = 0 then concat (map chunk_deltas chat_body) else [])" for i
    unfolding ds by (simp add: deltas_at_def demo_delta_def)
  have "call_of i (concat (map chunk_deltas chat_body)) = (if i = 0 then Some (lit ''c1'', lit ''bash'', lit ''{ }'') else None)" for i
    unfolding call_of_def sent_arguments_def at unfolding ds by (simp add: demo_delta_def delta_arguments_def lit_def)
  moreover have "steady [] (concat (map chunk_deltas chat_body))"
    unfolding ds by (simp add: demo_delta_def deltas_at_def first_delta_def later_delta_def)
  moreover have "unat i < 1 \<longleftrightarrow> i = 0" for i :: u32 by (simp add: unat_eq_zero)
  ultimately show ?thesis by (simp add: spells_def chat_message_def)
qed

definition chat_service :: "nat ApiService" where
  "chat_service =
     \<lparr>as_stream = (\<lambda>_ w. (Inr (the (chat_events (lit ''m'') (chat_body @ demo_chunk None [] (Some TOOL_CALLS) # [])), None), w)),
      as_send = (\<lambda>_ w. (Inl [], w))\<rparr>"

theorem chat_stream_is_response_witness:
  "\<exists>r. normalize_response chat_serde (lit ''m'') chat_response = Inr r
    \<and> map_sum id (reread_answer chat_serde) (res_bind (fst (provider_stream chat_serde (\<lambda>_. 1) chat_service \<lparr>pc_model = [], pc_allowed_tools = []\<rparr>
       \<lparr>api_system_prompt = [], api_messages = []\<rparr> 0)) build_assistant_message) =
     res_bind (response_to_events chat_serde r) build_assistant_message"
proof -
  obtain r where r: "normalize_response chat_serde (lit ''m'') chat_response = Inr r"
    by (simp add: normalize_response_def chat_response_def)
  have choices: "cr_choices chat_response = \<lparr>co_message = chat_message, co_finish_reason = Some TOOL_CALLS\<rparr> # []"
    by (simp add: chat_response_def)
  have streams: "streams_message (co_message \<lparr>co_message = chat_message, co_finish_reason = Some TOOL_CALLS\<rparr>)
      (cr_usage chat_response) chat_body (demo_chunk None [] (Some TOOL_CALLS)) []"
    using chat_spells
    by (simp add: streams_message_def end_chunk_def demo_chunk_def chat_body_def open_chunk_def chunk_text_def chat_message_def
        sent_usage_def chat_response_def lit_def)
  have payloads: "\<forall>call \<in> set (cm_tool_calls (co_message \<lparr>co_message = chat_message, co_finish_reason = Some TOOL_CALLS\<rparr>)).
      payload_alike chat_serde call"
    by (simp add: chat_message_def payload_alike_def REQUEST_USER_INPUT_TOOL_NAME_def)
  have service: "as_stream chat_service req 0 = (Inr (the (chat_events (lit ''m'') (chat_body @ demo_chunk None [] (Some TOOL_CALLS) # [])), None), 0)" for req
    by (simp add: chat_service_def)
  show ?thesis using r chat_stream_is_response[OF choices r streams payloads service] by blast
qed

end
