(* ===== verification/Model_Providers.thy ===== *)
theory Model_Providers
  imports Chat_Stream
begin

text \<open>
  Which provider serves a model and with which credentials: the model table of \<open>api/src/providers/mod.rs\<close>, the
  authentication and the client of \<open>openyak_provider.rs\<close> over the credential store of \<open>runtime/src/oauth.rs\<close>, and
  \<open>ProviderClient\<close> of \<open>client.rs\<close>. Reading saved credentials moves those of an earlier release, so whatever reads them
  is a call over the world.
\<close>

section \<open>The model table\<close>

datatype ProviderKind = OpenyakApi | Xai | OpenAi

record ProviderMetadata =
  pm_provider :: ProviderKind
  pm_auth_env :: rstr
  pm_base_url_env :: rstr
  pm_default_base_url :: rstr

definition DEFAULT_BASE_URL :: rstr where
  "DEFAULT_BASE_URL = lit ''https://api.anthropic.com''"

definition openyak_metadata :: ProviderMetadata where
  "openyak_metadata =
     \<lparr>pm_provider = OpenyakApi, pm_auth_env = lit ''ANTHROPIC_API_KEY'', pm_base_url_env = lit ''ANTHROPIC_BASE_URL'',
      pm_default_base_url = DEFAULT_BASE_URL\<rparr>"

definition xai_metadata :: ProviderMetadata where
  "xai_metadata =
     \<lparr>pm_provider = Xai, pm_auth_env = lit ''XAI_API_KEY'', pm_base_url_env = lit ''XAI_BASE_URL'',
      pm_default_base_url = DEFAULT_XAI_BASE_URL\<rparr>"

definition openai_metadata :: ProviderMetadata where
  "openai_metadata =
     \<lparr>pm_provider = OpenAi, pm_auth_env = lit ''OPENAI_API_KEY'', pm_base_url_env = lit ''OPENAI_BASE_URL'',
      pm_default_base_url = DEFAULT_OPENAI_BASE_URL\<rparr>"

definition MODEL_REGISTRY :: "(rstr \<times> ProviderMetadata) list" where
  "MODEL_REGISTRY =
     [(lit ''opus'', openyak_metadata), (lit ''sonnet'', openyak_metadata), (lit ''haiku'', openyak_metadata),
      (lit ''claude-opus-4-6'', openyak_metadata), (lit ''claude-sonnet-4-6'', openyak_metadata),
      (lit ''claude-haiku-4-5-20251213'', openyak_metadata),
      (lit ''grok'', xai_metadata), (lit ''grok-3'', xai_metadata), (lit ''grok-mini'', xai_metadata),
      (lit ''grok-3-mini'', xai_metadata), (lit ''grok-2'', xai_metadata)]"

definition canonical_model :: "rstr \<Rightarrow> rstr \<Rightarrow> ProviderKind \<Rightarrow> rstr" where
  "canonical_model trimmed alias kind =
     (case kind of
        OpenyakApi \<Rightarrow>
          if alias = lit ''opus'' then lit ''claude-opus-4-6''
          else if alias = lit ''sonnet'' then lit ''claude-sonnet-4-6''
          else if alias = lit ''haiku'' then lit ''claude-haiku-4-5-20251213''
          else trimmed
      | Xai \<Rightarrow>
          if alias = lit ''grok'' \<or> alias = lit ''grok-3'' then lit ''grok-3''
          else if alias = lit ''grok-mini'' \<or> alias = lit ''grok-3-mini'' then lit ''grok-3-mini''
          else if alias = lit ''grok-2'' then lit ''grok-2''
          else trimmed
      | OpenAi \<Rightarrow> trimmed)"

definition resolve_model_alias :: "rstr \<Rightarrow> rstr" where
  "resolve_model_alias model =
     (let trimmed = trim model; lower = to_ascii_lowercase trimmed in
      case map_of MODEL_REGISTRY lower of
        Some metadata \<Rightarrow> canonical_model trimmed lower (pm_provider metadata)
      | None \<Rightarrow> trimmed)"

definition metadata_for_model :: "rstr \<Rightarrow> ProviderMetadata option" where
  "metadata_for_model model =
     (let lower = to_ascii_lowercase (resolve_model_alias model) in
      case map_of MODEL_REGISTRY lower of
        Some metadata \<Rightarrow> Some metadata
      | None \<Rightarrow>
          if starts_with (lit ''grok'') lower then Some xai_metadata
          else if starts_with (lit ''gpt'') lower \<or> starts_with (lit ''chatgpt'') lower
            \<or> starts_with (lit ''o1'') lower \<or> starts_with (lit ''o3'') lower \<or> starts_with (lit ''o4'') lower
          then Some openai_metadata
          else None)"

definition max_tokens_for_model :: "rstr \<Rightarrow> u32" where
  "max_tokens_for_model model = (if contains (lit ''opus'') (resolve_model_alias model) then 32000 else 64000)"

section \<open>Credentials\<close>

datatype AuthSource = NoAuth | ApiKey rstr | BearerToken rstr | ApiKeyAndBearer rstr rstr

fun auth_api_key :: "AuthSource \<Rightarrow> rstr option" where
  "auth_api_key (ApiKey k) = Some k"
| "auth_api_key (ApiKeyAndBearer k t) = Some k"
| "auth_api_key NoAuth = None"
| "auth_api_key (BearerToken t) = None"

fun auth_bearer_token :: "AuthSource \<Rightarrow> rstr option" where
  "auth_bearer_token (BearerToken t) = Some t"
| "auth_bearer_token (ApiKeyAndBearer k t) = Some t"
| "auth_bearer_token NoAuth = None"
| "auth_bearer_token (ApiKey k) = None"

definition masked_authorization_header :: "AuthSource \<Rightarrow> rstr" where
  "masked_authorization_header a =
     (if auth_bearer_token a \<noteq> None then lit ''Bearer [REDACTED]'' else lit ''<absent>'')"

text \<open>\<open>apply\<close>: the headers it adds to a request.\<close>

definition auth_headers :: "AuthSource \<Rightarrow> (rstr \<times> rstr) list" where
  "auth_headers a =
     (case auth_api_key a of None \<Rightarrow> [] | Some k \<Rightarrow> [(lit ''x-api-key'', k)])
     @ (case auth_bearer_token a of None \<Rightarrow> [] | Some t \<Rightarrow> [(lit ''authorization'', lit ''Bearer '' @ t)])"

definition missing_openyak_credentials :: ProviderError where
  "missing_openyak_credentials =
     MissingCredentials (lit ''openyak'') [lit ''ANTHROPIC_AUTH_TOKEN'', lit ''ANTHROPIC_API_KEY'']"

definition auth_from_env :: "env_vars \<Rightarrow> ProviderError + AuthSource" where
  "auth_from_env env =
     res_bind (read_env_non_empty env (lit ''ANTHROPIC_API_KEY'')) (\<lambda>api_key.
     res_bind (read_env_non_empty env (lit ''ANTHROPIC_AUTH_TOKEN'')) (\<lambda>auth_token.
       case (api_key, auth_token) of
         (Some k, Some t) \<Rightarrow> Inr (ApiKeyAndBearer k t)
       | (Some k, None) \<Rightarrow> Inr (ApiKey k)
       | (None, Some t) \<Rightarrow> Inr (BearerToken t)
       | (None, None) \<Rightarrow> Inl missing_openyak_credentials))"

text \<open>
  What the program runs on: its environment, the directory of temporary files, the clock in seconds since 1970, the
  credential store, and the POST of a form to the token service with the reader of its answer.
\<close>

record ('w, 'j) Startup =
  su_vars :: env_vars
  su_env :: env
  su_temp_dir :: path
  su_now :: "'w \<Rightarrow> u64"
  su_store :: "('w, 'j) Store"
  su_runtime :: "IoError + unit" \<comment> \<open>\<open>tokio::runtime::Runtime::new\<close>\<close>
  su_post_form :: "rstr \<Rightarrow> (rstr \<times> rstr) list \<Rightarrow> 'w \<Rightarrow> (HttpFailure + HttpResponse) \<times> 'w"
  su_envelope :: "rstr \<Rightarrow> ApiErrorBody option"
  su_token_set :: "HttpResponse \<Rightarrow> HttpFailure + OAuthTokenSet"

type_synonym ('w, 'a) call = "'w \<Rightarrow> (ProviderError + 'a) \<times> 'w"

definition load_saved_oauth_token :: "('w, 'j) Startup \<Rightarrow> ('w, OAuthTokenSet option) call" where
  "load_saved_oauth_token su w =
     apfst (map_sum IoFailed id) (load_oauth_credentials (su_store su) (su_env su) (su_temp_dir su) w)"

definition oauth_token_is_expired :: "u64 \<Rightarrow> OAuthTokenSet \<Rightarrow> bool" where
  "oauth_token_is_expired now t = (case expires_at t of None \<Rightarrow> False | Some at \<Rightarrow> at \<le> now)"

text \<open>The variables decide before the saved token is looked at: \<open>None\<close> when they are silent.\<close>

definition auth_from_vars :: "env_vars \<Rightarrow> ProviderError + AuthSource option" where
  "auth_from_vars env =
     res_bind (read_env_non_empty env (lit ''ANTHROPIC_API_KEY'')) (\<lambda>api_key.
       case api_key of
         Some k \<Rightarrow>
           map_sum id (\<lambda>token. Some (case token of Some t \<Rightarrow> ApiKeyAndBearer k t | None \<Rightarrow> ApiKey k))
             (read_env_non_empty env (lit ''ANTHROPIC_AUTH_TOKEN''))
       | None \<Rightarrow> map_sum id (map_option BearerToken) (read_env_non_empty env (lit ''ANTHROPIC_AUTH_TOKEN'')))"

definition auth_from_env_or_saved :: "('w, 'j) Startup \<Rightarrow> ('w, AuthSource) call" where
  "auth_from_env_or_saved su w =
     io_bind (io_result (auth_from_vars (su_vars su))) (\<lambda>found.
       case found of
         Some auth \<Rightarrow> io_return auth
       | None \<Rightarrow>
           io_bind (load_saved_oauth_token su) (\<lambda>saved w1.
             (case saved of
                None \<Rightarrow> Inl missing_openyak_credentials
              | Some t \<Rightarrow>
                  if oauth_token_is_expired (su_now su w1) t then
                    (if refresh_token t \<noteq> None then
                       Inl (AuthError (lit ''saved OAuth token is expired; load runtime OAuth config to refresh it''))
                     else Inl ExpiredOAuthToken)
                  else Inr (BearerToken (access_token t)), w1))) w"

definition has_auth_from_env_or_saved :: "('w, 'j) Startup \<Rightarrow> ('w, bool) call" where
  "has_auth_from_env_or_saved su =
     io_bind (io_result (read_env_non_empty (su_vars su) (lit ''ANTHROPIC_API_KEY''))) (\<lambda>api_key.
       if api_key \<noteq> None then io_return True
       else
         io_bind (io_result (read_env_non_empty (su_vars su) (lit ''ANTHROPIC_AUTH_TOKEN''))) (\<lambda>token.
           if token \<noteq> None then io_return True
           else io_bind (load_saved_oauth_token su) (\<lambda>saved. io_return (saved \<noteq> None))))"

definition token_request :: "('w, 'j) Startup \<Rightarrow> OAuthConfig \<Rightarrow> (rstr \<times> rstr) list \<Rightarrow> ('w, OAuthTokenSet) call" where
  "token_request su config form w =
     apfst (\<lambda>sent. res_bind (map_sum HttpError id sent) (\<lambda>response.
         res_bind (openyak_expect_success (su_envelope su) response) (\<lambda>ok. map_sum HttpError id (su_token_set su ok))))
       (su_post_form su (oc_token_url config) form w)"

definition exchange_oauth_code ::
  "('w, 'j) Startup \<Rightarrow> OAuthConfig \<Rightarrow> OAuthTokenExchangeRequest \<Rightarrow> ('w, OAuthTokenSet) call" where
  "exchange_oauth_code su config r = token_request su config (exchange_form_params r)"

definition refresh_oauth_token ::
  "('w, 'j) Startup \<Rightarrow> OAuthConfig \<Rightarrow> OAuthRefreshRequest \<Rightarrow> ('w, OAuthTokenSet) call" where
  "refresh_oauth_token su config r = token_request su config (refresh_form_params r)"

definition resolved_token_set :: "OAuthTokenSet \<Rightarrow> OAuthTokenSet \<Rightarrow> OAuthTokenSet" where
  "resolved_token_set old refreshed =
     \<lparr>access_token = access_token refreshed, refresh_token = some_or (refresh_token refreshed) (refresh_token old),
      expires_at = expires_at refreshed, scopes = scopes refreshed\<rparr>"

definition resolve_saved_oauth_token_set ::
  "('w, 'j) Startup \<Rightarrow> OAuthConfig \<Rightarrow> OAuthTokenSet \<Rightarrow> ('w, OAuthTokenSet) call" where
  "resolve_saved_oauth_token_set su config t w =
     (if \<not> oauth_token_is_expired (su_now su w) t then (Inr t, w)
      else
        (case refresh_token t of
           None \<Rightarrow> (Inl ExpiredOAuthToken, w)
         | Some token \<Rightarrow>
             io_bind (io_result (map_sum IoFailed id (su_runtime su))) (\<lambda>_.
             io_bind (refresh_oauth_token su config (refresh_from_config config token (Some (scopes t)))) (\<lambda>refreshed.
             let resolved = resolved_token_set t refreshed in
             io_bind (\<lambda>w1. apfst (map_sum IoFailed id)
                 (save_oauth_credentials (su_store su) (su_env su) (su_temp_dir su) resolved w1)) (\<lambda>_.
             io_return resolved))) w))"

definition resolve_saved_oauth_token :: "('w, 'j) Startup \<Rightarrow> OAuthConfig \<Rightarrow> ('w, OAuthTokenSet option) call" where
  "resolve_saved_oauth_token su config =
     io_bind (load_saved_oauth_token su) (\<lambda>saved.
       case saved of
         None \<Rightarrow> io_return None
       | Some t \<Rightarrow> io_bind (resolve_saved_oauth_token_set su config t) (\<lambda>r. io_return (Some r)))"

definition resolve_startup_auth_source ::
  "('w, 'j) Startup \<Rightarrow> ('w, OAuthConfig option) call \<Rightarrow> ('w, AuthSource) call" where
  "resolve_startup_auth_source su load_oauth_config =
     io_bind (io_result (auth_from_vars (su_vars su))) (\<lambda>found.
       case found of
         Some auth \<Rightarrow> io_return auth
       | None \<Rightarrow>
           io_bind (load_saved_oauth_token su) (\<lambda>saved.
             case saved of
               None \<Rightarrow> io_result (Inl missing_openyak_credentials)
             | Some t \<Rightarrow> (\<lambda>w1.
                 if \<not> oauth_token_is_expired (su_now su w1) t then (Inr (BearerToken (access_token t)), w1)
                 else if refresh_token t = None then (Inl ExpiredOAuthToken, w1)
                 else
                   io_bind load_oauth_config (\<lambda>config.
                     case config of
                       None \<Rightarrow>
                         io_result (Inl (AuthError (lit ''saved OAuth token is expired; runtime OAuth config is missing'')))
                     | Some c \<Rightarrow>
                         io_bind (resolve_saved_oauth_token_set su c t) (\<lambda>r. io_return (BearerToken (access_token r)))) w1)))"

section \<open>The client of the provider's own protocol\<close>

record OpenyakApiClient =
  ya_auth :: AuthSource
  ya_base_url :: rstr
  ya_retry :: RetryPolicy

definition OpenyakApiClient_from_auth :: "AuthSource \<Rightarrow> OpenyakApiClient" where
  "OpenyakApiClient_from_auth auth = \<lparr>ya_auth = auth, ya_base_url = DEFAULT_BASE_URL, ya_retry = default_retry_policy\<rparr>"

definition openyak_base_url :: "env_vars \<Rightarrow> rstr" where
  "openyak_base_url env = var_or env (lit ''ANTHROPIC_BASE_URL'') DEFAULT_BASE_URL"

definition with_auth_token :: "rstr option \<Rightarrow> OpenyakApiClient \<Rightarrow> OpenyakApiClient" where
  "with_auth_token auth_token c =
     c\<lparr>ya_auth :=
         (case (auth_api_key (ya_auth c), if auth_token = Some [] then None else auth_token) of
            (Some k, Some t) \<Rightarrow> ApiKeyAndBearer k t
          | (Some k, None) \<Rightarrow> ApiKey k
          | (None, Some t) \<Rightarrow> BearerToken t
          | (None, None) \<Rightarrow> NoAuth)\<rparr>"

definition OpenyakApiClient_from_env :: "('w, 'j) Startup \<Rightarrow> ('w, OpenyakApiClient) call" where
  "OpenyakApiClient_from_env su =
     io_bind (auth_from_env_or_saved su) (\<lambda>auth.
       io_return ((OpenyakApiClient_from_auth auth)\<lparr>ya_base_url := openyak_base_url (su_vars su)\<rparr>))"

definition ANTHROPIC_VERSION :: rstr where
  "ANTHROPIC_VERSION = lit ''2023-06-01''"

text \<open>The transport: a POST of a request to an address with headers, and the readers of a body.\<close>

record 'w OpenyakTransport =
  yt_post :: "rstr \<Rightarrow> (rstr \<times> rstr) list \<Rightarrow> MessageRequest \<Rightarrow> 'w \<Rightarrow> (HttpFailure + HttpResponse) \<times> 'w"
  yt_sleep :: "duration \<Rightarrow> 'w \<Rightarrow> 'w"
  yt_envelope :: "rstr \<Rightarrow> ApiErrorBody option"
  yt_response :: "HttpResponse \<Rightarrow> HttpFailure + MessageResponse"

definition openyak_send_raw_request ::
  "'w OpenyakTransport \<Rightarrow> OpenyakApiClient \<Rightarrow> MessageRequest \<Rightarrow> ('w, HttpResponse) call" where
  "openyak_send_raw_request tr c r w =
     apfst (map_sum HttpError id)
       (yt_post tr (trim_end_by (\<lambda>ch. ch = 47) (ya_base_url c) @ lit ''/v1/messages'')
          ([(lit ''anthropic-version'', ANTHROPIC_VERSION), (lit ''content-type'', lit ''application/json'')]
           @ auth_headers (ya_auth c)) r w)"

definition openyak_send ::
  "'w OpenyakTransport \<Rightarrow> OpenyakApiClient \<Rightarrow> MessageRequest \<Rightarrow> 'w \<Rightarrow> ((ProviderError + HttpResponse) \<times> 'w) option" where
  "openyak_send tr c r =
     openyak_send_with_retry (ya_retry c)
       (\<lambda>w. apfst (\<lambda>sent. res_bind sent (openyak_expect_success (yt_envelope tr))) (openyak_send_raw_request tr c r w))
       (yt_sleep tr) 0 None"

definition openyak_send_message ::
  "'w OpenyakTransport \<Rightarrow> OpenyakApiClient \<Rightarrow> MessageRequest \<Rightarrow> 'w \<Rightarrow> ((ProviderError + MessageResponse) \<times> 'w) option" where
  "openyak_send_message tr c r w =
     map_option (apfst (\<lambda>sent. res_bind sent (\<lambda>response.
         map_sum HttpError
           (\<lambda>m. m\<lparr>resp_request_id := some_or (resp_request_id m) (request_id_from_headers (hr_headers response))\<rparr>)
           (yt_response tr response))))
       (openyak_send tr c (r\<lparr>mr_stream := False\<rparr>) w)"

definition openyak_stream_message ::
  "'w OpenyakTransport \<Rightarrow> OpenyakApiClient \<Rightarrow> MessageRequest \<Rightarrow> 'w
     \<Rightarrow> ((ProviderError + rstr option \<times> MessageStream) \<times> 'w) option" where
  "openyak_stream_message tr c r w =
     map_option (apfst (map_sum id (\<lambda>response.
         (request_id_from_headers (hr_headers response),
          \<lparr>ms_net = hr_chunks response, ms_buffer = [], ms_pending = [], ms_done = False\<rparr>))))
       (openyak_send tr c (with_streaming r) w)"

section \<open>The client of a model\<close>

definition detect_provider_kind :: "('w, 'j) Startup \<Rightarrow> rstr \<Rightarrow> 'w \<Rightarrow> ProviderKind \<times> 'w" where
  "detect_provider_kind su model w =
     (case metadata_for_model model of
        Some metadata \<Rightarrow> (pm_provider metadata, w)
      | None \<Rightarrow>
          (case has_auth_from_env_or_saved su w of
             (found, w1) \<Rightarrow>
               (if found = Inr True then OpenyakApi
                else if has_api_key (su_vars su) (lit ''OPENAI_API_KEY'') then OpenAi
                else if has_api_key (su_vars su) (lit ''XAI_API_KEY'') then Xai
                else OpenyakApi, w1)))"

datatype ProviderClient = OpenyakClient OpenyakApiClient | XaiClient OpenAiCompatClient | OpenAiClient OpenAiCompatClient

fun provider_kind :: "ProviderClient \<Rightarrow> ProviderKind" where
  "provider_kind (OpenyakClient c) = OpenyakApi"
| "provider_kind (XaiClient c) = Xai"
| "provider_kind (OpenAiClient c) = OpenAi"

definition from_model_with_default_auth ::
  "('w, 'j) Startup \<Rightarrow> rstr \<Rightarrow> AuthSource option \<Rightarrow> ('w, ProviderClient) call" where
  "from_model_with_default_auth su model default_auth w =
     (case detect_provider_kind su (resolve_model_alias model) w of
        (OpenyakApi, w1) \<Rightarrow>
          (case default_auth of
             Some auth \<Rightarrow>
               (Inr (OpenyakClient ((OpenyakApiClient_from_auth auth)\<lparr>ya_base_url := openyak_base_url (su_vars su)\<rparr>)), w1)
           | None \<Rightarrow> apfst (map_sum id OpenyakClient) (OpenyakApiClient_from_env su w1))
      | (Xai, w1) \<Rightarrow> (map_sum id XaiClient (OpenAiCompatClient_from_env (su_vars su) xai_config), w1)
      | (OpenAi, w1) \<Rightarrow> (map_sum id OpenAiClient (OpenAiCompatClient_from_env (su_vars su) openai_config), w1))"

definition from_model :: "('w, 'j) Startup \<Rightarrow> rstr \<Rightarrow> ('w, ProviderClient) call" where
  "from_model su model = from_model_with_default_auth su model None"

end
