(* ===== verification/Model_Providers_Props.thy ===== *)
theory Model_Providers_Props
  imports Model_Providers OAuth_Store_Props
begin

text \<open>
  What holds of the providers: both retry loops are the same function, send a bounded number of times and never sleep
  longer than the limit; the names of models resolve once and for all; the credentials a start works with.
\<close>

section \<open>Trying again\<close>

text \<open>
  The two providers try again in the same way: the loop that keeps the last error in a variable always has one when
  it gives up, so it never panics, and it gives the result of the other loop.
\<close>

theorem retry_loops_agree:
  "openyak_send_with_retry p send sleep attempts last_error w = Some (send_with_retry p send sleep attempts w)"
proof (induction "retry_rank attempts" arbitrary: attempts last_error w rule: less_induct)
  case less
  note steps = openyak_send_with_retry.simps[of p send sleep attempts last_error w] send_with_retry.simps[of p send sleep attempts w]
  obtain r w1 where s: "send w = (r, w1)" by (cases "send w")
  show ?case
  proof (cases r)
    case (Inr x)
    then show ?thesis by (simp add: s steps)
  next
    case (Inl e)
    show ?thesis
    proof (cases "backoff_for_attempt p (attempts + 1)")
      case (Inr d)
      show ?thesis using less[OF retry_rank_less[OF Inr]] by (simp add: s steps Inl Inr)
    qed (simp add: s steps Inl)
  qed
qed

text \<open>A transport that writes down what happens: \<open>None\<close> for a try, the duration of a sleep.\<close>

type_synonym retry_log = "duration option list"

definition logged_send :: "('w \<Rightarrow> (ProviderError + 'r) \<times> 'w) \<Rightarrow> retry_log \<times> 'w \<Rightarrow> (ProviderError + 'r) \<times> retry_log \<times> 'w" where
  "logged_send send lw = (case send (snd lw) of (r, w1) \<Rightarrow> (r, (fst lw @ [None], w1)))"

definition logged_sleep :: "(duration \<Rightarrow> 'w \<Rightarrow> 'w) \<Rightarrow> duration \<Rightarrow> retry_log \<times> 'w \<Rightarrow> retry_log \<times> 'w" where
  "logged_sleep sleep d lw = (fst lw @ [Some d], sleep d (snd lw))"

lemma backoff_bounded: "backoff_for_attempt p k = Inr d \<Longrightarrow> d \<le> rp_max_backoff p"
  by (auto simp: backoff_for_attempt_def split: option.splits)

lemma retry_log_bounded:
  assumes "unat attempts \<le> 32" and "attempts \<le> rp_max_retries p"
  obtains r new w' where
    "send_with_retry p (logged_send send) (logged_sleep sleep) attempts (log, w) = (r, (log @ new, w'))"
    "new \<noteq> []" "hd new = None" "unat attempts + length (filter (\<lambda>x. x = None) new) \<le> min (unat (rp_max_retries p) + 1) 33"
    "\<forall>d. Some d \<in> set new \<longrightarrow> d \<le> rp_max_backoff p"
  using assms
proof (induction "retry_rank attempts" arbitrary: attempts log w thesis rule: less_induct)
  case less
  have le: "unat attempts + 1 \<le> min (unat (rp_max_retries p) + 1) 33"
    using less.prems(2,3) by (simp add: word_le_nat_alt)
  obtain r w1 where s: "send w = (r, w1)" by (cases "send w")
  have l: "logged_send send (log, w) = (r, (log @ [None], w1))" by (simp add: logged_send_def s)
  note step = send_with_retry.simps[of p "logged_send send" "logged_sleep sleep" attempts "(log, w)"]
  have stop: thesis if "send_with_retry p (logged_send send) (logged_sleep sleep) attempts (log, w) = (r', (log @ [None], w1))" for r'
    using less.prems(1)[OF that] le by simp
  show ?case
  proof (cases "\<exists>e d. r = Inl e \<and> is_retryable e \<and> attempts + 1 \<le> rp_max_retries p + 1
      \<and> \<not> attempts + 1 > rp_max_retries p \<and> backoff_for_attempt p (attempts + 1) = Inr d")
    case True
    then obtain e d where e: "r = Inl e" "is_retryable e" "attempts + 1 \<le> rp_max_retries p + 1"
      "attempts + 1 \<le> rp_max_retries p" "backoff_for_attempt p (attempts + 1) = Inr d" by auto
    have n: "unat (attempts + 1) \<le> 32" by (rule backoff_Inr_attempt[OF e(5)])
    have inc: "unat (attempts + 1) = unat attempts + 1"
      by (rule unat_plus_one[OF small_not_max[OF less.prems(2)]])
    obtain r' new w' where rec:
      "send_with_retry p (logged_send send) (logged_sleep sleep) (attempts + 1) (log @ [None] @ [Some d], sleep d w1) =
         (r', ((log @ [None] @ [Some d]) @ new, w'))" "new \<noteq> []" "hd new = None"
      "unat (attempts + 1) + length (filter (\<lambda>x. x = None) new) \<le> min (unat (rp_max_retries p) + 1) 33"
      "\<forall>d. Some d \<in> set new \<longrightarrow> d \<le> rp_max_backoff p"
      by (rule less.hyps[OF retry_rank_less[OF e(5)] _ n e(4)])
    show ?thesis
      by (rule less.prems(1)[of r' "None # Some d # new" w'])
        (use step l e rec inc backoff_bounded[OF e(5)] in \<open>auto simp: logged_sleep_def\<close>)
  next
    case False
    then have "\<exists>r'. send_with_retry p (logged_send send) (logged_sleep sleep) attempts (log, w) = (r', (log @ [None], w1))"
      using step l by (cases r; cases "backoff_for_attempt p (attempts + 1)") auto
    then show ?thesis using stop by blast
  qed
qed

text \<open>
  C32: A request is tried at least once and at most once more than the policy allows retries, and never more than 33
  times however large that number is, since the doubling of the delay overflows then; between tries the client never
  sleeps longer than the largest delay of the policy.
\<close>

theorem retries_bounded:
  "\<exists>r log w'. send_with_retry p (logged_send send) (logged_sleep sleep) 0 ([], w) = (r, (log, w'))
    \<and> 1 \<le> length (filter (\<lambda>x. x = None) log)
    \<and> length (filter (\<lambda>x. x = None) log) \<le> min (unat (rp_max_retries p) + 1) 33
    \<and> list_all (\<lambda>x. case x of None \<Rightarrow> True | Some d \<Rightarrow> d \<le> rp_max_backoff p) log"
proof -
  obtain r log w' where l: "send_with_retry p (logged_send send) (logged_sleep sleep) 0 ([], w) = (r, ([] @ log, w'))"
    "log \<noteq> []" "hd log = None" "unat (0 :: u32) + length (filter (\<lambda>x. x = None) log) \<le> min (unat (rp_max_retries p) + 1) 33"
    "\<forall>d. Some d \<in> set log \<longrightarrow> d \<le> rp_max_backoff p"
    by (rule retry_log_bounded[of 0 p send sleep "[]" w]) simp_all
  from l(2,3) obtain rest where "log = None # rest" by (cases log) auto
  with l show ?thesis by (auto simp: list_all_iff split: option.split)
qed

section \<open>Models\<close>

lemma registry_alias_cases:
  "map_of MODEL_REGISTRY lower = Some metadata \<Longrightarrow>
     (metadata = openyak_metadata \<and> lower \<in> {lit ''opus'', lit ''sonnet'', lit ''haiku'', lit ''claude-opus-4-6'',
         lit ''claude-sonnet-4-6'', lit ''claude-haiku-4-5-20251213''})
     \<or> (metadata = xai_metadata \<and> lower \<in> {lit ''grok'', lit ''grok-3'', lit ''grok-mini'', lit ''grok-3-mini'', lit ''grok-2''})"
  by (simp add: MODEL_REGISTRY_def split: if_splits)

definition canonical_model_names :: "string list" where
  "canonical_model_names =
     [''claude-opus-4-6'', ''claude-sonnet-4-6'', ''claude-haiku-4-5-20251213'', ''grok-3'', ''grok-3-mini'', ''grok-2'']"

definition plain_name_chars :: "rstr \<Rightarrow> bool" where
  "plain_name_chars t \<longleftrightarrow> list_all (\<lambda>c. \<not> is_ws c \<and> \<not> (65 \<le> c \<and> c \<le> 90)) t"

lemma plain_name_chars_same: "plain_name_chars t \<Longrightarrow> trim t = t \<and> to_ascii_lowercase t = t"
  by (cases "t = []")
    (auto simp: plain_name_chars_def list_all_iff to_ascii_lowercase_def ascii_lower_char_def map_idI intro!: trim_id)

lemma canonical_model_names_plain: "list_all (\<lambda>s. plain_name_chars (lit s)) canonical_model_names"
  by (simp add: canonical_model_names_def plain_name_chars_def lit_def is_ws_def)

lemma canonical_model_names_fixed:
  assumes "s \<in> set canonical_model_names"
  shows "resolve_model_alias (lit s) = lit s"
proof -
  have "plain_name_chars (lit s)" using assms canonical_model_names_plain by (simp add: list_all_iff)
  note plain = plain_name_chars_same[OF this]
  show ?thesis using assms
    by (auto simp: resolve_model_alias_def plain canonical_model_names_def MODEL_REGISTRY_def canonical_model_def
        openyak_metadata_def xai_metadata_def)
qed

lemma resolved_cases:
  "resolve_model_alias m \<in> lit ` set canonical_model_names
   \<or> (resolve_model_alias m = trim m
      \<and> (map_of MODEL_REGISTRY (to_ascii_lowercase (trim m)) = None
         \<or> to_ascii_lowercase (trim m) \<in> {lit ''claude-opus-4-6'', lit ''claude-sonnet-4-6'', lit ''claude-haiku-4-5-20251213''}))"
proof (cases "map_of MODEL_REGISTRY (to_ascii_lowercase (trim m))")
  case None
  then show ?thesis by (simp add: resolve_model_alias_def Let_def)
next
  case (Some metadata)
  from registry_alias_cases[OF this] Some show ?thesis
    by (auto simp: resolve_model_alias_def Let_def canonical_model_def openyak_metadata_def xai_metadata_def canonical_model_names_def)
qed

lemma resolve_twice: "resolve_model_alias (resolve_model_alias m) = resolve_model_alias m"
  using resolved_cases[of m]
proof (elim disjE conjE)
  assume "resolve_model_alias m \<in> lit ` set canonical_model_names"
  then show ?thesis using canonical_model_names_fixed by auto
next
  assume r: "resolve_model_alias m = trim m" and n: "map_of MODEL_REGISTRY (to_ascii_lowercase (trim m)) = None"
  have "resolve_model_alias (trim m) = trim m" by (simp add: resolve_model_alias_def n)
  then show ?thesis by (simp add: r)
next
  assume r: "resolve_model_alias m = trim m"
    and n: "to_ascii_lowercase (trim m) \<in> {lit ''claude-opus-4-6'', lit ''claude-sonnet-4-6'', lit ''claude-haiku-4-5-20251213''}"
  have "resolve_model_alias (trim m) = trim m"
    using n by (auto simp: resolve_model_alias_def Let_def MODEL_REGISTRY_def canonical_model_def openyak_metadata_def)
  then show ?thesis by (simp add: r)
qed

text \<open>
  The name of a model is resolved once and for all: resolving a resolved name changes nothing, so the provider, the
  credentials and the client chosen for a name are those of the resolved name, whatever the environment and the saved
  credentials are.
\<close>

theorem resolved_model_is_stable:
  "resolve_model_alias (resolve_model_alias m) = resolve_model_alias m
   \<and> metadata_for_model (resolve_model_alias m) = metadata_for_model m
   \<and> detect_provider_kind su (resolve_model_alias m) w = detect_provider_kind su m w
   \<and> from_model_with_default_auth su (resolve_model_alias m) auth w = from_model_with_default_auth su m auth w"
  by (simp add: metadata_for_model_def detect_provider_kind_def from_model_with_default_auth_def resolve_twice)

text \<open>
  The number of tokens a model may answer with depends on how its name is written: the table knows the models
  whatever the case, and gives both spellings the same provider, but the limit is looked up in the text as it was
  typed, so \<open>Claude-Opus-4-6\<close> gets the limit of the other models.
\<close>

theorem max_tokens_depends_on_case:
  "metadata_for_model (lit ''Claude-Opus-4-6'') = metadata_for_model (lit ''claude-opus-4-6'')
   \<and> metadata_for_model (lit ''claude-opus-4-6'') = Some openyak_metadata
   \<and> max_tokens_for_model (lit ''claude-opus-4-6'') = 32000 \<and> max_tokens_for_model (lit ''Claude-Opus-4-6'') = 64000"
proof -
  have t: "trim (lit ''Claude-Opus-4-6'') = lit ''Claude-Opus-4-6''" "trim (lit ''claude-opus-4-6'') = lit ''claude-opus-4-6''"
    by (rule trim_id; simp add: lit_def is_ws_def)+
  have l: "to_ascii_lowercase (lit ''Claude-Opus-4-6'') = lit ''claude-opus-4-6''"
    "to_ascii_lowercase (lit ''claude-opus-4-6'') = lit ''claude-opus-4-6''"
    by (simp_all add: to_ascii_lowercase_def ascii_lower_char_def lit_def)
  have r: "resolve_model_alias (lit ''Claude-Opus-4-6'') = lit ''Claude-Opus-4-6''"
    "resolve_model_alias (lit ''claude-opus-4-6'') = lit ''claude-opus-4-6''"
    by (simp_all add: resolve_model_alias_def t l MODEL_REGISTRY_def canonical_model_def openyak_metadata_def)
  have c: "contains (lit ''opus'') (lit ''claude-opus-4-6'')" "\<not> contains (lit ''opus'') (lit ''Claude-Opus-4-6'')"
    by (simp_all add: contains_def lit_def)
  show ?thesis by (simp add: metadata_for_model_def max_tokens_for_model_def r l c MODEL_REGISTRY_def)
qed

section \<open>Credentials\<close>

lemma mapped_error_Inr: "apfst (map_sum f id) x = (Inr y, w) \<longleftrightarrow> x = (Inr y, w)"
  by (cases x; cases "fst x") auto

text \<open>
  C21: A start that finds no credentials in the environment and succeeds works with a token that has not expired or was
  just refreshed: either the saved token is still valid when it is read, and nothing else happens; or it has expired
  and has a refresh token, the token service was asked with that refresh token and answered, and the answer was saved,
  with the old refresh token where it brings none, before it is used.
\<close>

theorem startup_token_is_fresh:
  assumes silent: "auth_from_vars (su_vars su) = Inr None"
    and start: "resolve_startup_auth_source su load_config w = (Inr auth, w')"
  shows "\<exists>t w1. load_saved_oauth_token su w = (Inr (Some t), w1) \<and>
    (if \<not> oauth_token_is_expired (su_now su w1) t then auth = BearerToken (access_token t) \<and> w' = w1
     else \<exists>token config new w2 w3. refresh_token t = Some token \<and> load_config w1 = (Inr (Some config), w2)
       \<and> (if oauth_token_is_expired (su_now su w2) t then
            refresh_oauth_token su config (refresh_from_config config token (Some (scopes t))) w2 = (Inr new, w3)
            \<and> save_oauth_credentials (su_store su) (su_env su) (su_temp_dir su) (resolved_token_set t new) w3 = (Inr (), w')
            \<and> refresh_token (resolved_token_set t new) \<noteq> None \<and> auth = BearerToken (access_token new)
          else auth = BearerToken (access_token t) \<and> w' = w2))"
proof -
  obtain saved w1 where l: "load_saved_oauth_token su w = (Inr saved, w1)"
    using start by (cases "load_saved_oauth_token su w"; cases "fst (load_saved_oauth_token su w)")
      (auto simp: resolve_startup_auth_source_def silent io_bind_def io_result_def)
  obtain t where t: "saved = Some t"
    using start by (cases saved) (auto simp: resolve_startup_auth_source_def silent io_bind_def io_result_def l)
  show ?thesis
  proof (cases "oauth_token_is_expired (su_now su w1) t")
    case False
    then show ?thesis
      using start by (auto simp: resolve_startup_auth_source_def silent io_bind_def io_result_def l t)
  next
    case True
    then obtain token where token: "refresh_token t = Some token"
      using start by (auto simp: resolve_startup_auth_source_def silent io_bind_def io_result_def l t split: if_splits)
    have "(case load_config w1 of (Inl e, w2) \<Rightarrow> (Inl e, w2)
        | (Inr None, w2) \<Rightarrow> (Inl (AuthError (lit ''saved OAuth token is expired; runtime OAuth config is missing'')), w2)
        | (Inr (Some c), w2) \<Rightarrow> io_bind (resolve_saved_oauth_token_set su c t) (\<lambda>r. io_return (BearerToken (access_token r))) w2)
      = (Inr auth, w')"
      using start True token
      by (auto simp: resolve_startup_auth_source_def silent io_bind_def io_result_def l t split: prod.splits sum.splits option.splits)
    then obtain config w2 where c: "load_config w1 = (Inr (Some config), w2)"
      "io_bind (resolve_saved_oauth_token_set su config t) (\<lambda>r. io_return (BearerToken (access_token r))) w2 = (Inr auth, w')"
      by (auto split: prod.splits sum.splits option.splits)
    show ?thesis
    proof (cases "oauth_token_is_expired (su_now su w2) t")
      case False
      then show ?thesis using c l t True token
        by (auto simp: resolve_saved_oauth_token_set_def io_bind_def io_return_def)
    next
      case exp: True
      obtain r where r: "resolve_saved_oauth_token_set su config t w2 = (Inr r, w')" "auth = BearerToken (access_token r)"
        using c(2) by (auto simp: io_bind_Inr_iff io_return_def)
      then obtain new w3 where n: "refresh_oauth_token su config (refresh_from_config config token (Some (scopes t))) w2 = (Inr new, w3)"
        "save_oauth_credentials (su_store su) (su_env su) (su_temp_dir su) (resolved_token_set t new) w3 = (Inr (), w')"
        "r = resolved_token_set t new"
        using exp token
        by (auto simp: resolve_saved_oauth_token_set_def io_bind_Inr_iff io_result_def io_return_def Let_def mapped_error_Inr)
      then show ?thesis using l t True token c(1) exp r(2)
        by (auto simp: resolved_token_set_def some_or_def split: option.split)
    qed
  qed
qed

definition demo_startup :: "(World, rstr) Startup" where
  "demo_startup =
     \<lparr>su_vars = (\<lambda>_. VarNotPresent), su_env = demo_env, su_temp_dir = [], su_now = (\<lambda>_. 7), su_store = demo_store,
      su_runtime = Inr (), su_post_form = (\<lambda>_ _ w. (Inl \<lparr>hf_connect = True, hf_timeout = False, hf_request = False, hf_text = []\<rparr>, w)),
      su_envelope = (\<lambda>_. None), su_token_set = (\<lambda>_. Inr (plain_token []))\<rparr>"

theorem startup_token_is_fresh_witness:
  "resolve_startup_auth_source demo_startup (\<lambda>w. (Inr None, w)) (world None (Some [110, 101, 119]) False) =
     (Inr (BearerToken (lit ''new'')), world None (Some [110, 101, 119]) False)
   \<and> \<not> oauth_token_is_expired 7 (plain_token (lit ''new''))"
proof -
  let ?w = "world None (Some [110, 101, 119]) False"
  have silent: "auth_from_vars (su_vars demo_startup) = Inr None"
    by (simp add: demo_startup_def auth_from_vars_def read_env_non_empty_def)
  have l: "load_saved_oauth_token demo_startup ?w = (Inr (Some (plain_token (lit ''new''))), ?w)"
    by (simp add: load_saved_oauth_token_def demo_startup_def demo_load_secret lit_def)
  have fresh: "\<not> oauth_token_is_expired 7 (plain_token (lit ''new''))" by (simp add: oauth_token_is_expired_def plain_token_def)
  have now: "su_now demo_startup ?w = 7" by (simp add: demo_startup_def)
  have start: "resolve_startup_auth_source demo_startup (\<lambda>w. (Inr None, w)) ?w =
      (Inr (BearerToken (access_token (plain_token (lit ''new'')))), ?w)"
    using fresh by (simp add: resolve_startup_auth_source_def silent io_bind_def io_result_def l now)
  from startup_token_is_fresh[OF silent start] l fresh start show ?thesis by (simp add: plain_token_def)
qed

end
