(* ===== verification/Spec2Isabelle.thy ===== *)
theory Spec2Isabelle
  imports Json Session Compact Permissions Bash_Lines Enforcer File_Ops Sse Lifecycle
    Registry Task_Registry Team_Cron_Registry Bootstrap Hooks Conversation Turns Sandbox
    Config_Props OAuth_Store_Props Mcp_Bridge_Props Line_Editor_Props Slash_Commands_Props
    Tool_Registry_Props Provider_Client_Props Thread_Server_Props
    Sse_Frames_Props Chat_Agreement Model_Providers_Props
begin

text \<open>
  A verification development for openyak, a coding agent written in Rust. The sources are under
  \<open>src/rust/crates\<close>; the development is about the crate \<open>runtime\<close>, which holds the logic the
  command line interface, the server and the tools are built on, and about the parts of those that decide
  something: tool dispatch, the model client, the thread server, slash commands and the line editor.

  \<^bold>\<open>Parts.\<close> A user's request starts a turn of the conversation runtime (\<open>conversation.rs\<close>): the
  history is sent to the model service, the streamed answer is assembled into a message, and every
  tool call in it passes the permission policy (\<open>permissions.rs\<close>), the hooks (\<open>hooks.rs\<close>) and then
  the executor; the results are appended to the session (\<open>session.rs\<close>), and the next answer is asked
  for until one asks for nothing. Token counts are kept by a tracker (\<open>usage.rs\<close>). A long session is
  compacted into a summary (\<open>compact.rs\<close>) and sessions are saved as JSON (\<open>json.rs\<close>). Tools that
  write files or run shell commands are checked by the enforcer (\<open>permission_enforcer.rs\<close>,
  \<open>bash_validation.rs\<close>) and, for commands, by the sandbox and the tool profiles (\<open>sandbox.rs\<close>,
  \<open>bash.rs\<close>, \<open>tool_profile.rs\<close>); the file tools are in \<open>file_ops.rs\<close>. Tasks, teams and cron entries
  live in in-memory registries (\<open>task_registry.rs\<close>, \<open>team_cron_registry.rs\<close>) whose entries carry
  lifecycle snapshots (\<open>lifecycle.rs\<close>). Streams of the service are read by an incremental parser
  (\<open>sse.rs\<close>); \<open>bootstrap.rs\<close> orders the start-up phases. A login builds an authorization URL, reads the
  callback and keeps the tokens in the secret store of the system or a file (\<open>oauth.rs\<close>, under the
  directories of \<open>paths.rs\<close>). Tools of MCP servers, which are processes that answer JSON-RPC requests,
  are named (\<open>mcp.rs\<close>), listed and routed by a manager (\<open>mcp_stdio.rs\<close>) and called through a registry
  (\<open>mcp_tool_bridge.rs\<close>).

  Around the runtime: the tools are described by a table of specifications and dispatched by a registry that asks
  the enforcer (\<open>tools/src/lib.rs\<close>); a client turns a request of the runtime into one of the model service and
  its stream into events (the same file, over \<open>api/src/types.rs\<close>); the server (\<open>server/src/lib.rs\<close>,
  \<open>server/src/state_store.rs\<close>) keeps threads, runs their turns in workers, stores every change and tells
  subscribers; the providers (the crate \<open>api\<close>) choose the service of a model and its credentials, send requests,
  again if that may help, and read the streams of their services; the command line reads a line (\<open>openyak-cli/src/input.rs\<close>) and understands slash commands
  (\<open>commands/src/lib.rs\<close>).

  \<^bold>\<open>Theories.\<close>
  \<^item> \<open>Rust_Prelude\<close>, \<open>Rust_Str\<close>, \<open>Rust_Path\<close>: strings as lists of code points, \<open>Result\<close> as a sum,
    \<open>BTreeMap\<close> as a sorted association list (locale \<open>ordered_map\<close>, interpreted as \<open>btree\<close>), numbers
    and their decimal and hexadecimal text, the string methods of the standard library, paths as
    component lists.
  \<^item> \<open>Json\<close>: \<open>json.rs\<close>. The parser's state is the text that is left; termination rests on every
    parser returning a shorter rest. The locale \<open>text_codec\<close> is what a store needs of a text format.
  \<^item> \<open>Session\<close>, \<open>Compact\<close>: \<open>session.rs\<close>, \<open>compact.rs\<close> and the tracker of \<open>usage.rs\<close>.
  \<^item> \<open>Permissions\<close>, \<open>Bash_Validation\<close>, \<open>Enforcer\<close>, \<open>File_Ops\<close>: the files of the same names. \<open>Bash_Lines\<close>: ordinary
    command lines, given by what they mean, against what the filter makes of their text.
  \<^item> \<open>Hooks\<close>, \<open>Conversation\<close>, \<open>Turns\<close>: the hook runner, the conversation runtime and its theorems. The
    locale \<open>turn_invariant\<close> reduces an invariant of a whole turn to the three ways a turn changes the
    runtime; it is interpreted for the history, the tracker, the policy and the iteration limit.
  \<^item> \<open>Sse\<close>: \<open>sse.rs\<close>. The locale \<open>chunked_parser\<close> derives independence of the chunking from two laws
    of one step.
  \<^item> \<open>Lifecycle\<close>, \<open>Registry\<close>, \<open>Task_Registry\<close>, \<open>Team_Cron_Registry\<close>: the registries. The locale
    \<open>id_registry\<close> holds what the three share: ids with the counter in them, freshness, listings.
  \<^item> \<open>Bootstrap\<close>, \<open>Sandbox\<close>: \<open>bootstrap.rs\<close>; \<open>sandbox.rs\<close> with \<open>tool_profile.rs\<close> and \<open>bash.rs\<close>.
  \<^item> \<open>Config_Values\<close>, \<open>Config\<close>, \<open>Config_Props\<close>: \<open>config.rs\<close>. The accessors and section parsers of a settings
    file; the five files in their order of precedence, the deep merge, MCP servers and the resolution
    of paths; which file decides a setting and where the paths of a configuration can lie.
  \<^item> \<open>Utf8\<close>, \<open>Rust_State\<close>: the bytes of a string and back, strict and lossy; the operator \<open>?\<close> after a
    call that changes a state.
  \<^item> \<open>Paths\<close>, \<open>OAuth_Encoding\<close>, \<open>OAuth\<close>, \<open>OAuth_Store\<close>, \<open>OAuth_Store_Props\<close>: \<open>paths.rs\<close> and \<open>oauth.rs\<close>.
    Percent and base64 encodings, requests and callbacks, the credential store over a file system, a
    secret store and a JSON library; where saved credentials are found again.
  \<^item> \<open>Mcp\<close>, \<open>Mcp_Stdio\<close>, \<open>Mcp_Manager\<close>, \<open>Mcp_Manager_Props\<close>, \<open>Mcp_Bridge\<close>, \<open>Mcp_Bridge_Props\<close>: \<open>mcp.rs\<close>
    with \<open>mcp_client.rs\<close>, the data and frames of \<open>mcp_stdio.rs\<close>, its manager over processes as a parameter,
    and \<open>mcp_tool_bridge.rs\<close>.
  \<^item> \<open>Str_Slice\<close>, \<open>Line_Editor\<close>, \<open>Line_Editor_Props\<close>: slices of strings at byte offsets, which panic off a
    boundary; \<open>input.rs\<close>, an operation that can panic being an option; what the editor does to a text.
  \<^item> \<open>Slash_Commands\<close>, \<open>Slash_Commands_Props\<close>: the table, the parser, help and suggestions of
    \<open>commands/src/lib.rs\<close>.
  \<^item> \<open>Serde_Value\<close>, \<open>Tool_Specs\<close>, \<open>Tool_Registry\<close>, \<open>Tool_Registry_Props\<close>: values of \<open>serde_json\<close>, the table of
    tools with their schemas and permissions, the registry, the dispatch, the search and sub-agents.
  \<^item> \<open>Provider_Client\<close>, \<open>Provider_Client_Props\<close>: requests and streamed or whole answers of the model service.
  \<^item> \<open>Provider_Errors\<close>, \<open>Sse_Frames\<close>, \<open>Sse_Frames_Props\<close>: errors and retries of the providers (\<open>api/src/error.rs\<close>, both
    \<open>send_with_retry\<close>); the frames of a byte stream (\<open>api/src/sse.rs\<close> and the parser of \<open>openai_compat.rs\<close>) and how
    the chunking does not matter.
  \<^item> \<open>Chat_Stream\<close>, \<open>Chat_Stream_Props\<close>, \<open>Chat_Agreement\<close>: \<open>openai_compat.rs\<close>. The chunks of a chat completion become
    events; what the events carry; the stream joined with \<open>Provider_Client\<close>, which reads them.
  \<^item> \<open>Model_Providers\<close>, \<open>Model_Providers_Props\<close>: \<open>providers/mod.rs\<close>, \<open>openyak_provider.rs\<close> and \<open>client.rs\<close> over the
    credential store.
  \<^item> \<open>Thread_Store\<close>, \<open>Thread_Server\<close>, \<open>Thread_Server_Props\<close>: the store and the server. A handler is a function of
    the thread and the store; the interleaving of handlers and workers is the step relation \<open>thread_step\<close>.

  \<^bold>\<open>Integers.\<close> \<open>u32\<close>, \<open>u64\<close>, \<open>i64\<close> and \<open>usize\<close> counters are words where they can overflow: \<open>+\<close> is the
  wrapping addition of a release build, and \<open>saturating_add\<close> and \<open>saturating_sub\<close> are written out.
  A theorem that needs that nothing overflows says so (\<open>accounting_ok\<close>, the bounds on the number of
  creations). Lengths of strings and lists are natural numbers.

  \<^bold>\<open>Loops.\<close> All loops are structural or have a measure except the loop of a turn, which the service
  may keep going as long as the iteration limit allows. It takes fuel and returns \<open>None\<close> when that
  runs out; \<open>turn_terminates\<close> shows that the limit plus one is always enough. The pages of an MCP server's
  tool list are the other one: \<open>discovery_terminates\<close> gives enough fuel for servers that come to a last
  page, \<open>endless_discovery\<close> shows that no fuel is enough for one that does not.

  \<^bold>\<open>Outside code.\<close> The file system, the model service, tools, prompters, hook processes, the clock,
  \<open>canonicalize\<close>, the secret store, random bytes, hashing, the processes of MCP servers and the text
  \<open>serde_json\<close> writes are parameters. A theorem that relies on one of them
  names the law it uses (\<open>read_after_write\<close>, \<open>canonical_paths\<close>, \<open>file_laws\<close>, \<open>secret_laws\<close>, \<open>json_laws\<close>) and its witness instantiates it.

  \<^bold>\<open>What the theorems show.\<close> Turns: every call is answered, denied tools never run, the history only
  grows, the tracker agrees with the session, a limited turn returns. Sessions: save and load are
  inverse, compaction keeps recent messages and the accounting, is idempotent and can be read back.
  Permissions: exactly which calls, commands and writes each mode lets through. Registries: the
  invariants of every reachable registry and the guards of every operation. Parsers: JSON and SSE
  round trips, independence of chunking. Logins: callbacks and authorization URLs are read back, saved
  tokens are the ones loaded. MCP: discovered tools are called on their own server, routes never leave
  the configured servers, frames are read back, a bridged call leaves nothing running. Tools: every schema is
  well formed, a call the enforcer denies does nothing, sub-agents cannot start sub-agents. Model client: an
  answer gives the same events streamed or whole. Providers: a chat completion that is streamed becomes the message of
  the whole one and loses nothing, the chunking of the bytes does not matter, retries and sleeps are bounded, both retry
  loops agree, names of models resolve once, a start works with a fresh token. Threads: one worker per running thread, which can always finish;
  a refused request changes nothing; the rows of the store bring a thread back; no thread exceeds the
  configuration; streams are in order. Line editor: it does not panic outside visual mode, and editing is
  replacement of a part of the text. Slash commands: the parser knows the table, suggestions are close.

  \<^bold>\<open>Where the code falls short\<close>, each with its theorem: surrogate pairs in JSON
  (\<open>surrogate_escape_rejected\<close>), six ways round the read-only filter (\<open>read_only_filter_bypassed\<close>),
  two ways round the workspace check (\<open>workspace_write_escapes\<close>), tool calls lost when an answer is
  interrupted (\<open>interrupted_turn_loses_call\<close>), profile defaults an override can weaken
  (\<open>default_settings_can_be_weakened\<close>), stale secrets that win over newer credentials
  (\<open>stale_secret_survives\<close>), panics on a server's URL or frame (\<open>proxy_url_panics\<close>,
  \<open>oversized_frame_panics\<close>), names and hashes that collide (\<open>names_and_hashes_collide\<close>) and so misroute
  calls (\<open>colliding_servers_misroute\<close>), one broken server that blocks all (\<open>one_broken_server_blocks_all\<close>),
  tools that never ask the enforcer (\<open>enforcer_not_asked\<close>), a plugin tool that answers to a built-in name
  (\<open>plugin_tool_shadows_builtin\<close>), streamed calls without arguments that fail
  (\<open>streamed_call_without_arguments_fails\<close>), messages and events of a thread that are lost when requests
  interleave (\<open>interleaved_message_lost\<close>, \<open>event_sent_late_is_lost\<close>), a token limit that depends on the case of a
  model's name (\<open>max_tokens_depends_on_case\<close>), a visual selection that outlives its text
  (\<open>visual_delete_panics\<close>) and a deleted line that takes the empty one after it (\<open>delete_line_removes_row\<close>).

  \<^bold>\<open>Not modelled.\<close> Costs in \<open>usage.rs\<close> (floating point), \<open>grep\<close> and \<open>glob\<close> search (third-party
  matchers), spawning processes, HTTP routing and transport, SQLite (its answers are arguments), the single tools
  behind the dispatch that are not modelled elsewhere (a field of \<open>ToolHost\<close>), the command line's \<open>main.rs\<close>,
  which prints what the modelled parts return.
\<close>

end
